(* ===== verification/Js_Prelude.thy ===== *)
theory Js_Prelude
  imports Complex_Main "HOL-Library.AList" "HOL-Library.Multiset" "HOL-Library.Sublist"
begin

text \<open>
  The parts of the JavaScript language and standard library that the gateway code uses, and
  the lemmas about them that every component shares.

  \<^item> A JavaScript \<open>Map\<close> iterates in insertion order, and \<open>set\<close> on a present key keeps its
    position: it is an association list, read with \<open>map_of\<close> and changed with
    \<open>AList.update\<close> and \<open>AList.delete\<close>. \<open>jm_wf\<close> says no key occurs twice.
  \<^item> A JavaScript \<open>Set\<close> is a list without repetitions, in insertion order.
  \<^item> A string is an Isabelle \<open>string\<close>: code units 0 to 255.
  \<^item> Clock readings and counters are \<open>int\<close> or \<open>nat\<close>. A \<open>number\<close> that comes from a caller
    and is tested with \<open>Number.isFinite\<close> or rounded is a \<open>jsnum\<close>.
  \<^item> \<open>toSorted\<close> is stable: insertion from the right.
\<close>

named_theorems store_simps \<open>reading a store after it was written\<close>
named_theorems step_simps \<open>what the steps of a component do to the fields of its state\<close>

section \<open>Strings\<close>

definition js_space :: "char \<Rightarrow> bool" where
  "js_space c \<longleftrightarrow> c \<in> set [CHR 0x09, CHR 0x0A, CHR 0x0B, CHR 0x0C, CHR 0x0D, CHR 0x20, CHR 0xA0]"

definition js_trim :: "string \<Rightarrow> string" where
  "js_trim s = rev (dropWhile js_space (rev (dropWhile js_space s)))"

definition js_lower_char :: "char \<Rightarrow> char" where
  "js_lower_char c =
     (let n = (of_char c :: nat)
      in if 65 \<le> n \<and> n \<le> 90 \<or> 192 \<le> n \<and> n \<le> 222 \<and> n \<noteq> 215 then char_of (n + 32) else c)"

definition js_lower :: "string \<Rightarrow> string" where
  "js_lower s = map js_lower_char s"

fun js_starts_with :: "string \<Rightarrow> string \<Rightarrow> bool" where
  "js_starts_with s [] = True"
| "js_starts_with [] (p # ps) = False"
| "js_starts_with (c # cs) (p # ps) = (c = p \<and> js_starts_with cs ps)"

fun js_includes :: "string \<Rightarrow> string \<Rightarrow> bool" where
  "js_includes [] p = (p = [])"
| "js_includes (c # cs) p = (js_starts_with (c # cs) p \<or> js_includes cs p)"

text \<open>\<open>a || b\<close> on strings: the empty string is falsy.\<close>

definition js_or_str :: "string \<Rightarrow> string \<Rightarrow> string" where
  "js_or_str a b = (if a = [] then b else a)"

text \<open>A number in a template string: its decimal digits.\<close>

fun js_digits :: "nat \<Rightarrow> string" where
  "js_digits n = (if n < 10 then [char_of (48 + n)] else js_digits (n div 10) @ [char_of (48 + n mod 10)])"

definition js_int_string :: "int \<Rightarrow> string" where
  "js_int_string n = (if n < 0 then CHR ''-'' # js_digits (nat (- n)) else js_digits (nat n))"

declare js_digits.simps [simp del]

definition js_nullish :: "'a option \<Rightarrow> 'a \<Rightarrow> 'a" where
  "js_nullish a b = (case a of None \<Rightarrow> b | Some x \<Rightarrow> x)"

text \<open>\<open>a ?? b\<close> when \<open>b\<close> may be absent as well.\<close>

definition opt_else :: "'a option \<Rightarrow> 'a option \<Rightarrow> 'a option" where
  "opt_else a b = (case a of None \<Rightarrow> b | Some x \<Rightarrow> Some x)"

lemma js_nullish_simps [simp]:
  "js_nullish None b = b"
  "js_nullish (Some a) b = a"
  by (simp_all add: js_nullish_def)

lemma opt_else_simps [simp]:
  "opt_else None b = b"
  "opt_else (Some a) b = Some a"
  by (simp_all add: opt_else_def)

lemma js_starts_with_iff: "js_starts_with s p \<longleftrightarrow> prefix p s"
  by (induction s p rule: js_starts_with.induct) auto

lemma js_includes_iff: "js_includes s p \<longleftrightarrow> sublist p s"
proof (induction s)
  case Nil
  then show ?case by simp
next
  case (Cons c cs)
  then show ?case by (auto simp: js_starts_with_iff sublist_Cons_right)
qed

lemma js_trim_Nil [simp]: "js_trim [] = []"
  by (simp add: js_trim_def)

lemma js_trim_ends:
  assumes "js_trim s \<noteq> []"
  shows "\<not> js_space (hd (js_trim s))" and "\<not> js_space (last (js_trim s))"
proof -
  let ?d = "dropWhile js_space s"
  have ne: "dropWhile js_space (rev ?d) \<noteq> []"
    using assms by (simp add: js_trim_def)
  then show "\<not> js_space (last (js_trim s))"
    by (simp add: js_trim_def last_rev hd_dropWhile)
  have "js_trim s = rev (dropWhile js_space (rev ?d))"
    by (simp add: js_trim_def)
  moreover have "prefix (rev (dropWhile js_space (rev ?d))) ?d"
    by (metis rev_rev_ident suffix_dropWhile suffix_to_prefix)
  ultimately have pre: "prefix (js_trim s) ?d" by simp
  then obtain zs where zs: "?d = js_trim s @ zs" by (auto simp: prefix_def)
  have "hd (js_trim s) = hd ?d" and "?d \<noteq> []"
    unfolding zs using assms by simp_all
  then show "\<not> js_space (hd (js_trim s))"
    by (simp add: hd_dropWhile)
qed

lemma js_trim_no_ends:
  assumes "s \<noteq> []" "\<not> js_space (hd s)" "\<not> js_space (last s)"
  shows "js_trim s = s"
proof -
  have "dropWhile js_space s = s"
    using assms(1,2) by (cases s) simp_all
  moreover have "dropWhile js_space (rev s) = rev s"
    using assms(1,3) by (cases s rule: rev_cases) simp_all
  ultimately show ?thesis by (simp add: js_trim_def)
qed

lemma js_trim_idem [simp]: "js_trim (js_trim s) = js_trim s"
proof (cases "js_trim s = []")
  case True
  then show ?thesis by simp
next
  case False
  then show ?thesis using js_trim_ends[OF False] by (rule js_trim_no_ends)
qed

text \<open>
  \<open>normalizeNullableString\<close> and \<open>normalizeOptionalString\<close> of \<open>shared/string-coerce.ts\<close>: the
  trimmed string, or nothing when it is not a string or only white space.
\<close>

definition normalizeOptionalString :: "string option \<Rightarrow> string option" where
  "normalizeOptionalString v =
     (case v of None \<Rightarrow> None
      | Some s \<Rightarrow> (let trimmed = js_trim s in if trimmed = [] then None else Some trimmed))"

definition normalizeLowercaseStringOrEmpty :: "string \<Rightarrow> string" where
  "normalizeLowercaseStringOrEmpty s =
     (case normalizeOptionalString (Some s) of None \<Rightarrow> [] | Some t \<Rightarrow> js_lower t)"

lemma normalizeOptionalString_None [simp]: "normalizeOptionalString None = None"
  by (simp add: normalizeOptionalString_def)

lemma normalizeOptionalString_Some:
  "normalizeOptionalString (Some s) = (if js_trim s = [] then None else Some (js_trim s))"
  by (simp add: normalizeOptionalString_def Let_def)

lemma normalizeOptionalString_nonempty:
  "normalizeOptionalString v = Some s \<Longrightarrow> s \<noteq> [] \<and> js_trim s = s"
  by (auto simp: normalizeOptionalString_def Let_def split: option.splits if_splits)

lemma normalizeOptionalString_fix [simp]:
  "normalizeOptionalString v = Some s \<Longrightarrow> normalizeOptionalString (Some s) = Some s"
  by (auto dest!: normalizeOptionalString_nonempty simp: normalizeOptionalString_Some)

section \<open>Numbers\<close>

text \<open>
  A JavaScript number as a caller can pass it: a finite number (here any rational) or one of
  the three values that are not finite.
\<close>

datatype jsnum = Fin rat | PosInf | NegInf | NaN

fun js_is_finite :: "jsnum \<Rightarrow> bool" where
  "js_is_finite (Fin _) = True"
| "js_is_finite _ = False"

fun js_trunc :: "rat \<Rightarrow> int" where
  "js_trunc q = (if q < 0 then - \<lfloor>- q\<rfloor> else \<lfloor>q\<rfloor>)"

section \<open>Maps in insertion order\<close>

type_synonym ('k, 'v) jmap = "('k \<times> 'v) list"

abbreviation jm_get :: "('k, 'v) jmap \<Rightarrow> 'k \<Rightarrow> 'v option" where
  "jm_get m k \<equiv> map_of m k"

abbreviation jm_set :: "'k \<Rightarrow> 'v \<Rightarrow> ('k, 'v) jmap \<Rightarrow> ('k, 'v) jmap" where
  "jm_set k v m \<equiv> AList.update k v m"

abbreviation jm_del :: "'k \<Rightarrow> ('k, 'v) jmap \<Rightarrow> ('k, 'v) jmap" where
  "jm_del k m \<equiv> AList.delete k m"

definition jm_has :: "('k, 'v) jmap \<Rightarrow> 'k \<Rightarrow> bool" where
  "jm_has m k \<longleftrightarrow> k \<in> fst ` set m"

definition jm_wf :: "('k, 'v) jmap \<Rightarrow> bool" where
  "jm_wf m \<longleftrightarrow> distinct (map fst m)"

lemma jm_has_get: "jm_has m k \<longleftrightarrow> jm_get m k \<noteq> None"
  by (simp add: jm_has_def map_of_eq_None_iff)

lemma jm_get_set [store_simps]: "jm_get (jm_set k v m) = (jm_get m)(k \<mapsto> v)"
  by (rule update_conv')

lemma jm_get_del [store_simps]: "jm_get (jm_del k m) = (jm_get m)(k := None)"
  by (rule delete_conv')

lemma jm_wf_Nil [simp]: "jm_wf []"
  by (simp add: jm_wf_def)

lemma jm_wf_set [simp]: "jm_wf (jm_set k v m) = jm_wf m"
  by (auto simp: jm_wf_def update_keys)

lemma jm_wf_del [simp]: "jm_wf m \<Longrightarrow> jm_wf (jm_del k m)"
  by (simp add: jm_wf_def distinct_delete)

lemma jm_wf_filter [simp]: "jm_wf m \<Longrightarrow> jm_wf (filter P m)"
  unfolding jm_wf_def by (rule distinct_map_filter)

lemma jm_wf_tl [simp]: "jm_wf m \<Longrightarrow> jm_wf (tl m)"
  by (cases m) (auto simp: jm_wf_def)

lemma jm_wf_get: "jm_wf m \<Longrightarrow> (k, v) \<in> set m \<longleftrightarrow> jm_get m k = Some v"
  by (simp add: jm_wf_def)

lemma jm_get_in: "jm_get m k = Some v \<Longrightarrow> (k, v) \<in> set m"
  by (rule map_of_SomeD)

lemma jm_get_filter:
  "jm_wf m \<Longrightarrow>
   jm_get (filter P m) k = (case jm_get m k of Some v \<Rightarrow> if P (k, v) then Some v else None | None \<Rightarrow> None)"
  unfolding jm_wf_def
proof (induction m)
  case (Cons p m)
  obtain k' v' where p: "p = (k', v')" by (cases p)
  show ?case
  proof (cases "k = k'")
    case True
    with Cons.prems p have "map_of m k = None" "map_of (filter P m) k = None"
      by (auto simp: map_of_eq_None_iff)
    with True p show ?thesis by simp
  next
    case False
    with Cons p show ?thesis by simp
  qed
qed simp

text \<open>Setting a key that is absent appends; setting a present key keeps the order of the keys.\<close>

lemma jm_set_absent: "jm_get m k = None \<Longrightarrow> jm_set k v m = m @ [(k, v)]"
  by (induction m) (auto split: if_splits)

lemma jm_set_keys:
  "map fst (jm_set k v m) = (if jm_get m k = None then map fst m @ [k] else map fst m)"
  by (simp add: update_keys map_of_eq_None_iff)

lemma jm_del_absent [simp]: "jm_get m k = None \<Longrightarrow> jm_del k m = m"
  by (simp add: delete_id map_of_eq_None_iff)

lemma jm_del_head:
  assumes "jm_wf (p # ps)"
  shows "jm_del (fst p) (p # ps) = ps"
proof -
  have "fst p \<notin> fst ` set ps" using assms by (simp add: jm_wf_def)
  then show ?thesis by (cases p) (simp add: delete_id)
qed

lemma length_jm_set:
  "length (jm_set k v m) = (if jm_get m k = None then Suc (length m) else length m)"
  using arg_cong[OF jm_set_keys[of k v m], of length] by (simp split: if_splits)

lemma length_jm_del_le: "length (jm_del k m) \<le> length m"
  by (simp add: AList.delete_eq)

lemma set_jm_set_sub: "set (jm_set k v m) \<subseteq> insert (k, v) (set m)"
  by (induction m) auto

lemma set_jm_set_wf:
  "jm_wf m \<Longrightarrow> set (jm_set k v m) = insert (k, v) {p \<in> set m. fst p \<noteq> k}"
  unfolding jm_wf_def by (induction m) (auto, force+)

lemma set_jm_del: "set (jm_del k m) = {p \<in> set m. fst p \<noteq> k}"
  by (auto simp: AList.delete_eq)

lemma find_SomeD: "find Q xs = Some x \<Longrightarrow> x \<in> set xs \<and> Q x"
  by (auto simp: find_Some_iff)

text \<open>A property of a map that every entry has for itself: what is stored suits its key.\<close>

lemma keyed_set:
  assumes "jm_wf m \<and> (\<forall>(k, v) \<in> set m. P k v)" "P k v"
  shows "jm_wf (jm_set k v m) \<and> (\<forall>(k, v) \<in> set (jm_set k v m). P k v)"
  using assms by (auto simp: set_jm_set_wf)

lemma keyed_del:
  assumes "jm_wf m \<and> (\<forall>(k, v) \<in> set m. P k v)"
  shows "jm_wf (jm_del k m) \<and> (\<forall>(k, v) \<in> set (jm_del k m). P k v)"
  using assms by (auto simp: set_jm_del)

lemma keyed_filter:
  assumes "jm_wf m \<and> (\<forall>(k, v) \<in> set m. P k v)"
  shows "jm_wf (filter Q m) \<and> (\<forall>(k, v) \<in> set (filter Q m). P k v)"
  using assms by auto

lemma keyed_get: "\<forall>(k, v) \<in> set m. P k v \<Longrightarrow> jm_get m k = Some v \<Longrightarrow> P k v"
  by (auto dest: jm_get_in)

text \<open>
  A quantity summed over the values of a map: what a write changes is the summand of its key.
  The quantity is a number for sizes and a multiset for the tickets a queue holds.
\<close>

definition jm_sum :: "('v \<Rightarrow> 'b::comm_monoid_add) \<Rightarrow> ('k, 'v) jmap \<Rightarrow> 'b" where
  "jm_sum f m = sum_list (map (\<lambda>p. f (snd p)) m)"

lemma jm_sum_simps [simp]:
  "jm_sum f [] = 0"
  "jm_sum f ((k, v) # m) = f v + jm_sum f m"
  by (simp_all add: jm_sum_def)

lemma jm_sum_append [simp]: "jm_sum f (m @ m') = jm_sum f m + jm_sum f m'"
  by (simp add: jm_sum_def)

lemma jm_sum_set_new:
  "jm_get m k = None \<Longrightarrow> jm_sum f (jm_set k v m) = jm_sum f m + f v"
  by (simp add: jm_set_absent)

lemma jm_sum_set_old:
  "jm_get m k = Some old \<Longrightarrow> jm_sum f (jm_set k v m) + f old = jm_sum f m + f v"
  by (induction m) (auto simp: algebra_simps split: if_splits)

lemma jm_sum_del:
  "jm_wf m \<Longrightarrow> jm_get m k = Some old \<Longrightarrow> jm_sum f (jm_del k m) + f old = jm_sum f m"
  unfolding jm_wf_def
proof (induction m)
  case (Cons p m)
  obtain k' v' where p: "p = (k', v')" by (cases p)
  show ?case
  proof (cases "k' = k")
    case True
    with Cons.prems p have "k \<notin> fst ` set m" and "v' = old" by auto
    with True p show ?thesis by (simp add: delete_id algebra_simps)
  next
    case False
    with Cons have "jm_sum f (jm_del k m) + f old = jm_sum f m" by (auto simp: p)
    with False p show ?thesis by (simp add: add.assoc)
  qed
qed simp

lemma jm_sum_member_subset:
  fixes f :: "'v \<Rightarrow> 'b multiset"
  shows "jm_get m k = Some v \<Longrightarrow> f v \<subseteq># jm_sum f m"
proof (induction m)
  case (Cons p m)
  obtain k' v' where p: "p = (k', v')" by (cases p)
  show ?case
  proof (cases "k' = k")
    case True
    with Cons.prems p show ?thesis by simp
  next
    case False
    with Cons p have "f v \<subseteq># jm_sum f m" by simp
    then show ?thesis using p by (simp add: subset_mset.add_increasing)
  qed
qed simp

lemma jm_get_map: "jm_get (map (\<lambda>(k, v). (k, f v)) m) k = map_option f (jm_get m k)"
  by (induction m) auto

lemma jm_sum_map: "(\<And>v. g (f v) = g v) \<Longrightarrow> jm_sum g (map (\<lambda>(k, v). (k, f v)) m) = jm_sum g m"
  by (induction m) auto

lemma jm_wf_map [simp]: "jm_wf (map (\<lambda>(k, v). (k, f v)) m) = jm_wf m"
  by (simp add: jm_wf_def case_prod_unfold comp_def)

section \<open>Sets in insertion order\<close>

definition js_add :: "'a \<Rightarrow> 'a list \<Rightarrow> 'a list" where
  "js_add x s = (if x \<in> set s then s else s @ [x])"

definition uniqueValues :: "'a list \<Rightarrow> 'a list" where
  "uniqueValues xs = foldl (\<lambda>s x. js_add x s) [] xs"

lemma set_js_add [simp]: "set (js_add x s) = insert x (set s)"
  by (auto simp: js_add_def)

lemma distinct_js_add [simp]: "distinct (js_add x s) = distinct s"
  by (auto simp: js_add_def)

lemma uniqueValues_foldl:
  "set (foldl (\<lambda>s x. js_add x s) acc xs) = set acc \<union> set xs"
  "distinct acc \<Longrightarrow> distinct (foldl (\<lambda>s x. js_add x s) acc xs)"
  by (induction xs arbitrary: acc) auto

lemma set_uniqueValues [simp]: "set (uniqueValues xs) = set xs"
  by (simp add: uniqueValues_def uniqueValues_foldl)

lemma distinct_uniqueValues [simp]: "distinct (uniqueValues xs)"
  by (simp add: uniqueValues_def uniqueValues_foldl)

lemma uniqueValues_eq_Nil [simp]: "uniqueValues xs = [] \<longleftrightarrow> xs = []"
  by (metis set_uniqueValues set_empty)

section \<open>Stable sorting\<close>

text \<open>\<open>le a b\<close> stands for a comparator result of at most zero.\<close>

fun js_insert :: "('a \<Rightarrow> 'a \<Rightarrow> bool) \<Rightarrow> 'a \<Rightarrow> 'a list \<Rightarrow> 'a list" where
  "js_insert le x [] = [x]"
| "js_insert le x (y # ys) = (if le x y then x # y # ys else y # js_insert le x ys)"

definition js_sort :: "('a \<Rightarrow> 'a \<Rightarrow> bool) \<Rightarrow> 'a list \<Rightarrow> 'a list" where
  "js_sort le xs = foldr (js_insert le) xs []"

lemma js_sort_simps [simp]:
  "js_sort le [] = []"
  "js_sort le (x # xs) = js_insert le x (js_sort le xs)"
  by (simp_all add: js_sort_def)

lemma mset_js_insert [simp]: "mset (js_insert le x xs) = add_mset x (mset xs)"
  by (induction xs) auto

lemma mset_js_sort [simp]: "mset (js_sort le xs) = mset xs"
  by (induction xs) auto

lemma set_js_sort [simp]: "set (js_sort le xs) = set xs"
  by (metis mset_js_sort set_mset_mset)

lemma length_js_sort [simp]: "length (js_sort le xs) = length xs"
  by (metis mset_js_sort size_mset)

lemma set_js_insert [simp]: "set (js_insert le x xs) = insert x (set xs)"
  by (induction xs) auto

lemma sorted_js_insert:
  assumes total: "\<And>a b. le a b \<or> le b a"
    and trans: "\<And>a b c. le a b \<Longrightarrow> le b c \<Longrightarrow> le a c"
    and "sorted_wrt le xs"
  shows "sorted_wrt le (js_insert le x xs)"
  using assms(3)
proof (induction xs)
  case (Cons y ys)
  show ?case
  proof (cases "le x y")
    case True
    with Cons.prems trans show ?thesis by auto
  next
    case False
    with total have "le y x" by blast
    with False Cons show ?thesis by simp
  qed
qed simp

lemma sorted_js_sort:
  assumes "\<And>a b. le a b \<or> le b a" and "\<And>a b c. le a b \<Longrightarrow> le b c \<Longrightarrow> le a c"
  shows "sorted_wrt le (js_sort le xs)"
  by (induction xs) (simp_all add: sorted_js_insert[of le, OF assms])

section \<open>Lists\<close>

text \<open>Splitting a list where a predicate first fails to hold: where a sorted insert goes.\<close>

lemma find_index_take_drop:
  "takeWhile P xs @ x # dropWhile P xs = take (length (takeWhile P xs)) xs @ x # drop (length (takeWhile P xs)) xs"
  by (metis append_eq_conv_conj takeWhile_dropWhile_id)

lemma mset_filter_not: "mset (filter P xs) + mset (filter (\<lambda>x. \<not> P x) xs) = mset xs"
  by simp

lemma distinct_mset_eq: "mset xs = mset ys \<Longrightarrow> distinct xs = distinct ys"
  by (metis distinct_count_atmost_1 mset_eq_imp_distinct_iff)

lemma find_Some_split:
  assumes "find P xs = Some x"
  obtains pre post where "xs = pre @ x # post" "P x" "\<forall>y \<in> set pre. \<not> P y"
proof -
  have "\<exists>pre post. xs = pre @ x # post \<and> P x \<and> (\<forall>y \<in> set pre. \<not> P y)"
    using assms
  proof (induction xs)
    case (Cons y ys)
    show ?case
    proof (cases "P y")
      case True
      then show ?thesis using Cons.prems by (intro exI[of _ "[]"] exI[of _ ys]) simp
    next
      case False
      then obtain pre post where "ys = pre @ x # post" "P x" "\<forall>y \<in> set pre. \<not> P y"
        using Cons by auto
      then show ?thesis using False by (intro exI[of _ "y # pre"] exI[of _ post]) simp
    qed
  qed simp
  then show ?thesis using that by blast
qed

end
