(* ===== verification/Contracts.thy ===== *)
theory Contracts
  imports Js_Prelude
begin

text \<open>
  The contracts the components of the gateway share, as locales: a keyed store (what a caller
  of a JavaScript \<open>Map\<close> relies on), a system with an invariant (a component driven by
  events), a cell that is written once (a decision, a result, a reason) and an admission
  window (a limiter that counts what it lets through). Each component interprets the
  contracts it provides in its own theory.
\<close>

section \<open>Keyed store\<close>

locale keyed_store =
  fixes get :: "'m \<Rightarrow> 'k \<Rightarrow> 'v option"
    and put :: "'k \<Rightarrow> 'v \<Rightarrow> 'm \<Rightarrow> 'm"
    and del :: "'k \<Rightarrow> 'm \<Rightarrow> 'm"
    and ok :: "'m \<Rightarrow> bool"
  assumes get_put: "ok m \<Longrightarrow> get (put k v m) = (get m)(k \<mapsto> v)"
    and get_del: "ok m \<Longrightarrow> get (del k m) = (get m)(k := None)"
    and ok_put: "ok m \<Longrightarrow> ok (put k v m)"
    and ok_del: "ok m \<Longrightarrow> ok (del k m)"
begin

lemma get_put_same: "ok m \<Longrightarrow> get (put k v m) k = Some v"
  by (simp add: get_put)

lemma get_put_other: "ok m \<Longrightarrow> k' \<noteq> k \<Longrightarrow> get (put k v m) k' = get m k'"
  by (simp add: get_put)

lemma get_del_other: "ok m \<Longrightarrow> k' \<noteq> k \<Longrightarrow> get (del k m) k' = get m k'"
  by (simp add: get_del)

lemma get_touch: "ok m \<Longrightarrow> get (put k v (del k m)) = (get m)(k \<mapsto> v)"
  by (simp add: get_put get_del ok_del)

lemma put_get: "ok m \<Longrightarrow> get m k = Some v \<Longrightarrow> get (put k v m) = get m"
  by (simp add: get_put map_upd_triv)

end

interpretation jm: keyed_store map_of AList.update AList.delete jm_wf
  by unfold_locales (simp_all add: store_simps)

section \<open>Systems with an invariant\<close>

locale invariant_system =
  fixes init :: "'s \<Rightarrow> bool"
    and step :: "'s \<Rightarrow> 's \<Rightarrow> bool"
    and inv :: "'s \<Rightarrow> bool"
  assumes inv_init: "init s \<Longrightarrow> inv s"
    and inv_step: "inv s \<Longrightarrow> step s t \<Longrightarrow> inv t"
begin

lemma run_inv:
  assumes "rtranclp step s t" and "inv s"
  shows "inv t"
  using assms by (induction rule: rtranclp_induct) (auto intro: inv_step)

lemma reachable_inv: "init s \<Longrightarrow> rtranclp step s t \<Longrightarrow> inv t"
  by (blast intro: run_inv inv_init)

end

section \<open>Cells written once\<close>

text \<open>
  A state with an optional result that no event changes once it is there: the decision of an
  approval, the result of a reply operation. Whatever happens after, the first one stands.
\<close>

locale write_once =
  fixes cell :: "'s \<Rightarrow> 'r option"
    and apply_ev :: "'e \<Rightarrow> 's \<Rightarrow> 's"
  assumes once: "cell s = Some r \<Longrightarrow> cell (apply_ev e s) = Some r"
begin

lemma run_once: "cell s = Some r \<Longrightarrow> cell (fold apply_ev es s) = Some r"
  by (induction es arbitrary: s) (auto intro: once)

text \<open>Two readers of the cell, at any two moments of a run, never disagree.\<close>

lemma readers_agree:
  assumes "cell (fold apply_ev es s) = Some r"
    and "cell (fold apply_ev (es @ es') s) = Some r'"
  shows "r = r'"
  using run_once[OF assms(1), of es'] assms(2) by simp

end

section \<open>Memoised functions\<close>

text \<open>
  An operation that answers from a cache it keeps: in every state the cache can be in, its
  answer is a function of the question. \<open>memo_run\<close> asks a list of questions one after another.
\<close>

primrec memo_run :: "('a \<Rightarrow> 's \<Rightarrow> 'b \<times> 's) \<Rightarrow> 'a list \<Rightarrow> 's \<Rightarrow> 'b list \<times> 's" where
  "memo_run opn [] s = ([], s)"
| "memo_run opn (a # as) s =
     (let (b, s') = opn a s; (bs, s'') = memo_run opn as s' in (b # bs, s''))"

locale memoised =
  fixes answer :: "'a \<Rightarrow> 'b"
    and opn :: "'a \<Rightarrow> 's \<Rightarrow> 'b \<times> 's"
    and ok :: "'s \<Rightarrow> bool"
    and asked :: "'a \<Rightarrow> bool"
  assumes op_answer: "ok s \<Longrightarrow> asked a \<Longrightarrow> fst (opn a s) = answer a"
    and op_ok: "ok s \<Longrightarrow> asked a \<Longrightarrow> ok (snd (opn a s))"
begin

lemma run_answers:
  "ok s \<Longrightarrow> list_all asked as \<Longrightarrow> fst (memo_run opn as s) = map answer as \<and> ok (snd (memo_run opn as s))"
proof (induction as arbitrary: s)
  case (Cons a as)
  have "fst (opn a s) = answer a" "ok (snd (opn a s))" using Cons.prems by (simp_all add: op_answer op_ok)
  then show ?case using Cons.IH[of "snd (opn a s)"] Cons.prems by (simp add: Let_def case_prod_unfold)
qed simp

end

end
