(* ===== verification/Command_Queue.thy ===== *)
theory Command_Queue
  imports Contracts
begin

text \<open>
  \<open>src/process/command-queue.ts\<close>: the in-process queue that serialises command executions
  per lane. The state of the module is \<open>queue_state\<close>; each exported function is a definition
  of the same name. A call of \<open>Date.now()\<close> is the argument \<open>now\<close>.

  The queue runs caller-supplied asynchronous closures. The model keeps, beside the fields of
  the source, what those closures hold: \<open>running\<close> is the table of the started tasks (the
  captured entry, lane and generation, keyed by the captured task id), \<open>settled\<close> records the
  calls of \<open>entry.resolve\<close> and \<open>entry.reject\<close> by the entry's sequence number, \<open>waiterResults\<close>
  the resolved waits and \<open>waitNotices\<close> the calls of \<open>entry.onWait\<close>. A value a task returns
  or throws is an opaque number. Log lines are not modelled.
\<close>

section \<open>State\<close>

datatype queue_error =
    CommandLaneClearedError string
  | CommandLaneTaskTimeoutError string int
  | GatewayDrainingError
  | TaskError nat

datatype outcome = Resolved nat | Rejected queue_error

datatype queue_priority = foreground | normal | background

record enqueue_options =
  optWarnAfterMs :: "int option"
  optOnWait :: bool
  optTaskTimeoutMs :: "jsnum option"
  optPriority :: "queue_priority option"

record queue_entry =
  enqueuedAt :: int
  sequence :: nat
  priority :: int
  warnAfterMs :: int
  queuedAheadAtEnqueue :: nat
  activeAheadAtEnqueue :: nat
  taskTimeoutMs :: "int option"
  onWait :: bool

record lane_state =
  lane :: string
  queue :: "queue_entry list"
  activeTaskIds :: "nat list"
  maxConcurrent :: int
  draining :: bool
  generation :: nat

record lane_snapshot =
  snapLane :: string
  queuedCount :: nat
  activeCount :: nat
  snapMaxConcurrent :: int
  snapDraining :: bool
  snapGeneration :: nat

record task_waiter =
  waiterId :: nat
  waiterTaskIds :: "nat list"

record running_task =
  runLane :: string
  runEntry :: queue_entry
  runGeneration :: nat
  runStartedAt :: int

record queue_state =
  gatewayDraining :: bool
  lanes :: "(string, lane_state) jmap"
  activeTaskWaiters :: "task_waiter list"
  nextTaskId :: nat
  nextQueueSequence :: nat
  running :: "(nat, running_task) jmap"
  settled :: "(nat \<times> outcome) list"
  nextWaiterId :: nat
  waiterResults :: "(nat \<times> bool) list"
  waitNotices :: "(nat \<times> int \<times> nat) list"

definition CommandLane_Main :: string where
  "CommandLane_Main = ''main''"

definition initial_queue_state :: queue_state where
  "initial_queue_state =
     \<lparr>gatewayDraining = False, lanes = [], activeTaskWaiters = [], nextTaskId = 1,
      nextQueueSequence = 1, running = [], settled = [], nextWaiterId = 1,
      waiterResults = [], waitNotices = []\<rparr>"

section \<open>Lane helpers\<close>

definition normalizeLane :: "string \<Rightarrow> string" where
  "normalizeLane l = js_or_str (js_trim l) CommandLane_Main"

definition getLaneDepth :: "lane_state \<Rightarrow> nat" where
  "getLaneDepth ls = length (queue ls) + length (activeTaskIds ls)"

definition createCommandLaneSnapshot :: "lane_state \<Rightarrow> lane_snapshot" where
  "createCommandLaneSnapshot ls =
     \<lparr>snapLane = lane ls, queuedCount = length (queue ls),
      activeCount = length (activeTaskIds ls), snapMaxConcurrent = maxConcurrent ls,
      snapDraining = draining ls, snapGeneration = generation ls\<rparr>"

definition fresh_lane :: "string \<Rightarrow> lane_state" where
  "fresh_lane l =
     \<lparr>lane = l, queue = [], activeTaskIds = [], maxConcurrent = 1, draining = False,
      generation = 0\<rparr>"

text \<open>The source mutates the lane object it got; the model writes it back.\<close>

definition put_lane :: "lane_state \<Rightarrow> queue_state \<Rightarrow> queue_state" where
  "put_lane ls st = st\<lparr>lanes := jm_set (lane ls) ls (lanes st)\<rparr>"

definition getLaneState :: "string \<Rightarrow> queue_state \<Rightarrow> lane_state \<times> queue_state" where
  "getLaneState l st =
     (case jm_get (lanes st) l of
        Some existing \<Rightarrow> (existing, st)
      | None \<Rightarrow> (let created = fresh_lane l in (created, put_lane created st)))"

text \<open>
  \<open>getQueueState\<close> repairs a state created by older code: its only effect on a state whose
  entries are complete is that the next sequence number is above every sequence number in use.
\<close>

definition getQueueState_sequence :: "queue_state \<Rightarrow> queue_state" where
  "getQueueState_sequence st =
     (let next0 = (if nextQueueSequence st = 0 then 1 else nextQueueSequence st);
          maxSeq = fold max (concat (map (\<lambda>p. map sequence (queue (snd p))) (lanes st))) (next0 - 1)
      in st\<lparr>nextQueueSequence := (if next0 \<le> maxSeq then maxSeq + 1 else next0)\<rparr>)"

definition completeTask :: "lane_state \<Rightarrow> nat \<Rightarrow> nat \<Rightarrow> bool \<times> lane_state" where
  "completeTask ls taskId taskGeneration =
     (if taskGeneration \<noteq> generation ls then (False, ls)
      else (True, ls\<lparr>activeTaskIds := removeAll taskId (activeTaskIds ls)\<rparr>))"

definition hasPendingActiveTasks :: "nat list \<Rightarrow> queue_state \<Rightarrow> bool" where
  "hasPendingActiveTasks taskIds st =
     list_ex (\<lambda>p. list_ex (\<lambda>t. List.member taskIds t) (activeTaskIds (snd p))) (lanes st)"

section \<open>Waiters\<close>

definition resolveActiveTaskWaiter :: "task_waiter \<Rightarrow> bool \<Rightarrow> queue_state \<Rightarrow> queue_state" where
  "resolveActiveTaskWaiter w drained st =
     (if w \<in> set (activeTaskWaiters st)
      then st\<lparr>activeTaskWaiters := removeAll w (activeTaskWaiters st),
              waiterResults := waiterResults st @ [(waiterId w, drained)]\<rparr>
      else st)"

definition notifyActiveTaskWaiters :: "queue_state \<Rightarrow> queue_state" where
  "notifyActiveTaskWaiters st =
     fold (\<lambda>w s. if waiterTaskIds w = [] \<or> \<not> hasPendingActiveTasks (waiterTaskIds w) s
                 then resolveActiveTaskWaiter w True s else s)
       (activeTaskWaiters st) st"

section \<open>Timeouts and priorities\<close>

fun normalizeTaskTimeoutMs :: "jsnum option \<Rightarrow> int option" where
  "normalizeTaskTimeoutMs (Some (Fin q)) = (if q \<le> 0 then None else Some (max 1 \<lfloor>q\<rfloor>))"
| "normalizeTaskTimeoutMs _ = None"

fun resolveQueuePriority :: "queue_priority option \<Rightarrow> int" where
  "resolveQueuePriority (Some foreground) = 1"
| "resolveQueuePriority (Some background) = -1"
| "resolveQueuePriority _ = 0"

text \<open>\<open>readLastProgressAtMs\<close>: a callback that throws leaves the value undefined.\<close>

fun readLastProgressAtMs :: "int \<Rightarrow> jsnum option \<Rightarrow> int" where
  "readLastProgressAtMs startedAtMs (Some (Fin q)) =
     (if q > 0 then max startedAtMs \<lfloor>q\<rfloor> else startedAtMs)"
| "readLastProgressAtMs startedAtMs _ = startedAtMs"

text \<open>\<open>armTimeout\<close>: \<open>None\<close> rejects the race, \<open>Some d\<close> sets the timer again for \<open>d\<close> ms.\<close>

definition armTimeout :: "int \<Rightarrow> int \<Rightarrow> jsnum option \<Rightarrow> int \<Rightarrow> int option" where
  "armTimeout timeoutMs startedAtMs progress now =
     (let elapsedMs = max 0 (now - readLastProgressAtMs startedAtMs progress);
          remainingMs = timeoutMs - elapsedMs
      in if remainingMs \<le> 0 then None else Some remainingMs)"

section \<open>Ordered insertion\<close>

definition entry_after :: "queue_entry \<Rightarrow> queue_entry \<Rightarrow> bool" where
  "entry_after queued entry \<longleftrightarrow>
     priority queued < priority entry \<or>
     (priority queued = priority entry \<and> sequence queued > sequence entry)"

fun findIndex :: "('a \<Rightarrow> bool) \<Rightarrow> 'a list \<Rightarrow> nat option" where
  "findIndex P [] = None"
| "findIndex P (x # xs) = (if P x then Some 0 else map_option Suc (findIndex P xs))"

definition enqueueLaneEntry :: "lane_state \<Rightarrow> queue_entry \<Rightarrow> lane_state" where
  "enqueueLaneEntry ls entry =
     (let insertAt = findIndex (\<lambda>queued. entry_after queued entry) (queue ls);
          entry' = entry\<lparr>queuedAheadAtEnqueue :=
                           (case insertAt of None \<Rightarrow> length (queue ls) | Some i \<Rightarrow> i),
                         activeAheadAtEnqueue := length (activeTaskIds ls)\<rparr>
      in case insertAt of
           None \<Rightarrow> ls\<lparr>queue := queue ls @ [entry']\<rparr>
         | Some i \<Rightarrow> ls\<lparr>queue := take i (queue ls) @ entry' # drop i (queue ls)\<rparr>)"

section \<open>Draining\<close>

text \<open>One iteration of the loop of \<open>pump\<close>: the head of the queue becomes a running task.\<close>

definition start_entry ::
  "int \<Rightarrow> queue_entry \<Rightarrow> queue_entry list \<Rightarrow> lane_state \<Rightarrow> queue_state \<Rightarrow> lane_state \<times> queue_state"
where
  "start_entry now entry rest ls st =
     (let waitedMs = now - enqueuedAt entry;
          taskId = nextTaskId st;
          st1 = (if waitedMs \<ge> warnAfterMs entry \<and> onWait entry
                 then st\<lparr>waitNotices := waitNotices st @
                            [(sequence entry, waitedMs, queuedAheadAtEnqueue entry)]\<rparr>
                 else st)
      in (ls\<lparr>queue := rest, activeTaskIds := js_add taskId (activeTaskIds ls)\<rparr>,
          st1\<lparr>nextTaskId := taskId + 1,
              running := running st1 @
                [(taskId, \<lparr>runLane = lane ls, runEntry = entry,
                           runGeneration = generation ls, runStartedAt = now\<rparr>)]\<rparr>))"

function pump_loop :: "int \<Rightarrow> lane_state \<Rightarrow> queue_state \<Rightarrow> lane_state \<times> queue_state" where
  "pump_loop now ls st =
     (if int (length (activeTaskIds ls)) < maxConcurrent ls then
        (case queue ls of
           [] \<Rightarrow> (ls, st)
         | entry # rest \<Rightarrow>
             (case start_entry now entry rest ls st of (ls', st') \<Rightarrow> pump_loop now ls' st'))
      else (ls, st))"
  by pat_completeness auto
termination
  by (relation "measure (\<lambda>(now, ls, st). length (queue ls))")
    (auto simp: start_entry_def Let_def split: if_splits)

declare pump_loop.simps [simp del]

definition pump :: "int \<Rightarrow> lane_state \<Rightarrow> queue_state \<Rightarrow> queue_state" where
  "pump now ls st =
     (case pump_loop now ls st of (ls', st') \<Rightarrow> put_lane (ls'\<lparr>draining := False\<rparr>) st')"

definition drainLane :: "int \<Rightarrow> string \<Rightarrow> queue_state \<Rightarrow> queue_state" where
  "drainLane now l st =
     (case getLaneState l st of (ls, st1) \<Rightarrow>
        if draining ls then st1 else pump now (ls\<lparr>draining := True\<rparr>) st1)"

section \<open>Exported operations\<close>

definition markGatewayDraining :: "queue_state \<Rightarrow> queue_state" where
  "markGatewayDraining st = st\<lparr>gatewayDraining := True\<rparr>"

definition isGatewayDraining :: "queue_state \<Rightarrow> bool" where
  "isGatewayDraining st = gatewayDraining st"

definition isProbeLane :: "string \<Rightarrow> bool" where
  "isProbeLane l \<longleftrightarrow> js_starts_with l ''auth-probe:'' \<or> js_starts_with l ''session:probe-''"

definition setCommandLaneConcurrency :: "int \<Rightarrow> string \<Rightarrow> rat \<Rightarrow> queue_state \<Rightarrow> queue_state" where
  "setCommandLaneConcurrency now l maxConc st =
     (let cleaned = normalizeLane l in
      case getLaneState cleaned st of (ls, st1) \<Rightarrow>
        (let minConcurrent = (if isProbeLane cleaned then 1 else 0);
             ls' = ls\<lparr>maxConcurrent := max minConcurrent \<lfloor>maxConc\<rfloor>\<rparr>;
             st2 = put_lane ls' st1
         in if maxConcurrent ls' > 0 then drainLane now cleaned st2 else st2))"

definition new_entry :: "int \<Rightarrow> nat \<Rightarrow> enqueue_options \<Rightarrow> queue_entry" where
  "new_entry now seq opts =
     \<lparr>enqueuedAt = now, sequence = seq, priority = resolveQueuePriority (optPriority opts),
      warnAfterMs = js_nullish (optWarnAfterMs opts) 2000,
      queuedAheadAtEnqueue = 0, activeAheadAtEnqueue = 0,
      taskTimeoutMs = normalizeTaskTimeoutMs (optTaskTimeoutMs opts),
      onWait = optOnWait opts\<rparr>"

text \<open>
  The result is the rejection, or the ticket of the promise: the sequence number of its entry.
\<close>

definition enqueueCommandInLane ::
  "int \<Rightarrow> string \<Rightarrow> enqueue_options \<Rightarrow> queue_state \<Rightarrow> (queue_error + nat) \<times> queue_state"
where
  "enqueueCommandInLane now l opts st =
     (if gatewayDraining st then (Inl GatewayDrainingError, st)
      else let cleaned = normalizeLane l in
           case getLaneState cleaned st of (ls, st1) \<Rightarrow>
             (let seq = nextQueueSequence st1;
                  ls' = enqueueLaneEntry ls (new_entry now seq opts);
                  st2 = put_lane ls' (st1\<lparr>nextQueueSequence := seq + 1\<rparr>)
              in (Inr seq, drainLane now cleaned st2)))"

definition enqueueCommand ::
  "int \<Rightarrow> enqueue_options \<Rightarrow> queue_state \<Rightarrow> (queue_error + nat) \<times> queue_state" where
  "enqueueCommand now opts st = enqueueCommandInLane now CommandLane_Main opts st"

definition settle :: "nat \<Rightarrow> outcome \<Rightarrow> queue_state \<Rightarrow> queue_state" where
  "settle seq out st = st\<lparr>settled := settled st @ [(seq, out)]\<rparr>"

text \<open>
  The end of the asynchronous closure of \<open>pump\<close>, on both its paths: free the slot unless the
  lane moved to another generation, wake the waiters, pump, settle the caller's promise.
\<close>

definition finishTask :: "int \<Rightarrow> nat \<Rightarrow> outcome \<Rightarrow> queue_state \<Rightarrow> queue_state" where
  "finishTask now taskId out st =
     (case jm_get (running st) taskId of
        None \<Rightarrow> st
      | Some r \<Rightarrow>
          (case getLaneState (runLane r) st of (ls, st0) \<Rightarrow>
           case completeTask ls taskId (runGeneration r) of (completed, ls') \<Rightarrow>
             (let st1 = put_lane ls' (st0\<lparr>running := jm_del taskId (running st0)\<rparr>);
                  st2 = (if completed then pump now ls' (notifyActiveTaskWaiters st1) else st1)
              in settle (sequence (runEntry r)) out st2)))"

text \<open>The timer of \<open>runQueueEntryTask\<close> fires for a running task.\<close>

definition timeoutTick :: "int \<Rightarrow> jsnum option \<Rightarrow> nat \<Rightarrow> queue_state \<Rightarrow> queue_state" where
  "timeoutTick now progress taskId st =
     (case jm_get (running st) taskId of
        None \<Rightarrow> st
      | Some r \<Rightarrow>
          (case taskTimeoutMs (runEntry r) of
             None \<Rightarrow> st
           | Some t \<Rightarrow>
               (case armTimeout t (runStartedAt r) progress now of
                  Some _ \<Rightarrow> st
                | None \<Rightarrow>
                    finishTask now taskId (Rejected (CommandLaneTaskTimeoutError (runLane r) t)) st)))"

definition getQueueSize :: "string \<Rightarrow> queue_state \<Rightarrow> nat" where
  "getQueueSize l st =
     (case jm_get (lanes st) (normalizeLane l) of None \<Rightarrow> 0 | Some ls \<Rightarrow> getLaneDepth ls)"

definition getCommandLaneSnapshot :: "string \<Rightarrow> queue_state \<Rightarrow> lane_snapshot" where
  "getCommandLaneSnapshot l st =
     (let resolved = normalizeLane l in
      case jm_get (lanes st) resolved of
        None \<Rightarrow> \<lparr>snapLane = resolved, queuedCount = 0, activeCount = 0, snapMaxConcurrent = 1,
                 snapDraining = False, snapGeneration = 0\<rparr>
      | Some ls \<Rightarrow> createCommandLaneSnapshot ls)"

text \<open>\<open>le\<close> stands for \<open>localeCompare\<close>, which depends on the host's locale data.\<close>

definition getCommandLaneSnapshots ::
  "(string \<Rightarrow> string \<Rightarrow> bool) \<Rightarrow> queue_state \<Rightarrow> lane_snapshot list" where
  "getCommandLaneSnapshots le st =
     js_sort (\<lambda>a b. le (snapLane a) (snapLane b))
       (map (\<lambda>p. createCommandLaneSnapshot (snd p)) (lanes st))"

definition getTotalQueueSize :: "queue_state \<Rightarrow> nat" where
  "getTotalQueueSize st = fold (\<lambda>p total. total + getLaneDepth (snd p)) (lanes st) 0"

definition getActiveTaskCount :: "queue_state \<Rightarrow> nat" where
  "getActiveTaskCount st = fold (\<lambda>p total. total + length (activeTaskIds (snd p))) (lanes st) 0"

definition clearCommandLane :: "string \<Rightarrow> queue_state \<Rightarrow> nat \<times> queue_state" where
  "clearCommandLane l st =
     (let cleaned = normalizeLane l in
      case jm_get (lanes st) cleaned of
        None \<Rightarrow> (0, st)
      | Some ls \<Rightarrow>
          (length (queue ls),
           fold (\<lambda>e s. settle (sequence e) (Rejected (CommandLaneClearedError cleaned)) s)
             (queue ls) (put_lane (ls\<lparr>queue := []\<rparr>) st)))"

definition reset_lane :: "lane_state \<Rightarrow> lane_state" where
  "reset_lane ls =
     ls\<lparr>generation := generation ls + 1, activeTaskIds := [], draining := False\<rparr>"

definition resetCommandLane :: "int \<Rightarrow> string \<Rightarrow> queue_state \<Rightarrow> nat \<times> queue_state" where
  "resetCommandLane now l st =
     (let cleaned = normalizeLane l in
      case jm_get (lanes st) cleaned of
        None \<Rightarrow> (0, st)
      | Some ls \<Rightarrow>
          (let st1 = put_lane (reset_lane ls) st;
               st2 = (if queue ls \<noteq> [] then drainLane now cleaned st1 else st1)
           in (length (activeTaskIds ls), notifyActiveTaskWaiters st2)))"

definition resetAllLanes :: "int \<Rightarrow> queue_state \<Rightarrow> queue_state" where
  "resetAllLanes now st =
     (let st1 = st\<lparr>gatewayDraining := False,
                   lanes := map (\<lambda>(k, ls). (k, reset_lane ls)) (lanes st)\<rparr>;
          lanesToDrain = map (\<lambda>p. lane (snd p)) (filter (\<lambda>p. queue (snd p) \<noteq> []) (lanes st1))
      in notifyActiveTaskWaiters (fold (drainLane now) lanesToDrain st1))"

definition waitForActiveTasks ::
  "int option \<Rightarrow> queue_state \<Rightarrow> (bool + nat) \<times> queue_state" where
  "waitForActiveTasks timeoutMs st =
     (let activeAtStart = uniqueValues (concat (map (\<lambda>p. activeTaskIds (snd p)) (lanes st))) in
      if activeAtStart = [] then (Inl True, st)
      else if (case timeoutMs of Some t \<Rightarrow> t \<le> 0 | None \<Rightarrow> False) then (Inl False, st)
      else let wid = nextWaiterId st;
               w = \<lparr>waiterId = wid, waiterTaskIds = activeAtStart\<rparr>
           in (Inr wid,
               notifyActiveTaskWaiters
                 (st\<lparr>activeTaskWaiters := activeTaskWaiters st @ [w], nextWaiterId := wid + 1\<rparr>)))"

text \<open>The timer of a waiter fires.\<close>

definition waiterTimeout :: "task_waiter \<Rightarrow> queue_state \<Rightarrow> queue_state" where
  "waiterTimeout w st = resolveActiveTaskWaiter w False st"

end
