(* ===== verification/Command_Queue_Inv.thy ===== *)
theory Command_Queue_Inv
  imports Command_Queue
begin

text \<open>
  The invariant of the command queue and its preservation by every operation.

  \<open>core_inv D\<close> is what holds between any two writes: the lanes and the running tasks refer to
  each other consistently, every lane's queue is ordered, and every ticket handed out is in
  exactly one place. \<open>D\<close> holds the tickets a closure that is executing has taken out and not
  yet settled; between operations it is empty. \<open>queue_inv\<close> adds what the operations establish
  before they return: no lane is stuck and no waiter waits for nothing.
\<close>

section \<open>The invariant\<close>

definition entry_before :: "queue_entry \<Rightarrow> queue_entry \<Rightarrow> bool" where
  "entry_before a b \<longleftrightarrow>
     priority a > priority b \<or> (priority a = priority b \<and> sequence a < sequence b)"

definition lane_core :: "queue_state \<Rightarrow> lane_state \<Rightarrow> bool" where
  "lane_core st ls \<longleftrightarrow>
     0 \<le> maxConcurrent ls \<and> sorted_wrt entry_before (queue ls) \<and> distinct (activeTaskIds ls) \<and>
     (\<forall>t \<in> set (activeTaskIds ls).
        \<exists>r. jm_get (running st) t = Some r \<and> runLane r = lane ls \<and> runGeneration r = generation ls)"

definition lanes_core :: "queue_state \<Rightarrow> bool" where
  "lanes_core st \<longleftrightarrow>
     jm_wf (lanes st) \<and>
     (\<forall>l ls. jm_get (lanes st) l = Some ls \<longrightarrow> lane ls = l \<and> lane_core st ls)"

definition covers :: "lane_state \<Rightarrow> nat \<Rightarrow> running_task \<Rightarrow> bool" where
  "covers ls t r \<longleftrightarrow>
     runGeneration r \<le> generation ls \<and>
     (runGeneration r = generation ls \<longrightarrow> t \<in> set (activeTaskIds ls))"

definition running_core :: "queue_state \<Rightarrow> bool" where
  "running_core st \<longleftrightarrow>
     jm_wf (running st) \<and>
     (\<forall>t r. jm_get (running st) t = Some r \<longrightarrow>
        t < nextTaskId st \<and>
        (\<exists>ls. jm_get (lanes st) (runLane r) = Some ls \<and> covers ls t r))"

definition queued_of :: "lane_state \<Rightarrow> nat multiset" where
  "queued_of ls = mset (map sequence (queue ls))"

definition queued_tickets :: "queue_state \<Rightarrow> nat multiset" where
  "queued_tickets st = jm_sum queued_of (lanes st)"

definition running_tickets :: "queue_state \<Rightarrow> nat multiset" where
  "running_tickets st = jm_sum (\<lambda>r. {#sequence (runEntry r)#}) (running st)"

definition settled_tickets :: "queue_state \<Rightarrow> nat multiset" where
  "settled_tickets st = mset (map fst (settled st))"

definition tickets_core :: "nat multiset \<Rightarrow> queue_state \<Rightarrow> bool" where
  "tickets_core D st \<longleftrightarrow>
     1 \<le> nextQueueSequence st \<and>
     queued_tickets st + running_tickets st + settled_tickets st + D
       = mset [1..<nextQueueSequence st]"

definition core_inv :: "nat multiset \<Rightarrow> queue_state \<Rightarrow> bool" where
  "core_inv D st \<longleftrightarrow> lanes_core st \<and> running_core st \<and> tickets_core D st"

definition saturated :: "lane_state \<Rightarrow> bool" where
  "saturated ls \<longleftrightarrow>
     \<not> draining ls \<and> (queue ls = [] \<or> maxConcurrent ls \<le> int (length (activeTaskIds ls)))"

definition lanes_saturated :: "queue_state \<Rightarrow> bool" where
  "lanes_saturated st \<longleftrightarrow> (\<forall>l ls. jm_get (lanes st) l = Some ls \<longrightarrow> saturated ls)"

definition waiters_pending :: "queue_state \<Rightarrow> bool" where
  "waiters_pending st \<longleftrightarrow>
     (\<forall>w \<in> set (activeTaskWaiters st). hasPendingActiveTasks (waiterTaskIds w) st)"

definition queue_inv :: "queue_state \<Rightarrow> bool" where
  "queue_inv st \<longleftrightarrow> core_inv {#} st \<and> lanes_saturated st \<and> waiters_pending st"

section \<open>Writing a lane back\<close>

lemma put_lane_fields [simp]:
  "lanes (put_lane ls st) = jm_set (lane ls) ls (lanes st)"
  "gatewayDraining (put_lane ls st) = gatewayDraining st"
  "running (put_lane ls st) = running st"
  "settled (put_lane ls st) = settled st"
  "nextTaskId (put_lane ls st) = nextTaskId st"
  "nextQueueSequence (put_lane ls st) = nextQueueSequence st"
  "activeTaskWaiters (put_lane ls st) = activeTaskWaiters st"
  "nextWaiterId (put_lane ls st) = nextWaiterId st"
  "waiterResults (put_lane ls st) = waiterResults st"
  "waitNotices (put_lane ls st) = waitNotices st"
  by (simp_all add: put_lane_def)

lemma put_lane_again: "lane ls = lane ls' \<Longrightarrow> put_lane ls' (put_lane ls st) = put_lane ls' st"
  by (simp add: put_lane_def)

lemma put_lane_same: "jm_get (lanes st) (lane ls) = Some ls \<Longrightarrow> put_lane ls st = st"
  by (simp add: put_lane_def update_triv)

definition queued_at :: "string \<Rightarrow> queue_state \<Rightarrow> nat multiset" where
  "queued_at l st = (case jm_get (lanes st) l of None \<Rightarrow> {#} | Some ls \<Rightarrow> queued_of ls)"

lemma queued_tickets_put:
  "queued_tickets (put_lane ls st) + queued_at (lane ls) st = queued_tickets st + queued_of ls"
  by (cases "jm_get (lanes st) (lane ls)")
    (simp_all add: queued_tickets_def queued_at_def jm_sum_set_new jm_sum_set_old)

lemma lane_core_cong: "running s = running t \<Longrightarrow> lane_core s ls = lane_core t ls"
  by (simp add: lane_core_def)

lemma core_put:
  assumes inv: "core_inv D st"
    and core: "lane_core st ls"
    and cov: "\<And>t r. jm_get (running st) t = Some r \<Longrightarrow> runLane r = lane ls \<Longrightarrow> covers ls t r"
    and acc: "queued_of ls + D' = queued_at (lane ls) st + D"
  shows "core_inv D' (put_lane ls st)"
proof -
  have "lanes_core (put_lane ls st)"
    using inv core lane_core_cong[of st "put_lane ls st"]
    by (auto simp: core_inv_def lanes_core_def store_simps)
  moreover have "running_core (put_lane ls st)"
    using inv cov by (auto simp: core_inv_def running_core_def store_simps)
  moreover have "tickets_core D' (put_lane ls st)"
  proof -
    have "queued_tickets (put_lane ls st) + queued_of ls + D' = queued_tickets st + D + queued_of ls"
      using queued_tickets_put[of ls st] acc by (metis add.assoc add.commute)
    then have "queued_tickets (put_lane ls st) + D' = queued_tickets st + D"
      by (metis add.assoc add.commute add_right_imp_eq)
    then show ?thesis
      using inv by (simp add: core_inv_def tickets_core_def running_tickets_def settled_tickets_def
          ac_simps) (metis add.assoc add.commute)
  qed
  ultimately show ?thesis by (simp add: core_inv_def)
qed

lemma core_wf:
  assumes "core_inv D st"
  shows "jm_wf (lanes st)" "jm_wf (running st)" "tickets_core D st"
  using assms unfolding core_inv_def lanes_core_def running_core_def by blast+

lemma core_lane:
  assumes "core_inv D st" "jm_get (lanes st) l = Some ls"
  shows "lane ls = l" "lane_core st ls"
  using assms by (auto simp: core_inv_def lanes_core_def)

lemma core_runningD:
  assumes "core_inv D st" "jm_get (running st) t = Some r"
  shows "t < nextTaskId st \<and> (\<exists>ls. jm_get (lanes st) (runLane r) = Some ls \<and> covers ls t r)"
  using assms unfolding core_inv_def running_core_def by blast

lemma lane_coreD:
  assumes "lane_core st ls"
  shows "0 \<le> maxConcurrent ls" "sorted_wrt entry_before (queue ls)" "distinct (activeTaskIds ls)"
    "t \<in> set (activeTaskIds ls) \<Longrightarrow>
       \<exists>r. jm_get (running st) t = Some r \<and> runLane r = lane ls \<and> runGeneration r = generation ls"
  using assms unfolding lane_core_def by blast+

lemma core_covers:
  assumes "core_inv D st" "jm_get (lanes st) l = Some ls"
    and "jm_get (running st) t = Some r" "runLane r = l"
  shows "covers ls t r"
  using core_runningD[OF assms(1,3)] assms(2,4) by simp

lemma core_running_lane:
  assumes "core_inv D st" "jm_get (running st) t = Some r"
  obtains ls where "jm_get (lanes st) (runLane r) = Some ls" "lane ls = runLane r" "covers ls t r"
  using core_runningD[OF assms] core_lane(1)[OF assms(1)] by blast

lemma core_active_below:
  assumes "core_inv D st" "jm_get (lanes st) l = Some ls" "t \<in> set (activeTaskIds ls)"
  shows "t < nextTaskId st"
  using assms unfolding core_inv_def lanes_core_def lane_core_def running_core_def by blast

lemma core_getLaneState:
  assumes inv: "core_inv D st" and get: "getLaneState l st = (ls, st1)"
  shows "core_inv D st1" and "jm_get (lanes st1) l = Some ls" and "lane ls = l"
proof -
  have "core_inv D st1 \<and> jm_get (lanes st1) l = Some ls \<and> lane ls = l"
  proof (cases "jm_get (lanes st) l")
    case None
    have "core_inv D (put_lane (fresh_lane l) st)"
    proof (rule core_put[OF inv])
      show "lane_core st (fresh_lane l)" by (simp add: lane_core_def fresh_lane_def)
      show "covers (fresh_lane l) t r"
        if "jm_get (running st) t = Some r" "runLane r = lane (fresh_lane l)" for t r
        using that None core_runningD[OF inv, of t r] by (simp add: fresh_lane_def)
      show "queued_of (fresh_lane l) + D = queued_at (lane (fresh_lane l)) st + D"
        using None by (simp add: queued_of_def queued_at_def fresh_lane_def)
    qed
    then show ?thesis
      using get None by (auto simp: getLaneState_def Let_def store_simps fresh_lane_def)
  next
    case (Some existing)
    then show ?thesis
      using get inv core_lane(1)[OF inv Some] by (auto simp: getLaneState_def)
  qed
  then show "core_inv D st1" "jm_get (lanes st1) l = Some ls" "lane ls = l" by auto
qed

lemma getLaneState_fields:
  assumes "getLaneState l st = (ls, st1)"
  shows "running st1 = running st" "settled st1 = settled st"
    "nextQueueSequence st1 = nextQueueSequence st" "nextTaskId st1 = nextTaskId st"
    "activeTaskWaiters st1 = activeTaskWaiters st" "gatewayDraining st1 = gatewayDraining st"
    "l' \<noteq> l \<Longrightarrow> jm_get (lanes st1) l' = jm_get (lanes st) l'"
    "jm_get (lanes st) l = Some ls0 \<Longrightarrow> ls = ls0 \<and> st1 = st"
  using assms
  by (auto simp: getLaneState_def Let_def store_simps fresh_lane_def split: option.splits)

section \<open>Starting the head of a queue\<close>

lemma start_entry_fields:
  assumes "start_entry now e rest ls st = (ls', st')"
  shows "lane ls' = lane ls" "queue ls' = rest" "maxConcurrent ls' = maxConcurrent ls"
    "generation ls' = generation ls" "draining ls' = draining ls"
    "activeTaskIds ls' = js_add (nextTaskId st) (activeTaskIds ls)"
    "lanes st' = lanes st" "settled st' = settled st"
    "nextQueueSequence st' = nextQueueSequence st" "nextTaskId st' = nextTaskId st + 1"
    "activeTaskWaiters st' = activeTaskWaiters st" "gatewayDraining st' = gatewayDraining st"
    "running st' = running st @ [(nextTaskId st, \<lparr>runLane = lane ls, runEntry = e,
       runGeneration = generation ls, runStartedAt = now\<rparr>)]"
  using assms by (auto simp: start_entry_def Let_def split: if_splits)

lemma core_start_entry:
  assumes inv: "core_inv D (put_lane ls st)" and q: "queue ls = e # rest"
    and st: "start_entry now e rest ls st = (ls', st')"
  shows "core_inv D (put_lane ls' st')"
proof -
  let ?t = "nextTaskId st"
  let ?r = "\<lparr>runLane = lane ls, runEntry = e, runGeneration = generation ls, runStartedAt = now\<rparr>"
  note f = start_entry_fields[OF st]
  have get: "jm_get (lanes (put_lane ls st)) (lane ls) = Some ls" by (simp add: store_simps)
  have core: "lane_core (put_lane ls st) ls" using core_lane(2)[OF inv get] .
  have new: "jm_get (running st) ?t = None"
    using core_runningD[OF inv, of ?t] by (cases "jm_get (running st) ?t") auto
  have newA: "?t \<notin> set (activeTaskIds ls)"
    using core_active_below[OF inv get] by auto
  have old: "t \<noteq> ?t" if "jm_get (running st) t = Some r" for t r
    using that new by auto
  have get_run: "jm_get (running st') t = (if t = ?t then Some ?r else jm_get (running st) t)" for t
    using new by (auto simp: f map_add_def split: option.splits)
  have mono: "lane_core (put_lane ls' st') k" if "lane_core (put_lane ls st) k" for k
    using that old by (fastforce simp: lane_core_def get_run)
  have core': "lane_core (put_lane ls' st') ls'"
  proof -
    have "js_add ?t (activeTaskIds ls) = activeTaskIds ls @ [?t]"
      using newA by (simp add: js_add_def)
    then show ?thesis
      using mono[OF core] core newA by (simp add: lane_core_def f(1-6) q get_run)
  qed
  have "lanes_core (put_lane ls' st')"
    unfolding lanes_core_def
  proof (intro conjI allI impI)
    show "jm_wf (lanes (put_lane ls' st'))"
      using core_wf(1)[OF inv] by (simp add: f)
  next
    fix l k
    assume k: "jm_get (lanes (put_lane ls' st')) l = Some k"
    show "lane k = l"
      using k core_lane(1)[OF inv, of l k] f(1) by (auto simp: store_simps f(7) split: if_splits)
    show "lane_core (put_lane ls' st') k"
    proof (cases "l = lane ls")
      case True
      with k core' show ?thesis by (simp add: store_simps f)
    next
      case False
      with k have "jm_get (lanes (put_lane ls st)) l = Some k" by (simp add: store_simps f)
      then show ?thesis by (intro mono core_lane(2)[OF inv])
    qed
  qed
  moreover have "running_core (put_lane ls' st')"
  proof -
    have "jm_wf (running st')"
      using inv new by (auto simp: core_inv_def running_core_def jm_wf_def f map_of_eq_None_iff)
    moreover have "t < nextTaskId st' \<and> (\<exists>k. jm_get (lanes (put_lane ls' st')) (runLane r) = Some k \<and> covers k t r)"
      if run: "jm_get (running st') t = Some r" for t r
    proof (cases "t = ?t")
      case True
      with run have "r = ?r" by (simp add: get_run)
      with True show ?thesis by (simp add: store_simps f(1-12) covers_def)
    next
      case False
      with run have old: "jm_get (running (put_lane ls st)) t = Some r" by (simp add: get_run)
      from core_runningD[OF inv old] show ?thesis
        by (auto simp: store_simps f covers_def split: if_splits)
    qed
    ultimately show ?thesis by (auto simp: running_core_def)
  qed
  moreover have "tickets_core D (put_lane ls' st')"
  proof -
    have "queued_tickets (put_lane ls' st') + queued_of ls = queued_tickets (put_lane ls st) + queued_of ls'"
      using queued_tickets_put[of ls' "put_lane ls st"] get
      by (simp add: f put_lane_again queued_at_def queued_tickets_def)
    moreover have "queued_of ls = add_mset (sequence e) (queued_of ls')"
      by (simp add: queued_of_def q f)
    ultimately have h: "queued_tickets (put_lane ls st) = add_mset (sequence e) (queued_tickets (put_lane ls' st'))"
      by simp
    show ?thesis
      using core_wf(3)[OF inv]
      by (simp add: tickets_core_def running_tickets_def settled_tickets_def f h)
  qed
  ultimately show ?thesis by (simp add: core_inv_def)
qed

section \<open>Pumping a lane\<close>

lemma pump_loop_stop:
  "\<not> int (length (activeTaskIds ls)) < maxConcurrent ls \<or> queue ls = [] \<Longrightarrow>
   pump_loop now ls st = (ls, st)"
  by (auto simp: pump_loop.simps[of now ls st])

lemma pump_loop_step:
  "int (length (activeTaskIds ls)) < maxConcurrent ls \<Longrightarrow> queue ls = e # rest \<Longrightarrow>
   start_entry now e rest ls st = (ls', st') \<Longrightarrow> pump_loop now ls st = pump_loop now ls' st'"
  by (simp add: pump_loop.simps[of now ls st])

lemma core_pump_loop:
  "core_inv D (put_lane ls st) \<Longrightarrow> pump_loop now ls st = (ls1, st1) \<Longrightarrow>
   core_inv D (put_lane ls1 st1)"
proof (induction "queue ls" arbitrary: ls st)
  case Nil
  then show ?case by (simp add: pump_loop_stop)
next
  case (Cons e rest)
  note q = Cons.hyps(2)[symmetric]
  obtain ls' st' where start: "start_entry now e rest ls st = (ls', st')" by force
  show ?case
  proof (cases "int (length (activeTaskIds ls)) < maxConcurrent ls")
    case False
    with Cons.prems show ?thesis by (simp add: pump_loop_stop)
  next
    case True
    show ?thesis
    proof (rule Cons.hyps(1))
      show "rest = queue ls'" by (simp add: start_entry_fields(2)[OF start])
      show "core_inv D (put_lane ls' st')" by (rule core_start_entry[OF Cons.prems(1) q start])
      show "pump_loop now ls' st' = (ls1, st1)"
        using Cons.prems(2) pump_loop_step[OF True q start] by simp
    qed
  qed
qed

text \<open>
  What the loop does in one piece: it starts the first entries of the queue in queue order,
  as many as there are free slots, and leaves every other field alone.
\<close>

definition free_slots :: "lane_state \<Rightarrow> nat" where
  "free_slots ls = min (length (queue ls)) (nat (maxConcurrent ls - int (length (activeTaskIds ls))))"

lemma free_slots_0:
  "\<not> int (length (activeTaskIds ls)) < maxConcurrent ls \<or> queue ls = [] \<Longrightarrow> free_slots ls = 0"
  by (auto simp: free_slots_def)

lemma pump_loop_closed:
  assumes "\<forall>t \<in> set (activeTaskIds ls). t < nextTaskId st"
    and "pump_loop now ls st = (ls1, st1)"
  shows "ls1 = ls\<lparr>queue := drop (free_slots ls) (queue ls),
             activeTaskIds := activeTaskIds ls @ [nextTaskId st..<nextTaskId st + free_slots ls]\<rparr> \<and>
         map (runEntry \<circ> snd) (running st1) =
           map (runEntry \<circ> snd) (running st) @ take (free_slots ls) (queue ls) \<and>
         lanes st1 = lanes st \<and> settled st1 = settled st \<and>
         activeTaskWaiters st1 = activeTaskWaiters st \<and> gatewayDraining st1 = gatewayDraining st \<and>
         nextQueueSequence st1 = nextQueueSequence st \<and>
         nextTaskId st1 = nextTaskId st + free_slots ls"
  using assms
proof (induction "queue ls" arbitrary: ls st)
  case Nil
  then show ?case by (auto simp: pump_loop_stop free_slots_0)
next
  case (Cons e rest)
  note q = Cons.hyps(2)[symmetric]
  obtain ls' st' where start: "start_entry now e rest ls st = (ls', st')" by force
  note f = start_entry_fields[OF start]
  show ?case
  proof (cases "int (length (activeTaskIds ls)) < maxConcurrent ls")
    case False
    with Cons.prems show ?thesis by (auto simp: pump_loop_stop free_slots_0)
  next
    case True
    have fresh: "nextTaskId st \<notin> set (activeTaskIds ls)" using Cons.prems(1) by auto
    then have act: "activeTaskIds ls' = activeTaskIds ls @ [nextTaskId st]"
      by (simp add: f js_add_def)
    have slots: "free_slots ls = Suc (free_slots ls')"
      using True q by (simp add: free_slots_def act f(2,3) min_def) linarith
    have below: "\<forall>t \<in> set (activeTaskIds ls'). t < nextTaskId st'"
      using Cons.prems(1) by (auto simp: act f)
    have whole: "ls'\<lparr>queue := qs, activeTaskIds := as\<rparr> = ls\<lparr>queue := qs, activeTaskIds := as\<rparr>" for qs as
      by (rule lane_state.equality) (simp_all add: f)
    have ids: "[nextTaskId st..<Suc (nextTaskId st + free_slots ls')]
                 = nextTaskId st # [Suc (nextTaskId st)..<Suc (nextTaskId st + free_slots ls')]"
      by (simp add: upt_conv_Cons del: upt_Suc)
    have loop: "pump_loop now ls' st' = (ls1, st1)"
      using Cons.prems(2) pump_loop_step[OF True q start] by simp
    have "rest = queue ls'" by (simp add: f)
    from Cons.hyps(1)[OF this below loop]
    show ?thesis
      by (simp add: whole act slots ids q f(2,7-13) o_def del: upt_Suc)
  qed
qed

lemma core_parts:
  "lanes s = lanes st \<Longrightarrow> running s = running st \<Longrightarrow> lanes_core s = lanes_core st"
  "lanes s = lanes st \<Longrightarrow> running s = running st \<Longrightarrow> nextTaskId s = nextTaskId st \<Longrightarrow>
     running_core s = running_core st"
  by (simp_all only: lanes_core_def running_core_def lane_core_def)

lemma core_fields:
  assumes "core_inv D st"
    and "lanes s = lanes st" "running s = running st" "nextTaskId s = nextTaskId st"
    and "settled s = settled st" "nextQueueSequence s = nextQueueSequence st"
  shows "core_inv D s"
  using assms(1) unfolding core_inv_def lanes_core_def running_core_def tickets_core_def
    lane_core_def queued_tickets_def running_tickets_def settled_tickets_def assms(2-6) .

lemma core_pump:
  assumes inv: "core_inv D st" and get: "jm_get (lanes st) (lane ls) = Some ls0"
    and same: "queue ls = queue ls0" "activeTaskIds ls = activeTaskIds ls0"
      "generation ls = generation ls0" "0 \<le> maxConcurrent ls"
  shows "core_inv D (pump now ls st)"
proof -
  obtain ls1 st1 where loop: "pump_loop now ls st = (ls1, st1)" by force
  have l0: "lane ls0 = lane ls" by (rule core_lane(1)[OF inv get])
  have "core_inv D (put_lane ls st)"
  proof (rule core_put[OF inv])
    show "lane_core st ls" using core_lane(2)[OF inv get] same l0 by (simp add: lane_core_def)
    show "covers ls t r" if "jm_get (running st) t = Some r" "runLane r = lane ls" for t r
      using core_covers[OF inv get that] same by (simp add: covers_def)
    show "queued_of ls + D = queued_at (lane ls) st + D"
      using get same by (simp add: queued_at_def queued_of_def)
  qed
  from core_pump_loop[OF this loop] have c1: "core_inv D (put_lane ls1 st1)" .
  have get1: "jm_get (lanes (put_lane ls1 st1)) (lane ls1) = Some ls1" by (simp add: store_simps)
  let ?ls2 = "ls1\<lparr>draining := False\<rparr>"
  have "core_inv D (put_lane ?ls2 (put_lane ls1 st1))"
  proof (rule core_put[OF c1])
    show "lane_core (put_lane ls1 st1) ?ls2"
      using core_lane(2)[OF c1 get1] by (simp add: lane_core_def)
    show "covers ?ls2 t r"
      if "jm_get (running (put_lane ls1 st1)) t = Some r" "runLane r = lane ?ls2" for t r
      using core_covers[OF c1 get1 that(1)] that(2) by (simp add: covers_def)
    show "queued_of ?ls2 + D = queued_at (lane ?ls2) (put_lane ls1 st1) + D"
      using get1 by (simp add: queued_at_def queued_of_def)
  qed
  then show ?thesis by (simp add: pump_def loop put_lane_again)
qed

text \<open>What a pump leaves behind: its lane saturated, the other lanes untouched, no slot freed.\<close>

lemma pump_effect:
  assumes inv: "core_inv D st" and get: "jm_get (lanes st) (lane ls) = Some ls0"
    and act: "activeTaskIds ls = activeTaskIds ls0"
  obtains ls' where
    "lanes (pump now ls st) = jm_set (lane ls) ls' (lanes st)" "saturated ls'"
    "set (activeTaskIds ls) \<subseteq> set (activeTaskIds ls')"
    "queue ls' = drop (free_slots ls) (queue ls)"
    "length (activeTaskIds ls') = length (activeTaskIds ls) + free_slots ls"
    "generation ls' = generation ls" "maxConcurrent ls' = maxConcurrent ls"
    "activeTaskWaiters (pump now ls st) = activeTaskWaiters st"
    "map (runEntry \<circ> snd) (running (pump now ls st)) =
       map (runEntry \<circ> snd) (running st) @ take (free_slots ls) (queue ls)"
    "settled (pump now ls st) = settled st"
    "nextQueueSequence (pump now ls st) = nextQueueSequence st"
    "gatewayDraining (pump now ls st) = gatewayDraining st"
proof -
  obtain ls1 st1 where loop: "pump_loop now ls st = (ls1, st1)" by force
  have "\<forall>t \<in> set (activeTaskIds ls). t < nextTaskId st"
    using core_active_below[OF inv get] act by auto
  note c = pump_loop_closed[OF this loop]
  show ?thesis
  proof (rule that[of "ls1\<lparr>draining := False\<rparr>"])
    show "lanes (pump now ls st) = jm_set (lane ls) (ls1\<lparr>draining := False\<rparr>) (lanes st)"
      using c by (simp add: pump_def loop)
    have "length (queue ls) \<le> free_slots ls \<or> maxConcurrent ls \<le> int (length (activeTaskIds ls) + free_slots ls)"
      by (auto simp: free_slots_def min_def)
    then show "saturated (ls1\<lparr>draining := False\<rparr>)"
      using c by (auto simp: saturated_def)
  qed (use c in \<open>auto simp: pump_def loop\<close>)
qed

lemma core_drainLane:
  assumes inv: "core_inv D st"
  shows "core_inv D (drainLane now l st)"
proof -
  obtain ls st1 where g: "getLaneState l st = (ls, st1)" by force
  note c = core_getLaneState[OF inv g]
  have "core_inv D (pump now (ls\<lparr>draining := True\<rparr>) st1)"
    using core_lane(2)[OF c(1,2)] c(2,3)
    by (intro core_pump[OF c(1)]) (auto simp: lane_core_def)
  then show ?thesis using c(1) by (simp add: drainLane_def g)
qed

text \<open>
  After a drain every lane that was saturated still is, and the drained lane is too unless a
  drain of it was already running; active tasks stay active and no waiter is touched.
\<close>

lemma drainLane_effect:
  assumes inv: "core_inv D st" and idle: "\<And>ls. jm_get (lanes st) l = Some ls \<Longrightarrow> \<not> draining ls"
  obtains ls' where "saturated ls'"
    "\<And>k. jm_get (lanes (drainLane now l st)) k = (if k = l then Some ls' else jm_get (lanes st) k)"
    "\<And>ls0. jm_get (lanes st) l = Some ls0 \<Longrightarrow> set (activeTaskIds ls0) \<subseteq> set (activeTaskIds ls') \<and>
        maxConcurrent ls' = maxConcurrent ls0 \<and> generation ls' = generation ls0 \<and>
        queue ls' = drop (free_slots ls0) (queue ls0)"
    "length (activeTaskIds ls') =
       (case jm_get (lanes st) l of None \<Rightarrow> 0 | Some ls0 \<Rightarrow> length (activeTaskIds ls0) + free_slots ls0)"
    "activeTaskWaiters (drainLane now l st) = activeTaskWaiters st"
    "settled (drainLane now l st) = settled st"
    "nextQueueSequence (drainLane now l st) = nextQueueSequence st"
    "gatewayDraining (drainLane now l st) = gatewayDraining st"
proof -
  obtain ls st1 where g: "getLaneState l st = (ls, st1)" by force
  note c = core_getLaneState[OF inv g] and f = getLaneState_fields[OF g]
  have nd: "\<not> draining ls"
  proof (cases "jm_get (lanes st) l")
    case None
    then show ?thesis using g by (auto simp: getLaneState_def Let_def fresh_lane_def)
  next
    case (Some ls0)
    then show ?thesis using f(8)[of ls0] idle by auto
  qed
  let ?ls = "ls\<lparr>draining := True\<rparr>"
  have get: "jm_get (lanes st1) (lane ?ls) = Some ls" using c(2,3) by simp
  obtain ls' where e: "lanes (pump now ?ls st1) = jm_set (lane ?ls) ls' (lanes st1)" "saturated ls'"
    "set (activeTaskIds ?ls) \<subseteq> set (activeTaskIds ls')" "queue ls' = drop (free_slots ?ls) (queue ?ls)"
    "generation ls' = generation ?ls" "maxConcurrent ls' = maxConcurrent ?ls"
    "length (activeTaskIds ls') = length (activeTaskIds ?ls) + free_slots ?ls"
    "activeTaskWaiters (pump now ?ls st1) = activeTaskWaiters st1"
    "settled (pump now ?ls st1) = settled st1"
    "nextQueueSequence (pump now ?ls st1) = nextQueueSequence st1"
    "gatewayDraining (pump now ?ls st1) = gatewayDraining st1"
    by (rule pump_effect[OF c(1) get, of now]) auto
  have d: "drainLane now l st = pump now ?ls st1" by (simp add: drainLane_def g nd)
  show ?thesis
  proof (rule that[of ls'])
    show "jm_get (lanes (drainLane now l st)) k = (if k = l then Some ls' else jm_get (lanes st) k)" for k
      using f(7)[of k] c(3) by (simp add: d e store_simps)
    show "set (activeTaskIds ls0) \<subseteq> set (activeTaskIds ls') \<and> maxConcurrent ls' = maxConcurrent ls0 \<and>
        generation ls' = generation ls0 \<and> queue ls' = drop (free_slots ls0) (queue ls0)"
      if "jm_get (lanes st) l = Some ls0" for ls0
      using e(3-6) f(8)[OF that] by (simp add: free_slots_def)
    show "length (activeTaskIds ls') =
        (case jm_get (lanes st) l of None \<Rightarrow> 0 | Some ls0 \<Rightarrow> length (activeTaskIds ls0) + free_slots ls0)"
    proof (cases "jm_get (lanes st) l")
      case None
      then have "ls = fresh_lane l" using g by (auto simp: getLaneState_def Let_def)
      then show ?thesis using None e(7) by (simp add: fresh_lane_def free_slots_def)
    next
      case (Some ls0)
      then show ?thesis using e(7) f(8)[OF Some] by (simp add: free_slots_def)
    qed
  qed (use e f in \<open>simp_all add: d\<close>)
qed

section \<open>Inserting an entry\<close>

lemma findIndex_None: "findIndex P xs = None \<longleftrightarrow> (\<forall>x \<in> set xs. \<not> P x)"
  by (induction xs) auto

lemma findIndex_Some:
  "findIndex P xs = Some i \<Longrightarrow>
   take i xs = takeWhile (\<lambda>x. \<not> P x) xs \<and> drop i xs = dropWhile (\<lambda>x. \<not> P x) xs"
  by (induction xs arbitrary: i) (auto split: if_splits)

lemma findIndex_less: "findIndex P xs = Some i \<Longrightarrow> i < length xs"
  by (induction xs arbitrary: i) (auto split: if_splits)

lemma enqueueLaneEntry_fields [simp]:
  "lane (enqueueLaneEntry ls e) = lane ls"
  "activeTaskIds (enqueueLaneEntry ls e) = activeTaskIds ls"
  "maxConcurrent (enqueueLaneEntry ls e) = maxConcurrent ls"
  "draining (enqueueLaneEntry ls e) = draining ls"
  "generation (enqueueLaneEntry ls e) = generation ls"
  by (simp_all add: enqueueLaneEntry_def Let_def split: option.splits)

definition annotated :: "queue_entry \<Rightarrow> queue_entry \<Rightarrow> bool" where
  "annotated e' e \<longleftrightarrow>
     (\<exists>q a. e' = e\<lparr>queuedAheadAtEnqueue := q, activeAheadAtEnqueue := a\<rparr>)"

lemma annotated_fields:
  "annotated e' e \<Longrightarrow> sequence e' = sequence e \<and> priority e' = priority e \<and>
     taskTimeoutMs e' = taskTimeoutMs e \<and> enqueuedAt e' = enqueuedAt e"
  by (auto simp: annotated_def)

text \<open>The entry goes in front of the first entry that must run after it.\<close>

lemma enqueueLaneEntry_queue:
  obtains e' where "annotated e' e"
    "queuedAheadAtEnqueue e' = length (takeWhile (\<lambda>q. \<not> entry_after q e) (queue ls))"
    "queue (enqueueLaneEntry ls e) =
       takeWhile (\<lambda>q. \<not> entry_after q e) (queue ls) @ e' # dropWhile (\<lambda>q. \<not> entry_after q e) (queue ls)"
proof (cases "findIndex (\<lambda>q. entry_after q e) (queue ls)")
  case None
  then have "\<forall>q \<in> set (queue ls). \<not> entry_after q e" by (simp add: findIndex_None)
  then have w: "takeWhile (\<lambda>q. \<not> entry_after q e) (queue ls) = queue ls"
    "dropWhile (\<lambda>q. \<not> entry_after q e) (queue ls) = []"
    by (simp_all add: takeWhile_eq_all_conv dropWhile_eq_Nil_conv)
  let ?e = "e\<lparr>queuedAheadAtEnqueue := length (queue ls), activeAheadAtEnqueue := length (activeTaskIds ls)\<rparr>"
  have "annotated ?e e" unfolding annotated_def by blast
  then show ?thesis
    using None by (intro that[of ?e]) (simp_all add: enqueueLaneEntry_def Let_def w)
next
  case (Some i)
  note t = findIndex_Some[OF Some]
  have "i \<le> length (queue ls)" using findIndex_less[OF Some] by simp
  then have len: "length (takeWhile (\<lambda>q. \<not> entry_after q e) (queue ls)) = i"
    using t by (metis length_take min.absorb2)
  let ?e = "e\<lparr>queuedAheadAtEnqueue := i, activeAheadAtEnqueue := length (activeTaskIds ls)\<rparr>"
  have "annotated ?e e" unfolding annotated_def by blast
  then show ?thesis
    using Some t len by (intro that[of ?e]) (simp_all add: enqueueLaneEntry_def Let_def)
qed

lemma sorted_insert_entry:
  assumes sorted: "sorted_wrt entry_before q"
    and fresh: "\<forall>x \<in> set q. sequence x < sequence e"
    and ann: "annotated e' e"
  shows "sorted_wrt entry_before
           (takeWhile (\<lambda>x. \<not> entry_after x e) q @ e' # dropWhile (\<lambda>x. \<not> entry_after x e) q)"
proof -
  let ?t = "takeWhile (\<lambda>x. \<not> entry_after x e) q" and ?d = "dropWhile (\<lambda>x. \<not> entry_after x e) q"
  have app: "sorted_wrt entry_before ?t" "sorted_wrt entry_before ?d"
    "\<And>x y. x \<in> set ?t \<Longrightarrow> y \<in> set ?d \<Longrightarrow> entry_before x y"
    using sorted sorted_wrt_append[of entry_before ?t ?d] by auto
  have before: "entry_before x e'" if "x \<in> set ?t" for x
    using that fresh annotated_fields[OF ann]
    by (auto simp: entry_before_def entry_after_def dest!: set_takeWhileD)
  have after: "entry_before e' x" if "x \<in> set ?d" for x
  proof (cases ?d)
    case Nil
    with that have "x \<in> set []" by (simp only:)
    then show ?thesis by simp
  next
    case (Cons y ys)
    then have "y \<in> set q" "entry_after y e"
      by (metis set_dropWhileD list.set_intros(1), metis dropWhile_eq_Cons_conv)
    then have "priority y < priority e" using fresh by (auto simp: entry_after_def)
    moreover have "x = y \<or> entry_before y x"
      using that app(2) Cons by auto
    ultimately show ?thesis using annotated_fields[OF ann] by (auto simp: entry_before_def)
  qed
  show ?thesis using app before after by (auto simp: sorted_wrt_append)
qed

lemma core_queue_below:
  assumes "core_inv D st" "jm_get (lanes st) l = Some ls" "e \<in> set (queue ls)"
  shows "sequence e < nextQueueSequence st"
proof -
  have "sequence e \<in># queued_of ls" using assms(3) by (simp add: queued_of_def)
  then have "sequence e \<in># queued_tickets st"
    using jm_sum_member_subset[OF assms(2), of queued_of] unfolding queued_tickets_def
    by (rule mset_subset_eqD[rotated])
  then have "sequence e \<in># mset [1..<nextQueueSequence st]"
    using core_wf(3)[OF assms(1)] unfolding tickets_core_def by (metis union_iff)
  then show ?thesis by simp
qed

lemma core_enqueue:
  assumes inv: "core_inv D st" and get: "jm_get (lanes st) l = Some ls" and seq: "sequence e = nextQueueSequence st"
  shows "core_inv D (put_lane (enqueueLaneEntry ls e) (st\<lparr>nextQueueSequence := nextQueueSequence st + 1\<rparr>))"
proof -
  let ?s = "st\<lparr>nextQueueSequence := nextQueueSequence st + 1\<rparr>"
  have l: "lane ls = l" by (rule core_lane(1)[OF inv get])
  have "1 \<le> nextQueueSequence st" using core_wf(3)[OF inv] by (simp add: tickets_core_def)
  then have up: "mset [1..<nextQueueSequence st + 1] = mset [1..<nextQueueSequence st] + {#nextQueueSequence st#}"
    by simp
  have t: "queued_tickets ?s = queued_tickets st" "running_tickets ?s = running_tickets st"
    "settled_tickets ?s = settled_tickets st"
    by (simp_all add: queued_tickets_def running_tickets_def settled_tickets_def)
  have "lanes_core ?s" "running_core ?s"
    using inv core_parts[of ?s st] by (simp_all add: core_inv_def)
  moreover have "tickets_core (D + {#nextQueueSequence st#}) ?s"
    using core_wf(3)[OF inv] up unfolding tickets_core_def t by (simp add: add.assoc[symmetric])
  ultimately have s: "core_inv (D + {#nextQueueSequence st#}) ?s" by (simp add: core_inv_def)
  obtain e' where e': "annotated e' e"
    "queue (enqueueLaneEntry ls e) =
       takeWhile (\<lambda>q. \<not> entry_after q e) (queue ls) @ e' # dropWhile (\<lambda>q. \<not> entry_after q e) (queue ls)"
    by (rule enqueueLaneEntry_queue)
  show ?thesis
  proof (rule core_put[OF s])
    have "sorted_wrt entry_before (queue (enqueueLaneEntry ls e))"
      unfolding e'(2)
      using core_lane(2)[OF inv get] core_queue_below[OF inv get] seq
      by (intro sorted_insert_entry[OF _ _ e'(1)]) (auto simp: lane_core_def)
    then show "lane_core ?s (enqueueLaneEntry ls e)"
      using core_lane(2)[OF inv get] by (simp add: lane_core_def)
    show "covers (enqueueLaneEntry ls e) t r"
      if "jm_get (running ?s) t = Some r" "runLane r = lane (enqueueLaneEntry ls e)" for t r
      using core_covers[OF inv get, of t r] that l by (simp add: covers_def)
    have "queued_of (enqueueLaneEntry ls e) = queued_of ls + {#nextQueueSequence st#}"
    proof -
      have "mset (map sequence (queue ls)) =
          mset (map sequence (takeWhile (\<lambda>q. \<not> entry_after q e) (queue ls))) +
          mset (map sequence (dropWhile (\<lambda>q. \<not> entry_after q e) (queue ls)))"
        by (metis map_append mset_append takeWhile_dropWhile_id)
      then show ?thesis
        using annotated_fields[OF e'(1)] seq by (simp add: queued_of_def e'(2))
    qed
    then show "queued_of (enqueueLaneEntry ls e) + D =
        queued_at (lane (enqueueLaneEntry ls e)) ?s + (D + {#nextQueueSequence st#})"
      using get l by (simp add: queued_at_def)
  qed
qed

section \<open>Completing a task and settling its promise\<close>

lemma completeTask_lane:
  assumes "completeTask ls t g = (c, ls')"
  shows "lane ls' = lane ls" "queue ls' = queue ls" "generation ls' = generation ls"
    "maxConcurrent ls' = maxConcurrent ls" "draining ls' = draining ls"
    "set (activeTaskIds ls') = (if c then set (activeTaskIds ls) - {t} else set (activeTaskIds ls))"
    "c \<longleftrightarrow> g = generation ls"
  using assms by (auto simp: completeTask_def split: if_splits)

lemma core_complete:
  assumes inv: "core_inv D st" and run: "jm_get (running st) t = Some r"
    and get: "jm_get (lanes st) (runLane r) = Some ls"
    and ct: "completeTask ls t (runGeneration r) = (c, ls')"
  shows "core_inv (D + {#sequence (runEntry r)#})
           (put_lane ls' (st\<lparr>running := jm_del t (running st)\<rparr>))" (is "core_inv _ ?s")
proof -
  note f = completeTask_lane[OF ct]
  have l: "lane ls = runLane r" by (rule core_lane(1)[OF inv get])
  have keep: "\<exists>r'. jm_get (running ?s) t' = Some r' \<and> runLane r' = lane k \<and> runGeneration r' = generation k"
    if gk: "jm_get (lanes st) m = Some k" and act: "t' \<in> set (activeTaskIds k)"
      and same: "k = ls \<longrightarrow> t' \<in> set (activeTaskIds ls')" for m k t'
  proof -
    obtain r' where r': "jm_get (running st) t' = Some r'" "runLane r' = lane k" "runGeneration r' = generation k"
      using core_lane(2)[OF inv gk] act by (auto simp: lane_core_def)
    have "t' \<noteq> t"
    proof
      assume "t' = t"
      with r' run have "runLane r = lane k" "runGeneration r = generation k" by auto
      then have "k = ls" using core_lane(1)[OF inv gk] gk get by auto
      with same \<open>t' = t\<close> \<open>runGeneration r = generation k\<close> show False by (auto simp: f split: if_splits)
    qed
    with r' show ?thesis by (simp add: store_simps)
  qed
  have core': "lane_core ?s ls'"
    unfolding lane_core_def
  proof (intro conjI ballI)
    show "0 \<le> maxConcurrent ls'" "sorted_wrt entry_before (queue ls')"
      using lane_coreD(1,2)[OF core_lane(2)[OF inv get]] by (simp_all add: f(2,4))
    show "distinct (activeTaskIds ls')"
      using lane_coreD(3)[OF core_lane(2)[OF inv get]] ct
      by (auto simp: completeTask_def distinct_removeAll split: if_splits)
  next
    fix t' assume t': "t' \<in> set (activeTaskIds ls')"
    then have "t' \<in> set (activeTaskIds ls)" using f(6) by (simp split: if_splits)
    then show "\<exists>r'. jm_get (running ?s) t' = Some r' \<and> runLane r' = lane ls' \<and> runGeneration r' = generation ls'"
      using keep[OF get] t' unfolding f by blast
  qed
  have "lanes_core ?s"
    unfolding lanes_core_def
  proof (intro conjI allI impI)
    show "jm_wf (lanes ?s)" using core_wf(1)[OF inv] by simp
  next
    fix m k assume k: "jm_get (lanes ?s) m = Some k"
    show "lane k = m" using k core_lane(1)[OF inv, of m k] l f(1) by (auto simp: store_simps split: if_splits)
    show "lane_core ?s k"
    proof (cases "m = runLane r")
      case True
      with k core' l show ?thesis by (simp add: store_simps f)
    next
      case False
      with k have old: "jm_get (lanes st) m = Some k" by (simp add: store_simps f l)
      have "k \<noteq> ls" using core_lane(1)[OF inv old] l False by auto
      then show ?thesis using core_lane(2)[OF inv old] keep[OF old] by (auto simp: lane_core_def)
    qed
  qed
  moreover have "running_core ?s"
    unfolding running_core_def
  proof (intro conjI allI impI)
    show "jm_wf (running ?s)" using core_wf(2)[OF inv] by simp
  next
    fix t' r' assume r': "jm_get (running ?s) t' = Some r'"
    then have old: "jm_get (running st) t' = Some r'" "t' \<noteq> t" by (auto simp: store_simps split: if_splits)
    then show "t' < nextTaskId ?s" using core_runningD[OF inv old(1)] by simp
    show "\<exists>k. jm_get (lanes ?s) (runLane r') = Some k \<and> covers k t' r'"
    proof (cases "runLane r' = runLane r")
      case True
      then have "covers ls t' r'" using core_covers[OF inv get old(1)] by simp
      then show ?thesis using True old(2) l by (auto simp: store_simps f covers_def)
    next
      case False
      then show ?thesis using core_runningD[OF inv old(1)] by (simp add: store_simps f l)
    qed
  qed
  moreover have "tickets_core (D + {#sequence (runEntry r)#}) ?s"
  proof -
    have "queued_tickets ?s = queued_tickets st"
      using queued_tickets_put[of ls' "st\<lparr>running := jm_del t (running st)\<rparr>"] get l
      by (simp add: queued_tickets_def queued_at_def queued_of_def f)
    moreover have "running_tickets st = add_mset (sequence (runEntry r)) (running_tickets ?s)"
      using jm_sum_del[OF core_wf(2)[OF inv] run, of "\<lambda>r. {#sequence (runEntry r)#}"]
      by (simp add: running_tickets_def)
    moreover have "settled_tickets ?s = settled_tickets st" by (simp add: settled_tickets_def)
    moreover have "nextQueueSequence ?s = nextQueueSequence st" by simp
    ultimately show ?thesis
      using core_wf(3)[OF inv] unfolding tickets_core_def by simp
  qed
  ultimately show ?thesis by (simp add: core_inv_def)
qed

lemma settle_fields [simp]:
  "lanes (settle q x st) = lanes st" "running (settle q x st) = running st"
  "nextTaskId (settle q x st) = nextTaskId st" "activeTaskWaiters (settle q x st) = activeTaskWaiters st"
  "nextQueueSequence (settle q x st) = nextQueueSequence st"
  "gatewayDraining (settle q x st) = gatewayDraining st"
  "settled (settle q x st) = settled st @ [(q, x)]"
  "nextWaiterId (settle q x st) = nextWaiterId st" "waiterResults (settle q x st) = waiterResults st"
  by (simp_all add: settle_def)

lemma core_settle: "core_inv (D + {#q#}) st \<Longrightarrow> core_inv D (settle q x st)"
  using core_parts[of "settle q x st" st]
  by (simp add: core_inv_def tickets_core_def queued_tickets_def running_tickets_def settled_tickets_def)

lemma core_settle_all:
  "core_inv (D + mset (map g es)) st \<Longrightarrow> core_inv D (fold (\<lambda>e s. settle (g e) x s) es st)"
proof (induction es arbitrary: st)
  case (Cons e es)
  have "core_inv (D + mset (map g es)) (settle (g e) x st)"
    by (rule core_settle) (use Cons.prems in \<open>simp add: add.commute\<close>)
  then show ?case using Cons.IH by simp
qed simp

lemma settle_all_fields:
  "lanes (fold (\<lambda>e s. settle (g e) x s) es st) = lanes st"
  "activeTaskWaiters (fold (\<lambda>e s. settle (g e) x s) es st) = activeTaskWaiters st"
  "settled (fold (\<lambda>e s. settle (g e) x s) es st) = settled st @ map (\<lambda>e. (g e, x)) es"
  by (induction es arbitrary: st) simp_all

section \<open>Resetting lanes\<close>

lemma reset_lane_fields [simp]:
  "lane (reset_lane ls) = lane ls" "queue (reset_lane ls) = queue ls"
  "activeTaskIds (reset_lane ls) = []" "maxConcurrent (reset_lane ls) = maxConcurrent ls"
  "draining (reset_lane ls) = False" "generation (reset_lane ls) = generation ls + 1"
  by (simp_all add: reset_lane_def)

lemma covers_reset: "covers ls t r \<Longrightarrow> covers (reset_lane ls) t r"
  by (auto simp: covers_def)

lemma core_reset_one:
  assumes inv: "core_inv D st" and get: "jm_get (lanes st) l = Some ls"
  shows "core_inv D (put_lane (reset_lane ls) st)"
proof (rule core_put[OF inv])
  have l: "lane ls = l" by (rule core_lane(1)[OF inv get])
  show "lane_core st (reset_lane ls)" using core_lane(2)[OF inv get] by (simp add: lane_core_def)
  show "covers (reset_lane ls) t r" if "jm_get (running st) t = Some r" "runLane r = lane (reset_lane ls)" for t r
    using core_covers[OF inv get that(1)] that(2) l by (simp add: covers_reset)
  show "queued_of (reset_lane ls) + D = queued_at (lane (reset_lane ls)) st + D"
    using get l by (simp add: queued_at_def queued_of_def)
qed

definition reset_every :: "queue_state \<Rightarrow> queue_state" where
  "reset_every st = st\<lparr>gatewayDraining := False,
                      lanes := map (\<lambda>(k, ls). (k, reset_lane ls)) (lanes st)\<rparr>"

lemma core_reset_every:
  assumes inv: "core_inv D st"
  shows "core_inv D (reset_every st)"
proof -
  let ?s = "reset_every st"
  have get: "jm_get (lanes ?s) l = map_option reset_lane (jm_get (lanes st) l)" for l
    by (simp add: reset_every_def jm_get_map)
  have "lanes_core ?s"
    unfolding lanes_core_def
  proof (intro conjI allI impI)
    show "jm_wf (lanes ?s)" using core_wf(1)[OF inv] by (simp add: reset_every_def)
  next
    fix l k assume "jm_get (lanes ?s) l = Some k"
    then obtain ls where ls: "jm_get (lanes st) l = Some ls" "k = reset_lane ls" by (auto simp: get)
    show "lane k = l" using core_lane(1)[OF inv ls(1)] by (simp add: ls(2))
    show "lane_core ?s k" using core_lane(2)[OF inv ls(1)] by (simp add: ls(2) lane_core_def)
  qed
  moreover have "running_core ?s"
    unfolding running_core_def
  proof (intro conjI allI impI)
    show "jm_wf (running ?s)" using core_wf(2)[OF inv] by (simp add: reset_every_def)
  next
    fix t r assume "jm_get (running ?s) t = Some r"
    then have run: "jm_get (running st) t = Some r" by (simp add: reset_every_def)
    then show "t < nextTaskId ?s" using core_runningD[OF inv] by (simp add: reset_every_def)
    show "\<exists>k. jm_get (lanes ?s) (runLane r) = Some k \<and> covers k t r"
      using core_runningD[OF inv run] by (auto simp: get intro: covers_reset)
  qed
  moreover have "tickets_core D ?s"
    using core_wf(3)[OF inv]
    by (simp add: tickets_core_def reset_every_def queued_tickets_def running_tickets_def
        settled_tickets_def jm_sum_map queued_of_def)
  ultimately show ?thesis by (simp add: core_inv_def)
qed

section \<open>Waiters\<close>

lemma pending_iff:
  "jm_wf (lanes st) \<Longrightarrow>
   hasPendingActiveTasks ids st \<longleftrightarrow>
     (\<exists>l ls. jm_get (lanes st) l = Some ls \<and> set (activeTaskIds ls) \<inter> set ids \<noteq> {})"
  by (auto simp: hasPendingActiveTasks_def list_ex_iff jm_wf_get[symmetric] Bex_def)

lemma pending_cong: "lanes s = lanes t \<Longrightarrow> hasPendingActiveTasks ids s = hasPendingActiveTasks ids t"
  by (simp add: hasPendingActiveTasks_def)

lemma pending_mono:
  assumes wf: "jm_wf (lanes s)" "jm_wf (lanes t)"
    and "\<And>l ls. jm_get (lanes s) l = Some ls \<Longrightarrow>
           \<exists>ls'. jm_get (lanes t) l = Some ls' \<and> set (activeTaskIds ls) \<subseteq> set (activeTaskIds ls')"
    and "hasPendingActiveTasks ids s"
  shows "hasPendingActiveTasks ids t"
  using assms(3,4) unfolding pending_iff[OF wf(1)] pending_iff[OF wf(2)] by blast

definition waiter_done :: "queue_state \<Rightarrow> task_waiter \<Rightarrow> bool" where
  "waiter_done st w \<longleftrightarrow> waiterTaskIds w = [] \<or> \<not> hasPendingActiveTasks (waiterTaskIds w) st"

lemma resolveWaiter_fields [simp]:
  "lanes (resolveActiveTaskWaiter w b st) = lanes st"
  "running (resolveActiveTaskWaiter w b st) = running st"
  "settled (resolveActiveTaskWaiter w b st) = settled st"
  "nextTaskId (resolveActiveTaskWaiter w b st) = nextTaskId st"
  "nextQueueSequence (resolveActiveTaskWaiter w b st) = nextQueueSequence st"
  "gatewayDraining (resolveActiveTaskWaiter w b st) = gatewayDraining st"
  "nextWaiterId (resolveActiveTaskWaiter w b st) = nextWaiterId st"
  "activeTaskWaiters (resolveActiveTaskWaiter w b st) = removeAll w (activeTaskWaiters st)"
  by (simp_all add: resolveActiveTaskWaiter_def)

lemma notify_fold:
  fixes ws :: "task_waiter list" and st :: queue_state
  defines "s \<equiv> fold (\<lambda>w s. if waiterTaskIds w = [] \<or> \<not> hasPendingActiveTasks (waiterTaskIds w) s
                            then resolveActiveTaskWaiter w True s else s) ws st"
  shows "lanes s = lanes st \<and> running s = running st \<and> settled s = settled st \<and>
         nextTaskId s = nextTaskId st \<and> nextQueueSequence s = nextQueueSequence st \<and>
         gatewayDraining s = gatewayDraining st \<and> nextWaiterId s = nextWaiterId st \<and>
         activeTaskWaiters s = filter (\<lambda>w. \<not> (w \<in> set ws \<and> waiter_done st w)) (activeTaskWaiters st)"
  unfolding s_def
proof (induction ws arbitrary: st)
  case (Cons w ws)
  let ?s = "if waiter_done st w then resolveActiveTaskWaiter w True st else st"
  have "waiter_done ?s = waiter_done st"
    by (auto simp: waiter_done_def fun_eq_iff pending_cong[of "resolveActiveTaskWaiter w True st" st])
  then show ?case
    using Cons.IH[of ?s]
    by (auto simp: waiter_done_def[symmetric] removeAll_filter_not_eq intro!: filter_cong)
qed simp

lemma notify_fields [simp]:
  "lanes (notifyActiveTaskWaiters st) = lanes st"
  "running (notifyActiveTaskWaiters st) = running st"
  "settled (notifyActiveTaskWaiters st) = settled st"
  "nextTaskId (notifyActiveTaskWaiters st) = nextTaskId st"
  "nextQueueSequence (notifyActiveTaskWaiters st) = nextQueueSequence st"
  "gatewayDraining (notifyActiveTaskWaiters st) = gatewayDraining st"
  "nextWaiterId (notifyActiveTaskWaiters st) = nextWaiterId st"
  using notify_fold[of "activeTaskWaiters st" st] unfolding notifyActiveTaskWaiters_def by blast+

lemma notify_waiters:
  "activeTaskWaiters (notifyActiveTaskWaiters st) =
     filter (\<lambda>w. \<not> waiter_done st w) (activeTaskWaiters st)"
proof -
  have "activeTaskWaiters (notifyActiveTaskWaiters st) =
      filter (\<lambda>w. \<not> (w \<in> set (activeTaskWaiters st) \<and> waiter_done st w)) (activeTaskWaiters st)"
    using notify_fold[of "activeTaskWaiters st" st] unfolding notifyActiveTaskWaiters_def by blast
  also have "\<dots> = filter (\<lambda>w. \<not> waiter_done st w) (activeTaskWaiters st)"
    by (rule filter_cong) auto
  finally show ?thesis .
qed

lemma waiters_pending_notify: "waiters_pending (notifyActiveTaskWaiters st)"
  using pending_cong[of "notifyActiveTaskWaiters st" st]
  by (auto simp: waiters_pending_def notify_waiters waiter_done_def)

lemma core_notify [simp]: "core_inv D (notifyActiveTaskWaiters st) = core_inv D st"
  by (metis core_fields notify_fields)

end
