(* ===== verification/Command_Queue_Ops.thy ===== *)
theory Command_Queue_Ops
  imports Command_Queue_Inv
begin

text \<open>
  The events of the command queue as a step relation, the invariant at every reachable state,
  and the properties callers rely on: every ticket settles at most once and is never lost, no
  lane is stuck, no waiter waits for nothing, entries run in priority order and in arrival
  order within a priority, a lane never exceeds its concurrency on its own, and a task of an
  earlier generation frees no slot of the current one.
\<close>

section \<open>Events\<close>

inductive queue_step :: "queue_state \<Rightarrow> queue_state \<Rightarrow> bool" where
  step_mark: "queue_step st (markGatewayDraining st)"
| step_concurrency: "queue_step st (setCommandLaneConcurrency now l n st)"
| step_enqueue: "queue_step st (snd (enqueueCommandInLane now l opts st))"
| step_finish: "queue_step st (finishTask now t out st)"
| step_timeout: "queue_step st (timeoutTick now progress t st)"
| step_clear: "queue_step st (snd (clearCommandLane l st))"
| step_reset: "queue_step st (snd (resetCommandLane now l st))"
| step_reset_all: "queue_step st (resetAllLanes now st)"
| step_wait: "queue_step st (snd (waitForActiveTasks ms st))"
| step_wait_timeout: "queue_step st (waiterTimeout w st)"

definition queue_reachable :: "queue_state \<Rightarrow> bool" where
  "queue_reachable st \<longleftrightarrow> rtranclp queue_step initial_queue_state st"

section \<open>Each operation keeps the invariant\<close>

lemma queue_invD:
  assumes "queue_inv st"
  shows "core_inv {#} st" "lanes_saturated st" "waiters_pending st"
  using assms by (simp_all add: queue_inv_def)

lemma saturatedD: "queue_inv st \<Longrightarrow> jm_get (lanes st) l = Some ls \<Longrightarrow> saturated ls"
  by (simp add: queue_inv_def lanes_saturated_def)

lemma queue_inv_initial: "queue_inv initial_queue_state"
  by (simp add: queue_inv_def core_inv_def lanes_core_def running_core_def tickets_core_def
      lanes_saturated_def waiters_pending_def initial_queue_state_def queued_tickets_def
      running_tickets_def settled_tickets_def)

text \<open>
  The waiters keep waiting for something when the active tasks only grow, and the lanes stay
  saturated when the one lane an operation touched is saturated.
\<close>

lemma waiters_pending_mono:
  assumes "waiters_pending s" "jm_wf (lanes s)" "jm_wf (lanes t)"
    and "set (activeTaskWaiters t) \<subseteq> set (activeTaskWaiters s)"
    and "\<And>l ls. jm_get (lanes s) l = Some ls \<Longrightarrow>
           \<exists>ls'. jm_get (lanes t) l = Some ls' \<and> set (activeTaskIds ls) \<subseteq> set (activeTaskIds ls')"
  shows "waiters_pending t"
  using assms pending_mono[OF assms(2,3,5)] unfolding waiters_pending_def by blast

lemma queue_inv_mark: "queue_inv st \<Longrightarrow> queue_inv (markGatewayDraining st)"
proof -
  assume inv: "queue_inv st"
  have "core_inv {#} (markGatewayDraining st)"
    by (rule core_fields[OF queue_invD(1)[OF inv]]) (simp_all add: markGatewayDraining_def)
  then show ?thesis
    using inv pending_cong[of "markGatewayDraining st" st]
    by (auto simp: queue_inv_def lanes_saturated_def waiters_pending_def markGatewayDraining_def)
qed

text \<open>
  Drain after a write to one lane: the shape of \<open>enqueue\<close>, \<open>setConcurrency\<close> and \<open>reset\<close>. The
  lane written may be unsaturated before the drain, the others are saturated.
\<close>

lemma queue_inv_write_drain:
  assumes core: "core_inv {#} s" and get: "jm_get (lanes s) l = Some ls" and nd: "\<not> draining ls"
    and others: "\<And>k ks. k \<noteq> l \<Longrightarrow> jm_get (lanes s) k = Some ks \<Longrightarrow> saturated ks"
  shows "core_inv {#} (drainLane now l s)" and "lanes_saturated (drainLane now l s)"
    and "waiters_pending s \<Longrightarrow> waiters_pending (drainLane now l s)"
proof -
  show c: "core_inv {#} (drainLane now l s)" by (rule core_drainLane[OF core])
  obtain ls' where e: "saturated ls'"
    "\<And>k. jm_get (lanes (drainLane now l s)) k = (if k = l then Some ls' else jm_get (lanes s) k)"
    "\<And>ls0. jm_get (lanes s) l = Some ls0 \<Longrightarrow> set (activeTaskIds ls0) \<subseteq> set (activeTaskIds ls') \<and>
       maxConcurrent ls' = maxConcurrent ls0 \<and> generation ls' = generation ls0 \<and>
       queue ls' = drop (free_slots ls0) (queue ls0)"
    "activeTaskWaiters (drainLane now l s) = activeTaskWaiters s"
    by (rule drainLane_effect[OF core, of l now]) (use get nd in auto)
  show "lanes_saturated (drainLane now l s)"
    using e(1,2) others by (auto simp: lanes_saturated_def split: if_splits)
  show "waiters_pending (drainLane now l s)" if "waiters_pending s"
    by (rule waiters_pending_mono[OF that core_wf(1)[OF core] core_wf(1)[OF c]])
      (use e get in \<open>auto split: if_splits\<close>)
qed

text \<open>The lane an operation got, with only fields changed that the waiters do not look at.\<close>

lemma waiters_pending_put:
  assumes "waiters_pending st" "jm_wf (lanes st)" "jm_get (lanes st) (lane ls) = Some ls0"
    and "activeTaskIds ls = activeTaskIds ls0"
  shows "waiters_pending (put_lane ls st)"
  by (rule waiters_pending_mono[OF assms(1,2)]) (use assms in \<open>auto simp: store_simps\<close>)

lemma queue_inv_getLane:
  assumes inv: "queue_inv st" and g: "getLaneState l st = (ls, st1)"
  shows "queue_inv st1"
proof -
  note c = core_getLaneState[OF queue_invD(1)[OF inv] g] and f = getLaneState_fields[OF g]
  have "saturated ls"
  proof (cases "jm_get (lanes st) l")
    case None
    then show ?thesis using g by (auto simp: getLaneState_def Let_def fresh_lane_def saturated_def)
  next
    case (Some ls0)
    then show ?thesis using f(8) saturatedD[OF inv] by auto
  qed
  then have "lanes_saturated st1"
    using f(7) c(2) queue_invD(2)[OF inv] by (metis lanes_saturated_def option.inject)
  moreover have "waiters_pending st1"
  proof (rule waiters_pending_mono[OF queue_invD(3)[OF inv] core_wf(1)[OF queue_invD(1)[OF inv]] core_wf(1)[OF c(1)]])
    show "\<exists>ls'. jm_get (lanes st1) k = Some ls' \<and> set (activeTaskIds ks) \<subseteq> set (activeTaskIds ls')"
      if "jm_get (lanes st) k = Some ks" for k ks
      using that f(7)[of k] f(8)[of ks] by (cases "k = l") auto
  qed (simp add: f(5))
  ultimately show ?thesis using c(1) by (simp add: queue_inv_def)
qed

lemma queue_inv_enqueue: "queue_inv st \<Longrightarrow> queue_inv (snd (enqueueCommandInLane now l opts st))"
proof -
  assume inv: "queue_inv st"
  obtain ls st1 where g: "getLaneState (normalizeLane l) st = (ls, st1)" by force
  have inv1: "queue_inv st1" by (rule queue_inv_getLane[OF inv g])
  note c = core_getLaneState[OF queue_invD(1)[OF inv] g]
  let ?e = "new_entry now (nextQueueSequence st1) opts"
  let ?ls = "enqueueLaneEntry ls ?e"
  let ?s = "put_lane ?ls (st1\<lparr>nextQueueSequence := nextQueueSequence st1 + 1\<rparr>)"
  have core: "core_inv {#} ?s" by (rule core_enqueue[OF c(1,2)]) (simp add: new_entry_def)
  have get: "jm_get (lanes ?s) (normalizeLane l) = Some ?ls" by (simp add: store_simps c(3))
  have nd: "\<not> draining ?ls" using saturatedD[OF inv1 c(2)] by (simp add: saturated_def)
  have others: "saturated ks" if "k \<noteq> normalizeLane l" "jm_get (lanes ?s) k = Some ks" for k ks
    using that saturatedD[OF inv1, of k ks] by (simp add: store_simps c(3))
  have "waiters_pending ?s"
    by (rule waiters_pending_put)
      (use c queue_invD(3)[OF inv1] core_wf(1)[OF c(1)] pending_cong[of "st1\<lparr>nextQueueSequence := nextQueueSequence st1 + 1\<rparr>" st1]
        in \<open>auto simp: waiters_pending_def\<close>)
  then have "queue_inv (drainLane now (normalizeLane l) ?s)"
    using queue_inv_write_drain[OF core get nd others] by (simp add: queue_inv_def)
  then show ?thesis using inv by (simp add: enqueueCommandInLane_def g Let_def)
qed

lemma queue_inv_concurrency: "queue_inv st \<Longrightarrow> queue_inv (setCommandLaneConcurrency now l n st)"
proof -
  assume inv: "queue_inv st"
  let ?l = "normalizeLane l"
  obtain ls st1 where g: "getLaneState ?l st = (ls, st1)" by force
  have inv1: "queue_inv st1" by (rule queue_inv_getLane[OF inv g])
  note c = core_getLaneState[OF queue_invD(1)[OF inv] g]
  define m where "m = max (if isProbeLane ?l then 1 else 0) \<lfloor>n\<rfloor>"
  let ?ls = "ls\<lparr>maxConcurrent := m\<rparr>"
  let ?s = "put_lane ?ls st1"
  have "0 \<le> m" by (simp add: m_def max_def)
  then have core: "core_inv {#} ?s"
    using core_lane(2)[OF c(1,2)] core_covers[OF c(1,2)] c(2,3)
    by (intro core_put[OF c(1)]) (auto simp: lane_core_def covers_def queued_at_def queued_of_def)
  have get: "jm_get (lanes ?s) ?l = Some ?ls" by (simp add: store_simps c(3))
  have nd: "\<not> draining ?ls" using saturatedD[OF inv1 c(2)] by (simp add: saturated_def)
  have others: "saturated ks" if "k \<noteq> ?l" "jm_get (lanes ?s) k = Some ks" for k ks
    using that saturatedD[OF inv1, of k ks] by (simp add: store_simps c(3))
  have wait: "waiters_pending ?s"
    by (rule waiters_pending_put) (use c queue_invD(3)[OF inv1] core_wf(1)[OF c(1)] in auto)
  have drained: "queue_inv (drainLane now ?l ?s)"
    using queue_inv_write_drain[OF core get nd others] wait by (simp add: queue_inv_def)
  have quiet: "queue_inv ?s" if "\<not> m > 0"
  proof -
    have "saturated ?ls" using nd that by (simp add: saturated_def)
    then have "lanes_saturated ?s" using others get by (metis lanes_saturated_def option.inject)
    then show ?thesis using core wait by (simp add: queue_inv_def)
  qed
  show ?thesis
    using drained quiet by (auto simp: setCommandLaneConcurrency_def g Let_def m_def[symmetric])
qed

lemma queue_inv_settle:
  assumes "core_inv {#q#} st" "lanes_saturated st" "waiters_pending st"
  shows "queue_inv (settle q x st)"
proof -
  have "core_inv {#} (settle q x st)" using core_settle[of "{#}" q st x] assms(1) by simp
  moreover have "waiters_pending (settle q x st)"
    using assms(3) pending_cong[of "settle q x st" st] by (simp add: waiters_pending_def)
  ultimately show ?thesis using assms(2) by (simp add: queue_inv_def lanes_saturated_def)
qed

text \<open>After the slot is freed and the waiters are woken, the pump saturates the lane again.\<close>

lemma queue_inv_pump:
  assumes core: "core_inv D s" and get: "jm_get (lanes s) (lane ls) = Some ls"
    and wait: "waiters_pending s"
    and others: "\<And>k ks. k \<noteq> lane ls \<Longrightarrow> jm_get (lanes s) k = Some ks \<Longrightarrow> saturated ks"
  shows "core_inv D (pump now ls s)" "lanes_saturated (pump now ls s)" "waiters_pending (pump now ls s)"
proof -
  show c: "core_inv D (pump now ls s)"
    using lane_coreD(1)[OF core_lane(2)[OF core get]] by (intro core_pump[OF core get]) simp_all
  obtain ls' where e: "lanes (pump now ls s) = jm_set (lane ls) ls' (lanes s)" "saturated ls'"
    "set (activeTaskIds ls) \<subseteq> set (activeTaskIds ls')"
    "activeTaskWaiters (pump now ls s) = activeTaskWaiters s"
    by (rule pump_effect[OF core get refl, of now]) auto
  show "lanes_saturated (pump now ls s)"
    using e(1,2) others by (auto simp: lanes_saturated_def store_simps split: if_splits)
  show "waiters_pending (pump now ls s)"
    by (rule waiters_pending_mono[OF wait core_wf(1)[OF core] core_wf(1)[OF c]])
      (use e get in \<open>auto simp: store_simps\<close>)
qed

lemma getLaneState_existing: "jm_get (lanes st) l = Some ls \<Longrightarrow> getLaneState l st = (ls, st)"
  by (simp add: getLaneState_def)

text \<open>The two ways a task ends, as equations over the state.\<close>

lemma finishTask_eq:
  assumes inv: "core_inv D st" and run: "jm_get (running st) t = Some r"
  obtains ls where
    "jm_get (lanes st) (runLane r) = Some ls" "lane ls = runLane r"
    "runGeneration r \<noteq> generation ls \<Longrightarrow>
       finishTask now t out st =
         settle (sequence (runEntry r)) out (st\<lparr>running := jm_del t (running st)\<rparr>)"
    "runGeneration r = generation ls \<Longrightarrow>
       finishTask now t out st =
         (let ls' = ls\<lparr>activeTaskIds := removeAll t (activeTaskIds ls)\<rparr>
          in settle (sequence (runEntry r)) out
               (pump now ls' (notifyActiveTaskWaiters
                 (put_lane ls' (st\<lparr>running := jm_del t (running st)\<rparr>)))))"
proof -
  obtain ls where ls: "jm_get (lanes st) (runLane r) = Some ls" "lane ls = runLane r"
    by (rule core_running_lane[OF inv run])
  show ?thesis
  proof (rule that[OF ls])
    show "finishTask now t out st =
        settle (sequence (runEntry r)) out (st\<lparr>running := jm_del t (running st)\<rparr>)"
      if "runGeneration r \<noteq> generation ls"
      using that ls run put_lane_same[of "st\<lparr>running := jm_del t (running st)\<rparr>" ls]
      by (simp add: finishTask_def getLaneState_existing completeTask_def)
  qed (use ls run in \<open>simp add: finishTask_def getLaneState_existing completeTask_def Let_def\<close>)
qed

lemma finishTask_idle: "jm_get (running st) t = None \<Longrightarrow> finishTask now t out st = st"
  by (simp add: finishTask_def)

lemma queue_inv_finish: "queue_inv st \<Longrightarrow> queue_inv (finishTask now t out st)"
proof -
  assume inv: "queue_inv st"
  show ?thesis
  proof (cases "jm_get (running st) t")
    case None
    then show ?thesis using inv by (simp add: finishTask_idle)
  next
    case (Some r)
    obtain ls where ls: "jm_get (lanes st) (runLane r) = Some ls" "lane ls = runLane r"
      "runGeneration r \<noteq> generation ls \<Longrightarrow>
         finishTask now t out st =
           settle (sequence (runEntry r)) out (st\<lparr>running := jm_del t (running st)\<rparr>)"
      "runGeneration r = generation ls \<Longrightarrow>
         finishTask now t out st =
           (let ls' = ls\<lparr>activeTaskIds := removeAll t (activeTaskIds ls)\<rparr>
            in settle (sequence (runEntry r)) out
                 (pump now ls' (notifyActiveTaskWaiters
                   (put_lane ls' (st\<lparr>running := jm_del t (running st)\<rparr>)))))"
      by (rule finishTask_eq[where now = now and out = out, OF queue_invD(1)[OF inv] Some]) (rule that)
    let ?q = "sequence (runEntry r)" and ?st = "st\<lparr>running := jm_del t (running st)\<rparr>"
    show ?thesis
    proof (cases "runGeneration r = generation ls")
      case False
      then have ct: "completeTask ls t (runGeneration r) = (False, ls)" by (simp add: completeTask_def)
      have "core_inv {#?q#} ?st"
        using core_complete[OF queue_invD(1)[OF inv] Some ls(1) ct] put_lane_same[of ?st ls] ls(1,2) by simp
      moreover have "lanes_saturated ?st" "waiters_pending ?st"
        using queue_invD(2,3)[OF inv] pending_cong[of ?st st]
        by (simp_all add: lanes_saturated_def waiters_pending_def)
      ultimately show ?thesis using queue_inv_settle ls(3)[OF False] by simp
    next
      case True
      let ?ls = "ls\<lparr>activeTaskIds := removeAll t (activeTaskIds ls)\<rparr>"
      let ?s = "notifyActiveTaskWaiters (put_lane ?ls ?st)"
      have ct: "completeTask ls t (runGeneration r) = (True, ?ls)" using True by (simp add: completeTask_def)
      have core: "core_inv {#?q#} ?s"
        using core_complete[OF queue_invD(1)[OF inv] Some ls(1) ct] by simp
      have get: "jm_get (lanes ?s) (lane ?ls) = Some ?ls" by (simp add: store_simps)
      have others: "saturated ks" if "k \<noteq> lane ?ls" "jm_get (lanes ?s) k = Some ks" for k ks
        using that saturatedD[OF inv, of k ks] by (simp add: store_simps)
      note p = queue_inv_pump[OF core get waiters_pending_notify others, where now = now]
      show ?thesis unfolding ls(4)[OF True] Let_def by (rule queue_inv_settle[OF p])
    qed
  qed
qed

lemma queue_inv_timeout: "queue_inv st \<Longrightarrow> queue_inv (timeoutTick now progress t st)"
  by (simp add: timeoutTick_def queue_inv_finish split: option.split)

lemma queue_inv_clear: "queue_inv st \<Longrightarrow> queue_inv (snd (clearCommandLane l st))"
proof -
  assume inv: "queue_inv st"
  show ?thesis
  proof (cases "jm_get (lanes st) (normalizeLane l)")
    case None
    then show ?thesis using inv by (simp add: clearCommandLane_def Let_def)
  next
    case (Some ls)
    note core = queue_invD(1)[OF inv]
    let ?ls = "ls\<lparr>queue := []\<rparr>"
    let ?s = "put_lane ?ls st"
    let ?g = "\<lambda>s. fold (\<lambda>e s. settle (sequence e) (Rejected (CommandLaneClearedError (normalizeLane l))) s) (queue ls) s"
    have l: "lane ls = normalizeLane l" by (rule core_lane(1)[OF core Some])
    have "core_inv ({#} + mset (map sequence (queue ls))) ?s"
      using core_lane(2)[OF core Some] core_covers[OF core Some] Some l
      by (intro core_put[OF core]) (auto simp: lane_core_def covers_def queued_at_def queued_of_def)
    then have "core_inv {#} (?g ?s)" by (rule core_settle_all)
    moreover have "waiters_pending (?g ?s)"
      using waiters_pending_put[OF queue_invD(3)[OF inv] core_wf(1)[OF core], of ?ls ls] Some l
        pending_cong[of "?g ?s" ?s]
      by (simp add: waiters_pending_def settle_all_fields)
    moreover have "lanes_saturated (?g ?s)"
      using queue_invD(2)[OF inv] Some saturatedD[OF inv Some] l
      by (auto simp: lanes_saturated_def settle_all_fields store_simps) (simp add: saturated_def)
    ultimately show ?thesis using Some by (simp add: queue_inv_def clearCommandLane_def Let_def)
  qed
qed

lemma saturated_reset: "saturated ls \<Longrightarrow> queue ls = [] \<Longrightarrow> saturated (reset_lane ls)"
  by (simp add: saturated_def)

lemma queue_inv_reset: "queue_inv st \<Longrightarrow> queue_inv (snd (resetCommandLane now l st))"
proof -
  assume inv: "queue_inv st"
  show ?thesis
  proof (cases "jm_get (lanes st) (normalizeLane l)")
    case None
    then show ?thesis using inv by (simp add: resetCommandLane_def Let_def)
  next
    case (Some ls)
    let ?l = "normalizeLane l"
    let ?s = "put_lane (reset_lane ls) st"
    have core: "core_inv {#} ?s" by (rule core_reset_one[OF queue_invD(1)[OF inv] Some])
    have l: "lane ls = ?l" by (rule core_lane(1)[OF queue_invD(1)[OF inv] Some])
    have get: "jm_get (lanes ?s) ?l = Some (reset_lane ls)" by (simp add: store_simps l)
    have others: "saturated ks" if "k \<noteq> ?l" "jm_get (lanes ?s) k = Some ks" for k ks
      using that saturatedD[OF inv, of k ks] by (simp add: store_simps l)
    let ?t = "if queue ls \<noteq> [] then drainLane now ?l ?s else ?s"
    have t: "core_inv {#} ?t" "lanes_saturated ?t"
    proof -
      show "core_inv {#} ?t" using core core_drainLane[OF core] by simp
      have "saturated (reset_lane ls)" if "queue ls = []"
        using that saturatedD[OF inv Some] by (simp add: saturated_reset)
      then have "lanes_saturated ?s" if "queue ls = []"
        using that others get by (metis lanes_saturated_def option.inject)
      then show "lanes_saturated ?t"
        using queue_inv_write_drain(2)[OF core get _ others, where now = now] by simp
    qed
    then have "queue_inv (notifyActiveTaskWaiters ?t)"
      using waiters_pending_notify[of ?t] by (simp add: queue_inv_def lanes_saturated_def)
    then show ?thesis using Some by (simp add: resetCommandLane_def Let_def)
  qed
qed

text \<open>
  \<open>resetAllLanes\<close> drains the lanes that had queued entries one after another; the others were
  reset with an empty queue.
\<close>

lemma drain_all:
  assumes "core_inv {#} s"
    and "\<And>k ks. jm_get (lanes s) k = Some ks \<Longrightarrow> \<not> draining ks"
    and "\<And>k ks. k \<notin> set ls \<Longrightarrow> jm_get (lanes s) k = Some ks \<Longrightarrow> saturated ks"
  shows "core_inv {#} (fold (drainLane now) ls s) \<and> lanes_saturated (fold (drainLane now) ls s)"
  using assms
proof (induction ls arbitrary: s)
  case Nil
  then show ?case by (simp add: lanes_saturated_def)
next
  case (Cons l ls)
  obtain ls' where e: "saturated ls'"
    "\<And>k. jm_get (lanes (drainLane now l s)) k = (if k = l then Some ls' else jm_get (lanes s) k)"
    by (rule drainLane_effect[OF Cons.prems(1), of l now]) (use Cons.prems(2) in auto)
  have "core_inv {#} (fold (drainLane now) ls (drainLane now l s)) \<and>
      lanes_saturated (fold (drainLane now) ls (drainLane now l s))"
  proof (rule Cons.IH)
    show "core_inv {#} (drainLane now l s)" by (rule core_drainLane[OF Cons.prems(1)])
    show "\<not> draining ks" if "jm_get (lanes (drainLane now l s)) k = Some ks" for k ks
      using that e Cons.prems(2)[of k ks] by (auto simp: saturated_def split: if_splits)
    show "saturated ks" if "k \<notin> set ls" "jm_get (lanes (drainLane now l s)) k = Some ks" for k ks
      using that e Cons.prems(3)[of k ks] by (auto split: if_splits)
  qed
  then show ?case by simp
qed

lemma resetAllLanes_eq:
  "resetAllLanes now st =
     notifyActiveTaskWaiters
       (fold (drainLane now) (map (\<lambda>p. lane (snd p)) (filter (\<lambda>p. queue (snd p) \<noteq> []) (lanes (reset_every st))))
         (reset_every st))"
  by (simp add: resetAllLanes_def reset_every_def Let_def)

lemma queue_inv_reset_all: "queue_inv st \<Longrightarrow> queue_inv (resetAllLanes now st)"
proof -
  assume inv: "queue_inv st"
  let ?s = "reset_every st"
  let ?ls = "map (\<lambda>p. lane (snd p)) (filter (\<lambda>p. queue (snd p) \<noteq> []) (lanes ?s))"
  have core: "core_inv {#} ?s" by (rule core_reset_every[OF queue_invD(1)[OF inv]])
  have get: "jm_get (lanes ?s) k = map_option reset_lane (jm_get (lanes st) k)" for k
    by (simp add: reset_every_def jm_get_map)
  have "core_inv {#} (fold (drainLane now) ?ls ?s) \<and> lanes_saturated (fold (drainLane now) ?ls ?s)"
  proof (rule drain_all[OF core])
    show "\<not> draining ks" if "jm_get (lanes ?s) k = Some ks" for k ks
      using that by (auto simp: get)
    show "saturated ks" if k: "k \<notin> set ?ls" "jm_get (lanes ?s) k = Some ks" for k ks
    proof -
      obtain ls where ls: "jm_get (lanes st) k = Some ls" "ks = reset_lane ls" using k(2) by (auto simp: get)
      have "(k, ks) \<in> set (lanes ?s)" by (rule jm_get_in[OF k(2)])
      then have "queue ls = []"
        using k(1) core_lane(1)[OF queue_invD(1)[OF inv] ls(1)] ls(2) by force
      then show ?thesis using saturatedD[OF inv ls(1)] ls(2) by (simp add: saturated_reset)
    qed
  qed
  then show ?thesis
    using waiters_pending_notify by (simp add: queue_inv_def resetAllLanes_eq lanes_saturated_def)
qed

lemma queue_inv_waiters:
  assumes "queue_inv st" "lanes s = lanes st" "running s = running st" "nextTaskId s = nextTaskId st"
    "settled s = settled st" "nextQueueSequence s = nextQueueSequence st" "waiters_pending s"
  shows "queue_inv s"
  using assms core_fields[OF queue_invD(1)[OF assms(1)] assms(2-6)]
  by (simp add: queue_inv_def lanes_saturated_def)

lemma queue_inv_wait: "queue_inv st \<Longrightarrow> queue_inv (snd (waitForActiveTasks ms st))"
  by (auto simp: waitForActiveTasks_def Let_def intro: queue_inv_waiters waiters_pending_notify)

lemma queue_inv_waiter_timeout: "queue_inv st \<Longrightarrow> queue_inv (waiterTimeout w st)"
proof -
  assume inv: "queue_inv st"
  have "waiters_pending (waiterTimeout w st)"
    using queue_invD(3)[OF inv] pending_cong[of "waiterTimeout w st" st]
    by (auto simp: waiterTimeout_def waiters_pending_def)
  then show ?thesis by (intro queue_inv_waiters[OF inv]) (simp_all add: waiterTimeout_def)
qed

lemma queue_inv_step: "queue_inv st \<Longrightarrow> queue_step st st' \<Longrightarrow> queue_inv st'"
  by (cases rule: queue_step.cases)
    (auto intro: queue_inv_mark queue_inv_concurrency queue_inv_enqueue queue_inv_finish
      queue_inv_timeout queue_inv_clear queue_inv_reset queue_inv_reset_all queue_inv_wait
      queue_inv_waiter_timeout)

interpretation command_queue: invariant_system "\<lambda>st. st = initial_queue_state" queue_step queue_inv
  by unfold_locales (auto intro: queue_inv_initial queue_inv_step)

lemma reachable_queue_inv: "queue_reachable st \<Longrightarrow> queue_inv st"
  unfolding queue_reachable_def using command_queue.reachable_inv[of initial_queue_state st] by simp

end
