(* ===== verification/Command_Queue_Props.thy ===== *)
theory Command_Queue_Props
  imports Command_Queue_Ops
begin

text \<open>
  What callers of the command queue rely on, at every reachable state: tickets are settled
  exactly once, queued work always has a running task that will pump it, entries run in
  priority order and in arrival order within a priority, a stale task frees no slot, clearing
  and resetting lose no ticket, and the timers fire exactly when they should.
\<close>

section \<open>Concrete runs\<close>

text \<open>
  A run used by the witnesses: two commands on the main lane (the first runs, the second
  waits), then a caller that waits for the active tasks.
\<close>

definition plain_options :: enqueue_options where
  "plain_options =
     \<lparr>optWarnAfterMs = None, optOnWait = False, optTaskTimeoutMs = None, optPriority = None\<rparr>"

definition run_one :: queue_state where
  "run_one = snd (enqueueCommandInLane 0 ''main'' plain_options initial_queue_state)"

definition run_two :: queue_state where
  "run_two = snd (enqueueCommandInLane 5 ''main'' plain_options run_one)"

definition run_wait :: queue_state where
  "run_wait = snd (waitForActiveTasks (Some 100) run_two)"

definition run_reset :: queue_state where
  "run_reset = snd (resetCommandLane 7 ''main'' run_two)"

lemma reachable_step: "queue_reachable st \<Longrightarrow> queue_step st st' \<Longrightarrow> queue_reachable st'"
  unfolding queue_reachable_def by (rule rtranclp.rtrancl_into_rtrancl)

lemma reachable_initial: "queue_reachable initial_queue_state"
  by (simp add: queue_reachable_def)

lemma reachable_runs [intro]:
  "queue_reachable run_one" "queue_reachable run_two" "queue_reachable run_wait" "queue_reachable run_reset"
proof -
  show one: "queue_reachable run_one"
    unfolding run_one_def by (rule reachable_step[OF reachable_initial step_enqueue])
  then show two: "queue_reachable run_two"
    unfolding run_two_def by (rule reachable_step[OF _ step_enqueue])
  then show "queue_reachable run_wait" "queue_reachable run_reset"
    unfolding run_wait_def run_reset_def
    by (rule reachable_step[OF _ step_wait], rule reachable_step[OF _ step_reset])
qed

lemma run_two_value:
  "run_two =
     \<lparr>gatewayDraining = False,
      lanes = [(''main'', \<lparr>lane = ''main'',
        queue = [\<lparr>enqueuedAt = 5, sequence = 2, priority = 0, warnAfterMs = 2000,
                  queuedAheadAtEnqueue = 0, activeAheadAtEnqueue = 1, taskTimeoutMs = None, onWait = False\<rparr>],
        activeTaskIds = [1], maxConcurrent = 1, draining = False, generation = 0\<rparr>)],
      activeTaskWaiters = [], nextTaskId = 2, nextQueueSequence = 3,
      running = [(1, \<lparr>runLane = ''main'',
        runEntry = \<lparr>enqueuedAt = 0, sequence = 1, priority = 0, warnAfterMs = 2000,
                    queuedAheadAtEnqueue = 0, activeAheadAtEnqueue = 0, taskTimeoutMs = None, onWait = False\<rparr>,
        runGeneration = 0, runStartedAt = 0\<rparr>)],
      settled = [], nextWaiterId = 1, waiterResults = [], waitNotices = []\<rparr>"
  unfolding run_two_def run_one_def plain_options_def by code_simp

section \<open>Tickets\<close>

lemma jm_sum_queued_of:
  "jm_sum queued_of m = mset (concat (map (\<lambda>p. map sequence (queue (snd p))) m))"
  by (induction m) (auto simp: queued_of_def)

lemma running_tickets_map:
  "running_tickets st = mset (map (\<lambda>p. sequence (runEntry (snd p))) (running st))"
  by (simp add: running_tickets_def jm_sum_def)

lemma distinct_sub_mset:
  assumes "mset xs \<subseteq># mset ys" and "distinct ys"
  shows "distinct xs"
proof -
  obtain m where "mset ys = mset xs + m" using assms(1) by (auto simp: mset_subset_eq_exists_conv)
  moreover obtain zs where "m = mset zs" by (metis ex_mset)
  ultimately have "distinct ys = distinct (xs @ zs)" by (intro distinct_mset_eq) simp
  then show ?thesis using assms(2) by simp
qed

text \<open>
  C1: every ticket that was ever handed out is in exactly one place (queued in one lane, held
  by one running task, or settled), so no caller's promise is settled twice or forgotten.
\<close>

theorem tickets_exactly_once:
  assumes "queue_reachable st"
  shows "mset (concat (map (\<lambda>p. map sequence (queue (snd p))) (lanes st))) +
         mset (map (\<lambda>p. sequence (runEntry (snd p))) (running st)) + mset (map fst (settled st))
           = mset [1..<nextQueueSequence st] \<and>
         distinct (map fst (settled st))"
proof -
  have "queued_tickets st + running_tickets st + settled_tickets st = mset [1..<nextQueueSequence st]"
    using core_wf(3)[OF queue_invD(1)[OF reachable_queue_inv[OF assms]]] by (simp add: tickets_core_def)
  then have t: "mset (concat (map (\<lambda>p. map sequence (queue (snd p))) (lanes st))) +
         mset (map (\<lambda>p. sequence (runEntry (snd p))) (running st)) + mset (map fst (settled st))
           = mset [1..<nextQueueSequence st]"
    by (simp only: queued_tickets_def jm_sum_queued_of running_tickets_map settled_tickets_def)
  then have "mset (map fst (settled st)) \<subseteq># mset [1..<nextQueueSequence st]"
    by (metis mset_subset_eq_add_right)
  then have "distinct (map fst (settled st))" by (rule distinct_sub_mset) simp
  with t show ?thesis by blast
qed

lemma tickets_exactly_once_witness:
  "{#2#} + {#1#} + {#} = mset [1..<3::nat]"
  using tickets_exactly_once[OF reachable_runs(2)] by (simp add: run_two_value)

section \<open>Progress\<close>

text \<open>
  C2: no lane is stuck. When a lane that may run something has queued entries, it is full of
  active tasks, and each of them is a running task of the lane's current generation: its end
  frees a slot and pumps the lane.
\<close>

theorem no_stuck_lane:
  assumes "queue_reachable st" and "jm_get (lanes st) l = Some ls"
    and "queue ls \<noteq> []" and "0 < maxConcurrent ls"
  shows "activeTaskIds ls \<noteq> [] \<and> maxConcurrent ls \<le> int (length (activeTaskIds ls)) \<and>
         \<not> draining ls \<and>
         (\<forall>t \<in> set (activeTaskIds ls). \<exists>r. jm_get (running st) t = Some r \<and>
            runLane r = l \<and> fst (completeTask ls t (runGeneration r)))"
proof -
  have inv: "queue_inv st" by (rule reachable_queue_inv[OF assms(1)])
  have "saturated ls" by (rule saturatedD[OF inv assms(2)])
  moreover have "\<exists>r. jm_get (running st) t = Some r \<and> runLane r = l \<and> runGeneration r = generation ls"
    if "t \<in> set (activeTaskIds ls)" for t
    using core_lane[OF queue_invD(1)[OF inv] assms(2)] that by (auto simp: lane_core_def)
  ultimately show ?thesis
    using assms(3,4) by (fastforce simp: saturated_def completeTask_def)
qed

lemma no_stuck_lane_witness:
  "maxConcurrent (snd (hd (lanes run_two))) \<le> int (length (activeTaskIds (snd (hd (lanes run_two)))))"
  using no_stuck_lane[OF reachable_runs(2), of "''main''" "snd (hd (lanes run_two))"]
  by (simp add: run_two_value)

text \<open>
  a caller that waits for active tasks is never left waiting for nothing: while it waits,
  one of its tasks is still active in some lane and is a running task.
\<close>

theorem waiter_has_pending_task:
  assumes "queue_reachable st" and "w \<in> set (activeTaskWaiters st)"
  shows "\<exists>l ls t r. jm_get (lanes st) l = Some ls \<and> t \<in> set (activeTaskIds ls) \<and>
           t \<in> set (waiterTaskIds w) \<and> jm_get (running st) t = Some r \<and>
           runLane r = l \<and> runGeneration r = generation ls"
proof -
  have inv: "queue_inv st" by (rule reachable_queue_inv[OF assms(1)])
  note core = queue_invD(1)[OF inv]
  have "hasPendingActiveTasks (waiterTaskIds w) st"
    using queue_invD(3)[OF inv] assms(2) by (simp add: waiters_pending_def)
  then obtain l ls t where l: "jm_get (lanes st) l = Some ls" "t \<in> set (activeTaskIds ls)"
    "t \<in> set (waiterTaskIds w)"
    using pending_iff[OF core_wf(1)[OF core]] by blast
  then show ?thesis
    using core_lane[OF core l(1)] by (auto simp: lane_core_def) blast
qed

lemma waiter_has_pending_task_witness:
  "\<exists>l ls t r. jm_get (lanes run_wait) l = Some ls \<and> t \<in> set (activeTaskIds ls) \<and>
     t \<in> {1} \<and> jm_get (running run_wait) t = Some r \<and> runLane r = l \<and> runGeneration r = generation ls"
proof -
  have "\<lparr>waiterId = 1, waiterTaskIds = [1]\<rparr> \<in> set (activeTaskWaiters run_wait)"
    unfolding run_wait_def run_two_value by code_simp
  from waiter_has_pending_task[OF reachable_runs(3) this] show ?thesis by simp
qed

section \<open>The end of a task\<close>

text \<open>
  a task that outlived a reset of its lane frees no slot: its end settles its own promise
  and changes nothing else, whatever the lane is doing in its new generation.
\<close>

theorem stale_task_frees_nothing:
  assumes "queue_reachable st" and "jm_get (running st) t = Some r"
    and "jm_get (lanes st) (runLane r) = Some ls" and "runGeneration r \<noteq> generation ls"
  shows "finishTask now t out st =
           st\<lparr>running := jm_del t (running st),
              settled := settled st @ [(sequence (runEntry r), out)]\<rparr>"
proof -
  have core: "core_inv {#} st" by (rule queue_invD(1)[OF reachable_queue_inv[OF assms(1)]])
  obtain ls' where "jm_get (lanes st) (runLane r) = Some ls'"
    "runGeneration r \<noteq> generation ls' \<Longrightarrow>
       finishTask now t out st = settle (sequence (runEntry r)) out (st\<lparr>running := jm_del t (running st)\<rparr>)"
    by (rule finishTask_eq[where now = now and out = out, OF core assms(2)]) (rule that)
  then show ?thesis using assms(3,4) by (simp add: settle_def)
qed

lemma run_reset_value:
  "lanes run_reset = [(''main'', \<lparr>lane = ''main'', queue = [], activeTaskIds = [2],
     maxConcurrent = 1, draining = False, generation = 1\<rparr>)]"
  "running run_reset = [(1, \<lparr>runLane = ''main'',
     runEntry = \<lparr>enqueuedAt = 0, sequence = 1, priority = 0, warnAfterMs = 2000,
       queuedAheadAtEnqueue = 0, activeAheadAtEnqueue = 0, taskTimeoutMs = None, onWait = False\<rparr>,
     runGeneration = 0, runStartedAt = 0\<rparr>), (2, \<lparr>runLane = ''main'',
     runEntry = \<lparr>enqueuedAt = 5, sequence = 2, priority = 0, warnAfterMs = 2000,
       queuedAheadAtEnqueue = 0, activeAheadAtEnqueue = 1, taskTimeoutMs = None, onWait = False\<rparr>,
     runGeneration = 1, runStartedAt = 7\<rparr>)]"
  unfolding run_reset_def run_two_value by code_simp+

lemma stale_task_frees_nothing_witness:
  "lanes (finishTask 9 1 (Resolved 0) run_reset) = lanes run_reset"
  using stale_task_frees_nothing[OF reachable_runs(4), of 1 "snd (hd (running run_reset))"
      "snd (hd (lanes run_reset))" 9 "Resolved 0"]
  by (simp add: run_reset_value)

text \<open>
  the end of a task of the current generation frees exactly its own slot and hands the
  free slots to the head of its lane's queue, in order; it settles its own promise and no
  other, and the queues of the other lanes stay as they are.
\<close>

theorem finish_pumps_in_order:
  assumes "queue_reachable st" and "jm_get (running st) t = Some r"
    and "jm_get (lanes st) (runLane r) = Some ls" and "runGeneration r = generation ls"
  shows "\<exists>ls'.
     (let n = min (length (queue ls)) (nat (maxConcurrent ls - int (length (activeTaskIds ls) - 1))) in
      lanes (finishTask now t out st) = jm_set (runLane r) ls' (lanes st) \<and>
      queue ls' = drop n (queue ls) \<and>
      length (activeTaskIds ls') = length (activeTaskIds ls) - 1 + n \<and>
      map (runEntry \<circ> snd) (running (finishTask now t out st)) =
        map (runEntry \<circ> snd) (jm_del t (running st)) @ take n (queue ls) \<and>
      settled (finishTask now t out st) = settled st @ [(sequence (runEntry r), out)])"
proof -
  note inv = reachable_queue_inv[OF assms(1)]
  note core = queue_invD(1)[OF inv]
  let ?ls = "ls\<lparr>activeTaskIds := removeAll t (activeTaskIds ls)\<rparr>"
  let ?st = "put_lane ?ls (st\<lparr>running := jm_del t (running st)\<rparr>)"
  have l: "lane ls = runLane r" by (rule core_lane(1)[OF core assms(3)])
  have fin: "finishTask now t out st =
      settle (sequence (runEntry r)) out (pump now ?ls (notifyActiveTaskWaiters ?st))"
    using assms l by (simp add: finishTask_def getLaneState_existing completeTask_def Let_def)
  have mem: "t \<in> set (activeTaskIds ls)"
    using core_covers[OF core assms(3,2) refl] assms(4) by (simp add: covers_def)
  have "distinct (activeTaskIds ls)" using core_lane(2)[OF core assms(3)] by (simp add: lane_core_def)
  then have len: "length (removeAll t (activeTaskIds ls)) = length (activeTaskIds ls) - 1"
    using mem by (simp add: distinct_remove1_removeAll[symmetric] length_remove1)
  have ct: "completeTask ls t (runGeneration r) = (True, ?ls)" using assms(4) by (simp add: completeTask_def)
  have c: "core_inv {#sequence (runEntry r)#} (notifyActiveTaskWaiters ?st)"
    using core_complete[OF core assms(2,3) ct] by simp
  have get: "jm_get (lanes (notifyActiveTaskWaiters ?st)) (lane ?ls) = Some ?ls" by (simp add: store_simps)
  obtain ls' where e:
    "lanes (pump now ?ls (notifyActiveTaskWaiters ?st)) = jm_set (lane ?ls) ls' (lanes (notifyActiveTaskWaiters ?st))"
    "queue ls' = drop (free_slots ?ls) (queue ?ls)"
    "length (activeTaskIds ls') = length (activeTaskIds ?ls) + free_slots ?ls"
    "map (runEntry \<circ> snd) (running (pump now ?ls (notifyActiveTaskWaiters ?st))) =
       map (runEntry \<circ> snd) (running (notifyActiveTaskWaiters ?st)) @ take (free_slots ?ls) (queue ?ls)"
    "settled (pump now ?ls (notifyActiveTaskWaiters ?st)) = settled (notifyActiveTaskWaiters ?st)"
    by (rule pump_effect[OF c get refl, of now]) (rule that)
  have "lanes (finishTask now t out st) = jm_set (runLane r) ls' (lanes st)"
    using e(1) l by (simp add: fin)
  moreover have "free_slots ?ls =
      min (length (queue ls)) (nat (maxConcurrent ls - int (length (activeTaskIds ls) - 1)))"
    by (simp add: free_slots_def len)
  ultimately show ?thesis using e(2-5) len by (intro exI[of _ ls']) (simp add: fin Let_def)
qed

lemma finish_pumps_in_order_witness:
  "settled (finishTask 9 1 (Resolved 0) run_two) = [(1, Resolved 0)]"
proof -
  let ?r = "snd (hd (running run_two))" and ?ls = "snd (hd (lanes run_two))"
  have "jm_get (running run_two) 1 = Some ?r" "jm_get (lanes run_two) (runLane ?r) = Some ?ls"
    "runGeneration ?r = generation ?ls"
    by (simp_all add: run_two_value)
  from finish_pumps_in_order[OF reachable_runs(2) this, of 9 "Resolved 0"]
  have "settled (finishTask 9 1 (Resolved 0) run_two) =
      settled run_two @ [(sequence (runEntry ?r), Resolved 0)]"
    unfolding Let_def by blast
  then show ?thesis by (simp add: run_two_value)
qed

section \<open>Enqueueing\<close>

lemma pump_queue_fields:
  "settled (pump now ls st) = settled st" "nextQueueSequence (pump now ls st) = nextQueueSequence st"
proof -
  have "settled (snd (pump_loop now ls st)) = settled st \<and>
      nextQueueSequence (snd (pump_loop now ls st)) = nextQueueSequence st"
  proof (induction now ls st rule: pump_loop.induct)
    case (1 now ls st)
    show ?case
      by (subst (1 2) pump_loop.simps)
        (auto split: list.split prod.split simp: 1 start_entry_def Let_def)
  qed
  then show "settled (pump now ls st) = settled st"
    "nextQueueSequence (pump now ls st) = nextQueueSequence st"
    by (auto simp: pump_def split: prod.split)
qed

lemma snd_getLaneState_fields:
  "settled (snd (getLaneState l st)) = settled st"
  "nextQueueSequence (snd (getLaneState l st)) = nextQueueSequence st"
  "gatewayDraining (snd (getLaneState l st)) = gatewayDraining st"
  by (simp_all add: getLaneState_def Let_def split: option.split)

lemma drainLane_queue_fields:
  "settled (drainLane now l st) = settled st"
  "nextQueueSequence (drainLane now l st) = nextQueueSequence st"
  using snd_getLaneState_fields[of l st]
  by (auto simp: drainLane_def pump_queue_fields split: prod.split)

text \<open>
  a draining gateway refuses new work and leaves the queue as it was; otherwise the command
  gets the next ticket, nothing is settled, and the ticket is queued or already running.
\<close>

theorem enqueue_ticket:
  assumes "queue_reachable st"
  shows "gatewayDraining st \<and> enqueueCommandInLane now l opts st = (Inl GatewayDrainingError, st) \<or>
         \<not> gatewayDraining st \<and>
         (\<exists>st'. enqueueCommandInLane now l opts st = (Inr (nextQueueSequence st), st') \<and>
            nextQueueSequence st' = nextQueueSequence st + 1 \<and> settled st' = settled st \<and>
            (nextQueueSequence st \<in> set (concat (map (\<lambda>p. map sequence (queue (snd p))) (lanes st'))) \<or>
             nextQueueSequence st \<in> (\<lambda>p. sequence (runEntry (snd p))) ` set (running st')))"
proof (cases "gatewayDraining st")
  case True
  then show ?thesis by (simp add: enqueueCommandInLane_def)
next
  case False
  let ?q = "nextQueueSequence st"
  define st' where "st' = snd (enqueueCommandInLane now l opts st)"
  note inv = reachable_queue_inv[OF assms]
  have inv': "queue_inv st'" unfolding st'_def by (rule queue_inv_enqueue[OF inv])
  obtain ls st1 where g: "getLaneState (normalizeLane l) st = (ls, st1)" by force
  note f = snd_getLaneState_fields[of "normalizeLane l" st, unfolded g, simplified]
  have eq: "enqueueCommandInLane now l opts st = (Inr ?q, st')"
    using False f by (simp add: st'_def enqueueCommandInLane_def g Let_def)
  have fields: "nextQueueSequence st' = ?q + 1 \<and> settled st' = settled st"
    using False f by (simp add: st'_def enqueueCommandInLane_def g Let_def drainLane_queue_fields)
  have parts: "queued_tickets st' + running_tickets st' + settled_tickets st' = mset [1..<?q + 1]"
    "settled_tickets st \<subseteq># mset [1..<?q]"
    using core_wf(3)[OF queue_invD(1)[OF inv']] core_wf(3)[OF queue_invD(1)[OF inv]] fields
    by (simp_all add: tickets_core_def) (metis mset_subset_eq_add_right)
  have "1 \<le> ?q" using core_wf(3)[OF queue_invD(1)[OF inv]] by (simp add: tickets_core_def)
  then have "?q \<in># mset [1..<?q + 1]" by simp
  moreover have "?q \<notin># settled_tickets st'"
    using mset_subset_eqD[OF parts(2), of ?q] fields by (auto simp: settled_tickets_def)
  ultimately have "?q \<in># queued_tickets st' \<or> ?q \<in># running_tickets st'"
    unfolding parts(1)[symmetric] by (metis union_iff)
  then show ?thesis
    using False eq fields
    by (auto simp: queued_tickets_def jm_sum_queued_of running_tickets_map)
qed

lemma enqueue_ticket_witness:
  "fst (enqueueCommandInLane 9 ''main'' plain_options run_two) = Inr 3"
  using enqueue_ticket[OF reachable_runs(2), of 9 "''main''" plain_options]
  by (auto simp: run_two_value)

text \<open>
  C4: in every lane the queued entries stand in the order they will run: a higher priority
  first, and within a priority the one enqueued first.
\<close>

theorem queue_in_priority_order:
  assumes "queue_reachable st" and "jm_get (lanes st) l = Some ls" and "i < j" and "j < length (queue ls)"
  shows "priority (queue ls ! i) > priority (queue ls ! j) \<or>
         (priority (queue ls ! i) = priority (queue ls ! j) \<and>
          sequence (queue ls ! i) < sequence (queue ls ! j))"
proof -
  have "sorted_wrt entry_before (queue ls)"
    using core_lane(2)[OF queue_invD(1)[OF reachable_queue_inv[OF assms(1)]] assms(2)]
    by (simp add: lane_core_def)
  then have "entry_before (queue ls ! i) (queue ls ! j)"
    using assms(3,4) by (simp add: sorted_wrt_iff_nth_less)
  then show ?thesis by (simp add: entry_before_def)
qed

definition run_three :: queue_state where
  "run_three = snd (enqueueCommandInLane 6 ''main'' (plain_options\<lparr>optPriority := Some foreground\<rparr>) run_two)"

lemma run_three_lane:
  "map sequence (queue (snd (hd (lanes run_three)))) = [3, 2]"
  "jm_get (lanes run_three) ''main'' = Some (snd (hd (lanes run_three)))"
  "map priority (queue (snd (hd (lanes run_three)))) = [1, 0]"
  unfolding run_three_def run_two_value plain_options_def by code_simp+

lemma queue_in_priority_order_witness:
  "priority (queue (snd (hd (lanes run_three))) ! 0) \<ge> priority (queue (snd (hd (lanes run_three))) ! 1)"
proof -
  have "queue_reachable run_three"
    unfolding run_three_def by (rule reachable_step[OF reachable_runs(2) step_enqueue])
  moreover have "length (queue (snd (hd (lanes run_three)))) = 2"
    using arg_cong[OF run_three_lane(1), of length] by simp
  ultimately show ?thesis
    using queue_in_priority_order[OF _ run_three_lane(2), of 0 1] by auto
qed

section \<open>Concurrency\<close>

definition active_len :: "queue_state \<Rightarrow> string \<Rightarrow> int" where
  "active_len st l =
     (case jm_get (lanes st) l of None \<Rightarrow> 0 | Some ls \<Rightarrow> int (length (activeTaskIds ls)))"

text \<open>No lane of \<open>s\<close> has more active tasks than it had in \<open>st\<close>, or than its own limit.\<close>

definition shrunk :: "queue_state \<Rightarrow> queue_state \<Rightarrow> bool" where
  "shrunk st s \<longleftrightarrow>
     (\<forall>l ls. jm_get (lanes s) l = Some ls \<longrightarrow> int (length (activeTaskIds ls)) \<le> active_len st l)"

definition limited :: "queue_state \<Rightarrow> queue_state \<Rightarrow> bool" where
  "limited st s \<longleftrightarrow>
     (\<forall>l ls. jm_get (lanes s) l = Some ls \<longrightarrow>
        int (length (activeTaskIds ls)) \<le> max (active_len st l) (maxConcurrent ls))"

lemma shrunk_refl [intro]: "shrunk st st"
  by (simp add: shrunk_def active_len_def)

lemma shrunk_limited [intro]: "shrunk st s \<Longrightarrow> limited st s"
  by (fastforce simp: shrunk_def limited_def)

lemma shrunk_lanes: "shrunk st s \<Longrightarrow> lanes s' = lanes s \<Longrightarrow> shrunk st s'"
  by (simp add: shrunk_def)

lemma limited_lanes: "limited st s \<Longrightarrow> lanes s' = lanes s \<Longrightarrow> limited st s'"
  by (simp add: limited_def)

lemma shrunk_put:
  "shrunk st s \<Longrightarrow> int (length (activeTaskIds ls)) \<le> active_len st (lane ls) \<Longrightarrow> shrunk st (put_lane ls s)"
  by (auto simp: shrunk_def store_simps)

lemma shrunk_getLaneState:
  assumes "core_inv D st" "getLaneState l st = (ls, st1)"
  shows "shrunk st st1" "int (length (activeTaskIds ls)) = active_len st l" "lane ls = l"
  using assms core_lane(1)[OF assms(1), of l]
  by (auto simp: getLaneState_def Let_def fresh_lane_def active_len_def
      intro!: shrunk_put shrunk_refl split: option.splits)

lemma free_slots_bound:
  "int (length (activeTaskIds ls) + free_slots ls) \<le> max (int (length (activeTaskIds ls))) (maxConcurrent ls)"
  by (auto simp: free_slots_def)

lemma limited_drainLane:
  assumes lim: "limited st s" and core: "core_inv D s"
    and idle: "\<And>ls. jm_get (lanes s) l = Some ls \<Longrightarrow> \<not> draining ls"
  shows "limited st (drainLane now l s)"
proof -
  obtain ls' where e:
    "\<And>k. jm_get (lanes (drainLane now l s)) k = (if k = l then Some ls' else jm_get (lanes s) k)"
    "\<And>ls0. jm_get (lanes s) l = Some ls0 \<Longrightarrow> maxConcurrent ls' = maxConcurrent ls0"
    "length (activeTaskIds ls') =
       (case jm_get (lanes s) l of None \<Rightarrow> 0 | Some ls0 \<Rightarrow> length (activeTaskIds ls0) + free_slots ls0)"
    by (rule drainLane_effect[OF core idle, of l now]) blast+
  have "int (length (activeTaskIds ls')) \<le> max (active_len st l) (maxConcurrent ls')"
  proof (cases "jm_get (lanes s) l")
    case None
    then show ?thesis using e(3) by (simp add: active_len_def le_max_iff_disj split: option.split)
  next
    case (Some ls0)
    have "int (length (activeTaskIds ls0)) \<le> max (active_len st l) (maxConcurrent ls0)"
      using lim Some by (simp add: limited_def)
    then show ?thesis using free_slots_bound[of ls0] e(2)[OF Some] e(3) Some by auto
  qed
  then show ?thesis using lim by (simp add: limited_def e(1))
qed

lemma limited_pump:
  assumes lim: "limited st s" and core: "core_inv D s" and get: "jm_get (lanes s) (lane ls) = Some ls"
  shows "limited st (pump now ls s)"
proof -
  obtain ls' where e: "lanes (pump now ls s) = jm_set (lane ls) ls' (lanes s)"
    "length (activeTaskIds ls') = length (activeTaskIds ls) + free_slots ls"
    "maxConcurrent ls' = maxConcurrent ls"
    by (rule pump_effect[OF core get refl, of now]) (rule that)
  have "int (length (activeTaskIds ls)) \<le> max (active_len st (lane ls)) (maxConcurrent ls)"
    using lim get by (simp add: limited_def)
  then have "int (length (activeTaskIds ls')) \<le> max (active_len st (lane ls)) (maxConcurrent ls')"
    using free_slots_bound[of ls] e(2,3) by auto
  then show ?thesis using lim by (auto simp: limited_def e(1) store_simps)
qed

lemma limited_enqueue:
  assumes inv: "queue_inv st"
  shows "limited st (snd (enqueueCommandInLane now l opts st))"
proof -
  note core = queue_invD(1)[OF inv]
  obtain ls st1 where g: "getLaneState (normalizeLane l) st = (ls, st1)" by force
  note c = core_getLaneState[OF core g] and h = shrunk_getLaneState[OF core g]
  let ?e = "new_entry now (nextQueueSequence st1) opts"
  let ?ls = "enqueueLaneEntry ls ?e"
  let ?s = "put_lane ?ls (st1\<lparr>nextQueueSequence := nextQueueSequence st1 + 1\<rparr>)"
  have "shrunk st ?s" using h by (intro shrunk_put shrunk_lanes[OF h(1)]) simp_all
  moreover have "core_inv {#} ?s" by (rule core_enqueue[OF c(1,2)]) (simp add: new_entry_def)
  moreover have "\<not> draining ls" using saturatedD[OF queue_inv_getLane[OF inv g] c(2)] by (simp add: saturated_def)
  then have "\<And>k. jm_get (lanes ?s) (normalizeLane l) = Some k \<Longrightarrow> \<not> draining k"
    by (auto simp: store_simps c(3))
  ultimately have "limited st (drainLane now (normalizeLane l) ?s)"
    by (intro limited_drainLane[of st ?s "{#}"]) auto
  then show ?thesis by (auto simp: enqueueCommandInLane_def g Let_def)
qed

lemma limited_concurrency:
  assumes inv: "queue_inv st"
  shows "limited st (setCommandLaneConcurrency now l n st)"
proof -
  note core = queue_invD(1)[OF inv]
  let ?l = "normalizeLane l"
  obtain ls st1 where g: "getLaneState ?l st = (ls, st1)" by force
  note c = core_getLaneState[OF core g] and h = shrunk_getLaneState[OF core g]
  define m where "m = max (if isProbeLane ?l then 1 else 0) \<lfloor>n\<rfloor>"
  let ?ls = "ls\<lparr>maxConcurrent := m\<rparr>"
  let ?s = "put_lane ?ls st1"
  have s: "shrunk st ?s" using h by (intro shrunk_put h(1)) simp_all
  have "0 \<le> m" by (simp add: m_def max_def)
  then have "core_inv {#} ?s"
    using core_lane(2)[OF c(1,2)] core_covers[OF c(1,2)] c(2,3)
    by (intro core_put[OF c(1)]) (auto simp: lane_core_def covers_def queued_at_def queued_of_def)
  moreover have "\<not> draining ls" using saturatedD[OF queue_inv_getLane[OF inv g] c(2)] by (simp add: saturated_def)
  then have "\<And>k. jm_get (lanes ?s) ?l = Some k \<Longrightarrow> \<not> draining k"
    by (auto simp: store_simps c(3))
  ultimately have "limited st (drainLane now ?l ?s)"
    using s by (intro limited_drainLane[of st ?s "{#}"]) auto
  then show ?thesis
    using s by (auto simp: setCommandLaneConcurrency_def g Let_def m_def[symmetric])
qed

lemma limited_finish:
  assumes inv: "queue_inv st"
  shows "limited st (finishTask now t out st)"
proof (cases "jm_get (running st) t")
  case None
  then show ?thesis by (auto simp: finishTask_idle)
next
  case (Some r)
  note core = queue_invD(1)[OF inv]
  let ?st = "st\<lparr>running := jm_del t (running st)\<rparr>"
  obtain ls where ls: "jm_get (lanes st) (runLane r) = Some ls" "lane ls = runLane r"
    by (rule core_running_lane[OF core Some])
  show ?thesis
  proof (cases "runGeneration r = generation ls")
    case False
    then have "lanes (finishTask now t out st) = lanes st"
      using Some ls put_lane_same[of ?st ls]
      by (simp add: finishTask_def getLaneState_existing completeTask_def)
    then show ?thesis by (auto intro: limited_lanes)
  next
    case True
    let ?ls = "ls\<lparr>activeTaskIds := removeAll t (activeTaskIds ls)\<rparr>"
    let ?s = "notifyActiveTaskWaiters (put_lane ?ls ?st)"
    have "completeTask ls t (runGeneration r) = (True, ?ls)" using True by (simp add: completeTask_def)
    then have c: "core_inv {#sequence (runEntry r)#} ?s" using core_complete[OF core Some ls(1)] by simp
    have "shrunk st (put_lane ?ls ?st)"
      using ls by (intro shrunk_put shrunk_lanes[OF shrunk_refl]) (simp_all add: active_len_def)
    then have "limited st (pump now ?ls ?s)"
      by (intro limited_pump[OF _ c]) (auto intro: limited_lanes simp: store_simps)
    then have "limited st (settle (sequence (runEntry r)) out (pump now ?ls ?s))"
      by (rule limited_lanes) simp
    then show ?thesis
      using Some ls True by (simp add: finishTask_def getLaneState_existing completeTask_def Let_def)
  qed
qed

lemma limited_clear:
  assumes inv: "queue_inv st"
  shows "limited st (snd (clearCommandLane l st))"
proof (cases "jm_get (lanes st) (normalizeLane l)")
  case None
  then show ?thesis by (auto simp: clearCommandLane_def Let_def)
next
  case (Some ls)
  have "shrunk st (put_lane (ls\<lparr>queue := []\<rparr>) st)"
    using Some core_lane(1)[OF queue_invD(1)[OF inv] Some]
    by (intro shrunk_put shrunk_refl) (simp add: active_len_def)
  then have "limited st (put_lane (ls\<lparr>queue := []\<rparr>) st)" by (rule shrunk_limited)
  then show ?thesis
    by (rule limited_lanes) (simp add: clearCommandLane_def Let_def Some settle_all_fields)
qed

lemma limited_reset:
  assumes inv: "queue_inv st"
  shows "limited st (snd (resetCommandLane now l st))"
proof (cases "jm_get (lanes st) (normalizeLane l)")
  case None
  then show ?thesis by (auto simp: resetCommandLane_def Let_def)
next
  case (Some ls)
  note core = queue_invD(1)[OF inv]
  let ?s = "put_lane (reset_lane ls) st"
  have l: "lane ls = normalizeLane l" by (rule core_lane(1)[OF core Some])
  have s: "shrunk st ?s" by (intro shrunk_put shrunk_refl) (simp add: active_len_def split: option.split)
  have "limited st (drainLane now (normalizeLane l) ?s)"
    by (rule limited_drainLane[OF shrunk_limited[OF s] core_reset_one[OF core Some]])
      (auto simp: store_simps l)
  then have "limited st (if queue ls \<noteq> [] then drainLane now (normalizeLane l) ?s else ?s)"
    using shrunk_limited[OF s] by simp
  then show ?thesis
    by (rule limited_lanes) (simp add: resetCommandLane_def Let_def Some)
qed

lemma limited_drain_all:
  assumes "limited st s" "core_inv {#} s"
    and "\<And>k ks. jm_get (lanes s) k = Some ks \<Longrightarrow> \<not> draining ks"
  shows "limited st (fold (drainLane now) ls s)"
  using assms
proof (induction ls arbitrary: s)
  case (Cons l ls)
  obtain ls' where e: "saturated ls'"
    "\<And>k. jm_get (lanes (drainLane now l s)) k = (if k = l then Some ls' else jm_get (lanes s) k)"
    by (rule drainLane_effect[OF Cons.prems(2), of l now]) (use Cons.prems(3) in auto)
  have "limited st (fold (drainLane now) ls (drainLane now l s))"
    using Cons.prems e
    by (intro Cons.IH limited_drainLane core_drainLane) (auto simp: saturated_def split: if_splits)
  then show ?case by simp
qed simp

lemma limited_reset_all:
  assumes inv: "queue_inv st"
  shows "limited st (resetAllLanes now st)"
proof -
  have get: "jm_get (lanes (reset_every st)) k = map_option reset_lane (jm_get (lanes st) k)" for k
    by (simp add: reset_every_def jm_get_map)
  have c: "core_inv {#} (reset_every st)" by (rule core_reset_every[OF queue_invD(1)[OF inv]])
  have "shrunk st (reset_every st)" by (auto simp: shrunk_def get active_len_def)
  then have "limited st (fold (drainLane now) ls (reset_every st))" for ls
    by (intro limited_drain_all shrunk_limited c) (auto simp: get)
  then show ?thesis
    unfolding resetAllLanes_eq by (rule limited_lanes) simp
qed



section \<open>Clearing and resetting\<close>

lemma settle_all_eq:
  "fold (\<lambda>e s. settle (sequence e) x s) q s = s\<lparr>settled := settled s @ map (\<lambda>e. (sequence e, x)) q\<rparr>"
  by (induction q arbitrary: s) (simp_all add: settle_def)

text \<open>
  clearing a lane rejects every queued command of that lane, in queue order and with the
  error that names the lane; running tasks, other lanes and other promises are untouched.
\<close>

theorem clear_rejects_queued:
  assumes "queue_reachable st" and "jm_get (lanes st) (normalizeLane l) = Some ls"
  shows "clearCommandLane l st =
           (length (queue ls),
            st\<lparr>lanes := jm_set (normalizeLane l) (ls\<lparr>queue := []\<rparr>) (lanes st),
               settled := settled st @
                 map (\<lambda>e. (sequence e, Rejected (CommandLaneClearedError (normalizeLane l)))) (queue ls)\<rparr>)"
  using core_lane(1)[OF queue_invD(1)[OF reachable_queue_inv[OF assms(1)]] assms(2)] assms(2)
  by (simp add: clearCommandLane_def Let_def settle_all_eq put_lane_def)

lemma clear_rejects_queued_witness:
  "settled (snd (clearCommandLane '' main '' run_two)) = [(2, Rejected (CommandLaneClearedError ''main''))]"
proof -
  have n: "normalizeLane '' main '' = ''main''" by code_simp
  show ?thesis
    using clear_rejects_queued[OF reachable_runs(2), of "'' main ''" "snd (hd (lanes run_two))"]
    by (simp add: run_two_value n)
qed

lemma drainLane_idle:
  "jm_get (lanes st) l = Some ls \<Longrightarrow> \<not> draining ls \<Longrightarrow> drainLane now l st = pump now (ls\<lparr>draining := True\<rparr>) st"
  by (simp add: drainLane_def getLaneState_existing)

text \<open>
  resetting a lane opens a new generation with no active task and at once starts queued
  entries up to the limit, in order; it loses no queued entry and settles no promise, so the
  tasks of the old generation still answer their callers.
\<close>

theorem reset_restarts_lane:
  assumes "queue_reachable st" and "jm_get (lanes st) (normalizeLane l) = Some ls"
  shows "\<exists>ls' st'. (let n = min (length (queue ls)) (nat (maxConcurrent ls)) in
     resetCommandLane now l st = (length (activeTaskIds ls), st') \<and>
     lanes st' = jm_set (normalizeLane l) ls' (lanes st) \<and>
     generation ls' = generation ls + 1 \<and> \<not> draining ls' \<and>
     queue ls' = drop n (queue ls) \<and> length (activeTaskIds ls') = n \<and>
     map (runEntry \<circ> snd) (running st') = map (runEntry \<circ> snd) (running st) @ take n (queue ls) \<and>
     settled st' = settled st)"
proof -
  note core = queue_invD(1)[OF reachable_queue_inv[OF assms(1)]]
  let ?n = "min (length (queue ls)) (nat (maxConcurrent ls))"
  let ?s = "put_lane (reset_lane ls) st"
  have l: "lane ls = normalizeLane l" by (rule core_lane(1)[OF core assms(2)])
  show ?thesis
  proof (cases "queue ls = []")
    case True
    then show ?thesis
      using assms(2) l by (intro exI[of _ "reset_lane ls"]) (simp add: resetCommandLane_def Let_def)
  next
    case False
    let ?d = "(reset_lane ls)\<lparr>draining := True\<rparr>"
    have c: "core_inv {#} ?s" by (rule core_reset_one[OF core assms(2)])
    have get: "jm_get (lanes ?s) (lane ?d) = Some (reset_lane ls)" by (simp add: store_simps)
    have d: "drainLane now (normalizeLane l) ?s = pump now ?d ?s"
      using get l by (intro drainLane_idle) simp_all
    obtain ls' where e: "lanes (pump now ?d ?s) = jm_set (lane ?d) ls' (lanes ?s)" "saturated ls'"
      "queue ls' = drop (free_slots ?d) (queue ?d)"
      "length (activeTaskIds ls') = length (activeTaskIds ?d) + free_slots ?d"
      "generation ls' = generation ?d"
      "map (runEntry \<circ> snd) (running (pump now ?d ?s)) =
         map (runEntry \<circ> snd) (running ?s) @ take (free_slots ?d) (queue ?d)"
      "settled (pump now ?d ?s) = settled ?s"
      by (rule pump_effect[OF c get, of now]) (simp, rule that)
    have n: "free_slots ?d = ?n" by (simp add: free_slots_def)
    show ?thesis
      using assms(2) l e False n d
      by (intro exI[of _ ls'])
        (simp add: resetCommandLane_def Let_def saturated_def update_last)
  qed
qed

lemma reset_restarts_lane_witness:
  "settled (snd (resetCommandLane 7 ''main'' run_two)) = []"
proof -
  have "jm_get (lanes run_two) (normalizeLane ''main'') = Some (snd (hd (lanes run_two)))"
    unfolding run_two_value by code_simp
  from reset_restarts_lane[OF reachable_runs(2) this, of 7]
  show ?thesis unfolding Let_def by (auto simp: run_two_value)
qed

section \<open>Timers, tickets and counts\<close>

text \<open>
  the task timer ends the task exactly when no progress was seen for the whole timeout,
  and otherwise it is armed again for a delay that is positive, no longer than the timeout,
  and ends when the timeout of the last progress ends.
\<close>

theorem armTimeout_exact:
  assumes "0 < timeoutMs" and "startedAtMs \<le> now"
  shows "case armTimeout timeoutMs startedAtMs progress now of
           None \<Rightarrow> now - readLastProgressAtMs startedAtMs progress \<ge> timeoutMs
         | Some d \<Rightarrow> 0 < d \<and> d \<le> timeoutMs \<and> now - readLastProgressAtMs startedAtMs progress < timeoutMs \<and>
             (readLastProgressAtMs startedAtMs progress \<le> now \<longrightarrow>
                now + d = readLastProgressAtMs startedAtMs progress + timeoutMs)"
  using assms by (auto simp: armTimeout_def Let_def max_def)

lemma armTimeout_exact_witness: "armTimeout 50 10 (Some (Fin 30)) 60 = Some 20"
  using armTimeout_exact[of 50 10 60 "Some (Fin 30)"] by (simp split: option.splits)

text \<open>
  the repair that runs on every access to the shared state is the identity on a reachable
  state: the sequence counter is already above every ticket in a queue.
\<close>

theorem getQueueState_stable:
  assumes "queue_reachable st"
  shows "getQueueState_sequence st = st"
proof -
  note core = queue_invD(1)[OF reachable_queue_inv[OF assms]]
  have pos: "1 \<le> nextQueueSequence st" using core_wf(3)[OF core] by (simp add: tickets_core_def)
  have below: "x < nextQueueSequence st"
    if "x \<in> set (concat (map (\<lambda>p. map sequence (queue (snd p))) (lanes st)))" for x
  proof -
    from that obtain k ls e where "(k, ls) \<in> set (lanes st)" "e \<in> set (queue ls)" "x = sequence e" by auto
    then show ?thesis using core_queue_below[OF core] jm_wf_get[OF core_wf(1)[OF core]] by blast
  qed
  have fold_max: "fold max xs a < b" if "(a::nat) < b" "\<forall>x \<in> set xs. x < b" for xs a b
    using that by (induction xs arbitrary: a) auto
  have "fold max (concat (map (\<lambda>p. map sequence (queue (snd p))) (lanes st))) (nextQueueSequence st - 1)
      < nextQueueSequence st"
    using pos below by (intro fold_max) auto
  then show ?thesis using pos by (simp add: getQueueState_sequence_def Let_def)
qed

lemma getQueueState_stable_witness: "getQueueState_sequence run_two = run_two"
  by (rule getQueueState_stable[OF reachable_runs(2)])

section \<open>Restart of the gateway\<close>

lemma drain_all_effect:
  assumes "core_inv {#} s" and "distinct ds"
    and "\<And>k ks. jm_get (lanes s) k = Some ks \<Longrightarrow> \<not> draining ks"
  shows "settled (fold (drainLane now) ds s) = settled s \<and>
         gatewayDraining (fold (drainLane now) ds s) = gatewayDraining s \<and>
         (\<forall>k ks. jm_get (lanes s) k = Some ks \<longrightarrow>
            (\<exists>ks'. jm_get (lanes (fold (drainLane now) ds s)) k = Some ks' \<and>
               generation ks' = generation ks \<and> maxConcurrent ks' = maxConcurrent ks \<and>
               queue ks' = (if k \<in> set ds then drop (free_slots ks) (queue ks) else queue ks)))"
  using assms
proof (induction ds arbitrary: s)
  case (Cons l ds)
  obtain ls' where e: "saturated ls'"
    "\<And>k. jm_get (lanes (drainLane now l s)) k = (if k = l then Some ls' else jm_get (lanes s) k)"
    "\<And>ls0. jm_get (lanes s) l = Some ls0 \<Longrightarrow> maxConcurrent ls' = maxConcurrent ls0 \<and>
       generation ls' = generation ls0 \<and> queue ls' = drop (free_slots ls0) (queue ls0)"
    "settled (drainLane now l s) = settled s" "gatewayDraining (drainLane now l s) = gatewayDraining s"
    by (rule drainLane_effect[OF Cons.prems(1), of l now]) (use Cons.prems(3) in blast)+
  have IH: "settled (fold (drainLane now) ds (drainLane now l s)) = settled (drainLane now l s) \<and>
      gatewayDraining (fold (drainLane now) ds (drainLane now l s)) = gatewayDraining (drainLane now l s) \<and>
      (\<forall>k ks. jm_get (lanes (drainLane now l s)) k = Some ks \<longrightarrow>
            (\<exists>ks'. jm_get (lanes (fold (drainLane now) ds (drainLane now l s))) k = Some ks' \<and>
               generation ks' = generation ks \<and> maxConcurrent ks' = maxConcurrent ks \<and>
               queue ks' = (if k \<in> set ds then drop (free_slots ks) (queue ks) else queue ks)))"
    using Cons.prems e(1,2)
    by (intro Cons.IH core_drainLane) (auto simp: saturated_def split: if_splits)
  note IH3 = IH[THEN conjunct2, THEN conjunct2, rule_format]
  have lanes: "\<exists>ks'. jm_get (lanes (fold (drainLane now) (l # ds) s)) k = Some ks' \<and>
        generation ks' = generation ks \<and> maxConcurrent ks' = maxConcurrent ks \<and>
        queue ks' = (if k \<in> set (l # ds) then drop (free_slots ks) (queue ks) else queue ks)"
    if k: "jm_get (lanes s) k = Some ks" for k ks
  proof (cases "k = l")
    case True
    then have "l \<notin> set ds" using Cons.prems(2) by simp
    then show ?thesis using IH3[of l ls'] e(2)[of l] e(3)[of ks] k True by auto
  next
    case False
    then show ?thesis using IH3[of k ks] e(2)[of k] k by auto
  qed
  show ?case
    using IH e(4,5) lanes by (auto simp del: fold_simps simp add: fold_simps(2))
qed simp

text \<open>
  the restart of the gateway accepts work again and gives every lane a new generation;
  queued entries survive it: each lane starts the head of its queue up to its limit and keeps
  the rest in order, and no promise is settled.
\<close>

theorem resetAllLanes_preserves_queued:
  assumes "queue_reachable st" and "jm_get (lanes st) l = Some ls"
  shows "\<not> gatewayDraining (resetAllLanes now st) \<and> settled (resetAllLanes now st) = settled st \<and>
         (\<exists>ls'. jm_get (lanes (resetAllLanes now st)) l = Some ls' \<and>
            generation ls' = generation ls + 1 \<and> maxConcurrent ls' = maxConcurrent ls \<and>
            queue ls' = drop (nat (maxConcurrent ls)) (queue ls))"
proof -
  note core = queue_invD(1)[OF reachable_queue_inv[OF assms(1)]]
  let ?s = "reset_every st"
  let ?live = "filter (\<lambda>p. queue (snd p) \<noteq> []) (lanes ?s)"
  let ?ds = "map (\<lambda>p. lane (snd p)) ?live"
  have c: "core_inv {#} ?s" by (rule core_reset_every[OF core])
  have get: "jm_get (lanes ?s) k = map_option reset_lane (jm_get (lanes st) k)" for k
    by (simp add: reset_every_def jm_get_map)
  have names: "lane (snd p) = fst p" if "p \<in> set (lanes ?s)" for p
    using that core_lane(1)[OF c] jm_wf_get[OF core_wf(1)[OF c], of "fst p" "snd p"] by simp
  then have ds: "?ds = map fst ?live" by simp
  have "distinct (map fst ?live)"
    using jm_wf_filter[OF core_wf(1)[OF c]] unfolding jm_wf_def by blast
  then have "distinct ?ds" unfolding ds .
  then have all: "settled (fold (drainLane now) ?ds ?s) = settled ?s \<and>
         gatewayDraining (fold (drainLane now) ?ds ?s) = gatewayDraining ?s \<and>
         (\<forall>k ks. jm_get (lanes ?s) k = Some ks \<longrightarrow>
            (\<exists>ks'. jm_get (lanes (fold (drainLane now) ?ds ?s)) k = Some ks' \<and>
               generation ks' = generation ks \<and> maxConcurrent ks' = maxConcurrent ks \<and>
               queue ks' = (if k \<in> set ?ds then drop (free_slots ks) (queue ks) else queue ks)))"
    by (rule drain_all_effect[OF c]) (auto simp: get)
  have l: "jm_get (lanes ?s) l = Some (reset_lane ls)" using assms(2) by (simp add: get)
  then have "(l, reset_lane ls) \<in> set (lanes ?s)" by (rule jm_get_in)
  then have mem: "l \<in> set ?ds" if "queue ls \<noteq> []"
    using that unfolding ds by (auto intro!: rev_image_eqI)
  obtain ks' where ks': "jm_get (lanes (fold (drainLane now) ?ds ?s)) l = Some ks'"
    "generation ks' = generation ls + 1" "maxConcurrent ks' = maxConcurrent ls"
    "queue ks' = (if l \<in> set ?ds then drop (free_slots (reset_lane ls)) (queue ls) else queue ls)"
    using all[THEN conjunct2, THEN conjunct2, rule_format, OF l] by auto
  have "drop (free_slots (reset_lane ls)) (queue ls) = drop (nat (maxConcurrent ls)) (queue ls)"
    by (simp add: free_slots_def min_def)
  then have q: "queue ks' = drop (nat (maxConcurrent ls)) (queue ls)"
    using ks'(4) mem by (cases "queue ls = []") auto
  have f: "settled ?s = settled st" "\<not> gatewayDraining ?s" by (simp_all add: reset_every_def)
  have "settled (resetAllLanes now st) = settled st" "\<not> gatewayDraining (resetAllLanes now st)"
    "jm_get (lanes (resetAllLanes now st)) l = Some ks'"
    using all[THEN conjunct1] all[THEN conjunct2, THEN conjunct1] ks'(1) f
    by (simp_all only: resetAllLanes_eq notify_fields not_False_eq_True)
  then show ?thesis using ks'(2,3) q by blast
qed

lemma resetAllLanes_preserves_queued_witness:
  "settled (resetAllLanes 9 run_two) = []"
  using resetAllLanes_preserves_queued[OF reachable_runs(2), of "''main''" "snd (hd (lanes run_two))" 9]
  by (simp add: run_two_value)

end
