(* ===== verification/Ingress_Types.thy ===== *)
theory Ingress_Types
  imports Contracts
begin

text \<open>
  \<open>src/channels/message-access/types.ts\<close> and the types of \<open>src/channels/mention-gating.ts\<close> and
  \<open>src/channels/command-gating.ts\<close>: the data of the access control of inbound channel messages.

  A type of string literals is a \<open>datatype\<close> with one constructor per literal, a record type a
  \<open>record\<close>. An optional field is an \<open>option\<close>; an optional boolean that the code only tests for
  truth is a \<open>bool\<close> (absent is false). Identifiers and names are strings.
\<close>

section \<open>Identities and allowlist entries\<close>

datatype identifier_kind =
  KStableId | KUsername | KEmail | KPhone | KRole | KPlugin string

datatype sensitivity = SensNormal | SensPii

record match_material =
  mmOpaqueId :: string
  mmKind :: identifier_kind
  mmValue :: string
  mmDangerous :: bool
  mmSensitivity :: "sensitivity option"

type_synonym ingress_subject = "match_material list"

record normalized_entry =
  opaqueEntryId :: string
  entryKind :: identifier_kind
  dangerous :: bool
  sensitivity :: "sensitivity option"

record internal_entry = normalized_entry +
  entryValue :: string

datatype reason_code =
    R_allowed
  | R_route_blocked
  | R_route_sender_empty
  | R_dm_policy_disabled
  | R_dm_policy_open
  | R_dm_policy_allowlisted
  | R_dm_policy_pairing_required
  | R_dm_policy_not_allowlisted
  | R_group_policy_disabled
  | R_group_policy_open
  | R_group_policy_allowed
  | R_group_policy_empty_allowlist
  | R_group_policy_not_allowlisted
  | R_command_authorized
  | R_control_command_unauthorized
  | R_event_authorized
  | R_event_unauthorized
  | R_event_pairing_not_allowed
  | R_sender_not_required
  | R_origin_subject_missing
  | R_origin_subject_not_matched
  | R_activation_allowed
  | R_activation_skipped
  | R_access_group_missing
  | R_access_group_unsupported
  | R_access_group_failed
  | R_mutable_identifier_disabled
  | R_no_policy_match

record entry_diagnostic =
  diagEntryId :: "string option"
  diagReason :: reason_code

record ingress_match =
  matched :: bool
  matchIds :: "string list"

record normalize_result =
  matchable :: "internal_entry list"
  invalid :: "entry_diagnostic list"
  disabled :: "entry_diagnostic list"

datatype match_context = CtxDm | CtxGroup | CtxRoute | CtxCommand

text \<open>
  The channel-specific adapter is an interface of callbacks; the model takes it as two
  functions. The asynchronous variants resolve to the same values.
\<close>

record adapter =
  normalizeEntries :: "string list \<Rightarrow> match_context \<Rightarrow> string \<Rightarrow> normalize_result"
  matchSubject :: "ingress_subject \<Rightarrow> internal_entry list \<Rightarrow> match_context \<Rightarrow> ingress_match"

section \<open>Access groups and resolved allowlists\<close>

datatype membership_kind = MMatched "string list" | MNotMatched | MMissing | MUnsupported | MFailed

record membership_fact =
  factGroup :: string
  factKind :: membership_kind

record access_groups =
  agReferenced :: "string list"
  agMatched :: "string list"
  agMissing :: "string list"
  agUnsupported :: "string list"
  agFailed :: "string list"

record allowlist =
  rawEntryCount :: nat
  normalizedEntries :: "normalized_entry list"
  invalidEntries :: "entry_diagnostic list"
  disabledEntries :: "entry_diagnostic list"
  matchedEntryIds :: "string list"
  hasConfiguredEntries :: bool
  hasMatchableEntries :: bool
  hasWildcard :: bool
  accessGroups :: access_groups
  match :: ingress_match

record allowlist_facts =
  alConfigured :: bool
  alMatched :: bool
  alReason :: reason_code
  alMatchedEntryIds :: "string list"
  alInvalidCount :: nat
  alDisabledCount :: nat
  alAccessGroups :: access_groups

section \<open>Routes\<close>

datatype route_gate_state = RgNotConfigured | RgMatched | RgNotMatched | RgDisabled | RgLookupFailed

datatype route_sender_policy = RspInherit | RspReplace | RspDenyWhenEmpty

datatype route_sender_source = EffectiveDm | EffectiveGroup

datatype gate_kind =
    GRoute | GRouteSender | GDmSender | GGroupSender | GMembership | GOwnerAllowlist
  | GNestedAllowlist | GCommand | GEvent | GMention

datatype gate_effect = EAllow | EBlockDispatch | EBlockCommand | ESkip | EObserve | EIgnore

text \<open>The effect of a route is one of \<open>EAllow\<close>, \<open>EBlockDispatch\<close> and \<open>EIgnore\<close>.\<close>

record route_base =
  routeId :: string
  routeKind :: gate_kind
  routeGate :: route_gate_state
  routeEffect :: gate_effect
  routePrecedence :: int
  routeSenderPolicy :: route_sender_policy
  routeMatch :: "ingress_match option"

record route_facts = route_base +
  routeSenderAllowFrom :: "string list option"
  routeSenderSource :: "route_sender_source option"

record resolved_route = route_base +
  senderAllowlist :: "allowlist option"

section \<open>Events, mentions and policies\<close>

datatype event_kind =
  EvMessage | EvReaction | EvButton | EvPostback | EvNativeCommand | EvSlashCommand | EvSystem

datatype auth_mode = AmInbound | AmCommand | AmOriginSubject | AmRouteOnly | AmNone

record ingress_event =
  evKind :: event_kind
  authMode :: auth_mode
  mayPair :: bool
  hasOriginSubject :: bool
  originSubjectMatched :: bool

datatype implicit_mention_kind = ReplyToBot | QuotedBot | BotThreadParticipant | NativeMention

record mention_facts =
  canDetectMention :: bool
  wasMentioned :: bool
  hasAnyMention :: "bool option"
  implicitMentionKinds :: "implicit_mention_kind list option"

record mention_policy =
  mpIsGroup :: bool
  mpRequireMention :: bool
  mpAllowedKinds :: "implicit_mention_kind list option"
  mpAllowTextCommands :: bool
  mpHasControlCommand :: bool
  mpCommandAuthorized :: bool

record mention_decision =
  implicitMention :: bool
  matchedImplicitMentionKinds :: "implicit_mention_kind list"
  effectiveWasMentioned :: bool
  shouldBypassMention :: bool
  shouldSkip :: bool

record command_authorizer =
  caConfigured :: bool
  caAllowed :: bool

datatype access_groups_off_mode = OffAllow | OffDeny | OffConfigured

datatype dm_policy = DmPairing | DmAllowlist | DmOpen | DmDisabled

datatype group_policy = GroupAllowlist | GroupOpen | GroupDisabled

datatype activation_order = BeforeSender | AfterCommand

record activation_policy =
  acRequireMention :: bool
  acAllowTextCommands :: bool
  acAllowedKinds :: "implicit_mention_kind list option"
  acOrder :: "activation_order option"

record command_policy =
  cmUseAccessGroups :: "bool option"
  cmAllowTextCommands :: bool
  cmHasControlCommand :: bool
  cmModeOff :: "access_groups_off_mode option"

record ingress_policy =
  dmPolicy :: dm_policy
  groupPolicy :: group_policy
  groupAllowFromFallback :: bool
  mutableIdentifierEnabled :: bool
  activation :: "activation_policy option"
  command :: "command_policy option"

section \<open>The access graph\<close>

datatype gate_phase = PhRoute | PhSender | PhCommand | PhEvent | PhActivation

record command_facts =
  cfUseAccessGroups :: bool
  cfAllowTextCommands :: bool
  cfModeOff :: "access_groups_off_mode option"
  cfShouldBlock :: bool

record activation_facts =
  afHasMentionFacts :: bool
  afRequireMention :: bool
  afAllowTextCommands :: bool
  afAllowedKinds :: "implicit_mention_kind list option"
  afOrder :: "activation_order option"
  afShouldSkip :: bool
  afCanDetect :: "bool option"
  afWasMentioned :: "bool option"
  afHasAnyMention :: "bool option"
  afImplicitKinds :: "implicit_mention_kind list option"
  afEffectiveWasMentioned :: "bool option"
  afShouldBypass :: "bool option"

record gate =
  gateId :: string
  phase :: gate_phase
  gateKind :: gate_kind
  effect :: gate_effect
  allowed :: bool
  reasonCode :: reason_code
  gateMatch :: "ingress_match option"
  gateAllowlist :: "allowlist_facts option"
  gateSender :: "(dm_policy + group_policy) option"
  gateCommand :: "command_facts option"
  gateEvent :: "ingress_event option"
  gateActivation :: "activation_facts option"

datatype conversation_kind = ConvDirect | ConvGroup | ConvChannel

record allowlists =
  alDm :: allowlist
  alPairingStore :: allowlist
  alGroup :: allowlist
  alCommandOwner :: allowlist
  alCommandGroup :: allowlist

record ingress_state =
  channelId :: string
  accountId :: string
  conversationKind :: conversation_kind
  event :: ingress_event
  mentionFacts :: "mention_facts option"
  routeFacts :: "resolved_route list"
  allowlists :: allowlists

datatype admission = Dispatch | Observe | Skip | Drop | PairingRequired

datatype decision = Allow | Block | Pairing

record ingress_decision =
  admission :: admission
  decision :: decision
  decisiveGateId :: string
  decisionReason :: reason_code
  graph :: "gate list"

end
