(* ===== verification/Ingress_Access.thy ===== *)
theory Ingress_Access
  imports Ingress_Types
begin

text \<open>
  The gates that decide whether an inbound channel event reaches the agent:
  \<open>src/channels/mention-gating.ts\<close>, \<open>src/channels/command-gating.ts\<close> and, under
  \<open>src/channels/message-access/\<close>, \<open>allowlist.ts\<close>, \<open>sender-gates.ts\<close> and \<open>decision.ts\<close>. Every
  function is total and pure; the definitions have the names of the source.
\<close>

section \<open>Mentions\<close>

definition implicitMentionKindWhen :: "implicit_mention_kind \<Rightarrow> bool \<Rightarrow> implicit_mention_kind list" where
  "implicitMentionKindWhen kind enabled = (if enabled then [kind] else [])"

fun matched_kinds ::
  "implicit_mention_kind list option \<Rightarrow> implicit_mention_kind list \<Rightarrow> implicit_mention_kind list \<Rightarrow>
   implicit_mention_kind list" where
  "matched_kinds allowedKinds [] acc = acc"
| "matched_kinds allowedKinds (kind # kinds) acc =
     (if (case allowedKinds of None \<Rightarrow> False | Some ks \<Rightarrow> \<not> List.member ks kind)
      then matched_kinds allowedKinds kinds acc
      else if List.member acc kind then matched_kinds allowedKinds kinds acc
      else matched_kinds allowedKinds kinds (acc @ [kind]))"

definition resolveMatchedImplicitMentionKinds ::
  "implicit_mention_kind list option \<Rightarrow> implicit_mention_kind list option \<Rightarrow> implicit_mention_kind list"
where
  "resolveMatchedImplicitMentionKinds kinds allowedKinds =
     (let inputKinds = js_nullish kinds []
      in if inputKinds = [] then [] else matched_kinds allowedKinds inputKinds [])"

definition resolveMentionDecisionCore ::
  "bool \<Rightarrow> bool \<Rightarrow> bool \<Rightarrow> implicit_mention_kind list option \<Rightarrow> implicit_mention_kind list option \<Rightarrow>
   bool \<Rightarrow> mention_decision" where
  "resolveMentionDecisionCore requireMention canDetect mentioned kinds allowedKinds bypass =
     (let matchedKinds = resolveMatchedImplicitMentionKinds kinds allowedKinds;
          implicit = matchedKinds \<noteq> [];
          effective = (mentioned \<or> implicit \<or> bypass)
      in \<lparr>implicitMention = implicit, matchedImplicitMentionKinds = matchedKinds,
          effectiveWasMentioned = effective, shouldBypassMention = bypass,
          shouldSkip = requireMention \<and> canDetect \<and> \<not> effective\<rparr>)"

definition resolveInboundMentionDecision :: "mention_facts \<Rightarrow> mention_policy \<Rightarrow> mention_decision" where
  "resolveInboundMentionDecision facts policy =
     (let bypass = mpIsGroup policy \<and> mpRequireMention policy \<and> \<not> wasMentioned facts \<and>
                   \<not> js_nullish (hasAnyMention facts) False \<and> mpAllowTextCommands policy \<and>
                   mpCommandAuthorized policy \<and> mpHasControlCommand policy
      in resolveMentionDecisionCore (mpRequireMention policy) (canDetectMention facts)
           (wasMentioned facts) (implicitMentionKinds facts) (mpAllowedKinds policy) bypass)"

text \<open>The deprecated entry points; an absent boolean is false.\<close>

definition resolveMentionGating :: "bool \<Rightarrow> bool \<Rightarrow> bool \<Rightarrow> bool \<Rightarrow> bool \<Rightarrow> bool \<times> bool" where
  "resolveMentionGating requireMention canDetect mentioned implicit bypass =
     (let result = resolveMentionDecisionCore requireMention canDetect mentioned
                     (Some (implicitMentionKindWhen NativeMention implicit)) None bypass
      in (effectiveWasMentioned result, shouldSkip result))"

definition resolveMentionGatingWithBypass ::
  "bool \<Rightarrow> bool \<Rightarrow> bool \<Rightarrow> bool \<Rightarrow> bool \<Rightarrow> bool option \<Rightarrow> bool \<Rightarrow> bool \<Rightarrow> bool \<Rightarrow> bool \<times> bool \<times> bool"
where
  "resolveMentionGatingWithBypass isGroup requireMention canDetect mentioned implicit anyMention
     allowText hasControl authorized =
     (let result = resolveInboundMentionDecision
            \<lparr>canDetectMention = canDetect, wasMentioned = mentioned, hasAnyMention = anyMention,
             implicitMentionKinds = Some (implicitMentionKindWhen NativeMention implicit)\<rparr>
            \<lparr>mpIsGroup = isGroup, mpRequireMention = requireMention, mpAllowedKinds = None,
             mpAllowTextCommands = allowText, mpHasControlCommand = hasControl,
             mpCommandAuthorized = authorized\<rparr>
      in (effectiveWasMentioned result, shouldSkip result, shouldBypassMention result))"

section \<open>Commands\<close>

definition resolveCommandAuthorizedFromAuthorizers ::
  "bool \<Rightarrow> command_authorizer list \<Rightarrow> access_groups_off_mode option \<Rightarrow> bool" where
  "resolveCommandAuthorizedFromAuthorizers useAccessGroups authorizers modeOff =
     (let mode = js_nullish modeOff OffAllow;
          anyAllowed = list_ex (\<lambda>a. caConfigured a \<and> caAllowed a) authorizers
      in if \<not> useAccessGroups then
           (if mode = OffAllow then True
            else if mode = OffDeny then False
            else if \<not> list_ex caConfigured authorizers then True
            else anyAllowed)
         else anyAllowed)"

definition resolveControlCommandGate ::
  "bool \<Rightarrow> command_authorizer list \<Rightarrow> bool \<Rightarrow> bool \<Rightarrow> access_groups_off_mode option \<Rightarrow> bool \<times> bool" where
  "resolveControlCommandGate useAccessGroups authorizers allowText hasControl modeOff =
     (let authorized = resolveCommandAuthorizedFromAuthorizers useAccessGroups authorizers modeOff
      in (authorized, allowText \<and> hasControl \<and> \<not> authorized))"

definition resolveDualTextControlCommandGate ::
  "bool \<Rightarrow> bool \<Rightarrow> bool \<Rightarrow> bool \<Rightarrow> bool \<Rightarrow> bool \<Rightarrow> access_groups_off_mode option \<Rightarrow> bool \<times> bool" where
  "resolveDualTextControlCommandGate useAccessGroups primaryConfigured primaryAllowed
     secondaryConfigured secondaryAllowed hasControl modeOff =
     resolveControlCommandGate useAccessGroups
       [\<lparr>caConfigured = primaryConfigured, caAllowed = primaryAllowed\<rparr>,
        \<lparr>caConfigured = secondaryConfigured, caAllowed = secondaryAllowed\<rparr>]
       True hasControl modeOff"

section \<open>Allowlists\<close>

definition allowlistFailureReason :: "allowlist \<Rightarrow> reason_code option" where
  "allowlistFailureReason al =
     (if agFailed (accessGroups al) \<noteq> [] then Some R_access_group_failed
      else if agUnsupported (accessGroups al) \<noteq> [] then Some R_access_group_unsupported
      else if agMissing (accessGroups al) \<noteq> [] then Some R_access_group_missing
      else None)"

definition redactedAllowlistDiagnostics :: "allowlist \<Rightarrow> reason_code \<Rightarrow> allowlist_facts" where
  "redactedAllowlistDiagnostics al reason =
     \<lparr>alConfigured = hasConfiguredEntries al, alMatched = matched (match al), alReason = reason,
      alMatchedEntryIds = matchedEntryIds al, alInvalidCount = length (invalidEntries al),
      alDisabledCount = length (disabledEntries al), alAccessGroups = accessGroups al\<rparr>"

definition mergeResolvedAllowlists :: "allowlist list \<Rightarrow> allowlist" where
  "mergeResolvedAllowlists als =
     (let ids = uniqueValues (concat (map matchedEntryIds als));
          names = (\<lambda>f. uniqueValues (concat (map (\<lambda>al. f (accessGroups al)) als)))
      in \<lparr>rawEntryCount = sum_list (map rawEntryCount als),
          normalizedEntries = concat (map normalizedEntries als),
          invalidEntries = concat (map invalidEntries als),
          disabledEntries = concat (map disabledEntries als),
          matchedEntryIds = ids,
          hasConfiguredEntries = list_ex hasConfiguredEntries als,
          hasMatchableEntries = list_ex hasMatchableEntries als,
          hasWildcard = list_ex hasWildcard als,
          accessGroups = \<lparr>agReferenced = names agReferenced, agMatched = names agMatched,
            agMissing = names agMissing, agUnsupported = names agUnsupported,
            agFailed = names agFailed\<rparr>,
          match = \<lparr>matched = list_ex (\<lambda>al. matched (match al)) als \<or> ids \<noteq> [], matchIds = ids\<rparr>\<rparr>)"

definition applyMutableIdentifierPolicy :: "allowlist \<Rightarrow> ingress_policy \<Rightarrow> allowlist" where
  "applyMutableIdentifierPolicy al policy =
     (if mutableIdentifierEnabled policy then al
      else let dangerousEntries = filter dangerous (normalizedEntries al);
               dangerousIds = uniqueValues (map opaqueEntryId dangerousEntries)
           in if dangerousIds = [] then al
              else let ids = filter (\<lambda>i. \<not> List.member dangerousIds i) (matchedEntryIds al)
                   in al\<lparr>disabledEntries := disabledEntries al @
                           map (\<lambda>e. \<lparr>diagEntryId = Some (opaqueEntryId e),
                                     diagReason = R_mutable_identifier_disabled\<rparr>) dangerousEntries,
                         matchedEntryIds := ids,
                         hasMatchableEntries := list_ex (\<lambda>e. \<not> dangerous e) (normalizedEntries al),
                         match := \<lparr>matched = ids \<noteq> [], matchIds = ids\<rparr>\<rparr>)"

fun route_effective :: "allowlist \<Rightarrow> resolved_route list \<Rightarrow> allowlist" where
  "route_effective effective [] = effective"
| "route_effective effective (route # routes) =
     (case (routeGate route, senderAllowlist route) of
        (RgMatched, Some al) \<Rightarrow>
          (if routeSenderPolicy route = RspInherit
           then route_effective (mergeResolvedAllowlists [effective, al]) routes
           else route_effective al routes)
      | _ \<Rightarrow> route_effective effective routes)"

definition effectiveGroupSenderAllowlist :: "ingress_state \<Rightarrow> ingress_policy \<Rightarrow> allowlist" where
  "effectiveGroupSenderAllowlist st policy =
     (let base = (if groupAllowFromFallback policy \<and> \<not> hasConfiguredEntries (alGroup (allowlists st))
                  then alDm (allowlists st) else alGroup (allowlists st))
      in applyMutableIdentifierPolicy (route_effective base (routeFacts st)) policy)"

section \<open>Sender gates\<close>

definition senderGate ::
  "string \<Rightarrow> gate_kind \<Rightarrow> gate_effect \<Rightarrow> bool \<Rightarrow> reason_code \<Rightarrow> ingress_match \<Rightarrow> dm_policy + group_policy \<Rightarrow>
   allowlist \<Rightarrow> gate" where
  "senderGate i kind eff ok reason m policy source =
     \<lparr>gateId = i, phase = PhSender, gateKind = kind, effect = eff, allowed = ok, reasonCode = reason,
      gateMatch = Some m, gateAllowlist = Some (redactedAllowlistDiagnostics source reason),
      gateSender = Some policy, gateCommand = None, gateEvent = None, gateActivation = None\<rparr>"

definition dm_gate :: "ingress_policy \<Rightarrow> allowlist \<Rightarrow> bool \<Rightarrow> reason_code \<Rightarrow> gate" where
  "dm_gate policy source ok reason =
     senderGate ''sender:dm'' GDmSender (if ok then EAllow else EBlockDispatch) ok reason
       (match source) (Inl (dmPolicy policy)) source"

definition group_gate :: "ingress_policy \<Rightarrow> allowlist \<Rightarrow> bool \<Rightarrow> reason_code \<Rightarrow> gate" where
  "group_gate policy source ok reason =
     senderGate ''sender:group'' GGroupSender (if ok then EAllow else EBlockDispatch) ok reason
       (match source) (Inr (groupPolicy policy)) source"

definition senderGateForDirect :: "ingress_state \<Rightarrow> ingress_policy \<Rightarrow> gate" where
  "senderGateForDirect st policy =
     (let dm = applyMutableIdentifierPolicy (alDm (allowlists st)) policy;
          store = applyMutableIdentifierPolicy (alPairingStore (allowlists st)) policy
      in if dmPolicy policy = DmDisabled then dm_gate policy dm False R_dm_policy_disabled
         else if dmPolicy policy = DmOpen then
           (if hasWildcard dm then dm_gate policy dm True R_dm_policy_open
            else if matched (match dm) then dm_gate policy dm True R_dm_policy_allowlisted
            else dm_gate policy dm False R_dm_policy_not_allowlisted)
         else if matched (match dm) then dm_gate policy dm True R_dm_policy_allowlisted
         else if dmPolicy policy = DmPairing \<and> matched (match store)
           then dm_gate policy store True R_dm_policy_allowlisted
         else if dmPolicy policy = DmPairing \<and> mayPair (event st)
           then dm_gate policy dm False R_dm_policy_pairing_required
         else dm_gate policy dm False
           (if dmPolicy policy = DmPairing then R_event_pairing_not_allowed
            else js_nullish (allowlistFailureReason dm) R_dm_policy_not_allowlisted))"

definition senderGateForGroup :: "ingress_state \<Rightarrow> ingress_policy \<Rightarrow> gate" where
  "senderGateForGroup st policy =
     (let grp = effectiveGroupSenderAllowlist st policy
      in if groupPolicy policy = GroupDisabled then group_gate policy grp False R_group_policy_disabled
         else if groupPolicy policy = GroupOpen then group_gate policy grp True R_group_policy_open
         else if \<not> hasConfiguredEntries grp then group_gate policy grp False R_group_policy_empty_allowlist
         else if matched (match grp) then group_gate policy grp True R_group_policy_allowed
         else group_gate policy grp False
           (js_nullish (allowlistFailureReason grp) R_group_policy_not_allowlisted))"

definition applyEventAuthModeToSenderGate :: "ingress_state \<Rightarrow> gate \<Rightarrow> gate" where
  "applyEventAuthModeToSenderGate st g =
     (if authMode (event st) = AmInbound \<or> allowed g then g
      else g\<lparr>effect := EIgnore, allowed := True, reasonCode := R_sender_not_required,
             gateAllowlist := map_option (\<lambda>al. al\<lparr>alReason := R_sender_not_required\<rparr>) (gateAllowlist g)\<rparr>)"

section \<open>Route, command, event and activation gates\<close>

definition plain_gate ::
  "string \<Rightarrow> gate_phase \<Rightarrow> gate_kind \<Rightarrow> gate_effect \<Rightarrow> bool \<Rightarrow> reason_code \<Rightarrow> ingress_match option \<Rightarrow> gate" where
  "plain_gate i ph kind eff ok reason m =
     \<lparr>gateId = i, phase = ph, gateKind = kind, effect = eff, allowed = ok, reasonCode = reason,
      gateMatch = m, gateAllowlist = None, gateSender = None, gateCommand = None, gateEvent = None,
      gateActivation = None\<rparr>"

definition routeGates :: "ingress_state \<Rightarrow> gate list" where
  "routeGates st =
     map (\<lambda>route. plain_gate (routeId route) PhRoute (routeKind route) (routeEffect route)
           (routeEffect route \<noteq> EBlockDispatch)
           (if routeEffect route = EBlockDispatch then R_route_blocked else R_allowed) (routeMatch route))
       (routeFacts st)"

definition routeSenderEmptyGate :: "ingress_state \<Rightarrow> gate option" where
  "routeSenderEmptyGate st =
     (case find (\<lambda>fact. routeSenderPolicy fact = RspDenyWhenEmpty \<and> routeGate fact = RgMatched \<and>
              map_option hasConfiguredEntries (senderAllowlist fact) \<noteq> Some True) (routeFacts st) of
        None \<Rightarrow> None
      | Some route \<Rightarrow>
          Some ((plain_gate (routeId route @ '':sender'') PhRoute GRouteSender EBlockDispatch False
                   R_route_sender_empty (routeMatch route))
                \<lparr>gateAllowlist := map_option (\<lambda>al. redactedAllowlistDiagnostics al R_route_sender_empty)
                                   (senderAllowlist route)\<rparr>))"

definition mergeCommandMatch :: "ingress_match \<Rightarrow> ingress_match \<Rightarrow> ingress_match" where
  "mergeCommandMatch owner grp =
     (let ids = uniqueValues (matchIds owner @ matchIds grp)
      in \<lparr>matched = matched owner \<or> matched grp \<or> ids \<noteq> [], matchIds = ids\<rparr>)"

definition commandGate :: "ingress_state \<Rightarrow> ingress_policy \<Rightarrow> gate" where
  "commandGate st policy =
     (case command policy of
        None \<Rightarrow> plain_gate ''command'' PhCommand GCommand EAllow True R_command_authorized None
      | Some cmd \<Rightarrow>
          (let useAccessGroups = js_nullish (cmUseAccessGroups cmd) True;
               owner = applyMutableIdentifierPolicy (alCommandOwner (allowlists st)) policy;
               grp = applyMutableIdentifierPolicy (alCommandGroup (allowlists st)) policy;
               authorized = resolveCommandAuthorizedFromAuthorizers useAccessGroups
                 [\<lparr>caConfigured = hasConfiguredEntries owner, caAllowed = matched (match owner)\<rparr>,
                  \<lparr>caConfigured = hasConfiguredEntries grp, caAllowed = matched (match grp)\<rparr>]
                 (cmModeOff cmd);
               block = cmAllowTextCommands cmd \<and> cmHasControlCommand cmd \<and> \<not> authorized
           in (plain_gate ''command'' PhCommand GCommand (if block then EBlockCommand else EAllow)
                 authorized (if block then R_control_command_unauthorized else R_command_authorized)
                 (Some (mergeCommandMatch (match owner) (match grp))))
              \<lparr>gateCommand := Some \<lparr>cfUseAccessGroups = useAccessGroups,
                 cfAllowTextCommands = cmAllowTextCommands cmd, cfModeOff = cmModeOff cmd,
                 cfShouldBlock = block\<rparr>\<rparr>))"

definition event_result :: "ingress_state \<Rightarrow> bool \<Rightarrow> reason_code \<Rightarrow> gate" where
  "event_result st ok reason =
     (plain_gate ''event'' PhEvent GEvent (if ok then EAllow else EBlockDispatch) ok reason None)
       \<lparr>gateEvent := Some (event st)\<rparr>"

definition eventGate :: "ingress_state \<Rightarrow> gate \<Rightarrow> gate \<Rightarrow> gate" where
  "eventGate st sender cmd =
     (case authMode (event st) of
        AmNone \<Rightarrow> event_result st True R_event_authorized
      | AmRouteOnly \<Rightarrow> event_result st True R_event_authorized
      | AmCommand \<Rightarrow>
          event_result st (allowed cmd) (if allowed cmd then R_event_authorized else R_event_unauthorized)
      | AmOriginSubject \<Rightarrow>
          (if \<not> hasOriginSubject (event st) then event_result st False R_origin_subject_missing
           else event_result st (originSubjectMatched (event st))
                  (if originSubjectMatched (event st) then R_event_authorized
                   else R_origin_subject_not_matched))
      | AmInbound \<Rightarrow>
          event_result st (allowed sender)
            (if allowed sender then R_event_authorized else R_event_unauthorized))"

definition activationMetadata ::
  "activation_policy option \<Rightarrow> mention_facts option \<Rightarrow> bool \<Rightarrow> bool option \<Rightarrow> bool option \<Rightarrow> activation_facts"
where
  "activationMetadata act facts skip effective bypass =
     \<lparr>afHasMentionFacts = facts \<noteq> None,
      afRequireMention = (case act of None \<Rightarrow> False | Some a \<Rightarrow> acRequireMention a),
      afAllowTextCommands = (case act of None \<Rightarrow> False | Some a \<Rightarrow> acAllowTextCommands a),
      afAllowedKinds = Option.bind act acAllowedKinds,
      afOrder = Option.bind act acOrder,
      afShouldSkip = skip,
      afCanDetect = map_option canDetectMention facts,
      afWasMentioned = map_option wasMentioned facts,
      afHasAnyMention = Option.bind facts hasAnyMention,
      afImplicitKinds = Option.bind facts implicitMentionKinds,
      afEffectiveWasMentioned = effective,
      afShouldBypass = bypass\<rparr>"

definition activation_result ::
  "ingress_state \<Rightarrow> ingress_policy \<Rightarrow> bool \<Rightarrow> bool option \<Rightarrow> bool option \<Rightarrow> gate" where
  "activation_result st policy skip effective bypass =
     (plain_gate ''activation'' PhActivation GMention (if skip then ESkip else EAllow) (\<not> skip)
        (if skip then R_activation_skipped else R_activation_allowed) None)
       \<lparr>gateActivation := Some (activationMetadata (activation policy) (mentionFacts st) skip effective bypass)\<rparr>"

definition activationGate :: "ingress_state \<Rightarrow> ingress_policy \<Rightarrow> gate \<Rightarrow> gate" where
  "activationGate st policy cmd =
     (case (activation policy, mentionFacts st) of
        (Some act, Some facts) \<Rightarrow>
          (let result = resolveInboundMentionDecision facts
                 \<lparr>mpIsGroup = conversationKind st \<noteq> ConvDirect, mpRequireMention = acRequireMention act,
                  mpAllowedKinds = acAllowedKinds act, mpAllowTextCommands = acAllowTextCommands act,
                  mpHasControlCommand =
                    (case command policy of None \<Rightarrow> False | Some c \<Rightarrow> cmHasControlCommand c),
                  mpCommandAuthorized = allowed cmd\<rparr>
           in activation_result st policy (shouldSkip result) (Some (effectiveWasMentioned result))
                (Some (shouldBypassMention result)))
      | (_, facts) \<Rightarrow>
          activation_result st policy False
            (map_option (\<lambda>f. wasMentioned f \<or> js_nullish (implicitMentionKinds f) [] \<noteq> []) facts) None)"

section \<open>The decision\<close>

definition decisiveDecision :: "admission \<Rightarrow> decision \<Rightarrow> gate \<Rightarrow> gate list \<Rightarrow> ingress_decision" where
  "decisiveDecision adm dec g gs =
     \<lparr>admission = adm, decision = dec, decisiveGateId = gateId g, decisionReason = reasonCode g, graph = gs\<rparr>"

definition activation_before_sender :: "ingress_state \<Rightarrow> ingress_policy \<Rightarrow> gate option" where
  "activation_before_sender st policy =
     (case activation policy of
        None \<Rightarrow> None
      | Some act \<Rightarrow>
          if acOrder act = Some BeforeSender \<and> \<not> acAllowTextCommands act
          then Some (activationGate st policy (commandGate st (policy\<lparr>command := None\<rparr>)))
          else None)"

definition sender_gate :: "ingress_state \<Rightarrow> ingress_policy \<Rightarrow> gate" where
  "sender_gate st policy =
     applyEventAuthModeToSenderGate st
       (if conversationKind st = ConvDirect then senderGateForDirect st policy
        else senderGateForGroup st policy)"

text \<open>The part of \<open>decideChannelIngress\<close> after the sender gate; \<open>gs\<close> are the gates so far.\<close>

definition decide_after_sender ::
  "ingress_state \<Rightarrow> ingress_policy \<Rightarrow> gate option \<Rightarrow> gate \<Rightarrow> gate list \<Rightarrow> ingress_decision" where
  "decide_after_sender st policy early sender gs =
     (let cmd = commandGate st policy;
          gs1 = gs @ [cmd]
      in if effect cmd = EBlockCommand then decisiveDecision Drop Block cmd gs1
         else let ev = eventGate st sender cmd;
                  gs2 = gs1 @ [ev]
              in if \<not> allowed ev then decisiveDecision Drop Block ev gs2
                 else let act = (case early of Some a \<Rightarrow> a | None \<Rightarrow> activationGate st policy cmd);
                          gs3 = (if early = None then gs2 @ [act] else gs2)
                      in if effect act = ESkip then decisiveDecision Skip Allow act gs3
                         else if effect act = EObserve then decisiveDecision Observe Allow act gs3
                         else decisiveDecision Dispatch Allow act gs3)"

definition decide_sender ::
  "ingress_state \<Rightarrow> ingress_policy \<Rightarrow> gate option \<Rightarrow> gate list \<Rightarrow> ingress_decision" where
  "decide_sender st policy early gs =
     (let sender = sender_gate st policy;
          gs1 = gs @ [sender]
      in if \<not> allowed sender then
           (if reasonCode sender = R_dm_policy_pairing_required
            then decisiveDecision PairingRequired Pairing sender gs1
            else decisiveDecision Drop Block sender gs1)
         else decide_after_sender st policy early sender gs1)"

definition decideChannelIngress :: "ingress_state \<Rightarrow> ingress_policy \<Rightarrow> ingress_decision" where
  "decideChannelIngress st policy =
     (let gs0 = routeGates st @ (case routeSenderEmptyGate st of None \<Rightarrow> [] | Some g \<Rightarrow> [g])
      in case find (\<lambda>g. effect g = EBlockDispatch) gs0 of
           Some g \<Rightarrow> decisiveDecision Drop Block g gs0
         | None \<Rightarrow>
             (case activation_before_sender st policy of
                None \<Rightarrow> decide_sender st policy None gs0
              | Some a \<Rightarrow>
                  if effect a = ESkip then decisiveDecision Skip Allow a (gs0 @ [a])
                  else decide_sender st policy (Some a) (gs0 @ [a])))"

end
