(* ===== verification/Ingress_Props.thy ===== *)
theory Ingress_Props
  imports Ingress_Access
begin

text \<open>
  What the ingress gates guarantee. The policy is first stated flat, without gates, reasons or
  graph: which routes are open, who is an authorised sender, when a command or an event is
  refused, when a message is skipped. \<open>decide_refines\<close> says that the staged decision of the
  code is exactly that policy; the other properties say what the allowlist operations, the
  mention gate and the access graph promise.
\<close>

section \<open>The policy, stated flat\<close>

definition routes_open :: "ingress_state \<Rightarrow> bool" where
  "routes_open st \<longleftrightarrow>
     (\<forall>r \<in> set (routeFacts st). routeEffect r \<noteq> EBlockDispatch \<and>
        \<not> (routeSenderPolicy r = RspDenyWhenEmpty \<and> routeGate r = RgMatched \<and>
           \<not> (\<exists>al. senderAllowlist r = Some al \<and> hasConfiguredEntries al)))"

definition sender_ok :: "ingress_state \<Rightarrow> ingress_policy \<Rightarrow> bool" where
  "sender_ok st policy \<longleftrightarrow>
     (let listed = (\<lambda>al. matched (match (applyMutableIdentifierPolicy al policy)));
          senders = effectiveGroupSenderAllowlist st policy
      in if conversationKind st = ConvDirect then
           (case dmPolicy policy of
              DmDisabled \<Rightarrow> False
            | DmOpen \<Rightarrow> hasWildcard (alDm (allowlists st)) \<or> listed (alDm (allowlists st))
            | DmAllowlist \<Rightarrow> listed (alDm (allowlists st))
            | DmPairing \<Rightarrow> listed (alDm (allowlists st)) \<or> listed (alPairingStore (allowlists st)))
         else
           (case groupPolicy policy of
              GroupDisabled \<Rightarrow> False
            | GroupOpen \<Rightarrow> True
            | GroupAllowlist \<Rightarrow> hasConfiguredEntries senders \<and> matched (match senders)))"

definition pairing_offer :: "ingress_state \<Rightarrow> ingress_policy \<Rightarrow> bool" where
  "pairing_offer st policy \<longleftrightarrow>
     conversationKind st = ConvDirect \<and> dmPolicy policy = DmPairing \<and> mayPair (event st)"

definition command_ok :: "ingress_state \<Rightarrow> ingress_policy \<Rightarrow> bool" where
  "command_ok st policy \<longleftrightarrow>
     (case command policy of None \<Rightarrow> True
      | Some cmd \<Rightarrow>
          let owner = applyMutableIdentifierPolicy (alCommandOwner (allowlists st)) policy;
              grp = applyMutableIdentifierPolicy (alCommandGroup (allowlists st)) policy;
              listed = (hasConfiguredEntries owner \<and> matched (match owner) \<or>
                        hasConfiguredEntries grp \<and> matched (match grp))
          in if cmUseAccessGroups cmd \<noteq> Some False then listed
             else case cmModeOff cmd of
                    Some OffDeny \<Rightarrow> False
                  | Some OffConfigured \<Rightarrow>
                      hasConfiguredEntries owner \<or> hasConfiguredEntries grp \<longrightarrow> listed
                  | _ \<Rightarrow> True)"

definition command_blocked :: "ingress_state \<Rightarrow> ingress_policy \<Rightarrow> bool" where
  "command_blocked st policy \<longleftrightarrow>
     (\<exists>cmd. command policy = Some cmd \<and> cmAllowTextCommands cmd \<and> cmHasControlCommand cmd) \<and>
     \<not> command_ok st policy"

definition event_ok :: "ingress_state \<Rightarrow> ingress_policy \<Rightarrow> bool" where
  "event_ok st policy \<longleftrightarrow>
     (authMode (event st) = AmCommand \<longrightarrow> command_ok st policy) \<and>
     (authMode (event st) = AmOriginSubject \<longrightarrow>
        hasOriginSubject (event st) \<and> originSubjectMatched (event st))"

text \<open>A message is skipped when a mention is required, could be seen, and is not there.\<close>

definition mention_missing :: "ingress_state \<Rightarrow> ingress_policy \<Rightarrow> bool \<Rightarrow> bool" where
  "mention_missing st policy authorized \<longleftrightarrow>
     (case (activation policy, mentionFacts st) of
        (Some act, Some facts) \<Rightarrow>
          acRequireMention act \<and> canDetectMention facts \<and> \<not> wasMentioned facts \<and>
          \<not> (\<exists>k \<in> set (js_nullish (implicitMentionKinds facts) []).
                acAllowedKinds act = None \<or> k \<in> set (the (acAllowedKinds act))) \<and>
          \<not> (conversationKind st \<noteq> ConvDirect \<and> hasAnyMention facts \<noteq> Some True \<and>
             acAllowTextCommands act \<and> authorized \<and>
             (\<exists>c. command policy = Some c \<and> cmHasControlCommand c))
      | _ \<Rightarrow> False)"

definition checks_activation_first :: "ingress_policy \<Rightarrow> bool" where
  "checks_activation_first policy \<longleftrightarrow>
     (\<exists>act. activation policy = Some act \<and> acOrder act = Some BeforeSender \<and> \<not> acAllowTextCommands act)"

definition admission_policy :: "ingress_state \<Rightarrow> ingress_policy \<Rightarrow> admission" where
  "admission_policy st policy =
     (if \<not> routes_open st then Drop
      else if checks_activation_first policy \<and> mention_missing st policy False then Skip
      else if authMode (event st) = AmInbound \<and> \<not> sender_ok st policy
        then (if pairing_offer st policy then PairingRequired else Drop)
      else if command_blocked st policy \<or> \<not> event_ok st policy then Drop
      else if mention_missing st policy (command_ok st policy) then Skip
      else Dispatch)"

section \<open>Each gate against the policy\<close>

lemma gate_fields [simp]:
  "allowed (plain_gate i ph k e ok r m) = ok" "effect (plain_gate i ph k e ok r m) = e"
  "reasonCode (plain_gate i ph k e ok r m) = r" "gateId (plain_gate i ph k e ok r m) = i"
  "allowed (senderGate i k e ok r m' p s) = ok" "effect (senderGate i k e ok r m' p s) = e"
  "reasonCode (senderGate i k e ok r m' p s) = r" "gateId (senderGate i k e ok r m' p s) = i"
  "gateAllowlist (senderGate i k e ok r m' p s) = Some (redactedAllowlistDiagnostics s r)"
  by (simp_all add: plain_gate_def senderGate_def)

lemma sender_gates [simp]:
  "allowed (dm_gate p s ok r) = ok" "reasonCode (dm_gate p s ok r) = r"
  "effect (dm_gate p s ok r) = (if ok then EAllow else EBlockDispatch)"
  "allowed (group_gate p s ok r) = ok" "reasonCode (group_gate p s ok r) = r"
  "effect (group_gate p s ok r) = (if ok then EAllow else EBlockDispatch)"
  by (simp_all add: dm_gate_def group_gate_def)

lemma decisive_fields [simp]:
  "admission (decisiveDecision a d g gs) = a" "decision (decisiveDecision a d g gs) = d"
  "decisiveGateId (decisiveDecision a d g gs) = gateId g"
  "decisionReason (decisiveDecision a d g gs) = reasonCode g"
  "graph (decisiveDecision a d g gs) = gs"
  by (simp_all add: decisiveDecision_def)

lemma mutable_policy_wildcard [simp]:
  "hasWildcard (applyMutableIdentifierPolicy al policy) = hasWildcard al"
  "hasConfiguredEntries (applyMutableIdentifierPolicy al policy) = hasConfiguredEntries al"
  "accessGroups (applyMutableIdentifierPolicy al policy) = accessGroups al"
  by (simp_all add: applyMutableIdentifierPolicy_def Let_def)

lemma failure_not_pairing [simp]:
  "js_nullish (allowlistFailureReason al) R_dm_policy_not_allowlisted \<noteq> R_dm_policy_pairing_required"
  "js_nullish (allowlistFailureReason al) R_group_policy_not_allowlisted \<noteq> R_dm_policy_pairing_required"
  by (simp_all add: allowlistFailureReason_def)

lemma direct_gate_ok:
  assumes "conversationKind st = ConvDirect"
  shows "allowed (senderGateForDirect st policy) = sender_ok st policy"
    and "\<not> sender_ok st policy \<Longrightarrow>
      (reasonCode (senderGateForDirect st policy) = R_dm_policy_pairing_required) =
      (dmPolicy policy = DmPairing \<and> mayPair (event st))"
  using assms
  by (cases "dmPolicy policy"; simp add: senderGateForDirect_def sender_ok_def Let_def)+

lemma group_gate_ok:
  assumes "conversationKind st \<noteq> ConvDirect"
  shows "allowed (senderGateForGroup st policy) = sender_ok st policy"
    and "reasonCode (senderGateForGroup st policy) \<noteq> R_dm_policy_pairing_required"
  using assms
  by (cases "groupPolicy policy"; simp add: senderGateForGroup_def sender_ok_def Let_def)+

lemma sender_gate_ok:
  "allowed (sender_gate st policy) \<longleftrightarrow> authMode (event st) \<noteq> AmInbound \<or> sender_ok st policy"
  by (simp add: sender_gate_def applyEventAuthModeToSenderGate_def direct_gate_ok group_gate_ok)

lemma sender_gate_pairing:
  "\<not> allowed (sender_gate st policy) \<Longrightarrow>
   reasonCode (sender_gate st policy) = R_dm_policy_pairing_required \<longleftrightarrow> pairing_offer st policy"
  using direct_gate_ok[of st policy] group_gate_ok[of st policy] sender_gate_ok[of st policy]
  by (auto simp: sender_gate_def applyEventAuthModeToSenderGate_def pairing_offer_def)

lemma command_gate_ok:
  "allowed (commandGate st policy) = command_ok st policy"
  "effect (commandGate st policy) = EBlockCommand \<longleftrightarrow> command_blocked st policy"
  "command policy = None \<Longrightarrow> allowed (commandGate st policy)"
  by (auto simp: commandGate_def command_ok_def command_blocked_def Let_def
      resolveCommandAuthorizedFromAuthorizers_def js_nullish_def
      split: option.split access_groups_off_mode.split)

lemma event_gate_ok:
  "allowed s \<longleftrightarrow> authMode (event st) \<noteq> AmInbound \<or> ok \<Longrightarrow>
   allowed (eventGate st s (commandGate st policy)) \<longleftrightarrow>
     (authMode (event st) = AmInbound \<longrightarrow> ok) \<and> event_ok st policy"
  by (cases "authMode (event st)")
    (simp_all add: eventGate_def event_result_def event_ok_def command_gate_ok)

section \<open>Mentions\<close>

lemma matched_kinds_eq:
  "matched_kinds allowedKinds kinds acc =
     fold js_add (filter (\<lambda>k. case allowedKinds of None \<Rightarrow> True | Some ks \<Rightarrow> k \<in> set ks) kinds) acc"
  by (induction allowedKinds kinds acc rule: matched_kinds.induct)
    (auto simp: js_add_def split: option.splits)

lemma fold_js_add: "fold js_add xs [] = uniqueValues xs"
  by (simp add: uniqueValues_def foldl_conv_fold)

text \<open>
  the implicit mentions that count are the given ones that the policy allows, each once, in
  the order they were given; a policy that lists no kinds allows all.
\<close>

theorem implicit_mentions_filtered:
  "resolveMatchedImplicitMentionKinds kinds allowedKinds =
     uniqueValues (filter (\<lambda>k. case allowedKinds of None \<Rightarrow> True | Some ks \<Rightarrow> k \<in> set ks) (js_nullish kinds []))"
  by (auto simp: resolveMatchedImplicitMentionKinds_def Let_def matched_kinds_eq fold_js_add uniqueValues_def)

lemma implicit_mention_iff:
  "resolveMatchedImplicitMentionKinds kinds allowedKinds = [] \<longleftrightarrow>
     \<not> (\<exists>k \<in> set (js_nullish kinds []). allowedKinds = None \<or> k \<in> set (the allowedKinds))"
  by (auto simp: resolveMatchedImplicitMentionKinds_def Let_def matched_kinds_eq fold_js_add filter_empty_conv split: option.splits)

lemma activation_effect [simp]:
  "effect (activation_result st policy skip e b) = (if skip then ESkip else EAllow)"
  "gateId (activation_result st policy skip e b) = ''activation''"
  by (simp_all add: activation_result_def)

lemma activation_gate_skip:
  "effect (activationGate st policy cmd) = ESkip \<longleftrightarrow> mention_missing st policy (allowed cmd)"
  by (auto simp: activationGate_def mention_missing_def resolveInboundMentionDecision_def
      resolveMentionDecisionCore_def implicit_mention_iff Let_def js_nullish_def
      split: option.splits)

lemma activation_gate_never_observes: "effect (activationGate st policy cmd) \<noteq> EObserve"
  by (simp add: activationGate_def Let_def split: option.split)

lemma activation_before_sender_cases:
  "activation_before_sender st policy =
     (if checks_activation_first policy
      then Some (activationGate st policy (commandGate st (policy\<lparr>command := None\<rparr>))) else None)"
  by (auto simp: activation_before_sender_def checks_activation_first_def split: option.split)

text \<open>Without text commands no command can stand in for a mention.\<close>

lemma mention_missing_first:
  "checks_activation_first policy \<Longrightarrow> mention_missing st policy a = mention_missing st policy b"
  by (auto simp: mention_missing_def checks_activation_first_def split: option.splits)

section \<open>The decision\<close>

lemma route_gates_block:
  "find (\<lambda>g. effect g = EBlockDispatch)
     (routeGates st @ (case routeSenderEmptyGate st of None \<Rightarrow> [] | Some g \<Rightarrow> [g])) = None
   \<longleftrightarrow> routes_open st"
  by (auto simp: find_None_iff routeGates_def routeSenderEmptyGate_def routes_open_def find_Some_iff
      split: option.splits)

lemma after_sender_admission:
  assumes "allowed sender \<longleftrightarrow> authMode (event st) \<noteq> AmInbound \<or> ok"
    and "authMode (event st) = AmInbound \<Longrightarrow> ok"
    and early: "\<And>a. early = Some a \<Longrightarrow> effect a = EAllow"
    and late: "early \<noteq> None \<Longrightarrow> \<not> mention_missing st policy (command_ok st policy)"
  shows "admission (decide_after_sender st policy early sender gs) =
     (if command_blocked st policy \<or> \<not> event_ok st policy then Drop
      else if mention_missing st policy (command_ok st policy) then Skip else Dispatch)"
proof (cases early)
  case None
  then show ?thesis
    using event_gate_ok[OF assms(1), of policy] assms(2)
      activation_gate_skip[of st policy "commandGate st policy"]
      activation_gate_never_observes[of st policy "commandGate st policy"]
    by (simp add: decide_after_sender_def Let_def command_gate_ok)
next
  case (Some a)
  then show ?thesis
    using event_gate_ok[OF assms(1), of policy] assms(2) early late
    by (simp add: decide_after_sender_def Let_def command_gate_ok)
qed

lemma sender_admission:
  assumes early: "\<And>a. early = Some a \<Longrightarrow> effect a = EAllow"
    and late: "early \<noteq> None \<Longrightarrow> \<not> mention_missing st policy (command_ok st policy)"
  shows "admission (decide_sender st policy early gs) =
     (if authMode (event st) = AmInbound \<and> \<not> sender_ok st policy
        then (if pairing_offer st policy then PairingRequired else Drop)
      else if command_blocked st policy \<or> \<not> event_ok st policy then Drop
      else if mention_missing st policy (command_ok st policy) then Skip else Dispatch)"
proof (cases "allowed (sender_gate st policy)")
  case True
  then show ?thesis
    using after_sender_admission[OF sender_gate_ok _ early late] sender_gate_ok[of st policy]
    by (auto simp: decide_sender_def Let_def)
next
  case False
  then show ?thesis
    using sender_gate_pairing[OF False] sender_gate_ok[of st policy]
    by (auto simp: decide_sender_def Let_def)
qed

lemma activation_effect_cases: "effect (activationGate st policy cmd) \<in> {ESkip, EAllow}"
  by (auto simp: activationGate_def Let_def split: option.split)

lemma decide_admission:
  "admission (decideChannelIngress st policy) = admission_policy st policy"
proof (cases "routes_open st")
  case False
  then show ?thesis
    using route_gates_block[of st]
    by (auto simp: decideChannelIngress_def admission_policy_def Let_def split: option.split)
next
  case True
  let ?g = "activationGate st policy (commandGate st (policy\<lparr>command := None\<rparr>))"
  have found: "find (\<lambda>g. effect g = EBlockDispatch)
     (routeGates st @ (case routeSenderEmptyGate st of None \<Rightarrow> [] | Some g \<Rightarrow> [g])) = None"
    using True route_gates_block[of st] by simp
  show ?thesis
  proof (cases "checks_activation_first policy")
    case False
    then show ?thesis
      using True found sender_admission[where early = None and st = st and policy = policy]
      by (simp add: decideChannelIngress_def admission_policy_def Let_def activation_before_sender_cases)
  next
    case first: True
    note same = mention_missing_first[OF first, of st False]
    have skip: "effect ?g = ESkip \<longleftrightarrow> mention_missing st policy False"
      unfolding activation_gate_skip by (rule same[symmetric])
    show ?thesis
    proof (cases "effect ?g = ESkip")
      case True
      then show ?thesis
        using \<open>routes_open st\<close> found first skip
        by (simp add: decideChannelIngress_def admission_policy_def Let_def activation_before_sender_cases)
    next
      case False
      then have "effect ?g = EAllow" using activation_effect_cases[of st policy] by blast
      then have "admission (decide_sender st policy (Some ?g) gs) =
         (if authMode (event st) = AmInbound \<and> \<not> sender_ok st policy
            then (if pairing_offer st policy then PairingRequired else Drop)
          else if command_blocked st policy \<or> \<not> event_ok st policy then Drop
          else if mention_missing st policy (command_ok st policy) then Skip else Dispatch)" for gs
        using False skip same by (intro sender_admission) auto
      then show ?thesis
        using \<open>routes_open st\<close> found first skip False
        by (simp add: decideChannelIngress_def admission_policy_def Let_def activation_before_sender_cases)
    qed
  qed
qed

text \<open>
  C5: the staged decision of the code admits an event exactly as the flat policy says: blocked
  routes first, then (where the policy asks for it) activation, the sender, commands, the
  event's own authorisation and activation. In particular an event is dispatched only when
  every route is open, an inbound sender is authorised, no unauthorised control command is in
  it and its authorisation mode is satisfied.
\<close>

theorem decide_refines:
  "admission (decideChannelIngress st policy) = admission_policy st policy"
  by (rule decide_admission)

section \<open>The access graph\<close>

definition passes :: "gate \<Rightarrow> bool" where
  "passes g \<longleftrightarrow> effect g \<in> {EAllow, EIgnore}"

text \<open>A decision explained by its graph: the decisive gate is there, and what comes before passed.\<close>

definition explained :: "ingress_decision \<Rightarrow> bool" where
  "explained d \<longleftrightarrow>
     (\<exists>gs g gs'. graph d = gs @ g # gs' \<and> gateId g = decisiveGateId d \<and>
        reasonCode g = decisionReason d \<and> (\<forall>h \<in> set gs. passes h) \<and>
        (admission d = Dispatch \<longrightarrow> passes g \<and> (\<forall>h \<in> set gs'. passes h)) \<and>
        (admission d \<noteq> Dispatch \<longrightarrow> \<not> passes g))"

lemma decisive_explained:
  assumes "\<forall>h \<in> set gs. passes h" and "passes g \<longleftrightarrow> a = Dispatch"
  shows "explained (decisiveDecision a d g (gs @ [g]))"
  unfolding explained_def using assms by (intro exI[of _ gs] exI[of _ g] exI[of _ "[]"]) simp

lemma early_explained:
  assumes "\<forall>h \<in> set (gs @ gs'). passes h" and "passes g"
  shows "explained (decisiveDecision Dispatch d g (gs @ g # gs'))"
  unfolding explained_def using assms by (intro exI[of _ gs] exI[of _ g] exI[of _ gs']) simp

lemma sender_gate_passes: "passes (sender_gate st policy) \<longleftrightarrow> allowed (sender_gate st policy)"
proof -
  have d: "effect (senderGateForDirect st policy) = (if allowed (senderGateForDirect st policy) then EAllow else EBlockDispatch)"
    by (simp add: senderGateForDirect_def Let_def)
  have g: "effect (senderGateForGroup st policy) = (if allowed (senderGateForGroup st policy) then EAllow else EBlockDispatch)"
    by (simp add: senderGateForGroup_def Let_def)
  show ?thesis
    by (auto simp: sender_gate_def applyEventAuthModeToSenderGate_def passes_def d g)
qed

lemma command_gate_effect: "effect (commandGate st policy) \<in> {EAllow, EBlockCommand}"
  by (simp add: commandGate_def Let_def split: option.split)

lemma event_gate_passes: "passes (eventGate st s c) \<longleftrightarrow> allowed (eventGate st s c)"
  by (cases "authMode (event st)") (simp_all add: eventGate_def event_result_def passes_def)

lemma activation_gate_passes: "passes (activationGate st policy c) \<longleftrightarrow> effect (activationGate st policy c) \<noteq> ESkip"
  using activation_effect_cases[of st policy c] by (auto simp: passes_def)

lemma after_sender_explained:
  assumes gs: "\<forall>h \<in> set gs. passes h" and early: "early = None \<or> (\<exists>a pre post. early = Some a \<and> effect a = EAllow \<and> gs = pre @ a # post)"
  shows "explained (decide_after_sender st policy early sender gs)"
proof -
  let ?c = "commandGate st policy"
  let ?e = "eventGate st sender ?c"
  let ?a = "activationGate st policy ?c"
  have c: "passes ?c \<longleftrightarrow> effect ?c \<noteq> EBlockCommand" using command_gate_effect[of st policy] by (auto simp: passes_def)
  have blocked: "explained (decisiveDecision Drop Block ?c (gs @ [?c]))" if "effect ?c = EBlockCommand"
    using gs c that by (intro decisive_explained) auto
  have refused: "explained (decisiveDecision Drop Block ?e ((gs @ [?c]) @ [?e]))"
    if "effect ?c \<noteq> EBlockCommand" "\<not> allowed ?e"
    using gs c that event_gate_passes by (intro decisive_explained) auto
  have late: "explained (decisiveDecision (if effect ?a = ESkip then Skip else Dispatch) Allow ?a ((gs @ [?c] @ [?e]) @ [?a]))"
    if "effect ?c \<noteq> EBlockCommand" "allowed ?e"
    using gs c that event_gate_passes activation_gate_passes by (intro decisive_explained) auto
  have kept: "explained (decisiveDecision Dispatch Allow a (gs @ [?c] @ [?e]))"
    if "effect ?c \<noteq> EBlockCommand" "allowed ?e" "effect a = EAllow" "gs = pre @ a # post" for a pre post
  proof -
    have "explained (decisiveDecision Dispatch Allow a (pre @ a # (post @ [?c] @ [?e])))"
      using gs c that event_gate_passes by (intro early_explained) (auto simp: passes_def)
    then show ?thesis using that(4) by simp
  qed
  from early show ?thesis
  proof
    assume "early = None"
    then show ?thesis
      using blocked refused late activation_gate_never_observes[of st policy ?c]
      by (auto simp: decide_after_sender_def Let_def split: if_splits)
  next
    assume "\<exists>a pre post. early = Some a \<and> effect a = EAllow \<and> gs = pre @ a # post"
    then obtain a pre post where "early = Some a" "effect a = EAllow" "gs = pre @ a # post" by blast
    then show ?thesis
      using blocked refused kept by (auto simp: decide_after_sender_def Let_def)
  qed
qed

lemma sender_explained:
  assumes gs: "\<forall>h \<in> set gs. passes h" and early: "early = None \<or> (\<exists>a pre post. early = Some a \<and> effect a = EAllow \<and> gs = pre @ a # post)"
  shows "explained (decide_sender st policy early gs)"
proof (cases "allowed (sender_gate st policy)")
  case True
  have "explained (decide_after_sender st policy early (sender_gate st policy) (gs @ [sender_gate st policy]))"
    using gs early True by (intro after_sender_explained) (fastforce simp: sender_gate_passes)+
  then show ?thesis using True by (simp add: decide_sender_def Let_def)
next
  case False
  then show ?thesis
    using gs sender_gate_passes[of st policy] by (auto simp: decide_sender_def Let_def intro!: decisive_explained)
qed

text \<open>
  C6: every decision is explained by its graph: the decisive gate is in the graph with the
  reason the decision reports, all gates evaluated before it let the event pass, it stops the
  event itself unless the event is dispatched, and a dispatched event passed every gate.
\<close>

theorem decision_explained:
  assumes "\<forall>r \<in> set (routeFacts st). routeEffect r \<in> {EAllow, EBlockDispatch, EIgnore}"
  shows "explained (decideChannelIngress st policy)"
proof -
  let ?gs = "routeGates st @ (case routeSenderEmptyGate st of None \<Rightarrow> [] | Some g \<Rightarrow> [g])"
  have pass: "passes h \<longleftrightarrow> effect h \<noteq> EBlockDispatch" if "h \<in> set ?gs" for h
    using that assms by (auto simp: passes_def routeGates_def routeSenderEmptyGate_def split: option.splits)
  show ?thesis
  proof (cases "find (\<lambda>g. effect g = EBlockDispatch) ?gs")
    case (Some g)
    then obtain pre post where split: "?gs = pre @ g # post" "effect g = EBlockDispatch"
      "\<forall>h \<in> set pre. effect h \<noteq> EBlockDispatch"
      by (rule find_Some_split)
    have "\<forall>h \<in> set pre. h \<in> set ?gs" unfolding split(1) by simp
    then have "\<forall>h \<in> set pre. passes h" using pass split(3) by blast
    moreover have "\<not> passes g" using split(2) by (simp add: passes_def)
    ultimately have "explained (decisiveDecision Drop Block g (pre @ g # post))"
      unfolding explained_def
      by (intro exI[of _ pre] exI[of _ g] exI[of _ post]) simp
    then have "explained (decisiveDecision Drop Block g ?gs)" unfolding split(1) .
    then show ?thesis using Some by (simp add: decideChannelIngress_def Let_def)
  next
    case None
    then have gs: "\<forall>h \<in> set ?gs. passes h" using pass by (auto simp: find_None_iff)
    show ?thesis
    proof (cases "activation_before_sender st policy")
      case e: None
      then show ?thesis using None sender_explained[OF gs, of None st policy]
        by (simp add: decideChannelIngress_def Let_def)
    next
      case (Some a)
      then obtain c where a: "a = activationGate st policy c"
        by (auto simp: activation_before_sender_cases split: if_splits)
      have skip: "explained (decisiveDecision Skip Allow a (?gs @ [a]))" if "effect a = ESkip"
        using gs that by (intro decisive_explained) (simp_all add: passes_def)
      have "effect a = EAllow" if "effect a \<noteq> ESkip" using that a activation_effect_cases[of st policy c] by auto
      then have "explained (decide_sender st policy (Some a) (?gs @ [a]))" if "effect a \<noteq> ESkip"
        using gs that
        by (intro sender_explained disjI2 exI[of _ a] exI[of _ ?gs] exI[of _ "[]"]) (auto simp: passes_def)
      then show ?thesis using None Some skip by (simp add: decideChannelIngress_def Let_def)
    qed
  qed
qed

section \<open>A concrete conversation\<close>

definition no_groups :: access_groups where
  "no_groups = \<lparr>agReferenced = [], agMatched = [], agMissing = [], agUnsupported = [], agFailed = []\<rparr>"

definition list_of :: "normalized_entry list \<Rightarrow> string list \<Rightarrow> bool \<Rightarrow> allowlist" where
  "list_of entries ids wildcard =
     \<lparr>rawEntryCount = length entries, normalizedEntries = entries, invalidEntries = [],
      disabledEntries = [], matchedEntryIds = ids, hasConfiguredEntries = entries \<noteq> [],
      hasMatchableEntries = entries \<noteq> [], hasWildcard = wildcard, accessGroups = no_groups,
      match = \<lparr>matched = ids \<noteq> [], matchIds = ids\<rparr>\<rparr>"

definition name_entry :: normalized_entry where
  "name_entry = \<lparr>opaqueEntryId = ''e1'', entryKind = KUsername, dangerous = True, sensitivity = None\<rparr>"

definition id_entry :: normalized_entry where
  "id_entry = \<lparr>opaqueEntryId = ''e2'', entryKind = KStableId, dangerous = False, sensitivity = None\<rparr>"

definition owner_route :: resolved_route where
  "owner_route = \<lparr>routeId = ''r'', routeKind = GRoute, routeGate = RgMatched, routeEffect = EAllow,
     routePrecedence = 0, routeSenderPolicy = RspReplace, routeMatch = None,
     senderAllowlist = Some (list_of [id_entry] [''e2''] False)\<rparr>"

definition group_message :: ingress_state where
  "group_message =
     \<lparr>channelId = ''telegram'', accountId = ''default'', conversationKind = ConvGroup,
      event = \<lparr>evKind = EvMessage, authMode = AmInbound, mayPair = False, hasOriginSubject = False,
               originSubjectMatched = False\<rparr>,
      mentionFacts = None, routeFacts = [owner_route],
      allowlists = \<lparr>alDm = list_of [] [] False, alPairingStore = list_of [] [] False,
        alGroup = list_of [name_entry] [''e1''] False, alCommandOwner = list_of [id_entry] [''e2''] False,
        alCommandGroup = list_of [] [] False\<rparr>\<rparr>"

definition strict_policy :: ingress_policy where
  "strict_policy = \<lparr>dmPolicy = DmPairing, groupPolicy = GroupAllowlist, groupAllowFromFallback = False,
     mutableIdentifierEnabled = False, activation = None,
     command = Some \<lparr>cmUseAccessGroups = None, cmAllowTextCommands = True, cmHasControlCommand = True,
                     cmModeOff = None\<rparr>\<rparr>"

lemma decision_explained_witness: "explained (decideChannelIngress group_message strict_policy)"
  using decision_explained[of group_message strict_policy]
  by (simp add: group_message_def owner_route_def)

section \<open>Allowlists\<close>

text \<open>
  unless the channel opts in, an identifier its owner can change never authorises anyone: no
  entry marked dangerous is among the matches, the list matches only through an entry that is
  not dangerous, and each dangerous entry is reported as disabled.
\<close>

theorem mutable_identifiers_never_match:
  assumes "\<not> mutableIdentifierEnabled policy" and "e \<in> set (normalizedEntries al)" and "dangerous e"
  shows "let al' = applyMutableIdentifierPolicy al policy in
     opaqueEntryId e \<notin> set (matchedEntryIds al') \<and> opaqueEntryId e \<notin> set (matchIds (match al')) \<and>
     (matched (match al') \<longleftrightarrow>
        (\<exists>i \<in> set (matchedEntryIds al). \<forall>d \<in> set (normalizedEntries al). dangerous d \<longrightarrow> opaqueEntryId d \<noteq> i)) \<and>
     \<lparr>diagEntryId = Some (opaqueEntryId e), diagReason = R_mutable_identifier_disabled\<rparr>
       \<in> set (disabledEntries al')"
proof -
  let ?ids = "uniqueValues (map opaqueEntryId (filter dangerous (normalizedEntries al)))"
  have mem: "opaqueEntryId e \<in> set ?ids" using assms(2,3) by auto
  then have "?ids \<noteq> []" by (metis empty_iff list.set(1))
  let ?al = "applyMutableIdentifierPolicy al policy"
  let ?kept = "filter (\<lambda>i. i \<notin> set ?ids) (matchedEntryIds al)"
  have eq: "matchedEntryIds ?al = ?kept" "matchIds (match ?al) = ?kept" "matched (match ?al) \<longleftrightarrow> ?kept \<noteq> []"
    "disabledEntries ?al = disabledEntries al @
       map (\<lambda>e. \<lparr>diagEntryId = Some (opaqueEntryId e), diagReason = R_mutable_identifier_disabled\<rparr>)
         (filter dangerous (normalizedEntries al))"
    using assms(1) \<open>?ids \<noteq> []\<close> unfolding applyMutableIdentifierPolicy_def Let_def by simp_all
  have "?kept \<noteq> [] \<longleftrightarrow> (\<exists>i \<in> set (matchedEntryIds al). i \<notin> set ?ids)"
    unfolding filter_empty_conv by blast
  also have "\<dots> \<longleftrightarrow> (\<exists>i \<in> set (matchedEntryIds al).
      \<forall>d \<in> set (normalizedEntries al). dangerous d \<longrightarrow> opaqueEntryId d \<noteq> i)"
    by (rule bex_cong[OF refl]) auto
  finally have some: "?kept \<noteq> [] \<longleftrightarrow> (\<exists>i \<in> set (matchedEntryIds al).
      \<forall>d \<in> set (normalizedEntries al). dangerous d \<longrightarrow> opaqueEntryId d \<noteq> i)" .
  show ?thesis
    unfolding Let_def eq some using mem assms(2,3) by simp
qed

lemma mutable_identifiers_never_match_witness:
  "\<not> matched (match (applyMutableIdentifierPolicy (list_of [name_entry, id_entry] [''e1''] False) strict_policy))"
  using mutable_identifiers_never_match[of strict_policy name_entry "list_of [name_entry, id_entry] [''e1''] False"]
  by (simp add: strict_policy_def list_of_def name_entry_def id_entry_def Let_def)

lemma route_effective_append: "route_effective al (rs @ rs') = route_effective (route_effective al rs) rs'"
  by (induction al rs rule: route_effective.induct)
    (simp_all split: prod.split route_gate_state.split option.split)

text \<open>
  the senders of a group conversation: the last matched route that brings its own sender
  list without inheriting replaces everything before it, the group's list included; the
  matched routes after it only add to its list, and routes that did not match change nothing.
\<close>

theorem last_replacing_route_wins:
  assumes "routeFacts st = rs @ r # rs'"
    and "routeGate r = RgMatched" and "senderAllowlist r = Some al" and "routeSenderPolicy r \<noteq> RspInherit"
    and "\<forall>q \<in> set rs'. routeGate q = RgMatched \<and> senderAllowlist q \<noteq> None \<longrightarrow> routeSenderPolicy q = RspInherit"
  shows "effectiveGroupSenderAllowlist st policy =
     applyMutableIdentifierPolicy
       (fold (\<lambda>a b. mergeResolvedAllowlists [b, a])
          (map (the \<circ> senderAllowlist)
             (filter (\<lambda>q. routeGate q = RgMatched \<and> senderAllowlist q \<noteq> None) rs')) al) policy"
proof -
  have inherit: "route_effective b rs' =
      fold (\<lambda>a b. mergeResolvedAllowlists [b, a])
        (map (the \<circ> senderAllowlist) (filter (\<lambda>q. routeGate q = RgMatched \<and> senderAllowlist q \<noteq> None) rs')) b"
    for b
    using assms(5)
  proof (induction rs' arbitrary: b)
    case (Cons q qs)
    then show ?case
      by (cases "routeGate q"; cases "senderAllowlist q") auto
  qed simp
  have "route_effective base (rs @ r # rs') = route_effective al rs'" for base
    using assms(2-4) by (simp add: route_effective_append)
  then show ?thesis
    by (simp add: effectiveGroupSenderAllowlist_def Let_def assms(1) inherit)
qed

lemma last_replacing_route_wins_witness:
  "matchedEntryIds (effectiveGroupSenderAllowlist group_message strict_policy) = [''e2'']"
  using last_replacing_route_wins[of group_message "[]" owner_route "[]" "list_of [id_entry] [''e2''] False" strict_policy]
  by (simp add: group_message_def owner_route_def list_of_def strict_policy_def id_entry_def
      applyMutableIdentifierPolicy_def Let_def uniqueValues_def)



end
