(* ===== verification/Ingress_State.thy ===== *)
theory Ingress_State
  imports Ingress_Access
begin

text \<open>
  How the raw configuration of a channel becomes the state the gates read:
  \<open>src/channels/allow-from.ts\<close> (access group references) and, under
  \<open>src/channels/message-access/\<close>, \<open>state.ts\<close>, \<open>runtime-identity.ts\<close> (the adapter built from a
  channel's identity descriptor) and \<open>runtime-access-groups.ts\<close>.

  Numbers in an allowlist are given in their string form. A normaliser that returns null or
  undefined is \<open>None\<close>. Promises are the values they resolve to; a callback that throws is \<open>None\<close>.
  A record keyed by names is a \<open>jmap\<close>; the model looks up own keys only.
\<close>

section \<open>References to access groups\<close>

definition normalizeStringEntries :: "string list \<Rightarrow> string list" where
  "normalizeStringEntries entries =
     filter (\<lambda>e. e \<noteq> []) (map (\<lambda>e. js_nullish (normalizeOptionalString (Some e)) []) entries)"

definition ACCESS_GROUP_ALLOW_FROM_PREFIX :: string where
  "ACCESS_GROUP_ALLOW_FROM_PREFIX = ''accessGroup:''"

definition parseAccessGroupAllowFromEntry :: "string \<Rightarrow> string option" where
  "parseAccessGroupAllowFromEntry entry =
     (let trimmed = js_trim entry
      in if \<not> js_starts_with trimmed ACCESS_GROUP_ALLOW_FROM_PREFIX then None
         else let name = js_trim (drop (length ACCESS_GROUP_ALLOW_FROM_PREFIX) trimmed)
              in if name \<noteq> [] then Some name else None)"

definition mergeDmAllowFromSources :: "string list option \<Rightarrow> string list option \<Rightarrow> string option \<Rightarrow> string list" where
  "mergeDmAllowFromSources allowFrom storeAllowFrom policy =
     (let store = (if policy = Some ''allowlist'' \<or> policy = Some ''open'' then [] else js_nullish storeAllowFrom [])
      in normalizeStringEntries (js_nullish allowFrom [] @ store))"

definition resolveGroupAllowFromSources ::
  "string list option \<Rightarrow> string list option \<Rightarrow> bool option \<Rightarrow> string list" where
  "resolveGroupAllowFromSources allowFrom groupAllowFrom fallback =
     (let scoped = (case groupAllowFrom of
          Some (x # xs) \<Rightarrow> x # xs
        | _ \<Rightarrow> if fallback = Some False then [] else js_nullish allowFrom [])
      in normalizeStringEntries scoped)"

definition isSenderIdAllowed :: "string list \<Rightarrow> bool \<Rightarrow> bool \<Rightarrow> string option \<Rightarrow> bool \<Rightarrow> bool" where
  "isSenderIdAllowed entries wildcard hasEntries senderId allowWhenEmpty =
     (if \<not> hasEntries then allowWhenEmpty
      else if wildcard then True
      else case senderId of None \<Rightarrow> False
           | Some s \<Rightarrow> if s = [] then False else List.member entries s)"

section \<open>The input of the resolver\<close>

datatype access_group_config =
    DiscordChannelAudience string string
  | MessageSenders "(string, string list) jmap"

record state_input =
  inChannelId :: string
  inAccountId :: string
  inSubject :: ingress_subject
  inConversationKind :: conversation_kind
  inAdapter :: adapter
  inAccessGroups :: "(string, access_group_config) jmap"
  inMembership :: "membership_fact list"
  inRouteFacts :: "route_facts list"
  inMentionFacts :: "mention_facts option"
  inEventKind :: event_kind
  inAuthMode :: auth_mode
  inMayPair :: bool
  inOriginSubject :: "ingress_subject option"
  inDm :: "string list option"
  inGroup :: "string list option"
  inCommandOwner :: "string list option"
  inCommandGroup :: "string list option"
  inPairingStore :: "string list option"

section \<open>Matching a list of entries\<close>

definition redactedEntries :: "internal_entry list \<Rightarrow> normalized_entry list" where
  "redactedEntries entries = map normalized_entry.truncate entries"

definition emptyMatch :: ingress_match where
  "emptyMatch = \<lparr>matched = False, matchIds = []\<rparr>"

definition mergeMatches :: "ingress_match list \<Rightarrow> ingress_match" where
  "mergeMatches ms =
     (let ids = uniqueValues (concat (map matchIds ms))
      in \<lparr>matched = list_ex matched ms \<or> ids \<noteq> [], matchIds = ids\<rparr>)"

text \<open>A later fact about the same group replaces an earlier one.\<close>

definition accessGroupFactByName :: "membership_fact list \<Rightarrow> (string, membership_fact) jmap" where
  "accessGroupFactByName facts = foldl (\<lambda>m f. jm_set (factGroup f) f m) [] facts"

record matched_entries =
  meNormalized :: "normalized_entry list"
  meInvalid :: "entry_diagnostic list"
  meDisabled :: "entry_diagnostic list"
  meMatch :: ingress_match

definition normalizeAndMatch ::
  "adapter \<Rightarrow> ingress_subject \<Rightarrow> string \<Rightarrow> string list \<Rightarrow> match_context \<Rightarrow> matched_entries" where
  "normalizeAndMatch ad subject account entries ctx =
     (if entries = []
      then \<lparr>meNormalized = [], meInvalid = [], meDisabled = [], meMatch = emptyMatch\<rparr>
      else let normalized = normalizeEntries ad entries ctx account;
               m = (if matchable normalized \<noteq> [] then matchSubject ad subject (matchable normalized) ctx
                    else emptyMatch)
           in \<lparr>meNormalized = redactedEntries (matchable normalized), meInvalid = invalid normalized,
               meDisabled = disabled normalized, meMatch = m\<rparr>)"

definition referencedAccessGroups :: "string list \<Rightarrow> string list" where
  "referencedAccessGroups entries = uniqueValues (List.map_filter parseAccessGroupAllowFromEntry entries)"

definition directAllowlistEntries :: "string list \<Rightarrow> string list" where
  "directAllowlistEntries entries = filter (\<lambda>e. parseAccessGroupAllowFromEntry e = None) entries"

definition groupSenderEntries :: "string \<Rightarrow> state_input \<Rightarrow> string list" where
  "groupSenderEntries name input =
     (case jm_get (inAccessGroups input) name of
        Some (MessageSenders members) \<Rightarrow>
          normalizeStringEntries
            (js_nullish (jm_get members ''*'') [] @ js_nullish (jm_get members (inChannelId input)) [])
      | _ \<Rightarrow> [])"

section \<open>Origin subjects\<close>

definition eventSubjectMatchContext :: "state_input \<Rightarrow> match_context" where
  "eventSubjectMatchContext input = (if inConversationKind input = ConvDirect then CtxDm else CtxGroup)"

definition identifier_entries :: "state_input \<Rightarrow> match_context \<Rightarrow> string \<Rightarrow> nat \<Rightarrow> match_material \<Rightarrow> internal_entry list"
where
  "identifier_entries input ctx pfx index ident =
     (let entries = matchable (normalizeEntries (inAdapter input) [mmValue ident] ctx (inAccountId input));
          kept = filter (\<lambda>e. entryKind e = mmKind ident \<and> entryValue e \<noteq> ''*'') entries
      in map (\<lambda>(j, e). e\<lparr>opaqueEntryId := pfx @ ''-'' @ js_digits (index + 1) @ '':'' @ js_digits (j + 1)\<rparr>)
           (zip [0..<length kept] kept))"

definition normalizeSubjectIdentifiersForMatch ::
  "state_input \<Rightarrow> ingress_subject \<Rightarrow> match_context \<Rightarrow> string \<Rightarrow> internal_entry list" where
  "normalizeSubjectIdentifiersForMatch input subject ctx pfx =
     concat (map (\<lambda>(i, ident). identifier_entries input ctx pfx i ident)
       (zip [0..<length subject] subject))"

definition originSubjectMatchedIn :: "state_input \<Rightarrow> bool" where
  "originSubjectMatchedIn input =
     (case inOriginSubject input of
        None \<Rightarrow> False
      | Some origin \<Rightarrow>
          if list_ex (\<lambda>ident. list_ex (\<lambda>cur. mmKind cur = mmKind ident \<and> mmValue cur = mmValue ident)
                        (inSubject input)) origin
          then True
          else let ctx = eventSubjectMatchContext input;
                   originEntries = normalizeSubjectIdentifiersForMatch input origin ctx ''origin''
               in if originEntries \<noteq> [] \<and>
                     matched (matchSubject (inAdapter input) (inSubject input) originEntries ctx)
                  then True
                  else let currentEntries = normalizeSubjectIdentifiersForMatch input (inSubject input) ctx ''current''
                       in if currentEntries = [] then False
                          else matched (matchSubject (inAdapter input) origin currentEntries ctx))"

section \<open>Resolving an allowlist\<close>

record group_entries =
  geNormalized :: "normalized_entry list"
  geInvalid :: "entry_diagnostic list"
  geDisabled :: "entry_diagnostic list"
  geMatches :: "ingress_match list"
  geAccessGroups :: access_groups

text \<open>One iteration of the loop of \<open>resolveAccessGroupEntries\<close>.\<close>

definition group_step ::
  "state_input \<Rightarrow> match_context \<Rightarrow> (string, membership_fact) jmap \<Rightarrow> string \<Rightarrow> group_entries \<Rightarrow> group_entries"
where
  "group_step input ctx facts name acc =
     (let ag = geAccessGroups acc;
          put = (\<lambda>g. acc\<lparr>geAccessGroups := g\<rparr>);
          unsupported = put (ag\<lparr>agUnsupported := agUnsupported ag @ [name]\<rparr>);
          missing = put (ag\<lparr>agMissing := agMissing ag @ [name]\<rparr>)
      in case map_option factKind (jm_get facts name) of
           Some (MMatched ids) \<Rightarrow>
             acc\<lparr>geAccessGroups := ag\<lparr>agMatched := agMatched ag @ [name]\<rparr>,
                 geMatches := geMatches acc @ [\<lparr>matched = True, matchIds = ids\<rparr>]\<rparr>
         | Some MMissing \<Rightarrow> missing
         | Some MUnsupported \<Rightarrow> unsupported
         | Some MFailed \<Rightarrow> put (ag\<lparr>agFailed := agFailed ag @ [name]\<rparr>)
         | Some MNotMatched \<Rightarrow> acc
         | None \<Rightarrow>
             (case jm_get (inAccessGroups input) name of
                None \<Rightarrow> missing
              | Some (DiscordChannelAudience g c) \<Rightarrow> unsupported
              | Some (MessageSenders ms) \<Rightarrow>
                  (let resolved = normalizeAndMatch (inAdapter input) (inSubject input) (inAccountId input)
                         (groupSenderEntries name input) ctx;
                       acc' = acc\<lparr>geNormalized := geNormalized acc @ meNormalized resolved,
                                  geInvalid := geInvalid acc @ meInvalid resolved,
                                  geDisabled := geDisabled acc @ meDisabled resolved\<rparr>
                   in if matched (meMatch resolved)
                      then acc'\<lparr>geAccessGroups := ag\<lparr>agMatched := agMatched ag @ [name]\<rparr>,
                                geMatches := geMatches acc @ [meMatch resolved]\<rparr>
                      else acc')))"

definition resolveAccessGroupEntries :: "state_input \<Rightarrow> match_context \<Rightarrow> string list \<Rightarrow> group_entries" where
  "resolveAccessGroupEntries input ctx referenced =
     fold (group_step input ctx (accessGroupFactByName (inMembership input))) referenced
       \<lparr>geNormalized = [], geInvalid = [], geDisabled = [], geMatches = [],
        geAccessGroups = \<lparr>agReferenced = referenced, agMatched = [], agMissing = [],
                          agUnsupported = [], agFailed = []\<rparr>\<rparr>"

definition resolveIngressAllowlist :: "state_input \<Rightarrow> string list option \<Rightarrow> match_context \<Rightarrow> allowlist" where
  "resolveIngressAllowlist input rawEntries ctx =
     (let entries = normalizeStringEntries (js_nullish rawEntries []);
          directEntries = directAllowlistEntries entries;
          direct = normalizeAndMatch (inAdapter input) (inSubject input) (inAccountId input) directEntries ctx;
          groups = resolveAccessGroupEntries input ctx (referencedAccessGroups entries);
          m = mergeMatches (meMatch direct # geMatches groups)
      in \<lparr>rawEntryCount = length entries,
          normalizedEntries = meNormalized direct @ geNormalized groups,
          invalidEntries = meInvalid direct @ geInvalid groups,
          disabledEntries = meDisabled direct @ geDisabled groups,
          matchedEntryIds = matchIds m,
          hasConfiguredEntries = entries \<noteq> [],
          hasMatchableEntries = meNormalized direct \<noteq> [] \<or> geNormalized groups \<noteq> [],
          hasWildcard = List.member directEntries ''*'',
          accessGroups = geAccessGroups groups,
          match = m\<rparr>)"

text \<open>\<open>le\<close> stands for \<open>localeCompare\<close>, which depends on the host's locale data.\<close>

definition route_before :: "(string \<Rightarrow> string \<Rightarrow> bool) \<Rightarrow> route_facts \<Rightarrow> route_facts \<Rightarrow> bool" where
  "route_before le a b \<longleftrightarrow>
     routePrecedence a < routePrecedence b \<or>
     (routePrecedence a = routePrecedence b \<and> le (routeId a) (routeId b))"

definition resolve_route :: "state_input \<Rightarrow> route_facts \<Rightarrow> resolved_route" where
  "resolve_route input route =
     (let senderAllowFrom =
            (case routeSenderAllowFrom route of
               Some entries \<Rightarrow> Some entries
             | None \<Rightarrow>
                 (case routeSenderSource route of
                    Some EffectiveDm \<Rightarrow> inDm input
                  | Some EffectiveGroup \<Rightarrow> inGroup input
                  | None \<Rightarrow> None))
      in \<lparr>routeId = routeId route, routeKind = routeKind route, routeGate = routeGate route,
          routeEffect = routeEffect route, routePrecedence = routePrecedence route,
          routeSenderPolicy = routeSenderPolicy route, routeMatch = routeMatch route,
          senderAllowlist =
            (case senderAllowFrom of None \<Rightarrow> None
             | Some entries \<Rightarrow> Some (resolveIngressAllowlist input (Some entries) CtxRoute))\<rparr>)"

definition resolveRouteFacts :: "(string \<Rightarrow> string \<Rightarrow> bool) \<Rightarrow> state_input \<Rightarrow> resolved_route list" where
  "resolveRouteFacts le input = map (resolve_route input) (js_sort (route_before le) (inRouteFacts input))"

definition resolveChannelIngressState :: "(string \<Rightarrow> string \<Rightarrow> bool) \<Rightarrow> state_input \<Rightarrow> ingress_state" where
  "resolveChannelIngressState le input =
     \<lparr>channelId = inChannelId input, accountId = inAccountId input,
      conversationKind = inConversationKind input,
      event = \<lparr>evKind = inEventKind input, authMode = inAuthMode input, mayPair = inMayPair input,
               hasOriginSubject = inOriginSubject input \<noteq> None,
               originSubjectMatched = originSubjectMatchedIn input\<rparr>,
      mentionFacts = inMentionFacts input,
      routeFacts = resolveRouteFacts le input,
      allowlists =
        \<lparr>alDm = resolveIngressAllowlist input (inDm input) CtxDm,
         alPairingStore = resolveIngressAllowlist input (inPairingStore input) CtxDm,
         alGroup = resolveIngressAllowlist input (inGroup input) CtxGroup,
         alCommandOwner = resolveIngressAllowlist input (inCommandOwner input) CtxCommand,
         alCommandGroup = resolveIngressAllowlist input (inCommandGroup input) CtxCommand\<rparr>\<rparr>"

section \<open>Channel identities\<close>

text \<open>
  A field of an identity descriptor. A normaliser is a function to an optional string; the
  danger of an identifier is a constant or depends on its value, in both cases a function here.
\<close>

record identity_field =
  fieldKey :: string
  fieldKind :: identifier_kind
  fieldNormalize :: "(string \<Rightarrow> string option) option"
  fieldNormalizeEntry :: "(string \<Rightarrow> string option) option"
  fieldNormalizeSubject :: "(string \<Rightarrow> string option) option"
  fieldDangerousFn :: "string \<Rightarrow> bool"
  fieldSensitivity :: "sensitivity option"

record identity_input_field =
  keyOpt :: "string option"
  kindOpt :: "identifier_kind option"
  restOf :: identity_field

record identity_descriptor =
  idPrimary :: identity_input_field
  idAliases :: "identity_input_field list"
  idIsWildcard :: "(string \<Rightarrow> bool) option"
  idMatchEntry :: "(ingress_subject \<Rightarrow> internal_entry \<Rightarrow> match_context \<Rightarrow> bool option) option"
  idResolveEntryId :: "(string \<Rightarrow> nat \<Rightarrow> string \<Rightarrow> nat \<Rightarrow> string) option"

definition defineStableChannelIngressIdentity ::
  "identity_descriptor \<Rightarrow> string option \<Rightarrow> identity_descriptor" where
  "defineStableChannelIngressIdentity base entryIdPrefix =
     base\<lparr>idResolveEntryId :=
       (case idResolveEntryId base of
          Some f \<Rightarrow> Some f
        | None \<Rightarrow>
            (case entryIdPrefix of
               None \<Rightarrow> None
             | Some p \<Rightarrow> if p = [] then None
                         else Some (\<lambda>entry i key j. p @ ''-'' @ js_digits (i + 1))))\<rparr>"

datatype field_mode = EntryMode | SubjectMode

definition normalizeFieldValue :: "identity_field \<Rightarrow> string \<Rightarrow> field_mode \<Rightarrow> string option" where
  "normalizeFieldValue field v mode =
     (let own = (case mode of EntryMode \<Rightarrow> fieldNormalizeEntry field | SubjectMode \<Rightarrow> fieldNormalizeSubject field);
          norm = (case own of Some f \<Rightarrow> f | None \<Rightarrow> js_nullish (fieldNormalize field) Some)
      in case norm v of None \<Rightarrow> None
         | Some s \<Rightarrow> (let t = js_trim s in if t = [] then None else Some t))"

definition identityFields :: "identity_descriptor \<Rightarrow> identity_field list" where
  "identityFields ident =
     (restOf (idPrimary ident))
       \<lparr>fieldKey := js_nullish (keyOpt (idPrimary ident)) ''stableId'',
        fieldKind := js_nullish (kindOpt (idPrimary ident)) KStableId\<rparr> #
     map (\<lambda>a. (restOf a)
            \<lparr>fieldKey := js_nullish (keyOpt a) [],
             fieldKind := js_nullish (kindOpt a) (KPlugin (js_nullish (keyOpt a) []))\<rparr>)
       (idAliases ident)"

fun kind_name :: "identifier_kind \<Rightarrow> string" where
  "kind_name KStableId = ''stable-id''"
| "kind_name KUsername = ''username''"
| "kind_name KEmail = ''email''"
| "kind_name KPhone = ''phone''"
| "kind_name KRole = ''role''"
| "kind_name (KPlugin k) = ''plugin:'' @ k"

definition identityMatchKey :: "identifier_kind \<Rightarrow> string \<Rightarrow> string" where
  "identityMatchKey kind v = kind_name kind @ '':'' @ v"

definition adapterEntry ::
  "identity_descriptor \<Rightarrow> identity_field \<Rightarrow> nat \<Rightarrow> string \<Rightarrow> nat \<Rightarrow> string \<Rightarrow> string option \<Rightarrow> internal_entry" where
  "adapterEntry ident field fieldIndex entry entryIndex v fallbackSuffix =
     \<lparr>opaqueEntryId =
        (case idResolveEntryId ident of
           Some f \<Rightarrow> f entry entryIndex (fieldKey field) fieldIndex
         | None \<Rightarrow> ''entry-'' @ js_digits (entryIndex + 1) @ '':'' @ js_nullish fallbackSuffix (fieldKey field)),
      entryKind = fieldKind field, dangerous = fieldDangerousFn field entry,
      sensitivity = fieldSensitivity field, entryValue = v\<rparr>"

definition is_wildcard_entry :: "identity_descriptor \<Rightarrow> string \<Rightarrow> bool" where
  "is_wildcard_entry ident v = (js_nullish (idIsWildcard ident) (\<lambda>s. s = ''*'')) v"

definition entry_materials :: "identity_descriptor \<Rightarrow> nat \<Rightarrow> string \<Rightarrow> internal_entry list" where
  "entry_materials ident entryIndex entry =
     (let fields = identityFields ident
      in if is_wildcard_entry ident entry
         then [adapterEntry ident (hd fields) 0 entry entryIndex ''*'' (Some ''wildcard'')]
         else List.map_filter
                (\<lambda>(j, field). map_option (\<lambda>v. adapterEntry ident field j entry entryIndex v None)
                                (normalizeFieldValue field entry EntryMode))
                (zip [0..<length fields] fields))"

definition subject_keys :: "identity_descriptor \<Rightarrow> ingress_subject \<Rightarrow> string list" where
  "subject_keys ident subject =
     List.map_filter
       (\<lambda>i. case find (\<lambda>f. fieldKind f = mmKind i) (identityFields ident) of
              None \<Rightarrow> None
            | Some field \<Rightarrow>
                map_option (identityMatchKey (mmKind i)) (normalizeFieldValue field (mmValue i) SubjectMode))
       subject"

definition entry_matches ::
  "identity_descriptor \<Rightarrow> ingress_subject \<Rightarrow> match_context \<Rightarrow> internal_entry \<Rightarrow> bool" where
  "entry_matches ident subject ctx entry =
     (let fallback = (entryValue entry = ''*'' \<or>
            List.member (subject_keys ident subject) (identityMatchKey (entryKind entry) (entryValue entry)))
      in js_nullish (Option.bind (idMatchEntry ident) (\<lambda>f. f subject entry ctx)) fallback)"

definition createIdentityAdapter :: "identity_descriptor \<Rightarrow> adapter" where
  "createIdentityAdapter ident =
     \<lparr>normalizeEntries = (\<lambda>entries ctx account.
        \<lparr>matchable = concat (map (\<lambda>(i, e). entry_materials ident i e) (zip [0..<length entries] entries)),
         invalid = [], disabled = []\<rparr>),
      matchSubject = (\<lambda>subject entries ctx.
        (let ids = map opaqueEntryId (filter (entry_matches ident subject ctx) entries)
         in \<lparr>matched = ids \<noteq> [], matchIds = ids\<rparr>))\<rparr>"

text \<open>The raw values of an inbound sender: the stable id, and the aliases by field key.\<close>

definition createIdentitySubject ::
  "identity_descriptor \<Rightarrow> string option \<Rightarrow> (string, string) jmap \<Rightarrow> ingress_subject" where
  "createIdentitySubject ident stableId aliases =
     (let fields = identityFields ident
      in List.map_filter
           (\<lambda>(j, field).
              map_option (\<lambda>raw. \<lparr>mmOpaqueId = fieldKey field, mmKind = fieldKind field, mmValue = raw,
                                 mmDangerous = fieldDangerousFn field raw,
                                 mmSensitivity = fieldSensitivity field\<rparr>)
                (if j = 0 then stableId else jm_get aliases (fieldKey field)))
           (zip [0..<length fields] fields))"

section \<open>Runtime access groups\<close>

definition accessGroupNames :: "string list \<Rightarrow> string list" where
  "accessGroupNames entries = uniqueValues (List.map_filter parseAccessGroupAllowFromEntry entries)"

definition allReferencedAccessGroupNames :: "string list list \<Rightarrow> string list" where
  "allReferencedAccessGroupNames entryGroups = uniqueValues (concat (map accessGroupNames entryGroups))"

definition normalizeEffectiveEntries ::
  "adapter \<Rightarrow> string \<Rightarrow> string list \<Rightarrow> match_context \<Rightarrow> string list" where
  "normalizeEffectiveEntries ad account entries ctx =
     (let raw = normalizeStringEntries entries;
          groupEntries = filter (\<lambda>e. parseAccessGroupAllowFromEntry e \<noteq> None) raw;
          directEntries = filter (\<lambda>e. parseAccessGroupAllowFromEntry e = None) raw
      in if directEntries = [] then groupEntries
         else uniqueValues (groupEntries @
                map entryValue (matchable (normalizeEntries ad directEntries ctx account))))"

text \<open>\<open>resolve\<close> is the channel's lookup of a dynamic group; \<open>None\<close> when it throws.\<close>

definition resolveRuntimeAccessGroupMembershipFacts ::
  "(string \<Rightarrow> access_group_config \<Rightarrow> bool option) option \<Rightarrow> (string, access_group_config) jmap \<Rightarrow>
   string list \<Rightarrow> membership_fact list" where
  "resolveRuntimeAccessGroupMembershipFacts resolve groups names =
     (case resolve of
        None \<Rightarrow> []
      | Some f \<Rightarrow>
          List.map_filter
            (\<lambda>name.
               case jm_get groups name of
                 None \<Rightarrow> None
               | Some (MessageSenders ms) \<Rightarrow> None
               | Some config \<Rightarrow>
                   Some \<lparr>factGroup = name,
                         factKind = (case f name config of
                            Some True \<Rightarrow> MMatched [''access-group:'' @ name]
                          | Some False \<Rightarrow> MNotMatched
                          | None \<Rightarrow> MFailed)\<rparr>)
            names)"

end
