(* ===== verification/Ingress_State_Props.thy ===== *)
theory Ingress_State_Props
  imports Ingress_State Ingress_Props
begin

text \<open>
  What the resolution of the ingress state guarantees: access groups fail closed, an allowlist
  matches only through the adapter or a confirmed group, matched identities really agree on a
  kind and a value, and an origin subject is never matched by a wildcard.
\<close>

section \<open>Access groups\<close>

datatype group_class = GMatched "string list" | GUnmatched | GMissing | GUnsupported | GFailed

definition group_entries_of :: "state_input \<Rightarrow> match_context \<Rightarrow> string \<Rightarrow> matched_entries" where
  "group_entries_of input ctx name =
     normalizeAndMatch (inAdapter input) (inSubject input) (inAccountId input) (groupSenderEntries name input) ctx"

text \<open>What a reference to a group amounts to: a fact decides, else the configuration.\<close>

definition classify :: "state_input \<Rightarrow> match_context \<Rightarrow> string \<Rightarrow> group_class" where
  "classify input ctx name =
     (case map_option factKind (jm_get (accessGroupFactByName (inMembership input)) name) of
        Some (MMatched ids) \<Rightarrow> GMatched ids
      | Some MMissing \<Rightarrow> GMissing
      | Some MUnsupported \<Rightarrow> GUnsupported
      | Some MFailed \<Rightarrow> GFailed
      | Some MNotMatched \<Rightarrow> GUnmatched
      | None \<Rightarrow>
          (case jm_get (inAccessGroups input) name of
             None \<Rightarrow> GMissing
           | Some (DiscordChannelAudience g c) \<Rightarrow> GUnsupported
           | Some (MessageSenders ms) \<Rightarrow>
               if matched (meMatch (group_entries_of input ctx name))
               then GMatched (matchIds (meMatch (group_entries_of input ctx name))) else GUnmatched))"

fun is_matched :: "group_class \<Rightarrow> bool" where
  "is_matched (GMatched ids) = True"
| "is_matched _ = False"

fun class_ids :: "group_class \<Rightarrow> string list" where
  "class_ids (GMatched ids) = ids"
| "class_ids _ = []"

lemma group_step_class:
  fixes input ctx
  defines "facts \<equiv> accessGroupFactByName (inMembership input)"
  shows "geMatches (group_step input ctx facts name acc) = geMatches acc @
      (if is_matched (classify input ctx name)
       then [\<lparr>matched = True, matchIds = class_ids (classify input ctx name)\<rparr>] else [])"
    and "agMatched (geAccessGroups (group_step input ctx facts name acc)) =
      agMatched (geAccessGroups acc) @ (if is_matched (classify input ctx name) then [name] else [])"
    and "agMissing (geAccessGroups (group_step input ctx facts name acc)) =
      agMissing (geAccessGroups acc) @ (if classify input ctx name = GMissing then [name] else [])"
    and "agUnsupported (geAccessGroups (group_step input ctx facts name acc)) =
      agUnsupported (geAccessGroups acc) @ (if classify input ctx name = GUnsupported then [name] else [])"
    and "agFailed (geAccessGroups (group_step input ctx facts name acc)) =
      agFailed (geAccessGroups acc) @ (if classify input ctx name = GFailed then [name] else [])"
    and "agReferenced (geAccessGroups (group_step input ctx facts name acc)) = agReferenced (geAccessGroups acc)"
  unfolding facts_def group_step_def classify_def Let_def group_entries_of_def
  by (simp_all split: option.split membership_kind.split access_group_config.split)

lemma group_fold_class:
  fixes input ctx
  defines "facts \<equiv> accessGroupFactByName (inMembership input)"
  shows "geMatches (fold (group_step input ctx facts) names acc) = geMatches acc @
      map (\<lambda>n. \<lparr>matched = True, matchIds = class_ids (classify input ctx n)\<rparr>)
        (filter (\<lambda>n. is_matched (classify input ctx n)) names)"
    and "agMatched (geAccessGroups (fold (group_step input ctx facts) names acc)) =
      agMatched (geAccessGroups acc) @ filter (\<lambda>n. is_matched (classify input ctx n)) names"
    and "agMissing (geAccessGroups (fold (group_step input ctx facts) names acc)) =
      agMissing (geAccessGroups acc) @ filter (\<lambda>n. classify input ctx n = GMissing) names"
    and "agUnsupported (geAccessGroups (fold (group_step input ctx facts) names acc)) =
      agUnsupported (geAccessGroups acc) @ filter (\<lambda>n. classify input ctx n = GUnsupported) names"
    and "agFailed (geAccessGroups (fold (group_step input ctx facts) names acc)) =
      agFailed (geAccessGroups acc) @ filter (\<lambda>n. classify input ctx n = GFailed) names"
    and "agReferenced (geAccessGroups (fold (group_step input ctx facts) names acc)) = agReferenced (geAccessGroups acc)"
  unfolding facts_def by (induction names arbitrary: acc) (simp_all add: group_step_class)

text \<open>
  every referenced access group is accounted for once: the lists of matched, missing,
  unsupported and failed groups are the referenced ones of that class, in order, so a group
  that could not be checked is reported and is never counted as matched.
\<close>

theorem access_groups_accounted:
  "geAccessGroups (resolveAccessGroupEntries input ctx names) =
     \<lparr>agReferenced = names,
      agMatched = filter (\<lambda>n. is_matched (classify input ctx n)) names,
      agMissing = filter (\<lambda>n. classify input ctx n = GMissing) names,
      agUnsupported = filter (\<lambda>n. classify input ctx n = GUnsupported) names,
      agFailed = filter (\<lambda>n. classify input ctx n = GFailed) names\<rparr>"
  by (rule access_groups.equality) (simp_all add: resolveAccessGroupEntries_def group_fold_class)

lemma list_ex_matched_groups:
  "list_ex matched (map (\<lambda>n. \<lparr>matched = True, matchIds = f n\<rparr>) ns) \<longleftrightarrow> ns \<noteq> []"
  by (induction ns) auto

text \<open>
  C8: access groups fail closed: an allowlist matches exactly when the adapter matched one of its
  direct entries or one of its referenced groups is matched, by a membership fact or by the
  adapter on the group's configured senders. A missing, unsupported or failed group never
  contributes.
\<close>

theorem allowlist_match_sources:
  "matched (match (resolveIngressAllowlist input raw ctx)) \<longleftrightarrow>
     (let entries = normalizeStringEntries (js_nullish raw []);
          direct = meMatch (normalizeAndMatch (inAdapter input) (inSubject input) (inAccountId input)
                     (directAllowlistEntries entries) ctx)
      in matched direct \<or> 0 < length (matchIds direct) \<or>
         (\<exists>name \<in> set (referencedAccessGroups entries). is_matched (classify input ctx name)))"
proof -
  have ids: "uniqueValues xs \<noteq> [] \<longleftrightarrow> xs \<noteq> []" for xs :: "string list" by simp
  show ?thesis
    unfolding resolveIngressAllowlist_def Let_def mergeMatches_def resolveAccessGroupEntries_def
    by (auto simp: group_fold_class list_ex_matched_groups filter_empty_conv)
qed

section \<open>Identity keys\<close>

definition kind_ok :: "identifier_kind \<Rightarrow> bool" where
  "kind_ok k \<longleftrightarrow> (case k of KPlugin s \<Rightarrow> CHR '':'' \<notin> set s | _ \<Rightarrow> True)"

lemma colon_split:
  assumes "a @ CHR '':'' # v = b @ CHR '':'' # w" "CHR '':'' \<notin> set a" "CHR '':'' \<notin> set b"
  shows "a = b \<and> v = w"
  using assms
proof (induction a arbitrary: b)
  case Nil
  then show ?case by (cases b) auto
next
  case (Cons x a)
  then show ?case by (cases b) auto
qed

lemma identity_key_inj:
  assumes "kind_ok k" "kind_ok k'" "identityMatchKey k v = identityMatchKey k' v'"
  shows "k = k' \<and> v = v'"
proof (cases "\<exists>p. k = KPlugin p"; cases "\<exists>q. k' = KPlugin q")
  assume "\<exists>p. k = KPlugin p" "\<exists>q. k' = KPlugin q"
  then obtain p q where pq: "k = KPlugin p" "k' = KPlugin q" by blast
  then have "p @ CHR '':'' # v = q @ CHR '':'' # v'" using assms(3) by (simp add: identityMatchKey_def)
  then show ?thesis using colon_split[of p v q v'] assms(1,2) pq by (simp add: kind_ok_def)
next
  assume n: "\<exists>p. k = KPlugin p" "\<not> (\<exists>q. k' = KPlugin q)"
  then show ?thesis using assms(3) by (cases k') (auto simp: identityMatchKey_def)
next
  assume n: "\<not> (\<exists>p. k = KPlugin p)" "\<exists>q. k' = KPlugin q"
  then show ?thesis using assms(3) by (cases k) (auto simp: identityMatchKey_def)
next
  assume n: "\<not> (\<exists>p. k = KPlugin p)" "\<not> (\<exists>q. k' = KPlugin q)"
  then show ?thesis using assms(3) by (cases k; cases k') (auto simp: identityMatchKey_def)
qed

section \<open>Origin subjects\<close>

definition keys_ok :: "identity_descriptor \<Rightarrow> bool" where
  "keys_ok ident \<longleftrightarrow> (\<forall>f \<in> set (identityFields ident). kind_ok (fieldKind f))"

text \<open>Two identifiers of one kind whose values agree, as they are or normalised as an entry and a subject.\<close>

definition agree :: "identity_descriptor \<Rightarrow> match_material \<Rightarrow> match_material \<Rightarrow> bool" where
  "agree ident a b \<longleftrightarrow>
     mmKind a = mmKind b \<and>
     (mmValue a = mmValue b \<or>
      (\<exists>f \<in> set (identityFields ident). \<exists>g \<in> set (identityFields ident). \<exists>v.
         fieldKind f = mmKind a \<and> fieldKind g = mmKind a \<and>
         normalizeFieldValue f (mmValue a) EntryMode = Some v \<and>
         normalizeFieldValue g (mmValue b) SubjectMode = Some v))"

lemma in_map_filter: "y \<in> set (List.map_filter f xs) \<longleftrightarrow> (\<exists>x \<in> set xs. f x = Some y)"
  by (auto simp: List.map_filter_def) force

lemma zip_index_snd: "(j, x) \<in> set (zip [0..<length xs] xs) \<Longrightarrow> x \<in> set xs"
  by (auto dest: set_zip_rightD)

lemma entry_materials_field:
  assumes "e \<in> set (entry_materials ident i raw)" "entryValue e \<noteq> ''*''"
  shows "\<exists>f \<in> set (identityFields ident). entryKind e = fieldKind f \<and>
           normalizeFieldValue f raw EntryMode = Some (entryValue e)"
proof (cases "is_wildcard_entry ident raw")
  case True
  then show ?thesis using assms by (simp add: entry_materials_def Let_def adapterEntry_def)
next
  case False
  then obtain j f v where "(j, f) \<in> set (zip [0..<length (identityFields ident)] (identityFields ident))"
    "normalizeFieldValue f raw EntryMode = Some v" "e = adapterEntry ident f j raw i v None"
    using assms(1) by (auto simp: entry_materials_def Let_def in_map_filter)
  then show ?thesis using zip_index_snd by (fastforce simp: adapterEntry_def)
qed

lemma subject_keys_field:
  assumes "key \<in> set (subject_keys ident subject)"
  shows "\<exists>c \<in> set subject. \<exists>g \<in> set (identityFields ident). \<exists>v. fieldKind g = mmKind c \<and>
           normalizeFieldValue g (mmValue c) SubjectMode = Some v \<and> key = identityMatchKey (mmKind c) v"
  using assms
  by (auto simp: subject_keys_def in_map_filter find_Some_iff split: option.splits)
    (metis nth_mem)

lemma zip_index_snd': "p \<in> set (zip [0..<length xs] xs) \<Longrightarrow> snd p \<in> set xs"
  by (cases p) (auto dest: set_zip_rightD)

lemma identity_entries_match:
  assumes ad: "inAdapter input = createIdentityAdapter ident" and ok: "keys_ok ident"
    and plain: "idMatchEntry ident = None"
    and m: "matched (matchSubject (inAdapter input) current
               (normalizeSubjectIdentifiersForMatch input subject ctx pfx) ctx)"
  shows "\<exists>org \<in> set subject. \<exists>c \<in> set current. agree ident org c"
proof -
  obtain e where e: "e \<in> set (normalizeSubjectIdentifiersForMatch input subject ctx pfx)"
    "entry_matches ident current ctx e"
    using m by (auto simp: ad createIdentityAdapter_def Let_def filter_empty_conv)
  then obtain p where p: "p \<in> set (zip [0..<length subject] subject)"
    "e \<in> set (identifier_entries input ctx pfx (fst p) (snd p))"
    by (auto simp: normalizeSubjectIdentifiersForMatch_def)
  let ?o = "snd p"
  obtain b where b: "b \<in> set (entry_materials ident 0 (mmValue ?o))" "entryKind b = mmKind ?o"
    "entryValue b \<noteq> ''*''" "entryKind e = entryKind b" "entryValue e = entryValue b"
    using p(2) by (auto simp: identifier_entries_def Let_def ad createIdentityAdapter_def dest!: zip_index_snd')
  obtain f where f: "f \<in> set (identityFields ident)" "entryKind b = fieldKind f"
    "normalizeFieldValue f (mmValue ?o) EntryMode = Some (entryValue b)"
    using entry_materials_field[OF b(1,3)] by blast
  have "identityMatchKey (entryKind e) (entryValue e) \<in> set (subject_keys ident current)"
    using e(2) b by (simp add: entry_matches_def Let_def plain)
  then obtain c g v where c: "c \<in> set current" "g \<in> set (identityFields ident)" "fieldKind g = mmKind c"
    "normalizeFieldValue g (mmValue c) SubjectMode = Some v"
    "identityMatchKey (entryKind e) (entryValue e) = identityMatchKey (mmKind c) v"
    using subject_keys_field by blast
  have "kind_ok (fieldKind f)" "kind_ok (mmKind c)" using ok f(1) c(2,3) by (auto simp: keys_ok_def)
  then have "fieldKind f = mmKind c \<and> entryValue b = v"
    using c(5) b f(2) by (intro identity_key_inj) auto
  then have "agree ident ?o c" using b f c by (auto simp: agree_def)
  then show ?thesis using zip_index_snd'[OF p(1)] c(1) by blast
qed

text \<open>
  an event that must come from its origin subject is matched only when the origin and the
  sender share an identifier of the same kind and the same value, as given or normalised; a
  wildcard in an identifier never matches. This is for a channel that does not replace the
  comparison of identities by its own.
\<close>

theorem origin_subject_sound:
  assumes "inAdapter input = createIdentityAdapter ident" and "keys_ok ident" and "idMatchEntry ident = None"
    and "originSubjectMatchedIn input"
  shows "\<exists>origin. inOriginSubject input = Some origin \<and>
           (\<exists>org \<in> set origin. \<exists>c \<in> set (inSubject input). agree ident org c \<or> agree ident c org)"
proof -
  obtain origin where origin: "inOriginSubject input = Some origin"
    using assms(4) by (auto simp: originSubjectMatchedIn_def split: option.splits)
  let ?ctx = "eventSubjectMatchContext input"
  note match = identity_entries_match[OF assms(1-3)]
  have "(\<exists>org \<in> set origin. \<exists>c \<in> set (inSubject input). mmKind c = mmKind org \<and> mmValue c = mmValue org) \<or>
      matched (matchSubject (inAdapter input) (inSubject input)
        (normalizeSubjectIdentifiersForMatch input origin ?ctx ''origin'') ?ctx) \<or>
      matched (matchSubject (inAdapter input) origin
        (normalizeSubjectIdentifiersForMatch input (inSubject input) ?ctx ''current'') ?ctx)"
    using assms(4) origin
    by (auto simp: originSubjectMatchedIn_def Let_def list_ex_iff split: if_splits)
  then show ?thesis
    using origin match[of "inSubject input" origin ?ctx "''origin''"]
      match[of origin "inSubject input" ?ctx "''current''"]
    by (auto simp: agree_def) metis+
qed

section \<open>Identity adapters\<close>

lemma zip_index:
  assumes "x \<in> set xs"
  shows "\<exists>j. (j, x) \<in> set (zip [0..<length xs] xs)"
proof -
  obtain i where i: "i < length xs" "x = xs ! i" using assms by (auto simp: in_set_conv_nth)
  then have "zip [0..<length xs] xs ! i = (i, x)" by simp
  then show ?thesis using i(1) by (metis length_map length_upt length_zip map_nth min.idem minus_nat.diff_0 nth_mem)
qed

lemma materials_of:
  assumes "e \<in> set (entry_materials ident i raw)" and "P (entryKind e) (entryValue e)"
  shows "(is_wildcard_entry ident raw \<and> P (fieldKind (hd (identityFields ident))) ''*'') \<or>
   (\<not> is_wildcard_entry ident raw \<and> (\<exists>f \<in> set (identityFields ident). \<exists>v.
      normalizeFieldValue f raw EntryMode = Some v \<and> P (fieldKind f) v))"
proof (cases "is_wildcard_entry ident raw")
  case True
  then show ?thesis using assms by (simp add: entry_materials_def Let_def adapterEntry_def)
next
  case False
  then obtain j f v where "(j, f) \<in> set (zip [0..<length (identityFields ident)] (identityFields ident))"
    "normalizeFieldValue f raw EntryMode = Some v" "e = adapterEntry ident f j raw i v None"
    using assms(1) by (auto simp: entry_materials_def Let_def in_map_filter)
  then show ?thesis using False assms(2) zip_index_snd[of j f] by (auto simp: adapterEntry_def)
qed

lemma materials_exist:
  assumes "\<not> is_wildcard_entry ident raw" "f \<in> set (identityFields ident)"
    "normalizeFieldValue f raw EntryMode = Some v"
  shows "\<exists>e \<in> set (entry_materials ident i raw). entryKind e = fieldKind f \<and> entryValue e = v"
proof -
  obtain j where j: "(j, f) \<in> set (zip [0..<length (identityFields ident)] (identityFields ident))"
    using zip_index[OF assms(2)] by blast
  have "adapterEntry ident f j raw i v None \<in> set (entry_materials ident i raw)"
    using assms j by (auto simp: entry_materials_def Let_def in_map_filter intro!: bexI[of _ "(j, f)"])
  then show ?thesis by (intro bexI) (simp_all add: adapterEntry_def)
qed

lemma wildcard_material:
  "is_wildcard_entry ident raw \<Longrightarrow> \<exists>e \<in> set (entry_materials ident i raw). entryValue e = ''*''"
  by (simp add: entry_materials_def Let_def adapterEntry_def)

text \<open>
  an adapter built from an identity descriptor without its own comparison matches a sender
  exactly when some configured entry is a wildcard, normalises to the wildcard value, or
  normalises (as an entry of some field) to a value that one of the sender's identifiers of
  that kind has (as a subject).
\<close>

theorem identity_adapter_matches:
  assumes "idMatchEntry ident = None"
  shows "matched (matchSubject (createIdentityAdapter ident) subject
           (matchable (normalizeEntries (createIdentityAdapter ident) entries ctx account)) ctx) \<longleftrightarrow>
         (\<exists>raw \<in> set entries. is_wildcard_entry ident raw \<or>
            (\<exists>f \<in> set (identityFields ident). \<exists>v. normalizeFieldValue f raw EntryMode = Some v \<and>
               (v = ''*'' \<or> identityMatchKey (fieldKind f) v \<in> set (subject_keys ident subject))))"
    (is "?m \<longleftrightarrow> ?spec")
proof -
  let ?hit = "\<lambda>k v. v = ''*'' \<or> identityMatchKey k v \<in> set (subject_keys ident subject)"
  have m: "?m \<longleftrightarrow> (\<exists>p \<in> set (zip [0..<length entries] entries). \<exists>e \<in> set (entry_materials ident (fst p) (snd p)).
      ?hit (entryKind e) (entryValue e))"
    unfolding createIdentityAdapter_def Let_def by (auto simp: filter_empty_conv entry_matches_def assms) force+
  show ?thesis
  proof
    assume ?m
    then obtain p e where p: "p \<in> set (zip [0..<length entries] entries)"
      "e \<in> set (entry_materials ident (fst p) (snd p))" "?hit (entryKind e) (entryValue e)"
      using m by blast
    have "snd p \<in> set entries" by (rule zip_index_snd'[OF p(1)])
    moreover have "is_wildcard_entry ident (snd p) \<or> (\<exists>f \<in> set (identityFields ident). \<exists>v.
        normalizeFieldValue f (snd p) EntryMode = Some v \<and> ?hit (fieldKind f) v)"
      using materials_of[of e ident "fst p" "snd p" ?hit, OF p(2,3)] by blast
    ultimately show ?spec by blast
  next
    assume ?spec
    then obtain raw where raw: "raw \<in> set entries" and hit: "is_wildcard_entry ident raw \<or>
        (\<exists>f \<in> set (identityFields ident). \<exists>v. normalizeFieldValue f raw EntryMode = Some v \<and> ?hit (fieldKind f) v)"
      by blast
    obtain i where i: "(i, raw) \<in> set (zip [0..<length entries] entries)" using zip_index[OF raw] by blast
    have "\<exists>e \<in> set (entry_materials ident i raw). ?hit (entryKind e) (entryValue e)"
    proof (cases "is_wildcard_entry ident raw")
      case True
      then show ?thesis using wildcard_material[of ident raw i] by blast
    next
      case False
      then obtain f v where "f \<in> set (identityFields ident)" "normalizeFieldValue f raw EntryMode = Some v"
        "?hit (fieldKind f) v"
        using hit by blast
      moreover obtain e where "e \<in> set (entry_materials ident i raw)" "entryKind e = fieldKind f" "entryValue e = v"
        using materials_exist[OF False calculation(1,2), of i] by blast
      ultimately show ?thesis by (intro bexI[of _ e]) simp_all
    qed
    then show ?m using m i by force
  qed
qed

section \<open>A concrete channel\<close>

definition plain_field :: "bool \<Rightarrow> identity_field" where
  "plain_field danger =
     \<lparr>fieldKey = '''', fieldKind = KStableId, fieldNormalize = None, fieldNormalizeEntry = None,
      fieldNormalizeSubject = None, fieldDangerousFn = (\<lambda>v. danger), fieldSensitivity = None\<rparr>"

definition demo_identity :: identity_descriptor where
  "demo_identity =
     \<lparr>idPrimary = \<lparr>keyOpt = None, kindOpt = None, restOf = plain_field False\<rparr>,
      idAliases = [\<lparr>keyOpt = Some ''name'', kindOpt = Some KUsername, restOf = plain_field True\<rparr>],
      idIsWildcard = None, idMatchEntry = None, idResolveEntryId = None\<rparr>"

definition demo_input :: "identity_descriptor \<Rightarrow> state_input" where
  "demo_input ident =
     \<lparr>inChannelId = ''irc'', inAccountId = ''default'',
      inSubject = createIdentitySubject ident (Some ''42'') [], inConversationKind = ConvDirect,
      inAdapter = createIdentityAdapter ident, inAccessGroups = [], inMembership = [], inRouteFacts = [],
      inMentionFacts = None, inEventKind = EvReaction, inAuthMode = AmOriginSubject, inMayPair = False,
      inOriginSubject = Some (createIdentitySubject ident (Some ''42'') []), inDm = Some [''42''],
      inGroup = None, inCommandOwner = None, inCommandGroup = None, inPairingStore = None\<rparr>"

lemma identity_adapter_matches_witness:
  "matched (matchSubject (createIdentityAdapter demo_identity) []
     (matchable (normalizeEntries (createIdentityAdapter demo_identity) [''*''] CtxDm ''a'')) CtxDm)"
  using identity_adapter_matches[of demo_identity "[]" "[''*'']" CtxDm "''a''"]
  by (simp add: demo_identity_def is_wildcard_entry_def)

lemma origin_subject_sound_witness:
  "\<exists>org \<in> set (inSubject (demo_input demo_identity)). \<exists>c \<in> set (inSubject (demo_input demo_identity)).
     agree demo_identity org c \<or> agree demo_identity c org"
proof -
  have "originSubjectMatchedIn (demo_input demo_identity)"
    unfolding demo_input_def demo_identity_def plain_field_def by code_simp
  moreover have "keys_ok demo_identity"
    by (simp add: keys_ok_def demo_identity_def identityFields_def kind_ok_def)
  ultimately show ?thesis
    using origin_subject_sound[of "demo_input demo_identity" demo_identity]
    by (simp add: demo_input_def demo_identity_def)
qed

text \<open>
  a channel that names its entries by a prefix gives all materials of one entry the same id.
  When one of its aliases is marked dangerous, the default policy then drops the matches of
  the stable id too: the sender 42, listed as 42, is not authorised, although without the
  prefix it is.
\<close>

theorem entry_id_prefix_drops_stable_match:
  "let prefixed = demo_input (defineStableChannelIngressIdentity demo_identity (Some ''entry''));
       plain = demo_input (defineStableChannelIngressIdentity demo_identity None);
       listed = (\<lambda>i. matched (match (resolveIngressAllowlist i (inDm i) CtxDm)));
       admitted = (\<lambda>i. matched (match (applyMutableIdentifierPolicy
                     (resolveIngressAllowlist i (inDm i) CtxDm) strict_policy)))
   in listed prefixed \<and> \<not> admitted prefixed \<and> listed plain \<and> admitted plain"
  unfolding demo_input_def demo_identity_def plain_field_def strict_policy_def by code_simp

end
