(* ===== verification/Rate_Limits.thy ===== *)
theory Rate_Limits
  imports Contracts
begin

text \<open>
  The limiters of the gateway: \<open>src/infra/fixed-window-rate-limit.ts\<close>,
  \<open>src/gateway/control-plane-rate-limit.ts\<close> and \<open>src/gateway/auth-rate-limit.ts\<close>. Times are
  milliseconds as integers; a limit given by a caller is a finite number, here a rational.

  The two limiters that count admissions in a window provide the contract
  \<open>admission_window\<close>; what it promises (how many admissions fit in an interval, when a refused
  caller may come back) is proved once, in the contract.
\<close>

section \<open>The admission window contract\<close>

text \<open>How many of a sequence of calls at given times are admitted, and the state after them.\<close>

primrec admitted :: "(int \<Rightarrow> 's \<Rightarrow> bool \<times> 's) \<Rightarrow> int list \<Rightarrow> 's \<Rightarrow> int" where
  "admitted consume [] s = 0"
| "admitted consume (t # ts) s =
     (if fst (consume t s) then 1 else 0) + admitted consume ts (snd (consume t s))"

text \<open>
  \<open>cell\<close> is the count and the start of the current window, if there is one. A call rolls the
  window when it has ended, else counts up to the limit, else is refused and changes nothing.
\<close>

locale admission_window =
  fixes consume :: "int \<Rightarrow> 's \<Rightarrow> bool \<times> 's"
    and cell :: "'s \<Rightarrow> (int \<times> int) option"
    and limit window :: int
  assumes limit_pos: "1 \<le> limit"
    and window_pos: "1 \<le> window"
    and roll: "(\<forall>c start. cell s = Some (c, start) \<longrightarrow> window \<le> now - start) \<Longrightarrow>
                 fst (consume now s) \<and> cell (snd (consume now s)) = Some (1, now)"
    and admit: "cell s = Some (c, start) \<Longrightarrow> now - start < window \<Longrightarrow> c < limit \<Longrightarrow>
                 fst (consume now s) \<and> cell (snd (consume now s)) = Some (c + 1, start)"
    and refuse: "cell s = Some (c, start) \<Longrightarrow> now - start < window \<Longrightarrow> limit \<le> c \<Longrightarrow>
                 \<not> fst (consume now s) \<and> snd (consume now s) = s"
begin

text \<open>Inside one window: calls are admitted until the limit is reached, and no more.\<close>

lemma within_window:
  assumes "cell s = Some (c, start)" and "c \<le> limit" and "\<forall>t \<in> set ts. t - start < window"
  shows "admitted consume ts s = min (limit - c) (int (length ts))"
  using assms
proof (induction ts arbitrary: s c)
  case (Cons t ts)
  show ?case
  proof (cases "c < limit")
    case True
    note a = admit[OF Cons.prems(1) _ True, of t]
    have "admitted consume ts (snd (consume t s)) = min (limit - (c + 1)) (int (length ts))"
      using Cons.prems True a by (intro Cons.IH) auto
    then show ?thesis using a Cons.prems(3) True by auto
  next
    case False
    then have "c = limit" using Cons.prems(2) by simp
    then have "\<not> fst (consume t s) \<and> snd (consume t s) = s"
      using refuse[OF Cons.prems(1), of t] Cons.prems(3) by simp
    moreover have "admitted consume ts s = min (limit - c) (int (length ts))"
      using Cons.prems by (intro Cons.IH) auto
    ultimately show ?thesis using \<open>c = limit\<close> by simp
  qed
qed simp

text \<open>
  Any interval shorter than the window meets at most two windows: at most twice the limit is
  admitted in it, and at most the limit when it starts with a fresh window.
\<close>

lemma burst_bound:
  assumes "cell s = None \<or> (\<exists>c start. cell s = Some (c, start) \<and> 0 \<le> c \<and> c \<le> limit)"
    and "sorted ts" and "\<forall>t \<in> set ts. a \<le> t \<and> t < a + window"
  shows "admitted consume ts s \<le> 2 * limit"
proof -
  have fresh: "admitted consume ts s \<le> limit"
    if "\<forall>c start. cell s = Some (c, start) \<longrightarrow> window \<le> t - start" "ts = t # us" "sorted ts"
      "\<forall>u \<in> set ts. a \<le> u \<and> u < a + window" for s t us ts
  proof -
    note r = roll[OF that(1)]
    have "admitted consume us (snd (consume t s)) = min (limit - 1) (int (length us))"
      using r limit_pos that(2,4) by (intro within_window[of _ 1 t]) auto
    then show ?thesis using r that(2) by simp
  qed
  have "admitted consume ts s \<le> limit - c + limit"
    if "cell s = Some (c, start)" "0 \<le> c" "c \<le> limit" "sorted ts" "\<forall>t \<in> set ts. a \<le> t \<and> t < a + window"
    for s c start ts
    using that
  proof (induction ts arbitrary: s c)
    case Nil
    then show ?case using limit_pos by simp
  next
    case (Cons t ts)
    show ?case
    proof (cases "window \<le> t - start")
      case True
      then have "admitted consume (t # ts) s \<le> limit"
        using Cons.prems by (intro fresh[OF _ refl]) auto
      then show ?thesis using Cons.prems(3) by linarith
    next
      case False
      then have now: "t - start < window" by simp
      show ?thesis
      proof (cases "c < limit")
        case True
        note a = admit[OF Cons.prems(1) now True]
        have "admitted consume ts (snd (consume t s)) \<le> limit - (c + 1) + limit"
          using Cons.prems True a by (intro Cons.IH) auto
        then show ?thesis using a by simp
      next
        case False
        then have "\<not> fst (consume t s) \<and> snd (consume t s) = s"
          using refuse[OF Cons.prems(1) now] by simp
        then show ?thesis using Cons.IH[of s c] Cons.prems by simp
      qed
    qed
  qed
  note used = this
  show ?thesis
  proof (cases "cell s")
    case None
    then show ?thesis
    proof (cases ts)
      case (Cons t us)
      then show ?thesis using fresh[of s t ts us] None assms(2,3) limit_pos by simp
    qed (use limit_pos in simp)
  next
    case (Some p)
    then obtain c start where "cell s = Some (c, start)" "0 \<le> c" "c \<le> limit" using assms(1) by auto
    then show ?thesis using used[of s c start ts] assms(2,3) by linarith
  qed
qed

text \<open>A refused caller is admitted as soon as the window has ended, and not before.\<close>

lemma refused_until:
  assumes "cell s = Some (c, start)" and "\<not> fst (consume now s)"
  shows "snd (consume now s) = s"
    and "fst (consume later s) \<longleftrightarrow> start + window \<le> later"
    and "now < start + window"
proof -
  have now: "now - start < window"
  proof (rule ccontr)
    assume "\<not> now - start < window"
    then show False using roll[of s now] assms by simp
  qed
  moreover have c: "limit \<le> c" using admit[OF assms(1) now] assms(2) by fastforce
  ultimately show "snd (consume now s) = s" "now < start + window"
    using refuse[OF assms(1) now] by auto
  show "fst (consume later s) \<longleftrightarrow> start + window \<le> later"
  proof (cases "window \<le> later - start")
    case True
    then show ?thesis using roll[of s later] assms(1) by simp
  next
    case False
    then show ?thesis using refuse[OF assms(1), of later] c by simp
  qed
qed

end

section \<open>The fixed-window limiter\<close>

record fixed_window =
  fwMaxRequests :: int
  fwWindowMs :: int
  fwCount :: int
  fwWindowStartMs :: int

record consume_result =
  crAllowed :: bool
  crRetryAfterMs :: int
  crRemaining :: int

definition createFixedWindowRateLimiter :: "rat \<Rightarrow> rat \<Rightarrow> fixed_window" where
  "createFixedWindowRateLimiter maxRequests windowMs =
     \<lparr>fwMaxRequests = max 1 \<lfloor>maxRequests\<rfloor>, fwWindowMs = max 1 \<lfloor>windowMs\<rfloor>, fwCount = 0, fwWindowStartMs = 0\<rparr>"

definition fw_consume :: "int \<Rightarrow> fixed_window \<Rightarrow> consume_result \<times> fixed_window" where
  "fw_consume nowMs s =
     (let s1 = (if nowMs - fwWindowStartMs s \<ge> fwWindowMs s
                then s\<lparr>fwWindowStartMs := nowMs, fwCount := 0\<rparr> else s)
      in if fwCount s1 \<ge> fwMaxRequests s1
         then (\<lparr>crAllowed = False, crRetryAfterMs = max 0 (fwWindowStartMs s1 + fwWindowMs s1 - nowMs),
                crRemaining = 0\<rparr>, s1)
         else let s2 = s1\<lparr>fwCount := fwCount s1 + 1\<rparr>
              in (\<lparr>crAllowed = True, crRetryAfterMs = 0,
                   crRemaining = max 0 (fwMaxRequests s2 - fwCount s2)\<rparr>, s2))"

definition fw_reset :: "fixed_window \<Rightarrow> fixed_window" where
  "fw_reset s = s\<lparr>fwCount := 0, fwWindowStartMs := 0\<rparr>"

text \<open>The limit and the window are fixed when the limiter is made; the rest is its state.\<close>

definition fw_step :: "rat \<Rightarrow> rat \<Rightarrow> int \<Rightarrow> int \<times> int \<Rightarrow> bool \<times> int \<times> int" where
  "fw_step maxRequests windowMs now s =
     (case fw_consume now ((createFixedWindowRateLimiter maxRequests windowMs)
             \<lparr>fwCount := fst s, fwWindowStartMs := snd s\<rparr>) of
        (r, s') \<Rightarrow> (crAllowed r, fwCount s', fwWindowStartMs s'))"

interpretation fw: admission_window "fw_step maxRequests windowMs" Some
    "max 1 \<lfloor>maxRequests\<rfloor>" "max 1 \<lfloor>windowMs\<rfloor>" for maxRequests windowMs :: rat
  by unfold_locales
    (auto simp: fw_step_def fw_consume_def createFixedWindowRateLimiter_def Let_def split: if_splits)

section \<open>The control-plane write budget\<close>

definition CONTROL_PLANE_RATE_LIMIT_MAX_REQUESTS :: int where
  "CONTROL_PLANE_RATE_LIMIT_MAX_REQUESTS = 3"

definition CONTROL_PLANE_RATE_LIMIT_WINDOW_MS :: int where
  "CONTROL_PLANE_RATE_LIMIT_WINDOW_MS = 60000"

definition CONTROL_PLANE_BUCKET_MAX_STALE_MS :: int where
  "CONTROL_PLANE_BUCKET_MAX_STALE_MS = 5 * 60000"

definition CONTROL_PLANE_BUCKET_MAX_ENTRIES :: nat where
  "CONTROL_PLANE_BUCKET_MAX_ENTRIES = 10000"

record bucket =
  bkCount :: int
  bkWindowStartMs :: int

text \<open>What the limiter reads of a client; a field that is not a string is \<open>None\<close>.\<close>

record gateway_client =
  gcDeviceId :: "string option"
  gcClientIp :: "string option"
  gcConnId :: "string option"

definition normalizePart :: "string option \<Rightarrow> string \<Rightarrow> string" where
  "normalizePart v fallback =
     (case v of None \<Rightarrow> fallback
      | Some s \<Rightarrow> (let normalized = js_trim s in if normalized \<noteq> [] then normalized else fallback))"

definition resolveControlPlaneRateLimitKey :: "gateway_client option \<Rightarrow> string" where
  "resolveControlPlaneRateLimitKey client =
     (let deviceId = normalizePart (Option.bind client gcDeviceId) ''unknown-device'';
          clientIp = normalizePart (Option.bind client gcClientIp) ''unknown-ip'';
          connId = normalizePart (Option.bind client gcConnId) ''''
      in if deviceId = ''unknown-device'' \<and> clientIp = ''unknown-ip'' \<and> connId \<noteq> []
         then deviceId @ ''|'' @ clientIp @ ''|conn='' @ connId
         else deviceId @ ''|'' @ clientIp)"

text \<open>The first key of the map is the oldest; deleting it when the map is full bounds its size.\<close>

definition evict_oldest :: "string \<Rightarrow> (string, bucket) jmap \<Rightarrow> (string, bucket) jmap" where
  "evict_oldest key m =
     (if \<not> jm_has m key \<and> length m \<ge> CONTROL_PLANE_BUCKET_MAX_ENTRIES
      then (case m of [] \<Rightarrow> m | p # ps \<Rightarrow> jm_del (fst p) m) else m)"

definition consume_key :: "string \<Rightarrow> int \<Rightarrow> (string, bucket) jmap \<Rightarrow> consume_result \<times> (string, bucket) jmap" where
  "consume_key key nowMs m =
     (let fresh = (\<lparr>crAllowed = True, crRetryAfterMs = 0,
                    crRemaining = CONTROL_PLANE_RATE_LIMIT_MAX_REQUESTS - 1\<rparr>,
                   jm_set key \<lparr>bkCount = 1, bkWindowStartMs = nowMs\<rparr> (evict_oldest key m))
      in case jm_get m key of
           None \<Rightarrow> fresh
         | Some b \<Rightarrow>
             if nowMs - bkWindowStartMs b \<ge> CONTROL_PLANE_RATE_LIMIT_WINDOW_MS then fresh
             else if bkCount b \<ge> CONTROL_PLANE_RATE_LIMIT_MAX_REQUESTS
               then (\<lparr>crAllowed = False,
                      crRetryAfterMs = max 0 (bkWindowStartMs b + CONTROL_PLANE_RATE_LIMIT_WINDOW_MS - nowMs),
                      crRemaining = 0\<rparr>, m)
             else let b' = b\<lparr>bkCount := bkCount b + 1\<rparr>
                  in (\<lparr>crAllowed = True, crRetryAfterMs = 0,
                       crRemaining = max 0 (CONTROL_PLANE_RATE_LIMIT_MAX_REQUESTS - bkCount b')\<rparr>,
                      jm_set key b' m))"

definition consumeControlPlaneWriteBudget ::
  "gateway_client option \<Rightarrow> int \<Rightarrow> (string, bucket) jmap \<Rightarrow> consume_result \<times> string \<times> (string, bucket) jmap"
where
  "consumeControlPlaneWriteBudget client nowMs m =
     (let key = resolveControlPlaneRateLimitKey client
      in case consume_key key nowMs m of (r, m') \<Rightarrow> (r, key, m'))"

definition pruneStaleControlPlaneBuckets :: "int \<Rightarrow> (string, bucket) jmap \<Rightarrow> nat \<times> (string, bucket) jmap" where
  "pruneStaleControlPlaneBuckets nowMs m =
     (let stale = (\<lambda>p. nowMs - bkWindowStartMs (snd p) > CONTROL_PLANE_BUCKET_MAX_STALE_MS)
      in (length (filter stale m), filter (\<lambda>p. \<not> stale p) m))"

lemmas control_plane_constants =
  CONTROL_PLANE_RATE_LIMIT_MAX_REQUESTS_def CONTROL_PLANE_RATE_LIMIT_WINDOW_MS_def
  CONTROL_PLANE_BUCKET_MAX_STALE_MS_def CONTROL_PLANE_BUCKET_MAX_ENTRIES_def

definition bucket_cell :: "string \<Rightarrow> (string, bucket) jmap \<Rightarrow> (int \<times> int) option" where
  "bucket_cell key m = map_option (\<lambda>b. (bkCount b, bkWindowStartMs b)) (jm_get m key)"

definition allowed_step :: "string \<Rightarrow> int \<Rightarrow> (string, bucket) jmap \<Rightarrow> bool \<times> (string, bucket) jmap" where
  "allowed_step key now m = (case consume_key key now m of (r, m') \<Rightarrow> (crAllowed r, m'))"

interpretation cp: admission_window "allowed_step key" "bucket_cell key" 3 60000 for key
proof unfold_locales
  show "fst (allowed_step key now s) \<and> bucket_cell key (snd (allowed_step key now s)) = Some (1, now)"
    if "\<forall>c start. bucket_cell key s = Some (c, start) \<longrightarrow> 60000 \<le> now - start" for s now
    using that
    by (auto simp: allowed_step_def consume_key_def bucket_cell_def Let_def control_plane_constants store_simps
        split: option.split)
qed (auto simp: allowed_step_def consume_key_def bucket_cell_def Let_def control_plane_constants store_simps
        split: option.splits)

section \<open>Properties of the window limiters\<close>

text \<open>
  a fixed-window limiter admits at most twice its limit in any interval shorter than its
  window, whatever the times of the calls and whatever was counted before.
\<close>

theorem fixed_window_burst:
  assumes "sorted ts" and "\<forall>t \<in> set ts. a \<le> t \<and> t < a + max 1 \<lfloor>windowMs\<rfloor>"
    and "0 \<le> c" and "c \<le> max 1 \<lfloor>maxRequests\<rfloor>"
  shows "admitted (fw_step maxRequests windowMs) ts (c, start) \<le> 2 * max 1 \<lfloor>maxRequests\<rfloor>"
  using assms by (intro fw.burst_bound[of "(c, start)" maxRequests ts a windowMs]) auto

text \<open>The bound is met: two windows can meet inside the interval.\<close>

lemma fixed_window_burst_witness:
  "admitted (fw_step 2 10) [9, 9, 11, 11, 11] (0, 0) = 4 \<and>
   admitted (fw_step 2 10) [9, 9, 11, 11, 11] (0, 0) \<le> 2 * 2"
  using fixed_window_burst[of "[9, 9, 11, 11, 11]" 9 10 0 2 0]
  by (simp add: fw_step_def fw_consume_def createFixedWindowRateLimiter_def Let_def)

text \<open>
  in one window a client of the control plane is admitted exactly up to its budget of three
  requests; a refused request changes nothing, and the delay the limiter reports is exact: the
  client is refused until then and admitted at that moment.
\<close>

theorem control_plane_budget:
  assumes "jm_get m key = Some b" and "bkCount b \<le> 3"
  shows "((\<forall>t \<in> set ts. t - bkWindowStartMs b < 60000) \<longrightarrow>
           admitted (allowed_step key) ts m = min (3 - bkCount b) (int (length ts))) \<and>
         (\<not> crAllowed (fst (consume_key key now m)) \<longrightarrow>
           snd (consume_key key now m) = m \<and> 0 < crRetryAfterMs (fst (consume_key key now m)) \<and>
           (\<forall>later. crAllowed (fst (consume_key key later m)) \<longleftrightarrow>
              now + crRetryAfterMs (fst (consume_key key now m)) \<le> later))"
proof -
  have cell: "bucket_cell key m = Some (bkCount b, bkWindowStartMs b)"
    using assms(1) by (simp add: bucket_cell_def)
  then have budget: "(\<forall>t \<in> set ts. t - bkWindowStartMs b < 60000) \<longrightarrow>
      admitted (allowed_step key) ts m = min (3 - bkCount b) (int (length ts))"
    using assms(2) cp.within_window[of key m] by blast
  have step: "fst (allowed_step key t s) = crAllowed (fst (consume_key key t s))"
    "snd (allowed_step key t s) = snd (consume_key key t s)" for t s
    by (simp_all add: allowed_step_def split: prod.split)
  have "snd (consume_key key now m) = m \<and> 0 < crRetryAfterMs (fst (consume_key key now m)) \<and>
           (\<forall>later. crAllowed (fst (consume_key key later m)) \<longleftrightarrow>
              now + crRetryAfterMs (fst (consume_key key now m)) \<le> later)"
    if refused: "\<not> crAllowed (fst (consume_key key now m))"
  proof -
    have r: "\<not> fst (allowed_step key now m)" using refused by (simp add: step)
    note u = cp.refused_until[OF cell r, unfolded step]
    have "crRetryAfterMs (fst (consume_key key now m)) = bkWindowStartMs b + 60000 - now"
      using refused u(3) assms(1) by (auto simp: consume_key_def Let_def control_plane_constants split: if_splits)
    then show ?thesis using u by auto
  qed
  with budget show ?thesis by blast
qed

definition three_requests :: "(string, bucket) jmap" where
  "three_requests = [(''d|ip'', \<lparr>bkCount = 3, bkWindowStartMs = 1000\<rparr>)]"

lemma control_plane_budget_witness:
  "crRetryAfterMs (fst (consume_key ''d|ip'' 5000 three_requests)) = 56000 \<and>
   \<not> crAllowed (fst (consume_key ''d|ip'' 60999 three_requests)) \<and>
   crAllowed (fst (consume_key ''d|ip'' 61000 three_requests))"
  using control_plane_budget[of three_requests "''d|ip''" "\<lparr>bkCount = 3, bkWindowStartMs = 1000\<rparr>" "[]" 5000]
  by (simp add: three_requests_def consume_key_def Let_def control_plane_constants)

lemma evict_oldest_tl:
  assumes "jm_wf m"
  shows "evict_oldest key m =
     (if \<not> jm_has m key \<and> length m \<ge> CONTROL_PLANE_BUCKET_MAX_ENTRIES then tl m else m)"
proof (cases m)
  case (Cons p ps)
  then show ?thesis using jm_del_head[of p ps] assms by (simp add: evict_oldest_def del: delete_simps)
qed (simp add: evict_oldest_def)

lemma evict_oldest_get:
  "jm_get (evict_oldest key m) k \<noteq> jm_get m k \<Longrightarrow>
   \<not> jm_has m key \<and> length m \<ge> CONTROL_PLANE_BUCKET_MAX_ENTRIES \<and> k = fst (hd m)"
  by (auto simp: evict_oldest_def store_simps split: if_splits list.splits)

lemma evict_oldest_absent: "jm_get m key = None \<Longrightarrow> jm_get (evict_oldest key m) key = None"
  by (auto simp: evict_oldest_def store_simps split: list.split)

text \<open>
  the budgets take bounded memory and are independent: the table never grows beyond ten
  thousand clients, a request touches no other client's budget unless the table is full and
  the other client is the oldest in it, and pruning stale budgets is invisible: every later
  request gets the answer it would have got.
\<close>

theorem control_plane_table:
  assumes "jm_wf m" and "length m \<le> 10000"
  shows "length (snd (consume_key key now m)) \<le> 10000 \<and>
     (\<forall>k. k \<noteq> key \<and> jm_get (snd (consume_key key now m)) k \<noteq> jm_get m k \<longrightarrow>
        length m = 10000 \<and> \<not> jm_has m key \<and> k = fst (hd m)) \<and>
     (\<forall>later \<ge> now. fst (consume_key key later (snd (pruneStaleControlPlaneBuckets now m))) =
        fst (consume_key key later m))"
proof -
  have del: "length (evict_oldest key m) < 10000" if "\<not> jm_has m key"
    using that assms by (auto simp: evict_oldest_tl control_plane_constants)
  have size: "length (snd (consume_key key now m)) \<le> 10000"
  proof (cases "jm_get m key")
    case None
    then have n: "\<not> jm_has m key" by (simp add: jm_has_get)
    have "jm_get (evict_oldest key m) key = None" by (rule evict_oldest_absent[OF None])
    then show ?thesis using del[OF n] None
      by (simp add: consume_key_def Let_def jm_set_absent)
  next
    case (Some b)
    then have h: "jm_has m key" by (simp add: jm_has_get)
    then show ?thesis using Some assms(2)
      by (auto simp: consume_key_def Let_def evict_oldest_def length_jm_set)
  qed
  have others: "length m = 10000 \<and> \<not> jm_has m key \<and> k = fst (hd m)"
    if k: "k \<noteq> key" "jm_get (snd (consume_key key now m)) k \<noteq> jm_get m k" for k
  proof -
    have "jm_get (evict_oldest key m) k \<noteq> jm_get m k"
      using k by (auto simp: consume_key_def Let_def store_simps split: option.splits if_splits)
    then show ?thesis using assms(2) evict_oldest_get[of key m k] by (simp add: control_plane_constants)
  qed
  have prune: "fst (consume_key key later (snd (pruneStaleControlPlaneBuckets now m))) = fst (consume_key key later m)"
    if "now \<le> later" for later
    using that assms(1)
    by (auto simp: consume_key_def pruneStaleControlPlaneBuckets_def Let_def jm_get_filter control_plane_constants
        split: option.split)
  show ?thesis using size others prune by blast
qed

lemma control_plane_table_witness:
  "length (snd (consume_key ''new'' 5000 three_requests)) \<le> 10000"
  using control_plane_table[of three_requests "''new''" 5000] by (simp add: three_requests_def jm_wf_def)

end
