(* ===== verification/Js_Strings.thy ===== *)
theory Js_Strings
  imports Js_Prelude
begin

text \<open>
  More of the JavaScript string library: \<open>indexOf\<close>, \<open>lastIndexOf\<close>, \<open>split\<close> and \<open>join\<close> with the
  lemmas about how they undo each other, and how trimming and lower case act on joined
  strings. Used by the addresses, the session keys and the routes.
\<close>

section \<open>Definitions\<close>

fun index_of :: "char \<Rightarrow> string \<Rightarrow> nat option" where
  "index_of c [] = None"
| "index_of c (x # xs) = (if x = c then Some 0 else map_option Suc (index_of c xs))"

definition last_index_of :: "char \<Rightarrow> string \<Rightarrow> nat option" where
  "last_index_of c s = map_option (\<lambda>i. length s - 1 - i) (index_of c (rev s))"

fun js_split :: "char \<Rightarrow> string \<Rightarrow> string list" where
  "js_split c [] = [[]]"
| "js_split c (x # xs) =
     (if x = c then [] # js_split c xs
      else (case js_split c xs of [] \<Rightarrow> [[x]] | p # ps \<Rightarrow> (x # p) # ps))"

fun js_join :: "string \<Rightarrow> string list \<Rightarrow> string" where
  "js_join sep [] = []"
| "js_join sep [p] = p"
| "js_join sep (p # q # ps) = p @ sep @ js_join sep (q # ps)"

text \<open>\<open>filter(Boolean)\<close> on strings.\<close>

abbreviation non_empty :: "string list \<Rightarrow> string list" where
  "non_empty ps \<equiv> filter (\<lambda>p. p \<noteq> []) ps"

definition alnum :: "char \<Rightarrow> bool" where
  "alnum c \<longleftrightarrow> (let n = (of_char c :: nat) in 48 \<le> n \<and> n \<le> 57 \<or> 65 \<le> n \<and> n \<le> 90 \<or> 97 \<le> n \<and> n \<le> 122)"

section \<open>Splitting and joining\<close>

lemma js_split_not_Nil [simp]: "js_split c s \<noteq> []"
  by (induction s) (auto split: list.splits)

lemma js_split_no_sep: "p \<in> set (js_split c s) \<Longrightarrow> c \<notin> set p"
proof (induction s arbitrary: p)
  case (Cons x xs)
  then show ?case
    by (cases "js_split c xs") (auto split: if_splits)
qed simp

lemma js_join_Cons: "ps \<noteq> [] \<Longrightarrow> js_join sep (p # ps) = p @ sep @ js_join sep ps"
  by (cases ps) simp_all

lemma js_join_append:
  "ps \<noteq> [] \<Longrightarrow> qs \<noteq> [] \<Longrightarrow> js_join sep (ps @ qs) = js_join sep ps @ sep @ js_join sep qs"
  by (induction ps rule: induct_list012) (simp_all add: js_join_Cons)

lemma join_split: "js_join [c] (js_split c s) = s"
proof (induction s)
  case (Cons x xs)
  obtain p ps where ps: "js_split c xs = p # ps" by (cases "js_split c xs") auto
  with Cons show ?case by (cases ps) auto
qed simp

lemma js_split_no_occurrence: "c \<notin> set s \<Longrightarrow> js_split c s = [s]"
  by (induction s) auto

lemma js_split_append_sep:
  "c \<notin> set p \<Longrightarrow> js_split c (p @ c # s) = p # js_split c s"
  by (induction p) auto

lemma split_join:
  "ps \<noteq> [] \<Longrightarrow> \<forall>p \<in> set ps. c \<notin> set p \<Longrightarrow> js_split c (js_join [c] ps) = ps"
  by (induction ps rule: induct_list012)
     (simp_all add: js_split_no_occurrence js_split_append_sep)

lemma js_split_takeWhile:
  "js_split c s = takeWhile (\<lambda>x. x \<noteq> c) s #
     (case dropWhile (\<lambda>x. x \<noteq> c) s of [] \<Rightarrow> [] | _ # r \<Rightarrow> js_split c r)"
  by (induction s) (auto split: list.splits)

lemma js_split_inj: "js_split c s = js_split c t \<Longrightarrow> s = t"
  by (metis join_split)

lemma js_join_eq_Nil: "\<forall>p \<in> set ps. p \<noteq> [] \<Longrightarrow> js_join sep ps = [] \<longleftrightarrow> ps = []"
  by (induction ps rule: induct_list012) auto

text \<open>Two texts cut at their first separator.\<close>

lemma sep_cancel:
  assumes "c \<notin> set a" "c \<notin> set b"
  shows "a @ c # v = b @ c # w \<longleftrightarrow> a = b \<and> v = w"
  using assms
proof (induction a arbitrary: b)
  case Nil
  then show ?case by (cases b) auto
next
  case (Cons x a)
  then show ?case by (cases b) auto
qed

section \<open>White space and lower case\<close>

lemma js_lower_simps [simp]:
  "js_lower [] = []"
  "js_lower (a @ b) = js_lower a @ js_lower b"
  "js_lower (c # b) = js_lower_char c # js_lower b"
  "length (js_lower a) = length a"
  "js_lower a = [] \<longleftrightarrow> a = []"
  by (simp_all add: js_lower_def)

lemma of_char_js_lower_char:
  "(of_char (js_lower_char c) :: nat) =
     (let n = (of_char c :: nat)
      in if 65 \<le> n \<and> n \<le> 90 \<or> 192 \<le> n \<and> n \<le> 222 \<and> n \<noteq> 215 then n + 32 else n)"
  by (simp add: js_lower_char_def Let_def)

lemma char_eq_nat: "c = d \<longleftrightarrow> (of_char c :: nat) = of_char d"
  by simp

lemma js_lower_char_idem [simp]: "js_lower_char (js_lower_char c) = js_lower_char c"
  unfolding char_eq_nat of_char_js_lower_char Let_def by auto

lemma js_lower_idem [simp]: "js_lower (js_lower s) = js_lower s"
  by (simp add: js_lower_def comp_def)

lemma js_lower_char_colon [simp]: "js_lower_char c = CHR '':'' \<longleftrightarrow> c = CHR '':''"
  unfolding char_eq_nat of_char_js_lower_char Let_def by auto

lemma js_lower_char_colon' [simp]: "CHR '':'' = js_lower_char c \<longleftrightarrow> c = CHR '':''"
  using js_lower_char_colon[of c] by metis

lemma js_lower_char_of_colon [simp]: "js_lower_char CHR '':'' = CHR '':''"
  by simp

lemma js_space_js_lower_char [simp]: "js_space (js_lower_char c) \<longleftrightarrow> js_space c"
  unfolding js_space_def set_simps insert_iff empty_iff char_eq_nat of_char_js_lower_char Let_def
  by auto

lemma colon_in_js_lower [simp]: "CHR '':'' \<in> set (js_lower s) \<longleftrightarrow> CHR '':'' \<in> set s"
  by (induction s) auto

lemma js_trim_js_lower: "js_trim (js_lower s) = js_lower (js_trim s)"
  unfolding js_trim_def js_lower_def by (simp add: dropWhile_map rev_map comp_def)

lemma js_trim_fix:
  "js_trim s = s \<longleftrightarrow> s = [] \<or> \<not> js_space (hd s) \<and> \<not> js_space (last s)"
  using js_trim_ends[of s] js_trim_no_ends[of s] by force

lemma normalizeLowercaseStringOrEmpty_eq: "normalizeLowercaseStringOrEmpty s = js_lower (js_trim s)"
  by (simp add: normalizeLowercaseStringOrEmpty_def normalizeOptionalString_Some)

lemma normalizeLowercaseStringOrEmpty_idem [simp]:
  "normalizeLowercaseStringOrEmpty (normalizeLowercaseStringOrEmpty s) = normalizeLowercaseStringOrEmpty s"
  by (simp add: normalizeLowercaseStringOrEmpty_eq js_trim_js_lower)

lemma colon_not_space [simp]: "\<not> js_space CHR '':''"
  by (simp add: js_space_def)

lemma js_split_js_lower: "js_split CHR '':'' (js_lower s) = map js_lower (js_split CHR '':'' s)"
  by (induction s) (auto split: list.splits)

lemma js_join_map_lower: "js_join '':'' (map js_lower ps) = js_lower (js_join '':'' ps)"
  by (induction ps rule: induct_list012) simp_all

end
