(* ===== verification/Client_Ip.thy ===== *)
theory Client_Ip
  imports Contracts Js_Strings
begin

text \<open>
  Which address the gateway takes a client to have: the parsing helpers of
  \<open>src/shared/net/ip.ts\<close> and the proxy handling of \<open>src/gateway/net.ts\<close>.

  The package \<open>ipaddr.js\<close> and \<open>isIP\<close> of \<open>node:net\<close> are not part of the repository: they are the
  record \<open>ip_package\<close>, an argument of every definition that uses them. Nothing is assumed about
  them. A call that throws is \<open>None\<close>.
\<close>

section \<open>The package\<close>

record 'a ip_package =
  v4IsValid :: "string \<Rightarrow> bool"
  v4IsFourPart :: "string \<Rightarrow> bool"
  v4Parse :: "string \<Rightarrow> 'a"
  v6IsValid :: "string \<Rightarrow> bool"
  v6Parse :: "string \<Rightarrow> 'a"
  addrIsV6 :: "'a \<Rightarrow> bool"
  addrIsV4Mapped :: "'a \<Rightarrow> bool"
  addrToV4 :: "'a \<Rightarrow> 'a"
  addrToString :: "'a \<Rightarrow> string"
  addrRange :: "'a \<Rightarrow> string"
  parseCIDR :: "string \<Rightarrow> ('a \<times> nat) option"
  addrMatch :: "'a \<Rightarrow> 'a \<times> nat \<Rightarrow> bool option"
  netIsIP :: "string \<Rightarrow> nat"

section \<open>Brackets\<close>

definition stripIpv6Brackets :: "string \<Rightarrow> string" where
  "stripIpv6Brackets v =
     (if js_starts_with v ''['' \<and> js_starts_with (rev v) '']'' then butlast (tl v) else v)"

text \<open>\<open>value.slice(1, -1)\<close> of a string of one character is empty, and so is the model's.\<close>

section \<open>IPv6 addresses that end in an IPv4 address\<close>

text \<open>
  The regular expression of \<open>parseIpv6WithEmbeddedIpv4\<close>: a prefix up to the last colon, then
  text in four parts separated by dots, then an optional zone. \<open>has_dots n s\<close> says that \<open>s\<close> can
  be cut into \<open>n + 1\<close> parts that are not empty, at dots.
\<close>

fun has_dots :: "nat \<Rightarrow> string \<Rightarrow> bool" where
  "has_dots 0 s = (s \<noteq> [])"
| "has_dots (Suc n) [] = False"
| "has_dots (Suc n) (x # xs) =
     (case index_of CHR ''.'' xs of None \<Rightarrow> False | Some i \<Rightarrow> has_dots n (drop (i + 1) xs))"

definition line_break :: "char \<Rightarrow> bool" where
  "line_break c \<longleftrightarrow> c = CHR 0x0A \<or> c = CHR 0x0D"

definition split_embedded :: "string \<Rightarrow> (string \<times> string \<times> string) option" where
  "split_embedded raw =
     (case last_index_of CHR '':'' raw of
        None \<Rightarrow> None
      | Some i \<Rightarrow>
          (let pfx = take (i + 1) raw;
               rest = drop (i + 1) raw;
               cut = (case index_of CHR ''%'' rest of None \<Rightarrow> length rest | Some j \<Rightarrow> j);
               embedded = take cut rest;
               zone = drop cut rest
           in if has_dots 3 embedded \<and> \<not> list_ex line_break pfx \<and>
                 (zone = [] \<or> (tl zone \<noteq> [] \<and> list_all alnum (tl zone)))
              then Some (pfx, embedded, zone) else None))"

definition digit_value :: "char \<Rightarrow> nat option" where
  "digit_value c = (let n = (of_char c :: nat) in if 48 \<le> n \<and> n \<le> 57 then Some (n - 48) else None)"

text \<open>\<open>Number.parseInt(part, 10)\<close> reads the leading decimal digits.\<close>

definition parse_decimal :: "string \<Rightarrow> nat" where
  "parse_decimal s =
     foldl (\<lambda>n c. n * 10 + js_nullish (digit_value c) 0) 0 (takeWhile (\<lambda>c. digit_value c \<noteq> None) s)"

definition hex_digit :: "nat \<Rightarrow> char" where
  "hex_digit d = char_of (if d < 10 then 48 + d else 87 + d)"

fun to_hex :: "nat \<Rightarrow> string" where
  "to_hex n = (if n < 16 then [hex_digit n] else to_hex (n div 16) @ [hex_digit (n mod 16)])"

declare to_hex.simps [simp del]

definition parseIpv6WithEmbeddedIpv4 :: "'a ip_package \<Rightarrow> string \<Rightarrow> 'a option" where
  "parseIpv6WithEmbeddedIpv4 pkg raw =
     (if \<not> List.member raw CHR '':'' \<or> \<not> List.member raw CHR ''.'' then None
      else case split_embedded raw of
        None \<Rightarrow> None
      | Some (pfx, embedded, zone) \<Rightarrow>
          if \<not> v4IsFourPart pkg embedded then None
          else let octets = map parse_decimal (js_split CHR ''.'' embedded);
                   high = to_hex (or (push_bit 8 (octets ! 0)) (octets ! 1));
                   low = to_hex (or (push_bit 8 (octets ! 2)) (octets ! 3));
                   normalized = pfx @ high @ '':'' @ low @ zone
               in if \<not> v6IsValid pkg normalized then None else Some (v6Parse pkg normalized))"

section \<open>Canonical addresses\<close>

definition normalizeIpv4MappedAddress :: "'a ip_package \<Rightarrow> 'a \<Rightarrow> 'a" where
  "normalizeIpv4MappedAddress pkg a =
     (if \<not> addrIsV6 pkg a then a else if \<not> addrIsV4Mapped pkg a then a else addrToV4 pkg a)"

definition normalizeIpParseInput :: "string option \<Rightarrow> string option" where
  "normalizeIpParseInput raw = map_option stripIpv6Brackets (normalizeOptionalString raw)"

definition parseCanonicalIpAddress :: "'a ip_package \<Rightarrow> string option \<Rightarrow> 'a option" where
  "parseCanonicalIpAddress pkg raw =
     (case normalizeIpParseInput raw of
        None \<Rightarrow> None
      | Some s \<Rightarrow>
          if s = [] then None
          else if v4IsValid pkg s then (if v4IsFourPart pkg s then Some (v4Parse pkg s) else None)
          else if v6IsValid pkg s then Some (v6Parse pkg s)
          else parseIpv6WithEmbeddedIpv4 pkg s)"

definition normalizeIpAddress :: "'a ip_package \<Rightarrow> string option \<Rightarrow> string option" where
  "normalizeIpAddress pkg raw =
     map_option (\<lambda>a. normalizeLowercaseStringOrEmpty (addrToString pkg (normalizeIpv4MappedAddress pkg a)))
       (parseCanonicalIpAddress pkg raw)"

definition isLoopbackIpAddress :: "'a ip_package \<Rightarrow> string option \<Rightarrow> bool" where
  "isLoopbackIpAddress pkg raw =
     (case parseCanonicalIpAddress pkg raw of
        None \<Rightarrow> False
      | Some a \<Rightarrow> addrRange pkg (normalizeIpv4MappedAddress pkg a) = ''loopback'')"

definition isIpInCidr :: "'a ip_package \<Rightarrow> string \<Rightarrow> string \<Rightarrow> bool" where
  "isIpInCidr pkg ip cidr =
     (case parseCanonicalIpAddress pkg (Some ip) of
        None \<Rightarrow> False
      | Some parsed \<Rightarrow>
          (let candidate = js_trim cidr;
               comparableIp = normalizeIpv4MappedAddress pkg parsed
           in if candidate = [] then False
              else if \<not> List.member candidate CHR ''/'' then
                (case parseCanonicalIpAddress pkg (Some candidate) of
                   None \<Rightarrow> False
                 | Some exact \<Rightarrow>
                     (let comparableExact = normalizeIpv4MappedAddress pkg exact
                      in addrIsV6 pkg comparableIp = addrIsV6 pkg comparableExact \<and>
                         addrToString pkg comparableIp = addrToString pkg comparableExact))
              else
                (case parseCIDR pkg candidate of
                   None \<Rightarrow> False
                 | Some (base, bits) \<Rightarrow>
                     (let comparableBase = normalizeIpv4MappedAddress pkg base
                      in if addrIsV6 pkg comparableIp \<noteq> addrIsV6 pkg comparableBase then False
                         else js_nullish (addrMatch pkg comparableIp (comparableBase, bits)) False))))"

section \<open>The address of a client\<close>

definition stripOptionalPort :: "'a ip_package \<Rightarrow> string \<Rightarrow> string" where
  "stripOptionalPort pkg ip =
     (case (if js_starts_with ip ''['' then index_of CHR '']'' ip else None) of
        Some end \<Rightarrow> take (end - 1) (drop 1 ip)
      | None \<Rightarrow>
          if netIsIP pkg ip \<noteq> 0 then ip
          else (case last_index_of CHR '':'' ip of
                  None \<Rightarrow> ip
                | Some lastColon \<Rightarrow>
                    if List.member ip CHR ''.'' \<and> index_of CHR '':'' ip = Some lastColon \<and>
                       netIsIP pkg (take lastColon ip) = 4
                    then take lastColon ip else ip))"

definition parseIpLiteral :: "'a ip_package \<Rightarrow> string option \<Rightarrow> string option" where
  "parseIpLiteral pkg raw =
     (case map_option js_trim raw of
        None \<Rightarrow> None
      | Some trimmed \<Rightarrow>
          if trimmed = [] then None
          else (case normalizeIpAddress pkg (Some (stripOptionalPort pkg trimmed)) of
                  None \<Rightarrow> None
                | Some normalized \<Rightarrow>
                    if normalized = [] \<or> netIsIP pkg normalized = 0 then None else Some normalized))"

definition isTrustedProxyAddress :: "'a ip_package \<Rightarrow> string option \<Rightarrow> string list option \<Rightarrow> bool" where
  "isTrustedProxyAddress pkg ip trustedProxies =
     (case (normalizeIpAddress pkg ip, trustedProxies) of
        (Some normalized, Some proxies) \<Rightarrow>
          normalized \<noteq> [] \<and> proxies \<noteq> [] \<and>
          list_ex (\<lambda>proxy. let candidate = js_trim proxy in candidate \<noteq> [] \<and> isIpInCidr pkg normalized candidate)
            proxies
      | _ \<Rightarrow> False)"

text \<open>The walk from the right over the forwarded addresses.\<close>

fun first_untrusted :: "'a ip_package \<Rightarrow> string list option \<Rightarrow> string list \<Rightarrow> string option" where
  "first_untrusted pkg trustedProxies [] = None"
| "first_untrusted pkg trustedProxies (hop # hops) =
     (if isLoopbackIpAddress pkg (Some hop) then first_untrusted pkg trustedProxies hops
      else if \<not> isTrustedProxyAddress pkg (Some hop) trustedProxies then Some hop
      else first_untrusted pkg trustedProxies hops)"

definition forwarded_chain :: "'a ip_package \<Rightarrow> string option \<Rightarrow> string list" where
  "forwarded_chain pkg forwardedFor =
     (case forwardedFor of
        None \<Rightarrow> []
      | Some s \<Rightarrow> List.map_filter (\<lambda>entry. parseIpLiteral pkg (Some entry)) (js_split CHR '','' s))"

definition resolveForwardedClientIp ::
  "'a ip_package \<Rightarrow> string option \<Rightarrow> string list option \<Rightarrow> string option" where
  "resolveForwardedClientIp pkg forwardedFor trustedProxies =
     (if js_nullish trustedProxies [] = [] then None
      else first_untrusted pkg trustedProxies (rev (forwarded_chain pkg forwardedFor)))"

record ip_request =
  remoteAddr :: "string option"
  forwardedFor :: "string option"
  realIp :: "string option"
  trustedProxies :: "string list option"
  allowRealIpFallback :: bool

definition resolveClientIp :: "'a ip_package \<Rightarrow> ip_request \<Rightarrow> string option" where
  "resolveClientIp pkg req =
     (case normalizeIpAddress pkg (remoteAddr req) of
        None \<Rightarrow> None
      | Some remote \<Rightarrow>
          if remote = [] then None
          else if \<not> isTrustedProxyAddress pkg (Some remote) (trustedProxies req) then Some remote
          else (case resolveForwardedClientIp pkg (forwardedFor req) (trustedProxies req) of
                  Some forwardedIp \<Rightarrow> Some forwardedIp
                | None \<Rightarrow> if allowRealIpFallback req then parseIpLiteral pkg (realIp req) else None))"

section \<open>What the resolved address is\<close>

lemma first_untrusted_Some:
  "first_untrusted pkg proxies hops = Some ip \<Longrightarrow>
   \<exists>pre post. hops = pre @ ip # post \<and> \<not> isLoopbackIpAddress pkg (Some ip) \<and>
     \<not> isTrustedProxyAddress pkg (Some ip) proxies \<and>
     (\<forall>h \<in> set pre. isLoopbackIpAddress pkg (Some h) \<or> isTrustedProxyAddress pkg (Some h) proxies)"
proof (induction hops)
  case (Cons hop hops)
  show ?case
  proof (cases "isLoopbackIpAddress pkg (Some hop) \<or> isTrustedProxyAddress pkg (Some hop) proxies")
    case True
    then obtain pre post where "hops = pre @ ip # post" "\<not> isLoopbackIpAddress pkg (Some ip)"
      "\<not> isTrustedProxyAddress pkg (Some ip) proxies"
      "\<forall>h \<in> set pre. isLoopbackIpAddress pkg (Some h) \<or> isTrustedProxyAddress pkg (Some h) proxies"
      using Cons by (auto split: if_splits)
    then show ?thesis using True by (intro exI[of _ "hop # pre"] exI[of _ post]) simp
  next
    case False
    then show ?thesis using Cons.prems by (intro exI[of _ "[]"] exI[of _ hops]) simp
  qed
qed simp

text \<open>
  C10: a client cannot choose its own address: unless its connection comes from a trusted proxy
  the address is the one of the connection, whatever the headers say; behind a trusted proxy
  it is the rightmost forwarded hop that is neither loopback nor a trusted proxy, or (only where
  the operator asked for it, and when there is no such hop) the address in the real-IP header.
\<close>

theorem client_ip_provenance:
  assumes "resolveClientIp pkg req = Some ip"
  shows "\<exists>remote. normalizeIpAddress pkg (remoteAddr req) = Some remote \<and>
     (if \<not> isTrustedProxyAddress pkg (Some remote) (trustedProxies req) then ip = remote
      else (\<exists>left right. forwarded_chain pkg (forwardedFor req) = left @ ip # right \<and>
              \<not> isLoopbackIpAddress pkg (Some ip) \<and> \<not> isTrustedProxyAddress pkg (Some ip) (trustedProxies req) \<and>
              (\<forall>h \<in> set right. isLoopbackIpAddress pkg (Some h) \<or>
                 isTrustedProxyAddress pkg (Some h) (trustedProxies req))) \<or>
           allowRealIpFallback req \<and> parseIpLiteral pkg (realIp req) = Some ip \<and>
           resolveForwardedClientIp pkg (forwardedFor req) (trustedProxies req) = None)"
proof -
  obtain remote where remote: "normalizeIpAddress pkg (remoteAddr req) = Some remote"
    using assms by (auto simp: resolveClientIp_def split: option.splits)
  show ?thesis
  proof (cases "isTrustedProxyAddress pkg (Some remote) (trustedProxies req)")
    case False
    then show ?thesis using assms remote by (auto simp: resolveClientIp_def split: if_splits)
  next
    case True
    show ?thesis
    proof (cases "resolveForwardedClientIp pkg (forwardedFor req) (trustedProxies req)")
      case None
      then show ?thesis using assms remote True by (auto simp: resolveClientIp_def split: if_splits)
    next
      case (Some hop)
      then have "hop = ip" using assms remote True by (auto simp: resolveClientIp_def split: if_splits)
      then obtain pre post where h: "rev (forwarded_chain pkg (forwardedFor req)) = pre @ ip # post"
        "\<not> isLoopbackIpAddress pkg (Some ip)" "\<not> isTrustedProxyAddress pkg (Some ip) (trustedProxies req)"
        "\<forall>h \<in> set pre. isLoopbackIpAddress pkg (Some h) \<or> isTrustedProxyAddress pkg (Some h) (trustedProxies req)"
        using Some first_untrusted_Some[of pkg "trustedProxies req" "rev (forwarded_chain pkg (forwardedFor req))" ip]
        by (auto simp: resolveForwardedClientIp_def split: if_splits)
      have "forwarded_chain pkg (forwardedFor req) = rev post @ ip # rev pre"
        using arg_cong[OF h(1), of rev] by simp
      then have "\<exists>left right. forwarded_chain pkg (forwardedFor req) = left @ ip # right \<and>
          \<not> isLoopbackIpAddress pkg (Some ip) \<and> \<not> isTrustedProxyAddress pkg (Some ip) (trustedProxies req) \<and>
          (\<forall>h \<in> set right. isLoopbackIpAddress pkg (Some h) \<or>
             isTrustedProxyAddress pkg (Some h) (trustedProxies req))"
        using h(2-4) by (intro exI[of _ "rev post"] exI[of _ "rev pre"]) simp
      then show ?thesis
        unfolding remote by (intro exI[of _ remote] conjI refl) (simp only: True not_True_eq_False if_False simp_thms)
    qed
  qed
qed

text \<open>
  A package for the witness: addresses are their own text, everything without a colon is an
  IPv4 address, and \<open>127.0.0.1\<close> is the loopback.
\<close>

definition toy_package :: "string ip_package" where
  "toy_package =
     \<lparr>v4IsValid = (\<lambda>s. \<not> List.member s CHR '':''), v4IsFourPart = (\<lambda>s. \<not> List.member s CHR '':''),
      v4Parse = (\<lambda>s. s), v6IsValid = (\<lambda>s. False), v6Parse = (\<lambda>s. s), addrIsV6 = (\<lambda>s. False),
      addrIsV4Mapped = (\<lambda>s. False), addrToV4 = (\<lambda>s. s), addrToString = (\<lambda>s. s),
      addrRange = (\<lambda>s. if s = ''127.0.0.1'' then ''loopback'' else ''unicast''),
      parseCIDR = (\<lambda>s. None), addrMatch = (\<lambda>a b. None),
      netIsIP = (\<lambda>s. if List.member s CHR '':'' then 0 else 4)\<rparr>"

definition proxied_request :: ip_request where
  "proxied_request =
     \<lparr>remoteAddr = Some ''10.0.0.1'', forwardedFor = Some ''6.6.6.6, 9.9.9.9:443, 127.0.0.1'', realIp = None,
      trustedProxies = Some [''10.0.0.1''], allowRealIpFallback = False\<rparr>"

lemma client_ip_provenance_witness:
  "resolveClientIp toy_package proxied_request = Some ''9.9.9.9'' \<and>
   \<not> isLoopbackIpAddress toy_package (Some ''9.9.9.9'')"
proof -
  have ip: "resolveClientIp toy_package proxied_request = Some ''9.9.9.9''"
    unfolding toy_package_def proxied_request_def by code_simp
  have "normalizeIpAddress toy_package (Some ''10.0.0.1'') = Some ''10.0.0.1''"
    "isTrustedProxyAddress toy_package (Some ''10.0.0.1'') (Some [''10.0.0.1''])"
    unfolding toy_package_def by code_simp+
  then show ?thesis using client_ip_provenance[OF ip] ip by (auto simp: proxied_request_def)
qed

end
