(* ===== verification/Auth_Rate_Limit.thy ===== *)
theory Auth_Rate_Limit
  imports Client_Ip
begin

text \<open>
  \<open>src/gateway/auth-rate-limit.ts\<close>: the sliding-window limiter of failed authentication
  attempts, by credential scope and client address. The closure's configuration is a record,
  its map a \<open>jmap\<close>; \<open>Date.now()\<close> is the argument \<open>now\<close>. A locked-until instant of zero is falsy in
  the source and therefore no lock. The prune timer is the operation \<open>prune\<close>, an event that can
  happen at any time; disposing the limiter empties the map.
\<close>

section \<open>Configuration and keys\<close>

record rate_limit_config =
  optMaxAttempts :: "int option"
  optWindowMs :: "int option"
  optLockoutMs :: "int option"
  optExemptLoopback :: "bool option"

record auth_config =
  maxAttempts :: int
  windowMs :: int
  lockoutMs :: int
  exemptLoopback :: bool

record rate_entry =
  attempts :: "int list"
  lockedUntil :: "int option"

type_synonym rate_table = "(string, rate_entry) jmap"

record check_result =
  chAllowed :: bool
  chRemaining :: int
  chRetryAfterMs :: int

definition createAuthRateLimiter :: "rate_limit_config option \<Rightarrow> auth_config \<times> rate_table" where
  "createAuthRateLimiter config =
     (\<lparr>maxAttempts = js_nullish (Option.bind config optMaxAttempts) 10,
       windowMs = js_nullish (Option.bind config optWindowMs) 60000,
       lockoutMs = js_nullish (Option.bind config optLockoutMs) 300000,
       exemptLoopback = js_nullish (Option.bind config optExemptLoopback) True\<rparr>, [])"

definition AUTH_RATE_LIMIT_SCOPE_DEFAULT :: string where
  "AUTH_RATE_LIMIT_SCOPE_DEFAULT = ''default''"

definition BROWSER_ORIGIN_RATE_LIMIT_KEY_PREFIX :: string where
  "BROWSER_ORIGIN_RATE_LIMIT_KEY_PREFIX = ''browser-origin:''"

definition normalizeRateLimitClientIp :: "'a ip_package \<Rightarrow> string option \<Rightarrow> string" where
  "normalizeRateLimitClientIp pkg ip =
     (case (case ip of None \<Rightarrow> None
            | Some s \<Rightarrow> if js_starts_with s BROWSER_ORIGIN_RATE_LIMIT_KEY_PREFIX then Some s else None) of
        Some s \<Rightarrow> s
      | None \<Rightarrow>
          js_nullish
            (resolveClientIp pkg
               \<lparr>remoteAddr = ip, forwardedFor = None, realIp = None, trustedProxies = None,
                allowRealIpFallback = False\<rparr>) ''unknown'')"

definition normalizeScope :: "string option \<Rightarrow> string" where
  "normalizeScope scope =
     js_or_str (js_trim (js_nullish scope AUTH_RATE_LIMIT_SCOPE_DEFAULT)) AUTH_RATE_LIMIT_SCOPE_DEFAULT"

definition resolveKey :: "'a ip_package \<Rightarrow> string option \<Rightarrow> string option \<Rightarrow> string \<times> string" where
  "resolveKey pkg rawIp rawScope =
     (let ip = normalizeRateLimitClientIp pkg rawIp in (normalizeScope rawScope @ '':'' @ ip, ip))"

definition isExempt :: "'a ip_package \<Rightarrow> auth_config \<Rightarrow> string \<Rightarrow> bool" where
  "isExempt pkg cfg ip \<longleftrightarrow> exemptLoopback cfg \<and> isLoopbackIpAddress pkg (Some ip)"

section \<open>Operations on one entry\<close>

definition slideWindow :: "auth_config \<Rightarrow> int \<Rightarrow> rate_entry \<Rightarrow> rate_entry" where
  "slideWindow cfg now e = e\<lparr>attempts := filter (\<lambda>ts. ts > now - windowMs cfg) (attempts e)\<rparr>"

definition locked_at :: "rate_entry \<Rightarrow> int option" where
  "locked_at e = (case lockedUntil e of Some t \<Rightarrow> if t = 0 then None else Some t | None \<Rightarrow> None)"

definition check_entry :: "auth_config \<Rightarrow> int \<Rightarrow> rate_entry \<Rightarrow> check_result \<times> rate_entry" where
  "check_entry cfg now e =
     (case (case locked_at e of Some t \<Rightarrow> if now < t then Some t else None | None \<Rightarrow> None) of
        Some t \<Rightarrow> (\<lparr>chAllowed = False, chRemaining = 0, chRetryAfterMs = t - now\<rparr>, e)
      | None \<Rightarrow>
          (let e1 = (if locked_at e \<noteq> None then e\<lparr>lockedUntil := None, attempts := []\<rparr> else e);
               e2 = slideWindow cfg now e1;
               remaining = max 0 (maxAttempts cfg - int (length (attempts e2)))
           in (\<lparr>chAllowed = remaining > 0, chRemaining = remaining, chRetryAfterMs = 0\<rparr>, e2)))"

definition record_entry :: "auth_config \<Rightarrow> int \<Rightarrow> rate_entry \<Rightarrow> rate_entry" where
  "record_entry cfg now e =
     (if (case locked_at e of Some t \<Rightarrow> now < t | None \<Rightarrow> False) then e
      else let e1 = slideWindow cfg now e;
               e2 = e1\<lparr>attempts := attempts e1 @ [now]\<rparr>
           in if int (length (attempts e2)) \<ge> maxAttempts cfg
              then e2\<lparr>lockedUntil := Some (now + lockoutMs cfg)\<rparr> else e2)"

definition new_rate_entry :: rate_entry where
  "new_rate_entry = \<lparr>attempts = [], lockedUntil = None\<rparr>"

section \<open>The limiter\<close>

definition check ::
  "'a ip_package \<Rightarrow> auth_config \<Rightarrow> int \<Rightarrow> string option \<Rightarrow> string option \<Rightarrow> rate_table \<Rightarrow> check_result \<times> rate_table"
where
  "check pkg cfg now rawIp rawScope m =
     (case resolveKey pkg rawIp rawScope of (key, ip) \<Rightarrow>
        (let free = \<lparr>chAllowed = True, chRemaining = maxAttempts cfg, chRetryAfterMs = 0\<rparr>
         in if isExempt pkg cfg ip then (free, m)
            else case jm_get m key of
              None \<Rightarrow> (free, m)
            | Some e \<Rightarrow> (case check_entry cfg now e of (r, e') \<Rightarrow> (r, jm_set key e' m))))"

definition recordFailure ::
  "'a ip_package \<Rightarrow> auth_config \<Rightarrow> int \<Rightarrow> string option \<Rightarrow> string option \<Rightarrow> rate_table \<Rightarrow> rate_table" where
  "recordFailure pkg cfg now rawIp rawScope m =
     (case resolveKey pkg rawIp rawScope of (key, ip) \<Rightarrow>
        if isExempt pkg cfg ip then m
        else jm_set key (record_entry cfg now (js_nullish (jm_get m key) new_rate_entry)) m)"

definition reset :: "'a ip_package \<Rightarrow> string option \<Rightarrow> string option \<Rightarrow> rate_table \<Rightarrow> rate_table" where
  "reset pkg rawIp rawScope m = jm_del (fst (resolveKey pkg rawIp rawScope)) m"

definition prune_entry :: "auth_config \<Rightarrow> int \<Rightarrow> rate_entry \<Rightarrow> rate_entry option" where
  "prune_entry cfg now e =
     (if (case locked_at e of Some t \<Rightarrow> now < t | None \<Rightarrow> False) then Some e
      else let e' = slideWindow cfg now e in if attempts e' = [] then None else Some e')"

definition prune :: "auth_config \<Rightarrow> int \<Rightarrow> rate_table \<Rightarrow> rate_table" where
  "prune cfg now m = List.map_filter (\<lambda>(k, e). map_option (Pair k) (prune_entry cfg now e)) m"

definition tracked :: "rate_table \<Rightarrow> nat" where
  "tracked m = length m"

definition dispose :: "rate_table \<Rightarrow> rate_table" where
  "dispose m = []"

section \<open>Properties\<close>

lemma jm_get_prune:
  "jm_wf m \<Longrightarrow> jm_get (prune cfg now m) k = Option.bind (jm_get m k) (prune_entry cfg now)"
  unfolding jm_wf_def
proof (induction m)
  case (Cons p m)
  obtain k' e where p: "p = (k', e)" by (cases p)
  have "map_of (prune cfg now m) k' = None"
    using Cons.prems p by (auto simp: map_of_eq_None_iff prune_def List.map_filter_def image_iff)
  then show ?case using Cons p by (auto simp: prune_def List.map_filter_simps split: option.splits)
qed (simp add: prune_def List.map_filter_simps)

text \<open>A failure recorded by an entry that is not locked, and what the next check makes of it.\<close>

lemma record_entry_open:
  assumes "locked_at e = None \<or> (\<exists>t. locked_at e = Some t \<and> t \<le> now)"
  shows "attempts (record_entry cfg now e) = filter (\<lambda>ts. ts > now - windowMs cfg) (attempts e) @ [now]"
    and "lockedUntil (record_entry cfg now e) =
      (if int (length (filter (\<lambda>ts. ts > now - windowMs cfg) (attempts e))) + 1 \<ge> maxAttempts cfg
       then Some (now + lockoutMs cfg) else lockedUntil e)"
  using assms by (auto simp: record_entry_def slideWindow_def Let_def)

definition fail_many :: "auth_config \<Rightarrow> int list \<Rightarrow> rate_entry \<Rightarrow> rate_entry" where
  "fail_many cfg ts e = fold (record_entry cfg) ts e"

lemma fail_many_below:
  assumes "0 < windowMs cfg" and "sorted ts" and "\<forall>t \<in> set ts. a \<le> t \<and> t < a + windowMs cfg"
    and "locked_at e = None" and "\<forall>t \<in> set (attempts e). a \<le> t"
    and "int (length (attempts e) + length ts) < maxAttempts cfg"
  shows "fail_many cfg ts e = e\<lparr>attempts := attempts e @ ts\<rparr>"
  using assms
proof (induction ts arbitrary: e)
  case (Cons t ts)
  have f: "filter (\<lambda>x. x > t - windowMs cfg) (attempts e) = attempts e"
    using Cons.prems(3,5) by (intro filter_True) force
  have r: "record_entry cfg t e = e\<lparr>attempts := attempts e @ [t]\<rparr>"
    using Cons.prems(4,6) f by (simp add: record_entry_def slideWindow_def Let_def)
  have "fail_many cfg ts (e\<lparr>attempts := attempts e @ [t]\<rparr>) =
      (e\<lparr>attempts := attempts e @ [t]\<rparr>)\<lparr>attempts := attempts (e\<lparr>attempts := attempts e @ [t]\<rparr>) @ ts\<rparr>"
    using Cons.prems by (intro Cons.IH) (auto simp: locked_at_def)
  then show ?case by (simp add: fail_many_def r)
qed (simp add: fail_many_def)

lemma record_get:
  "resolveKey pkg rawIp rawScope = (key, ip) \<Longrightarrow> \<not> isExempt pkg cfg ip \<Longrightarrow>
   jm_get (fold (\<lambda>t. recordFailure pkg cfg t rawIp rawScope) ts m) key =
     (if ts = [] then jm_get m key else Some (fail_many cfg ts (js_nullish (jm_get m key) new_rate_entry)))"
proof (induction ts arbitrary: m)
  case (Cons t ts)
  then show ?case
    by (simp add: Cons.IH) (simp add: recordFailure_def store_simps fail_many_def)
qed simp

lemma check_tracked:
  "resolveKey pkg rawIp rawScope = (key, ip) \<Longrightarrow> \<not> isExempt pkg cfg ip \<Longrightarrow> jm_get m key = Some e \<Longrightarrow>
   fst (check pkg cfg now rawIp rawScope m) = fst (check_entry cfg now e)"
  by (simp add: check_def split: prod.split)


definition two_strikes :: auth_config where
  "two_strikes = \<lparr>maxAttempts = 2, windowMs = 1000, lockoutMs = 5000, exemptLoopback = True\<rparr>"


text \<open>
  a failure that is recorded after a lockout has run out, and before anyone checked, is
  forgotten: the entry still carries the old lockout, and the next check clears the entry with
  the new failure in it. Had the entry been pruned or checked first, the failure would count.
\<close>

theorem expired_lock_forgets_failure:
  assumes "locked_at e = Some until" and "until \<le> now" and "now \<le> later" and "1 < maxAttempts cfg"
    and "0 < windowMs cfg" and "later < now + windowMs cfg"
    and "\<forall>t \<in> set (attempts e). t \<le> now - windowMs cfg"
  shows "fst (check_entry cfg later (record_entry cfg now e)) =
           \<lparr>chAllowed = True, chRemaining = maxAttempts cfg, chRetryAfterMs = 0\<rparr> \<and>
         fst (check_entry cfg later (record_entry cfg now (snd (check_entry cfg now e)))) =
           \<lparr>chAllowed = True, chRemaining = maxAttempts cfg - 1, chRetryAfterMs = 0\<rparr>"
proof -
  have none: "filter (\<lambda>ts. ts > now - windowMs cfg) (attempts e) = []"
    using assms(7) by (force simp: filter_empty_conv)
  have r: "record_entry cfg now e = e\<lparr>attempts := [now]\<rparr>"
    using assms(1,2,4) none by (simp add: record_entry_def slideWindow_def Let_def)
  have l: "locked_at (e\<lparr>attempts := [now]\<rparr>) = Some until" using assms(1) by (simp add: locked_at_def)
  have c: "snd (check_entry cfg now e) = e\<lparr>lockedUntil := None, attempts := []\<rparr>"
    using assms(1,2) by (simp add: check_entry_def slideWindow_def Let_def)
  have r2: "record_entry cfg now (e\<lparr>lockedUntil := None, attempts := []\<rparr>) =
      e\<lparr>lockedUntil := None, attempts := [now]\<rparr>"
    using assms(4) by (simp add: record_entry_def slideWindow_def locked_at_def Let_def)
  have "fst (check_entry cfg later (e\<lparr>attempts := [now]\<rparr>)) =
      \<lparr>chAllowed = True, chRemaining = maxAttempts cfg, chRetryAfterMs = 0\<rparr>"
    using assms(2,3,4) l by (simp add: check_entry_def slideWindow_def Let_def)
  moreover have "fst (check_entry cfg later (e\<lparr>lockedUntil := None, attempts := [now]\<rparr>)) =
      \<lparr>chAllowed = True, chRemaining = maxAttempts cfg - 1, chRetryAfterMs = 0\<rparr>"
    using assms(4,6) by (simp add: check_entry_def slideWindow_def locked_at_def Let_def)
  ultimately show ?thesis by (simp only: r c r2)
qed

lemma expired_lock_forgets_failure_witness:
  "chRemaining (fst (check_entry two_strikes 7000 (record_entry two_strikes 6500
     \<lparr>attempts = [100, 200], lockedUntil = Some 5200\<rparr>))) = 2"
  using expired_lock_forgets_failure[of "\<lparr>attempts = [100, 200], lockedUntil = Some 5200\<rparr>" 5200 6500 7000 two_strikes]
  by (simp add: two_strikes_def locked_at_def)

text \<open>Pruning is invisible to checks: an entry is dropped only when it says nothing any more.\<close>

lemma prune_entry_invisible:
  assumes "now \<le> later" and "0 < maxAttempts cfg"
  shows "(case prune_entry cfg now e of
            None \<Rightarrow> \<lparr>chAllowed = True, chRemaining = maxAttempts cfg, chRetryAfterMs = 0\<rparr>
          | Some e' \<Rightarrow> fst (check_entry cfg later e')) = fst (check_entry cfg later e)"
proof -
  have twice: "filter (\<lambda>ts. ts > later - windowMs cfg) (filter (\<lambda>ts. ts > now - windowMs cfg) xs) =
      filter (\<lambda>ts. ts > later - windowMs cfg) xs" for xs
    using assms(1) by (auto intro: filter_cong)
  have gone: "filter (\<lambda>ts. ts > later - windowMs cfg) xs = []"
    if "filter (\<lambda>ts. ts > now - windowMs cfg) xs = []" for xs
    using that twice[of xs] by simp
  show ?thesis
    using assms gone twice
    by (auto simp: prune_entry_def check_entry_def slideWindow_def locked_at_def Let_def split: option.splits)
qed

end
