(* ===== verification/Exec_Approvals.thy ===== *)
theory Exec_Approvals
  imports Contracts
begin

text \<open>
  \<open>src/gateway/exec-approval-manager.ts\<close>: the approvals an operator gives to commands that
  wait for them. The manager's map is \<open>pending\<close>; the objects it closes over are kept beside it:
  an entry has an identity (\<open>entryId\<close>, the object), the running timeout timers and the scheduled
  cleanups are lists of the entries they hold, \<open>decided\<close> is the log of the resolutions of the
  entries' promises and \<open>consumed\<close> the log of the successful calls of \<open>consumeAllowOnce\<close>. The
  request payload is a type parameter; \<open>randomUUID\<close> and the clock are arguments.
\<close>

section \<open>State\<close>

datatype approval_decision = AllowOnce | AllowAlways | Deny

record 'p approval_record =
  approvalId :: string
  request :: 'p
  createdAtMs :: int
  expiresAtMs :: int
  requestedByConnId :: "string option"
  requestedByDeviceId :: "string option"
  requestedByClientId :: "string option"
  requestedByDeviceTokenAuth :: bool
  resolvedAtMs :: "int option"
  approvalDecision :: "approval_decision option"
  consumedDecision :: "approval_decision option"
  resolvedBy :: "string option"

record 'p pending_entry =
  entryId :: nat
  approval :: "'p approval_record"

record 'p approvals =
  pending :: "(string, 'p pending_entry) jmap"
  nextEntryId :: nat
  timers :: "nat list"
  cleanups :: "nat list"
  decided :: "(nat \<times> approval_decision option) list"
  consumed :: "nat list"

definition no_approvals :: "'p approvals" where
  "no_approvals = \<lparr>pending = [], nextEntryId = 0, timers = [], cleanups = [], decided = [], consumed = []\<rparr>"

datatype lookup_result = LookupExact string | LookupPrefix string | LookupAmbiguous "string list" | LookupNone

section \<open>Operations\<close>

definition create :: "int \<Rightarrow> string \<Rightarrow> 'p \<Rightarrow> int \<Rightarrow> string option \<Rightarrow> 'p approval_record" where
  "create now uuid req timeoutMs i =
     \<lparr>approvalId = (case i of None \<Rightarrow> uuid | Some s \<Rightarrow> if js_trim s \<noteq> [] then js_trim s else uuid),
      request = req, createdAtMs = now, expiresAtMs = now + timeoutMs, requestedByConnId = None,
      requestedByDeviceId = None, requestedByClientId = None, requestedByDeviceTokenAuth = False,
      resolvedAtMs = None, approvalDecision = None, consumedDecision = None, resolvedBy = None\<rparr>"

text \<open>The result is the identity of the entry whose promise the caller gets, or the error.\<close>

definition register :: "'p approval_record \<Rightarrow> 'p approvals \<Rightarrow> (string + nat) \<times> 'p approvals" where
  "register r st =
     (case jm_get (pending st) (approvalId r) of
        Some existing \<Rightarrow>
          (if resolvedAtMs (approval existing) = None then Inr (entryId existing)
           else Inl (''approval id '' @ approvalId r @ '' already resolved''), st)
      | None \<Rightarrow>
          (let e = nextEntryId st
           in (Inr e,
               st\<lparr>nextEntryId := e + 1, timers := timers st @ [e],
                  pending := jm_set (approvalId r) \<lparr>entryId = e, approval = r\<rparr> (pending st)\<rparr>)))"

text \<open>\<open>resolve\<close> and \<open>expire\<close> differ in the decision they store: \<open>None\<close> is an expired approval.\<close>

definition settle_approval ::
  "int \<Rightarrow> string \<Rightarrow> approval_decision option \<Rightarrow> string option \<Rightarrow> 'p approvals \<Rightarrow> bool \<times> 'p approvals" where
  "settle_approval now i d by st =
     (case jm_get (pending st) i of
        None \<Rightarrow> (False, st)
      | Some entry \<Rightarrow>
          if resolvedAtMs (approval entry) \<noteq> None then (False, st)
          else (True,
            st\<lparr>timers := removeAll (entryId entry) (timers st),
               pending := jm_set i (entry\<lparr>approval := (approval entry)\<lparr>resolvedAtMs := Some now,
                  approvalDecision := d, resolvedBy := by\<rparr>\<rparr>) (pending st),
               decided := decided st @ [(entryId entry, d)],
               cleanups := cleanups st @ [entryId entry]\<rparr>))"

definition resolve_approval ::
  "int \<Rightarrow> string \<Rightarrow> approval_decision \<Rightarrow> string option \<Rightarrow> 'p approvals \<Rightarrow> bool \<times> 'p approvals" where
  "resolve_approval now i d by st = settle_approval now i (Some d) by st"

definition expire_approval :: "int \<Rightarrow> string \<Rightarrow> string option \<Rightarrow> 'p approvals \<Rightarrow> bool \<times> 'p approvals" where
  "expire_approval now i by st = settle_approval now i None by st"

text \<open>The timeout timer of an entry fires: it expires whatever is registered under the id.\<close>

definition timer_fires :: "int \<Rightarrow> nat \<Rightarrow> string \<Rightarrow> 'p approvals \<Rightarrow> 'p approvals" where
  "timer_fires now e i st =
     (if List.member (timers st) e
      then snd (expire_approval now i None (st\<lparr>timers := removeAll e (timers st)\<rparr>)) else st)"

definition cleanup_fires :: "nat \<Rightarrow> string \<Rightarrow> 'p approvals \<Rightarrow> 'p approvals" where
  "cleanup_fires e i st =
     (if \<not> List.member (cleanups st) e then st
      else let st1 = st\<lparr>cleanups := removeAll e (cleanups st)\<rparr>
           in case jm_get (pending st) i of
                None \<Rightarrow> st1
              | Some entry \<Rightarrow> if entryId entry = e then st1\<lparr>pending := jm_del i (pending st)\<rparr> else st1)"

definition getSnapshot :: "string \<Rightarrow> 'p approvals \<Rightarrow> 'p approval_record option" where
  "getSnapshot i st = map_option approval (jm_get (pending st) i)"

definition listPendingRecords :: "'p approvals \<Rightarrow> 'p approval_record list" where
  "listPendingRecords st = filter (\<lambda>r. resolvedAtMs r = None) (map (\<lambda>p. approval (snd p)) (pending st))"

definition consumeAllowOnce :: "string \<Rightarrow> 'p approvals \<Rightarrow> bool \<times> 'p approvals" where
  "consumeAllowOnce i st =
     (case jm_get (pending st) i of
        None \<Rightarrow> (False, st)
      | Some entry \<Rightarrow>
          if approvalDecision (approval entry) \<noteq> Some AllowOnce then (False, st)
          else (True,
            st\<lparr>pending := jm_set i (entry\<lparr>approval := (approval entry)
                  \<lparr>consumedDecision := approvalDecision (approval entry), approvalDecision := None\<rparr>\<rparr>) (pending st),
               consumed := consumed st @ [entryId entry]\<rparr>))"

definition awaitDecision :: "string \<Rightarrow> 'p approvals \<Rightarrow> nat option" where
  "awaitDecision i st = map_option entryId (jm_get (pending st) i)"

definition lookupApprovalId ::
  "string \<Rightarrow> bool \<Rightarrow> ('p approval_record \<Rightarrow> bool) option \<Rightarrow> 'p approvals \<Rightarrow> lookup_result" where
  "lookupApprovalId input includeResolved accept st =
     (let normalized = js_trim input;
          ok = (\<lambda>r. (includeResolved \<or> resolvedAtMs r = None) \<and> js_nullish accept (\<lambda>x. True) r)
      in if normalized = [] then LookupNone
         else case jm_get (pending st) normalized of
           Some exact \<Rightarrow> if ok (approval exact) then LookupExact normalized else LookupNone
         | None \<Rightarrow>
             (let lowerPrefix = normalizeLowercaseStringOrEmpty normalized;
                  matches = map fst (filter (\<lambda>p. ok (approval (snd p)) \<and>
                    js_starts_with (normalizeLowercaseStringOrEmpty (fst p)) lowerPrefix) (pending st))
              in case matches of
                   [] \<Rightarrow> LookupNone
                 | [i] \<Rightarrow> LookupPrefix i
                 | _ \<Rightarrow> LookupAmbiguous matches))"

definition lookupPendingId :: "string \<Rightarrow> 'p approvals \<Rightarrow> lookup_result" where
  "lookupPendingId input st = lookupApprovalId input False None st"

section \<open>Events\<close>

text \<open>
  What can happen to the manager. A timer and a cleanup are for the entry that scheduled them,
  with the id it was registered under.
\<close>

datatype 'p approval_event =
    Register "'p approval_record"
  | Resolve int string approval_decision "string option"
  | Expire int string "string option"
  | TimerFires int nat
  | CleanupFires nat
  | Consume string

text \<open>The id the closure of an entry captured: the log of registrations, by identity.\<close>

record 'p manager =
  approvals :: "'p approvals"
  captured :: "string list"

definition new_manager :: "'p manager" where
  "new_manager = \<lparr>approvals = no_approvals, captured = []\<rparr>"

fun approval_step :: "'p approval_event \<Rightarrow> 'p manager \<Rightarrow> 'p manager" where
  "approval_step (Register r) m =
     (let st' = snd (register r (approvals m))
      in m\<lparr>approvals := st',
           captured := (if nextEntryId st' = nextEntryId (approvals m) then captured m
                        else captured m @ [approvalId r])\<rparr>)"
| "approval_step (Resolve now i d by) m = m\<lparr>approvals := snd (resolve_approval now i d by (approvals m))\<rparr>"
| "approval_step (Expire now i by) m = m\<lparr>approvals := snd (expire_approval now i by (approvals m))\<rparr>"
| "approval_step (TimerFires now e) m =
     (if e < length (captured m)
      then m\<lparr>approvals := timer_fires now e (captured m ! e) (approvals m)\<rparr> else m)"
| "approval_step (CleanupFires e) m =
     (if e < length (captured m)
      then m\<lparr>approvals := cleanup_fires e (captured m ! e) (approvals m)\<rparr> else m)"
| "approval_step (Consume i) m = m\<lparr>approvals := snd (consumeAllowOnce i (approvals m))\<rparr>"

definition approvals_reachable :: "'p manager \<Rightarrow> bool" where
  "approvals_reachable m \<longleftrightarrow>
     rtranclp (\<lambda>s t. \<exists>e. (\<forall>r. e = Register r \<longrightarrow> resolvedAtMs r = None \<and> approvalDecision r = None) \<and>
       t = approval_step e s) new_manager m"

section \<open>The invariant\<close>

definition entry_ok :: "'p approvals \<Rightarrow> 'p pending_entry \<Rightarrow> bool" where
  "entry_ok st en \<longleftrightarrow>
     (if resolvedAtMs (approval en) = None
      then entryId en \<in> set (timers st) \<and> entryId en \<notin> fst ` set (decided st) \<and>
           entryId en \<notin> set (consumed st) \<and> entryId en \<notin> set (cleanups st) \<and>
           approvalDecision (approval en) = None
      else entryId en \<in> set (cleanups st) \<and> entryId en \<notin> set (timers st) \<and>
           (if entryId en \<in> set (consumed st)
            then approvalDecision (approval en) = None \<and> (entryId en, Some AllowOnce) \<in> set (decided st)
            else (entryId en, approvalDecision (approval en)) \<in> set (decided st)))"

definition approvals_inv :: "'p manager \<Rightarrow> bool" where
  "approvals_inv m \<longleftrightarrow>
     (let st = approvals m in
      jm_wf (pending st) \<and> length (captured m) = nextEntryId st \<and>
      (\<forall>i en. jm_get (pending st) i = Some en \<longrightarrow>
         entryId en < nextEntryId st \<and> captured m ! entryId en = i \<and> approvalId (approval en) = i \<and>
         entry_ok st en) \<and>
      (\<forall>e \<in> set (timers st). e < nextEntryId st \<and>
         (\<exists>en. jm_get (pending st) (captured m ! e) = Some en \<and> entryId en = e \<and>
                resolvedAtMs (approval en) = None)) \<and>
      (\<forall>e \<in> set (cleanups st). e < nextEntryId st) \<and>
      (\<forall>e \<in> fst ` set (decided st). e < nextEntryId st) \<and> distinct (map fst (decided st)) \<and>
      (\<forall>e \<in> set (consumed st). (e, Some AllowOnce) \<in> set (decided st)) \<and> distinct (consumed st))"

lemma approvals_invD:
  assumes "approvals_inv m"
  shows "jm_wf (pending (approvals m))" "length (captured m) = nextEntryId (approvals m)"
    "jm_get (pending (approvals m)) i = Some en \<Longrightarrow> entryId en < nextEntryId (approvals m)"
    "jm_get (pending (approvals m)) i = Some en \<Longrightarrow> captured m ! entryId en = i"
    "jm_get (pending (approvals m)) i = Some en \<Longrightarrow> approvalId (approval en) = i"
    "jm_get (pending (approvals m)) i = Some en \<Longrightarrow> entry_ok (approvals m) en"
    "distinct (map fst (decided (approvals m)))" "distinct (consumed (approvals m))"
    "e \<in> set (timers (approvals m)) \<Longrightarrow> e < nextEntryId (approvals m)"
    "e \<in> set (timers (approvals m)) \<Longrightarrow>
       \<exists>en. jm_get (pending (approvals m)) (captured m ! e) = Some en \<and> entryId en = e \<and>
            resolvedAtMs (approval en) = None"
    "e \<in> set (cleanups (approvals m)) \<Longrightarrow> e < nextEntryId (approvals m)"
    "(e, d) \<in> set (decided (approvals m)) \<Longrightarrow> e < nextEntryId (approvals m)"
    "e \<in> set (consumed (approvals m)) \<Longrightarrow> (e, Some AllowOnce) \<in> set (decided (approvals m))"
  using assms by (auto simp add: approvals_inv_def Let_def)

text \<open>Two entries of the map with one identity are the same entry.\<close>

lemma entry_unique:
  assumes "approvals_inv m" "jm_get (pending (approvals m)) i = Some en"
    "jm_get (pending (approvals m)) j = Some en'" "entryId en = entryId en'"
  shows "i = j"
  using approvals_invD(4)[OF assms(1,2)] approvals_invD(4)[OF assms(1,3)] assms(4) by simp

lemma inv_new: "approvals_inv new_manager"
  by (simp add: approvals_inv_def new_manager_def no_approvals_def)

lemma entry_ok_cong:
  assumes "entryId en \<in> set (timers s) \<longleftrightarrow> entryId en \<in> set (timers t)"
    "entryId en \<in> set (cleanups s) \<longleftrightarrow> entryId en \<in> set (cleanups t)"
    "\<And>d. (entryId en, d) \<in> set (decided s) \<longleftrightarrow> (entryId en, d) \<in> set (decided t)"
    "entryId en \<in> set (consumed s) \<longleftrightarrow> entryId en \<in> set (consumed t)"
    "entry_ok t en"
  shows "entry_ok s en"
proof -
  have "entryId en \<in> fst ` set (decided s) \<longleftrightarrow> entryId en \<in> fst ` set (decided t)"
    using assms(3) by force
  then show ?thesis using assms by (auto simp: entry_ok_def)
qed

lemma inv_register:
  assumes "approvals_inv m" "resolvedAtMs r = None" "approvalDecision r = None"
  shows "approvals_inv (approval_step (Register r) m)"
proof (cases "jm_get (pending (approvals m)) (approvalId r)")
  case (Some existing)
  then show ?thesis using assms(1) by (simp add: register_def)
next
  case None
  let ?st = "approvals m"
  let ?e = "nextEntryId ?st"
  let ?new = "\<lparr>entryId = ?e, approval = r\<rparr>"
  let ?st' = "?st\<lparr>nextEntryId := ?e + 1, timers := timers ?st @ [?e],
                   pending := jm_set (approvalId r) ?new (pending ?st)\<rparr>"
  note I = approvals_invD[OF assms(1)]
  have new: "entry_ok ?st' ?new"
    using I(11,12)[of ?e] I(13)[of ?e] assms(2,3) by (auto simp: entry_ok_def)
  have old: "entry_ok ?st' en \<and> entryId en < ?e + 1 \<and> (captured m @ [approvalId r]) ! entryId en = i \<and>
      approvalId (approval en) = i"
    if g: "jm_get (pending ?st) i = Some en" for i en
  proof -
    have lt: "entryId en < ?e" by (rule I(3)[OF g])
    have "entry_ok ?st' en" using lt by (intro entry_ok_cong[OF _ _ _ _ I(6)[OF g]]) auto
    then show ?thesis using lt I(2) I(4,5)[OF g] by (simp add: nth_append)
  qed
  have at_new: "(captured m @ [approvalId r]) ! ?e = approvalId r"
    unfolding I(2)[symmetric] by simp
  have entries: "entryId en < ?e + 1 \<and> (captured m @ [approvalId r]) ! entryId en = i \<and>
      approvalId (approval en) = i \<and> entry_ok ?st' en"
    if "jm_get (pending ?st') i = Some en" for i en
  proof (cases "i = approvalId r")
    case True
    have "en = ?new" using that unfolding True by (simp add: store_simps)
    then show ?thesis using True new at_new by simp
  next
    case False
    then show ?thesis using that old[of i en] by (simp add: store_simps)
  qed
  have t: "e < ?e + 1 \<and> (\<exists>en. jm_get (pending ?st') ((captured m @ [approvalId r]) ! e) = Some en \<and>
      entryId en = e \<and> resolvedAtMs (approval en) = None)" if e: "e \<in> set (timers ?st')" for e
  proof (cases "e = ?e")
    case True
    then show ?thesis using at_new assms(2) by (simp add: store_simps)
  next
    case False
    then have old: "e \<in> set (timers ?st)" using e by simp
    obtain x where x: "jm_get (pending ?st) (captured m ! e) = Some x" "entryId x = e"
      "resolvedAtMs (approval x) = None"
      using I(10)[OF old] by blast
    have "captured m ! e \<noteq> approvalId r" using x None by auto
    then show ?thesis using I(9)[OF old] x I(2) by (simp add: nth_append store_simps)
  qed
  have b: "\<forall>e \<in> set (cleanups ?st'). e < ?e + 1" "\<forall>e \<in> fst ` set (decided ?st'). e < ?e + 1"
    "\<forall>e \<in> set (consumed ?st'). (e, Some AllowOnce) \<in> set (decided ?st')"
    using I(11-13) by (auto intro: less_SucI)
  have "approvals_inv \<lparr>approvals = ?st', captured = captured m @ [approvalId r]\<rparr>"
    unfolding approvals_inv_def Let_def using entries t b I(1,2,7,8) by simp
  moreover have "approval_step (Register r) m =
      m\<lparr>approvals := ?st', captured := captured m @ [approvalId r]\<rparr>"
    using None by (simp add: register_def Let_def)
  ultimately show ?thesis by (simp add: approvals_inv_def)
qed

text \<open>Writing one entry back without changing its identity or its id.\<close>

lemma inv_write:
  assumes inv: "approvals_inv m" and get: "jm_get (pending (approvals m)) i = Some en"
    and same: "entryId en' = entryId en" "approvalId (approval en') = approvalId (approval en)"
    and pend: "pending st' = jm_set i en' (pending (approvals m))"
    and next_id: "nextEntryId st' = nextEntryId (approvals m)"
    and ok: "entry_ok st' en'"
    and others: "\<And>e. e \<noteq> entryId en \<Longrightarrow> e \<in> set (timers st') \<longleftrightarrow> e \<in> set (timers (approvals m))"
      "\<And>e. e \<noteq> entryId en \<Longrightarrow> e \<in> set (cleanups st') \<longleftrightarrow> e \<in> set (cleanups (approvals m))"
      "\<And>e d. e \<noteq> entryId en \<Longrightarrow> (e, d) \<in> set (decided st') \<longleftrightarrow> (e, d) \<in> set (decided (approvals m))"
      "\<And>e. e \<noteq> entryId en \<Longrightarrow> e \<in> set (consumed st') \<longleftrightarrow> e \<in> set (consumed (approvals m))"
    and dist: "distinct (map fst (decided st'))" "distinct (consumed st')"
  shows "approvals_inv (m\<lparr>approvals := st'\<rparr>)"
proof -
  note I = approvals_invD[OF inv]
  have lt: "entryId en < nextEntryId (approvals m)" by (rule I(3)[OF get])
  have entries: "entryId x < nextEntryId st' \<and> captured m ! entryId x = k \<and> approvalId (approval x) = k \<and> entry_ok st' x"
    if x: "jm_get (pending st') k = Some x" for k x
  proof (cases "k = i")
    case True
    then show ?thesis using x I(3-5)[OF get] same ok next_id by (simp add: pend store_simps)
  next
    case False
    then have g: "jm_get (pending (approvals m)) k = Some x" using x by (simp add: pend store_simps)
    have ne: "entryId x \<noteq> entryId en" using entry_unique[OF inv g get] False by blast
    have "entry_ok st' x"
      by (rule entry_ok_cong[OF _ _ _ _ I(6)[OF g]]) (use others ne in auto)
    then show ?thesis using I(3-5)[OF g] next_id by simp
  qed
  have t: "e < nextEntryId st' \<and> (\<exists>x. jm_get (pending st') (captured m ! e) = Some x \<and> entryId x = e \<and>
      resolvedAtMs (approval x) = None)" if e: "e \<in> set (timers st')" for e
  proof (cases "e = entryId en")
    case True
    then show ?thesis using e ok same lt next_id I(4)[OF get]
      by (auto simp: pend store_simps entry_ok_def split: if_splits)
  next
    case False
    then have old: "e \<in> set (timers (approvals m))" using e others(1) by blast
    obtain x where x: "jm_get (pending (approvals m)) (captured m ! e) = Some x" "entryId x = e"
      "resolvedAtMs (approval x) = None"
      using I(10)[OF old] by blast
    have "captured m ! e \<noteq> i" using x get False by auto
    then show ?thesis using I(9)[OF old] x next_id by (simp add: pend store_simps)
  qed
  have c: "e < nextEntryId st'" if "e \<in> set (cleanups st')" for e
    using that others(2)[of e] lt I(11)[of e] next_id by (cases "e = entryId en") auto
  have d: "e < nextEntryId st'" if "(e, x) \<in> set (decided st')" for e x
    using that others(3)[of e x] lt I(12)[of e x] next_id by (cases "e = entryId en") auto
  have u: "(e, Some AllowOnce) \<in> set (decided st')" if "e \<in> set (consumed st')" for e
    using that others(3)[of e "Some AllowOnce"] others(4)[of e] I(13)[of e] ok same
    by (cases "e = entryId en") (auto simp: entry_ok_def split: if_splits)
  have "\<forall>e \<in> fst ` set (decided st'). e < nextEntryId st'" using d by auto
  then show ?thesis
    unfolding approvals_inv_def Let_def using entries dist I(1,2) next_id pend t c u by simp
qed

lemma inv_settle:
  assumes inv: "approvals_inv m"
  shows "approvals_inv (m\<lparr>approvals := snd (settle_approval now i d by (approvals m))\<rparr>)"
proof (cases "jm_get (pending (approvals m)) i")
  case None
  then show ?thesis using inv by (simp add: settle_approval_def)
next
  case (Some en)
  show ?thesis
  proof (cases "resolvedAtMs (approval en) = None")
    case False
    then show ?thesis using inv Some by (simp add: settle_approval_def)
  next
    case True
    note I = approvals_invD[OF inv]
    have ok: "entryId en \<notin> fst ` set (decided (approvals m))" "entryId en \<notin> set (consumed (approvals m))"
      using I(6)[OF Some] True by (simp_all add: entry_ok_def)
    show ?thesis
      by (rule inv_write[OF inv Some]) (use ok True Some I(7,8) in \<open>auto simp: settle_approval_def entry_ok_def\<close>)
  qed
qed

lemma inv_consume:
  assumes inv: "approvals_inv m"
  shows "approvals_inv (m\<lparr>approvals := snd (consumeAllowOnce i (approvals m))\<rparr>)"
proof (cases "jm_get (pending (approvals m)) i")
  case None
  then show ?thesis using inv by (simp add: consumeAllowOnce_def)
next
  case (Some en)
  show ?thesis
  proof (cases "approvalDecision (approval en) = Some AllowOnce")
    case False
    then show ?thesis using inv Some by (simp add: consumeAllowOnce_def)
  next
    case True
    note I = approvals_invD[OF inv]
    have ok: "resolvedAtMs (approval en) \<noteq> None" "entryId en \<notin> set (consumed (approvals m))"
      "entryId en \<in> set (cleanups (approvals m))" "entryId en \<notin> set (timers (approvals m))"
      "(entryId en, Some AllowOnce) \<in> set (decided (approvals m))"
      using I(6)[OF Some] True by (auto simp: entry_ok_def split: if_splits)
    show ?thesis
      by (rule inv_write[OF inv Some]) (use ok True Some I(7,8) in \<open>auto simp: consumeAllowOnce_def entry_ok_def\<close>)
  qed
qed

lemma inv_timer:
  assumes inv: "approvals_inv m"
  shows "approvals_inv (approval_step (TimerFires now e) m)"
proof (cases "e < length (captured m) \<and> e \<in> set (timers (approvals m))")
  case False
  then show ?thesis using inv by (auto simp: timer_fires_def)
next
  case True
  note I = approvals_invD[OF inv]
  obtain en where en: "jm_get (pending (approvals m)) (captured m ! e) = Some en" "entryId en = e"
    "resolvedAtMs (approval en) = None"
    using I(10) True by blast
  have "snd (settle_approval now (captured m ! e) None None ((approvals m)\<lparr>timers := removeAll e (timers (approvals m))\<rparr>)) =
      snd (settle_approval now (captured m ! e) None None (approvals m))"
    using en by (simp add: settle_approval_def)
  then show ?thesis
    using True inv_settle[OF inv, of now "captured m ! e" None None]
    by (simp add: timer_fires_def expire_approval_def)
qed

lemma inv_cleanup:
  assumes inv: "approvals_inv m"
  shows "approvals_inv (approval_step (CleanupFires e) m)"
proof (cases "e < length (captured m) \<and> e \<in> set (cleanups (approvals m))")
  case False
  then show ?thesis using inv by (auto simp: cleanup_fires_def)
next
  case True
  note I = approvals_invD[OF inv]
  let ?st = "approvals m" and ?i = "captured m ! e"
  have gone: "jm_get (pending ?st) i = Some en \<Longrightarrow> entryId en = e \<Longrightarrow> i = ?i" for i en
    using I(4)[of i en] by simp
  have nt: "e \<notin> set (timers ?st)"
  proof
    assume "e \<in> set (timers ?st)"
    then obtain en where en: "jm_get (pending ?st) ?i = Some en" "entryId en = e" "resolvedAtMs (approval en) = None"
      using I(10) by blast
    then have "e \<notin> set (cleanups ?st)" using I(6)[OF en(1)] by (simp add: entry_ok_def)
    then show False using True by simp
  qed
  let ?pend = "case jm_get (pending ?st) ?i of None \<Rightarrow> pending ?st
    | Some en \<Rightarrow> if entryId en = e then jm_del ?i (pending ?st) else pending ?st"
  let ?st' = "?st\<lparr>cleanups := removeAll e (cleanups ?st), pending := ?pend\<rparr>"
  have eq: "cleanup_fires e ?i ?st = ?st'"
    using True by (simp add: cleanup_fires_def split: option.split)
  have kept: "jm_get (pending ?st) i = Some en \<and> entryId en \<noteq> e" if "jm_get ?pend i = Some en" for i en
    using that gone[of i en] by (auto simp: store_simps split: option.splits if_splits)
  have stays: "jm_get ?pend i = Some en" if "jm_get (pending ?st) i = Some en" "entryId en \<noteq> e" for i en
    using that by (auto simp: store_simps split: option.split)
  have entries: "entryId en < nextEntryId ?st \<and> captured m ! entryId en = i \<and> approvalId (approval en) = i \<and>
      entry_ok ?st' en" if "jm_get ?pend i = Some en" for i en
  proof -
    have k: "jm_get (pending ?st) i = Some en" "entryId en \<noteq> e" using kept[OF that] by blast+
    have "entry_ok ?st' en" using k(2) by (intro entry_ok_cong[OF _ _ _ _ I(6)[OF k(1)]]) auto
    then show ?thesis using I(3-5)[OF k(1)] by simp
  qed
  have t: "f < nextEntryId ?st \<and> (\<exists>en. jm_get ?pend (captured m ! f) = Some en \<and> entryId en = f \<and>
      resolvedAtMs (approval en) = None)" if f: "f \<in> set (timers ?st)" for f
  proof -
    obtain x where x: "jm_get (pending ?st) (captured m ! f) = Some x" "entryId x = f"
      "resolvedAtMs (approval x) = None"
      using I(10)[OF f] by blast
    have "f \<noteq> e" using f nt by blast
    then show ?thesis using I(9)[OF f] x stays[OF x(1)] by blast
  qed
  have b: "\<forall>f \<in> set (removeAll e (cleanups ?st)). f < nextEntryId ?st"
    "\<forall>f \<in> fst ` set (decided ?st). f < nextEntryId ?st"
    "\<forall>f \<in> set (consumed ?st). (f, Some AllowOnce) \<in> set (decided ?st)"
    using I(11-13) by auto
  have wf: "jm_wf ?pend" using I(1) by (simp split: option.split)
  have "approvals_inv (m\<lparr>approvals := ?st'\<rparr>)"
    unfolding approvals_inv_def Let_def using entries t b wf I(2,7,8) by simp
  then show ?thesis using True eq by simp
qed

lemma approvals_inv_step:
  "approvals_inv m \<Longrightarrow> (\<And>r. e = Register r \<Longrightarrow> resolvedAtMs r = None \<and> approvalDecision r = None) \<Longrightarrow>
   approvals_inv (approval_step e m)"
  by (cases e) (simp_all add: inv_register inv_timer inv_cleanup inv_consume inv_settle resolve_approval_def
      expire_approval_def del: approval_step.simps(1,4,5))

definition approval_event_step :: "'p manager \<Rightarrow> 'p manager \<Rightarrow> bool" where
  "approval_event_step s t \<longleftrightarrow>
     (\<exists>e. (\<forall>r. e = Register r \<longrightarrow> resolvedAtMs r = None \<and> approvalDecision r = None) \<and> t = approval_step e s)"

interpretation approval_manager: invariant_system "\<lambda>m. m = new_manager" approval_event_step approvals_inv
  by unfold_locales (auto simp: approval_event_step_def intro: inv_new approvals_inv_step)

lemma reachable_approvals_inv: "approvals_reachable m \<Longrightarrow> approvals_inv m"
  using approval_manager.reachable_inv[OF refl, of m]
  unfolding approvals_reachable_def approval_event_step_def[abs_def] by blast

text \<open>The outcome of an entry's promise is written once: the log of the outcomes only grows.\<close>

lemma decided_grows: "\<exists>l. decided (approvals (approval_step e m)) = decided (approvals m) @ l"
  by (cases e) (simp_all add: register_def resolve_approval_def expire_approval_def settle_approval_def
      timer_fires_def cleanup_fires_def consumeAllowOnce_def Let_def split: option.split)

interpretation approval_outcome: write_once "\<lambda>m. map_of (decided (approvals m)) e" approval_step for e
proof unfold_locales
  show "map_of (decided (approvals (approval_step ev m))) e = Some r"
    if "map_of (decided (approvals m)) e = Some r" for m r ev
    using decided_grows[of ev m] that by (auto simp: map_add_def)
qed

section \<open>Properties\<close>

text \<open>
  C11: the first decision on an approval stands: an entry's promise is resolved at most once, and
  whatever happens afterwards (another operator, a late timeout, a cleanup, a new registration
  under the same id) everyone who waits for it gets that decision.
\<close>

theorem first_decision_stands:
  assumes "approvals_reachable m" and "(e, d) \<in> set (decided (approvals m))"
  shows "distinct (map fst (decided (approvals m))) \<and>
         map_of (decided (approvals (fold approval_step es m))) e = Some d"
proof -
  have dist: "distinct (map fst (decided (approvals m)))"
    by (rule approvals_invD(7)[OF reachable_approvals_inv[OF assms(1)]])
  then have "map_of (decided (approvals m)) e = Some d" using assms(2) by simp
  then show ?thesis using dist approval_outcome.run_once[of m e d es] by blast
qed

definition demo_record :: "nat approval_record" where
  "demo_record = create 100 ''u'' 7 5000 (Some ''a1'')"

definition approved_manager :: "nat manager" where
  "approved_manager = approval_step (Resolve 200 ''a1'' AllowOnce None) (approval_step (Register demo_record) new_manager)"

lemma approved_reachable: "approvals_reachable approved_manager"
proof -
  have "resolvedAtMs demo_record = None \<and> approvalDecision demo_record = None"
    by (simp add: demo_record_def create_def)
  then have "approval_event_step new_manager (approval_step (Register demo_record) new_manager)"
    unfolding approval_event_step_def by blast
  moreover have "approval_event_step (approval_step (Register demo_record) new_manager) approved_manager"
    unfolding approval_event_step_def approved_manager_def by blast
  ultimately show ?thesis
    unfolding approvals_reachable_def approval_event_step_def[symmetric] by simp
qed

lemma first_decision_stands_witness:
  "map_of (decided (approvals (fold approval_step [Resolve 300 ''a1'' Deny None] approved_manager))) 0
     = Some (Some AllowOnce)"
proof -
  have "(0, Some AllowOnce) \<in> set (decided (approvals approved_manager))"
    unfolding approved_manager_def demo_record_def by code_simp
  from first_decision_stands[OF approved_reachable this] show ?thesis by blast
qed

text \<open>
  C12: a one-time approval is good for one run: a registration is consumed at most once, and only
  after it was allowed once.
\<close>

theorem allow_once_consumed_once:
  assumes "approvals_reachable m"
  shows "distinct (consumed (approvals m)) \<and>
         (\<forall>e \<in> set (consumed (approvals m)). map_of (decided (approvals m)) e = Some (Some AllowOnce))"
proof -
  note I = approvals_invD[OF reachable_approvals_inv[OF assms]]
  show ?thesis using I(7,8,13) by (auto intro: map_of_is_SomeI)
qed

lemma allow_once_consumed_once_witness:
  "distinct (consumed (approvals (approval_step (Consume ''a1'') approved_manager)))"
proof -
  have "approvals_reachable (approval_step (Consume ''a1'') approved_manager)"
    using approved_reachable unfolding approvals_reachable_def
    by (rule rtranclp.rtrancl_into_rtrancl) blast
  from allow_once_consumed_once[OF this] show ?thesis by blast
qed

text \<open>
  C13: no approval waits for ever and no decided one stays for ever: an entry that is not decided
  has its timeout running, and when it fires everyone waiting is told there was no decision; a
  decided entry has its cleanup scheduled, and when it fires the entry is gone.
\<close>

theorem approval_always_ends:
  assumes "approvals_reachable m" and "jm_get (pending (approvals m)) i = Some en"
  shows "if resolvedAtMs (approval en) = None
         then entryId en \<in> set (timers (approvals m)) \<and>
              map_of (decided (approvals (approval_step (TimerFires now (entryId en)) m))) (entryId en) = Some None
         else entryId en \<in> set (cleanups (approvals m)) \<and>
              jm_get (pending (approvals (approval_step (CleanupFires (entryId en)) m))) i = None"
proof -
  note I = approvals_invD[OF reachable_approvals_inv[OF assms(1)]]
  have at_id: "captured m ! entryId en = i" "entryId en < length (captured m)"
    using I(2) I(3,4)[OF assms(2)] by simp_all
  have ok: "entry_ok (approvals m) en" by (rule I(6)[OF assms(2)])
  show ?thesis
  proof (cases "resolvedAtMs (approval en) = None")
    case True
    then have t: "entryId en \<in> set (timers (approvals m))" "entryId en \<notin> fst ` set (decided (approvals m))"
      using ok by (simp_all add: entry_ok_def)
    then have "map_of (decided (approvals m)) (entryId en) = None" by (simp add: map_of_eq_None_iff)
    then show ?thesis
      using True t at_id assms(2)
      by (simp add: timer_fires_def expire_approval_def settle_approval_def map_add_def)
  next
    case False
    then have "entryId en \<in> set (cleanups (approvals m))" using ok by (simp add: entry_ok_def)
    then show ?thesis
      using at_id assms(2) unfolding if_not_P[OF False] by (simp add: cleanup_fires_def store_simps)
  qed
qed

lemma approval_always_ends_witness:
  "jm_get (pending (approvals (approval_step (CleanupFires 0) approved_manager))) ''a1'' = None"
proof -
  obtain en where en: "jm_get (pending (approvals approved_manager)) ''a1'' = Some en"
    "entryId en = 0" "resolvedAtMs (approval en) = Some 200"
    by (auto simp: approved_manager_def new_manager_def no_approvals_def register_def resolve_approval_def
        settle_approval_def demo_record_def create_def js_trim_def js_space_def Let_def)
  show ?thesis using approval_always_ends[OF approved_reachable en(1), of 0] en(2,3) by simp
qed

end
