(* ===== verification/Session_Keys.thy ===== *)
theory Session_Keys
  imports Contracts Js_Strings
begin

text \<open>
  The names of sessions: \<open>src/routing/session-key.ts\<close>, \<open>src/sessions/session-key-utils.ts\<close> and
  \<open>src/routing/account-id.ts\<close>. A session key is text in parts separated by colons; an agent's
  key is \<open>agent:<agent>:<rest>\<close>. An argument \<open>string | null | undefined\<close> is a \<open>string option\<close>.
  The caches of \<open>account-id.ts\<close> are explicit state; \<open>accountIdOf\<close> is what they are proved to
  hold, and what the definitions after them use.
\<close>

section \<open>Identifiers\<close>

definition DEFAULT_AGENT_ID :: string where "DEFAULT_AGENT_ID = ''main''"
definition DEFAULT_MAIN_KEY :: string where "DEFAULT_MAIN_KEY = ''main''"
definition DEFAULT_ACCOUNT_ID :: string where "DEFAULT_ACCOUNT_ID = ''default''"

text \<open>\<open>VALID_ID_RE\<close> and the class of characters that \<open>INVALID_CHARS_RE\<close> excludes.\<close>

definition id_char :: "char \<Rightarrow> bool" where
  "id_char c \<longleftrightarrow> alnum c \<and> js_lower_char c = c \<or> c = CHR ''_'' \<or> c = CHR ''-''"

definition valid_id :: "string \<Rightarrow> bool" where
  "valid_id s \<longleftrightarrow> s \<noteq> [] \<and> length s \<le> 64 \<and> alnum (hd s) \<and>
     list_all (\<lambda>c. alnum c \<or> c = CHR ''_'' \<or> c = CHR ''-'') s"

text \<open>\<open>replace(INVALID_CHARS_RE, "-")\<close>: every run of excluded characters becomes one dash.\<close>

fun dash_runs :: "string \<Rightarrow> string" where
  "dash_runs [] = []"
| "dash_runs (c # cs) =
     (if id_char c then c # dash_runs cs
      else CHR ''-'' # (case cs of [] \<Rightarrow> [] | d # ds \<Rightarrow> if id_char d then dash_runs cs else tl (dash_runs cs)))"

definition strip_dashes :: "string \<Rightarrow> string" where
  "strip_dashes s =
     rev (dropWhile (\<lambda>c. c = CHR ''-'') (rev (dropWhile (\<lambda>c. c = CHR ''-'') s)))"

definition normalizeAgentId :: "string option \<Rightarrow> string" where
  "normalizeAgentId v =
     (let trimmed = js_trim (js_nullish v [])
      in if trimmed = [] then DEFAULT_AGENT_ID
         else (let normalized = normalizeLowercaseStringOrEmpty trimmed
               in if valid_id trimmed then normalized
                  else js_or_str (take 64 (strip_dashes (dash_runs normalized))) DEFAULT_AGENT_ID))"

definition isValidAgentId :: "string option \<Rightarrow> bool" where
  "isValidAgentId v = (let trimmed = js_trim (js_nullish v []) in trimmed \<noteq> [] \<and> valid_id trimmed)"

definition sanitizeAgentId :: "string option \<Rightarrow> string" where
  "sanitizeAgentId v = normalizeAgentId v"

section \<open>Accounts\<close>

definition isBlockedObjectKey :: "string \<Rightarrow> bool" where
  "isBlockedObjectKey key \<longleftrightarrow> key \<in> set [''__proto__'', ''prototype'', ''constructor'']"

definition canonicalizeAccountId :: "string \<Rightarrow> string" where
  "canonicalizeAccountId v =
     (let normalized = normalizeLowercaseStringOrEmpty v
      in if valid_id v then normalized else take 64 (strip_dashes (dash_runs normalized)))"

definition normalizeCanonicalAccountId :: "string \<Rightarrow> string option" where
  "normalizeCanonicalAccountId v =
     (let canonical = canonicalizeAccountId v
      in if canonical = [] \<or> isBlockedObjectKey canonical then None else Some canonical)"

definition ACCOUNT_ID_CACHE_MAX :: nat where "ACCOUNT_ID_CACHE_MAX = 512"

definition setNormalizeCache :: "(string, 'v) jmap \<Rightarrow> string \<Rightarrow> 'v \<Rightarrow> (string, 'v) jmap" where
  "setNormalizeCache cache key value =
     (let cache' = jm_set key value cache
      in if length cache' \<le> ACCOUNT_ID_CACHE_MAX then cache'
         else case cache' of [] \<Rightarrow> cache' | oldest # _ \<Rightarrow> jm_del (fst oldest) cache')"

definition normalizeAccountId :: "string option \<Rightarrow> (string, string) jmap \<Rightarrow> string \<times> (string, string) jmap" where
  "normalizeAccountId v cache =
     (let trimmed = js_trim (js_nullish v [])
      in if trimmed = [] then (DEFAULT_ACCOUNT_ID, cache)
         else case jm_get cache trimmed of
           Some cached \<Rightarrow>
             if cached \<noteq> [] then (cached, cache)
             else (let n = js_nullish (normalizeCanonicalAccountId trimmed) DEFAULT_ACCOUNT_ID
                   in (n, setNormalizeCache cache trimmed n))
         | None \<Rightarrow>
             (let n = js_nullish (normalizeCanonicalAccountId trimmed) DEFAULT_ACCOUNT_ID
              in (n, setNormalizeCache cache trimmed n)))"

definition normalizeOptionalAccountId ::
  "string option \<Rightarrow> (string, string option) jmap \<Rightarrow> string option \<times> (string, string option) jmap" where
  "normalizeOptionalAccountId v cache =
     (let trimmed = js_trim (js_nullish v [])
      in if trimmed = [] then (None, cache)
         else case jm_get cache trimmed of
           Some cached \<Rightarrow> (cached, cache)
         | None \<Rightarrow> (let n = normalizeCanonicalAccountId trimmed in (n, setNormalizeCache cache trimmed n)))"

text \<open>The result of \<open>normalizeAccountId\<close>, whatever its cache holds (lemma \<open>account_cache\<close>).\<close>

definition accountIdOf :: "string option \<Rightarrow> string" where
  "accountIdOf v =
     (let trimmed = js_trim (js_nullish v [])
      in if trimmed = [] then DEFAULT_ACCOUNT_ID
         else js_nullish (normalizeCanonicalAccountId trimmed) DEFAULT_ACCOUNT_ID)"

section \<open>Parsing keys\<close>

definition normalizeSessionPeerId :: "string option \<Rightarrow> string option \<Rightarrow> string option \<Rightarrow> string" where
  "normalizeSessionPeerId channel peerKind peerId =
     (let p = js_trim (js_nullish peerId [])
      in if p = [] then []
         else if normalizeLowercaseStringOrEmpty (js_nullish channel []) = ''signal'' \<and>
                 normalizeLowercaseStringOrEmpty (js_nullish peerKind []) = ''group''
              then p else normalizeLowercaseStringOrEmpty p)"

text \<open>
  The regular expression \<open>(^|:)signal:group:([^:]+)\<close>, without regard to case: \<open>signal_group s\<close>
  is the fixed text, the peer and what follows it, when \<open>s\<close> starts with \<open>signal:group:\<close> and a
  peer. \<open>opaque_scan start piece s\<close> is the loop over its matches: \<open>piece\<close> is the text since the
  end of the last match, \<open>start\<close> says that nothing was read yet.
\<close>

definition signal_group :: "string \<Rightarrow> (string \<times> string \<times> string) option" where
  "signal_group s =
     (let pre = take 13 s; peer = takeWhile (\<lambda>c. c \<noteq> CHR '':'') (drop 13 s)
      in if js_lower pre = ''signal:group:'' \<and> peer \<noteq> []
         then Some (pre, peer, drop (13 + length peer) s) else None)"

lemma signal_group_shorter:
  "signal_group s = Some (pre, peer, rest) \<Longrightarrow> length rest < length s"
  by (cases s) (auto simp: signal_group_def Let_def split: if_splits)

function opaque_scan :: "bool \<Rightarrow> string \<Rightarrow> string \<Rightarrow> string" where
  "opaque_scan start piece [] = normalizeLowercaseStringOrEmpty piece"
| "opaque_scan start piece (c # cs) =
     (case (if start then signal_group (c # cs) else None) of
        Some (pre, peer, rest) \<Rightarrow>
          normalizeLowercaseStringOrEmpty (piece @ pre) @ js_trim peer @ opaque_scan False [] rest
      | None \<Rightarrow>
          (case (if c = CHR '':'' then signal_group cs else None) of
             Some (pre, peer, rest) \<Rightarrow>
               normalizeLowercaseStringOrEmpty (piece @ c # pre) @ js_trim peer @ opaque_scan False [] rest
           | None \<Rightarrow> opaque_scan False (piece @ [c]) cs))"
  by pat_completeness auto
termination
  by (relation "measure (\<lambda>(start, piece, s). length s)")
     (auto split: if_splits dest!: signal_group_shorter)

definition normalizeSessionKeyPreservingOpaquePeerIds :: "string option \<Rightarrow> string" where
  "normalizeSessionKeyPreservingOpaquePeerIds key =
     (case normalizeOptionalString key of None \<Rightarrow> [] | Some raw \<Rightarrow> opaque_scan True [] raw)"

record parsed_key =
  keyAgentId :: string
  keyRest :: string

definition parseAgentSessionKey :: "string option \<Rightarrow> parsed_key option" where
  "parseAgentSessionKey key =
     (let raw = normalizeSessionKeyPreservingOpaquePeerIds key
      in if raw = [] then None
         else (case non_empty (js_split CHR '':'' raw) of
                 p0 # p1 # p2 # ps \<Rightarrow>
                   if p0 \<noteq> ''agent'' then None
                   else (case normalizeOptionalString (Some p1) of
                           None \<Rightarrow> None
                         | Some agentId \<Rightarrow>
                             (let rest = js_join '':'' (p2 # ps)
                              in if rest = [] then None
                                 else Some \<lparr>keyAgentId = agentId, keyRest = rest\<rparr>))
               | _ \<Rightarrow> None))"

definition normalizeOptionalLowercaseString :: "string option \<Rightarrow> string option" where
  "normalizeOptionalLowercaseString v = map_option js_lower (normalizeOptionalString v)"

definition starts_lower :: "string option \<Rightarrow> string \<Rightarrow> bool" where
  "starts_lower v p = (case normalizeOptionalLowercaseString v of None \<Rightarrow> False | Some s \<Rightarrow> js_starts_with s p)"

definition isCronRunSessionKey :: "string option \<Rightarrow> bool" where
  "isCronRunSessionKey key =
     (case parseAgentSessionKey key of
        None \<Rightarrow> False
      | Some p \<Rightarrow>
          (case js_split CHR '':'' (keyRest p) of
             a # b # c # d # _ \<Rightarrow> a = ''cron'' \<and> b \<noteq> [] \<and> c = ''run'' \<and> d \<noteq> []
           | _ \<Rightarrow> False))"

definition isCronSessionKey :: "string option \<Rightarrow> bool" where
  "isCronSessionKey key =
     (case parseAgentSessionKey key of None \<Rightarrow> False | Some p \<Rightarrow> starts_lower (Some (keyRest p)) ''cron:'')"

definition isSubagentSessionKey :: "string option \<Rightarrow> bool" where
  "isSubagentSessionKey key =
     (case normalizeOptionalString key of
        None \<Rightarrow> False
      | Some raw \<Rightarrow>
          starts_lower (Some raw) ''subagent:'' \<or>
          starts_lower (map_option keyRest (parseAgentSessionKey (Some raw))) ''subagent:'')"

text \<open>\<open>split(sep).length - 1\<close>: the occurrences of \<open>sep\<close> from the left that do not overlap.\<close>

function count_occurrences :: "string \<Rightarrow> string \<Rightarrow> nat" where
  "count_occurrences sep s =
     (if sep = [] \<or> s = [] then 0
      else if js_starts_with s sep then Suc (count_occurrences sep (drop (length sep) s))
      else count_occurrences sep (tl s))"
  by pat_completeness auto
termination
  by (relation "measure (\<lambda>(sep, s). length s)") (auto simp: neq_Nil_conv)

declare count_occurrences.simps [simp del]

definition getSubagentDepth :: "string option \<Rightarrow> nat" where
  "getSubagentDepth key =
     (case normalizeOptionalLowercaseString key of None \<Rightarrow> 0 | Some raw \<Rightarrow> count_occurrences '':subagent:'' raw)"

definition isAcpSessionKey :: "string option \<Rightarrow> bool" where
  "isAcpSessionKey key =
     (case normalizeOptionalString key of
        None \<Rightarrow> False
      | Some raw \<Rightarrow>
          js_starts_with (normalizeLowercaseStringOrEmpty raw) ''acp:'' \<or>
          starts_lower (map_option keyRest (parseAgentSessionKey (Some raw))) ''acp:'')"

fun last_find :: "string \<Rightarrow> string \<Rightarrow> nat option" where
  "last_find pat [] = None"
| "last_find pat (c # cs) =
     (case last_find pat cs of
        Some i \<Rightarrow> Some (Suc i)
      | None \<Rightarrow> if js_starts_with (c # cs) pat then Some 0 else None)"

record thread_suffix =
  baseSessionKey :: "string option"
  suffixThreadId :: "string option"

definition parseThreadSessionSuffix :: "string option \<Rightarrow> thread_suffix" where
  "parseThreadSessionSuffix key =
     (case normalizeOptionalString key of
        None \<Rightarrow> \<lparr>baseSessionKey = None, suffixThreadId = None\<rparr>
      | Some raw \<Rightarrow>
          (let marker = '':thread:''
           in case last_find marker (normalizeLowercaseStringOrEmpty raw) of
                None \<Rightarrow> \<lparr>baseSessionKey = Some raw, suffixThreadId = None\<rparr>
              | Some i \<Rightarrow>
                  \<lparr>baseSessionKey = Some (take i raw),
                   suffixThreadId = normalizeOptionalString (Some (drop (i + length marker) raw))\<rparr>))"

record conversation_ref =
  refChannel :: string
  refKind :: string
  refRawId :: string
  refPrefix :: string

definition parseRawSessionConversationRef :: "string option \<Rightarrow> conversation_ref option" where
  "parseRawSessionConversationRef key =
     (case normalizeOptionalString key of
        None \<Rightarrow> None
      | Some raw \<Rightarrow>
          (let rawParts = non_empty (js_split CHR '':'' raw);
               bodyStart = (if 3 \<le> length rawParts \<and>
                  normalizeOptionalLowercaseString (Some (rawParts ! 0)) = Some ''agent'' then 2 else 0);
               parts = drop bodyStart rawParts
           in if length parts < 3 then None
              else (case (normalizeOptionalLowercaseString (Some (parts ! 0)),
                          normalizeOptionalLowercaseString (Some (parts ! 1))) of
                      (Some channel, Some kind) \<Rightarrow>
                        if kind \<noteq> ''group'' \<and> kind \<noteq> ''channel'' then None
                        else (case (normalizeOptionalString (Some (js_join '':'' (drop 2 parts))),
                                    normalizeOptionalString (Some (js_join '':'' (take (bodyStart + 2) rawParts)))) of
                                (Some rawId, Some pfx) \<Rightarrow>
                                  Some \<lparr>refChannel = channel, refKind = kind, refRawId = rawId, refPrefix = pfx\<rparr>
                              | _ \<Rightarrow> None)
                    | _ \<Rightarrow> None)))"

definition resolveThreadParentSessionKey :: "string option \<Rightarrow> string option" where
  "resolveThreadParentSessionKey key =
     (let s = parseThreadSessionSuffix key
      in case suffixThreadId s of None \<Rightarrow> None | Some t \<Rightarrow> normalizeOptionalString (baseSessionKey s))"

section \<open>Building keys\<close>

definition normalizeMainKey :: "string option \<Rightarrow> string" where
  "normalizeMainKey v = js_or_str (normalizeLowercaseStringOrEmpty (js_nullish v [])) DEFAULT_MAIN_KEY"

definition buildAgentMainSessionKey :: "string \<Rightarrow> string option \<Rightarrow> string" where
  "buildAgentMainSessionKey agentId mainKey =
     ''agent:'' @ normalizeAgentId (Some agentId) @ '':'' @ normalizeMainKey mainKey"

datatype session_scope = PerSender | GlobalScope

datatype wake_target = WakeAsIs | WakeAgent string | WakeSession string

definition scopedHeartbeatWakeOptions :: "string \<Rightarrow> string option \<Rightarrow> session_scope option \<Rightarrow> wake_target" where
  "scopedHeartbeatWakeOptions sessionKey mainKey scope =
     (case parseAgentSessionKey (Some sessionKey) of
        None \<Rightarrow> WakeAsIs
      | Some p \<Rightarrow>
          if isCronRunSessionKey (Some sessionKey)
          then if scope = Some GlobalScope then WakeAgent (keyAgentId p)
               else WakeSession (buildAgentMainSessionKey (keyAgentId p) mainKey)
          else WakeSession sessionKey)"

definition resolveEventSessionKey :: "string \<Rightarrow> string option \<Rightarrow> session_scope option \<Rightarrow> string" where
  "resolveEventSessionKey sessionKey mainKey scope =
     (case parseAgentSessionKey (Some sessionKey) of
        None \<Rightarrow> sessionKey
      | Some p \<Rightarrow>
          if \<not> isCronRunSessionKey (Some sessionKey) then sessionKey
          else if scope = Some GlobalScope then ''global''
          else buildAgentMainSessionKey (keyAgentId p) mainKey)"

definition toAgentRequestSessionKey :: "string option \<Rightarrow> string option" where
  "toAgentRequestSessionKey storeKey =
     (let raw = js_trim (js_nullish storeKey [])
      in if raw = [] then None
         else Some (case parseAgentSessionKey (Some raw) of Some p \<Rightarrow> keyRest p | None \<Rightarrow> raw))"

definition toAgentStoreSessionKey :: "string \<Rightarrow> string option \<Rightarrow> string option \<Rightarrow> string" where
  "toAgentStoreSessionKey agentId requestKey mainKey =
     (let raw = js_trim (js_nullish requestKey []);
          lowered = normalizeLowercaseStringOrEmpty raw
      in if raw = [] \<or> lowered = DEFAULT_MAIN_KEY then buildAgentMainSessionKey agentId mainKey
         else (case parseAgentSessionKey (Some raw) of
                 Some p \<Rightarrow> ''agent:'' @ keyAgentId p @ '':'' @ keyRest p
               | None \<Rightarrow>
                   (let normalized = normalizeSessionKeyPreservingOpaquePeerIds (Some raw)
                    in if js_starts_with lowered ''agent:'' then normalized
                       else ''agent:'' @ normalizeAgentId (Some agentId) @ '':'' @ normalized)))"

definition resolveAgentIdFromSessionKey :: "string option \<Rightarrow> string" where
  "resolveAgentIdFromSessionKey key =
     normalizeAgentId (Some (js_nullish (map_option keyAgentId (parseAgentSessionKey key)) DEFAULT_AGENT_ID))"

datatype key_shape = KeyMissing | KeyAgent | KeyLegacyOrAlias | KeyMalformedAgent

definition classifySessionKeyShape :: "string option \<Rightarrow> key_shape" where
  "classifySessionKeyShape key =
     (let raw = js_trim (js_nullish key [])
      in if raw = [] then KeyMissing
         else if parseAgentSessionKey (Some raw) \<noteq> None then KeyAgent
         else if js_starts_with (normalizeLowercaseStringOrEmpty raw) ''agent:'' then KeyMalformedAgent
         else KeyLegacyOrAlias)"

definition isUnscopedSessionKeySentinel :: "string option \<Rightarrow> bool" where
  "isUnscopedSessionKeySentinel key =
     (let lowered = normalizeLowercaseStringOrEmpty (js_nullish key [])
      in lowered = ''global'' \<or> lowered = ''unknown'')"

definition scopeLegacySessionKeyToAgent :: "string option \<Rightarrow> string option \<Rightarrow> string option \<Rightarrow> string option" where
  "scopeLegacySessionKeyToAgent agentId sessionKey mainKey =
     (let raw = js_trim (js_nullish sessionKey [])
      in if raw = [] then None
         else (let a = js_trim (js_nullish agentId [])
               in if a = [] \<or> classifySessionKeyShape (Some raw) \<noteq> KeyLegacyOrAlias then Some raw
                  else Some (toAgentStoreSessionKey a (Some raw) mainKey)))"

section \<open>Keys of peers\<close>

datatype dm_scope = Dm_main | Dm_per_peer | Dm_per_channel_peer | Dm_per_account_channel_peer

text \<open>
  The identity links are the entries of the configured object, in the order of
  \<open>Object.entries\<close>; a value that is not an array is \<open>None\<close>.
\<close>

type_synonym identity_links = "(string \<times> string list option) list"

definition link_candidates :: "string \<Rightarrow> string \<Rightarrow> string list" where
  "link_candidates channel peerId =
     (let rawCandidate = normalizeLowercaseStringOrEmpty peerId;
          s0 = (if rawCandidate \<noteq> [] then js_add rawCandidate [] else []);
          ch = normalizeLowercaseStringOrEmpty channel;
          scoped = normalizeLowercaseStringOrEmpty (ch @ '':'' @ peerId)
      in if ch \<noteq> [] \<and> scoped \<noteq> [] then js_add scoped s0 else s0)"

fun linked_entry :: "string list \<Rightarrow> identity_links \<Rightarrow> string option" where
  "linked_entry candidates [] = None"
| "linked_entry candidates ((canonical, ids) # links) =
     (if js_trim canonical \<noteq> [] \<and>
         list_ex (\<lambda>i. let n = normalizeLowercaseStringOrEmpty i in n \<noteq> [] \<and> List.member candidates n)
           (js_nullish ids [])
      then Some (js_trim canonical) else linked_entry candidates links)"

definition resolveLinkedPeerId :: "identity_links option \<Rightarrow> string \<Rightarrow> string \<Rightarrow> string option" where
  "resolveLinkedPeerId identityLinks channel peerId =
     (case identityLinks of
        None \<Rightarrow> None
      | Some links \<Rightarrow>
          (let p = js_trim peerId; candidates = link_candidates channel p
           in if p = [] \<or> candidates = [] then None else linked_entry candidates links))"

record peer_key_params =
  pkAgentId :: string
  pkMainKey :: "string option"
  pkChannel :: string
  pkAccountId :: "string option"
  pkPeerKind :: "string option"
  pkPeerId :: "string option"
  pkIdentityLinks :: "identity_links option"
  pkDmScope :: "dm_scope option"

definition direct_peer :: "peer_key_params \<Rightarrow> string" where
  "direct_peer p =
     (let peerId = js_trim (js_nullish (pkPeerId p) []);
          linked = (if js_nullish (pkDmScope p) Dm_main = Dm_main then None
                    else resolveLinkedPeerId (pkIdentityLinks p) (pkChannel p) peerId)
      in normalizeLowercaseStringOrEmpty (case linked of Some l \<Rightarrow> if l \<noteq> [] then l else peerId | None \<Rightarrow> peerId))"

definition key_channel :: "string \<Rightarrow> string" where
  "key_channel channel = js_or_str (normalizeLowercaseStringOrEmpty channel) ''unknown''"

definition buildAgentPeerSessionKey :: "peer_key_params \<Rightarrow> string" where
  "buildAgentPeerSessionKey p =
     (let peerKind = js_nullish (pkPeerKind p) ''direct'';
          agent = normalizeAgentId (Some (pkAgentId p));
          channel = key_channel (pkChannel p)
      in if peerKind = ''direct'' then
           (let dmScope = js_nullish (pkDmScope p) Dm_main; peerId = direct_peer p
            in if dmScope = Dm_per_account_channel_peer \<and> peerId \<noteq> [] then
                 ''agent:'' @ agent @ '':'' @ channel @ '':'' @ accountIdOf (pkAccountId p) @ '':direct:'' @ peerId
               else if dmScope = Dm_per_channel_peer \<and> peerId \<noteq> [] then
                 ''agent:'' @ agent @ '':'' @ channel @ '':direct:'' @ peerId
               else if dmScope = Dm_per_peer \<and> peerId \<noteq> [] then ''agent:'' @ agent @ '':direct:'' @ peerId
               else buildAgentMainSessionKey (pkAgentId p) (pkMainKey p))
         else
           (let peerId = js_or_str (normalizeSessionPeerId (Some (pkChannel p)) (Some peerKind) (pkPeerId p)) ''unknown''
            in ''agent:'' @ agent @ '':'' @ channel @ '':'' @ peerKind @ '':'' @ peerId))"

definition buildGroupHistoryKey :: "string \<Rightarrow> string option \<Rightarrow> string \<Rightarrow> string \<Rightarrow> string" where
  "buildGroupHistoryKey channel accountId peerKind peerId =
     (let ch = key_channel channel;
          p = js_or_str (normalizeSessionPeerId (Some ch) (Some peerKind) (Some peerId)) ''unknown''
      in ch @ '':'' @ accountIdOf accountId @ '':'' @ peerKind @ '':'' @ p)"

text \<open>The function \<open>normalizeThreadId\<close> of the caller is an argument.\<close>

definition resolveThreadSessionKeys ::
  "string \<Rightarrow> string option \<Rightarrow> string option \<Rightarrow> bool option \<Rightarrow> (string \<Rightarrow> string) option
   \<Rightarrow> string \<times> string option" where
  "resolveThreadSessionKeys base threadId parent useSuffix normalizeThreadId =
     (let t = js_trim (js_nullish threadId [])
      in if t = [] then (base, None)
         else (let normalized = (case normalizeThreadId of None \<Rightarrow> normalizeLowercaseStringOrEmpty t | Some f \<Rightarrow> f t)
               in (if js_nullish useSuffix True then base @ '':thread:'' @ normalized else base, parent)))"

end
