(* ===== verification/Session_Key_Props.thy ===== *)
theory Session_Key_Props
  imports Session_Keys
begin

text \<open>
  What the names of sessions promise: identifiers have a fixed shape, the account caches are
  transparent, the scan for opaque peers is a rule on the parts of a key, keys that are built
  can be parsed again, and different peers have different keys.
\<close>

section \<open>Identifiers\<close>

lemma alnum_lower [simp]: "alnum (js_lower_char c) \<longleftrightarrow> alnum c"
  unfolding alnum_def of_char_js_lower_char Let_def by auto

lemma id_char_colon [simp]: "\<not> id_char CHR '':''"
  by (simp add: id_char_def alnum_def)

lemma id_char_dash [simp]: "id_char CHR ''-''"
  by (simp add: id_char_def)

lemma js_lower_char_fixed [simp]:
  "js_lower_char CHR ''-'' = CHR ''-''" "js_lower_char CHR ''_'' = CHR ''_''"
  by (simp_all add: js_lower_char_def)

lemma js_lower_char_letter [simp]: "97 \<le> (of_char c :: nat) \<Longrightarrow> (of_char c :: nat) \<le> 122 \<Longrightarrow> js_lower_char c = c"
  by (simp add: js_lower_char_def)

lemma id_char_lower: "id_char c \<Longrightarrow> js_lower_char c = c"
  by (auto simp: id_char_def js_lower_char_def)

lemma id_char_not_space: "id_char c \<Longrightarrow> \<not> js_space c"
  by (auto simp: id_char_def js_space_def alnum_def)

lemma id_chars_lower: "list_all id_char s \<Longrightarrow> js_lower s = s"
  by (induction s) (simp_all add: id_char_lower)

lemma id_chars_trim: "list_all id_char s \<Longrightarrow> js_trim s = s"
  by (cases "s = []") (simp_all add: js_trim_fix list_all_iff id_char_not_space)

lemma id_chars_no_colon: "list_all id_char s \<Longrightarrow> CHR '':'' \<notin> set s"
  by (auto simp: list_all_iff)

lemma list_all_tl: "list_all P xs \<Longrightarrow> list_all P (tl xs)"
  by (cases xs) simp_all

lemma list_all_dropWhile: "list_all P xs \<Longrightarrow> list_all P (dropWhile Q xs)"
  by (induction xs) simp_all

lemma list_all_take: "list_all P xs \<Longrightarrow> list_all P (take n xs)"
  by (auto simp: list_all_iff dest: in_set_takeD)

lemma dash_runs_id: "list_all id_char (dash_runs s)"
  by (induction s rule: dash_runs.induct) (auto split: list.splits intro: list_all_tl)

lemma strip_dashes_id: "list_all id_char s \<Longrightarrow> list_all id_char (strip_dashes s)"
  by (simp add: strip_dashes_def list_all_dropWhile)

lemma valid_id_lower:
  assumes "valid_id s"
  shows "list_all id_char (js_lower s)" "js_lower s \<noteq> []" "length s \<le> 64" "alnum (hd (js_lower s))"
proof -
  have c: "id_char (js_lower_char c)" if "alnum c \<or> c = CHR ''_'' \<or> c = CHR ''-''" for c
    using that by (elim disjE) (simp_all add: id_char_def)
  show "list_all id_char (js_lower s)"
    using assms by (auto simp: valid_id_def list_all_iff js_lower_def intro: c)
  show "js_lower s \<noteq> []" "length s \<le> 64" "alnum (hd (js_lower s))"
    using assms by (auto simp: valid_id_def js_lower_def hd_map)
qed

lemma agent_id_chars:
  "list_all id_char (normalizeAgentId v)" "normalizeAgentId v \<noteq> []" "length (normalizeAgentId v) \<le> 64"
proof -
  have main: "list_all id_char ''main''" by (simp add: id_char_def alnum_def js_lower_char_def)
  have "list_all id_char (normalizeAgentId v) \<and> normalizeAgentId v \<noteq> [] \<and> length (normalizeAgentId v) \<le> 64"
    using main
    by (auto simp: normalizeAgentId_def Let_def DEFAULT_AGENT_ID_def js_or_str_def
        normalizeLowercaseStringOrEmpty_eq valid_id_lower intro!: list_all_take strip_dashes_id dash_runs_id)
  then show "list_all id_char (normalizeAgentId v)" "normalizeAgentId v \<noteq> []" "length (normalizeAgentId v) \<le> 64"
    by simp_all
qed

lemmas agent_id_facts =
  agent_id_chars id_chars_lower[OF agent_id_chars(1)] id_chars_trim[OF agent_id_chars(1)]
  id_chars_no_colon[OF agent_id_chars(1)]

section \<open>Opaque peers\<close>

text \<open>
  The rule on the parts of a key: after the parts \<open>signal\<close> and \<open>group\<close> a part that is not empty
  is trimmed and keeps its case; every other part is put in lower case.
\<close>

fun opaque_parts :: "string list \<Rightarrow> string list" where
  "opaque_parts (a # b # c # ps) =
     (if js_lower a = ''signal'' \<and> js_lower b = ''group'' \<and> c \<noteq> []
      then js_lower a # js_lower b # js_trim c # opaque_parts ps
      else js_lower a # opaque_parts (b # c # ps))"
| "opaque_parts ps = map js_lower ps"

lemma opaque_parts_Nil_iff [simp]: "opaque_parts ps = [] \<longleftrightarrow> ps = []"
  by (cases ps rule: opaque_parts.cases) auto

lemma length_opaque_parts [simp]: "length (opaque_parts ps) = length ps"
  by (induction ps rule: opaque_parts.induct) auto

lemma set_js_trim: "set (js_trim s) \<subseteq> set s"
  unfolding js_trim_def by (auto dest!: set_dropWhileD)

lemma opaque_parts_hd: "\<exists>qs. opaque_parts (p # ps) = js_lower p # qs"
  by (cases "p # ps" rule: opaque_parts.cases) auto

lemma opaque_parts_no_colon:
  "\<forall>p \<in> set ps. CHR '':'' \<notin> set p \<Longrightarrow> q \<in> set (opaque_parts ps) \<Longrightarrow> CHR '':'' \<notin> set q"
  by (induction ps rule: opaque_parts.induct) (auto split: if_splits dest: set_js_trim[THEN subsetD])

lemma signal_prefix:
  assumes "js_lower (take 13 s) = ''signal:group:''"
  obtains a b tail where "s = a @ CHR '':'' # b @ CHR '':'' # tail" "js_lower a = ''signal''" "js_lower b = ''group''"
proof -
  have "\<exists>c1 c2 c3 c4 c5 c6 c7 c8 c9 c10 c11 c12 c13. take 13 s = [c1, c2, c3, c4, c5, c6, c7, c8, c9, c10, c11, c12, c13] \<and> js_lower [c1, c2, c3, c4, c5, c6, c7, c8, c9, c10, c11, c12, c13] = ''signal:group:''"
    using assms unfolding js_lower_def by (auto simp: map_eq_Cons_conv)
  then obtain c1 c2 c3 c4 c5 c6 c7 c8 c9 c10 c11 c12 c13 where t: "take 13 s = [c1, c2, c3, c4, c5, c6, c7, c8, c9, c10, c11, c12, c13]"
    and l: "js_lower [c1, c2, c3, c4, c5, c6, c7, c8, c9, c10, c11, c12, c13] = ''signal:group:''" by blast
  have "s = [c1, c2, c3, c4, c5, c6, c7, c8, c9, c10, c11, c12, c13] @ drop 13 s" using t by (metis append_take_drop_id)
  then have "s = [c1, c2, c3, c4, c5, c6] @ CHR '':'' # [c8, c9, c10, c11, c12] @ CHR '':'' # drop 13 s"
    using l by simp
  then show ?thesis by (rule that) (use l in simp_all)
qed

definition after_part :: "string list \<Rightarrow> string" where
  "after_part ps = (if ps = [] then [] else CHR '':'' # js_join '':'' ps)"

lemma js_join_after: "js_join '':'' (p # ps) = p @ after_part ps"
  by (cases ps) (simp_all add: after_part_def)

lemma after_part_simps [simp]:
  "after_part [] = []" "after_part (p # ps) = CHR '':'' # p @ after_part ps"
  by (simp_all add: after_part_def js_join_after)

lemma js_lower_no_colon: "js_lower a = w \<Longrightarrow> CHR '':'' \<notin> set w \<Longrightarrow> CHR '':'' \<notin> set a"
  by auto

lemma signal_group_parts:
  "signal_group s =
     (case js_split CHR '':'' s of
        a # b # c # ps \<Rightarrow>
          if js_lower a = ''signal'' \<and> js_lower b = ''group'' \<and> c \<noteq> []
          then Some (a @ '':'' @ b @ '':'', c, after_part ps) else None
      | _ \<Rightarrow> None)"
proof (cases "js_lower (take 13 s) = ''signal:group:''")
  case True
  then obtain a b tail where s: "s = a @ CHR '':'' # b @ CHR '':'' # tail"
    and ab: "js_lower a = ''signal''" "js_lower b = ''group''" by (rule signal_prefix)
  have nc: "CHR '':'' \<notin> set a" "CHR '':'' \<notin> set b"
    by (rule js_lower_no_colon[OF ab(1)], simp) (rule js_lower_no_colon[OF ab(2)], simp)
  have len: "length a = 6" "length b = 5"
    using arg_cong[OF ab(1), of length] arg_cong[OF ab(2), of length] by simp_all
  have d13: "drop 13 s = tail" and t13: "take 13 s = a @ '':'' @ b @ '':''" using s len by simp_all
  have dd: "drop (13 + n) s = drop n tail" for n using d13 by (metis add.commute drop_drop)
  obtain c ps where tail: "js_split CHR '':'' tail = c # ps" by (cases "js_split CHR '':'' tail") auto
  have c: "takeWhile (\<lambda>x. x \<noteq> CHR '':'') tail = c" using tail js_split_takeWhile[of "CHR '':''" tail] by simp
  have "tail = c @ after_part ps" using join_split[of "CHR '':''" tail] tail js_join_after by simp
  then have rest: "drop (length c) tail = after_part ps" by (metis append_eq_conv_conj)
  have split: "js_split CHR '':'' s = a # b # c # ps" using s nc tail by (simp add: js_split_append_sep)
  show ?thesis using True ab unfolding signal_group_def Let_def d13 c dd rest split by (simp add: t13)
next
  case False
  have none: "signal_group s = None" using False by (simp add: signal_group_def Let_def)
  show ?thesis
  proof (cases "\<exists>a b c ps. js_split CHR '':'' s = a # b # c # ps \<and> js_lower a = ''signal'' \<and> js_lower b = ''group''")
    case True
    then obtain a b c ps where sp: "js_split CHR '':'' s = a # b # c # ps"
      and ab: "js_lower a = ''signal''" "js_lower b = ''group''" by blast
    have "s = a @ '':'' @ b @ '':'' @ js_join '':'' (c # ps)" using join_split[of "CHR '':''" s] sp by simp
    moreover have "length a = 6" "length b = 5"
      using arg_cong[OF ab(1), of length] arg_cong[OF ab(2), of length] by simp_all
    ultimately have "js_lower (take 13 s) = ''signal:group:''" using ab by simp
    with False show ?thesis by blast
  next
    case other: False
    then show ?thesis unfolding none by (auto split: list.splits)
  qed
qed

text \<open>What the scan makes of a text that continues a part.\<close>

definition scan_rest :: "string \<Rightarrow> string" where
  "scan_rest s =
     (case js_split CHR '':'' s of p # ps \<Rightarrow> js_lower p @ after_part (opaque_parts ps) | [] \<Rightarrow> [])"

definition no_space_ends :: "string \<Rightarrow> bool" where
  "no_space_ends s \<longleftrightarrow> s = [] \<or> \<not> js_space (hd s) \<and> \<not> js_space (last s)"

lemma scan_rest_Cons:
  "c \<noteq> CHR '':'' \<Longrightarrow> scan_rest (c # s) = js_lower_char c # scan_rest s"
  "scan_rest (CHR '':'' # s) = after_part (opaque_parts (js_split CHR '':'' s))"
  by (auto simp: scan_rest_def split: list.splits)

lemma join_opaque:
  "js_join '':'' (opaque_parts (js_split CHR '':'' s)) =
     (case signal_group s of
        Some (pre, peer, rest) \<Rightarrow> js_lower pre @ js_trim peer @ scan_rest rest
      | None \<Rightarrow> scan_rest s)"
proof (cases "signal_group s")
  case None
  then show ?thesis
    unfolding scan_rest_def signal_group_parts
    by (cases "js_split CHR '':'' s" rule: opaque_parts.cases) (auto simp: js_join_after split: if_splits)
next
  case (Some t)
  then obtain a b c ps where sp: "js_split CHR '':'' s = a # b # c # ps"
    and ab: "js_lower a = ''signal''" "js_lower b = ''group''" "c \<noteq> []"
    and t: "t = (a @ '':'' @ b @ '':'', c, after_part ps)"
    unfolding signal_group_parts by (auto split: list.splits if_splits)
  have "scan_rest (after_part ps) = after_part (opaque_parts ps)"
    using js_split_no_sep[of _ "CHR '':''" s] sp
    by (cases "ps = []") (simp_all add: after_part_def scan_rest_Cons scan_rest_def[of "[]"] split_join)
  then show ?thesis using Some t sp ab by (simp add: js_join_after after_part_def)
qed

lemma lower_of_trimmed: "no_space_ends s \<Longrightarrow> normalizeLowercaseStringOrEmpty s = js_lower s"
  by (metis js_trim_fix no_space_ends_def normalizeLowercaseStringOrEmpty_eq)

lemma no_space_ends_snoc: "no_space_ends (a @ CHR '':'' # b) \<Longrightarrow> no_space_ends (a @ [CHR '':''])"
  by (cases a) (auto simp: no_space_ends_def)

lemma no_space_ends_after: "no_space_ends (a @ r) \<Longrightarrow> r = [] \<or> hd r = CHR '':'' \<Longrightarrow> no_space_ends r"
  by (auto simp: no_space_ends_def)

lemma signal_group_Some:
  assumes "signal_group s = Some (pre, peer, rest)"
  shows "\<exists>q. pre = q @ '':''" "s = pre @ peer @ rest" "rest = [] \<or> hd rest = CHR '':''"
proof -
  from assms obtain a b c ps where sp: "js_split CHR '':'' s = a # b # c # ps"
    and t: "pre = a @ '':'' @ b @ '':''" "peer = c" "rest = after_part ps"
    unfolding signal_group_parts by (auto split: list.splits if_splits)
  show "\<exists>q. pre = q @ '':''" using t by (intro exI[of _ "a @ '':'' @ b"]) simp
  show "s = pre @ peer @ rest" using t join_split[of "CHR '':''" s] sp by (simp add: js_join_after)
  show "rest = [] \<or> hd rest = CHR '':''" using t by (cases ps) simp_all
qed

text \<open>The piece in front of a match starts the text or follows a colon, and ends with one.\<close>

lemma match_step:
  assumes sg: "signal_group s = Some (pre, peer, rest)"
    and ends: "no_space_ends (piece @ s)" and hd: "piece = [] \<or> \<not> js_space (hd piece)"
  shows "normalizeLowercaseStringOrEmpty (piece @ pre) = js_lower piece @ js_lower pre"
    and "no_space_ends rest" and "length rest < length s"
proof -
  obtain q where q: "pre = q @ '':''" using signal_group_Some(1)[OF sg] by blast
  have "no_space_ends (piece @ pre)"
    using no_space_ends_snoc[of "piece @ q" "peer @ rest"] ends signal_group_Some(2)[OF sg] q by simp
  then show "normalizeLowercaseStringOrEmpty (piece @ pre) = js_lower piece @ js_lower pre"
    by (simp add: lower_of_trimmed)
  show "no_space_ends rest"
    using no_space_ends_after[of "piece @ pre @ peer" rest] ends signal_group_Some(2,3)[OF sg] by simp
  show "length rest < length s" by (rule signal_group_shorter[OF sg])
qed

lemma scan_mid: "no_space_ends (piece @ s) \<Longrightarrow> opaque_scan False piece s = js_lower piece @ scan_rest s"
proof (induction s arbitrary: piece rule: length_induct)
  case (1 s)
  show ?case
  proof (cases s)
    case Nil
    with 1(2) show ?thesis by (simp add: lower_of_trimmed scan_rest_def)
  next
    case (Cons c cs)
    show ?thesis
    proof (cases "c = CHR '':''")
      case False
      then show ?thesis using 1(1)[rule_format, of cs "piece @ [c]"] 1(2) Cons by (simp add: scan_rest_Cons)
    next
      case colon: True
      show ?thesis
      proof (cases "signal_group cs")
        case None
        then show ?thesis
          using 1(1)[rule_format, of cs "piece @ [c]"] 1(2) Cons colon
          by (simp add: scan_rest_Cons join_opaque[of cs, symmetric, unfolded None option.case])
             (simp add: after_part_def join_opaque None)
      next
        case (Some t)
        obtain pre peer rest where t: "t = (pre, peer, rest)" by (cases t)
        note sg = Some[unfolded t]
        have hdp: "piece @ [c] = [] \<or> \<not> js_space (hd (piece @ [c]))"
          using 1(2) Cons colon by (cases piece) (auto simp: no_space_ends_def)
        show ?thesis
          using match_step[OF sg _ hdp] 1(1)[rule_format, of rest "[]"] 1(2) Cons colon sg
          by (simp add: scan_rest_Cons after_part_def join_opaque)
      qed
    qed
  qed
qed

lemma scan_start:
  assumes "no_space_ends s"
  shows "opaque_scan True [] s = js_join '':'' (opaque_parts (js_split CHR '':'' s))"
proof (cases "signal_group s")
  case None
  then have "opaque_scan True [] s = opaque_scan False [] s" by (cases s) simp_all
  then show ?thesis using scan_mid[of "[]" s] assms None by (simp add: join_opaque)
next
  case (Some t)
  obtain pre peer rest where t: "t = (pre, peer, rest)" by (cases t)
  note sg = Some[unfolded t]
  have ne: "s \<noteq> []" using signal_group_shorter[OF sg] by auto
  show ?thesis
    using match_step[OF sg, of "[]"] scan_mid[of "[]" rest] assms ne sg
    by (cases s) (simp_all add: join_opaque del: js_split.simps)
qed

lemma normalizeOptionalString_ends: "normalizeOptionalString key = Some raw \<Longrightarrow> no_space_ends raw"
  by (metis js_trim_fix no_space_ends_def normalizeOptionalString_nonempty)

lemma normalize_key_parts:
  "normalizeOptionalString key = Some raw \<Longrightarrow>
   normalizeSessionKeyPreservingOpaquePeerIds key = js_join '':'' (opaque_parts (js_split CHR '':'' raw))"
  by (simp add: normalizeSessionKeyPreservingOpaquePeerIds_def scan_start normalizeOptionalString_ends)

text \<open>
  the scan of a session key for opaque peers is the rule on its parts: only the part after
  \<open>signal\<close> and \<open>group\<close> keeps its case, and no peer is read across a colon or twice.
\<close>

theorem opaque_peers_by_parts:
  "normalizeSessionKeyPreservingOpaquePeerIds key =
     (case normalizeOptionalString key of
        None \<Rightarrow> []
      | Some raw \<Rightarrow> js_join '':'' (opaque_parts (js_split CHR '':'' raw)))"
  by (cases "normalizeOptionalString key")
     (simp_all add: normalizeSessionKeyPreservingOpaquePeerIds_def scan_start normalizeOptionalString_ends)

section \<open>Keys in clean parts\<close>

definition clean_parts :: "string list \<Rightarrow> bool" where
  "clean_parts ps \<longleftrightarrow> (\<forall>p \<in> set ps. p \<noteq> [] \<and> js_trim p = p \<and> CHR '':'' \<notin> set p)"

text \<open>No part of the key is empty or has white space at an end.\<close>

definition clean_key :: "string \<Rightarrow> bool" where
  "clean_key s \<longleftrightarrow> list_all (\<lambda>p. p \<noteq> [] \<and> js_trim p = p) (js_split CHR '':'' s)"

lemma clean_parts_simps [simp]:
  "clean_parts []"
  "clean_parts (p # ps) \<longleftrightarrow> p \<noteq> [] \<and> js_trim p = p \<and> CHR '':'' \<notin> set p \<and> clean_parts ps"
  by (auto simp: clean_parts_def)

lemma clean_key_parts: "clean_key s \<longleftrightarrow> clean_parts (js_split CHR '':'' s)"
  using js_split_no_sep[of _ "CHR '':''" s] by (auto simp: clean_key_def clean_parts_def list_all_iff)

lemma clean_split: "clean_parts ps \<Longrightarrow> ps \<noteq> [] \<Longrightarrow> js_split CHR '':'' (js_join '':'' ps) = ps"
  by (rule split_join) (auto simp: clean_parts_def)

lemma clean_key_join: "clean_parts ps \<Longrightarrow> ps \<noteq> [] \<Longrightarrow> clean_key (js_join '':'' ps)"
  by (simp add: clean_key_parts clean_split)

lemma key_words [simp]:
  "js_trim ''signal'' = ''signal''" "js_trim ''group'' = ''group''" "js_trim ''agent'' = ''agent''"
  "js_trim ''main'' = ''main''"
  by code_simp+

lemma key_no_colon_main: "CHR '':'' \<notin> set ''main''"
  by simp

lemma clean_opaque: "clean_parts ps \<Longrightarrow> clean_parts (opaque_parts ps)"
  by (induction ps rule: opaque_parts.induct) (auto simp: js_trim_js_lower)

lemma clean_non_empty: "clean_parts ps \<Longrightarrow> non_empty ps = ps"
  by (induction ps) simp_all

lemma trimmed_ends: "js_trim p = p \<Longrightarrow> no_space_ends p"
  by (metis js_trim_ends no_space_ends_def)

lemma no_space_ends_join: "clean_parts ps \<Longrightarrow> no_space_ends (js_join '':'' ps)"
proof (induction ps rule: induct_list012)
  case (3 p q ps)
  then have "no_space_ends (js_join '':'' (q # ps))" "js_join '':'' (q # ps) \<noteq> []" "no_space_ends p"
    using trimmed_ends[of p] by (simp_all add: js_join_after)
  with 3(3) show ?case by (simp add: no_space_ends_def)
qed (auto simp: trimmed_ends no_space_ends_def[of "[]"])

lemma clean_key_normal: "clean_key s \<Longrightarrow> normalizeOptionalString (Some s) = Some s"
proof -
  assume c: "clean_key s"
  have "no_space_ends s" using no_space_ends_join[of "js_split CHR '':'' s"] c by (simp add: clean_key_parts join_split)
  moreover have "s \<noteq> []" using c by (auto simp: clean_key_def)
  ultimately show ?thesis by (simp add: normalizeOptionalString_Some js_trim_fix[THEN iffD2] no_space_ends_def)
qed

lemma opaque_idem: "clean_parts ps \<Longrightarrow> opaque_parts (opaque_parts ps) = opaque_parts ps"
proof (induction ps rule: opaque_parts.induct)
  case (1 a b c ps)
  show ?case
  proof (cases "js_lower a = ''signal'' \<and> js_lower b = ''group'' \<and> c \<noteq> []")
    case True
    then show ?thesis using 1 by simp
  next
    case False
    obtain z zs where z: "opaque_parts (b # c # ps) = js_lower b # z # zs"
      using opaque_parts_hd[of b "c # ps"] length_opaque_parts[of "b # c # ps"]
      by (metis Suc_length_conv length_Cons list.inject)
    have "opaque_parts (opaque_parts (b # c # ps)) = opaque_parts (b # c # ps)"
      using 1(2)[OF False] 1(3) by simp
    then show ?thesis using False 1(3) unfolding z by (auto simp: z)
  qed
qed simp_all

lemma parse_clean:
  assumes "clean_parts ps" "ps \<noteq> []"
  shows "parseAgentSessionKey (Some (js_join '':'' ps)) =
    (case opaque_parts ps of
       p0 # p1 # p2 # qs \<Rightarrow>
         if p0 = ''agent'' then Some \<lparr>keyAgentId = p1, keyRest = js_join '':'' (p2 # qs)\<rparr> else None
     | _ \<Rightarrow> None)"
proof -
  have raw: "normalizeOptionalString (Some (js_join '':'' ps)) = Some (js_join '':'' ps)"
    using assms by (intro clean_key_normal clean_key_join)
  have norm: "normalizeSessionKeyPreservingOpaquePeerIds (Some (js_join '':'' ps)) = js_join '':'' (opaque_parts ps)"
    using normalize_key_parts[OF raw] assms by (simp add: clean_split)
  have c: "clean_parts (opaque_parts ps)" "opaque_parts ps \<noteq> []" using assms clean_opaque by simp_all
  have ne: "js_join '':'' (opaque_parts ps) \<noteq> []"
    using c by (subst js_join_eq_Nil) (auto simp: clean_parts_def)
  show ?thesis
    unfolding parseAgentSessionKey_def norm Let_def clean_split[OF c] clean_non_empty[OF c(1)]
    using ne c(1)
    by (auto split: list.splits simp: normalizeOptionalString_Some js_join_after)
qed

lemma js_join_lower_parts: "clean_parts ps \<Longrightarrow> map js_lower ps = ps \<Longrightarrow> opaque_parts ps = ps"
  by (induction ps rule: opaque_parts.induct) auto

text \<open>An agent whose identifier is \<open>signal\<close> would take a key that starts with \<open>group\<close> for a peer.\<close>

lemma agent_key:
  assumes "list_all id_char i" "i \<noteq> []" "i \<noteq> ''signal''" "clean_parts ps" "ps \<noteq> []"
  shows "parseAgentSessionKey (Some (''agent:'' @ i @ '':'' @ js_join '':'' ps)) =
           Some \<lparr>keyAgentId = i, keyRest = js_join '':'' (opaque_parts ps)\<rparr>"
    and "clean_key (''agent:'' @ i @ '':'' @ js_join '':'' ps)"
proof -
  have join: "''agent:'' @ i @ '':'' @ js_join '':'' ps = js_join '':'' (''agent'' # i # ps)"
    using assms(5) by (simp add: js_join_Cons del: js_join.simps)
  have clean: "clean_parts (''agent'' # i # ps)"
    using assms id_chars_trim id_chars_no_colon by simp
  then show "clean_key (''agent:'' @ i @ '':'' @ js_join '':'' ps)" unfolding join by (rule clean_key_join) simp
  obtain p qs where ps: "ps = p # qs" using assms(5) by (cases ps) auto
  obtain r where r: "opaque_parts ps = js_lower p # r" using ps opaque_parts_hd by blast
  have "opaque_parts (''agent'' # i # ps) = ''agent'' # i # opaque_parts ps"
    using assms(1-3) ps by (cases qs) (auto simp: id_chars_lower)
  then show "parseAgentSessionKey (Some (''agent:'' @ i @ '':'' @ js_join '':'' ps)) =
           Some \<lparr>keyAgentId = i, keyRest = js_join '':'' (opaque_parts ps)\<rparr>"
    unfolding join parse_clean[OF clean list.distinct(2)] r by simp
qed

lemma classify_clean:
  assumes "clean_key k"
  shows "classifySessionKeyShape (Some k) =
     (if parseAgentSessionKey (Some k) \<noteq> None then KeyAgent
      else if js_starts_with (js_lower k) ''agent:'' then KeyMalformedAgent else KeyLegacyOrAlias)"
  and "js_trim k = k" and "k \<noteq> []" and "normalizeLowercaseStringOrEmpty k = js_lower k"
proof -
  have t: "js_trim k = k" "k \<noteq> []"
    using clean_key_normal[OF assms] by (auto simp: normalizeOptionalString_Some split: if_splits)
  then show "js_trim k = k" "k \<noteq> []" "normalizeLowercaseStringOrEmpty k = js_lower k"
    by (simp_all add: normalizeLowercaseStringOrEmpty_eq)
  show "classifySessionKeyShape (Some k) =
     (if parseAgentSessionKey (Some k) \<noteq> None then KeyAgent
      else if js_starts_with (js_lower k) ''agent:'' then KeyMalformedAgent else KeyLegacyOrAlias)"
    using t by (simp add: classifySessionKeyShape_def Let_def normalizeLowercaseStringOrEmpty_eq)
qed

lemma main_key_parse:
  assumes "clean_key (normalizeMainKey m)" "normalizeAgentId (Some a) \<noteq> ''signal''"
  shows "parseAgentSessionKey (Some (buildAgentMainSessionKey a m)) =
           Some \<lparr>keyAgentId = normalizeAgentId (Some a), keyRest = normalizeMainKey m\<rparr>"
    and "clean_key (buildAgentMainSessionKey a m)"
proof -
  have low: "js_lower (normalizeMainKey m) = normalizeMainKey m"
    by (simp add: normalizeMainKey_def js_or_str_def DEFAULT_MAIN_KEY_def normalizeLowercaseStringOrEmpty_eq)
  have "map js_lower (js_split CHR '':'' (normalizeMainKey m)) = js_split CHR '':'' (normalizeMainKey m)"
    using js_split_js_lower[of "normalizeMainKey m"] low by simp
  then have "js_join '':'' (opaque_parts (js_split CHR '':'' (normalizeMainKey m))) = normalizeMainKey m"
    using assms(1) by (simp add: js_join_lower_parts clean_key_parts join_split)
  then show "parseAgentSessionKey (Some (buildAgentMainSessionKey a m)) =
           Some \<lparr>keyAgentId = normalizeAgentId (Some a), keyRest = normalizeMainKey m\<rparr>"
    and "clean_key (buildAgentMainSessionKey a m)"
    unfolding buildAgentMainSessionKey_def
    using agent_key[OF agent_id_chars(1,2) assms(2), of "js_split CHR '':'' (normalizeMainKey m)"] assms(1)
    by (simp_all add: clean_key_parts[of "normalizeMainKey m"] join_split)
qed



section \<open>The shape of an agent's identifier\<close>

lemma strip_ends_prefix: "prefix (rev (dropWhile P (rev d))) d"
  by (metis rev_rev_ident suffix_dropWhile suffix_to_prefix)

lemma strip_dashes_hd:
  assumes "strip_dashes s \<noteq> []"
  shows "hd (strip_dashes s) \<noteq> CHR ''-''"
proof -
  let ?d = "dropWhile (\<lambda>c. c = CHR ''-'') s"
  obtain zs where zs: "?d = strip_dashes s @ zs"
    using strip_ends_prefix[of "\<lambda>c. c = CHR ''-''" ?d] by (auto simp: strip_dashes_def prefix_def)
  have "hd ?d = hd (strip_dashes s)" "?d \<noteq> []" unfolding zs using assms by simp_all
  then show ?thesis using hd_dropWhile[of "\<lambda>c. c = CHR ''-''" s] by simp
qed

lemma agent_id_hd: "hd (normalizeAgentId v) \<noteq> CHR ''-''"
  using valid_id_lower(4)[of "js_trim (js_nullish v [])"] strip_dashes_hd
  by (auto simp: normalizeAgentId_def Let_def DEFAULT_AGENT_ID_def js_or_str_def alnum_def
      normalizeLowercaseStringOrEmpty_eq hd_take)

text \<open>
  an agent's identifier is one to 64 lower-case letters, digits, underscores and dashes, so
  it is safe in a path and in a key. It is valid and normalises to itself, unless it starts
  with an underscore, which the replacement of invalid characters lets through.
\<close>

theorem agent_id_shape:
  "let n = normalizeAgentId v
   in list_all id_char n \<and> 0 < length n \<and> length n \<le> 64 \<and>
      (if alnum (hd n) then normalizeAgentId (Some n) = n \<and> isValidAgentId (Some n) else hd n = CHR ''_'')"
proof -
  define n where "n = normalizeAgentId v"
  note f = agent_id_facts[of v, folded n_def]
  have hd: "id_char (hd n)" "hd n \<noteq> CHR ''-''"
    using f(1,2) agent_id_hd[of v] by (auto simp: list_all_iff n_def)
  have "valid_id n" if "alnum (hd n)"
    using that f(1-3) by (auto simp: valid_id_def list_all_iff id_char_def)
  then have "if alnum (hd n) then normalizeAgentId (Some n) = n \<and> isValidAgentId (Some n) else hd n = CHR ''_''"
    using f hd by (auto simp: normalizeAgentId_def isValidAgentId_def Let_def normalizeLowercaseStringOrEmpty_eq id_char_def)
  then show ?thesis using f(1-3) unfolding n_def[symmetric] Let_def by simp
qed

lemma agent_id_underscore:
  "let s = CHR ''_'' # replicate 62 CHR ''a'' @ ''-b''
   in normalizeAgentId (Some (normalizeAgentId (Some s))) \<noteq> normalizeAgentId (Some s)"
  by code_simp

section \<open>Account caches\<close>

definition account_cache_ok :: "(string \<Rightarrow> 'v) \<Rightarrow> (string, 'v) jmap \<Rightarrow> bool" where
  "account_cache_ok f cache \<longleftrightarrow>
     jm_wf cache \<and> length cache \<le> ACCOUNT_ID_CACHE_MAX \<and> (\<forall>k v. jm_get cache k = Some v \<longrightarrow> f k = v)"

lemma length_update_le: "length (AList.update k v m) \<le> Suc (length m)"
  by (induction m) auto

lemma length_delete_hd: "m \<noteq> [] \<Longrightarrow> length (AList.delete (fst (hd m)) m) < length m"
  by (cases m) (auto simp: less_Suc_eq_le length_delete_le)

lemma setNormalizeCache_ok:
  assumes "account_cache_ok f cache"
  shows "account_cache_ok f (setNormalizeCache cache k (f k))"
proof -
  let ?c = "jm_set k (f k) cache"
  have wf: "jm_wf cache" and vals: "jm_get cache i = Some v \<Longrightarrow> f i = v" for i v
    using assms by (simp_all add: account_cache_ok_def)
  have "jm_get ?c i = Some v \<Longrightarrow> f i = v" for i v
    using vals[of i v] unfolding jm.get_put[OF wf] by (cases "i = k") simp_all
  note upd = jm.ok_put[OF wf, of k "f k"] this
  show ?thesis
  proof (cases "length ?c \<le> ACCOUNT_ID_CACHE_MAX")
    case True
    then have "setNormalizeCache cache k (f k) = ?c" by (simp add: setNormalizeCache_def Let_def)
    then show ?thesis using upd True unfolding account_cache_ok_def by metis
  next
    case False
    then obtain e es where c: "?c = e # es" by (cases ?c) auto
    have "length (jm_del (fst e) ?c) < length ?c" using length_delete_hd[of ?c] c by simp
    then have len: "length (jm_del (fst e) ?c) \<le> ACCOUNT_ID_CACHE_MAX"
      using length_update_le[of k "f k" cache] assms by (simp add: account_cache_ok_def)
    have get: "jm_get (jm_del (fst e) ?c) i = Some v \<Longrightarrow> f i = v" for i v
      using upd(2)[of i v] unfolding jm.get_del[OF upd(1)] by (cases "i = fst e") simp_all
    have "setNormalizeCache cache k (f k) = jm_del (fst e) ?c"
      using False c by (simp add: setNormalizeCache_def Let_def)
    then show ?thesis using len get jm.ok_del[OF upd(1)] unfolding account_cache_ok_def by metis
  qed
qed

abbreviation accountIdOf_trimmed :: "string \<Rightarrow> string" where
  "accountIdOf_trimmed t \<equiv> js_nullish (normalizeCanonicalAccountId t) DEFAULT_ACCOUNT_ID"

lemma accountIdOf_trimmed_nonempty [simp]: "accountIdOf_trimmed t \<noteq> []" "[] \<noteq> accountIdOf_trimmed t"
  by (auto simp: normalizeCanonicalAccountId_def Let_def DEFAULT_ACCOUNT_ID_def)

lemma account_cache:
  assumes "account_cache_ok accountIdOf_trimmed cache"
  shows "fst (normalizeAccountId v cache) = accountIdOf v"
    and "account_cache_ok accountIdOf_trimmed (snd (normalizeAccountId v cache))"
proof -
  let ?t = "js_trim (js_nullish v [])"
  have hit: "accountIdOf_trimmed ?t = c \<and> c \<noteq> []" if "jm_get cache ?t = Some c" for c
    using assms that accountIdOf_trimmed_nonempty(1)[of ?t] unfolding account_cache_ok_def by blast
  show "fst (normalizeAccountId v cache) = accountIdOf v"
    using hit by (cases "jm_get cache ?t") (simp_all add: normalizeAccountId_def accountIdOf_def Let_def)
  show "account_cache_ok accountIdOf_trimmed (snd (normalizeAccountId v cache))"
    using hit assms setNormalizeCache_ok[OF assms, of ?t]
    by (cases "jm_get cache ?t") (simp_all add: normalizeAccountId_def Let_def)
qed

lemma optional_account_cache:
  assumes "account_cache_ok normalizeCanonicalAccountId cache"
  shows "fst (normalizeOptionalAccountId v cache) =
           (if js_trim (js_nullish v []) = [] then None else normalizeCanonicalAccountId (js_trim (js_nullish v [])))"
    and "account_cache_ok normalizeCanonicalAccountId (snd (normalizeOptionalAccountId v cache))"
  using assms setNormalizeCache_ok[OF assms]
  by (auto simp: normalizeOptionalAccountId_def Let_def account_cache_ok_def[of _ cache] split: option.splits)

interpretation accounts: memoised accountIdOf normalizeAccountId
  "account_cache_ok accountIdOf_trimmed" "\<lambda>v. True"
  by unfold_locales (simp_all add: account_cache)

interpretation optional_accounts: memoised
  "\<lambda>v. if js_trim (js_nullish v []) = [] then None else normalizeCanonicalAccountId (js_trim (js_nullish v []))"
  normalizeOptionalAccountId "account_cache_ok normalizeCanonicalAccountId" "\<lambda>v. True"
  by unfold_locales (simp_all add: optional_account_cache)

lemma empty_cache_ok: "account_cache_ok f []"
  by (simp add: account_cache_ok_def jm_wf_def)

text \<open>
  the account caches are transparent and bounded: whatever was asked before, an account
  identifier is the one computed from its text alone, and a cache never holds more than its
  512 entries.
\<close>

theorem account_caches_transparent:
  "fst (memo_run normalizeAccountId vs []) = map accountIdOf vs \<and>
   length (snd (memo_run normalizeAccountId vs [])) \<le> ACCOUNT_ID_CACHE_MAX \<and>
   fst (memo_run normalizeOptionalAccountId vs []) =
     map (\<lambda>v. if js_trim (js_nullish v []) = [] then None
              else normalizeCanonicalAccountId (js_trim (js_nullish v []))) vs \<and>
   length (snd (memo_run normalizeOptionalAccountId vs [])) \<le> ACCOUNT_ID_CACHE_MAX"
  using accounts.run_answers[OF empty_cache_ok, of vs] optional_accounts.run_answers[OF empty_cache_ok, of vs]
  by (auto simp: account_cache_ok_def list_all_iff)

section \<open>Different peers, different keys\<close>

text \<open>The session a peer is given: the parts of its key, of which only the last may hold colons.\<close>

definition peer_shape :: "peer_key_params \<Rightarrow> nat" where
  "peer_shape p =
     (if js_nullish (pkPeerKind p) ''direct'' \<noteq> ''direct'' then 4
      else if direct_peer p = [] then 0
      else case js_nullish (pkDmScope p) Dm_main of
        Dm_main \<Rightarrow> 0 | Dm_per_peer \<Rightarrow> 1 | Dm_per_channel_peer \<Rightarrow> 2 | Dm_per_account_channel_peer \<Rightarrow> 3)"

definition peer_identity :: "peer_key_params \<Rightarrow> string list \<times> string" where
  "peer_identity p =
     (let agent = normalizeAgentId (Some (pkAgentId p)); channel = key_channel (pkChannel p);
          kind = js_nullish (pkPeerKind p) ''direct''
      in if peer_shape p = 4 then
           ([agent, channel, kind],
            js_or_str (normalizeSessionPeerId (Some (pkChannel p)) (Some kind) (pkPeerId p)) ''unknown'')
         else if peer_shape p = 3 then ([agent, channel, accountIdOf (pkAccountId p), ''direct''], direct_peer p)
         else if peer_shape p = 2 then ([agent, channel, ''direct''], direct_peer p)
         else if peer_shape p = 1 then ([agent, ''direct''], direct_peer p)
         else ([agent], normalizeMainKey (pkMainKey p)))"

lemma peer_key_text:
  "buildAgentPeerSessionKey p = ''agent:'' @ js_join '':'' (fst (peer_identity p) @ [snd (peer_identity p)])"
  by (auto simp: buildAgentPeerSessionKey_def peer_identity_def peer_shape_def Let_def
      buildAgentMainSessionKey_def split: dm_scope.splits)

lemma join_last_inj:
  assumes "length as = length bs" "\<forall>p \<in> set as \<union> set bs. c \<notin> set p"
  shows "js_join [c] (as @ [x]) = js_join [c] (bs @ [y]) \<longleftrightarrow> as = bs \<and> x = y"
  using assms
proof (induction as bs rule: list_induct2)
  case (Cons a as b bs)
  then show ?case by (simp add: js_join_Cons sep_cancel del: js_join.simps)
qed simp

lemma account_id_chars: "list_all id_char (accountIdOf v)"
proof -
  have "list_all id_char ''default''" by (simp add: id_char_def alnum_def)
  then show ?thesis
    by (auto simp: accountIdOf_def Let_def normalizeCanonicalAccountId_def canonicalizeAccountId_def
        DEFAULT_ACCOUNT_ID_def normalizeLowercaseStringOrEmpty_eq valid_id_lower
        intro!: list_all_take strip_dashes_id dash_runs_id)
qed

lemma account_id_no_colon: "CHR '':'' \<notin> set (accountIdOf v)"
  by (rule id_chars_no_colon[OF account_id_chars])


definition signal_group_chat :: peer_key_params where
  "signal_group_chat = \<lparr>pkAgentId = ''main'', pkMainKey = None, pkChannel = ''Signal'', pkAccountId = None,
     pkPeerKind = Some ''group'', pkPeerId = Some ''AbC='', pkIdentityLinks = None, pkDmScope = None\<rparr>"


section \<open>Threads\<close>

lemma last_find_None: "pat \<noteq> [] \<Longrightarrow> last_find pat s = None \<longleftrightarrow> \<not> js_includes s pat"
  by (induction s) (auto split: option.splits)

lemma last_find_append:
  assumes "pat \<noteq> []" "\<not> js_includes (tl (pat @ s)) pat"
  shows "last_find pat (b @ pat @ s) = Some (length b)"
proof (induction b)
  case Nil
  obtain p ps where p: "pat = p # ps" using assms(1) by (cases pat) auto
  have "last_find pat (tl (pat @ s)) = None" using assms by (simp add: last_find_None)
  then show ?case using p js_starts_with_iff[of "pat @ s" pat] by simp
qed simp

text \<open>
  a thread's key leads back to its parent: a key extended with a thread splits again into
  the base key and the thread in lower case, when the thread does not itself contain the
  marker.
\<close>

theorem thread_suffix_roundtrip:
  assumes "js_trim base = base" "base \<noteq> []" "js_trim t \<noteq> []"
    and "\<not> js_includes ('':'' @ js_lower (js_trim t)) '':thread:''"
  shows "let key = fst (resolveThreadSessionKeys base (Some t) parent None None)
         in parseThreadSessionSuffix (Some key) =
              \<lparr>baseSessionKey = Some base, suffixThreadId = Some (js_lower (js_trim t))\<rparr> \<and>
            resolveThreadParentSessionKey (Some key) = Some base"
proof -
  let ?t = "js_lower (js_trim t)"
  let ?key = "base @ '':thread:'' @ ?t"
  have tt: "js_trim ?t = ?t" "?t \<noteq> []" using assms(3) by (simp_all add: js_trim_js_lower)
  have key: "fst (resolveThreadSessionKeys base (Some t) parent None None) = ?key"
    using assms(3) by (simp add: resolveThreadSessionKeys_def Let_def normalizeLowercaseStringOrEmpty_eq)
  have trim: "js_trim ?key = ?key"
    using js_trim_ends[of base] js_trim_ends[of ?t] assms(1,2) tt
    by (intro js_trim_no_ends) (simp_all add: last_append)
  have marker: "js_lower '':thread:'' = '':thread:''" by code_simp
  have "\<not> js_includes (tl ('':thread:'' @ ?t)) '':thread:''" using assms(4) by simp
  then have "last_find '':thread:'' (js_lower ?key) = Some (length base)"
    using last_find_append[of "'':thread:''" ?t "js_lower base"] by (simp only: js_lower_simps marker js_lower_idem) simp
  then have "parseThreadSessionSuffix (Some ?key) = \<lparr>baseSessionKey = Some base, suffixThreadId = Some ?t\<rparr>"
    using trim tt unfolding parseThreadSessionSuffix_def
    by (simp add: normalizeOptionalString_Some normalizeLowercaseStringOrEmpty_eq Let_def)
  then show ?thesis
    unfolding key Let_def
    using assms(1,2) by (simp add: resolveThreadParentSessionKey_def Let_def normalizeOptionalString_Some)
qed

lemma thread_suffix_roundtrip_witness:
  "parseThreadSessionSuffix (Some (fst (resolveThreadSessionKeys ''agent:main:x'' (Some '' T1 '') None None None))) =
     \<lparr>baseSessionKey = Some ''agent:main:x'', suffixThreadId = Some ''t1''\<rparr>"
proof -
  have pre: "js_trim ''agent:main:x'' = ''agent:main:x''" "''agent:main:x'' \<noteq> []" "js_trim '' T1 '' \<noteq> []"
    "\<not> js_includes ('':'' @ js_lower (js_trim '' T1 '')) '':thread:''"
    by code_simp+
  have "js_lower (js_trim '' T1 '') = ''t1''" by code_simp
  then show ?thesis using thread_suffix_roundtrip[OF pre, of None] unfolding Let_def by simp
qed

end
