(* ===== verification/Routing.thy ===== *)
theory Routing
  imports Session_Key_Props
begin

text \<open>
  Which agent and session an inbound message goes to: \<open>src/routing/resolve-route.ts\<close> with
  \<open>binding-scope.ts\<close>, \<open>peer-kind-match.ts\<close>, \<open>bindings.ts\<close>, \<open>config/bindings.ts\<close> and
  \<open>channels/chat-type.ts\<close>, and the default agent of \<open>agents/agent-scope-config.ts\<close>.

  The module keeps three \<open>WeakMap\<close> caches keyed by the configuration object and checked against
  the identity of its parts. A configuration here has an identity, and so has each part; the
  caches are explicit state. Log lines are left out.
\<close>

section \<open>Configuration\<close>

text \<open>A part of the configuration: the identity of the object and its content.\<close>

datatype 'a ref = Ref (refId: nat) (refVal: 'a)

record agent_entry =
  agentEntryId :: "string option"
  agentEntryDefault :: bool

text \<open>An identifier as the configuration or a channel gives it.\<close>

datatype route_id = IdText string | IdNumber int | IdOther

record binding_match =
  bmChannel :: "string option"
  bmAccountId :: "string option"
  bmPeer :: "(string option \<times> route_id) option"
  bmGuildId :: route_id
  bmTeamId :: route_id
  bmRoles :: "string list option"

record route_binding =
  bindingType :: "string option"
  bindingAgentId :: string
  bindingMatch :: binding_match
  bindingDmScope :: "dm_scope option"

record session_config =
  cfgDmScope :: "dm_scope option"
  cfgIdentityLinks :: "identity_links option"

record route_config =
  cfgId :: nat
  cfgAgents :: "agent_entry list option ref"
  cfgBindings :: "route_binding list option ref"
  cfgSession :: "session_config option ref"

definition listAgentEntries :: "route_config \<Rightarrow> agent_entry list" where
  "listAgentEntries cfg = js_nullish (refVal (cfgAgents cfg)) []"

definition default_agent_of :: "'a agent_entry_scheme list \<Rightarrow> string" where
  "default_agent_of entries =
     (case entries of
        [] \<Rightarrow> DEFAULT_AGENT_ID
      | first # _ \<Rightarrow>
          (let chosen = (case filter agentEntryDefault entries of d # _ \<Rightarrow> d | [] \<Rightarrow> first);
               i = js_trim (js_nullish (agentEntryId chosen) [])
           in normalizeAgentId (Some (js_or_str i DEFAULT_AGENT_ID))))"

definition resolveDefaultAgentId :: "route_config \<Rightarrow> string" where
  "resolveDefaultAgentId cfg = default_agent_of (listAgentEntries cfg)"

definition isRouteBinding :: "route_binding \<Rightarrow> bool" where
  "isRouteBinding b \<longleftrightarrow> bindingType b \<noteq> Some ''acp''"

definition listBindings :: "route_config \<Rightarrow> route_binding list" where
  "listBindings cfg = filter isRouteBinding (js_nullish (refVal (cfgBindings cfg)) [])"

section \<open>Normal forms\<close>

definition normalizeChatType :: "string option \<Rightarrow> string option" where
  "normalizeChatType raw =
     (case normalizeOptionalLowercaseString raw of
        None \<Rightarrow> None
      | Some v \<Rightarrow>
          if v = ''direct'' \<or> v = ''dm'' then Some ''direct''
          else if v = ''group'' then Some ''group''
          else if v = ''channel'' then Some ''channel'' else None)"

definition normalizeRouteBindingId :: "route_id \<Rightarrow> string" where
  "normalizeRouteBindingId v =
     (case v of IdText s \<Rightarrow> js_trim s | IdNumber n \<Rightarrow> js_trim (js_int_string n) | IdOther \<Rightarrow> [])"

definition normalizeRouteBindingRoles :: "string list option \<Rightarrow> string list option" where
  "normalizeRouteBindingRoles v = (case v of Some rs \<Rightarrow> if rs \<noteq> [] then Some rs else None | None \<Rightarrow> None)"

definition or_null :: "string \<Rightarrow> string option" where
  "or_null s = (if s = [] then None else Some s)"

datatype peer_constraint =
    Peer_none
  | Peer_invalid
  | Peer_wildcard string
  | Peer_valid string string

record norm_match =
  accountPattern :: string
  peerConstraint :: peer_constraint
  nmGuildId :: "string option"
  nmTeamId :: "string option"
  nmRoles :: "string list option"

record evaluated_binding =
  ebBinding :: route_binding
  ebMatch :: norm_match
  ebOrder :: nat

definition normalizePeerConstraint :: "(string option \<times> route_id) option \<Rightarrow> peer_constraint" where
  "normalizePeerConstraint peer =
     (case peer of
        None \<Rightarrow> Peer_none
      | Some (k, i) \<Rightarrow>
          (case normalizeChatType k of
             None \<Rightarrow> Peer_invalid
           | Some kind \<Rightarrow>
               (let ident = normalizeRouteBindingId i
                in if ident = [] then Peer_invalid
                   else if ident = ''*'' then Peer_wildcard kind else Peer_valid kind ident)))"

definition normalizeBindingMatch :: "binding_match \<Rightarrow> norm_match" where
  "normalizeBindingMatch bm =
     \<lparr>accountPattern = js_trim (js_nullish (bmAccountId bm) []),
      peerConstraint = normalizePeerConstraint (bmPeer bm),
      nmGuildId = or_null (normalizeRouteBindingId (bmGuildId bm)),
      nmTeamId = or_null (normalizeRouteBindingId (bmTeamId bm)),
      nmRoles = normalizeRouteBindingRoles (bmRoles bm)\<rparr>"

definition resolveAccountPatternKey :: "string \<Rightarrow> string" where
  "resolveAccountPatternKey pat = (if js_trim pat = [] then DEFAULT_ACCOUNT_ID else accountIdOf (Some pat))"

section \<open>Bindings by channel and account\<close>

record channel_bindings =
  byAccountKey :: "(string, evaluated_binding list) jmap"
  byAnyAccount :: "evaluated_binding list"

definition push_to :: "string \<Rightarrow> 'b \<Rightarrow> (string, 'b list) jmap \<Rightarrow> (string, 'b list) jmap" where
  "push_to key b m =
     (case jm_get m key of Some existing \<Rightarrow> jm_set key (existing @ [b]) m | None \<Rightarrow> jm_set key [b] m)"

text \<open>One turn of the loop of \<open>buildEvaluatedBindingsByChannel\<close>; the state is the map and the order.\<close>

definition evaluate_binding ::
  "route_binding \<Rightarrow> (string, channel_bindings) jmap \<times> nat \<Rightarrow> (string, channel_bindings) jmap \<times> nat" where
  "evaluate_binding b st =
     (case st of (byChannel, order) \<Rightarrow>
        (let channel = normalizeLowercaseStringOrEmpty (js_nullish (bmChannel (bindingMatch b)) [])
         in if channel = [] then st
            else (let nm = normalizeBindingMatch (bindingMatch b);
                      e = \<lparr>ebBinding = b, ebMatch = nm, ebOrder = order\<rparr>;
                      bucket = js_nullish (jm_get byChannel channel) \<lparr>byAccountKey = [], byAnyAccount = []\<rparr>;
                      bucket' = (if accountPattern nm = ''*''
                                 then bucket\<lparr>byAnyAccount := byAnyAccount bucket @ [e]\<rparr>
                                 else bucket\<lparr>byAccountKey :=
                                   push_to (resolveAccountPatternKey (accountPattern nm)) e (byAccountKey bucket)\<rparr>)
                  in (jm_set channel bucket' byChannel, order + 1))))"

definition buildEvaluatedBindingsByChannel :: "route_config \<Rightarrow> (string, channel_bindings) jmap" where
  "buildEvaluatedBindingsByChannel cfg = fst (fold evaluate_binding (listBindings cfg) ([], 0))"

fun merge_loop :: "evaluated_binding list \<Rightarrow> evaluated_binding list \<Rightarrow> evaluated_binding list" where
  "merge_loop (a # as) (b # bs) =
     (if ebOrder a \<le> ebOrder b then a # merge_loop as (b # bs) else b # merge_loop (a # as) bs)"
| "merge_loop [] bs = bs"
| "merge_loop as [] = as"

definition mergeEvaluatedBindingsInSourceOrder ::
  "evaluated_binding list \<Rightarrow> evaluated_binding list \<Rightarrow> evaluated_binding list" where
  "mergeEvaluatedBindingsInSourceOrder accountScoped anyAccount =
     (if accountScoped = [] then anyAccount
      else if anyAccount = [] then accountScoped else merge_loop accountScoped anyAccount)"

section \<open>The index\<close>

record bindings_index =
  ixByPeer :: "(string, evaluated_binding list) jmap"
  ixByPeerWildcard :: "evaluated_binding list"
  ixByGuildWithRoles :: "(string, evaluated_binding list) jmap"
  ixByGuild :: "(string, evaluated_binding list) jmap"
  ixByTeam :: "(string, evaluated_binding list) jmap"
  ixByAccount :: "evaluated_binding list"
  ixByChannel :: "evaluated_binding list"

definition pushToIndexMap ::
  "(string, evaluated_binding list) jmap \<Rightarrow> string option \<Rightarrow> evaluated_binding \<Rightarrow> (string, evaluated_binding list) jmap" where
  "pushToIndexMap m key b =
     (case key of None \<Rightarrow> m | Some k \<Rightarrow> if k = [] then m else push_to k b m)"

definition peerLookupKeys :: "string \<Rightarrow> string \<Rightarrow> string list" where
  "peerLookupKeys kind i =
     (if kind = ''group'' then [''group:'' @ i, ''channel:'' @ i]
      else if kind = ''channel'' then [''channel:'' @ i, ''group:'' @ i]
      else [kind @ '':'' @ i])"

definition index_binding :: "evaluated_binding \<Rightarrow> bindings_index \<Rightarrow> bindings_index" where
  "index_binding b ix =
     (let nm = ebMatch b
      in case peerConstraint nm of
           Peer_valid kind i \<Rightarrow>
             ix\<lparr>ixByPeer := fold (\<lambda>key m. pushToIndexMap m (Some key) b) (peerLookupKeys kind i) (ixByPeer ix)\<rparr>
         | Peer_wildcard kind \<Rightarrow> ix\<lparr>ixByPeerWildcard := ixByPeerWildcard ix @ [b]\<rparr>
         | _ \<Rightarrow>
             if nmGuildId nm \<noteq> None \<and> nmRoles nm \<noteq> None
             then ix\<lparr>ixByGuildWithRoles := pushToIndexMap (ixByGuildWithRoles ix) (nmGuildId nm) b\<rparr>
             else if nmGuildId nm \<noteq> None \<and> nmRoles nm = None
             then ix\<lparr>ixByGuild := pushToIndexMap (ixByGuild ix) (nmGuildId nm) b\<rparr>
             else if nmTeamId nm \<noteq> None
             then ix\<lparr>ixByTeam := pushToIndexMap (ixByTeam ix) (nmTeamId nm) b\<rparr>
             else if accountPattern nm \<noteq> ''*'' then ix\<lparr>ixByAccount := ixByAccount ix @ [b]\<rparr>
             else ix\<lparr>ixByChannel := ixByChannel ix @ [b]\<rparr>)"

definition buildEvaluatedBindingsIndex :: "evaluated_binding list \<Rightarrow> bindings_index" where
  "buildEvaluatedBindingsIndex bs =
     fold index_binding bs \<lparr>ixByPeer = [], ixByPeerWildcard = [], ixByGuildWithRoles = [], ixByGuild = [],
       ixByTeam = [], ixByAccount = [], ixByChannel = []\<rparr>"

type_synonym route_peer = "string \<times> string"

definition collectPeerIndexedBindings :: "bindings_index \<Rightarrow> route_peer option \<Rightarrow> evaluated_binding list" where
  "collectPeerIndexedBindings ix peer =
     (case peer of
        None \<Rightarrow> []
      | Some (kind, i) \<Rightarrow>
          fold (\<lambda>key out. fold js_add (js_nullish (jm_get (ixByPeer ix) key) []) out) (peerLookupKeys kind i) [])"

section \<open>Matching\<close>

definition peerKindMatches :: "string \<Rightarrow> string \<Rightarrow> bool" where
  "peerKindMatches bindingKind scopeKind \<longleftrightarrow>
     bindingKind = scopeKind \<or>
     bindingKind = ''group'' \<and> scopeKind = ''channel'' \<or> bindingKind = ''channel'' \<and> scopeKind = ''group''"

definition scopeIdMatches :: "string option \<Rightarrow> string \<Rightarrow> string \<Rightarrow> bool" where
  "scopeIdMatches constr exact groupSpace \<longleftrightarrow>
     js_nullish constr [] = [] \<or> constr = Some exact \<or> constr = Some groupSpace"

definition hasAnyRouteBindingRole :: "string list \<Rightarrow> string list option \<Rightarrow> bool" where
  "hasAnyRouteBindingRole roles memberRoleIds =
     (case memberRoleIds of None \<Rightarrow> False | Some ids \<Rightarrow> list_ex (\<lambda>role. List.member ids role) roles)"

record route_scope =
  scopeGuildId :: route_id
  scopeTeamId :: route_id
  scopeGroupSpace :: route_id
  scopeMemberRoleIds :: "string list option"

definition routeBindingScopeMatches ::
  "string option \<Rightarrow> string option \<Rightarrow> string list option \<Rightarrow> route_scope \<Rightarrow> bool" where
  "routeBindingScopeMatches guild team roles sc =
     (let guildId = normalizeRouteBindingId (scopeGuildId sc);
          teamId = normalizeRouteBindingId (scopeTeamId sc);
          groupSpace = normalizeRouteBindingId (scopeGroupSpace sc)
      in if \<not> scopeIdMatches guild guildId groupSpace then False
         else if \<not> scopeIdMatches team teamId groupSpace then False
         else (case normalizeRouteBindingRoles roles of
                 None \<Rightarrow> True
               | Some rs \<Rightarrow> hasAnyRouteBindingRole rs (scopeMemberRoleIds sc)))"

record binding_scope =
  bsPeer :: "route_peer option"
  bsGuildId :: string
  bsTeamId :: string
  bsMemberRoleIds :: "string list"

definition matchesBindingScope :: "norm_match \<Rightarrow> binding_scope \<Rightarrow> bool" where
  "matchesBindingScope nm sc =
     ((case peerConstraint nm of
         Peer_invalid \<Rightarrow> False
       | Peer_valid kind i \<Rightarrow>
           (case bsPeer sc of None \<Rightarrow> False | Some (k, j) \<Rightarrow> peerKindMatches kind k \<and> j = i)
       | Peer_wildcard kind \<Rightarrow>
           (case bsPeer sc of None \<Rightarrow> False | Some (k, j) \<Rightarrow> peerKindMatches kind k)
       | Peer_none \<Rightarrow> True) \<and>
      routeBindingScopeMatches (nmGuildId nm) (nmTeamId nm) (nmRoles nm)
        \<lparr>scopeGuildId = IdText (bsGuildId sc), scopeTeamId = IdText (bsTeamId sc),
         scopeGroupSpace = IdOther, scopeMemberRoleIds = Some (bsMemberRoleIds sc)\<rparr>)"

section \<open>Caches\<close>

record lookup_cache =
  lcAgentsRef :: nat
  lcByNormalizedId :: "(string, string) jmap"
  lcFallback :: string

record evaluated_cache =
  ecBindingsRef :: nat
  ecByChannel :: "(string, channel_bindings) jmap"
  ecByChannelAccount :: "(string, evaluated_binding list) jmap"
  ecByChannelAccountIndex :: "(string, bindings_index) jmap"

datatype matched_by =
    By_peer | By_peer_parent | By_peer_wildcard | By_guild_roles | By_guild | By_team | By_account
  | By_channel | By_default

datatype last_route_policy = LastRoute_main | LastRoute_session

record agent_route =
  routeAgentId :: string
  routeChannel :: string
  routeAccountId :: string
  routeSessionKey :: string
  routeMainSessionKey :: string
  routeLastPolicy :: last_route_policy
  routeMatchedBy :: matched_by

record route_cache =
  rcBindingsRef :: nat
  rcAgentsRef :: nat
  rcSessionRef :: nat
  rcByKey :: "(string, agent_route) jmap"

record routing_caches =
  agentLookupCacheByCfg :: "(nat, lookup_cache) jmap"
  evaluatedBindingsCacheByCfg :: "(nat, evaluated_cache) jmap"
  resolvedRouteCacheByCfg :: "(nat, route_cache) jmap"

definition no_routing_caches :: routing_caches where
  "no_routing_caches = \<lparr>agentLookupCacheByCfg = [], evaluatedBindingsCacheByCfg = [], resolvedRouteCacheByCfg = []\<rparr>"

definition MAX_EVALUATED_BINDINGS_CACHE_KEYS :: nat where "MAX_EVALUATED_BINDINGS_CACHE_KEYS = 2000"
definition MAX_RESOLVED_ROUTE_CACHE_KEYS :: nat where "MAX_RESOLVED_ROUTE_CACHE_KEYS = 4000"

definition agents_by_id :: "agent_entry list \<Rightarrow> (string, string) jmap" where
  "agents_by_id agents =
     fold (\<lambda>a m. let rawId = js_trim (js_nullish (agentEntryId a) [])
                 in if rawId = [] then m
                    else jm_set (normalizeAgentId (Some rawId)) (sanitizeAgentId (Some rawId)) m) agents []"

definition resolveAgentLookupCache :: "route_config \<Rightarrow> routing_caches \<Rightarrow> lookup_cache \<times> routing_caches" where
  "resolveAgentLookupCache cfg cs =
     (let fresh = \<lparr>lcAgentsRef = refId (cfgAgents cfg), lcByNormalizedId = agents_by_id (listAgentEntries cfg),
                   lcFallback = sanitizeAgentId (Some (resolveDefaultAgentId cfg))\<rparr>;
          miss = (fresh, cs\<lparr>agentLookupCacheByCfg := jm_set (cfgId cfg) fresh (agentLookupCacheByCfg cs)\<rparr>)
      in case jm_get (agentLookupCacheByCfg cs) (cfgId cfg) of
           Some existing \<Rightarrow> if lcAgentsRef existing = refId (cfgAgents cfg) then (existing, cs) else miss
         | None \<Rightarrow> miss)"

definition pickFirstExistingAgentId :: "route_config \<Rightarrow> string \<Rightarrow> routing_caches \<Rightarrow> string \<times> routing_caches" where
  "pickFirstExistingAgentId cfg agentId cs =
     (case resolveAgentLookupCache cfg cs of
        (lookup, cs') \<Rightarrow>
          (let trimmed = js_trim agentId
           in if trimmed = [] then (lcFallback lookup, cs')
              else if lcByNormalizedId lookup = [] then (sanitizeAgentId (Some trimmed), cs')
              else (case jm_get (lcByNormalizedId lookup) (normalizeAgentId (Some trimmed)) of
                      Some resolved \<Rightarrow> (if resolved \<noteq> [] then resolved else lcFallback lookup, cs')
                    | None \<Rightarrow> (lcFallback lookup, cs'))))"

definition account_cache_key :: "string \<Rightarrow> string \<Rightarrow> string" where
  "account_cache_key channel accountId = channel @ CHR 0x09 # accountId"

definition evaluated_cache_for :: "route_config \<Rightarrow> routing_caches \<Rightarrow> evaluated_cache" where
  "evaluated_cache_for cfg cs =
     (let fresh = \<lparr>ecBindingsRef = refId (cfgBindings cfg), ecByChannel = buildEvaluatedBindingsByChannel cfg,
                   ecByChannelAccount = [], ecByChannelAccountIndex = []\<rparr>
      in case jm_get (evaluatedBindingsCacheByCfg cs) (cfgId cfg) of
           Some existing \<Rightarrow> if ecBindingsRef existing = refId (cfgBindings cfg) then existing else fresh
         | None \<Rightarrow> fresh)"

definition set_evaluated_cache :: "route_config \<Rightarrow> evaluated_cache \<Rightarrow> routing_caches \<Rightarrow> routing_caches" where
  "set_evaluated_cache cfg ec cs =
     cs\<lparr>evaluatedBindingsCacheByCfg := jm_set (cfgId cfg) ec (evaluatedBindingsCacheByCfg cs)\<rparr>"

definition getEvaluatedBindingsForChannelAccount ::
  "route_config \<Rightarrow> string \<Rightarrow> string \<Rightarrow> routing_caches \<Rightarrow> evaluated_binding list \<times> routing_caches" where
  "getEvaluatedBindingsForChannelAccount cfg channel accountId cs =
     (let ec = evaluated_cache_for cfg cs; cacheKey = account_cache_key channel accountId
      in case jm_get (ecByChannelAccount ec) cacheKey of
           Some hit \<Rightarrow> (hit, set_evaluated_cache cfg ec cs)
         | None \<Rightarrow>
             (let bucket = js_nullish (jm_get (ecByChannel ec) channel) \<lparr>byAccountKey = [], byAnyAccount = []\<rparr>;
                  accountScoped = js_nullish (jm_get (byAccountKey bucket) accountId) [];
                  evaluated = mergeEvaluatedBindingsInSourceOrder accountScoped (byAnyAccount bucket);
                  byAccount = jm_set cacheKey evaluated (ecByChannelAccount ec);
                  byIndex = jm_set cacheKey (buildEvaluatedBindingsIndex evaluated) (ecByChannelAccountIndex ec);
                  full = MAX_EVALUATED_BINDINGS_CACHE_KEYS < length byAccount;
                  ec' = ec\<lparr>ecByChannelAccount := (if full then [(cacheKey, evaluated)] else byAccount),
                           ecByChannelAccountIndex :=
                             (if full then [(cacheKey, buildEvaluatedBindingsIndex evaluated)] else byIndex)\<rparr>
              in (evaluated, set_evaluated_cache cfg ec' cs)))"

definition getEvaluatedBindingIndexForChannelAccount ::
  "route_config \<Rightarrow> string \<Rightarrow> string \<Rightarrow> routing_caches \<Rightarrow> bindings_index \<times> routing_caches" where
  "getEvaluatedBindingIndexForChannelAccount cfg channel accountId cs =
     (case getEvaluatedBindingsForChannelAccount cfg channel accountId cs of
        (bindings, cs') \<Rightarrow>
          (let cacheKey = account_cache_key channel accountId
           in case jm_get (evaluatedBindingsCacheByCfg cs') (cfgId cfg) of
                None \<Rightarrow> (buildEvaluatedBindingsIndex bindings, cs')
              | Some existing \<Rightarrow>
                  (case jm_get (ecByChannelAccountIndex existing) cacheKey of
                     Some indexed \<Rightarrow> (indexed, cs')
                   | None \<Rightarrow>
                       (let built = buildEvaluatedBindingsIndex bindings
                        in (built, set_evaluated_cache cfg
                              (existing\<lparr>ecByChannelAccountIndex :=
                                 jm_set cacheKey built (ecByChannelAccountIndex existing)\<rparr>) cs')))))"

definition resolveRouteCacheForConfig :: "route_config \<Rightarrow> routing_caches \<Rightarrow> route_cache \<times> routing_caches" where
  "resolveRouteCacheForConfig cfg cs =
     (let fresh = \<lparr>rcBindingsRef = refId (cfgBindings cfg), rcAgentsRef = refId (cfgAgents cfg),
                   rcSessionRef = refId (cfgSession cfg), rcByKey = []\<rparr>;
          miss = (fresh, cs\<lparr>resolvedRouteCacheByCfg := jm_set (cfgId cfg) fresh (resolvedRouteCacheByCfg cs)\<rparr>)
      in case jm_get (resolvedRouteCacheByCfg cs) (cfgId cfg) of
           Some existing \<Rightarrow>
             if rcBindingsRef existing = refId (cfgBindings cfg) \<and> rcAgentsRef existing = refId (cfgAgents cfg) \<and>
                rcSessionRef existing = refId (cfgSession cfg) then (existing, cs) else miss
         | None \<Rightarrow> miss)"

section \<open>Cache keys\<close>

definition formatRouteCachePeer :: "route_peer option \<Rightarrow> string" where
  "formatRouteCachePeer peer =
     (case peer of None \<Rightarrow> ''-'' | Some (kind, i) \<Rightarrow> if i = [] then ''-'' else kind @ '':'' @ i)"

text \<open>The order of strings: by code units, a proper prefix first.\<close>

fun js_str_le :: "string \<Rightarrow> string \<Rightarrow> bool" where
  "js_str_le [] t = True"
| "js_str_le (a # s) [] = False"
| "js_str_le (a # s) (b # t) =
     ((of_char a :: nat) < of_char b \<or> a = b \<and> js_str_le s t)"

definition formatRoleIdsCacheKey :: "string list \<Rightarrow> string" where
  "formatRoleIdsCacheKey roleIds =
     (case roleIds of
        [] \<Rightarrow> ''-''
      | [a] \<Rightarrow> a
      | [a, b] \<Rightarrow> if js_str_le a b then a @ '','' @ b else b @ '','' @ a
      | _ \<Rightarrow> js_join '','' (js_sort js_str_le roleIds))"

definition dm_scope_name :: "dm_scope \<Rightarrow> string" where
  "dm_scope_name s =
     (case s of Dm_main \<Rightarrow> ''main'' | Dm_per_peer \<Rightarrow> ''per-peer'' | Dm_per_channel_peer \<Rightarrow> ''per-channel-peer''
      | Dm_per_account_channel_peer \<Rightarrow> ''per-account-channel-peer'')"

record route_request =
  rqChannel :: string
  rqAccountId :: string
  rqPeer :: "route_peer option"
  rqParentPeer :: "route_peer option"
  rqGuildId :: string
  rqTeamId :: string
  rqMemberRoleIds :: "string list"

definition buildResolvedRouteCacheKey :: "route_request \<Rightarrow> dm_scope \<Rightarrow> string" where
  "buildResolvedRouteCacheKey r dmScope =
     js_join [CHR 0x09]
       [rqChannel r, rqAccountId r, formatRouteCachePeer (rqPeer r), formatRouteCachePeer (rqParentPeer r),
        js_or_str (rqGuildId r) ''-'', js_or_str (rqTeamId r) ''-'', formatRoleIdsCacheKey (rqMemberRoleIds r),
        dm_scope_name dmScope]"

section \<open>Resolution\<close>

definition buildAgentSessionKey ::
  "string \<Rightarrow> string \<Rightarrow> string option \<Rightarrow> route_peer option \<Rightarrow> dm_scope option \<Rightarrow> identity_links option \<Rightarrow> string" where
  "buildAgentSessionKey agentId channel accountId peer dmScope identityLinks =
     buildAgentPeerSessionKey
       \<lparr>pkAgentId = agentId, pkMainKey = Some DEFAULT_MAIN_KEY, pkChannel = key_channel channel,
        pkAccountId = accountId, pkPeerKind = Some (case peer of None \<Rightarrow> ''direct'' | Some (kind, i) \<Rightarrow> kind),
        pkPeerId = (case peer of None \<Rightarrow> None
                    | Some (kind, i) \<Rightarrow> Some (js_or_str (normalizeRouteBindingId (IdText i)) ''unknown'')),
        pkIdentityLinks = identityLinks, pkDmScope = dmScope\<rparr>"

definition deriveLastRoutePolicy :: "string \<Rightarrow> string \<Rightarrow> last_route_policy" where
  "deriveLastRoutePolicy sessionKey mainSessionKey =
     (if sessionKey = mainSessionKey then LastRoute_main else LastRoute_session)"

definition resolveInboundLastRouteSessionKey :: "last_route_policy \<Rightarrow> string \<Rightarrow> string \<Rightarrow> string" where
  "resolveInboundLastRouteSessionKey policy mainSessionKey sessionKey =
     (if policy = LastRoute_main then mainSessionKey else sessionKey)"

text \<open>The result of \<open>choose\<close>, once the agent is known.\<close>

definition route_for :: "route_config \<Rightarrow> route_request \<Rightarrow> string \<Rightarrow> matched_by \<Rightarrow> dm_scope option \<Rightarrow> agent_route" where
  "route_for cfg r agent by override =
     (let session = refVal (cfgSession cfg);
          dmScope = js_nullish (Option.bind session cfgDmScope) Dm_main;
          sessionKey = buildAgentSessionKey agent (rqChannel r) (Some (rqAccountId r)) (rqPeer r)
            (Some (js_nullish override dmScope)) (Option.bind session cfgIdentityLinks);
          mainSessionKey = normalizeLowercaseStringOrEmpty (buildAgentMainSessionKey agent (Some DEFAULT_MAIN_KEY))
      in \<lparr>routeAgentId = agent, routeChannel = rqChannel r, routeAccountId = rqAccountId r,
          routeSessionKey = sessionKey, routeMainSessionKey = mainSessionKey,
          routeLastPolicy = deriveLastRoutePolicy sessionKey mainSessionKey, routeMatchedBy = by\<rparr>)"

record route_tier =
  tierMatchedBy :: matched_by
  tierEnabled :: bool
  tierPeer :: "route_peer option"
  tierCandidates :: "evaluated_binding list"
  tierPredicate :: "evaluated_binding \<Rightarrow> bool"

definition is_valid_peer :: "evaluated_binding \<Rightarrow> bool" where
  "is_valid_peer b = (case peerConstraint (ebMatch b) of Peer_valid _ _ \<Rightarrow> True | _ \<Rightarrow> False)"

definition is_wildcard_peer :: "evaluated_binding \<Rightarrow> bool" where
  "is_wildcard_peer b = (case peerConstraint (ebMatch b) of Peer_wildcard _ \<Rightarrow> True | _ \<Rightarrow> False)"

definition route_tiers :: "route_request \<Rightarrow> bindings_index \<Rightarrow> route_tier list" where
  "route_tiers r ix =
     (let peer = rqPeer r;
          parentPeer = (case rqParentPeer r of Some (k, i) \<Rightarrow> if i \<noteq> [] then Some (k, i) else None | None \<Rightarrow> None);
          guildId = rqGuildId r; teamId = rqTeamId r
      in [\<lparr>tierMatchedBy = By_peer, tierEnabled = peer \<noteq> None, tierPeer = peer,
           tierCandidates = collectPeerIndexedBindings ix peer, tierPredicate = is_valid_peer\<rparr>,
          \<lparr>tierMatchedBy = By_peer_parent, tierEnabled = parentPeer \<noteq> None, tierPeer = parentPeer,
           tierCandidates = collectPeerIndexedBindings ix (rqParentPeer r), tierPredicate = is_valid_peer\<rparr>,
          \<lparr>tierMatchedBy = By_peer_wildcard, tierEnabled = peer \<noteq> None, tierPeer = peer,
           tierCandidates = ixByPeerWildcard ix, tierPredicate = is_wildcard_peer\<rparr>,
          \<lparr>tierMatchedBy = By_guild_roles, tierEnabled = guildId \<noteq> [] \<and> rqMemberRoleIds r \<noteq> [], tierPeer = peer,
           tierCandidates = (if guildId \<noteq> [] then js_nullish (jm_get (ixByGuildWithRoles ix) guildId) [] else []),
           tierPredicate = (\<lambda>b. nmGuildId (ebMatch b) \<noteq> None \<and> nmRoles (ebMatch b) \<noteq> None)\<rparr>,
          \<lparr>tierMatchedBy = By_guild, tierEnabled = guildId \<noteq> [], tierPeer = peer,
           tierCandidates = (if guildId \<noteq> [] then js_nullish (jm_get (ixByGuild ix) guildId) [] else []),
           tierPredicate = (\<lambda>b. nmGuildId (ebMatch b) \<noteq> None \<and> nmRoles (ebMatch b) = None)\<rparr>,
          \<lparr>tierMatchedBy = By_team, tierEnabled = teamId \<noteq> [], tierPeer = peer,
           tierCandidates = (if teamId \<noteq> [] then js_nullish (jm_get (ixByTeam ix) teamId) [] else []),
           tierPredicate = (\<lambda>b. nmTeamId (ebMatch b) \<noteq> None)\<rparr>,
          \<lparr>tierMatchedBy = By_account, tierEnabled = True, tierPeer = peer,
           tierCandidates = ixByAccount ix, tierPredicate = (\<lambda>b. accountPattern (ebMatch b) \<noteq> ''*'')\<rparr>,
          \<lparr>tierMatchedBy = By_channel, tierEnabled = True, tierPeer = peer,
           tierCandidates = ixByChannel ix, tierPredicate = (\<lambda>b. accountPattern (ebMatch b) = ''*'')\<rparr>])"

fun first_tier :: "route_request \<Rightarrow> route_tier list \<Rightarrow> (evaluated_binding \<times> matched_by) option" where
  "first_tier r [] = None"
| "first_tier r (t # ts) =
     (if \<not> tierEnabled t then first_tier r ts
      else (case find (\<lambda>b. tierPredicate t b \<and>
                matchesBindingScope (ebMatch b)
                  \<lparr>bsPeer = tierPeer t, bsGuildId = rqGuildId r, bsTeamId = rqTeamId r,
                   bsMemberRoleIds = rqMemberRoleIds r\<rparr>) (tierCandidates t) of
              Some b \<Rightarrow> Some (b, tierMatchedBy t)
            | None \<Rightarrow> first_tier r ts))"

record route_input =
  inCfg :: route_config
  inChannel :: "string option"
  inAccountId :: "string option"
  inPeer :: "(string \<times> route_id) option"
  inParentPeer :: "(string \<times> route_id) option"
  inGuildId :: route_id
  inTeamId :: route_id
  inMemberRoleIds :: "string list option"

definition normalize_peer :: "(string \<times> route_id) option \<Rightarrow> route_peer option" where
  "normalize_peer peer =
     map_option (\<lambda>(kind, i). (js_nullish (normalizeChatType (Some kind)) kind, normalizeRouteBindingId i)) peer"

definition route_request_of :: "route_input \<Rightarrow> route_request" where
  "route_request_of input =
     \<lparr>rqChannel = normalizeLowercaseStringOrEmpty (js_nullish (inChannel input) []),
      rqAccountId = accountIdOf (inAccountId input),
      rqPeer = normalize_peer (inPeer input), rqParentPeer = normalize_peer (inParentPeer input),
      rqGuildId = normalizeRouteBindingId (inGuildId input), rqTeamId = normalizeRouteBindingId (inTeamId input),
      rqMemberRoleIds = js_nullish (inMemberRoleIds input) []\<rparr>"

definition remember_route :: "route_config \<Rightarrow> string \<Rightarrow> agent_route \<Rightarrow> routing_caches \<Rightarrow> routing_caches" where
  "remember_route cfg key route cs =
     (case jm_get (resolvedRouteCacheByCfg cs) (cfgId cfg) of
        None \<Rightarrow> cs
      | Some rc \<Rightarrow>
          (let byKey = jm_set key route (rcByKey rc);
               byKey' = (if MAX_RESOLVED_ROUTE_CACHE_KEYS < length byKey then [(key, route)] else byKey)
           in cs\<lparr>resolvedRouteCacheByCfg :=
                jm_set (cfgId cfg) (rc\<lparr>rcByKey := byKey'\<rparr>) (resolvedRouteCacheByCfg cs)\<rparr>))"

text \<open>What is done when the route is not in the cache; \<open>verbose\<close> is \<open>shouldLogVerbose()\<close>.\<close>

definition compute_route :: "route_config \<Rightarrow> route_request \<Rightarrow> routing_caches \<Rightarrow> agent_route \<times> routing_caches" where
  "compute_route cfg r cs =
     (let (bindings, cs1) = getEvaluatedBindingsForChannelAccount cfg (rqChannel r) (rqAccountId r) cs;
          (ix, cs2) = getEvaluatedBindingIndexForChannelAccount cfg (rqChannel r) (rqAccountId r) cs1
      in case first_tier r (route_tiers r ix) of
           Some (b, by) \<Rightarrow>
             (let (agent, cs3) = pickFirstExistingAgentId cfg (bindingAgentId (ebBinding b)) cs2
              in (route_for cfg r agent by (bindingDmScope (ebBinding b)), cs3))
         | None \<Rightarrow>
             (let (agent, cs3) = pickFirstExistingAgentId cfg (resolveDefaultAgentId cfg) cs2
              in (route_for cfg r agent By_default None, cs3)))"

definition route_dm_scope :: "route_config \<Rightarrow> dm_scope" where
  "route_dm_scope cfg = js_nullish (Option.bind (refVal (cfgSession cfg)) cfgDmScope) Dm_main"

definition resolveAgentRoute :: "bool \<Rightarrow> route_input \<Rightarrow> routing_caches \<Rightarrow> agent_route \<times> routing_caches" where
  "resolveAgentRoute verbose input cs =
     (let cfg = inCfg input; r = route_request_of input
      in if verbose \<or> Option.bind (refVal (cfgSession cfg)) cfgIdentityLinks \<noteq> None then compute_route cfg r cs
         else (let (rc, cs1) = resolveRouteCacheForConfig cfg cs;
                   key = buildResolvedRouteCacheKey r (route_dm_scope cfg)
               in case jm_get (rcByKey rc) key of
                    Some cached \<Rightarrow> (cached, cs1)
                  | None \<Rightarrow>
                      (let (route, cs2) = compute_route cfg r cs1
                       in (route, remember_route cfg key route cs2))))"

end
