(* ===== verification/Routing_Index.thy ===== *)
theory Routing_Index
  imports Routing
begin

text \<open>
  The index of the bindings computes what a search over the configured bindings would: the
  bindings of a channel and account in source order, and in each tier the first one that
  matches.
\<close>

section \<open>The reference\<close>

text \<open>The bindings in source order, each with its channel; a binding without a channel is skipped.\<close>

fun evaluated_list :: "nat \<Rightarrow> route_binding list \<Rightarrow> (string \<times> evaluated_binding) list" where
  "evaluated_list n [] = []"
| "evaluated_list n (b # bs) =
     (let channel = normalizeLowercaseStringOrEmpty (js_nullish (bmChannel (bindingMatch b)) [])
      in if channel = [] then evaluated_list n bs
         else (channel, \<lparr>ebBinding = b, ebMatch = normalizeBindingMatch (bindingMatch b), ebOrder = n\<rparr>)
              # evaluated_list (n + 1) bs)"

definition account_applies :: "string \<Rightarrow> evaluated_binding \<Rightarrow> bool" where
  "account_applies accountId e \<longleftrightarrow>
     accountPattern (ebMatch e) = ''*'' \<or> resolveAccountPatternKey (accountPattern (ebMatch e)) = accountId"

definition applicable_bindings :: "route_config \<Rightarrow> string \<Rightarrow> string \<Rightarrow> evaluated_binding list" where
  "applicable_bindings cfg channel accountId =
     filter (account_applies accountId)
       (map snd (filter (\<lambda>p. fst p = channel) (evaluated_list 0 (listBindings cfg))))"

definition binding_class :: "evaluated_binding \<Rightarrow> matched_by" where
  "binding_class b =
     (let nm = ebMatch b
      in case peerConstraint nm of
           Peer_valid _ _ \<Rightarrow> By_peer
         | Peer_wildcard _ \<Rightarrow> By_peer_wildcard
         | _ \<Rightarrow>
             if nmGuildId nm \<noteq> None then (if nmRoles nm \<noteq> None then By_guild_roles else By_guild)
             else if nmTeamId nm \<noteq> None then By_team
             else if accountPattern nm \<noteq> ''*'' then By_account else By_channel)"

text \<open>The tiers from the most to the least specific: the label, the class and the peer that must match.\<close>

definition tier_order :: "route_request \<Rightarrow> (matched_by \<times> matched_by \<times> route_peer option) list" where
  "tier_order r =
     (let parentPeer = (case rqParentPeer r of Some (k, i) \<Rightarrow> if i \<noteq> [] then Some (k, i) else None | None \<Rightarrow> None)
      in [(By_peer, By_peer, rqPeer r), (By_peer_parent, By_peer, parentPeer),
          (By_peer_wildcard, By_peer_wildcard, rqPeer r), (By_guild_roles, By_guild_roles, rqPeer r),
          (By_guild, By_guild, rqPeer r), (By_team, By_team, rqPeer r), (By_account, By_account, rqPeer r),
          (By_channel, By_channel, rqPeer r)])"

definition in_scope :: "route_request \<Rightarrow> route_peer option \<Rightarrow> evaluated_binding \<Rightarrow> bool" where
  "in_scope r peer b =
     matchesBindingScope (ebMatch b)
       \<lparr>bsPeer = peer, bsGuildId = rqGuildId r, bsTeamId = rqTeamId r, bsMemberRoleIds = rqMemberRoleIds r\<rparr>"

fun pick_best ::
  "route_request \<Rightarrow> evaluated_binding list \<Rightarrow> (matched_by \<times> matched_by \<times> route_peer option) list
   \<Rightarrow> (evaluated_binding \<times> matched_by) option" where
  "pick_best r bs [] = None"
| "pick_best r bs ((label, cls, peer) # ts) =
     (case find (\<lambda>b. binding_class b = cls \<and> in_scope r peer b) bs of
        Some b \<Rightarrow> Some (b, label)
      | None \<Rightarrow> pick_best r bs ts)"

section \<open>Bindings in source order\<close>

definition bucket_of :: "(string, channel_bindings) jmap \<Rightarrow> string \<Rightarrow> channel_bindings" where
  "bucket_of m ch = js_nullish (jm_get m ch) \<lparr>byAccountKey = [], byAnyAccount = []\<rparr>"

definition scoped_of :: "(string, channel_bindings) jmap \<Rightarrow> string \<Rightarrow> string \<Rightarrow> evaluated_binding list" where
  "scoped_of m ch a = js_nullish (jm_get (byAccountKey (bucket_of m ch)) a) []"

lemma push_to_get: "js_nullish (jm_get (push_to key b m) k) [] = js_nullish (jm_get m k) [] @ (if k = key then [b] else [])"
  by (auto simp: push_to_def update_conv' split: option.splits)

definition channel_part :: "string \<Rightarrow> (evaluated_binding \<Rightarrow> bool) \<Rightarrow> (string \<times> evaluated_binding) list \<Rightarrow> evaluated_binding list" where
  "channel_part ch P es = map snd (filter (\<lambda>p. fst p = ch \<and> P (snd p)) es)"

lemma channel_part_simps [simp]:
  "channel_part ch P [] = []"
  "channel_part ch P ((c, e) # es) = (if c = ch \<and> P e then [e] else []) @ channel_part ch P es"
  by (simp_all add: channel_part_def)

definition any_account :: "evaluated_binding \<Rightarrow> bool" where
  "any_account e \<longleftrightarrow> accountPattern (ebMatch e) = ''*''"

definition own_account :: "string \<Rightarrow> evaluated_binding \<Rightarrow> bool" where
  "own_account a e \<longleftrightarrow> accountPattern (ebMatch e) \<noteq> ''*'' \<and> resolveAccountPatternKey (accountPattern (ebMatch e)) = a"

definition channel_of :: "route_binding \<Rightarrow> string" where
  "channel_of b = normalizeLowercaseStringOrEmpty (js_nullish (bmChannel (bindingMatch b)) [])"

definition evaluated :: "nat \<Rightarrow> route_binding \<Rightarrow> evaluated_binding" where
  "evaluated n b = \<lparr>ebBinding = b, ebMatch = normalizeBindingMatch (bindingMatch b), ebOrder = n\<rparr>"

lemma evaluated_list_Cons:
  "evaluated_list n (b # bs) =
     (if channel_of b = [] then evaluated_list n bs else (channel_of b, evaluated n b) # evaluated_list (Suc n) bs)"
  by (simp add: channel_of_def evaluated_def Let_def)

lemma evaluate_step:
  assumes "channel_of b \<noteq> []"
  obtains m' where "evaluate_binding b (m, n) = (m', Suc n)"
    and "\<And>ch. byAnyAccount (bucket_of m' ch) =
           byAnyAccount (bucket_of m ch) @ (if channel_of b = ch \<and> any_account (evaluated n b) then [evaluated n b] else [])"
    and "\<And>ch a. scoped_of m' ch a =
           scoped_of m ch a @ (if channel_of b = ch \<and> own_account a (evaluated n b) then [evaluated n b] else [])"
proof
  show "evaluate_binding b (m, n) = (fst (evaluate_binding b (m, n)), Suc n)"
    using assms by (simp add: evaluate_binding_def Let_def channel_of_def)
  show "byAnyAccount (bucket_of (fst (evaluate_binding b (m, n))) ch) =
           byAnyAccount (bucket_of m ch) @ (if channel_of b = ch \<and> any_account (evaluated n b) then [evaluated n b] else [])" for ch
    using assms
    by (simp add: evaluate_binding_def Let_def channel_of_def bucket_of_def update_conv' any_account_def evaluated_def)
  show "scoped_of (fst (evaluate_binding b (m, n))) ch a =
           scoped_of m ch a @ (if channel_of b = ch \<and> own_account a (evaluated n b) then [evaluated n b] else [])" for ch a
    using assms
    by (simp add: evaluate_binding_def Let_def channel_of_def scoped_of_def bucket_of_def update_conv' own_account_def
        evaluated_def push_to_get)
qed

lemma build_parts:
  "byAnyAccount (bucket_of (fst (fold evaluate_binding bs (m, n))) ch) =
     byAnyAccount (bucket_of m ch) @ channel_part ch any_account (evaluated_list n bs) \<and>
   scoped_of (fst (fold evaluate_binding bs (m, n))) ch a =
     scoped_of m ch a @ channel_part ch (own_account a) (evaluated_list n bs)"
proof (induction bs arbitrary: m n)
  case (Cons b bs)
  show ?case
  proof (cases "channel_of b = []")
    case True
    then have "evaluate_binding b (m, n) = (m, n)" by (simp add: evaluate_binding_def Let_def channel_of_def)
    then show ?thesis using Cons.IH[of m n] True by (simp add: evaluated_list_Cons del: evaluated_list.simps)
  next
    case False
    then obtain m' where st: "evaluate_binding b (m, n) = (m', Suc n)"
      and any: "\<And>ch. byAnyAccount (bucket_of m' ch) =
           byAnyAccount (bucket_of m ch) @ (if channel_of b = ch \<and> any_account (evaluated n b) then [evaluated n b] else [])"
      and own: "\<And>ch a. scoped_of m' ch a =
           scoped_of m ch a @ (if channel_of b = ch \<and> own_account a (evaluated n b) then [evaluated n b] else [])"
      using evaluate_step[OF False, of m n] by blast
    show ?thesis using Cons.IH[of m' "Suc n"] False
      by (simp add: st any own evaluated_list_Cons del: evaluated_list.simps)
  qed
qed simp

lemma evaluated_list_order:
  "sorted_wrt (\<lambda>p q. ebOrder (snd p) < ebOrder (snd q)) (evaluated_list n bs) \<and>
   (\<forall>p \<in> set (evaluated_list n bs). n \<le> ebOrder (snd p))"
proof (induction bs arbitrary: n)
  case (Cons b bs)
  then show ?case using Cons[of n] Cons[of "Suc n"]
    by (auto simp: evaluated_list_Cons evaluated_def Suc_le_eq simp del: evaluated_list.simps)
qed simp

lemma merge_loop_Nil [simp]: "merge_loop as [] = as"
  by (cases as) simp_all

lemma merge_filter:
  assumes "sorted_wrt (\<lambda>a b. ebOrder a < ebOrder b) es" and "\<And>e. \<not> (P e \<and> Q e)"
  shows "merge_loop (filter P es) (filter Q es) = filter (\<lambda>e. P e \<or> Q e) es"
  using assms(1)
proof (induction es)
  case (Cons e es)
  have less: "ebOrder e < ebOrder x" if "x \<in> set es" for x using Cons.prems that by simp
  have IH: "merge_loop (filter P es) (filter Q es) = filter (\<lambda>e. P e \<or> Q e) es" using Cons by simp
  show ?case
  proof (cases "P e")
    case True
    then have "\<not> Q e" using assms(2) by blast
    show ?thesis
    proof (cases "filter Q es")
      case Nil
      then show ?thesis using True \<open>\<not> Q e\<close> IH by simp
    next
      case (Cons b bs)
      then have "b \<in> set es" using filter_is_subset[of Q es] by auto
      then show ?thesis using True \<open>\<not> Q e\<close> IH Cons less[of b] by simp
    qed
  next
    case False
    show ?thesis
    proof (cases "Q e")
      case True
      show ?thesis
      proof (cases "filter P es")
        case Nil
        then show ?thesis using True False IH by simp
      next
        case (Cons a as)
        then have "a \<in> set es" using filter_is_subset[of P es] by auto
        then show ?thesis using True False IH Cons less[of a] by simp
      qed
    qed (use False IH in simp)
  qed
qed simp

lemma merge_is_loop: "mergeEvaluatedBindingsInSourceOrder as bs = merge_loop as bs"
  by (simp add: mergeEvaluatedBindingsInSourceOrder_def)

lemma sorted_wrt_filter: "sorted_wrt R xs \<Longrightarrow> sorted_wrt R (filter P xs)"
  by (induction xs) auto

text \<open>The two lists of a bucket, merged, are the applicable bindings in source order.\<close>

lemma merged_bindings:
  "mergeEvaluatedBindingsInSourceOrder
     (js_nullish (jm_get (byAccountKey (bucket_of (buildEvaluatedBindingsByChannel cfg) channel)) accountId) [])
     (byAnyAccount (bucket_of (buildEvaluatedBindingsByChannel cfg) channel))
   = applicable_bindings cfg channel accountId"
proof -
  let ?es = "map snd (filter (\<lambda>p. fst p = channel) (evaluated_list 0 (listBindings cfg)))"
  have empty: "bucket_of [] channel = \<lparr>byAccountKey = [], byAnyAccount = []\<rparr>" "scoped_of [] channel accountId = []"
    by (simp_all add: bucket_of_def scoped_of_def)
  note parts = build_parts[of "listBindings cfg" "[]" 0 channel accountId, folded buildEvaluatedBindingsByChannel_def,
      unfolded empty scoped_of_def]
  have cp: "channel_part channel P (evaluated_list 0 (listBindings cfg)) = filter P ?es" for P
    by (simp add: channel_part_def filter_map comp_def)
  have "sorted_wrt (\<lambda>a b. ebOrder a < ebOrder b) ?es"
    using evaluated_list_order[of 0 "listBindings cfg"] by (simp add: sorted_wrt_map sorted_wrt_filter)
  then have "merge_loop (filter (own_account accountId) ?es) (filter any_account ?es) =
      filter (\<lambda>e. own_account accountId e \<or> any_account e) ?es"
    by (rule merge_filter) (auto simp: own_account_def any_account_def)
  moreover have "(\<lambda>e. own_account accountId e \<or> any_account e) = account_applies accountId"
    by (auto simp: own_account_def any_account_def account_applies_def)
  ultimately show ?thesis using parts by (simp add: merge_is_loop cp applicable_bindings_def)
qed

section \<open>The lists of the index\<close>

definition peer_keys_of :: "evaluated_binding \<Rightarrow> string list" where
  "peer_keys_of b = (case peerConstraint (ebMatch b) of Peer_valid kind i \<Rightarrow> peerLookupKeys kind i | _ \<Rightarrow> [])"

lemma peerLookupKeys_ok: "distinct (peerLookupKeys kind i)" "[] \<notin> set (peerLookupKeys kind i)"
  by (auto simp: peerLookupKeys_def)

lemma fold_push_get:
  "distinct keys \<Longrightarrow> [] \<notin> set keys \<Longrightarrow>
   js_nullish (jm_get (fold (\<lambda>key m. pushToIndexMap m (Some key) b) keys m) k) [] =
   js_nullish (jm_get m k) [] @ (if k \<in> set keys then [b] else [])"
  by (induction keys arbitrary: m) (auto simp: pushToIndexMap_def push_to_get)

definition of_guild :: "matched_by \<Rightarrow> string \<Rightarrow> evaluated_binding \<Rightarrow> bool" where
  "of_guild cls g b \<longleftrightarrow> binding_class b = cls \<and> nmGuildId (ebMatch b) = Some g"

definition of_team :: "string \<Rightarrow> evaluated_binding \<Rightarrow> bool" where
  "of_team t b \<longleftrightarrow> binding_class b = By_team \<and> nmTeamId (ebMatch b) = Some t"

lemma pushToIndexMap_get:
  "k \<noteq> [] \<Longrightarrow> js_nullish (jm_get (pushToIndexMap m key b) k) [] =
     js_nullish (jm_get m k) [] @ (if key = Some k then [b] else [])"
  by (cases key) (auto simp: pushToIndexMap_def push_to_get)

lemma index_step:
  shows "js_nullish (jm_get (ixByPeer (index_binding b ix)) k) [] =
           js_nullish (jm_get (ixByPeer ix) k) [] @ (if k \<in> set (peer_keys_of b) then [b] else [])"
    and "ixByPeerWildcard (index_binding b ix) =
           ixByPeerWildcard ix @ (if binding_class b = By_peer_wildcard then [b] else [])"
    and "k \<noteq> [] \<Longrightarrow> js_nullish (jm_get (ixByGuildWithRoles (index_binding b ix)) k) [] =
           js_nullish (jm_get (ixByGuildWithRoles ix) k) [] @ (if of_guild By_guild_roles k b then [b] else [])"
    and "k \<noteq> [] \<Longrightarrow> js_nullish (jm_get (ixByGuild (index_binding b ix)) k) [] =
           js_nullish (jm_get (ixByGuild ix) k) [] @ (if of_guild By_guild k b then [b] else [])"
    and "k \<noteq> [] \<Longrightarrow> js_nullish (jm_get (ixByTeam (index_binding b ix)) k) [] =
           js_nullish (jm_get (ixByTeam ix) k) [] @ (if of_team k b then [b] else [])"
    and "ixByAccount (index_binding b ix) = ixByAccount ix @ (if binding_class b = By_account then [b] else [])"
    and "ixByChannel (index_binding b ix) = ixByChannel ix @ (if binding_class b = By_channel then [b] else [])"
  by (auto simp: index_binding_def Let_def peer_keys_of_def fold_push_get peerLookupKeys_ok pushToIndexMap_get
      binding_class_def of_guild_def of_team_def split: peer_constraint.splits)

definition empty_index :: bindings_index where
  "empty_index = \<lparr>ixByPeer = [], ixByPeerWildcard = [], ixByGuildWithRoles = [], ixByGuild = [],
       ixByTeam = [], ixByAccount = [], ixByChannel = []\<rparr>"

lemma index_fold:
  shows "js_nullish (jm_get (ixByPeer (fold index_binding bs ix)) k) [] =
           js_nullish (jm_get (ixByPeer ix) k) [] @ filter (\<lambda>b. k \<in> set (peer_keys_of b)) bs"
    and "ixByPeerWildcard (fold index_binding bs ix) =
           ixByPeerWildcard ix @ filter (\<lambda>b. binding_class b = By_peer_wildcard) bs"
    and "k \<noteq> [] \<Longrightarrow> js_nullish (jm_get (ixByGuildWithRoles (fold index_binding bs ix)) k) [] =
           js_nullish (jm_get (ixByGuildWithRoles ix) k) [] @ filter (of_guild By_guild_roles k) bs"
    and "k \<noteq> [] \<Longrightarrow> js_nullish (jm_get (ixByGuild (fold index_binding bs ix)) k) [] =
           js_nullish (jm_get (ixByGuild ix) k) [] @ filter (of_guild By_guild k) bs"
    and "k \<noteq> [] \<Longrightarrow> js_nullish (jm_get (ixByTeam (fold index_binding bs ix)) k) [] =
           js_nullish (jm_get (ixByTeam ix) k) [] @ filter (of_team k) bs"
    and "ixByAccount (fold index_binding bs ix) = ixByAccount ix @ filter (\<lambda>b. binding_class b = By_account) bs"
    and "ixByChannel (fold index_binding bs ix) = ixByChannel ix @ filter (\<lambda>b. binding_class b = By_channel) bs"
  by (induction bs arbitrary: ix) (simp_all add: index_step)

lemma index_parts:
  shows "js_nullish (jm_get (ixByPeer (buildEvaluatedBindingsIndex bs)) k) [] = filter (\<lambda>b. k \<in> set (peer_keys_of b)) bs"
    and "ixByPeerWildcard (buildEvaluatedBindingsIndex bs) = filter (\<lambda>b. binding_class b = By_peer_wildcard) bs"
    and "k \<noteq> [] \<Longrightarrow> js_nullish (jm_get (ixByGuildWithRoles (buildEvaluatedBindingsIndex bs)) k) [] =
           filter (of_guild By_guild_roles k) bs"
    and "k \<noteq> [] \<Longrightarrow> js_nullish (jm_get (ixByGuild (buildEvaluatedBindingsIndex bs)) k) [] = filter (of_guild By_guild k) bs"
    and "k \<noteq> [] \<Longrightarrow> js_nullish (jm_get (ixByTeam (buildEvaluatedBindingsIndex bs)) k) [] = filter (of_team k) bs"
    and "ixByAccount (buildEvaluatedBindingsIndex bs) = filter (\<lambda>b. binding_class b = By_account) bs"
    and "ixByChannel (buildEvaluatedBindingsIndex bs) = filter (\<lambda>b. binding_class b = By_channel) bs"
  unfolding buildEvaluatedBindingsIndex_def empty_index_def[symmetric]
  by (simp_all add: index_fold empty_index_def)

section \<open>Searching the candidates\<close>

lemma find_filter_same: "(\<And>b. b \<in> set bs \<Longrightarrow> M b \<Longrightarrow> P b) \<Longrightarrow> find M (filter P bs) = find M bs"
  by (induction bs) auto

lemma find_append_covered:
  "(\<And>y. y \<in> set ys \<Longrightarrow> M y \<Longrightarrow> y \<in> set xs) \<Longrightarrow> find M (xs @ ys) = find M xs"
proof (cases "find M xs")
  case None
  moreover assume "\<And>y. y \<in> set ys \<Longrightarrow> M y \<Longrightarrow> y \<in> set xs"
  ultimately have "find M ys = None" by (fastforce simp: find_None_iff)
  then show ?thesis using None by (induction xs) (auto split: if_splits)
next
  case (Some x)
  then show ?thesis by (induction xs) (auto split: if_splits)
qed

lemma fold_js_add_append:
  "\<exists>zs. fold js_add ys xs = xs @ zs \<and> set zs \<subseteq> set ys"
proof (induction ys arbitrary: xs)
  case (Cons y ys)
  obtain zs where zs: "fold js_add ys (js_add y xs) = js_add y xs @ zs" "set zs \<subseteq> set ys" using Cons by blast
  show ?case
  proof (cases "y \<in> set xs")
    case True
    then show ?thesis using zs by (intro exI[of _ zs]) (auto simp: js_add_def[of y])
  next
    case False
    then show ?thesis using zs by (intro exI[of _ "y # zs"]) (auto simp: js_add_def[of y])
  qed
qed simp

lemma fold_js_add_fresh: "distinct (xs @ ys) \<Longrightarrow> fold js_add ys xs = xs @ ys"
  by (induction ys arbitrary: xs) (auto simp: js_add_def)

definition binding_ok :: "evaluated_binding \<Rightarrow> bool" where
  "binding_ok b \<longleftrightarrow> nmGuildId (ebMatch b) \<noteq> Some [] \<and> nmTeamId (ebMatch b) \<noteq> Some [] \<and> nmRoles (ebMatch b) \<noteq> Some []"

definition request_ok :: "route_request \<Rightarrow> bool" where
  "request_ok r \<longleftrightarrow> js_trim (rqGuildId r) = rqGuildId r \<and> js_trim (rqTeamId r) = rqTeamId r"

lemma is_valid_peer_class: "is_valid_peer b \<longleftrightarrow> binding_class b = By_peer"
  by (auto simp: is_valid_peer_def binding_class_def Let_def split: peer_constraint.splits)

lemma is_wildcard_peer_class: "is_wildcard_peer b \<longleftrightarrow> binding_class b = By_peer_wildcard"
  by (auto simp: is_wildcard_peer_def binding_class_def Let_def split: peer_constraint.splits)

lemma in_scope_peer:
  "binding_class b = By_peer \<Longrightarrow> in_scope r peer b \<Longrightarrow>
   \<exists>kind i kb. peer = Some (kind, i) \<and> peerConstraint (ebMatch b) = Peer_valid kb i \<and> peerKindMatches kb kind"
  by (auto simp: in_scope_def matchesBindingScope_def binding_class_def Let_def split: peer_constraint.splits option.splits if_splits)

lemma in_scope_wildcard: "binding_class b = By_peer_wildcard \<Longrightarrow> in_scope r peer b \<Longrightarrow> peer \<noteq> None"
  by (auto simp: in_scope_def matchesBindingScope_def binding_class_def Let_def split: peer_constraint.splits option.splits if_splits)

lemma in_scope_constraints:
  "in_scope r peer b \<Longrightarrow>
   routeBindingScopeMatches (nmGuildId (ebMatch b)) (nmTeamId (ebMatch b)) (nmRoles (ebMatch b))
     \<lparr>scopeGuildId = IdText (rqGuildId r), scopeTeamId = IdText (rqTeamId r),
      scopeGroupSpace = IdOther, scopeMemberRoleIds = Some (rqMemberRoleIds r)\<rparr>"
  by (simp add: in_scope_def matchesBindingScope_def)

lemma in_scope_guild:
  assumes "in_scope r peer b" "request_ok r" "binding_ok b"
  shows "nmGuildId (ebMatch b) = Some g \<Longrightarrow> g = rqGuildId r \<and> g \<noteq> []"
    and "nmTeamId (ebMatch b) = Some t \<Longrightarrow> t = rqTeamId r \<and> t \<noteq> []"
    and "nmRoles (ebMatch b) = Some rs \<Longrightarrow> rqMemberRoleIds r \<noteq> []"
  using in_scope_constraints[OF assms(1)] assms(2,3)
  by (auto simp: routeBindingScopeMatches_def Let_def scopeIdMatches_def
      normalizeRouteBindingId_def request_ok_def binding_ok_def normalizeRouteBindingRoles_def
      hasAnyRouteBindingRole_def list_ex_iff split: if_splits)

lemma class_constraints:
  "binding_class b = By_guild_roles \<Longrightarrow> nmGuildId (ebMatch b) \<noteq> None \<and> nmRoles (ebMatch b) \<noteq> None"
  "binding_class b = By_guild \<Longrightarrow> nmGuildId (ebMatch b) \<noteq> None \<and> nmRoles (ebMatch b) = None"
  "binding_class b = By_team \<Longrightarrow> nmTeamId (ebMatch b) \<noteq> None"
  "binding_class b = By_account \<Longrightarrow> accountPattern (ebMatch b) \<noteq> ''*''"
  "binding_class b = By_channel \<Longrightarrow> accountPattern (ebMatch b) = ''*''"
  by (auto simp: binding_class_def Let_def split: peer_constraint.splits if_splits)

lemma peerLookupKeys_ne: "peerLookupKeys kind i \<noteq> []"
  by (simp add: peerLookupKeys_def)

lemma peer_key_first:
  "peerKindMatches kb kind \<Longrightarrow> hd (peerLookupKeys kind i) \<in> set (peerLookupKeys kb i)"
  by (auto simp: peerKindMatches_def peerLookupKeys_def)

lemma find_collected:
  assumes "distinct bs"
  shows "find (\<lambda>b. is_valid_peer b \<and> in_scope r (Some (kind, i)) b)
           (collectPeerIndexedBindings (buildEvaluatedBindingsIndex bs) (Some (kind, i))) =
         find (\<lambda>b. binding_class b = By_peer \<and> in_scope r (Some (kind, i)) b) bs"
proof -
  let ?M = "\<lambda>b. binding_class b = By_peer \<and> in_scope r (Some (kind, i)) b"
  let ?L = "\<lambda>k. filter (\<lambda>b. k \<in> set (peer_keys_of b)) bs"
  obtain k1 ks where keys: "peerLookupKeys kind i = k1 # ks"
    by (metis list.exhaust peerLookupKeys_ne)
  have cover: "k1 \<in> set (peer_keys_of b)" if "?M b" for b
    using that in_scope_peer[of b r "Some (kind, i)"] peer_key_first[of _ kind i] keys
    by (auto simp: peer_keys_of_def)
  have first: "fold js_add (?L k1) [] = ?L k1" using fold_js_add_fresh[of "[]" "?L k1"] assms by simp
  have sub: "\<exists>zs. fold (\<lambda>key out. fold js_add (?L key) out) ks xs = xs @ zs \<and> set zs \<subseteq> set bs" for xs
  proof (induction ks arbitrary: xs)
    case (Cons k ks)
    obtain ys where ys: "fold js_add (?L k) xs = xs @ ys" "set ys \<subseteq> set bs"
      using fold_js_add_append[of "?L k" xs] by auto
    obtain zs where "fold (\<lambda>key out. fold js_add (?L key) out) ks (xs @ ys) = (xs @ ys) @ zs" "set zs \<subseteq> set bs"
      using Cons by blast
    then show ?case using ys by (intro exI[of _ "ys @ zs"]) simp
  qed simp
  obtain zs where zs: "collectPeerIndexedBindings (buildEvaluatedBindingsIndex bs) (Some (kind, i)) = ?L k1 @ zs"
    "set zs \<subseteq> set bs"
    using sub[of "?L k1"] by (auto simp: collectPeerIndexedBindings_def index_parts keys first)
  have "find ?M (?L k1 @ zs) = find ?M (?L k1)"
    using zs(2) cover by (intro find_append_covered) auto
  also have "\<dots> = find ?M bs" using cover by (intro find_filter_same) auto
  finally show ?thesis by (simp add: zs(1) is_valid_peer_class)
qed

text \<open>One tier of the index against one tier of the reference.\<close>

lemma find_filter: "find N (filter C bs) = find (\<lambda>b. C b \<and> N b) bs"
  by (induction bs) auto

lemma tier_find:
  assumes "\<And>b. b \<in> set bs \<Longrightarrow> M b \<Longrightarrow> en \<and> C b \<and> Pr b \<and> S b"
    and "\<And>b. b \<in> set bs \<Longrightarrow> en \<Longrightarrow> C b \<Longrightarrow> Pr b \<Longrightarrow> S b \<Longrightarrow> M b"
  shows "(if en then find (\<lambda>b. Pr b \<and> S b) (filter C bs) else None) = find M bs"
proof (cases en)
  case True
  have "find (\<lambda>b. C b \<and> Pr b \<and> S b) bs = find M bs"
    by (rule find_cong[OF refl]) (use True assms in blast)
  then show ?thesis using True by (simp add: find_filter)
next
  case False
  then have "\<not> M b" if "b \<in> set bs" for b using assms(1)[OF that] by blast
  then have "find M bs = None" by (simp add: find_None_iff)
  then show ?thesis using False by simp
qed

lemma first_tier_Cons:
  "first_tier r (t # ts) =
     (case (if tierEnabled t then find (\<lambda>b. tierPredicate t b \<and> in_scope r (tierPeer t) b) (tierCandidates t) else None) of
        Some b \<Rightarrow> Some (b, tierMatchedBy t) | None \<Rightarrow> first_tier r ts)"
  by (simp add: in_scope_def)

lemma if_empty: "(if P then (if P then A else B) else C) = (if P then A else C)"
  by simp

lemma tiers_agree:
  assumes dist: "distinct bs" and ok: "\<And>b. b \<in> set bs \<Longrightarrow> binding_ok b" and req: "request_ok r"
  shows "first_tier r (route_tiers r (buildEvaluatedBindingsIndex bs)) = pick_best r bs (tier_order r)"
proof -
  let ?ix = "buildEvaluatedBindingsIndex bs"
  let ?g = "rqGuildId r" and ?t = "rqTeamId r" and ?p = "rqPeer r"
  let ?F = "\<lambda>cls peer. find (\<lambda>b. binding_class b = cls \<and> in_scope r peer b) bs"
  have peer: "(if peer \<noteq> None
               then find (\<lambda>b. is_valid_peer b \<and> in_scope r peer b) (collectPeerIndexedBindings ?ix peer) else None) =
              ?F By_peer peer" for peer
  proof (cases peer)
    case None
    then have "\<not> (binding_class b = By_peer \<and> in_scope r peer b)" for b using in_scope_peer[of b r peer] by auto
    then have "?F By_peer peer = None" by (simp add: find_None_iff)
    then show ?thesis using None by simp
  next
    case (Some kp)
    then show ?thesis using find_collected[OF dist, of r "fst kp" "snd kp"] by simp
  qed
  have parent: "collectPeerIndexedBindings ?ix (rqParentPeer r) = collectPeerIndexedBindings ?ix parentPeer"
    if "parentPeer = (case rqParentPeer r of Some (k, i) \<Rightarrow> if i \<noteq> [] then Some (k, i) else None | None \<Rightarrow> None)"
       "parentPeer \<noteq> None" for parentPeer
    using that by (auto split: option.splits if_splits)
  have wild: "(if ?p \<noteq> None then find (\<lambda>b. is_wildcard_peer b \<and> in_scope r ?p b) (ixByPeerWildcard ?ix) else None)
      = ?F By_peer_wildcard ?p"
    unfolding index_parts is_wildcard_peer_class by (rule tier_find) (use in_scope_wildcard in blast)+
  have S: "(nmGuildId (ebMatch b) = None \<or> nmGuildId (ebMatch b) = Some ?g \<and> ?g \<noteq> []) \<and>
      (nmTeamId (ebMatch b) = None \<or> nmTeamId (ebMatch b) = Some ?t \<and> ?t \<noteq> []) \<and>
      (nmRoles (ebMatch b) = None \<or> rqMemberRoleIds r \<noteq> [])" if "b \<in> set bs" "in_scope r ?p b" for b
    using in_scope_guild[OF that(2) req ok[OF that(1)]] by auto
  have roles: "(if ?g \<noteq> [] \<and> rqMemberRoleIds r \<noteq> []
      then find (\<lambda>b. (nmGuildId (ebMatch b) \<noteq> None \<and> nmRoles (ebMatch b) \<noteq> None) \<and> in_scope r ?p b)
             (filter (of_guild By_guild_roles ?g) bs) else None) = ?F By_guild_roles ?p"
    by (rule tier_find) (use class_constraints(1) S of_guild_def in blast)+
  have guild: "(if ?g \<noteq> []
      then find (\<lambda>b. (nmGuildId (ebMatch b) \<noteq> None \<and> nmRoles (ebMatch b) = None) \<and> in_scope r ?p b)
             (filter (of_guild By_guild ?g) bs) else None) = ?F By_guild ?p"
    by (rule tier_find) (use class_constraints(2) S of_guild_def in blast)+
  have team: "(if ?t \<noteq> []
      then find (\<lambda>b. nmTeamId (ebMatch b) \<noteq> None \<and> in_scope r ?p b) (filter (of_team ?t) bs) else None) = ?F By_team ?p"
    by (rule tier_find) (use class_constraints(3) S of_team_def in blast)+
  have account: "(if True then find (\<lambda>b. accountPattern (ebMatch b) \<noteq> ''*'' \<and> in_scope r ?p b) (ixByAccount ?ix) else None)
      = ?F By_account ?p"
    unfolding index_parts by (rule tier_find) (use class_constraints(4) in blast)+
  have channel: "(if True then find (\<lambda>b. accountPattern (ebMatch b) = ''*'' \<and> in_scope r ?p b) (ixByChannel ?ix) else None)
      = ?F By_channel ?p"
    unfolding index_parts by (rule tier_find) (use class_constraints(5) in blast)+
  define parentPeer where
    "parentPeer = (case rqParentPeer r of Some (k, i) \<Rightarrow> if i \<noteq> [] then Some (k, i) else None | None \<Rightarrow> None)"
  have parent_tier: "(if parentPeer \<noteq> None
      then find (\<lambda>b. is_valid_peer b \<and> in_scope r parentPeer b) (collectPeerIndexedBindings ?ix (rqParentPeer r)) else None)
      = ?F By_peer parentPeer"
    using peer[of parentPeer] parent[OF parentPeer_def] by (cases parentPeer) simp_all
  have lists: "?g \<noteq> [] \<Longrightarrow> js_nullish (jm_get (ixByGuildWithRoles ?ix) ?g) [] = filter (of_guild By_guild_roles ?g) bs"
    "?g \<noteq> [] \<Longrightarrow> js_nullish (jm_get (ixByGuild ?ix) ?g) [] = filter (of_guild By_guild ?g) bs"
    "?t \<noteq> [] \<Longrightarrow> js_nullish (jm_get (ixByTeam ?ix) ?t) [] = filter (of_team ?t) bs"
    by (simp_all add: index_parts)
  have roles': "(if ?g \<noteq> [] \<and> rqMemberRoleIds r \<noteq> []
      then find (\<lambda>b. (nmGuildId (ebMatch b) \<noteq> None \<and> nmRoles (ebMatch b) \<noteq> None) \<and> in_scope r ?p b)
             (if ?g \<noteq> [] then js_nullish (jm_get (ixByGuildWithRoles ?ix) ?g) [] else []) else None) = ?F By_guild_roles ?p"
    unfolding roles[symmetric] by (cases "?g = []") (simp_all add: lists)
  have guild': "(if ?g \<noteq> []
      then find (\<lambda>b. (nmGuildId (ebMatch b) \<noteq> None \<and> nmRoles (ebMatch b) = None) \<and> in_scope r ?p b)
             (if ?g \<noteq> [] then js_nullish (jm_get (ixByGuild ?ix) ?g) [] else []) else None) = ?F By_guild ?p"
    unfolding guild[symmetric] by (cases "?g = []") (simp_all add: lists)
  have team': "(if ?t \<noteq> []
      then find (\<lambda>b. nmTeamId (ebMatch b) \<noteq> None \<and> in_scope r ?p b)
             (if ?t \<noteq> [] then js_nullish (jm_get (ixByTeam ?ix) ?t) [] else []) else None) = ?F By_team ?p"
    unfolding team[symmetric] by (cases "?t = []") (simp_all add: lists)
  show ?thesis
    unfolding route_tiers_def tier_order_def Let_def parentPeer_def[symmetric] first_tier_Cons route_tier.simps
      pick_best.simps first_tier.simps(1) peer parent_tier wild roles' guild' team' account channel
    by (rule refl)
qed

end
