(* ===== verification/Routing_Caches.thy ===== *)
theory Routing_Caches
  imports Routing_Index
begin

text \<open>
  The caches of the routes are transparent: a route that is read from a cache is the one a
  search over the configuration gives, as long as no configuration object is changed in place
  and the identifiers in a request are ones its cache key can tell apart.
\<close>

section \<open>The route without caches\<close>

definition agent_for :: "route_config \<Rightarrow> string \<Rightarrow> string" where
  "agent_for cfg agentId =
     (let trimmed = js_trim agentId; byId = agents_by_id (listAgentEntries cfg);
          fallback = sanitizeAgentId (Some (resolveDefaultAgentId cfg))
      in if trimmed = [] then fallback
         else if byId = [] then sanitizeAgentId (Some trimmed)
         else (case jm_get byId (normalizeAgentId (Some trimmed)) of
                 Some resolved \<Rightarrow> if resolved \<noteq> [] then resolved else fallback
               | None \<Rightarrow> fallback))"

definition route_of :: "route_config \<Rightarrow> route_request \<Rightarrow> agent_route" where
  "route_of cfg r =
     (case pick_best r (applicable_bindings cfg (rqChannel r) (rqAccountId r)) (tier_order r) of
        Some (b, by) \<Rightarrow> route_for cfg r (agent_for cfg (bindingAgentId (ebBinding b))) by (bindingDmScope (ebBinding b))
      | None \<Rightarrow> route_for cfg r (agent_for cfg (resolveDefaultAgentId cfg)) By_default None)"

section \<open>What the caches hold\<close>

text \<open>No object is changed in place: the same part means the same content.\<close>

definition refs_consistent :: "route_config set \<Rightarrow> bool" where
  "refs_consistent U \<longleftrightarrow>
     (\<forall>c \<in> U. \<forall>d \<in> U.
        (refId (cfgAgents c) = refId (cfgAgents d) \<longrightarrow> refVal (cfgAgents c) = refVal (cfgAgents d)) \<and>
        (refId (cfgBindings c) = refId (cfgBindings d) \<longrightarrow> refVal (cfgBindings c) = refVal (cfgBindings d)) \<and>
        (refId (cfgSession c) = refId (cfgSession d) \<longrightarrow> refVal (cfgSession c) = refVal (cfgSession d)))"

definition no_tab :: "string \<Rightarrow> bool" where
  "no_tab s \<longleftrightarrow> CHR 0x09 \<notin> set s"

definition peer_wf :: "route_peer option \<Rightarrow> bool" where
  "peer_wf p \<longleftrightarrow>
     (case p of None \<Rightarrow> True | Some (k, i) \<Rightarrow> no_tab k \<and> CHR '':'' \<notin> set k \<and> no_tab i \<and> i \<noteq> [])"

definition request_wf :: "route_request \<Rightarrow> bool" where
  "request_wf r \<longleftrightarrow>
     no_tab (rqChannel r) \<and> no_tab (rqAccountId r) \<and> peer_wf (rqPeer r) \<and> peer_wf (rqParentPeer r) \<and>
     no_tab (rqGuildId r) \<and> rqGuildId r \<noteq> ''-'' \<and> no_tab (rqTeamId r) \<and> rqTeamId r \<noteq> ''-'' \<and>
     list_all (\<lambda>x. x \<noteq> [] \<and> x \<noteq> ''-'' \<and> no_tab x \<and> CHR '','' \<notin> set x) (rqMemberRoleIds r)"

definition lookup_good :: "route_config \<Rightarrow> lookup_cache \<Rightarrow> bool" where
  "lookup_good cfg lc \<longleftrightarrow>
     lcByNormalizedId lc = agents_by_id (listAgentEntries cfg) \<and>
     lcFallback lc = sanitizeAgentId (Some (resolveDefaultAgentId cfg))"

definition evaluated_good :: "route_config \<Rightarrow> evaluated_cache \<Rightarrow> bool" where
  "evaluated_good cfg ec \<longleftrightarrow>
     ecByChannel ec = buildEvaluatedBindingsByChannel cfg \<and>
     map fst (ecByChannelAccountIndex ec) = map fst (ecByChannelAccount ec) \<and>
     length (ecByChannelAccount ec) \<le> MAX_EVALUATED_BINDINGS_CACHE_KEYS \<and>
     (\<forall>ch acc. no_tab acc \<longrightarrow>
        (\<forall>v. jm_get (ecByChannelAccount ec) (account_cache_key ch acc) = Some v \<longrightarrow>
           applicable_bindings cfg ch acc = v) \<and>
        (\<forall>v. jm_get (ecByChannelAccountIndex ec) (account_cache_key ch acc) = Some v \<longrightarrow>
           buildEvaluatedBindingsIndex (applicable_bindings cfg ch acc) = v))"

definition routes_good :: "route_config \<Rightarrow> route_cache \<Rightarrow> bool" where
  "routes_good cfg rc \<longleftrightarrow>
     length (rcByKey rc) \<le> MAX_RESOLVED_ROUTE_CACHE_KEYS \<and>
     (\<forall>r v. request_wf r \<longrightarrow>
        jm_get (rcByKey rc) (buildResolvedRouteCacheKey r (route_dm_scope cfg)) = Some v \<longrightarrow> route_of cfg r = v)"

definition same_refs :: "route_config \<Rightarrow> route_cache \<Rightarrow> bool" where
  "same_refs cfg rc \<longleftrightarrow>
     rcBindingsRef rc = refId (cfgBindings cfg) \<and> rcAgentsRef rc = refId (cfgAgents cfg) \<and>
     rcSessionRef rc = refId (cfgSession cfg)"

definition caches_ok :: "route_config set \<Rightarrow> routing_caches \<Rightarrow> bool" where
  "caches_ok U cs \<longleftrightarrow>
     (\<forall>cfg \<in> U. \<forall>lc. jm_get (agentLookupCacheByCfg cs) (cfgId cfg) = Some lc \<longrightarrow>
        lcAgentsRef lc = refId (cfgAgents cfg) \<longrightarrow> lookup_good cfg lc) \<and>
     (\<forall>cfg \<in> U. \<forall>ec. jm_get (evaluatedBindingsCacheByCfg cs) (cfgId cfg) = Some ec \<longrightarrow>
        ecBindingsRef ec = refId (cfgBindings cfg) \<longrightarrow> evaluated_good cfg ec) \<and>
     (\<forall>cfg \<in> U. \<forall>rc. jm_get (resolvedRouteCacheByCfg cs) (cfgId cfg) = Some rc \<longrightarrow>
        same_refs cfg rc \<longrightarrow> routes_good cfg rc)"

lemma caches_okD:
  assumes "caches_ok U cs" "cfg \<in> U"
  shows "jm_get (agentLookupCacheByCfg cs) (cfgId cfg) = Some lc \<Longrightarrow> lcAgentsRef lc = refId (cfgAgents cfg) \<Longrightarrow>
           lookup_good cfg lc"
    and "jm_get (evaluatedBindingsCacheByCfg cs) (cfgId cfg) = Some ec \<Longrightarrow> ecBindingsRef ec = refId (cfgBindings cfg) \<Longrightarrow>
           evaluated_good cfg ec"
    and "jm_get (resolvedRouteCacheByCfg cs) (cfgId cfg) = Some rc \<Longrightarrow> same_refs cfg rc \<Longrightarrow> routes_good cfg rc"
  using assms unfolding caches_ok_def by blast+

text \<open>A good entry is good for every configuration with the same parts.\<close>

lemma good_transfer:
  assumes "refs_consistent U" "c \<in> U" "d \<in> U"
  shows "refId (cfgAgents c) = refId (cfgAgents d) \<Longrightarrow> lookup_good c lc \<Longrightarrow> lookup_good d lc"
    and "refId (cfgBindings c) = refId (cfgBindings d) \<Longrightarrow> evaluated_good c ec \<Longrightarrow> evaluated_good d ec"
    and "same_refs c rc \<Longrightarrow> same_refs d rc \<Longrightarrow> routes_good c rc \<Longrightarrow> routes_good d rc"
proof -
  note U = assms(1)[unfolded refs_consistent_def, rule_format, OF assms(2,3)]
  have ag: "listAgentEntries d = listAgentEntries c" "resolveDefaultAgentId d = resolveDefaultAgentId c"
    if "refId (cfgAgents c) = refId (cfgAgents d)"
  proof -
    show e: "listAgentEntries d = listAgentEntries c" using U that by (simp add: listAgentEntries_def)
    show "resolveDefaultAgentId d = resolveDefaultAgentId c" by (simp only: resolveDefaultAgentId_def e)
  qed
  show "lookup_good d lc" if "refId (cfgAgents c) = refId (cfgAgents d)" "lookup_good c lc"
    using ag[OF that(1)] that(2) by (simp add: lookup_good_def)
  have ev: "listBindings d = listBindings c" if "refId (cfgBindings c) = refId (cfgBindings d)"
    using U that by (simp add: listBindings_def)
  show "evaluated_good d ec" if "refId (cfgBindings c) = refId (cfgBindings d)" "evaluated_good c ec"
    using ev[OF that(1)] that(2)
    unfolding evaluated_good_def applicable_bindings_def buildEvaluatedBindingsByChannel_def by simp
  show "routes_good d rc" if "same_refs c rc" "same_refs d rc" "routes_good c rc"
  proof -
    have "refVal (cfgSession d) = refVal (cfgSession c)" "listBindings d = listBindings c"
      "listAgentEntries d = listAgentEntries c" "resolveDefaultAgentId d = resolveDefaultAgentId c"
      using U ev ag that(1,2) by (simp_all add: same_refs_def)
    moreover from this have "agent_for d = agent_for c" "route_for d = route_for c"
      "applicable_bindings d = applicable_bindings c"
      by (intro ext, simp add: agent_for_def route_for_def applicable_bindings_def)+
    ultimately have "route_dm_scope d = route_dm_scope c" "route_of d r = route_of c r" for r
      by (simp_all add: route_dm_scope_def route_of_def split: option.split)
    then show ?thesis using that(3) by (simp add: routes_good_def)
  qed
qed

section \<open>The operations on the caches\<close>

lemma lookup_ok:
  assumes "refs_consistent U" "caches_ok U cs" "cfg \<in> U"
  shows "lookup_good cfg (fst (resolveAgentLookupCache cfg cs))"
    and "caches_ok U (snd (resolveAgentLookupCache cfg cs))"
    and "resolvedRouteCacheByCfg (snd (resolveAgentLookupCache cfg cs)) = resolvedRouteCacheByCfg cs"
proof -
  define fresh where "fresh = \<lparr>lcAgentsRef = refId (cfgAgents cfg), lcByNormalizedId = agents_by_id (listAgentEntries cfg),
                   lcFallback = sanitizeAgentId (Some (resolveDefaultAgentId cfg))\<rparr>"
  have good: "lookup_good cfg fresh" by (simp add: lookup_good_def fresh_def)
  define miss where "miss = cs\<lparr>agentLookupCacheByCfg := jm_set (cfgId cfg) fresh (agentLookupCacheByCfg cs)\<rparr>"
  have "caches_ok U miss"
    unfolding caches_ok_def
  proof (intro conjI ballI allI impI)
    fix c lc
    assume c: "c \<in> U" "jm_get (agentLookupCacheByCfg miss) (cfgId c) = Some lc" "lcAgentsRef lc = refId (cfgAgents c)"
    show "lookup_good c lc"
    proof (cases "cfgId c = cfgId cfg")
      case True
      then have "lc = fresh" using c by (simp add: miss_def update_conv')
      then show ?thesis using good_transfer(1)[OF assms(1,3) c(1) _ good] c(3) by (simp add: fresh_def)
    next
      case False
      then show ?thesis using c caches_okD(1)[OF assms(2) c(1)] by (simp add: miss_def update_conv')
    qed
  qed (use caches_okD(2,3)[OF assms(2)] in \<open>auto simp: miss_def\<close>)
  moreover have "resolveAgentLookupCache cfg cs = (fresh, miss) \<or>
      (\<exists>lc. resolveAgentLookupCache cfg cs = (lc, cs) \<and> lookup_good cfg lc)"
    using caches_okD(1)[OF assms(2,3)]
    by (auto simp: resolveAgentLookupCache_def Let_def fresh_def[symmetric] miss_def[symmetric] split: option.splits)
  ultimately show "lookup_good cfg (fst (resolveAgentLookupCache cfg cs))"
    and "caches_ok U (snd (resolveAgentLookupCache cfg cs))"
    and "resolvedRouteCacheByCfg (snd (resolveAgentLookupCache cfg cs)) = resolvedRouteCacheByCfg cs"
    using good assms(2) by (auto simp: miss_def)
qed

lemma pick_agent_ok:
  assumes "refs_consistent U" "caches_ok U cs" "cfg \<in> U"
  shows "fst (pickFirstExistingAgentId cfg a cs) = agent_for cfg a"
    and "caches_ok U (snd (pickFirstExistingAgentId cfg a cs))"
    and "resolvedRouteCacheByCfg (snd (pickFirstExistingAgentId cfg a cs)) = resolvedRouteCacheByCfg cs"
  using lookup_ok[OF assms]
  by (auto simp: pickFirstExistingAgentId_def agent_for_def Let_def lookup_good_def split: prod.splits option.splits)

lemma no_tab_key_inj:
  assumes "no_tab acc" "no_tab acc'"
  shows "account_cache_key ch acc = account_cache_key ch' acc' \<longleftrightarrow> ch = ch' \<and> acc = acc'"
proof -
  have "account_cache_key ch acc = account_cache_key ch' acc' \<longleftrightarrow>
        rev (account_cache_key ch acc) = rev (account_cache_key ch' acc')" by simp
  also have "\<dots> \<longleftrightarrow> rev acc @ CHR 0x09 # rev ch = rev acc' @ CHR 0x09 # rev ch'"
    by (simp add: account_cache_key_def)
  also have "\<dots> \<longleftrightarrow> rev acc = rev acc' \<and> rev ch = rev ch'"
    using assms by (intro sep_cancel) (simp_all add: no_tab_def)
  finally show ?thesis by auto
qed

lemma evaluated_for_good:
  assumes "refs_consistent U" "caches_ok U cs" "cfg \<in> U"
  shows "evaluated_good cfg (evaluated_cache_for cfg cs)"
    and "ecBindingsRef (evaluated_cache_for cfg cs) = refId (cfgBindings cfg)"
  using caches_okD(2)[OF assms(2,3)]
  by (auto simp: evaluated_cache_for_def Let_def evaluated_good_def split: option.splits)

lemma set_evaluated_ok:
  assumes "refs_consistent U" "caches_ok U cs" "cfg \<in> U" "evaluated_good cfg ec" "ecBindingsRef ec = refId (cfgBindings cfg)"
  shows "caches_ok U (set_evaluated_cache cfg ec cs)"
  unfolding caches_ok_def
proof (intro conjI ballI allI impI)
  fix c ec'
  assume c: "c \<in> U" "jm_get (evaluatedBindingsCacheByCfg (set_evaluated_cache cfg ec cs)) (cfgId c) = Some ec'"
    "ecBindingsRef ec' = refId (cfgBindings c)"
  show "evaluated_good c ec'"
  proof (cases "cfgId c = cfgId cfg")
    case True
    then have "ec' = ec" using c by (simp add: set_evaluated_cache_def update_conv')
    then show ?thesis using good_transfer(2)[OF assms(1,3) c(1) _ assms(4)] c(3) assms(5) by simp
  next
    case False
    then show ?thesis using c caches_okD(2)[OF assms(2) c(1)] by (simp add: set_evaluated_cache_def update_conv')
  qed
qed (use caches_okD(1,3)[OF assms(2)] in \<open>auto simp: set_evaluated_cache_def\<close>)

text \<open>A new entry of both maps keeps them good; when they are full they start over.\<close>

lemma evaluated_insert_good:
  assumes good: "evaluated_good cfg ec" and acc: "no_tab acc" and new: "jm_get (ecByChannelAccount ec) (account_cache_key ch acc) = None"
  defines "v \<equiv> applicable_bindings cfg ch acc"
  defines "byAccount \<equiv> jm_set (account_cache_key ch acc) v (ecByChannelAccount ec)"
  defines "full \<equiv> MAX_EVALUATED_BINDINGS_CACHE_KEYS < length byAccount"
  shows "evaluated_good cfg (ec\<lparr>ecByChannelAccount := (if full then [(account_cache_key ch acc, v)] else byAccount),
           ecByChannelAccountIndex := (if full then [(account_cache_key ch acc, buildEvaluatedBindingsIndex v)]
             else jm_set (account_cache_key ch acc) (buildEvaluatedBindingsIndex v) (ecByChannelAccountIndex ec))\<rparr>)"
    (is "evaluated_good cfg ?ec")
proof -
  have keys: "map fst (jm_set k x m) = map fst (jm_set k y m')" if "map fst m = map fst m'"
    for k and x :: 'x and y :: 'y and m m'
    using that by (simp add: update_keys)
  have get: "jm_get (ecByChannelAccount ?ec) (account_cache_key c a) = Some w \<Longrightarrow> applicable_bindings cfg c a = w"
    "jm_get (ecByChannelAccountIndex ?ec) (account_cache_key c a) = Some w' \<Longrightarrow>
       buildEvaluatedBindingsIndex (applicable_bindings cfg c a) = w'" if "no_tab a" for c a w w'
    using good that no_tab_key_inj[OF acc that, of ch c]
    unfolding evaluated_good_def v_def byAccount_def
    by (auto simp: update_conv' split: if_splits)
  show ?thesis
    unfolding evaluated_good_def using good keys get
    by (auto simp: evaluated_good_def byAccount_def full_def MAX_EVALUATED_BINDINGS_CACHE_KEYS_def)
qed

lemma bindings_ok:
  assumes "refs_consistent U" "caches_ok U cs" "cfg \<in> U" "no_tab acc"
  shows "fst (getEvaluatedBindingsForChannelAccount cfg ch acc cs) = applicable_bindings cfg ch acc"
    and "caches_ok U (snd (getEvaluatedBindingsForChannelAccount cfg ch acc cs))"
    and "resolvedRouteCacheByCfg (snd (getEvaluatedBindingsForChannelAccount cfg ch acc cs)) = resolvedRouteCacheByCfg cs"
    and "\<exists>ec. jm_get (evaluatedBindingsCacheByCfg (snd (getEvaluatedBindingsForChannelAccount cfg ch acc cs))) (cfgId cfg) = Some ec \<and>
           ecBindingsRef ec = refId (cfgBindings cfg) \<and>
           jm_get (ecByChannelAccountIndex ec) (account_cache_key ch acc) \<noteq> None"
proof -
  define ec where "ec = evaluated_cache_for cfg cs"
  note good = evaluated_for_good[OF assms(1-3), folded ec_def]
  let ?k = "account_cache_key ch acc"
  let ?r = "getEvaluatedBindingsForChannelAccount cfg ch acc cs"
  have "fst ?r = applicable_bindings cfg ch acc \<and>
      (\<exists>ec'. snd ?r = set_evaluated_cache cfg ec' cs \<and> evaluated_good cfg ec' \<and>
         ecBindingsRef ec' = refId (cfgBindings cfg) \<and> jm_get (ecByChannelAccountIndex ec') ?k \<noteq> None)"
  proof (cases "jm_get (ecByChannelAccount ec) ?k")
    case (Some hit)
    have "?k \<in> set (map fst (ecByChannelAccount ec))" using Some by (force dest: map_of_SomeD)
    then have "?k \<in> set (map fst (ecByChannelAccountIndex ec))" using good(1) by (simp add: evaluated_good_def)
    then have "jm_get (ecByChannelAccountIndex ec) ?k \<noteq> None" by (simp add: map_of_eq_None_iff)
    moreover have "applicable_bindings cfg ch acc = hit" using good(1) Some assms(4) unfolding evaluated_good_def by blast
    ultimately show ?thesis
      using Some good unfolding getEvaluatedBindingsForChannelAccount_def ec_def[symmetric] Let_def
      by (intro conjI exI[of _ ec]) simp_all
  next
    case None
    have chan: "ecByChannel ec = buildEvaluatedBindingsByChannel cfg" using good(1) by (simp add: evaluated_good_def)
    note ins = evaluated_insert_good[OF good(1) assms(4) None]
    show ?thesis
      unfolding getEvaluatedBindingsForChannelAccount_def ec_def[symmetric] Let_def chan bucket_of_def[symmetric]
        merged_bindings None option.case fst_conv snd_conv
      by (intro conjI exI, rule refl, rule refl, rule ins) (use good(2) in \<open>simp_all add: update_conv'\<close>)
  qed
  then obtain ec' where r: "fst ?r = applicable_bindings cfg ch acc" "snd ?r = set_evaluated_cache cfg ec' cs"
    and ec': "evaluated_good cfg ec'" "ecBindingsRef ec' = refId (cfgBindings cfg)"
      "jm_get (ecByChannelAccountIndex ec') ?k \<noteq> None" by blast
  show "fst ?r = applicable_bindings cfg ch acc" by (rule r)
  show "caches_ok U (snd ?r)" unfolding r by (rule set_evaluated_ok[OF assms(1-3) ec'(1,2)])
  show "resolvedRouteCacheByCfg (snd ?r) = resolvedRouteCacheByCfg cs" unfolding r by (simp add: set_evaluated_cache_def)
  show "\<exists>ec. jm_get (evaluatedBindingsCacheByCfg (snd ?r)) (cfgId cfg) = Some ec \<and>
           ecBindingsRef ec = refId (cfgBindings cfg) \<and> jm_get (ecByChannelAccountIndex ec) ?k \<noteq> None"
    unfolding r using ec' by (simp add: set_evaluated_cache_def update_conv')
qed

lemma index_ok:
  assumes "refs_consistent U" "caches_ok U cs" "cfg \<in> U" "no_tab acc"
  shows "fst (getEvaluatedBindingIndexForChannelAccount cfg ch acc cs) =
           buildEvaluatedBindingsIndex (applicable_bindings cfg ch acc)"
    and "caches_ok U (snd (getEvaluatedBindingIndexForChannelAccount cfg ch acc cs))"
    and "resolvedRouteCacheByCfg (snd (getEvaluatedBindingIndexForChannelAccount cfg ch acc cs)) = resolvedRouteCacheByCfg cs"
proof -
  let ?r = "getEvaluatedBindingsForChannelAccount cfg ch acc cs"
  note b = bindings_ok[OF assms, of ch]
  obtain ec ix where ec: "jm_get (evaluatedBindingsCacheByCfg (snd ?r)) (cfgId cfg) = Some ec"
    "ecBindingsRef ec = refId (cfgBindings cfg)" "jm_get (ecByChannelAccountIndex ec) (account_cache_key ch acc) = Some ix"
    using b(4) by auto
  have "evaluated_good cfg ec" using caches_okD(2)[OF b(2) assms(3)] ec by blast
  then have ix: "buildEvaluatedBindingsIndex (applicable_bindings cfg ch acc) = ix"
    using ec(3) assms(4) unfolding evaluated_good_def by blast
  have "getEvaluatedBindingIndexForChannelAccount cfg ch acc cs = (ix, snd ?r)"
    unfolding getEvaluatedBindingIndexForChannelAccount_def by (simp add: case_prod_unfold Let_def ec)
  then show "fst (getEvaluatedBindingIndexForChannelAccount cfg ch acc cs) =
           buildEvaluatedBindingsIndex (applicable_bindings cfg ch acc)"
    and "caches_ok U (snd (getEvaluatedBindingIndexForChannelAccount cfg ch acc cs))"
    and "resolvedRouteCacheByCfg (snd (getEvaluatedBindingIndexForChannelAccount cfg ch acc cs)) = resolvedRouteCacheByCfg cs"
    using ix b(2,3) by simp_all
qed

section \<open>The computed route\<close>

lemma applicable_bindings_ok:
  shows "distinct (applicable_bindings cfg ch acc)"
    and "b \<in> set (applicable_bindings cfg ch acc) \<Longrightarrow> binding_ok b"
proof -
  let ?es = "map snd (filter (\<lambda>p. fst p = ch) (evaluated_list 0 (listBindings cfg)))"
  have "sorted_wrt (\<lambda>a b. ebOrder a < ebOrder b) (applicable_bindings cfg ch acc)"
    using evaluated_list_order[of 0 "listBindings cfg"]
    by (simp add: applicable_bindings_def sorted_wrt_map sorted_wrt_filter)
  then show "distinct (applicable_bindings cfg ch acc)"
    by (induction "applicable_bindings cfg ch acc" rule: rev_induct)
       (metis (no_types, lifting) distinct_conv_nth nth_eq_iff_index_eq order_less_irrefl sorted_wrt_nth_less linorder_neqE_nat)+
  have "\<forall>p \<in> set (evaluated_list n bs). \<exists>m c. snd p = evaluated m c" for n bs
    by (induction bs arbitrary: n) (auto simp: evaluated_list_Cons simp del: evaluated_list.simps(2))
  then show "b \<in> set (applicable_bindings cfg ch acc) \<Longrightarrow> binding_ok b"
    by (fastforce simp: applicable_bindings_def binding_ok_def evaluated_def normalizeBindingMatch_def or_null_def
        normalizeRouteBindingRoles_def split: if_splits option.splits)
qed

lemma compute_ok:
  assumes "refs_consistent U" "caches_ok U cs" "cfg \<in> U" "no_tab (rqAccountId r)" "request_ok r"
  shows "fst (compute_route cfg r cs) = route_of cfg r"
    and "caches_ok U (snd (compute_route cfg r cs))"
    and "resolvedRouteCacheByCfg (snd (compute_route cfg r cs)) = resolvedRouteCacheByCfg cs"
proof -
  obtain bs cs1 where 1: "getEvaluatedBindingsForChannelAccount cfg (rqChannel r) (rqAccountId r) cs = (bs, cs1)"
    by (cases "getEvaluatedBindingsForChannelAccount cfg (rqChannel r) (rqAccountId r) cs")
  note b = bindings_ok[OF assms(1-4), of "rqChannel r", unfolded 1, simplified]
  obtain ix cs2 where 2: "getEvaluatedBindingIndexForChannelAccount cfg (rqChannel r) (rqAccountId r) cs1 = (ix, cs2)"
    by (cases "getEvaluatedBindingIndexForChannelAccount cfg (rqChannel r) (rqAccountId r) cs1")
  note i = index_ok[OF assms(1) b(2) assms(3,4), of "rqChannel r", unfolded 2, simplified]
  have tiers: "first_tier r (route_tiers r ix) =
      pick_best r (applicable_bindings cfg (rqChannel r) (rqAccountId r)) (tier_order r)"
    unfolding i(1) by (rule tiers_agree[OF applicable_bindings_ok assms(5)])
  note p = pick_agent_ok[OF assms(1) i(2) assms(3)]
  have eq: "compute_route cfg r cs =
      (case first_tier r (route_tiers r ix) of
         Some (b, by) \<Rightarrow> (route_for cfg r (fst (pickFirstExistingAgentId cfg (bindingAgentId (ebBinding b)) cs2)) by
             (bindingDmScope (ebBinding b)), snd (pickFirstExistingAgentId cfg (bindingAgentId (ebBinding b)) cs2))
       | None \<Rightarrow> (route_for cfg r (fst (pickFirstExistingAgentId cfg (resolveDefaultAgentId cfg) cs2)) By_default None,
             snd (pickFirstExistingAgentId cfg (resolveDefaultAgentId cfg) cs2)))"
    by (simp add: compute_route_def 1 2 case_prod_unfold Let_def split: option.split)
  show "fst (compute_route cfg r cs) = route_of cfg r"
    unfolding eq route_of_def tiers p(1) by (auto split: option.split)
  show "caches_ok U (snd (compute_route cfg r cs))"
    unfolding eq using p(2) by (auto split: option.split)
  show "resolvedRouteCacheByCfg (snd (compute_route cfg r cs)) = resolvedRouteCacheByCfg cs"
    unfolding eq using p(3) i(3) b(3) by (auto split: option.split)
qed

section \<open>What the key of a route tells apart\<close>

lemma set_js_join: "set (js_join sep ps) \<subseteq> set sep \<union> (\<Union>p \<in> set ps. set p)"
  by (induction ps rule: induct_list012) auto

lemma role_key:
  assumes "roles \<noteq> []"
  shows "\<exists>ss. formatRoleIdsCacheKey roles = js_join '','' ss \<and> mset ss = mset roles \<and> ss \<noteq> []"
proof -
  consider a where "roles = [a]" | a b where "roles = [a, b]" | a b c ds where "roles = a # b # c # ds"
    using assms by (metis neq_Nil_conv)
  then show ?thesis
  proof cases
    case (1 a)
    then show ?thesis by (intro exI[of _ "[a]"]) (simp add: formatRoleIdsCacheKey_def)
  next
    case (2 a b)
    then show ?thesis
      by (intro exI[of _ "if js_str_le a b then [a, b] else [b, a]"]) (simp add: formatRoleIdsCacheKey_def)
  next
    case (3 a b c ds)
    moreover have "js_sort js_str_le roles \<noteq> []" using assms by (metis mset_js_sort mset_zero_iff)
    ultimately show ?thesis
      by (intro exI[of _ "js_sort js_str_le roles"]) (simp add: formatRoleIdsCacheKey_def del: js_sort_simps)
  qed
qed

abbreviation role_wf :: "string \<Rightarrow> bool" where
  "role_wf x \<equiv> x \<noteq> [] \<and> x \<noteq> ''-'' \<and> no_tab x \<and> CHR '','' \<notin> set x"

lemma role_key_inj:
  assumes "list_all role_wf as" "list_all role_wf bs" "formatRoleIdsCacheKey as = formatRoleIdsCacheKey bs"
  shows "set as = set bs"
proof -
  have key: "if as = [] then js_split CHR '','' (formatRoleIdsCacheKey as) = [''-'']
             else mset (js_split CHR '','' (formatRoleIdsCacheKey as)) = mset as \<and>
                  js_split CHR '','' (formatRoleIdsCacheKey as) \<noteq> [''-'']" if "list_all role_wf as" for as
  proof (cases "as = []")
    case False
    obtain ss where ss: "formatRoleIdsCacheKey as = js_join '','' ss" "mset ss = mset as" "ss \<noteq> []"
      using role_key[OF False] by blast
    have set: "set ss = set as" using ss(2) by (metis set_mset_mset)
    have "js_split CHR '','' (js_join '','' ss) = ss"
      by (rule split_join) (use ss(3) set that in \<open>auto simp: list_all_iff\<close>)
    moreover have "ss \<noteq> [''-'']" using set that by (auto simp: list_all_iff)
    ultimately show ?thesis using False ss by simp
  qed (simp add: formatRoleIdsCacheKey_def)
  have "as = [] \<longleftrightarrow> bs = []" using key[OF assms(1)] key[OF assms(2)] assms(3) by (auto split: if_splits)
  then show ?thesis
    using key[OF assms(1)] key[OF assms(2)] assms(3) by (metis set_mset_mset)
qed

lemma role_key_no_tab:
  assumes "list_all role_wf as"
  shows "no_tab (formatRoleIdsCacheKey as)"
proof (cases "as = []")
  case False
  obtain ss where ss: "formatRoleIdsCacheKey as = js_join '','' ss" "mset ss = mset as"
    using role_key[OF False] by blast
  have "set ss = set as" using ss(2) by (metis set_mset_mset)
  then show ?thesis
    using set_js_join[of "'',''" ss] assms ss(1) by (fastforce simp: no_tab_def list_all_iff)
qed (simp add: formatRoleIdsCacheKey_def no_tab_def)

lemma peer_key_inj:
  assumes "peer_wf p" "peer_wf q"
  shows "formatRouteCachePeer p = formatRouteCachePeer q \<longleftrightarrow> p = q"
  using assms sep_cancel[of "CHR '':''"]
  by (cases p; cases q) (auto simp: formatRouteCachePeer_def peer_wf_def append_eq_Cons_conv Cons_eq_append_conv)

lemma peer_key_no_tab: "peer_wf p \<Longrightarrow> no_tab (formatRouteCachePeer p)"
  by (auto simp: formatRouteCachePeer_def peer_wf_def no_tab_def split: option.splits)

lemma or_dash:
  "x \<noteq> ''-'' \<Longrightarrow> y \<noteq> ''-'' \<Longrightarrow> js_or_str x ''-'' = js_or_str y ''-'' \<longleftrightarrow> x = y"
  "no_tab x \<Longrightarrow> no_tab (js_or_str x ''-'')"
  by (auto simp: js_or_str_def no_tab_def)

lemma dm_scope_name_no_tab: "no_tab (dm_scope_name s)"
  by (cases s) (simp_all add: dm_scope_name_def no_tab_def)

lemma route_key_inj:
  assumes r: "request_wf r" and q: "request_wf q"
    and "buildResolvedRouteCacheKey r s = buildResolvedRouteCacheKey q s"
  shows "rqChannel r = rqChannel q" "rqAccountId r = rqAccountId q" "rqPeer r = rqPeer q"
    "rqParentPeer r = rqParentPeer q" "rqGuildId r = rqGuildId q" "rqTeamId r = rqTeamId q"
    "set (rqMemberRoleIds r) = set (rqMemberRoleIds q)"
proof -
  let ?fields = "\<lambda>r. [rqChannel r, rqAccountId r, formatRouteCachePeer (rqPeer r), formatRouteCachePeer (rqParentPeer r),
        js_or_str (rqGuildId r) ''-'', js_or_str (rqTeamId r) ''-'', formatRoleIdsCacheKey (rqMemberRoleIds r),
        dm_scope_name s]"
  have "js_split CHR 0x09 (buildResolvedRouteCacheKey r s) = ?fields r" if "request_wf r" for r
    unfolding buildResolvedRouteCacheKey_def
    by (rule split_join) (use that in \<open>auto simp: request_wf_def no_tab_def[symmetric] peer_key_no_tab or_dash(2)
        role_key_no_tab dm_scope_name_no_tab\<close>)
  then have f: "?fields r = ?fields q" using assms by metis
  show "rqChannel r = rqChannel q" "rqAccountId r = rqAccountId q" "rqPeer r = rqPeer q"
    "rqParentPeer r = rqParentPeer q" "rqGuildId r = rqGuildId q" "rqTeamId r = rqTeamId q"
    "set (rqMemberRoleIds r) = set (rqMemberRoleIds q)"
    using f r q by (auto simp: request_wf_def peer_key_inj or_dash(1) dest: role_key_inj)
qed

lemma route_of_cong:
  assumes "rqChannel r = rqChannel q" "rqAccountId r = rqAccountId q" "rqPeer r = rqPeer q"
    "rqParentPeer r = rqParentPeer q" "rqGuildId r = rqGuildId q" "rqTeamId r = rqTeamId q"
    "set (rqMemberRoleIds r) = set (rqMemberRoleIds q)"
  shows "route_of cfg r = route_of cfg q"
proof -
  have roles: "hasAnyRouteBindingRole rs (Some (rqMemberRoleIds r)) = hasAnyRouteBindingRole rs (Some (rqMemberRoleIds q))" for rs
    using assms(7) by (simp add: hasAnyRouteBindingRole_def list_ex_iff)
  have "in_scope r p b = in_scope q p b" for p b
    using assms(5,6)
    by (cases "peerConstraint (ebMatch b)"; cases "normalizeRouteBindingRoles (nmRoles (ebMatch b))")
       (simp_all add: in_scope_def matchesBindingScope_def routeBindingScopeMatches_def roles Let_def)
  then have "in_scope r = in_scope q" by (intro ext)
  then have "pick_best r bs ts = pick_best q bs ts" for bs ts
    by (induction ts) (auto split: option.split)
  moreover have "tier_order r = tier_order q" using assms by (simp add: tier_order_def)
  moreover have "route_for cfg r = route_for cfg q" using assms by (intro ext) (simp add: route_for_def)
  ultimately show ?thesis using assms by (simp add: route_of_def split: option.split)
qed

section \<open>The cache of routes\<close>

lemma request_of_ok: "request_ok (route_request_of input)" "no_tab (rqAccountId (route_request_of input))"
proof -
  have "js_trim (normalizeRouteBindingId i) = normalizeRouteBindingId i" for i
    by (cases i) (simp_all add: normalizeRouteBindingId_def)
  then show "request_ok (route_request_of input)" by (simp add: request_ok_def route_request_of_def)
  have "\<not> id_char CHR 0x09" by (simp add: id_char_def alnum_def)
  then show "no_tab (rqAccountId (route_request_of input))"
    using account_id_chars[of "inAccountId input"] by (auto simp: route_request_of_def no_tab_def list_all_iff)
qed

lemma route_cache_ok:
  assumes "refs_consistent U" "caches_ok U cs" "cfg \<in> U"
  shows "routes_good cfg (fst (resolveRouteCacheForConfig cfg cs))"
    and "caches_ok U (snd (resolveRouteCacheForConfig cfg cs))"
    and "jm_get (resolvedRouteCacheByCfg (snd (resolveRouteCacheForConfig cfg cs))) (cfgId cfg) =
           Some (fst (resolveRouteCacheForConfig cfg cs))"
    and "same_refs cfg (fst (resolveRouteCacheForConfig cfg cs))"
proof -
  define fresh where "fresh = \<lparr>rcBindingsRef = refId (cfgBindings cfg), rcAgentsRef = refId (cfgAgents cfg),
                   rcSessionRef = refId (cfgSession cfg), rcByKey = []\<rparr>"
  have good: "routes_good c fresh" and same: "same_refs cfg fresh" for c
    by (simp_all add: routes_good_def same_refs_def fresh_def)
  define miss where "miss = cs\<lparr>resolvedRouteCacheByCfg := jm_set (cfgId cfg) fresh (resolvedRouteCacheByCfg cs)\<rparr>"
  have ok: "caches_ok U miss"
    unfolding caches_ok_def
  proof (intro conjI ballI allI impI)
    fix c rc
    assume "c \<in> U" "jm_get (resolvedRouteCacheByCfg miss) (cfgId c) = Some rc" "same_refs c rc"
    then show "routes_good c rc"
      using good caches_okD(3)[OF assms(2), of c rc] by (auto simp: miss_def update_conv' split: if_splits)
  qed (use caches_okD(1,2)[OF assms(2)] in \<open>auto simp: miss_def\<close>)
  have get: "jm_get (resolvedRouteCacheByCfg miss) (cfgId cfg) = Some fresh" by (simp add: miss_def update_conv')
  have eq: "resolveRouteCacheForConfig cfg cs =
      (case jm_get (resolvedRouteCacheByCfg cs) (cfgId cfg) of
         Some rc \<Rightarrow> if same_refs cfg rc then (rc, cs) else (fresh, miss) | None \<Rightarrow> (fresh, miss))"
    unfolding resolveRouteCacheForConfig_def Let_def fresh_def[symmetric] miss_def[symmetric] same_refs_def by (rule refl)
  have "resolveRouteCacheForConfig cfg cs = (fresh, miss) \<or>
      (\<exists>rc. resolveRouteCacheForConfig cfg cs = (rc, cs) \<and> jm_get (resolvedRouteCacheByCfg cs) (cfgId cfg) = Some rc \<and>
        same_refs cfg rc)"
    unfolding eq by (cases "jm_get (resolvedRouteCacheByCfg cs) (cfgId cfg)") simp_all
  then consider "resolveRouteCacheForConfig cfg cs = (fresh, miss)"
    | rc where "resolveRouteCacheForConfig cfg cs = (rc, cs)" "jm_get (resolvedRouteCacheByCfg cs) (cfgId cfg) = Some rc"
        "same_refs cfg rc"
    by blast
  then show "routes_good cfg (fst (resolveRouteCacheForConfig cfg cs))"
    and "caches_ok U (snd (resolveRouteCacheForConfig cfg cs))"
    and "jm_get (resolvedRouteCacheByCfg (snd (resolveRouteCacheForConfig cfg cs))) (cfgId cfg) =
           Some (fst (resolveRouteCacheForConfig cfg cs))"
    and "same_refs cfg (fst (resolveRouteCacheForConfig cfg cs))"
    using good same ok get assms(2) caches_okD(3)[OF assms(2,3)] by (cases; simp)+
qed

lemma remember_ok:
  assumes "refs_consistent U" "caches_ok U cs" "cfg \<in> U" "request_wf r"
    and "jm_get (resolvedRouteCacheByCfg cs) (cfgId cfg) = Some rc" "same_refs cfg rc"
  shows "caches_ok U (remember_route cfg (buildResolvedRouteCacheKey r (route_dm_scope cfg)) (route_of cfg r) cs)"
proof -
  let ?k = "buildResolvedRouteCacheKey r (route_dm_scope cfg)"
  define byKey where "byKey = jm_set ?k (route_of cfg r) (rcByKey rc)"
  define rc' where "rc' = rc\<lparr>rcByKey := if MAX_RESOLVED_ROUTE_CACHE_KEYS < length byKey then [(?k, route_of cfg r)] else byKey\<rparr>"
  have good: "routes_good cfg rc" using caches_okD(3)[OF assms(2,3)] assms(5,6) by blast
  have hit: "route_of cfg q = v"
    if "request_wf q" "jm_get (rcByKey rc') (buildResolvedRouteCacheKey q (route_dm_scope cfg)) = Some v" for q v
  proof (cases "buildResolvedRouteCacheKey q (route_dm_scope cfg) = ?k")
    case True
    have "v = route_of cfg r" using that(2) True by (auto simp: rc'_def byKey_def update_conv' split: if_splits)
    moreover have "route_of cfg q = route_of cfg r"
      by (rule route_of_cong) (use route_key_inj[OF that(1) assms(4) True] in simp_all)
    ultimately show ?thesis by simp
  next
    case False
    then have "jm_get (rcByKey rc) (buildResolvedRouteCacheKey q (route_dm_scope cfg)) = Some v"
      using that(2) by (auto simp: rc'_def byKey_def update_conv' split: if_splits)
    then show ?thesis using good that(1) unfolding routes_good_def by blast
  qed
  then have good': "routes_good cfg rc'"
    by (auto simp: routes_good_def rc'_def MAX_RESOLVED_ROUTE_CACHE_KEYS_def)
  have same': "same_refs cfg rc'" using assms(6) by (simp add: same_refs_def rc'_def)
  have eq: "remember_route cfg ?k (route_of cfg r) cs =
      cs\<lparr>resolvedRouteCacheByCfg := jm_set (cfgId cfg) rc' (resolvedRouteCacheByCfg cs)\<rparr>"
    by (simp add: remember_route_def assms(5) Let_def rc'_def byKey_def)
  show ?thesis
    unfolding eq caches_ok_def
  proof (intro conjI ballI allI impI)
    fix c rc2
    assume c: "c \<in> U" "jm_get (resolvedRouteCacheByCfg (cs\<lparr>resolvedRouteCacheByCfg :=
        jm_set (cfgId cfg) rc' (resolvedRouteCacheByCfg cs)\<rparr>)) (cfgId c) = Some rc2" "same_refs c rc2"
    show "routes_good c rc2"
    proof (cases "cfgId c = cfgId cfg")
      case True
      then have "rc2 = rc'" using c by (simp add: update_conv')
      then show ?thesis using good_transfer(3)[OF assms(1,3) c(1) same' _ good'] c(3) by simp
    next
      case False
      then show ?thesis using c caches_okD(3)[OF assms(2) c(1)] by (simp add: update_conv')
    qed
  qed (use caches_okD(1,2)[OF assms(2)] in auto)
qed

lemma resolve_ok:
  assumes "refs_consistent U" "caches_ok U cs" "inCfg input \<in> U" "request_wf (route_request_of input)"
  shows "fst (resolveAgentRoute verbose input cs) = route_of (inCfg input) (route_request_of input)"
    and "caches_ok U (snd (resolveAgentRoute verbose input cs))"
proof -
  let ?cfg = "inCfg input" and ?r = "route_request_of input"
  let ?k = "buildResolvedRouteCacheKey ?r (route_dm_scope ?cfg)"
  note comp = compute_ok[OF assms(1) _ assms(3) request_of_ok(2,1)[of input]]
  show "fst (resolveAgentRoute verbose input cs) = route_of ?cfg ?r"
    and "caches_ok U (snd (resolveAgentRoute verbose input cs))"
  proof (atomize (full), cases "verbose \<or> Option.bind (refVal (cfgSession ?cfg)) cfgIdentityLinks \<noteq> None")
    case True
    then show "fst (resolveAgentRoute verbose input cs) = route_of ?cfg ?r \<and>
        caches_ok U (snd (resolveAgentRoute verbose input cs))"
      using comp[OF assms(2)] by (simp add: resolveAgentRoute_def Let_def)
  next
    case False
    obtain rc cs1 where 1: "resolveRouteCacheForConfig ?cfg cs = (rc, cs1)" by (cases "resolveRouteCacheForConfig ?cfg cs")
    note rc = route_cache_ok[OF assms(1-3), unfolded 1, simplified]
    obtain route cs2 where 2: "compute_route ?cfg ?r cs1 = (route, cs2)" by (cases "compute_route ?cfg ?r cs1")
    have c: "route = route_of ?cfg ?r" "caches_ok U cs2" "resolvedRouteCacheByCfg cs2 = resolvedRouteCacheByCfg cs1"
      using comp[OF rc(2)] by (simp_all add: 2)
    have "jm_get (resolvedRouteCacheByCfg cs2) (cfgId ?cfg) = Some rc" using c(3) rc(3) by simp
    then have "caches_ok U (remember_route ?cfg ?k (route_of ?cfg ?r) cs2)"
      using rc(4) by (rule remember_ok[OF assms(1) c(2) assms(3,4)])
    then show "fst (resolveAgentRoute verbose input cs) = route_of ?cfg ?r \<and>
        caches_ok U (snd (resolveAgentRoute verbose input cs))"
      using False c(1) rc(1,2) assms(4)
      by (auto simp: resolveAgentRoute_def Let_def 1 2 routes_good_def split: option.split)
  qed
qed

end
