(* ===== verification/Routing_Props.thy ===== *)
theory Routing_Props
  imports Routing_Caches
begin

text \<open>The properties of the routes of inbound messages.\<close>

section \<open>Precedence\<close>

lemma no_caches_ok: "caches_ok U no_routing_caches"
  by (simp add: caches_ok_def no_routing_caches_def)

lemma fresh_route: "fst (resolveAgentRoute verbose input no_routing_caches) = route_of (inCfg input) (route_request_of input)"
proof -
  let ?cfg = "inCfg input" and ?r = "route_request_of input"
  have U: "refs_consistent {?cfg}" by (simp add: refs_consistent_def)
  define cs where "cs = snd (resolveRouteCacheForConfig ?cfg no_routing_caches)"
  note rc = route_cache_ok[OF U no_caches_ok, of ?cfg, folded cs_def]
  have "fst (resolveRouteCacheForConfig ?cfg no_routing_caches) =
      \<lparr>rcBindingsRef = refId (cfgBindings ?cfg), rcAgentsRef = refId (cfgAgents ?cfg),
       rcSessionRef = refId (cfgSession ?cfg), rcByKey = []\<rparr>"
    by (simp add: resolveRouteCacheForConfig_def no_routing_caches_def Let_def)
  then show ?thesis
    using compute_ok(1)[OF U no_caches_ok, of ?cfg ?r] compute_ok(1)[OF U rc(2), of ?cfg ?r] request_of_ok[of input]
    by (simp add: resolveAgentRoute_def Let_def case_prod_unfold cs_def[symmetric])
qed

text \<open>
  C16: the route of a message is the one a plain search over the configuration gives: the tiers
  from the peer down to the channel in order, in each the first binding, in the order of the
  configuration, that applies to the channel and account and is in scope; else the default
  agent. The buckets, the merge and the index change nothing.
\<close>

theorem route_by_precedence:
  "fst (resolveAgentRoute verbose input no_routing_caches) =
     (let cfg = inCfg input; r = route_request_of input
      in case pick_best r (applicable_bindings cfg (rqChannel r) (rqAccountId r)) (tier_order r) of
           Some (b, by) \<Rightarrow>
             route_for cfg r (agent_for cfg (bindingAgentId (ebBinding b))) by (bindingDmScope (ebBinding b))
         | None \<Rightarrow> route_for cfg r (agent_for cfg (resolveDefaultAgentId cfg)) By_default None)"
  by (simp add: fresh_route route_of_def Let_def)

section \<open>Caches\<close>

definition answer_route :: "bool \<times> route_input \<Rightarrow> agent_route" where
  "answer_route q = route_of (inCfg (snd q)) (route_request_of (snd q))"

definition ask_route :: "bool \<times> route_input \<Rightarrow> routing_caches \<Rightarrow> agent_route \<times> routing_caches" where
  "ask_route q cs = resolveAgentRoute (fst q) (snd q) cs"

interpretation routes: memoised answer_route ask_route
  "\<lambda>cs. refs_consistent U \<and> caches_ok U cs"
  "\<lambda>q. inCfg (snd q) \<in> U \<and> request_wf (route_request_of (snd q))" for U
  by unfold_locales (auto simp: answer_route_def ask_route_def resolve_ok)


definition plain_config :: route_config where
  "plain_config = \<lparr>cfgId = 0, cfgAgents = Ref 1 None, cfgBindings = Ref 2 None, cfgSession = Ref 3 None\<rparr>"

definition group_message :: "string \<Rightarrow> route_input" where
  "group_message peer = \<lparr>inCfg = plain_config, inChannel = Some ''discord'', inAccountId = None,
     inPeer = Some (''group'', IdText peer), inParentPeer = None, inGuildId = IdOther, inTeamId = IdOther,
     inMemberRoleIds = None\<rparr>"

definition message_without_peer :: route_input where
  "message_without_peer = (group_message [])\<lparr>inPeer := None\<rparr>"


text \<open>
  the cache key does not tell a group without an identifier from no peer at all: after a
  message without a peer, the cached route sends such a group to the agent's main session, where
  without the cache it has a session of its own.
\<close>

theorem route_cache_confuses_empty_peer:
  "let lone = fst (resolveAgentRoute False (group_message []) no_routing_caches);
       after = fst (resolveAgentRoute False (group_message [])
                 (snd (resolveAgentRoute False message_without_peer no_routing_caches)))
   in routeSessionKey lone = ''agent:main:discord:group:unknown'' \<and> routeLastPolicy lone = LastRoute_session \<and>
      routeSessionKey after = ''agent:main:main'' \<and> routeLastPolicy after = LastRoute_main"
  unfolding message_without_peer_def group_message_def plain_config_def no_routing_caches_def by code_simp

section \<open>Agents\<close>

definition configured_agents :: "route_config \<Rightarrow> string list" where
  "configured_agents cfg =
     map (\<lambda>a. normalizeAgentId (Some (js_trim (js_nullish (agentEntryId a) []))))
       (filter (\<lambda>a. js_trim (js_nullish (agentEntryId a) []) \<noteq> []) (listAgentEntries cfg))"

lemma agents_by_id_values:
  "jm_get (agents_by_id as) k = Some v \<Longrightarrow>
   \<exists>a \<in> set as. js_trim (js_nullish (agentEntryId a) []) \<noteq> [] \<and>
     k = normalizeAgentId (Some (js_trim (js_nullish (agentEntryId a) []))) \<and> v = k"
proof (induction as rule: rev_induct)
  case (snoc a as)
  then show ?case
    by (auto simp: agents_by_id_def Let_def update_conv' sanitizeAgentId_def split: if_splits)
qed (simp add: agents_by_id_def)

lemma agents_by_id_empty: "agents_by_id as = [] \<longleftrightarrow> (\<forall>a \<in> set as. js_trim (js_nullish (agentEntryId a) []) = [])"
proof (induction as rule: rev_induct)
  case (snoc a as)
  have "AList.update k v m \<noteq> []" for k :: string and v :: string and m by (cases m) auto
  then show ?case using snoc by (auto simp: agents_by_id_def Let_def)
qed (simp add: agents_by_id_def)

text \<open>
  a message is only ever routed to an agent of the configuration: when agents are configured
  with an identifier, the agent of a route is one of them or the default agent, whatever
  identifier the matched binding carries.
\<close>

theorem routed_agent_configured:
  "let cfg = inCfg input; agent = routeAgentId (fst (resolveAgentRoute verbose input no_routing_caches))
   in configured_agents cfg = [] \<or> agent \<in> set (configured_agents cfg) \<or>
      agent = normalizeAgentId (Some (resolveDefaultAgentId cfg))"
proof -
  let ?cfg = "inCfg input"
  have empty: "agents_by_id (listAgentEntries ?cfg) = [] \<Longrightarrow> configured_agents ?cfg = []"
    by (simp add: configured_agents_def agents_by_id_empty filter_empty_conv)
  have ok: "configured_agents ?cfg = [] \<or> agent_for ?cfg a \<in> set (configured_agents ?cfg) \<or>
      agent_for ?cfg a = normalizeAgentId (Some (resolveDefaultAgentId ?cfg))" for a
    using empty agents_by_id_values[of "listAgentEntries ?cfg" "normalizeAgentId (Some (js_trim a))"]
    by (auto simp: agent_for_def Let_def sanitizeAgentId_def configured_agents_def split: option.splits)
  have "\<exists>a. routeAgentId (route_of ?cfg (route_request_of input)) = agent_for ?cfg a"
    by (auto simp: route_of_def route_for_def Let_def split: option.split)
  then show ?thesis using ok by (metis fresh_route)
qed

end
