(* ===== verification/Reply_Runs.thy ===== *)
theory Reply_Runs
  imports Contracts
begin

text \<open>
  \<open>src/auto-reply/reply/reply-run-registry.ts\<close>: which reply runs are active, under which session
  key and session identifier, and who waits for them. A \<open>ReplyOperation\<close> is an object that
  closes over mutable variables: the operations are a list, an operation's identity is its
  position, and its closure is the record. A backend handle is an opaque number; \<open>cancels\<close> is the
  log of the calls of \<open>cancel\<close>, \<open>queuedTexts\<close> of those of \<open>queueMessage\<close>, and what a handle
  answers is the argument \<open>env\<close>. A waiter is a number too; its promise is an entry of
  \<open>waiterResults\<close>. The diagnostic log is left out.
\<close>

section \<open>State\<close>

datatype cancel_reason = Cancel_user_abort | Cancel_restart | Cancel_superseded

datatype op_phase =
    Ph_queued | Ph_preflight_compacting | Ph_memory_flushing | Ph_running | Ph_completed | Ph_failed | Ph_aborted

datatype failure_code = F_gateway_draining | F_command_lane_cleared | F_session_corruption_reset | F_run_failed

datatype abort_code = A_aborted_by_user | A_aborted_for_restart

datatype op_result = Completed | Failed failure_code "nat option" | Aborted abort_code

datatype abort_reason = Abort_by_user | Abort_for_restart | Abort_upstream

record reply_op =
  opKey :: string
  opSessionId :: string
  opResetTriggered :: bool
  opPhase :: op_phase
  opResult :: "op_result option"
  opStateCleared :: bool
  opSignal :: "abort_reason option"
  opBackend :: "nat option"

record idle_waiter =
  waiterKey :: string
  waiterHasTimer :: bool
  waiterHasSignal :: bool

record reply_runs =
  operations :: "reply_op list"
  activeRunsByKey :: "(string, nat) jmap"
  activeSessionIdsByKey :: "(string, string) jmap"
  activeKeysBySessionId :: "(string, string) jmap"
  waitKeysBySessionId :: "(string, string) jmap"
  waitersByKey :: "(string, nat list) jmap"
  allWaiters :: "idle_waiter list"
  waiterResults :: "(nat \<times> bool) list"
  cancels :: "(nat \<times> cancel_reason) list"
  queuedTexts :: "(nat \<times> string) list"

definition no_runs :: reply_runs where
  "no_runs = \<lparr>operations = [], activeRunsByKey = [], activeSessionIdsByKey = [], activeKeysBySessionId = [],
     waitKeysBySessionId = [], waitersByKey = [], allWaiters = [], waiterResults = [], cancels = [], queuedTexts = []\<rparr>"

text \<open>What a backend handle answers: a method that is not there is \<open>None\<close>.\<close>

record backend_env =
  envStreaming :: "nat \<Rightarrow> bool"
  envCompacting :: "nat \<Rightarrow> bool option"
  envCanQueue :: "nat \<Rightarrow> bool"

section \<open>Clearing\<close>

definition registerWaitSessionId :: "string \<Rightarrow> string \<Rightarrow> reply_runs \<Rightarrow> reply_runs" where
  "registerWaitSessionId sessionKey sessionId st =
     st\<lparr>waitKeysBySessionId := jm_set sessionId sessionKey (waitKeysBySessionId st)\<rparr>"

definition clearWaitSessionIds :: "string \<Rightarrow> reply_runs \<Rightarrow> reply_runs" where
  "clearWaitSessionIds sessionKey st =
     st\<lparr>waitKeysBySessionId := filter (\<lambda>p. snd p \<noteq> sessionKey) (waitKeysBySessionId st)\<rparr>"

text \<open>The set of waiters leaves the map before they are told, so each \<open>finish\<close> only settles its promise.\<close>

definition notifyReplyRunEnded :: "string \<Rightarrow> reply_runs \<Rightarrow> reply_runs" where
  "notifyReplyRunEnded sessionKey st =
     (case jm_get (waitersByKey st) sessionKey of
        None \<Rightarrow> st
      | Some ws \<Rightarrow>
          if ws = [] then st
          else st\<lparr>waitersByKey := jm_del sessionKey (waitersByKey st),
                  waiterResults := waiterResults st @ map (\<lambda>w. (w, True)) ws\<rparr>)"

definition clearReplyRunState :: "string \<Rightarrow> string \<Rightarrow> reply_runs \<Rightarrow> reply_runs" where
  "clearReplyRunState sessionKey sessionId st =
     notifyReplyRunEnded sessionKey (clearWaitSessionIds sessionKey
       (st\<lparr>activeRunsByKey := jm_del sessionKey (activeRunsByKey st),
           activeSessionIdsByKey := jm_del sessionKey (activeSessionIdsByKey st),
           activeKeysBySessionId :=
             (if jm_get (activeKeysBySessionId st) sessionId = Some sessionKey
              then jm_del sessionId (activeKeysBySessionId st) else activeKeysBySessionId st)\<rparr>))"

section \<open>An operation\<close>

definition op_at :: "reply_runs \<Rightarrow> nat \<Rightarrow> reply_op" where
  "op_at st i = operations st ! i"

definition update_op :: "nat \<Rightarrow> (reply_op \<Rightarrow> reply_op) \<Rightarrow> reply_runs \<Rightarrow> reply_runs" where
  "update_op i f st = st\<lparr>operations := (operations st)[i := f (operations st ! i)]\<rparr>"

definition clearState :: "nat \<Rightarrow> reply_runs \<Rightarrow> reply_runs" where
  "clearState i st =
     (let p = op_at st i
      in if opStateCleared p then st
         else clearReplyRunState (opKey p) (opSessionId p) (update_op i (opStateCleared_update (\<lambda>_. True)) st))"

definition abortInternally :: "nat \<Rightarrow> abort_reason \<Rightarrow> reply_runs \<Rightarrow> reply_runs" where
  "abortInternally i reason st =
     (if opSignal (op_at st i) = None then update_op i (opSignal_update (\<lambda>_. Some reason)) st else st)"

definition cancel_backend :: "nat \<Rightarrow> cancel_reason \<Rightarrow> reply_runs \<Rightarrow> reply_runs" where
  "cancel_backend i reason st =
     (case opBackend (op_at st i) of None \<Rightarrow> st | Some h \<Rightarrow> st\<lparr>cancels := cancels st @ [(h, reason)]\<rparr>)"

definition abortWithReason :: "nat \<Rightarrow> cancel_reason \<Rightarrow> abort_reason \<Rightarrow> abort_code \<Rightarrow> reply_runs \<Rightarrow> reply_runs" where
  "abortWithReason i reason abortReason code st =
     cancel_backend i reason
       (abortInternally i abortReason
         (update_op i (\<lambda>p. p\<lparr>opResult := (if opResult p = None then Some (Aborted code) else opResult p),
                            opPhase := Ph_aborted\<rparr>) st))"

definition setPhase :: "nat \<Rightarrow> op_phase \<Rightarrow> reply_runs \<Rightarrow> reply_runs" where
  "setPhase i next st =
     (if opResult (op_at st i) \<noteq> None then st else update_op i (opPhase_update (\<lambda>_. next)) st)"

text \<open>The error is the message; nothing has changed then.\<close>

definition updateSessionId :: "nat \<Rightarrow> string \<Rightarrow> reply_runs \<Rightarrow> (string + unit) \<times> reply_runs" where
  "updateSessionId i nextSessionId st =
     (let p = op_at st i
      in if opResult p \<noteq> None then (Inr (), st)
         else case normalizeOptionalString (Some nextSessionId) of
           None \<Rightarrow> (Inr (), st)
         | Some n \<Rightarrow>
             if n = opSessionId p then (Inr (), st)
             else if jm_has (activeKeysBySessionId st) n \<and> jm_get (activeKeysBySessionId st) n \<noteq> Some (opKey p)
             then (Inl (''Cannot rebind reply operation '' @ opKey p @ '' to active session '' @ n), st)
             else (Inr (),
               (let st1 = registerWaitSessionId (opKey p) (opSessionId p)
                      (st\<lparr>activeKeysBySessionId := jm_del (opSessionId p) (activeKeysBySessionId st)\<rparr>);
                    st2 = update_op i (opSessionId_update (\<lambda>_. n)) st1
                in registerWaitSessionId (opKey p) n
                     (st2\<lparr>activeSessionIdsByKey := jm_set (opKey p) n (activeSessionIdsByKey st2),
                          activeKeysBySessionId := jm_set n (opKey p) (activeKeysBySessionId st2)\<rparr>))))"

definition attachBackend :: "nat \<Rightarrow> nat \<Rightarrow> reply_runs \<Rightarrow> reply_runs" where
  "attachBackend i handle st =
     (case opResult (op_at st i) of
        Some r \<Rightarrow>
          st\<lparr>cancels := cancels st @ [(handle,
             case r of Aborted A_aborted_for_restart \<Rightarrow> Cancel_restart | Aborted A_aborted_by_user \<Rightarrow> Cancel_user_abort
             | _ \<Rightarrow> Cancel_superseded)]\<rparr>
      | None \<Rightarrow>
          (let st1 = update_op i (opBackend_update (\<lambda>_. Some handle)) st
           in if opSignal (op_at st i) \<noteq> None then st1\<lparr>cancels := cancels st1 @ [(handle, Cancel_superseded)]\<rparr> else st1))"

definition detachBackend :: "nat \<Rightarrow> nat \<Rightarrow> reply_runs \<Rightarrow> reply_runs" where
  "detachBackend i handle st =
     (if opBackend (op_at st i) = Some handle then update_op i (opBackend_update (\<lambda>_. None)) st else st)"

definition complete_op :: "nat \<Rightarrow> reply_runs \<Rightarrow> reply_runs" where
  "complete_op i st =
     clearState i (if opResult (op_at st i) = None
                   then update_op i (\<lambda>p. p\<lparr>opResult := Some Completed, opPhase := Ph_completed\<rparr>) st else st)"

definition completeThen :: "nat \<Rightarrow> (reply_runs \<Rightarrow> reply_runs) \<Rightarrow> reply_runs \<Rightarrow> reply_runs" where
  "completeThen i afterClear st = afterClear (complete_op i st)"

definition fail_op :: "nat \<Rightarrow> failure_code \<Rightarrow> nat option \<Rightarrow> reply_runs \<Rightarrow> reply_runs" where
  "fail_op i code cause st =
     clearState i (if opResult (op_at st i) = None
                   then update_op i (\<lambda>p. p\<lparr>opResult := Some (Failed code cause), opPhase := Ph_failed\<rparr>) st else st)"

definition abortByUser :: "nat \<Rightarrow> reply_runs \<Rightarrow> reply_runs" where
  "abortByUser i st =
     (let before = opPhase (op_at st i);
          st1 = abortWithReason i Cancel_user_abort Abort_by_user A_aborted_by_user st
      in if before = Ph_queued then clearState i st1 else st1)"

definition abortForRestart :: "nat \<Rightarrow> reply_runs \<Rightarrow> reply_runs" where
  "abortForRestart i st =
     (let before = opPhase (op_at st i);
          st1 = abortWithReason i Cancel_restart Abort_for_restart A_aborted_for_restart st
      in if before = Ph_queued then clearState i st1 else st1)"

section \<open>Beginning a run\<close>

datatype run_error = MissingSessionKey | MissingSessionId | AlreadyActive string

text \<open>\<open>upstream\<close> says whether the caller passed a signal that was already aborted.\<close>

definition createReplyOperation ::
  "string \<Rightarrow> string \<Rightarrow> bool \<Rightarrow> bool \<Rightarrow> reply_runs \<Rightarrow> (run_error + nat) \<times> reply_runs" where
  "createReplyOperation rawKey rawSessionId resetTriggered upstreamAborted st =
     (case normalizeOptionalString (Some rawKey) of
        None \<Rightarrow> (Inl MissingSessionKey, st)
      | Some sessionKey \<Rightarrow>
          (case normalizeOptionalString (Some rawSessionId) of
             None \<Rightarrow> (Inl MissingSessionId, st)
           | Some sessionId \<Rightarrow>
               if jm_has (activeRunsByKey st) sessionKey then (Inl (AlreadyActive sessionKey), st)
               else
                 (let i = length (operations st);
                      p = \<lparr>opKey = sessionKey, opSessionId = sessionId, opResetTriggered = resetTriggered,
                           opPhase = Ph_queued, opResult = None, opStateCleared = False,
                           opSignal = (if upstreamAborted then Some Abort_upstream else None), opBackend = None\<rparr>
                  in (Inr i, registerWaitSessionId sessionKey sessionId
                       (st\<lparr>operations := operations st @ [p],
                           activeRunsByKey := jm_set sessionKey i (activeRunsByKey st),
                           activeSessionIdsByKey := jm_set sessionKey sessionId (activeSessionIdsByKey st),
                           activeKeysBySessionId := jm_set sessionId sessionKey (activeKeysBySessionId st)\<rparr>)))))"

section \<open>The registry\<close>

definition get_run :: "string \<Rightarrow> reply_runs \<Rightarrow> nat option" where
  "get_run sessionKey st =
     Option.bind (normalizeOptionalString (Some sessionKey)) (\<lambda>k. jm_get (activeRunsByKey st) k)"

definition isActiveRun :: "string \<Rightarrow> reply_runs \<Rightarrow> bool" where
  "isActiveRun sessionKey st =
     (case normalizeOptionalString (Some sessionKey) of None \<Rightarrow> False | Some k \<Rightarrow> jm_has (activeRunsByKey st) k)"

definition backend_streams :: "backend_env \<Rightarrow> reply_op \<Rightarrow> bool" where
  "backend_streams env p = (case opBackend p of None \<Rightarrow> False | Some h \<Rightarrow> envStreaming env h)"

definition isStreamingRun :: "backend_env \<Rightarrow> string \<Rightarrow> reply_runs \<Rightarrow> bool" where
  "isStreamingRun env sessionKey st =
     (case get_run sessionKey st of
        None \<Rightarrow> False
      | Some i \<Rightarrow> opPhase (op_at st i) = Ph_running \<and> backend_streams env (op_at st i))"

definition abortRun :: "string \<Rightarrow> reply_runs \<Rightarrow> bool \<times> reply_runs" where
  "abortRun sessionKey st =
     (case get_run sessionKey st of None \<Rightarrow> (False, st) | Some i \<Rightarrow> (True, abortByUser i st))"

text \<open>
  \<open>finish\<close> of a waiter that is not settled yet: its set is the one under its key, because a set
  only leaves the map when its last waiter is settled or all of them are.
\<close>

definition finish_waiter :: "nat \<Rightarrow> bool \<Rightarrow> reply_runs \<Rightarrow> reply_runs" where
  "finish_waiter w ended st =
     (if jm_has (waiterResults st) w then st
      else (let key = waiterKey (allWaiters st ! w);
                ws = removeAll w (js_nullish (jm_get (waitersByKey st) key) [])
            in st\<lparr>waitersByKey := (if ws = [] then jm_del key (waitersByKey st) else jm_set key ws (waitersByKey st)),
                  waiterResults := waiterResults st @ [(w, ended)]\<rparr>))"

datatype idle_wait = IdleNow bool | IdleWaiter nat

datatype signal_state = NoSignal | SignalOpen | SignalAborted

definition waitForIdle :: "string \<Rightarrow> jsnum option \<Rightarrow> signal_state \<Rightarrow> reply_runs \<Rightarrow> idle_wait \<times> reply_runs" where
  "waitForIdle sessionKey timeoutMs signal st =
     (case normalizeOptionalString (Some sessionKey) of
        None \<Rightarrow> (IdleNow True, st)
      | Some k \<Rightarrow>
          if \<not> jm_has (activeRunsByKey st) k then (IdleNow True, st)
          else if signal = SignalAborted then (IdleNow False, st)
          else (let w = length (allWaiters st);
                    waiter = \<lparr>waiterKey = k,
                      waiterHasTimer = (case timeoutMs of None \<Rightarrow> False | Some t \<Rightarrow> js_is_finite t),
                      waiterHasSignal = (signal = SignalOpen)\<rparr>
                in (IdleWaiter w,
                    st\<lparr>allWaiters := allWaiters st @ [waiter],
                       waitersByKey := jm_set k (js_nullish (jm_get (waitersByKey st) k) [] @ [w]) (waitersByKey st)\<rparr>)))"

definition resolveSessionId :: "string \<Rightarrow> reply_runs \<Rightarrow> string option" where
  "resolveSessionId sessionKey st =
     Option.bind (normalizeOptionalString (Some sessionKey)) (\<lambda>k. jm_get (activeSessionIdsByKey st) k)"

section \<open>By session identifier\<close>

definition resolveReplyRunForCurrentSessionId :: "string \<Rightarrow> reply_runs \<Rightarrow> nat option" where
  "resolveReplyRunForCurrentSessionId sessionId st =
     Option.bind (normalizeOptionalString (Some sessionId)) (\<lambda>s.
       Option.bind (jm_get (activeKeysBySessionId st) s) (\<lambda>k.
         if k = [] then None else jm_get (activeRunsByKey st) k))"

definition resolveReplyRunWaitKey :: "string \<Rightarrow> reply_runs \<Rightarrow> string option" where
  "resolveReplyRunWaitKey sessionId st =
     Option.bind (normalizeOptionalString (Some sessionId)) (\<lambda>s.
       case jm_get (activeKeysBySessionId st) s of
         Some k \<Rightarrow> Some k
       | None \<Rightarrow> jm_get (waitKeysBySessionId st) s)"

definition isReplyRunCompacting :: "backend_env \<Rightarrow> reply_op \<Rightarrow> bool" where
  "isReplyRunCompacting env p =
     (if opPhase p = Ph_preflight_compacting \<or> opPhase p = Ph_memory_flushing then True
      else if opPhase p \<noteq> Ph_running then False
      else (case opBackend p of None \<Rightarrow> False | Some h \<Rightarrow> js_nullish (envCompacting env h) False))"

definition isReplyRunActiveForSessionId :: "string \<Rightarrow> reply_runs \<Rightarrow> bool" where
  "isReplyRunActiveForSessionId sessionId st \<longleftrightarrow> resolveReplyRunForCurrentSessionId sessionId st \<noteq> None"

definition isReplyRunStreamingForSessionId :: "backend_env \<Rightarrow> string \<Rightarrow> reply_runs \<Rightarrow> bool" where
  "isReplyRunStreamingForSessionId env sessionId st =
     (case resolveReplyRunForCurrentSessionId sessionId st of
        None \<Rightarrow> False
      | Some i \<Rightarrow> opPhase (op_at st i) = Ph_running \<and> backend_streams env (op_at st i))"

definition queueReplyRunMessage :: "backend_env \<Rightarrow> string \<Rightarrow> string \<Rightarrow> reply_runs \<Rightarrow> bool \<times> reply_runs" where
  "queueReplyRunMessage env sessionId txt st =
     (case resolveReplyRunForCurrentSessionId sessionId st of
        None \<Rightarrow> (False, st)
      | Some i \<Rightarrow>
          (case opBackend (op_at st i) of
             None \<Rightarrow> (False, st)
           | Some h \<Rightarrow>
               if opPhase (op_at st i) \<noteq> Ph_running \<or> \<not> envCanQueue env h then (False, st)
               else if \<not> envStreaming env h then (False, st)
               else (True, st\<lparr>queuedTexts := queuedTexts st @ [(h, txt)]\<rparr>)))"

definition abortReplyRunBySessionId :: "string \<Rightarrow> reply_runs \<Rightarrow> bool \<times> reply_runs" where
  "abortReplyRunBySessionId sessionId st =
     (case resolveReplyRunForCurrentSessionId sessionId st of
        None \<Rightarrow> (False, st) | Some i \<Rightarrow> (True, abortByUser i st))"

definition forceClearReplyRunBySessionId :: "string \<Rightarrow> nat option \<Rightarrow> reply_runs \<Rightarrow> bool \<times> reply_runs" where
  "forceClearReplyRunBySessionId sessionId cause st =
     (case resolveReplyRunForCurrentSessionId sessionId st of
        None \<Rightarrow> (False, st) | Some i \<Rightarrow> (True, fail_op i F_run_failed cause st))"

definition waitForReplyRunEndBySessionId :: "string \<Rightarrow> jsnum \<Rightarrow> reply_runs \<Rightarrow> idle_wait \<times> reply_runs" where
  "waitForReplyRunEndBySessionId sessionId timeoutMs st =
     (case resolveReplyRunWaitKey sessionId st of
        None \<Rightarrow> (IdleNow True, st)
      | Some k \<Rightarrow> if k = [] then (IdleNow True, st) else waitForIdle k (Some timeoutMs) NoSignal st)"

text \<open>
  The loop runs over the live map: an operation that was queued is deleted while it is visited,
  which a map's iterator allows. The keys at the start are the ones visited.
\<close>

definition abort_if :: "backend_env \<Rightarrow> bool \<Rightarrow> nat \<Rightarrow> bool \<times> reply_runs \<Rightarrow> bool \<times> reply_runs" where
  "abort_if env compactingOnly i acc =
     (if compactingOnly \<and> \<not> isReplyRunCompacting env (op_at (snd acc) i) then acc
      else (True, abortForRestart i (snd acc)))"

definition abortActiveReplyRuns :: "backend_env \<Rightarrow> bool \<Rightarrow> reply_runs \<Rightarrow> bool \<times> reply_runs" where
  "abortActiveReplyRuns env compactingOnly st =
     fold (abort_if env compactingOnly) (map snd (activeRunsByKey st)) (False, st)"

definition getActiveReplyRunCount :: "reply_runs \<Rightarrow> nat" where
  "getActiveReplyRunCount st = length (activeRunsByKey st)"

definition listActiveReplyRunSessionIds :: "reply_runs \<Rightarrow> string list" where
  "listActiveReplyRunSessionIds st = map snd (activeSessionIdsByKey st)"

definition listActiveReplyRunSessionKeys :: "reply_runs \<Rightarrow> string list" where
  "listActiveReplyRunSessionKeys st = map fst (activeSessionIdsByKey st)"

end
