(* ===== verification/Reply_Run_Props.thy ===== *)
theory Reply_Run_Props
  imports Reply_Runs
begin

text \<open>
  What the registry of reply runs promises, over every sequence of its operations, of timeouts
  and of aborts of the callers: the tables agree with the operations that are not cleared, a
  key has one run at a time, nobody who waits is forgotten, and a result is written once. The
  tables are one invariant, the waiters another; each operation keeps both.
\<close>

section \<open>Runs of the registry\<close>

datatype run_event =
    Begin string string bool bool
  | SetPhase nat op_phase
  | UpdateSessionId nat string
  | AttachBackend nat nat
  | DetachBackend nat nat
  | CompleteRun nat
  | FailRun nat failure_code "nat option"
  | AbortByUser nat
  | AbortForRestart nat
  | UpstreamAbort nat
  | Queue string string
  | ForceClear string "nat option"
  | AbortActive bool
  | WaitIdle string "jsnum option" signal_state
  | WaitEnd string jsnum
  | WaiterGivesUp nat

text \<open>Only an operation that exists can be called, and only a waiter that exists can give up.\<close>

definition on_op :: "nat \<Rightarrow> (reply_runs \<Rightarrow> reply_runs) \<Rightarrow> reply_runs \<Rightarrow> reply_runs" where
  "on_op i f st = (if i < length (operations st) then f st else st)"

definition waiter_gives_up :: "nat \<Rightarrow> reply_runs \<Rightarrow> reply_runs" where
  "waiter_gives_up w st = (if w < length (allWaiters st) then finish_waiter w False st else st)"

fun apply_run :: "backend_env \<Rightarrow> run_event \<Rightarrow> reply_runs \<Rightarrow> reply_runs" where
  "apply_run env (Begin k s r u) st = snd (createReplyOperation k s r u st)"
| "apply_run env (SetPhase i ph) st = on_op i (setPhase i ph) st"
| "apply_run env (UpdateSessionId i s) st = on_op i (\<lambda>st. snd (updateSessionId i s st)) st"
| "apply_run env (AttachBackend i h) st = on_op i (attachBackend i h) st"
| "apply_run env (DetachBackend i h) st = on_op i (detachBackend i h) st"
| "apply_run env (CompleteRun i) st = on_op i (complete_op i) st"
| "apply_run env (FailRun i c e) st = on_op i (fail_op i c e) st"
| "apply_run env (AbortByUser i) st = on_op i (abortByUser i) st"
| "apply_run env (AbortForRestart i) st = on_op i (abortForRestart i) st"
| "apply_run env (UpstreamAbort i) st = on_op i (abortInternally i Abort_upstream) st"
| "apply_run env (Queue s t) st = snd (queueReplyRunMessage env s t st)"
| "apply_run env (ForceClear s c) st = snd (forceClearReplyRunBySessionId s c st)"
| "apply_run env (AbortActive only) st = snd (abortActiveReplyRuns env only st)"
| "apply_run env (WaitIdle k t sg) st = snd (waitForIdle k t sg st)"
| "apply_run env (WaitEnd s t) st = snd (waitForReplyRunEndBySessionId s t st)"
| "apply_run env (WaiterGivesUp w) st = waiter_gives_up w st"

section \<open>The invariant\<close>

definition live_at :: "reply_runs \<Rightarrow> string \<Rightarrow> nat \<Rightarrow> bool" where
  "live_at st k i \<longleftrightarrow> i < length (operations st) \<and> opKey (op_at st i) = k \<and> \<not> opStateCleared (op_at st i)"

definition keys_ok :: "reply_runs \<Rightarrow> bool" where
  "keys_ok st \<longleftrightarrow> jm_wf (activeRunsByKey st) \<and>
     (\<forall>k i. jm_get (activeRunsByKey st) k = Some i \<longleftrightarrow> live_at st k i)"

definition ids_ok :: "reply_runs \<Rightarrow> bool" where
  "ids_ok st \<longleftrightarrow>
     jm_get (activeSessionIdsByKey st) = (\<lambda>k. map_option (\<lambda>i. opSessionId (op_at st i)) (jm_get (activeRunsByKey st) k))
     \<and> (\<forall>s k. jm_get (activeKeysBySessionId st) s = Some k \<longrightarrow> jm_get (activeSessionIdsByKey st) k = Some s)
     \<and> jm_wf (waitKeysBySessionId st)
     \<and> (\<forall>s k. jm_get (waitKeysBySessionId st) s = Some k \<longrightarrow> jm_get (activeRunsByKey st) k \<noteq> None)"

definition waiting :: "reply_runs \<Rightarrow> nat \<Rightarrow> bool" where
  "waiting st w \<longleftrightarrow> (\<exists>ws. jm_get (waitersByKey st) (waiterKey (allWaiters st ! w)) = Some ws \<and> w \<in> set ws)"

definition waiters_ok :: "reply_runs \<Rightarrow> bool" where
  "waiters_ok st \<longleftrightarrow>
     (\<forall>k ws. jm_get (waitersByKey st) k = Some ws \<longrightarrow>
        ws \<noteq> [] \<and> distinct ws \<and> jm_get (activeRunsByKey st) k \<noteq> None \<and>
        (\<forall>w \<in> set ws. w < length (allWaiters st) \<and> waiterKey (allWaiters st ! w) = k \<and>
           \<not> jm_has (waiterResults st) w))
     \<and> (\<forall>w < length (allWaiters st). jm_has (waiterResults st) w \<or> waiting st w)
     \<and> jm_wf (waiterResults st) \<and> (\<forall>p \<in> set (waiterResults st). fst p < length (allWaiters st))"

definition runs_ok :: "reply_runs \<Rightarrow> bool" where
  "runs_ok st \<longleftrightarrow> keys_ok st \<and> ids_ok st \<and> waiters_ok st"

lemma runs_okI: "keys_ok st \<Longrightarrow> ids_ok st \<Longrightarrow> waiters_ok st \<Longrightarrow> runs_ok st"
  by (simp add: runs_ok_def)

lemma runs_okD: "runs_ok st \<Longrightarrow> keys_ok st" "runs_ok st \<Longrightarrow> ids_ok st" "runs_ok st \<Longrightarrow> waiters_ok st"
  by (simp_all add: runs_ok_def)

lemma no_runs_ok: "runs_ok no_runs"
  by (simp add: runs_ok_def keys_ok_def ids_ok_def waiters_ok_def live_at_def no_runs_def fun_eq_iff)

section \<open>Changes that the tables do not see\<close>

definition op_core :: "reply_op \<Rightarrow> string \<times> string \<times> bool" where
  "op_core p = (opKey p, opSessionId p, opStateCleared p)"

definition op_tables where
  "op_tables st = (map op_core (operations st), activeRunsByKey st, activeSessionIdsByKey st,
     activeKeysBySessionId st, waitKeysBySessionId st)"

definition waiter_tables where
  "waiter_tables st = (waitersByKey st, allWaiters st, waiterResults st)"

lemma op_tables_nth:
  assumes "op_tables st' = op_tables st"
  shows "length (operations st') = length (operations st)"
    and "i < length (operations st) \<Longrightarrow> op_core (op_at st' i) = op_core (op_at st i)"
proof -
  have m: "map op_core (operations st') = map op_core (operations st)"
    using assms by (simp add: op_tables_def)
  then show len: "length (operations st') = length (operations st)" by (rule map_eq_imp_length_eq)
  show "op_core (op_at st' i) = op_core (op_at st i)" if "i < length (operations st)"
    using arg_cong[OF m, of "\<lambda>xs. xs ! i"] that len by (simp add: op_at_def)
qed

lemma live_at_tables:
  assumes "op_tables st' = op_tables st"
  shows "live_at st' k i = live_at st k i"
  using op_tables_nth[OF assms] by (auto simp: live_at_def op_core_def)

lemma keys_ok_tables:
  assumes "op_tables st' = op_tables st" "keys_ok st"
  shows "keys_ok st'"
  using assms(2) live_at_tables[OF assms(1)] assms(1) by (simp add: keys_ok_def op_tables_def)

lemma keys_ok_live: "keys_ok st \<Longrightarrow> jm_get (activeRunsByKey st) k = Some i \<Longrightarrow> live_at st k i"
  by (simp add: keys_ok_def)

lemma keys_ok_active: "keys_ok st \<Longrightarrow> live_at st k i \<Longrightarrow> jm_get (activeRunsByKey st) k = Some i"
  by (simp add: keys_ok_def)

lemma ids_ok_tables:
  assumes t: "op_tables st' = op_tables st" and k: "keys_ok st" and "ids_ok st"
  shows "ids_ok st'"
proof -
  have "map_option (\<lambda>i. opSessionId (op_at st' i)) (jm_get (activeRunsByKey st) k) =
        map_option (\<lambda>i. opSessionId (op_at st i)) (jm_get (activeRunsByKey st) k)" for k
  proof (cases "jm_get (activeRunsByKey st) k")
    case (Some i)
    then have "i < length (operations st)" using keys_ok_live[OF \<open>keys_ok st\<close>] by (simp add: live_at_def)
    then show ?thesis using op_tables_nth(2)[OF t] by (simp add: Some op_core_def)
  qed simp
  then have "(\<lambda>k. map_option (\<lambda>i. opSessionId (op_at st' i)) (jm_get (activeRunsByKey st) k)) =
      (\<lambda>k. map_option (\<lambda>i. opSessionId (op_at st i)) (jm_get (activeRunsByKey st) k))" by simp
  moreover have "activeRunsByKey st' = activeRunsByKey st" "activeSessionIdsByKey st' = activeSessionIdsByKey st"
    "activeKeysBySessionId st' = activeKeysBySessionId st" "waitKeysBySessionId st' = waitKeysBySessionId st"
    using t by (simp_all add: op_tables_def)
  ultimately show ?thesis using assms(3) unfolding ids_ok_def by metis
qed

lemma waiters_ok_tables:
  assumes "waiter_tables st' = waiter_tables st"
    and "\<And>k. jm_get (activeRunsByKey st) k \<noteq> None \<Longrightarrow> jm_get (activeRunsByKey st') k \<noteq> None"
    and "waiters_ok st"
  shows "waiters_ok st'"
proof -
  have eqs: "waitersByKey st' = waitersByKey st" "allWaiters st' = allWaiters st" "waiterResults st' = waiterResults st"
    using assms(1) by (simp_all add: waiter_tables_def)
  have "waiting st' = waiting st" by (simp add: waiting_def eqs fun_eq_iff)
  then show ?thesis using assms(2,3) unfolding waiters_ok_def eqs by metis
qed

lemma runs_ok_tables:
  assumes "op_tables st' = op_tables st" and "waiter_tables st' = waiter_tables st" and "runs_ok st"
  shows "runs_ok st'"
proof (rule runs_okI)
  show "keys_ok st'" using keys_ok_tables assms(1) runs_okD(1)[OF assms(3)] by blast
  show "ids_ok st'" using ids_ok_tables assms(1) runs_okD[OF assms(3)] by blast
  have "activeRunsByKey st' = activeRunsByKey st" using assms(1) by (simp add: op_tables_def)
  then show "waiters_ok st'" using waiters_ok_tables[OF assms(2)] runs_okD(3)[OF assms(3)] by simp
qed

named_theorems inert_simps \<open>operations that leave the tables as they are\<close>

lemma update_op_inert [inert_simps]:
  "(\<And>p. op_core (f p) = op_core p) \<Longrightarrow> op_tables (update_op i f st) = op_tables st"
  "waiter_tables (update_op i f st) = waiter_tables st"
proof -
  assume f: "\<And>p. op_core (f p) = op_core p"
  have "map op_core ((operations st)[i := f (operations st ! i)]) = map op_core (operations st)"
    by (cases "i < length (operations st)") (simp_all add: map_update f list_update_same_conv list_update_beyond)
  then show "op_tables (update_op i f st) = op_tables st" by (simp add: op_tables_def update_op_def)
next
  show "waiter_tables (update_op i f st) = waiter_tables st" by (simp add: waiter_tables_def update_op_def)
qed

lemma log_inert [inert_simps]:
  "op_tables (cancels_update f st) = op_tables st" "waiter_tables (cancels_update f st) = waiter_tables st"
  "op_tables (queuedTexts_update g st) = op_tables st" "waiter_tables (queuedTexts_update g st) = waiter_tables st"
  by (simp_all add: op_tables_def waiter_tables_def)

lemma op_core_updates [simp]:
  "op_core (opPhase_update f p) = op_core p" "op_core (opResult_update g p) = op_core p"
  "op_core (opSignal_update h p) = op_core p" "op_core (opBackend_update b p) = op_core p"
  by (simp_all add: op_core_def)

lemma abortInternally_inert [inert_simps]:
  "op_tables (abortInternally i r st) = op_tables st" "waiter_tables (abortInternally i r st) = waiter_tables st"
  by (simp_all add: abortInternally_def inert_simps)

lemma cancel_backend_inert [inert_simps]:
  "op_tables (cancel_backend i r st) = op_tables st" "waiter_tables (cancel_backend i r st) = waiter_tables st"
  by (simp_all add: cancel_backend_def inert_simps split: option.split)

lemma abortWithReason_inert [inert_simps]:
  "op_tables (abortWithReason i r a c st) = op_tables st" "waiter_tables (abortWithReason i r a c st) = waiter_tables st"
  by (simp_all add: abortWithReason_def inert_simps)

lemma setPhase_inert [inert_simps]:
  "op_tables (setPhase i ph st) = op_tables st" "waiter_tables (setPhase i ph st) = waiter_tables st"
  by (simp_all add: setPhase_def inert_simps)

lemma attachBackend_inert [inert_simps]:
  "op_tables (attachBackend i h st) = op_tables st" "waiter_tables (attachBackend i h st) = waiter_tables st"
  by (simp_all add: attachBackend_def inert_simps Let_def split: option.split)

lemma detachBackend_inert [inert_simps]:
  "op_tables (detachBackend i h st) = op_tables st" "waiter_tables (detachBackend i h st) = waiter_tables st"
  by (simp_all add: detachBackend_def inert_simps)

lemma queue_inert [inert_simps]:
  "op_tables (snd (queueReplyRunMessage env s t st)) = op_tables st"
  "waiter_tables (snd (queueReplyRunMessage env s t st)) = waiter_tables st"
  by (simp_all add: queueReplyRunMessage_def inert_simps split: option.split)

lemma inert_keeps:
  "op_tables (f st) = op_tables st \<Longrightarrow> waiter_tables (f st) = waiter_tables st \<Longrightarrow> runs_ok st \<Longrightarrow> runs_ok (f st)"
  by (rule runs_ok_tables)

section \<open>Clearing\<close>

text \<open>What \<open>clearState\<close> does to the tables when it does something.\<close>

definition cleared :: "nat \<Rightarrow> reply_runs \<Rightarrow> reply_runs" where
  "cleared i st = update_op i (opStateCleared_update (\<lambda>_. True)) st"

lemma op_at_update:
  "i < length (operations st) \<Longrightarrow> op_at (update_op i f st) j = (if j = i then f (op_at st i) else op_at st j)"
  by (simp add: op_at_def update_op_def)

lemma update_op_simps [simp]:
  "length (operations (update_op i f st)) = length (operations st)"
  "activeRunsByKey (update_op i f st) = activeRunsByKey st"
  "activeSessionIdsByKey (update_op i f st) = activeSessionIdsByKey st"
  "activeKeysBySessionId (update_op i f st) = activeKeysBySessionId st"
  "waitKeysBySessionId (update_op i f st) = waitKeysBySessionId st"
  "waitersByKey (update_op i f st) = waitersByKey st"
  "allWaiters (update_op i f st) = allWaiters st"
  "waiterResults (update_op i f st) = waiterResults st"
  by (simp_all add: update_op_def)

lemma notify_ended_fields [simp]:
  "operations (notifyReplyRunEnded k st) = operations st"
  "activeRunsByKey (notifyReplyRunEnded k st) = activeRunsByKey st"
  "activeSessionIdsByKey (notifyReplyRunEnded k st) = activeSessionIdsByKey st"
  "activeKeysBySessionId (notifyReplyRunEnded k st) = activeKeysBySessionId st"
  "waitKeysBySessionId (notifyReplyRunEnded k st) = waitKeysBySessionId st"
  "allWaiters (notifyReplyRunEnded k st) = allWaiters st"
  by (simp_all add: notifyReplyRunEnded_def split: option.split)

lemma op_at_fields: "operations st' = operations st \<Longrightarrow> op_at st' = op_at st"
  by (simp add: op_at_def fun_eq_iff)

lemma clearState_fields:
  assumes "\<not> opStateCleared (op_at st i)"
  defines "k \<equiv> opKey (op_at st i)" and "s \<equiv> opSessionId (op_at st i)"
  shows "operations (clearState i st) = operations (cleared i st)"
    and "activeRunsByKey (clearState i st) = jm_del k (activeRunsByKey st)"
    and "activeSessionIdsByKey (clearState i st) = jm_del k (activeSessionIdsByKey st)"
    and "activeKeysBySessionId (clearState i st) =
      (if jm_get (activeKeysBySessionId st) s = Some k then jm_del s (activeKeysBySessionId st)
       else activeKeysBySessionId st)"
    and "waitKeysBySessionId (clearState i st) = filter (\<lambda>p. snd p \<noteq> k) (waitKeysBySessionId st)"
    and "allWaiters (clearState i st) = allWaiters st"
    and "waitersByKey (clearState i st) = waitersByKey (notifyReplyRunEnded k st)"
    and "waiterResults (clearState i st) = waiterResults (notifyReplyRunEnded k st)"
  using assms(1) unfolding k_def s_def
  by (simp_all add: clearState_def Let_def clearReplyRunState_def clearWaitSessionIds_def cleared_def
      notifyReplyRunEnded_def split: option.split)

lemma clearState_done: "opStateCleared (op_at st i) \<Longrightarrow> clearState i st = st"
  by (simp add: clearState_def)

lemma live_at_cleared:
  assumes "i < length (operations st)" and "operations st' = operations (cleared i st)"
  shows "live_at st' k j \<longleftrightarrow> live_at st k j \<and> j \<noteq> i"
  using assms(1) op_at_fields[OF assms(2)]
  by (auto simp: live_at_def assms(2) cleared_def op_at_update)

lemma keys_ok_clearState:
  assumes i: "i < length (operations st)" and ok: "keys_ok st"
  shows "keys_ok (clearState i st)"
proof (cases "opStateCleared (op_at st i)")
  case False
  let ?k = "opKey (op_at st i)"
  have live: "live_at st ?k i" using i False by (simp add: live_at_def)
  then have act: "jm_get (activeRunsByKey st) ?k = Some i" using ok by (simp add: keys_ok_def)
  show ?thesis
    unfolding keys_ok_def live_at_cleared[OF i clearState_fields(1)[OF False]] clearState_fields(2)[OF False]
  proof (intro conjI allI)
    show "jm_wf (jm_del ?k (activeRunsByKey st))" using ok by (simp add: keys_ok_def)
  next
    fix k j
    show "jm_get (jm_del ?k (activeRunsByKey st)) k = Some j \<longleftrightarrow> live_at st k j \<and> j \<noteq> i"
    proof (cases "k = ?k")
      case True
      then have "live_at st k j \<Longrightarrow> j = i" using keys_ok_active[OF ok] act by fastforce
      then show ?thesis by (auto simp: True store_simps)
    next
      case False
      then have "live_at st k j \<Longrightarrow> j \<noteq> i" by (auto simp: live_at_def)
      then show ?thesis using ok False by (auto simp: keys_ok_def store_simps)
    qed
  qed
qed (simp add: clearState_done ok)

lemma ids_okD:
  assumes "ids_ok st"
  shows "jm_get (activeSessionIdsByKey st) k = map_option (\<lambda>i. opSessionId (op_at st i)) (jm_get (activeRunsByKey st) k)"
    and "jm_get (activeKeysBySessionId st) s = Some k \<Longrightarrow> jm_get (activeSessionIdsByKey st) k = Some s"
    and "jm_wf (waitKeysBySessionId st)"
    and "jm_get (waitKeysBySessionId st) s = Some k \<Longrightarrow> jm_get (activeRunsByKey st) k \<noteq> None"
  using assms unfolding ids_ok_def by (metis, metis, blast, blast)

lemma ids_okI:
  assumes "\<And>k. jm_get (activeSessionIdsByKey st) k = map_option (\<lambda>i. opSessionId (op_at st i)) (jm_get (activeRunsByKey st) k)"
    and "\<And>s k. jm_get (activeKeysBySessionId st) s = Some k \<Longrightarrow> jm_get (activeSessionIdsByKey st) k = Some s"
    and "jm_wf (waitKeysBySessionId st)"
    and "\<And>s k. jm_get (waitKeysBySessionId st) s = Some k \<Longrightarrow> jm_get (activeRunsByKey st) k \<noteq> None"
  shows "ids_ok st"
  unfolding ids_ok_def using assms by blast

lemma ids_ok_clearState:
  assumes i: "i < length (operations st)" and keys: "keys_ok st" and ok: "ids_ok st"
  shows "ids_ok (clearState i st)"
proof (cases "opStateCleared (op_at st i)")
  case False
  note f = clearState_fields[OF False]
  let ?k = "opKey (op_at st i)" and ?s = "opSessionId (op_at st i)"
  have act: "jm_get (activeRunsByKey st) ?k = Some i"
    using i False keys by (simp add: keys_ok_def live_at_def)
  have sid: "jm_get (activeSessionIdsByKey st) ?k = Some ?s" using ids_okD(1)[OF ok] act by simp
  have at: "opSessionId (op_at (clearState i st) j) = opSessionId (op_at st j)" for j
    using op_at_fields[OF f(1)] i by (simp add: cleared_def op_at_update)
  show ?thesis
  proof (rule ids_okI)
    fix k
    show "jm_get (activeSessionIdsByKey (clearState i st)) k =
        map_option (\<lambda>j. opSessionId (op_at (clearState i st) j)) (jm_get (activeRunsByKey (clearState i st)) k)"
      using ids_okD(1)[OF ok, of k] by (simp add: f(2,3) store_simps at)
  next
    fix s k
    assume "jm_get (activeKeysBySessionId (clearState i st)) s = Some k"
    then have g: "jm_get (activeKeysBySessionId st) s = Some k" and "\<not> (k = ?k \<and> s = ?s)"
      by (auto simp: f(4) store_simps split: if_splits)
    moreover have "jm_get (activeSessionIdsByKey st) k = Some s" using ids_okD(2)[OF ok g] .
    ultimately show "jm_get (activeSessionIdsByKey (clearState i st)) k = Some s"
      using sid by (auto simp: f(3) store_simps)
  next
    show "jm_wf (waitKeysBySessionId (clearState i st))" using ids_okD(3)[OF ok] by (simp add: f(5))
  next
    fix s k
    assume "jm_get (waitKeysBySessionId (clearState i st)) s = Some k"
    then have "jm_get (waitKeysBySessionId st) s = Some k" "k \<noteq> ?k"
      by (auto simp: f(5) jm_get_filter[OF ids_okD(3)[OF ok]] split: option.splits if_splits)
    then show "jm_get (activeRunsByKey (clearState i st)) k \<noteq> None"
      using ids_okD(4)[OF ok] by (simp add: f(2) store_simps)
  qed
qed (simp add: clearState_done ok)

section \<open>Waiters\<close>

lemma waiters_okD:
  assumes "waiters_ok st"
  shows "jm_get (waitersByKey st) k = Some ws \<Longrightarrow> ws \<noteq> []"
    and "jm_get (waitersByKey st) k = Some ws \<Longrightarrow> distinct ws"
    and "jm_get (waitersByKey st) k = Some ws \<Longrightarrow> jm_get (activeRunsByKey st) k \<noteq> None"
    and "jm_get (waitersByKey st) k = Some ws \<Longrightarrow> w \<in> set ws \<Longrightarrow> w < length (allWaiters st)"
    and "jm_get (waitersByKey st) k = Some ws \<Longrightarrow> w \<in> set ws \<Longrightarrow> waiterKey (allWaiters st ! w) = k"
    and "jm_get (waitersByKey st) k = Some ws \<Longrightarrow> w \<in> set ws \<Longrightarrow> \<not> jm_has (waiterResults st) w"
    and "w < length (allWaiters st) \<Longrightarrow> \<not> jm_has (waiterResults st) w \<Longrightarrow> waiting st w"
    and "jm_wf (waiterResults st)"
    and "jm_has (waiterResults st) w \<Longrightarrow> w < length (allWaiters st)"
  using assms unfolding waiters_ok_def jm_has_def by (blast | auto)+

lemma waiters_okI:
  assumes "\<And>k ws. jm_get (waitersByKey st) k = Some ws \<Longrightarrow>
        ws \<noteq> [] \<and> distinct ws \<and> jm_get (activeRunsByKey st) k \<noteq> None"
    and "\<And>k ws w. jm_get (waitersByKey st) k = Some ws \<Longrightarrow> w \<in> set ws \<Longrightarrow>
        w < length (allWaiters st) \<and> waiterKey (allWaiters st ! w) = k \<and> \<not> jm_has (waiterResults st) w"
    and "\<And>w. w < length (allWaiters st) \<Longrightarrow> \<not> jm_has (waiterResults st) w \<Longrightarrow> waiting st w"
    and "jm_wf (waiterResults st)"
    and "\<And>w. jm_has (waiterResults st) w \<Longrightarrow> w < length (allWaiters st)"
  shows "waiters_ok st"
  unfolding waiters_ok_def using assms unfolding jm_has_def by blast

text \<open>
  Telling the waiters of a key: its set leaves the map and each of them is settled, so that no
  waiter is left behind when the run of the key is taken away.
\<close>

lemma notify_ended_waiters:
  assumes ok: "waiters_ok st" and ws: "jm_get (waitersByKey st) k = Some ws"
  shows "waitersByKey (notifyReplyRunEnded k st) = jm_del k (waitersByKey st)"
    and "waiterResults (notifyReplyRunEnded k st) = waiterResults st @ map (\<lambda>w. (w, True)) ws"
  using waiters_okD(1)[OF ok ws] by (simp_all add: notifyReplyRunEnded_def ws)

lemma notify_none: "jm_get (waitersByKey st) k = None \<Longrightarrow> notifyReplyRunEnded k st = st"
  by (simp add: notifyReplyRunEnded_def)

lemma jm_has_append: "jm_has (m @ map (\<lambda>w. (w, r)) ws) w \<longleftrightarrow> jm_has m w \<or> w \<in> set ws"
  by (auto simp: jm_has_def image_Un image_image)

lemma jm_wf_settle:
  assumes "jm_wf m" "distinct ws" "\<And>w. w \<in> set ws \<Longrightarrow> \<not> jm_has m w"
  shows "jm_wf (m @ map (\<lambda>w. (w, r)) ws)"
  using assms by (auto simp: jm_wf_def jm_has_def comp_def)

lemma waiters_ok_without_run:
  assumes ok: "waiters_ok st"
    and st': "allWaiters st' = allWaiters st" "waitersByKey st' = waitersByKey (notifyReplyRunEnded k st)"
      "waiterResults st' = waiterResults (notifyReplyRunEnded k st)" "activeRunsByKey st' = jm_del k (activeRunsByKey st)"
  shows "waiters_ok st'"
proof (cases "jm_get (waitersByKey st) k")
  case None
  then have eqs: "waitersByKey st' = waitersByKey st" "waiterResults st' = waiterResults st"
    using st'(2,3) by (simp_all add: notify_none)
  have "waiting st' w = waiting st w" for w by (simp add: waiting_def eqs st'(1))
  moreover have "jm_get (waitersByKey st) k' = Some ws \<Longrightarrow> k' \<noteq> k" for k' ws using None by auto
  ultimately show ?thesis
    using waiters_okD[OF ok] by (intro waiters_okI) (auto simp: eqs st'(1,4) store_simps)
next
  case (Some gone)
  note eqs = st'(1) st'(2,3)[unfolded notify_ended_waiters[OF ok Some]]
  note D = waiters_okD[OF ok]
  show ?thesis
  proof (rule waiters_okI)
    fix k' ws
    assume "jm_get (waitersByKey st') k' = Some ws"
    then have g: "jm_get (waitersByKey st) k' = Some ws" and ne: "k' \<noteq> k"
      by (auto simp: eqs store_simps split: if_splits)
    show "ws \<noteq> [] \<and> distinct ws \<and> jm_get (activeRunsByKey st') k' \<noteq> None"
      using D(1,2,3)[OF g] ne by (simp add: st'(4) store_simps)
    fix w
    assume w: "w \<in> set ws"
    have "w \<notin> set gone" using D(5)[OF g w] D(5)[OF Some] ne by blast
    then show "w < length (allWaiters st') \<and> waiterKey (allWaiters st' ! w) = k' \<and> \<not> jm_has (waiterResults st') w"
      using D(4,5,6)[OF g w] by (simp add: eqs jm_has_append)
  next
    fix w
    assume w: "w < length (allWaiters st')" and new: "\<not> jm_has (waiterResults st') w"
    then have "waiting st w" and out: "w \<notin> set gone" using D(7) by (simp_all add: eqs jm_has_append)
    then show "waiting st' w"
      using Some by (auto simp: waiting_def eqs store_simps)
  next
    show "jm_wf (waiterResults st')"
      unfolding eqs using D(6)[OF Some] by (intro jm_wf_settle D(8) D(2)[OF Some])
  next
    fix w
    assume "jm_has (waiterResults st') w"
    then show "w < length (allWaiters st')" using D(4)[OF Some] D(9) by (auto simp: eqs jm_has_append)
  qed
qed

lemma runs_ok_clearState:
  assumes i: "i < length (operations st)" and ok: "runs_ok st"
  shows "runs_ok (clearState i st)"
proof (rule runs_okI)
  note oks = runs_okD[OF ok]
  show "keys_ok (clearState i st)" using keys_ok_clearState[OF i oks(1)] .
  show "ids_ok (clearState i st)" using ids_ok_clearState[OF i oks(1,2)] .
  show "waiters_ok (clearState i st)"
  proof (cases "opStateCleared (op_at st i)")
    case False
    note f = clearState_fields[OF False]
    show ?thesis by (rule waiters_ok_without_run[OF oks(3) f(6,7,8,2)])
  qed (simp add: clearState_done oks(3))
qed

lemma runs_ok_finish:
  assumes ok: "runs_ok st" and w: "w < length (allWaiters st)"
  shows "runs_ok (finish_waiter w r st)"
proof (cases "jm_has (waiterResults st) w")
  case True
  then show ?thesis using ok by (simp add: finish_waiter_def)
next
  case False
  note D = waiters_okD[OF runs_okD(3)[OF ok]]
  let ?k = "waiterKey (allWaiters st ! w)" and ?st = "finish_waiter w r st"
  obtain ws where ws: "jm_get (waitersByKey st) ?k = Some ws" "w \<in> set ws"
    using D(7)[OF w False] by (auto simp: waiting_def)
  let ?ws = "removeAll w ws"
  have ops: "operations ?st = operations st" and tabs: "op_tables ?st = op_tables st"
    and all: "allWaiters ?st = allWaiters st" and act: "activeRunsByKey ?st = activeRunsByKey st"
    and res: "waiterResults ?st = waiterResults st @ map (\<lambda>w. (w, r)) [w]"
    and byk: "waitersByKey ?st = (if ?ws = [] then jm_del ?k (waitersByKey st) else jm_set ?k ?ws (waitersByKey st))"
    using False by (simp_all add: finish_waiter_def Let_def ws(1) op_tables_def)
  have get: "jm_get (waitersByKey ?st) k =
      (if k = ?k then (if ?ws = [] then None else Some ?ws) else jm_get (waitersByKey st) k)" for k
    by (simp add: byk store_simps)
  have "waiters_ok ?st"
  proof (rule waiters_okI)
    fix k vs
    assume g: "jm_get (waitersByKey ?st) k = Some vs"
    then have sub: "set vs \<subseteq> set (js_nullish (jm_get (waitersByKey st) k) [])" and ne: "vs \<noteq> []"
      and "distinct vs" and "jm_get (waitersByKey st) k \<noteq> None" and out: "w \<notin> set vs \<or> k \<noteq> ?k"
      using D(1,2) ws(1) by (auto simp: get distinct_removeAll split: if_splits)
    then show "vs \<noteq> [] \<and> distinct vs \<and> jm_get (activeRunsByKey ?st) k \<noteq> None"
      using D(3) by (auto simp: act)
    fix v
    assume v: "v \<in> set vs"
    obtain us where us: "jm_get (waitersByKey st) k = Some us" using \<open>jm_get (waitersByKey st) k \<noteq> None\<close> by blast
    have vin: "v \<in> set us" using sub v us by auto
    have "v \<noteq> w" using out v D(5)[OF us vin] by auto
    then show "v < length (allWaiters ?st) \<and> waiterKey (allWaiters ?st ! v) = k \<and> \<not> jm_has (waiterResults ?st) v"
      using D(4,5,6)[OF us vin] by (simp add: all res jm_has_append del: list.map)
  next
    fix v
    assume "v < length (allWaiters ?st)" and "\<not> jm_has (waiterResults ?st) v"
    then have "waiting st v" and "v \<noteq> w" using D(7) by (simp_all add: all res jm_has_append del: list.map)
    moreover have "x \<in> set ws \<Longrightarrow> x \<noteq> w \<Longrightarrow> ?ws \<noteq> []" for x
      by (metis DiffI empty_iff empty_set set_removeAll singletonD)
    ultimately show "waiting ?st v" using ws(1) by (auto simp: waiting_def all get)
  next
    show "jm_wf (waiterResults ?st)" unfolding res using False by (intro jm_wf_settle D(8)) auto
  next
    fix v
    assume "jm_has (waiterResults ?st) v"
    then show "v < length (allWaiters ?st)" using D(9) w by (auto simp: all res jm_has_append simp del: list.map)
  qed
  moreover have "keys_ok ?st" "ids_ok ?st"
    using keys_ok_tables[OF tabs] ids_ok_tables[OF tabs] runs_okD[OF ok] by blast+
  ultimately show ?thesis by (intro runs_okI)
qed

lemma finish_waiter_tables:
  "operations (finish_waiter w r st) = operations st"
  by (simp add: finish_waiter_def Let_def)

lemma jm_wf_snoc_waiter: "jm_get (waitersByKey st) k = None \<Longrightarrow> waiting st w \<Longrightarrow> waiterKey (allWaiters st ! w) \<noteq> k"
  by (auto simp: waiting_def)

lemma runs_ok_waitForIdle:
  assumes ok: "runs_ok st"
  shows "runs_ok (snd (waitForIdle k t sg st))"
proof (cases "\<exists>w. fst (waitForIdle k t sg st) = IdleWaiter w")
  case False
  then have "snd (waitForIdle k t sg st) = st"
    by (auto simp: waitForIdle_def Let_def split: option.splits if_splits)
  then show ?thesis using ok by simp
next
  case True
  then obtain key where key: "jm_get (activeRunsByKey st) key \<noteq> None"
    and st': "snd (waitForIdle k t sg st) =
      st\<lparr>allWaiters := allWaiters st @ [\<lparr>waiterKey = key,
            waiterHasTimer = (case t of None \<Rightarrow> False | Some t \<Rightarrow> js_is_finite t), waiterHasSignal = (sg = SignalOpen)\<rparr>],
         waitersByKey := jm_set key (js_nullish (jm_get (waitersByKey st) key) [] @ [length (allWaiters st)])
            (waitersByKey st)\<rparr>" (is "_ = ?st")
    by (auto simp: waitForIdle_def Let_def jm_has_get split: option.splits if_splits)
  note D = waiters_okD[OF runs_okD(3)[OF ok]]
  let ?old = "js_nullish (jm_get (waitersByKey st) key) []"
  have old: "w \<in> set ?old \<Longrightarrow> jm_get (waitersByKey st) key = Some ?old" for w
    by (cases "jm_get (waitersByKey st) key") auto
  have "waiters_ok ?st"
  proof (rule waiters_okI)
    fix k' ws
    assume g: "jm_get (waitersByKey ?st) k' = Some ws"
    have "distinct ?old" using D(2) by (cases "jm_get (waitersByKey st) key") auto
    moreover have "length (allWaiters st) \<notin> set ?old" using D(4)[OF old] by blast
    ultimately show "ws \<noteq> [] \<and> distinct ws \<and> jm_get (activeRunsByKey ?st) k' \<noteq> None"
      using g D(1,2,3)[of k' ws] key by (auto simp: store_simps split: if_splits)
    fix w
    assume w: "w \<in> set ws"
    consider "w = length (allWaiters st)" "k' = key" | us where "jm_get (waitersByKey st) k' = Some us" "w \<in> set us"
      using g w old by (fastforce simp: store_simps split: if_splits)
    then show "w < length (allWaiters ?st) \<and> waiterKey (allWaiters ?st ! w) = k' \<and> \<not> jm_has (waiterResults ?st) w"
    proof cases
      case 1
      then show ?thesis using D(9)[of w] by auto
    next
      case 2
      then show ?thesis using D(4,5,6)[OF 2] by (simp add: nth_append)
    qed
  next
    fix w
    assume w: "w < length (allWaiters ?st)" and new: "\<not> jm_has (waiterResults ?st) w"
    show "waiting ?st w"
    proof (cases "w = length (allWaiters st)")
      case True
      then show ?thesis by (simp add: waiting_def store_simps)
    next
      case False
      then have "w < length (allWaiters st)" using w by simp
      then have "waiting st w" using D(7) new by simp
      then show ?thesis using \<open>w < length (allWaiters st)\<close>
        by (auto simp: waiting_def store_simps nth_append)
    qed
  next
    show "jm_wf (waiterResults ?st)" using D(8) by simp
  next
    fix w
    assume "jm_has (waiterResults ?st) w"
    then show "w < length (allWaiters ?st)" using D(9)[of w] by simp
  qed
  moreover have "op_tables ?st = op_tables st" by (simp add: op_tables_def)
  then have "keys_ok ?st" "ids_ok ?st"
    using keys_ok_tables ids_ok_tables runs_okD[OF ok] by blast+
  ultimately show ?thesis unfolding st' by (intro runs_okI)
qed

section \<open>Beginning a run and changing its session\<close>

lemma create_cases:
  obtains e where "createReplyOperation rk rs r u st = (Inl e, st)"
  | k s p where "jm_get (activeRunsByKey st) k = None" "opKey p = k" "opSessionId p = s" "\<not> opStateCleared p"
    "createReplyOperation rk rs r u st = (Inr (length (operations st)),
       registerWaitSessionId k s
         (st\<lparr>operations := operations st @ [p], activeRunsByKey := jm_set k (length (operations st)) (activeRunsByKey st),
             activeSessionIdsByKey := jm_set k s (activeSessionIdsByKey st),
             activeKeysBySessionId := jm_set s k (activeKeysBySessionId st)\<rparr>))"
proof (cases "\<exists>e. createReplyOperation rk rs r u st = (Inl e, st)")
  case False
  obtain k where k: "normalizeOptionalString (Some rk) = Some k"
    using False by (cases "normalizeOptionalString (Some rk)") (auto simp: createReplyOperation_def)
  obtain s where s: "normalizeOptionalString (Some rs) = Some s"
    using False k by (cases "normalizeOptionalString (Some rs)") (auto simp: createReplyOperation_def)
  have free: "\<not> jm_has (activeRunsByKey st) k" using False k s by (auto simp: createReplyOperation_def)
  show thesis
    by (rule that(2)) (use free in \<open>auto simp: createReplyOperation_def k s Let_def jm_has_get\<close>)
qed (use that(1) in blast)

lemma runs_ok_create:
  assumes ok: "runs_ok st"
  shows "runs_ok (snd (createReplyOperation rk rs r u st))"
proof (cases rule: create_cases[of rk rs r u st])
  case (1 e)
  then show ?thesis using ok by simp
next
  case (2 k s p)
  let ?i = "length (operations st)"
  let ?st = "snd (createReplyOperation rk rs r u st)"
  note oks = runs_okD[OF ok]
  have f: "operations ?st = operations st @ [p]" "activeRunsByKey ?st = jm_set k ?i (activeRunsByKey st)"
    "activeSessionIdsByKey ?st = jm_set k s (activeSessionIdsByKey st)"
    "activeKeysBySessionId ?st = jm_set s k (activeKeysBySessionId st)"
    "waitKeysBySessionId ?st = jm_set s k (waitKeysBySessionId st)" "waiter_tables ?st = waiter_tables st"
    unfolding 2(5) by (simp_all add: registerWaitSessionId_def waiter_tables_def)
  have at: "op_at ?st j = (if j < ?i then op_at st j else [p] ! (j - ?i))" for j
    by (simp add: op_at_def f(1) nth_append)
  have none: "\<not> live_at st k j" for j using oks(1) 2(1) unfolding keys_ok_def by (metis option.distinct(1))
  have "keys_ok ?st"
    unfolding keys_ok_def
  proof (intro conjI allI)
    show "jm_wf (activeRunsByKey ?st)" using oks(1) by (simp add: keys_ok_def f(2))
  next
    fix k' j
    have "live_at ?st k' j \<longleftrightarrow> live_at st k' j \<or> j = ?i \<and> k' = k"
      using 2(2,4) by (auto simp: live_at_def f(1) at less_Suc_eq)
    then show "jm_get (activeRunsByKey ?st) k' = Some j \<longleftrightarrow> live_at ?st k' j"
      using oks(1) none by (auto simp: keys_ok_def f(2) store_simps live_at_def)
  qed
  moreover have "ids_ok ?st"
  proof (rule ids_okI)
    fix k'
    have lt: "jm_get (activeRunsByKey st) k' = Some j \<Longrightarrow> j < ?i" for j
      using oks(1) by (simp add: keys_ok_def live_at_def)
    show "jm_get (activeSessionIdsByKey ?st) k' =
        map_option (\<lambda>j. opSessionId (op_at ?st j)) (jm_get (activeRunsByKey ?st) k')"
      using ids_okD(1)[OF oks(2), of k'] 2(3) lt
      by (cases "jm_get (activeRunsByKey st) k'") (auto simp: f(2,3) store_simps at)
  next
    fix s' k'
    assume "jm_get (activeKeysBySessionId ?st) s' = Some k'"
    moreover have "jm_get (activeSessionIdsByKey st) k = None" using ids_okD(1)[OF oks(2)] 2(1) by simp
    ultimately show "jm_get (activeSessionIdsByKey ?st) k' = Some s'"
      using ids_okD(2)[OF oks(2), of s' k'] by (auto simp: f(3,4) store_simps split: if_splits)
  next
    show "jm_wf (waitKeysBySessionId ?st)" using ids_okD(3)[OF oks(2)] by (simp add: f(5))
  next
    fix s' k'
    assume "jm_get (waitKeysBySessionId ?st) s' = Some k'"
    then show "jm_get (activeRunsByKey ?st) k' \<noteq> None"
      using ids_okD(4)[OF oks(2), of s' k'] by (auto simp: f(2,5) store_simps split: if_splits)
  qed
  moreover have "waiters_ok ?st"
    by (rule waiters_ok_tables[OF f(6) _ oks(3)]) (simp add: f(2) store_simps)
  ultimately show ?thesis by (intro runs_okI)
qed

section \<open>How an operation changes\<close>

text \<open>
  A result stays, a key stays, and only an operation that has a result is cleared. \<open>evolves\<close> is
  reflexive and transitive, so it goes through whole handlers.
\<close>

definition op_step :: "reply_op \<Rightarrow> reply_op \<Rightarrow> bool" where
  "op_step p q \<longleftrightarrow> opKey q = opKey p \<and> (opResult p \<noteq> None \<longrightarrow> opResult q = opResult p) \<and>
     (opStateCleared p \<longrightarrow> opStateCleared q) \<and> (opStateCleared q \<longrightarrow> opStateCleared p \<or> opResult q \<noteq> None)"

definition evolves :: "reply_runs \<Rightarrow> reply_runs \<Rightarrow> bool" where
  "evolves st st' \<longleftrightarrow> length (operations st) \<le> length (operations st') \<and>
     (\<forall>i < length (operations st). op_step (op_at st i) (op_at st' i)) \<and>
     (\<forall>i < length (operations st'). length (operations st) \<le> i \<longrightarrow> \<not> opStateCleared (op_at st' i))"

definition results_ok :: "reply_runs \<Rightarrow> bool" where
  "results_ok st \<longleftrightarrow> (\<forall>i < length (operations st). opStateCleared (op_at st i) \<longrightarrow> opResult (op_at st i) \<noteq> None)"

named_theorems evolve_intros \<open>handlers that only let operations evolve\<close>

lemma op_step_refl [simp]: "op_step p p"
  by (simp add: op_step_def)

lemma op_step_trans: "op_step p q \<Longrightarrow> op_step q r \<Longrightarrow> op_step p r"
  by (auto simp: op_step_def)

lemma evolves_same: "operations st' = operations st \<Longrightarrow> evolves st st'"
  by (simp add: evolves_def op_at_def)

lemma evolves_refl [simp]: "evolves st st"
  by (simp add: evolves_same)

lemma evolves_trans:
  assumes a: "evolves st st'" and b: "evolves st' st''" and len: "length (operations st') = length (operations st)"
  shows "evolves st st''"
  unfolding evolves_def
proof (intro conjI allI impI)
  show "length (operations st) \<le> length (operations st'')" using b len by (simp add: evolves_def)
next
  fix i
  assume i: "i < length (operations st)"
  then have "op_step (op_at st i) (op_at st' i)" "op_step (op_at st' i) (op_at st'' i)"
    using a b len by (simp_all add: evolves_def)
  then show "op_step (op_at st i) (op_at st'' i)" by (rule op_step_trans)
next
  fix i
  assume "i < length (operations st'')" "length (operations st) \<le> i"
  then show "\<not> opStateCleared (op_at st'' i)" using b len by (simp add: evolves_def)
qed

lemma evolves_update:
  "(i < length (operations st) \<Longrightarrow> op_step (op_at st i) (f (op_at st i))) \<Longrightarrow> evolves st (update_op i f st)"
  by (cases "i < length (operations st)")
    (auto simp: evolves_def op_at_update, simp add: op_at_def update_op_def list_update_beyond)

lemma results_ok_evolves: "results_ok st \<Longrightarrow> evolves st st' \<Longrightarrow> results_ok st'"
  unfolding results_ok_def evolves_def op_step_def by (metis not_le)

lemma length_abortInternally [simp]: "length (operations (abortInternally i r st)) = length (operations st)"
  by (simp add: abortInternally_def)

lemma operations_cancel_backend [simp]: "operations (cancel_backend i r st) = operations st"
  by (simp add: cancel_backend_def split: option.split)

lemma length_abortWithReason [simp]: "length (operations (abortWithReason i r a c st)) = length (operations st)"
  by (simp add: abortWithReason_def)

lemma length_clearState [simp]: "length (operations (clearState i st)) = length (operations st)"
  by (cases "opStateCleared (op_at st i)") (simp_all add: clearState_done clearState_fields(1) cleared_def)

lemma abortInternally_evolves [evolve_intros]: "evolves st (abortInternally i r st)"
  by (auto simp: abortInternally_def op_step_def intro!: evolves_update)

lemma abortWithReason_evolves [evolve_intros]: "evolves st (abortWithReason i r a c st)"
proof -
  let ?f = "\<lambda>p. p\<lparr>opResult := (if opResult p = None then Some (Aborted c) else opResult p), opPhase := Ph_aborted\<rparr>"
  have "evolves st (update_op i ?f st)" by (rule evolves_update) (simp add: op_step_def)
  moreover have "evolves (update_op i ?f st) (abortWithReason i r a c st)"
    by (rule evolves_trans[OF abortInternally_evolves[of _ i a] evolves_same])
       (simp_all add: abortWithReason_def)
  ultimately show ?thesis by (rule evolves_trans) simp
qed

lemma opResult_abortWithReason:
  "i < length (operations st) \<Longrightarrow> opResult (op_at (abortWithReason i r a c st) i) \<noteq> None"
  by (simp add: abortWithReason_def abortInternally_def op_at_fields[OF operations_cancel_backend] op_at_update)

lemma clearState_evolves:
  assumes "i < length (operations st)" "opResult (op_at st i) \<noteq> None"
  shows "evolves st (clearState i st)"
proof (cases "opStateCleared (op_at st i)")
  case False
  have "evolves st (cleared i st)"
    unfolding cleared_def by (rule evolves_update) (use assms(2) in \<open>simp add: op_step_def\<close>)
  then show ?thesis
    using evolves_same[OF clearState_fields(1)[OF False]] by (rule evolves_trans) (simp add: cleared_def)
qed (simp add: clearState_done)

lemma complete_evolves [evolve_intros]: "i < length (operations st) \<Longrightarrow> evolves st (complete_op i st)"
  unfolding complete_op_def
  by (rule evolves_trans[OF _ clearState_evolves]) (auto simp: op_step_def op_at_update intro!: evolves_update)

lemma fail_evolves [evolve_intros]: "i < length (operations st) \<Longrightarrow> evolves st (fail_op i c e st)"
  unfolding fail_op_def
  by (rule evolves_trans[OF _ clearState_evolves]) (auto simp: op_step_def op_at_update intro!: evolves_update)

lemma abort_evolves [evolve_intros]:
  assumes "i < length (operations st)"
  shows "evolves st (abortByUser i st)" and "evolves st (abortForRestart i st)"
proof -
  have clr: "evolves st (clearState i (abortWithReason i r a c st))" for r a c
    by (rule evolves_trans[OF abortWithReason_evolves clearState_evolves])
       (simp_all add: assms opResult_abortWithReason)
  then have *: "evolves st (if b then clearState i (abortWithReason i r a c st) else abortWithReason i r a c st)" for b r a c
    using abortWithReason_evolves[of st i r a c] by simp
  show "evolves st (abortByUser i st)" "evolves st (abortForRestart i st)"
    using * unfolding abortByUser_def abortForRestart_def Let_def by blast+
qed

lemma length_abort [simp]:
  "length (operations (abortByUser i st)) = length (operations st)"
  "length (operations (abortForRestart i st)) = length (operations st)"
  by (simp_all add: abortByUser_def abortForRestart_def Let_def)

lemma attachBackend_evolves [evolve_intros]: "evolves st (attachBackend i h st)"
proof -
  have up: "evolves st (update_op i (opBackend_update (\<lambda>_. Some h)) st)"
    by (rule evolves_update) (simp add: op_step_def)
  have "evolves (update_op i (opBackend_update (\<lambda>_. Some h)) st) (attachBackend i h st)" if "opResult (op_at st i) = None"
    by (rule evolves_same) (simp add: attachBackend_def Let_def that)
  then show ?thesis
    using evolves_trans[OF up, of "attachBackend i h st"]
    by (cases "opResult (op_at st i)") (simp_all add: attachBackend_def evolves_same)
qed

lemma small_evolves [evolve_intros]:
  "evolves st (setPhase i ph st)" "evolves st (detachBackend i h st)"
  "evolves st (snd (queueReplyRunMessage env s t st))" "evolves st (snd (waitForIdle k t' sg st))"
  "evolves st (finish_waiter w r st)"
  by (auto simp: setPhase_def detachBackend_def queueReplyRunMessage_def waitForIdle_def finish_waiter_def
      Let_def op_step_def intro!: evolves_update intro: evolves_same split: option.splits)

section \<open>The session of a run\<close>

lemma updateSession_cases:
  obtains r where "updateSessionId i nxt st = (r, st)"
  | n where "opResult (op_at st i) = None" "n \<noteq> opSessionId (op_at st i)"
    "jm_get (activeKeysBySessionId st) n = None \<or> jm_get (activeKeysBySessionId st) n = Some (opKey (op_at st i))"
    "snd (updateSessionId i nxt st) = update_op i (opSessionId_update (\<lambda>_. n))
      (st\<lparr>activeSessionIdsByKey := jm_set (opKey (op_at st i)) n (activeSessionIdsByKey st),
          activeKeysBySessionId := jm_set n (opKey (op_at st i))
            (jm_del (opSessionId (op_at st i)) (activeKeysBySessionId st)),
          waitKeysBySessionId := jm_set n (opKey (op_at st i))
            (jm_set (opSessionId (op_at st i)) (opKey (op_at st i)) (waitKeysBySessionId st))\<rparr>)"
proof (cases "\<exists>r. updateSessionId i nxt st = (r, st)")
  case False
  have res: "opResult (op_at st i) = None"
  proof (rule ccontr)
    assume "opResult (op_at st i) \<noteq> None"
    then have "updateSessionId i nxt st = (Inr (), st)" by (simp add: updateSessionId_def Let_def)
    then show False using False by blast
  qed
  have "updateSessionId i nxt st = (Inr (), st)" if "normalizeOptionalString (Some nxt) = None"
    by (simp add: updateSessionId_def Let_def res that)
  then obtain n where n: "normalizeOptionalString (Some nxt) = Some n" using False by (metis option.exhaust)
  have ne: "n \<noteq> opSessionId (op_at st i)"
  proof
    assume "n = opSessionId (op_at st i)"
    then have "updateSessionId i nxt st = (Inr (), st)" by (simp add: updateSessionId_def Let_def res n)
    then show False using False by blast
  qed
  have free: "jm_get (activeKeysBySessionId st) n = None \<or> jm_get (activeKeysBySessionId st) n = Some (opKey (op_at st i))"
  proof (rule ccontr)
    assume "\<not> ?thesis"
    then have "snd (updateSessionId i nxt st) = st"
      by (auto simp: updateSessionId_def Let_def res n ne jm_has_get)
    then show False using False by (metis prod.collapse)
  qed
  show thesis
    by (rule that(2)[OF res ne free])
       (use free in \<open>auto simp: updateSessionId_def Let_def res n ne jm_has_get registerWaitSessionId_def update_op_def\<close>)
qed (use that(1) in blast)

lemma updateSession_evolves [evolve_intros]: "evolves st (snd (updateSessionId i nxt st))"
proof (cases rule: updateSession_cases[of i nxt st])
  case (2 n)
  have "evolves st (update_op i (opSessionId_update (\<lambda>_. n)) st)"
    by (rule evolves_update) (simp add: op_step_def)
  moreover have "operations (snd (updateSessionId i nxt st)) = operations (update_op i (opSessionId_update (\<lambda>_. n)) st)"
    unfolding 2(4) by (simp add: update_op_def)
  ultimately show ?thesis by (meson evolves_same evolves_trans update_op_simps(1))
qed simp

lemma runs_ok_updateSession:
  assumes i: "i < length (operations st)" and ok: "runs_ok st" and res: "results_ok st"
  shows "runs_ok (snd (updateSessionId i nxt st))"
proof (cases rule: updateSession_cases[of i nxt st])
  case (1 r)
  then show ?thesis using ok by simp
next
  case (2 n)
  let ?st = "snd (updateSessionId i nxt st)" and ?k = "opKey (op_at st i)" and ?s = "opSessionId (op_at st i)"
  note oks = runs_okD[OF ok]
  have live: "live_at st ?k i" using res i 2(1) by (auto simp: results_ok_def live_at_def)
  then have act: "jm_get (activeRunsByKey st) ?k = Some i" by (rule keys_ok_active[OF oks(1)])
  have f: "activeRunsByKey ?st = activeRunsByKey st"
    "activeSessionIdsByKey ?st = jm_set ?k n (activeSessionIdsByKey st)"
    "activeKeysBySessionId ?st = jm_set n ?k (jm_del ?s (activeKeysBySessionId st))"
    "waitKeysBySessionId ?st = jm_set n ?k (jm_set ?s ?k (waitKeysBySessionId st))"
    "waiter_tables ?st = waiter_tables st" "length (operations ?st) = length (operations st)"
    unfolding 2(4) by (simp_all add: waiter_tables_def)
  have "operations ?st = operations (update_op i (opSessionId_update (\<lambda>_. n)) st)"
    unfolding 2(4) by (simp add: update_op_def)
  then have at: "op_at ?st j = (if j = i then opSessionId_update (\<lambda>_. n) (op_at st i) else op_at st j)" for j
    using op_at_fields op_at_update[OF i] by metis
  have key_live: "live_at ?st k j = live_at st k j" for k j by (auto simp: live_at_def f(6) at)
  have "keys_ok ?st" using oks(1) by (simp add: keys_ok_def key_live f(1))
  moreover have "ids_ok ?st"
  proof (rule ids_okI)
    fix k
    have other: "jm_get (activeRunsByKey st) k = Some j \<Longrightarrow> k \<noteq> ?k \<Longrightarrow> j \<noteq> i" for j
      using keys_ok_live[OF oks(1)] by (auto simp: live_at_def)
    show "jm_get (activeSessionIdsByKey ?st) k = map_option (\<lambda>j. opSessionId (op_at ?st j)) (jm_get (activeRunsByKey ?st) k)"
      using ids_okD(1)[OF oks(2), of k] other act
      by (cases "jm_get (activeRunsByKey st) k") (auto simp: f(1,2) store_simps at)
  next
    fix s k
    assume "jm_get (activeKeysBySessionId ?st) s = Some k"
    then consider "s = n" "k = ?k" | "s \<noteq> n" "s \<noteq> ?s" "jm_get (activeKeysBySessionId st) s = Some k"
      by (auto simp: f(3) store_simps split: if_splits)
    then show "jm_get (activeSessionIdsByKey ?st) k = Some s"
    proof cases
      case 2
      have "jm_get (activeSessionIdsByKey st) k = Some s" by (rule ids_okD(2)[OF oks(2) 2(3)])
      moreover have "jm_get (activeSessionIdsByKey st) ?k = Some ?s" using ids_okD(1)[OF oks(2)] act by simp
      ultimately show ?thesis using 2(2) by (auto simp: f(2) store_simps)
    qed (simp add: f(2) store_simps)
  next
    show "jm_wf (waitKeysBySessionId ?st)" using ids_okD(3)[OF oks(2)] by (simp add: f(4))
  next
    fix s k
    assume "jm_get (waitKeysBySessionId ?st) s = Some k"
    then show "jm_get (activeRunsByKey ?st) k \<noteq> None"
      using ids_okD(4)[OF oks(2), of s k] act by (auto simp: f(1,4) store_simps split: if_splits)
  qed
  moreover have "waiters_ok ?st" by (rule waiters_ok_tables[OF f(5) _ oks(3)]) (simp add: f(1))
  ultimately show ?thesis by (intro runs_okI)
qed

section \<open>Every event\<close>

lemma operations_beyond:
  assumes "\<not> i < length (operations st)"
  shows "operations (clearState i st) = operations st" and "operations (update_op i f st) = operations st"
  using assms
  by (simp_all add: clearState_def Let_def clearReplyRunState_def clearWaitSessionIds_def update_op_def list_update_beyond)

lemma clearing_beyond:
  assumes i: "\<not> i < length (operations st)"
  shows "operations (complete_op i st) = operations st" "operations (fail_op i c e st) = operations st"
    "operations (abortByUser i st) = operations st" "operations (abortForRestart i st) = operations st"
  using i by (simp_all add: complete_op_def fail_op_def abortByUser_def abortForRestart_def Let_def
      abortWithReason_def abortInternally_def operations_beyond)

lemma clearing_evolves [evolve_intros]:
  "evolves st (complete_op i st)" "evolves st (fail_op i c e st)"
  "evolves st (abortByUser i st)" "evolves st (abortForRestart i st)"
  by (cases "i < length (operations st)"; simp add: complete_evolves fail_evolves abort_evolves clearing_beyond evolves_same)+

lemma create_evolves [evolve_intros]: "evolves st (snd (createReplyOperation rk rs r u st))"
proof (cases rule: create_cases[of rk rs r u st])
  case (2 k s p)
  have ops: "operations (snd (createReplyOperation rk rs r u st)) = operations st @ [p]"
    unfolding 2(5) by (simp add: registerWaitSessionId_def)
  show ?thesis unfolding evolves_def op_at_def ops using 2(4) by (auto simp: nth_append)
qed simp

lemma abort_if_evolves:
  "evolves (snd acc) (snd (abort_if env only i acc)) \<and>
   length (operations (snd (abort_if env only i acc))) = length (operations (snd acc))"
  by (simp add: abort_if_def clearing_evolves)

lemma abort_all_evolves: "evolves (snd acc) (snd (fold (abort_if env only) idx acc))"
proof (induction idx arbitrary: acc)
  case (Cons i idx)
  note one = abort_if_evolves[of acc env only i]
  show ?case using evolves_trans[OF conjunct1[OF one] Cons[of "abort_if env only i acc"] conjunct2[OF one]] by simp
qed simp

lemma apply_run_evolves: "evolves st (apply_run env ev st)"
proof (cases ev)
  case (AbortActive only)
  then show ?thesis using abort_all_evolves[of "(False, st)"] by (simp add: abortActiveReplyRuns_def)
qed (auto simp: on_op_def waiter_gives_up_def forceClearReplyRunBySessionId_def waitForReplyRunEndBySessionId_def
    intro: evolve_intros split: option.split)

definition good :: "reply_runs \<Rightarrow> bool" where
  "good st \<longleftrightarrow> runs_ok st \<and> results_ok st"

lemma runs_ok_clearing:
  assumes "i < length (operations st)" "runs_ok st"
  shows "runs_ok (complete_op i st)" "runs_ok (fail_op i c e st)" "runs_ok (abortByUser i st)" "runs_ok (abortForRestart i st)"
  using assms by (auto simp: complete_op_def fail_op_def abortByUser_def abortForRestart_def Let_def inert_simps
      intro!: runs_ok_clearState intro: runs_ok_tables)

lemma good_abort_all:
  assumes "runs_ok (snd acc)" "list_all (\<lambda>i. i < length (operations (snd acc))) idx"
  shows "runs_ok (snd (fold (abort_if env only) idx acc))"
  using assms
proof (induction idx arbitrary: acc)
  case (Cons i idx)
  then have "runs_ok (snd (abort_if env only i acc))" by (simp add: abort_if_def runs_ok_clearing)
  then show ?case using Cons abort_if_evolves[of acc env only i] by simp
qed simp

lemma active_in_range:
  assumes "keys_ok st"
  shows "list_all (\<lambda>i. i < length (operations st)) (map snd (activeRunsByKey st))"
proof -
  have "i < length (operations st)" if "(k, i) \<in> set (activeRunsByKey st)" for k i
    using that assms keys_ok_live[OF assms] by (simp add: keys_ok_def jm_wf_get live_at_def)
  then show ?thesis by (auto simp: list_all_iff)
qed

lemma found_in_range: "runs_ok st \<Longrightarrow> resolveReplyRunForCurrentSessionId s st = Some i \<Longrightarrow> i < length (operations st)"
  using keys_ok_live[OF runs_okD(1)]
  by (fastforce simp: resolveReplyRunForCurrentSessionId_def live_at_def bind_eq_Some_conv split: if_splits)

lemma runs_ok_apply:
  assumes ok: "runs_ok st" and res: "results_ok st"
  shows "runs_ok (apply_run env ev st)"
proof (cases ev)
  case (UpdateSessionId i s)
  then show ?thesis using runs_ok_updateSession[OF _ ok res] ok by (simp add: on_op_def)
next
  case (ForceClear s c)
  then show ?thesis
    using ok by (auto simp: forceClearReplyRunBySessionId_def found_in_range runs_ok_clearing split: option.split)
next
  case (AbortActive only)
  then show ?thesis
    using good_abort_all[of "(False, st)"] ok active_in_range[OF runs_okD(1)[OF ok]]
    by (simp add: abortActiveReplyRuns_def)
next
  case (WaitEnd s t)
  then show ?thesis
    using ok by (simp add: waitForReplyRunEndBySessionId_def runs_ok_waitForIdle split: option.split)
next
  case (WaiterGivesUp w)
  then show ?thesis using ok by (simp add: waiter_gives_up_def runs_ok_finish)
qed (use ok in \<open>auto simp: on_op_def runs_ok_create runs_ok_clearing runs_ok_waitForIdle inert_simps intro: runs_ok_tables\<close>)

lemma good_apply: "good st \<Longrightarrow> good (apply_run env ev st)"
  unfolding good_def using runs_ok_apply results_ok_evolves apply_run_evolves by blast

definition run_all :: "(backend_env \<times> run_event) list \<Rightarrow> reply_runs" where
  "run_all evs = fold (\<lambda>(env, ev). apply_run env ev) evs no_runs"

definition run_step :: "reply_runs \<Rightarrow> reply_runs \<Rightarrow> bool" where
  "run_step st st' \<longleftrightarrow> (\<exists>env ev. st' = apply_run env ev st)"

interpretation reply_runs: invariant_system "\<lambda>st. st = no_runs" run_step good
proof unfold_locales
  fix st
  assume "st = no_runs"
  then show "good st" using no_runs_ok by (simp add: good_def results_ok_def no_runs_def)
next
  fix st st'
  assume "good st" "run_step st st'"
  then show "good st'" using good_apply by (auto simp: run_step_def)
qed

lemma run_all_reachable: "rtranclp run_step st (fold (\<lambda>(env, ev). apply_run env ev) evs st)"
proof (induction evs arbitrary: st)
  case (Cons e evs)
  obtain env ev where e: "e = (env, ev)" by (cases e)
  have "run_step st (apply_run env ev st)" by (auto simp: run_step_def)
  then show ?case using Cons[of "apply_run env ev st"] by (simp add: e converse_rtranclp_into_rtranclp)
qed simp

lemma run_all_good: "good (run_all evs)"
  unfolding run_all_def by (rule reply_runs.reachable_inv[OF refl run_all_reachable])

lemma run_all_ok: "runs_ok (run_all evs)"
  using run_all_good good_def by blast

definition run_result :: "nat \<Rightarrow> reply_runs \<Rightarrow> op_result option" where
  "run_result i st = (if i < length (operations st) then opResult (op_at st i) else None)"

interpretation reply_result: write_once "run_result i" "\<lambda>(env, ev). apply_run env ev" for i
proof unfold_locales
  fix st r and e :: "backend_env \<times> run_event"
  assume r: "run_result i st = Some r"
  obtain env ev where e: "e = (env, ev)" by (cases e)
  show "run_result i ((\<lambda>(env, ev). apply_run env ev) e st) = Some r"
    using apply_run_evolves[of st env ev] r
    by (auto simp: e run_result_def evolves_def op_step_def split: if_splits)
qed

section \<open>Properties\<close>


text \<open>
  C19: Nobody who waits for a run is forgotten or told twice: in every history, a waiter whose
  promise is open is registered under a key that has a run, and every promise is settled once.
  So once no run is active, nobody waits.
\<close>

theorem waiters_served:
  "{w. w < length (allWaiters (run_all evs)) \<and> jm_get (waiterResults (run_all evs)) w = None} =
     {w. \<exists>i ws. jm_get (activeRunsByKey (run_all evs)) (waiterKey (allWaiters (run_all evs) ! w)) = Some i \<and>
         jm_get (waitersByKey (run_all evs)) (waiterKey (allWaiters (run_all evs) ! w)) = Some ws \<and> w \<in> set ws}
   \<and> distinct (map fst (waiterResults (run_all evs)))"
  (is "?pending = ?registered \<and> _")
proof
  note D = waiters_okD[OF runs_okD(3)[OF run_all_ok[of evs]]]
  show "?pending = ?registered"
  proof (rule set_eqI, simp only: mem_Collect_eq, rule iffI)
    fix w
    assume "w < length (allWaiters (run_all evs)) \<and> jm_get (waiterResults (run_all evs)) w = None"
    then have "waiting (run_all evs) w" using D(7)[of w] by (simp add: jm_has_get)
    then show "\<exists>i ws. jm_get (activeRunsByKey (run_all evs)) (waiterKey (allWaiters (run_all evs) ! w)) = Some i \<and>
         jm_get (waitersByKey (run_all evs)) (waiterKey (allWaiters (run_all evs) ! w)) = Some ws \<and> w \<in> set ws"
      using D(3) unfolding waiting_def by (metis not_None_eq)
  next
    fix w
    assume "\<exists>i ws. jm_get (activeRunsByKey (run_all evs)) (waiterKey (allWaiters (run_all evs) ! w)) = Some i \<and>
         jm_get (waitersByKey (run_all evs)) (waiterKey (allWaiters (run_all evs) ! w)) = Some ws \<and> w \<in> set ws"
    then show "w < length (allWaiters (run_all evs)) \<and> jm_get (waiterResults (run_all evs)) w = None"
      using D(4,6) by (metis jm_has_get)
  qed
  show "distinct (map fst (waiterResults (run_all evs)))" using D(8) by (simp add: jm_wf_def)
qed

text \<open>
  C20: The result of a reply run is written once: whatever is done afterwards - a second
  completion, an abort, a failure, a late backend - the first result stands.
\<close>

theorem reply_result_stands:
  assumes "run_result i (run_all evs) = Some r"
  shows "run_result i (run_all (evs @ later)) = Some r"
  using reply_result.run_once[of i "run_all evs" r later] assms by (simp add: run_all_def)

definition quiet_env :: backend_env where
  "quiet_env = \<lparr>envStreaming = \<lambda>_. False, envCompacting = \<lambda>_. None, envCanQueue = \<lambda>_. False\<rparr>"

lemma reply_result_stands_witness:
  "run_result 0 (run_all ([(quiet_env, Begin ''k'' ''s'' False False), (quiet_env, CompleteRun 0)] @
     [(quiet_env, AbortByUser 0), (quiet_env, FailRun 0 F_run_failed None)])) = Some Completed"
  by (rule reply_result_stands) code_simp

text \<open>
  Two runs that were begun with the same session identifier lose sight of each other: when
  the first one takes another session, the entry of the second is deleted with it. The second
  run is active under its key and has the identifier, but is not found by it, so an abort or a
  queued message that names the session does not reach it.
\<close>

theorem shared_session_hides_run:
  "let st = run_all [(quiet_env, Begin ''a'' ''s'' False False), (quiet_env, Begin ''b'' ''s'' False False),
                     (quiet_env, UpdateSessionId 0 ''t'')]
   in isActiveRun ''b'' st \<and> resolveSessionId ''b'' st = Some ''s'' \<and>
      \<not> isReplyRunActiveForSessionId ''s'' st \<and> fst (abortReplyRunBySessionId ''s'' st) = False"
  by code_simp

end
