(* ===== verification/Dedupe_Cache.thy ===== *)
theory Dedupe_Cache
  imports Contracts
begin

text \<open>
  \<open>src/infra/dedupe.ts\<close> and \<open>src/infra/map-size.ts\<close>: a set of recently seen keys with a time to
  live and a cap. The map keeps its entries in the order they were last touched, so its first
  entry is the oldest; clock readings and the two options are integers. \<open>dedupe_recent\<close> gives
  what a caller relies on without the map: a key is a duplicate exactly when it was asked for
  within the time to live, as long as no more keys are in use than fit.
\<close>

section \<open>Bounded maps\<close>

function prune_loop :: "('k, 'v) jmap \<Rightarrow> nat \<Rightarrow> ('k, 'v) jmap" where
  "prune_loop m limit = (if length m > limit then prune_loop (jm_del (fst (hd m)) m) limit else m)"
  by pat_completeness auto

lemma length_del_hd: "m \<noteq> [] \<Longrightarrow> length (jm_del (fst (hd m)) m) < length m"
  by (cases m) (auto simp: less_Suc_eq_le length_delete_le)

termination prune_loop
proof (relation "measure (\<lambda>(m, limit). length m)")
  fix m :: "('k \<times> 'v) list" and limit
  assume "limit < length m"
  then have "m \<noteq> []" by auto
  then show "((jm_del (fst (hd m)) m, limit), (m, limit)) \<in> measure (\<lambda>(m, limit). length m)"
    using length_del_hd by simp
qed simp

declare prune_loop.simps [simp del]

definition pruneMapToMaxSize :: "('k, 'v) jmap \<Rightarrow> int \<Rightarrow> ('k, 'v) jmap" where
  "pruneMapToMaxSize m maxSize = (if maxSize \<le> 0 then [] else prune_loop m (nat maxSize))"

lemma prune_loop_drop: "jm_wf m \<Longrightarrow> prune_loop m n = drop (length m - n) m"
proof (induction m n rule: prune_loop.induct)
  case (1 m n)
  show ?case
  proof (cases "length m > n")
    case True
    then obtain p ps where m: "m = p # ps" by (cases m) auto
    have del: "jm_del (fst (hd m)) m = ps" unfolding m using jm_del_head 1(2) by (metis list.sel(1) m)
    have "jm_wf ps" using 1(2) unfolding m by (simp add: jm_wf_def)
    then have "prune_loop ps n = drop (length ps - n) ps" using 1(1)[OF True] del by simp
    moreover have "length m - n = Suc (length ps - n)" using True m by simp
    ultimately show ?thesis using True del by (subst prune_loop.simps) (simp add: m)
  next
    case False
    then show ?thesis by (subst prune_loop.simps) simp
  qed
qed

lemma jm_wf_drop [simp]: "jm_wf m \<Longrightarrow> jm_wf (drop n m)"
  by (simp add: jm_wf_def drop_map[symmetric] distinct_drop)

lemma pruneMap_drop: "jm_wf m \<Longrightarrow> pruneMapToMaxSize m n = drop (length m - nat n) m"
  by (cases "0 < n") (simp_all add: pruneMapToMaxSize_def prune_loop_drop)

lemma length_pruneMap: "jm_wf m \<Longrightarrow> length (pruneMapToMaxSize m n) \<le> nat n"
  by (simp add: pruneMap_drop)

lemma pruneMap_le: "jm_wf m \<Longrightarrow> 0 < n \<Longrightarrow> int (length (pruneMapToMaxSize m n)) \<le> n"
  using length_pruneMap[of m n] by linarith

lemma jm_wf_pruneMap: "jm_wf m \<Longrightarrow> jm_wf (pruneMapToMaxSize m n)"
  by (simp add: pruneMap_drop)

lemma pruneMap_small: "jm_wf m \<Longrightarrow> int (length m) \<le> n \<Longrightarrow> pruneMapToMaxSize m n = m"
  by (simp add: pruneMap_drop)

section \<open>The cache\<close>

record dedupe_cache =
  dcTtlMs :: int
  dcMaxSize :: int
  dcEntries :: "(string, int) jmap"

definition createDedupeCache :: "int \<Rightarrow> int \<Rightarrow> dedupe_cache" where
  "createDedupeCache ttlMs maxSize = \<lparr>dcTtlMs = max 0 ttlMs, dcMaxSize = max 0 maxSize, dcEntries = []\<rparr>"

definition dedupe_touch :: "string \<Rightarrow> int \<Rightarrow> dedupe_cache \<Rightarrow> dedupe_cache" where
  "dedupe_touch key now c = c\<lparr>dcEntries := jm_set key now (jm_del key (dcEntries c))\<rparr>"

definition dedupe_prune :: "int \<Rightarrow> dedupe_cache \<Rightarrow> dedupe_cache" where
  "dedupe_prune now c =
     (let m = (if dcTtlMs c > 0 then filter (\<lambda>p. \<not> snd p < now - dcTtlMs c) (dcEntries c) else dcEntries c)
      in if dcMaxSize c \<le> 0 then c\<lparr>dcEntries := []\<rparr>
         else c\<lparr>dcEntries := pruneMapToMaxSize m (dcMaxSize c)\<rparr>)"

definition hasUnexpired :: "string \<Rightarrow> int \<Rightarrow> bool \<Rightarrow> dedupe_cache \<Rightarrow> bool \<times> dedupe_cache" where
  "hasUnexpired key now touchOnRead c =
     (case jm_get (dcEntries c) key of
        None \<Rightarrow> (False, c)
      | Some existing \<Rightarrow>
          if dcTtlMs c > 0 \<and> now - existing \<ge> dcTtlMs c then (False, c\<lparr>dcEntries := jm_del key (dcEntries c)\<rparr>)
          else (True, if touchOnRead then dedupe_touch key now c else c))"

text \<open>The empty key is falsy.\<close>

definition dedupe_check :: "string option \<Rightarrow> int \<Rightarrow> dedupe_cache \<Rightarrow> bool \<times> dedupe_cache" where
  "dedupe_check key now c =
     (case key of
        None \<Rightarrow> (False, c)
      | Some k \<Rightarrow>
          if k = [] then (False, c)
          else (case hasUnexpired k now True c of
                  (True, c') \<Rightarrow> (True, c')
                | (False, c') \<Rightarrow> (False, dedupe_prune now (dedupe_touch k now c'))))"

definition dedupe_peek :: "string option \<Rightarrow> int \<Rightarrow> dedupe_cache \<Rightarrow> bool \<times> dedupe_cache" where
  "dedupe_peek key now c =
     (case key of None \<Rightarrow> (False, c) | Some k \<Rightarrow> if k = [] then (False, c) else hasUnexpired k now False c)"

definition dedupe_delete :: "string option \<Rightarrow> dedupe_cache \<Rightarrow> dedupe_cache" where
  "dedupe_delete key c =
     (case key of None \<Rightarrow> c | Some k \<Rightarrow> if k = [] then c else c\<lparr>dcEntries := jm_del k (dcEntries c)\<rparr>)"

definition dedupe_clear :: "dedupe_cache \<Rightarrow> dedupe_cache" where
  "dedupe_clear c = c\<lparr>dcEntries := []\<rparr>"

definition dedupe_size :: "dedupe_cache \<Rightarrow> nat" where
  "dedupe_size c = length (dcEntries c)"

section \<open>The bound\<close>

definition dedupe_ok :: "dedupe_cache \<Rightarrow> bool" where
  "dedupe_ok c \<longleftrightarrow> jm_wf (dcEntries c) \<and> int (length (dcEntries c)) \<le> max 0 (dcMaxSize c)"

lemma length_touch:
  assumes "jm_get m k \<noteq> None" "jm_wf m"
  shows "length (jm_set k v (jm_del k m)) = length m"
proof -
  have "set (map fst (jm_set k v (jm_del k m))) = set (map fst m)"
    using assms(1) by (auto simp: update_keys image_iff map_of_eq_None_iff AList.delete_eq)
  moreover have "distinct (map fst (jm_set k v (jm_del k m)))" "distinct (map fst m)"
    using assms(2) jm_wf_set[of k v "jm_del k m"] jm_wf_del[of m k] by (simp_all add: jm_wf_def)
  ultimately show ?thesis by (metis distinct_card length_map)
qed

lemma hasUnexpired_ok: "dedupe_ok c \<Longrightarrow> dedupe_ok (snd (hasUnexpired k now t c))"
  using length_jm_del_le[of k "dcEntries c"] length_touch[of "dcEntries c" k now]
  by (auto simp: hasUnexpired_def dedupe_ok_def dedupe_touch_def split: option.splits)

lemma dedupe_check_ok: "dedupe_ok c \<Longrightarrow> dedupe_ok (snd (dedupe_check key now c))"
proof (cases key)
  case (Some k)
  assume ok: "dedupe_ok c"
  show ?thesis
  proof (cases "k = [] \<or> fst (hasUnexpired k now True c)")
    case True
    then show ?thesis
      using hasUnexpired_ok[OF ok, of k now True] ok
      by (auto simp: dedupe_check_def Some split: prod.splits bool.splits)
  next
    case False
    obtain c' where c': "hasUnexpired k now True c = (False, c')" using False by (cases "hasUnexpired k now True c") auto
    have "jm_wf (dcEntries c')" using hasUnexpired_ok[OF ok, of k now True] c' by (simp add: dedupe_ok_def)
    then have "dedupe_ok (dedupe_prune now (dedupe_touch k now c'))"
      by (simp add: dedupe_ok_def dedupe_prune_def dedupe_touch_def Let_def pruneMap_le jm_wf_pruneMap)
    then show ?thesis using False by (simp add: dedupe_check_def Some c')
  qed
qed (simp add: dedupe_check_def)

section \<open>What a caller can rely on\<close>

text \<open>The answers without a cache: was the key asked for within the time to live?\<close>

fun recently_asked :: "int \<Rightarrow> (string \<times> int) list \<Rightarrow> (string \<times> int) list \<Rightarrow> bool list" where
  "recently_asked ttl seen [] = []"
| "recently_asked ttl seen ((k, t) # asks) =
     list_ex (\<lambda>p. fst p = k \<and> t - snd p < ttl) seen # recently_asked ttl (seen @ [(k, t)]) asks"

text \<open>The cache knows only what was asked, and everything asked since \<open>now - ttl\<close>.\<close>

definition cache_tracks :: "int \<Rightarrow> (string \<times> int) list \<Rightarrow> int \<Rightarrow> dedupe_cache \<Rightarrow> bool" where
  "cache_tracks ttl seen now c \<longleftrightarrow>
     dedupe_ok c \<and> dcTtlMs c = ttl \<and>
     (\<forall>k t. jm_get (dcEntries c) k = Some t \<longrightarrow> (k, t) \<in> set seen) \<and>
     (\<forall>k t. (k, t) \<in> set seen \<longrightarrow> now - t < ttl \<longrightarrow> (\<exists>u. jm_get (dcEntries c) k = Some u \<and> t \<le> u))"

lemma cache_tracksD:
  assumes "cache_tracks ttl seen now c"
  shows "dedupe_ok c" "dcTtlMs c = ttl"
    and "jm_get (dcEntries c) k = Some t \<Longrightarrow> (k, t) \<in> set seen"
    and "(k, t) \<in> set seen \<Longrightarrow> now - t < ttl \<Longrightarrow> \<exists>u. jm_get (dcEntries c) k = Some u \<and> t \<le> u"
  using assms unfolding cache_tracks_def by blast+

lemma hasUnexpired_recent:
  assumes tr: "cache_tracks ttl seen now0 c" and "now0 \<le> now" "0 < ttl"
  shows "fst (hasUnexpired k now b c) = list_ex (\<lambda>p. fst p = k \<and> now - snd p < ttl) seen"
proof
  assume "fst (hasUnexpired k now b c)"
  then obtain t where "jm_get (dcEntries c) k = Some t" "now - t < ttl"
    using assms(3) cache_tracksD(2)[OF tr] by (auto simp: hasUnexpired_def split: option.splits if_splits)
  then show "list_ex (\<lambda>p. fst p = k \<and> now - snd p < ttl) seen"
    using cache_tracksD(3)[OF tr] by (force simp: list_ex_iff)
next
  assume "list_ex (\<lambda>p. fst p = k \<and> now - snd p < ttl) seen"
  then obtain t where t: "(k, t) \<in> set seen" "now - t < ttl" by (auto simp: list_ex_iff)
  then obtain u where "jm_get (dcEntries c) k = Some u" "t \<le> u"
    using cache_tracksD(4)[OF tr t(1)] assms(2) by (metis diff_right_mono order_le_less_trans)
  then show "fst (hasUnexpired k now b c)"
    using t(2) cache_tracksD(2)[OF tr] by (simp add: hasUnexpired_def)
qed

lemma tracks_get:
  assumes tr: "cache_tracks ttl seen now0 c" and le: "now0 \<le> now" and past: "\<And>p. p \<in> set seen \<Longrightarrow> snd p \<le> now"
    and ok: "dedupe_ok c'" "dcTtlMs c' = ttl"
    and get: "\<And>j. jm_get (dcEntries c') j =
      (if j = k then Some now else case jm_get (dcEntries c) j of
         None \<Rightarrow> None | Some u \<Rightarrow> if drop_old \<and> u < now - ttl then None else Some u)"
  shows "cache_tracks ttl (seen @ [(k, now)]) now c'"
  unfolding cache_tracks_def
proof (intro conjI allI impI ok)
  fix j t
  assume "jm_get (dcEntries c') j = Some t"
  then show "(j, t) \<in> set (seen @ [(k, now)])"
    using cache_tracksD(3)[OF tr] by (auto simp: get split: if_splits option.splits)
next
  fix j t
  assume j: "(j, t) \<in> set (seen @ [(k, now)])" and t: "now - t < ttl"
  show "\<exists>u. jm_get (dcEntries c') j = Some u \<and> t \<le> u"
  proof (cases "j = k")
    case True
    then show ?thesis using j past by (fastforce simp: get)
  next
    case False
    then obtain u where "jm_get (dcEntries c) j = Some u" "t \<le> u"
      using j t le cache_tracksD(4)[OF tr, of j t] by auto
    then show ?thesis using False t by (simp add: get)
  qed
qed

lemma dedupe_check_tracks:
  assumes tr: "cache_tracks ttl seen now0 c" and le: "now0 \<le> now" and past: "\<And>p. p \<in> set seen \<Longrightarrow> snd p \<le> now"
    and ttl: "0 < ttl" and ne: "k \<noteq> []" and room: "int (card (set (map fst (seen @ [(k, now)])))) \<le> dcMaxSize c"
  shows "cache_tracks ttl (seen @ [(k, now)]) now (snd (dedupe_check (Some k) now c))"
    and "dcMaxSize (snd (dedupe_check (Some k) now c)) = dcMaxSize c"
proof -
  note D = cache_tracksD[OF tr]
  have wf: "jm_wf (dcEntries c)" using D(1) by (simp add: dedupe_ok_def)
  let ?c = "snd (dedupe_check (Some k) now c)" and ?m = "jm_set k now (jm_del k (dcEntries c))"
  have ok: "dedupe_ok ?c" by (rule dedupe_check_ok[OF D(1)])
  show "dcMaxSize ?c = dcMaxSize c"
    using ne by (auto simp: dedupe_check_def hasUnexpired_def dedupe_prune_def dedupe_touch_def Let_def split: option.split)
  have ttl': "dcTtlMs ?c = ttl"
    using ne D(2) by (auto simp: dedupe_check_def hasUnexpired_def dedupe_prune_def dedupe_touch_def Let_def split: option.split)
  show "cache_tracks ttl (seen @ [(k, now)]) now ?c"
  proof (cases "fst (hasUnexpired k now True c)")
    case True
    then have "dcEntries ?c = ?m"
      using ne by (auto simp: dedupe_check_def hasUnexpired_def dedupe_touch_def split: option.splits if_splits)
    then have g: "jm_get (dcEntries ?c) j = (if j = k then Some now else case jm_get (dcEntries c) j of
         None \<Rightarrow> None | Some u \<Rightarrow> if False \<and> u < now - ttl then None else Some u)" for j
      by (simp add: store_simps split: option.split)
    show ?thesis by (rule tracks_get[OF tr le past ok ttl' g])
  next
    case False
    let ?f = "filter (\<lambda>p. \<not> snd p < now - ttl) ?m"
    have sub: "set (map fst ?f) \<subseteq> set (map fst (seen @ [(k, now)]))"
      using D(3) wf by (force simp: jm_wf_get[symmetric] set_jm_set_wf AList.delete_eq)
    have wfm: "jm_wf ?m" using wf by simp
    have "distinct (map fst ?f)" using jm_wf_filter[OF wfm] by (simp add: jm_wf_def)
    then have "length ?f \<le> card (set (map fst (seen @ [(k, now)])))"
      using card_mono[OF _ sub] by (metis distinct_card finite_set length_map)
    then have small: "int (length ?f) \<le> dcMaxSize c" using room by linarith
    have "0 < card (set (map fst (seen @ [(k, now)])))" by (simp add: card_gt_0_iff)
    then have pos: "0 < dcMaxSize c" using room by linarith
    have "dcEntries ?c = pruneMapToMaxSize ?f (dcMaxSize c)"
      using ne False ttl pos D(2)
      by (auto simp: delete_idem dedupe_check_def hasUnexpired_def dedupe_prune_def dedupe_touch_def Let_def split: option.splits if_splits)
    then have m: "dcEntries ?c = ?f" using pruneMap_small[OF jm_wf_filter[OF wfm] small] by simp
    have g: "jm_get (dcEntries ?c) j = (if j = k then Some now else case jm_get (dcEntries c) j of
         None \<Rightarrow> None | Some u \<Rightarrow> if True \<and> u < now - ttl then None else Some u)" for j
      unfolding m jm_get_filter[OF wfm] using ttl by (simp add: store_simps split: option.split)
    show ?thesis by (rule tracks_get[OF tr le past ok ttl' g])
  qed
qed

text \<open>
  A key is reported as a duplicate exactly when it was asked for within the time to live,
  whether that was reported as a duplicate or not, for any sequence of calls with a clock that
  does not run backwards and no more keys than the cache holds.
\<close>

theorem dedupe_recent:
  assumes "0 < ttl" and "sorted (map snd asks)" and "list_all (\<lambda>p. fst p \<noteq> []) asks"
    and "int (card (set (map fst asks))) \<le> maxSize"
  shows "fst (memo_run (\<lambda>(k, t). dedupe_check (Some k) t) asks (createDedupeCache ttl maxSize))
    = recently_asked ttl [] asks"
proof -
  have main: "fst (memo_run (\<lambda>(k, t). dedupe_check (Some k) t) asks c) = recently_asked ttl seen asks"
    if "cache_tracks ttl seen now0 c" "sorted (now0 # map snd asks)" "\<And>p. p \<in> set seen \<Longrightarrow> snd p \<le> now0"
      "list_all (\<lambda>p. fst p \<noteq> []) asks" "int (card (set (map fst (seen @ asks)))) \<le> dcMaxSize c"
    for seen asks now0 c
    using that
  proof (induction asks arbitrary: seen now0 c)
    case (Cons a asks)
    obtain k t where a: "a = (k, t)" by (cases a)
    have now: "now0 \<le> t" and rest: "sorted (t # map snd asks)" and ne: "k \<noteq> []"
      using Cons.prems(2,4) by (simp_all add: a)
    have past: "p \<in> set seen \<Longrightarrow> snd p \<le> t" for p using Cons.prems(3) now by fastforce
    have "card (set (map fst (seen @ [(k, t)]))) \<le> card (set (map fst (seen @ a # asks)))"
      by (intro card_mono) (auto simp: a)
    then have room: "int (card (set (map fst (seen @ [(k, t)])))) \<le> dcMaxSize c" using Cons.prems(5) by linarith
    note step = dedupe_check_tracks[OF Cons.prems(1) now past assms(1) ne room]
    have "fst (dedupe_check (Some k) t c) = fst (hasUnexpired k t True c)"
      using ne by (simp add: dedupe_check_def split: prod.split bool.split)
    then have ans: "fst (dedupe_check (Some k) t c) = list_ex (\<lambda>p. fst p = k \<and> t - snd p < ttl) seen"
      using hasUnexpired_recent[OF Cons.prems(1) now assms(1)] by simp
    have "fst (memo_run (\<lambda>(k, t). dedupe_check (Some k) t) asks (snd (dedupe_check (Some k) t c))) =
        recently_asked ttl (seen @ [(k, t)]) asks"
      by (rule Cons.IH[OF step(1) rest]) (use past Cons.prems(4,5) step(2) a in \<open>auto simp: insert_commute\<close>)
    then show ?case using ans by (simp add: a Let_def case_prod_unfold)
  qed simp
  have "0 \<le> maxSize" using assms(4) by linarith
  then have start: "cache_tracks ttl [] (hd (map snd asks @ [0])) (createDedupeCache ttl maxSize)"
    using assms(1) by (simp add: cache_tracks_def createDedupeCache_def dedupe_ok_def)
  have "sorted (hd (map snd asks @ [0]) # map snd asks)" using assms(2) by (cases asks) auto
  then show ?thesis by (rule main[OF start]) (use assms in \<open>simp_all add: createDedupeCache_def\<close>)
qed

lemma dedupe_recent_witness:
  "fst (memo_run (\<lambda>(k, t). dedupe_check (Some k) t) [(''a'', 0), (''a'', 9), (''b'', 12), (''a'', 18), (''a'', 28)]
     (createDedupeCache 10 2)) = [False, True, False, True, False]"
proof -
  have "recently_asked 10 [] [(''a'', 0), (''a'', 9), (''b'', 12), (''a'', 18), (''a'', 28)] = [False, True, False, True, False]"
    by simp
  then show ?thesis by (subst dedupe_recent) (simp_all add: card_insert_if)
qed

text \<open>
  The cache never holds more keys than its cap, whatever is asked and deleted.
\<close>

theorem dedupe_bounded:
  "int (dedupe_size (snd (memo_run (\<lambda>(k, t). dedupe_check k t) asks (createDedupeCache ttl maxSize)))) \<le> max 0 maxSize"
proof -
  have "dedupe_ok (snd (memo_run (\<lambda>(k, t). dedupe_check k t) asks c)) \<and>
      dcMaxSize (snd (memo_run (\<lambda>(k, t). dedupe_check k t) asks c)) = dcMaxSize c" if "dedupe_ok c" for c
    using that
  proof (induction asks arbitrary: c)
    case (Cons a asks)
    have "dcMaxSize (snd (dedupe_check k t c)) = dcMaxSize c" for k t
      by (auto simp: dedupe_check_def hasUnexpired_def dedupe_prune_def dedupe_touch_def Let_def split: option.split)
    then show ?case
      using Cons.IH[OF dedupe_check_ok[OF Cons.prems]] by (cases a) (simp add: Let_def case_prod_unfold)
  qed simp
  from this[of "createDedupeCache ttl maxSize"] show ?thesis
    by (auto simp: dedupe_ok_def dedupe_size_def createDedupeCache_def)
qed

end
