(* ===== verification/Js_Json.thy ===== *)
theory Js_Json
  imports Js_Strings
begin

text \<open>
  \<open>JSON.stringify\<close> of an array of strings and booleans, which the gateway uses to build keys
  without delimiter collisions. \<open>json_array_inj\<close> is why that works: the text determines the
  array. It is proved by reading the text back, one character at a time.
\<close>

section \<open>Writing\<close>

definition hex_digit :: "nat \<Rightarrow> char" where
  "hex_digit n = (if n < 10 then char_of (48 + n) else char_of (87 + n))"

definition json_char :: "char \<Rightarrow> string" where
  "json_char c =
     (let n = (of_char c :: nat)
      in if n = 34 then [CHR 0x5C, CHR 0x22]
         else if n = 92 then [CHR 0x5C, CHR 0x5C]
         else if n = 8 then [CHR 0x5C, CHR ''b'']
         else if n = 12 then [CHR 0x5C, CHR ''f'']
         else if n = 10 then [CHR 0x5C, CHR ''n'']
         else if n = 13 then [CHR 0x5C, CHR ''r'']
         else if n = 9 then [CHR 0x5C, CHR ''t'']
         else if n < 32 then [CHR 0x5C, CHR ''u'', CHR ''0'', CHR ''0'', hex_digit (n div 16), hex_digit (n mod 16)]
         else [c])"

definition json_string :: "string \<Rightarrow> string" where
  "json_string s = CHR 0x22 # concat (map json_char s) @ [CHR 0x22]"

datatype json_item = JStr string | JBool bool

fun json_item_text :: "json_item \<Rightarrow> string" where
  "json_item_text (JStr s) = json_string s"
| "json_item_text (JBool b) = (if b then ''true'' else ''false'')"

definition json_array :: "json_item list \<Rightarrow> string" where
  "json_array items = CHR ''['' # js_join '','' (map json_item_text items) @ [CHR '']'']"

section \<open>Reading back\<close>

definition hex_value :: "char \<Rightarrow> nat" where
  "hex_value c = (let n = of_char c in if n < 58 then n - 48 else n - 87)"

text \<open>The first character of an escaped text and the rest of the text.\<close>

fun json_uncons :: "string \<Rightarrow> char \<times> string" where
  "json_uncons (c # d # s) =
     (if c \<noteq> CHR 0x5C then (c, d # s)
      else if d = CHR ''b'' then (CHR 0x08, s)
      else if d = CHR ''f'' then (CHR 0x0C, s)
      else if d = CHR ''n'' then (CHR 0x0A, s)
      else if d = CHR ''r'' then (CHR 0x0D, s)
      else if d = CHR ''t'' then (CHR 0x09, s)
      else if d = CHR ''u'' then (char_of (16 * hex_value (s ! 2) + hex_value (s ! 3)), drop 4 s)
      else (d, s))"
| "json_uncons s = (hd s, tl s)"

lemma json_char_cases:
  obtains "json_char c = [c]" "c \<noteq> CHR 0x5C" "c \<noteq> CHR 0x22"
  | n where "c = char_of n" "n \<in> set (34 # 92 # [0..<32])"
proof (cases "(of_char c :: nat) \<in> set (34 # 92 # [0..<32])")
  case True
  then show ?thesis by (intro that(2)[of "of_char c"]) simp_all
next
  case False
  then have "json_char c = [c]" by (auto simp: json_char_def Let_def)
  moreover have "c \<noteq> CHR 0x5C" "c \<noteq> CHR 0x22" using False by auto
  ultimately show ?thesis by (rule that(1))
qed

lemma json_uncons_escapes:
  "list_all (\<lambda>n. \<forall>x. json_uncons (json_char (char_of n) @ x) = (char_of n, x)) (34 # 92 # [0..<32])"
  by (simp add: json_char_def Let_def upt_rec hex_digit_def hex_value_def of_char_of) (simp add: char_eq_nat)

lemma json_uncons_char: "json_uncons (json_char c @ x) = (c, x)"
proof (cases rule: json_char_cases[of c])
  case 1
  then show ?thesis by (cases x) simp_all
next
  case (2 n)
  have "\<forall>x. json_uncons (json_char (char_of n) @ x) = (char_of n, x)"
    by (rule bspec[OF json_uncons_escapes[unfolded list_all_iff] 2(2)])
  then show ?thesis by (simp add: 2(1))
qed

lemma json_char_not_quote: "json_char c = x # xs \<Longrightarrow> x \<noteq> CHR 0x22"
  by (cases rule: json_char_cases[of c]) (auto simp: json_char_def Let_def of_char_of split: if_splits)

lemma json_char_not_Nil [simp]: "json_char c \<noteq> []"
  by (simp add: json_char_def Let_def)

lemma json_body_inj:
  "concat (map json_char s) @ CHR 0x22 # x = concat (map json_char t) @ CHR 0x22 # y \<Longrightarrow> s = t \<and> x = y"
proof (induction s arbitrary: t)
  case Nil
  show ?case
  proof (cases t)
    case (Cons d t')
    obtain e es where e: "json_char d = e # es" by (cases "json_char d") auto
    then show ?thesis using Nil json_char_not_quote[OF e] by (simp add: Cons)
  qed (use Nil in simp)
next
  case (Cons c s)
  show ?case
  proof (cases t)
    case Nil
    obtain e es where e: "json_char c = e # es" by (cases "json_char c") auto
    then show ?thesis using Cons.prems json_char_not_quote[OF e] by (simp add: Nil)
  next
    case (Cons d t')
    let ?x = "concat (map json_char s) @ CHR 0x22 # x" and ?y = "concat (map json_char t') @ CHR 0x22 # y"
    have "json_char c @ ?x = json_char d @ ?y" using Cons.prems Cons by simp
    then have "(c, ?x) = (d, ?y)" by (metis json_uncons_char)
    then show ?thesis using Cons.IH[of t'] Cons by simp
  qed
qed

lemma json_string_inj: "json_string s @ x = json_string t @ y \<Longrightarrow> s = t \<and> x = y"
  using json_body_inj[of s x t y] by (simp add: json_string_def)

lemma json_item_inj: "json_item_text i @ x = json_item_text j @ y \<Longrightarrow> i = j \<and> x = y"
proof (cases i; cases j)
  fix s t
  assume "json_item_text i @ x = json_item_text j @ y" "i = JStr s" "j = JStr t"
  then show ?thesis using json_string_inj[of s x t y] by simp
qed (auto simp: json_string_def split: if_splits)

lemma json_items_inj:
  "js_join '','' (map json_item_text items) @ '']'' = js_join '','' (map json_item_text js) @ '']'' \<Longrightarrow> items = js"
proof (induction items arbitrary: js)
  case Nil
  have "js = []"
  proof (cases js)
    case (Cons j rest)
    then show ?thesis using Nil by (cases j; cases rest) (auto simp: json_string_def split: if_splits)
  qed
  then show ?case by simp
next
  case (Cons i rest)
  obtain j rest' where js: "js = j # rest'"
    using Cons.prems by (cases js; cases i; cases rest) (auto simp: json_string_def split: if_splits)
  let ?t = "\<lambda>r. if r = [] then '']'' else '','' @ js_join '','' (map json_item_text r) @ '']''"
  have t: "js_join '','' (map json_item_text (k # r)) @ '']'' = json_item_text k @ ?t r" for k r
    by (cases r) simp_all
  have "json_item_text i @ ?t rest = json_item_text j @ ?t rest'" using Cons.prems unfolding js t .
  then have "i = j" and "?t rest = ?t rest'" using json_item_inj by blast+
  then show ?case using Cons.IH[of rest'] by (auto simp: js split: if_splits)
qed

lemma json_array_inj: "json_array items = json_array js \<longleftrightarrow> items = js"
  using json_items_inj[of items js] by (auto simp: json_array_def)

end
