(* ===== verification/Channel_Route.thy ===== *)
theory Channel_Route
  imports Js_Json Session_Keys
begin

text \<open>
  \<open>src/plugin-sdk/channel-route.ts\<close>: where a message came from and where a reply goes - channel,
  account, target and thread - in a normal form, the comparisons of two routes and the keys made
  of one. A value of unknown type is \<open>None\<close> unless it is a string (or a number, for a thread).
  A number is printed as its decimal digits, which is what JavaScript does below 10 to the 21.
\<close>

section \<open>Threads\<close>

datatype thread_value = ThreadNumber jsnum | ThreadText string

datatype thread_id = TidNumber int | TidText string

definition normalizeOptionalThreadValue :: "thread_value option \<Rightarrow> thread_id option" where
  "normalizeOptionalThreadValue v =
     (case v of
        None \<Rightarrow> None
      | Some (ThreadNumber n) \<Rightarrow> (case n of Fin q \<Rightarrow> Some (TidNumber (js_trunc q)) | _ \<Rightarrow> None)
      | Some (ThreadText s) \<Rightarrow> map_option TidText (normalizeOptionalString (Some s)))"

fun tid_string :: "thread_id \<Rightarrow> string" where
  "tid_string (TidNumber n) = js_int_string n"
| "tid_string (TidText s) = s"

fun tid_value :: "thread_id \<Rightarrow> thread_value" where
  "tid_value (TidNumber n) = ThreadNumber (Fin (of_int n))"
| "tid_value (TidText s) = ThreadText s"

definition normalizeRouteThreadId :: "thread_value option \<Rightarrow> thread_id option" where
  "normalizeRouteThreadId v = normalizeOptionalThreadValue v"

definition stringifyRouteThreadId :: "thread_value option \<Rightarrow> string option" where
  "stringifyRouteThreadId v = map_option tid_string (normalizeRouteThreadId v)"

section \<open>Routes\<close>

datatype route_chat_type = Rc_direct | Rc_group | Rc_channel
datatype route_thread_kind = Rt_topic | Rt_thread | Rt_reply
datatype route_thread_source = Rs_explicit | Rs_target | Rs_session | Rs_turn

record route_target =
  rtTo :: string
  rtRawTo :: "string option"
  rtChatType :: "route_chat_type option"

record route_thread =
  rtId :: thread_id
  rtKind :: "route_thread_kind option"
  rtSource :: "route_thread_source option"

record channel_route =
  crChannel :: "string option"
  crAccountId :: "string option"
  crTarget :: "route_target option"
  crThread :: "route_thread option"

record route_target_input =
  riChannel :: "string option"
  riAccountId :: "string option"
  riTo :: "string option"
  riRawTo :: "string option"
  riChatType :: "route_chat_type option"
  riThreadId :: "thread_value option"

record route_ref_input = route_target_input +
  riThreadKind :: "route_thread_kind option"
  riThreadSource :: "route_thread_source option"

text \<open>\<open>normalizeOptionalAccountId\<close> without its cache, as the theory of session keys shows it is.\<close>

definition optionalAccountIdOf :: "string option \<Rightarrow> string option" where
  "optionalAccountIdOf v =
     (let trimmed = js_trim (js_nullish v [])
      in if trimmed = [] then None else normalizeCanonicalAccountId trimmed)"

definition lower_or_empty :: "string option \<Rightarrow> string" where
  "lower_or_empty v = (case v of None \<Rightarrow> [] | Some s \<Rightarrow> normalizeLowercaseStringOrEmpty s)"

definition normalizeChannelRouteRef :: "route_ref_input option \<Rightarrow> channel_route option" where
  "normalizeChannelRouteRef input =
     (case input of
        None \<Rightarrow> None
      | Some r \<Rightarrow>
          (let channel = lower_or_empty (riChannel r);
               accountId = (case riAccountId r of None \<Rightarrow> None | Some a \<Rightarrow> optionalAccountIdOf (Some a));
               to = normalizeOptionalString (riTo r);
               rawTo = normalizeOptionalString (riRawTo r);
               threadId = normalizeRouteThreadId (riThreadId r)
           in if channel = [] \<and> to = None \<and> accountId = None \<and> threadId = None then None
              else Some \<lparr>
                crChannel = (if channel = [] then None else Some channel),
                crAccountId = accountId,
                crTarget = map_option (\<lambda>t. \<lparr>rtTo = t,
                  rtRawTo = (case rawTo of None \<Rightarrow> None | Some w \<Rightarrow> if w = t then None else Some w),
                  rtChatType = riChatType r\<rparr>) to,
                crThread = map_option (\<lambda>t. \<lparr>rtId = t, rtKind = riThreadKind r, rtSource = riThreadSource r\<rparr>) threadId\<rparr>))"

definition channelRouteTarget :: "channel_route option \<Rightarrow> string option" where
  "channelRouteTarget route = Option.bind route (\<lambda>r. map_option rtTo (crTarget r))"

definition channelRouteThreadId :: "channel_route option \<Rightarrow> thread_id option" where
  "channelRouteThreadId route = Option.bind route (\<lambda>r. map_option rtId (crThread r))"

definition normalizeChannelRouteTarget :: "route_target_input option \<Rightarrow> channel_route option" where
  "normalizeChannelRouteTarget input =
     (case input of
        None \<Rightarrow> None
      | Some r \<Rightarrow> normalizeChannelRouteRef (Some
          (route_target_input.extend r (route_ref_input.fields None None))))"

text \<open>The parser of explicit targets belongs to a plugin: it is an argument.\<close>

record explicit_target =
  etTo :: string
  etThreadId :: "thread_value option"
  etChatType :: "route_chat_type option"

record parsed_target =
  ptChannel :: string
  ptRawTo :: string
  ptTo :: string
  ptThreadId :: "thread_id option"
  ptChatType :: "route_chat_type option"

definition resolveChannelRouteTargetWithParser ::
  "string \<Rightarrow> string option \<Rightarrow> thread_value option \<Rightarrow> (string \<Rightarrow> string \<Rightarrow> explicit_target option)
   \<Rightarrow> parsed_target option" where
  "resolveChannelRouteTargetWithParser rawChannel rawTarget fallback parse =
     (let channel = normalizeLowercaseStringOrEmpty rawChannel
      in case normalizeOptionalString rawTarget of
           None \<Rightarrow> None
         | Some rawTo \<Rightarrow>
             if channel = [] then None
             else (let parsed = parse channel rawTo;
                       fallbackThreadId = normalizeOptionalThreadValue fallback;
                       explicit = Option.bind parsed etThreadId
                   in Some \<lparr>ptChannel = channel, ptRawTo = rawTo,
                        ptTo = (case parsed of None \<Rightarrow> rawTo | Some p \<Rightarrow> etTo p),
                        ptThreadId = normalizeOptionalThreadValue
                          (case explicit of None \<Rightarrow> map_option tid_value fallbackThreadId | Some t \<Rightarrow> Some t),
                        ptChatType = Option.bind parsed etChatType\<rparr>))"

definition channelRouteDedupeKey :: "route_target_input option \<Rightarrow> string" where
  "channelRouteDedupeKey input =
     (let route = normalizeChannelRouteTarget input
      in json_array [JStr (js_nullish (Option.bind route crChannel) []),
           JStr (js_nullish (channelRouteTarget route) []),
           JStr (js_nullish (Option.bind route crAccountId) []),
           JStr (js_nullish (stringifyRouteThreadId (map_option tid_value (channelRouteThreadId route))) [])])"

section \<open>Comparing routes\<close>

definition threadIdsEqual :: "thread_id option \<Rightarrow> thread_id option \<Rightarrow> bool" where
  "threadIdsEqual left right =
     (stringifyRouteThreadId (map_option tid_value left) = stringifyRouteThreadId (map_option tid_value right))"

definition falsy_text :: "string option \<Rightarrow> bool" where
  "falsy_text v = (case v of None \<Rightarrow> True | Some s \<Rightarrow> s = [])"

definition accountsCompatible :: "string option \<Rightarrow> string option \<Rightarrow> bool" where
  "accountsCompatible left right \<longleftrightarrow> falsy_text left \<or> falsy_text right \<or> left = right"

definition accountsEqual :: "string option \<Rightarrow> string option \<Rightarrow> bool" where
  "accountsEqual left right \<longleftrightarrow> js_nullish left [] = js_nullish right []"

definition channelRoutesMatchExact :: "channel_route option \<Rightarrow> channel_route option \<Rightarrow> bool" where
  "channelRoutesMatchExact left right =
     (case (left, right) of
        (Some l, Some r) \<Rightarrow>
          crChannel l = crChannel r \<and> channelRouteTarget left = channelRouteTarget right
          \<and> accountsEqual (crAccountId l) (crAccountId r)
          \<and> threadIdsEqual (channelRouteThreadId left) (channelRouteThreadId right)
      | _ \<Rightarrow> False)"

definition channelRoutesShareConversation :: "channel_route option \<Rightarrow> channel_route option \<Rightarrow> bool" where
  "channelRoutesShareConversation left right =
     (case (left, right) of
        (Some l, Some r) \<Rightarrow>
          if crChannel l \<noteq> crChannel r \<or> channelRouteTarget left \<noteq> channelRouteTarget right
             \<or> \<not> accountsCompatible (crAccountId l) (crAccountId r) then False
          else if channelRouteThreadId left = None \<or> channelRouteThreadId right = None then True
          else threadIdsEqual (channelRouteThreadId left) (channelRouteThreadId right)
      | _ \<Rightarrow> False)"

definition channelRouteTargetsMatchExact :: "route_target_input option \<Rightarrow> route_target_input option \<Rightarrow> bool" where
  "channelRouteTargetsMatchExact left right =
     channelRoutesMatchExact (normalizeChannelRouteTarget left) (normalizeChannelRouteTarget right)"

definition channelRouteTargetsShareConversation ::
  "route_target_input option \<Rightarrow> route_target_input option \<Rightarrow> bool" where
  "channelRouteTargetsShareConversation left right =
     channelRoutesShareConversation (normalizeChannelRouteTarget left) (normalizeChannelRouteTarget right)"

section \<open>Compact keys\<close>

datatype route_key_input = RouteRef channel_route | RouteTarget route_target_input

definition isChannelRouteRef :: "channel_route \<Rightarrow> bool" where
  "isChannelRouteRef r \<longleftrightarrow> crTarget r \<noteq> None \<or> crThread r \<noteq> None"

text \<open>A reference with neither a target nor a thread is taken for an input: its channel and account stay.\<close>

definition normalizeChannelRouteKeyInput :: "route_key_input option \<Rightarrow> channel_route option" where
  "normalizeChannelRouteKeyInput route =
     (case route of
        None \<Rightarrow> None
      | Some (RouteTarget t) \<Rightarrow> normalizeChannelRouteTarget (Some t)
      | Some (RouteRef r) \<Rightarrow>
          if isChannelRouteRef r
          then normalizeChannelRouteRef (Some \<lparr>riChannel = crChannel r, riAccountId = crAccountId r,
                 riTo = channelRouteTarget (Some r), riRawTo = None, riChatType = None,
                 riThreadId = map_option tid_value (channelRouteThreadId (Some r)),
                 riThreadKind = None, riThreadSource = None\<rparr>)
          else normalizeChannelRouteTarget (Some \<lparr>riChannel = crChannel r, riAccountId = crAccountId r,
                 riTo = None, riRawTo = None, riChatType = None, riThreadId = None\<rparr>))"

definition channelRouteCompactKey :: "route_key_input option \<Rightarrow> string option" where
  "channelRouteCompactKey route =
     (let n = normalizeChannelRouteKeyInput route
      in case (Option.bind n crChannel, channelRouteTarget n) of
           (Some channel, Some to) \<Rightarrow>
             if channel = [] \<or> to = [] then None
             else Some (js_join ''|'' [channel, to, js_nullish (Option.bind n crAccountId) [],
               js_nullish (stringifyRouteThreadId (map_option tid_value (channelRouteThreadId n))) []])
         | _ \<Rightarrow> None)"

section \<open>Properties\<close>

lemma js_digits_not_Nil [simp]: "js_digits n \<noteq> []"
  by (subst js_digits.simps) simp

lemma js_int_string_not_Nil [simp]: "js_int_string n \<noteq> []"
  by (simp add: js_int_string_def)

lemma normalizeOptionalString_not_Nil [simp]: "normalizeOptionalString v \<noteq> Some []"
  using normalizeOptionalString_nonempty by blast

lemma thread_cases:
  assumes "normalizeOptionalThreadValue v = Some t"
  obtains n where "t = TidNumber n" | s where "t = TidText s" "s \<noteq> []" "normalizeOptionalString (Some s) = Some s"
  using assms
  by (auto simp: normalizeOptionalThreadValue_def split: option.splits thread_value.splits jsnum.splits
      dest: normalizeOptionalString_nonempty intro: normalizeOptionalString_fix)

lemma tid_string_normal: "normalizeOptionalThreadValue v = Some t \<Longrightarrow> tid_string t \<noteq> []"
  by (erule thread_cases) simp_all

lemma normal_tid_value:
  "normalizeOptionalThreadValue v = Some t \<Longrightarrow> normalizeOptionalThreadValue (Some (tid_value t)) = Some t"
  by (erule thread_cases) (simp_all add: normalizeOptionalThreadValue_def)

lemma optionalAccountIdOf_not_Nil [simp]: "optionalAccountIdOf v \<noteq> Some []"
  by (auto simp: optionalAccountIdOf_def normalizeCanonicalAccountId_def Let_def)

text \<open>The four parts of a normal route are absent or not empty, so nothing is lost in a key.\<close>

lemma if_None_Some: "(if P then None else Some x) = Some y \<longleftrightarrow> \<not> P \<and> y = x"
  by auto

lemma normal_ref_fields:
  assumes "normalizeChannelRouteRef (Some i) = Some r"
  shows "crChannel r = (if lower_or_empty (riChannel i) = [] then None else Some (lower_or_empty (riChannel i)))"
    and "channelRouteTarget (Some r) = normalizeOptionalString (riTo i)"
    and "crAccountId r = (case riAccountId i of None \<Rightarrow> None | Some a \<Rightarrow> optionalAccountIdOf (Some a))"
    and "channelRouteThreadId (Some r) = normalizeOptionalThreadValue (riThreadId i)"
    and "crChannel r \<noteq> None \<or> channelRouteTarget (Some r) \<noteq> None \<or> crAccountId r \<noteq> None \<or> channelRouteThreadId (Some r) \<noteq> None"
proof -
  note n = assms[unfolded normalizeChannelRouteRef_def Let_def option.case if_None_Some]
  have r: "r = \<lparr>crChannel = (if lower_or_empty (riChannel i) = [] then None else Some (lower_or_empty (riChannel i))),
      crAccountId = (case riAccountId i of None \<Rightarrow> None | Some a \<Rightarrow> optionalAccountIdOf (Some a)),
      crTarget = map_option (\<lambda>t. \<lparr>rtTo = t,
        rtRawTo = (case normalizeOptionalString (riRawTo i) of None \<Rightarrow> None | Some w \<Rightarrow> if w = t then None else Some w),
        rtChatType = riChatType i\<rparr>) (normalizeOptionalString (riTo i)),
      crThread = map_option (\<lambda>t. \<lparr>rtId = t, rtKind = riThreadKind i, rtSource = riThreadSource i\<rparr>)
        (normalizeRouteThreadId (riThreadId i))\<rparr>" by (rule conjunct2[OF n])
  have some: "lower_or_empty (riChannel i) \<noteq> [] \<or> normalizeOptionalString (riTo i) \<noteq> None
      \<or> (case riAccountId i of None \<Rightarrow> None | Some a \<Rightarrow> optionalAccountIdOf (Some a)) \<noteq> None
      \<or> normalizeRouteThreadId (riThreadId i) \<noteq> None"
    by (rule conjunct1[OF n, unfolded de_Morgan_conj])
  show "crChannel r = (if lower_or_empty (riChannel i) = [] then None else Some (lower_or_empty (riChannel i)))"
    and "channelRouteTarget (Some r) = normalizeOptionalString (riTo i)"
    and "crAccountId r = (case riAccountId i of None \<Rightarrow> None | Some a \<Rightarrow> optionalAccountIdOf (Some a))"
    and "channelRouteThreadId (Some r) = normalizeOptionalThreadValue (riThreadId i)"
    by (simp_all add: r channelRouteTarget_def channelRouteThreadId_def normalizeRouteThreadId_def option.map_comp comp_def option.map_ident)
  then show "crChannel r \<noteq> None \<or> channelRouteTarget (Some r) \<noteq> None \<or> crAccountId r \<noteq> None \<or> channelRouteThreadId (Some r) \<noteq> None"
    using some by (metis normalizeRouteThreadId_def option.distinct(1))
qed

lemma normal_parts:
  assumes "normalizeChannelRouteRef input = Some r"
  shows "crChannel r \<noteq> Some []" and "channelRouteTarget (Some r) \<noteq> Some []" and "crAccountId r \<noteq> Some []"
    and "stringifyRouteThreadId (map_option tid_value (channelRouteThreadId (Some r))) =
         map_option tid_string (channelRouteThreadId (Some r))"
    and "map_option tid_string (channelRouteThreadId (Some r)) \<noteq> Some []"
    and "crChannel r \<noteq> None \<or> channelRouteTarget (Some r) \<noteq> None \<or> crAccountId r \<noteq> None \<or> channelRouteThreadId (Some r) \<noteq> None"
proof -
  obtain i where i: "input = Some i" using assms by (cases input) (simp_all add: normalizeChannelRouteRef_def)
  note f = normal_ref_fields[OF assms[unfolded i]]
  show "crChannel r \<noteq> Some []" "channelRouteTarget (Some r) \<noteq> Some []" by (simp_all add: f(1,2))
  show "crAccountId r \<noteq> Some []" by (simp add: f(3) split: option.split)
  show "stringifyRouteThreadId (map_option tid_value (channelRouteThreadId (Some r))) =
         map_option tid_string (channelRouteThreadId (Some r))"
    using normal_tid_value[of "riThreadId i"]
    by (cases "normalizeOptionalThreadValue (riThreadId i)")
      (simp_all add: f(4) stringifyRouteThreadId_def normalizeRouteThreadId_def, simp add: normalizeOptionalThreadValue_def)
  show "map_option tid_string (channelRouteThreadId (Some r)) \<noteq> Some []"
    using tid_string_normal[of "riThreadId i"] by (auto simp: f(4))
  show "crChannel r \<noteq> None \<or> channelRouteTarget (Some r) \<noteq> None \<or> crAccountId r \<noteq> None \<or> channelRouteThreadId (Some r) \<noteq> None"
    by (rule f(5))
qed

lemma normal_target_ref:
  "normalizeChannelRouteTarget input = Some r \<Longrightarrow> \<exists>i. normalizeChannelRouteRef i = Some r"
  by (auto simp: normalizeChannelRouteTarget_def split: option.splits)

lemma nullish_eq: "a \<noteq> Some [] \<Longrightarrow> b \<noteq> Some [] \<Longrightarrow> js_nullish a [] = js_nullish b [] \<longleftrightarrow> a = b"
  by (cases a; cases b) auto

text \<open>
  C25: The key by which messages are deduplicated names the route exactly: two inputs have the
  same key if and only if they are the same route in every part - or neither is a route at all.
\<close>

theorem dedupe_key_names_route:
  "(channelRouteDedupeKey a = channelRouteDedupeKey b) =
     (channelRouteTargetsMatchExact a b
      \<or> normalizeChannelRouteTarget a = None \<and> normalizeChannelRouteTarget b = None)"
proof (cases "normalizeChannelRouteTarget a"; cases "normalizeChannelRouteTarget b")
  fix l r
  assume l: "normalizeChannelRouteTarget a = Some l" and r: "normalizeChannelRouteTarget b = Some r"
  obtain i j where i: "normalizeChannelRouteRef i = Some l" and j: "normalizeChannelRouteRef j = Some r"
    using normal_target_ref l r by metis
  show ?thesis
    using normal_parts(1-5)[OF i] normal_parts(1-5)[OF j]
    by (simp add: channelRouteDedupeKey_def l r json_array_inj nullish_eq channelRouteTargetsMatchExact_def
        channelRoutesMatchExact_def accountsEqual_def threadIdsEqual_def Let_def)
next
  fix r
  assume l: "normalizeChannelRouteTarget a = None" and r: "normalizeChannelRouteTarget b = Some r"
  obtain j where j: "normalizeChannelRouteRef j = Some r" using normal_target_ref r by metis
  show ?thesis
    using normal_parts[OF j]
    by (auto simp: channelRouteDedupeKey_def l r json_array_inj channelRouteTargetsMatchExact_def
        channelRoutesMatchExact_def channelRouteTarget_def channelRouteThreadId_def stringifyRouteThreadId_def
        normalizeRouteThreadId_def normalizeOptionalThreadValue_def split: option.splits)
next
  fix l
  assume l: "normalizeChannelRouteTarget a = Some l" and r: "normalizeChannelRouteTarget b = None"
  obtain j where j: "normalizeChannelRouteRef j = Some l" using normal_target_ref l by metis
  show ?thesis
    using normal_parts[OF j]
    by (auto simp: channelRouteDedupeKey_def l r json_array_inj channelRouteTargetsMatchExact_def
        channelRoutesMatchExact_def channelRouteTarget_def channelRouteThreadId_def stringifyRouteThreadId_def
        normalizeRouteThreadId_def normalizeOptionalThreadValue_def split: option.splits)
qed (simp add: channelRouteDedupeKey_def)

end
