(* ===== verification/Followup_Queue.thy ===== *)
theory Followup_Queue
  imports Command_Queue Dedupe_Cache Channel_Route
begin

text \<open>
  \<open>src/auto-reply/reply/queue/\<close> (\<open>types.ts\<close>, \<open>state.ts\<close>, \<open>normalize.ts\<close>, \<open>settings.ts\<close>) and
  \<open>src/utils/queue-helpers.ts\<close>: the messages that arrive while an agent is busy, queued per
  session. A queue is an object that a drain keeps using after the map has forgotten it, so the
  queues are a list and the map holds positions. What the code does not look into - images,
  contexts, delivery correlations, lifecycles, callbacks - is a number. An abort signal is a
  number or the union of others; \<open>fuAborted\<close> lists the ones that are aborted. The ellipsis, which
  is not a code unit below 256, is written as code unit 133.
\<close>

section \<open>Messages\<close>

datatype queue_mode = Q_steer | Q_followup | Q_collect | Q_interrupt
datatype drop_policy = Drop_old | Drop_new | Drop_summarize
datatype dedupe_mode = By_message_id | By_prompt | No_dedupe

datatype abort_signal = Signal nat | AnyOf "abort_signal list"

record exec_overrides =
  exHost :: "string option"
  exSecurity :: "string option"
  exAsk :: "string option"
  exNode :: "string option"

record bash_elevated =
  beEnabled :: bool
  beAllowed :: bool
  beDefaultLevel :: string

text \<open>The part of \<open>FollowupRun["run"]\<close> that the queue reads or rewrites; \<open>ruRest\<close> is the rest.\<close>

record agent_run =
  ruSessionId :: string
  ruSessionFile :: string
  ruSenderId :: "string option"
  ruSenderName :: "string option"
  ruSenderUsername :: "string option"
  ruSenderE164 :: "string option"
  ruSenderIsOwner :: "bool option"
  ruExecOverrides :: "exec_overrides option"
  ruBashElevated :: "bash_elevated option"
  ruProvider :: string
  ruModel :: string
  ruHasModelOverride :: "bool option"
  ruModelOverrideSource :: "string option"
  ruAutoFallbackProvenance :: "bool option"
  ruAuthProfileId :: "string option"
  ruAuthProfileIdSource :: "string option"
  ruRest :: nat

record followup_run =
  frPrompt :: string
  frEventKind :: "string option"
  frInboundContext :: "nat option"
  frAbortSignal :: "abort_signal option"
  frCorrelations :: "nat list option"
  frLifecycle :: "nat option"
  frMessageId :: "string option"
  frSummaryLine :: "string option"
  frEnqueuedAt :: int
  frImages :: "nat list option"
  frImageOrder :: "nat list option"
  frChannel :: "string option"
  frTo :: "string option"
  frAccountId :: "string option"
  frThreadId :: "thread_value option"
  frRun :: agent_run

section \<open>Settings\<close>

definition normalizeQueueMode :: "string option \<Rightarrow> queue_mode option" where
  "normalizeQueueMode raw =
     (case normalizeOptionalLowercaseString raw of
        None \<Rightarrow> None
      | Some cleaned \<Rightarrow>
          if cleaned = ''interrupt'' \<or> cleaned = ''interrupts'' \<or> cleaned = ''abort'' then Some Q_interrupt
          else if cleaned = ''steer'' \<or> cleaned = ''steering'' then Some Q_steer
          else if cleaned = ''followup'' \<or> cleaned = ''follow-ups'' \<or> cleaned = ''followups'' then Some Q_followup
          else if cleaned = ''collect'' \<or> cleaned = ''coalesce'' then Some Q_collect
          else None)"

definition normalizePersistedQueueMode :: "string option \<Rightarrow> queue_mode option" where
  "normalizePersistedQueueMode raw =
     (case normalizeQueueMode raw of
        Some m \<Rightarrow> Some m
      | None \<Rightarrow>
          (case normalizeOptionalLowercaseString raw of
             None \<Rightarrow> None
           | Some cleaned \<Rightarrow>
               if cleaned = ''queue'' \<or> cleaned = ''queued'' then Some Q_steer
               else if cleaned = ''steer+backlog'' \<or> cleaned = ''steer-backlog'' \<or> cleaned = ''steer_backlog''
               then Some Q_followup
               else None))"

definition normalizeQueueDropPolicy :: "string option \<Rightarrow> drop_policy option" where
  "normalizeQueueDropPolicy raw =
     (case normalizeOptionalLowercaseString raw of
        None \<Rightarrow> None
      | Some cleaned \<Rightarrow>
          if cleaned = ''old'' \<or> cleaned = ''oldest'' then Some Drop_old
          else if cleaned = ''new'' \<or> cleaned = ''newest'' then Some Drop_new
          else if cleaned = ''summarize'' \<or> cleaned = ''summary'' then Some Drop_summarize
          else None)"

text \<open>A setting that is a number is a rational; the sources of the settings are arguments.\<close>

record queue_settings =
  qsMode :: queue_mode
  qsDebounceMs :: "rat option"
  qsCap :: "rat option"
  qsDropPolicy :: "drop_policy option"

record queue_config =
  qcMode :: "string option"
  qcByChannel :: "(string, string) jmap option"
  qcDebounceMs :: "rat option"
  qcDebounceMsByChannel :: "(string, rat) jmap option"
  qcCap :: "rat option"
  qcDrop :: "string option"

record queue_session =
  seQueueMode :: "string option"
  seQueueDebounceMs :: "rat option"
  seQueueCap :: "rat option"
  seQueueDrop :: "drop_policy option"

record queue_inline =
  inDebounceMs :: "rat option"
  inCap :: "rat option"
  inDropPolicy :: "drop_policy option"

definition DEFAULT_QUEUE_DEBOUNCE_MS :: rat where "DEFAULT_QUEUE_DEBOUNCE_MS = 500"
definition DEFAULT_QUEUE_CAP :: int where "DEFAULT_QUEUE_CAP = 20"
definition DEFAULT_QUEUE_DROP :: drop_policy where "DEFAULT_QUEUE_DROP = Drop_summarize"

definition defaultQueueModeForChannel :: "string option \<Rightarrow> queue_mode" where
  "defaultQueueModeForChannel channel = Q_steer"

definition resolveChannelDebounce :: "(string, rat) jmap option \<Rightarrow> string option \<Rightarrow> rat option" where
  "resolveChannelDebounce byChannel channelKey =
     Option.bind channelKey (\<lambda>k. Option.bind byChannel (\<lambda>m. map_option (max 0) (jm_get m k)))"

definition resolveQueueSettings ::
  "queue_config option \<Rightarrow> string option \<Rightarrow> queue_session option \<Rightarrow> queue_mode option \<Rightarrow> queue_inline option
   \<Rightarrow> rat option \<Rightarrow> queue_settings" where
  "resolveQueueSettings cfg channel session inlineMode inlineOptions pluginDebounceMs =
     (let channelKey = normalizeOptionalLowercaseString channel;
          providerModeRaw = Option.bind channelKey (\<lambda>k. Option.bind (Option.bind cfg qcByChannel) (\<lambda>m. jm_get m k));
          mode = js_nullish (opt_else inlineMode
                   (opt_else (normalizePersistedQueueMode (Option.bind session seQueueMode))
                     (opt_else (normalizeQueueMode providerModeRaw)
                       (normalizeQueueMode (Option.bind cfg qcMode)))))
                   (defaultQueueModeForChannel channelKey);
          debounce = js_nullish (opt_else (Option.bind inlineOptions inDebounceMs)
                       (opt_else (Option.bind session seQueueDebounceMs)
                         (opt_else (resolveChannelDebounce (Option.bind cfg qcDebounceMsByChannel) channelKey)
                           (opt_else pluginDebounceMs (Option.bind cfg qcDebounceMs)))))
                       DEFAULT_QUEUE_DEBOUNCE_MS;
          cap = js_nullish (opt_else (Option.bind inlineOptions inCap)
                  (opt_else (Option.bind session seQueueCap) (Option.bind cfg qcCap)))
                  (of_int DEFAULT_QUEUE_CAP);
          drop = js_nullish (opt_else (Option.bind inlineOptions inDropPolicy)
                   (opt_else (Option.bind session seQueueDrop)
                     (normalizeQueueDropPolicy (Option.bind cfg qcDrop))))
                   DEFAULT_QUEUE_DROP
      in \<lparr>qsMode = mode, qsDebounceMs = Some (max 0 debounce), qsCap = Some (of_int (max 1 \<lfloor>cap\<rfloor>)),
          qsDropPolicy = Some drop\<rparr>)"

section \<open>A queue\<close>

text \<open>
  What the drain of a queue waits for. \<open>After\<close> says whether the debounce is over. A snapshot is
  the count and the lines of the dropped messages when a summary was made of them.
\<close>

type_synonym drop_snapshot = "nat \<times> string list"

datatype head_kind = CollectHead | PlainHead | SummaryHead drop_snapshot

datatype drain_pc =
    NotDraining
  | ScanRun (scanAfter: bool) nat nat followup_run
  | ScanDone (scanAfter: bool) nat
  | DebounceTimer rat
  | Debounced
  | HeadRun head_kind
  | LoopAgain
  | CollectSkipped
  | CollectEmpty
  | SummaryRun drop_snapshot
  | SummaryDone
  | GroupRun "followup_run list" "drop_snapshot option" "followup_run list list"

record followup_queue =
  fqKey :: string
  fqItems :: "followup_run list"
  fqDraining :: bool
  fqLastEnqueuedAt :: int
  fqMode :: queue_mode
  fqDebounceMs :: rat
  fqCap :: int
  fqDropPolicy :: drop_policy
  fqDroppedCount :: nat
  fqSummaryLines :: "string list"
  fqSummarySources :: "followup_run list"
  fqLastRun :: "agent_run option"
  fqPc :: drain_pc
  fqForceIndividual :: bool
  fqCallback :: nat

record followups =
  fuQueues :: "followup_queue list"
  fuByKey :: "(string, nat) jmap"
  fuCallbacks :: "(string, nat) jmap"
  fuRecent :: dedupe_cache
  fuEnqueued :: "nat list"
  fuCompleted :: "nat list"
  fuAborted :: "nat list"
  fuCalls :: "(nat \<times> followup_run) list"

definition no_followups :: followups where
  "no_followups = \<lparr>fuQueues = [], fuByKey = [], fuCallbacks = [],
     fuRecent = createDedupeCache (5 * 60 * 1000) 10000, fuEnqueued = [], fuCompleted = [], fuAborted = [], fuCalls = []\<rparr>"

definition fq_at :: "followups \<Rightarrow> nat \<Rightarrow> followup_queue" where
  "fq_at st i = fuQueues st ! i"

definition upd_fq :: "nat \<Rightarrow> (followup_queue \<Rightarrow> followup_queue) \<Rightarrow> followups \<Rightarrow> followups" where
  "upd_fq i f st = st\<lparr>fuQueues := (fuQueues st)[i := f (fuQueues st ! i)]\<rparr>"

fun signal_aborted :: "nat list \<Rightarrow> abort_signal \<Rightarrow> bool" where
  "signal_aborted gone (Signal n) = List.member gone n"
| "signal_aborted gone (AnyOf ss) = list_ex (signal_aborted gone) ss"

definition isFollowupRunAborted :: "nat list \<Rightarrow> followup_run \<Rightarrow> bool" where
  "isFollowupRunAborted gone r = (case frAbortSignal r of None \<Rightarrow> False | Some s \<Rightarrow> signal_aborted gone s)"

definition markFollowupRunEnqueued :: "followup_run \<Rightarrow> followups \<Rightarrow> followups" where
  "markFollowupRunEnqueued r st =
     (case frLifecycle r of
        None \<Rightarrow> st
      | Some l \<Rightarrow> if List.member (fuEnqueued st) l then st else st\<lparr>fuEnqueued := fuEnqueued st @ [l]\<rparr>)"

definition completeFollowupRunLifecycle :: "followup_run \<Rightarrow> followups \<Rightarrow> followups" where
  "completeFollowupRunLifecycle r st =
     (case frLifecycle r of
        None \<Rightarrow> st
      | Some l \<Rightarrow> if List.member (fuCompleted st) l then st else st\<lparr>fuCompleted := fuCompleted st @ [l]\<rparr>)"

definition applyQueueRuntimeSettings :: "queue_settings \<Rightarrow> followup_queue \<Rightarrow> followup_queue" where
  "applyQueueRuntimeSettings s q =
     q\<lparr>fqMode := qsMode s,
       fqDebounceMs := (case qsDebounceMs s of None \<Rightarrow> fqDebounceMs q | Some d \<Rightarrow> max 0 d),
       fqCap := (case qsCap s of None \<Rightarrow> fqCap q | Some c \<Rightarrow> if c > 0 then \<lfloor>c\<rfloor> else fqCap q),
       fqDropPolicy := js_nullish (qsDropPolicy s) (fqDropPolicy q)\<rparr>"

definition getExistingFollowupQueue :: "string \<Rightarrow> followups \<Rightarrow> nat option" where
  "getExistingFollowupQueue key st =
     (let cleaned = js_trim key in if cleaned = [] then None else jm_get (fuByKey st) cleaned)"

definition created_queue :: "string \<Rightarrow> queue_settings \<Rightarrow> followup_queue" where
  "created_queue key s = \<lparr>fqKey = key, fqItems = [], fqDraining = False, fqLastEnqueuedAt = 0, fqMode = qsMode s,
     fqDebounceMs = (case qsDebounceMs s of None \<Rightarrow> DEFAULT_QUEUE_DEBOUNCE_MS | Some d \<Rightarrow> max 0 d),
     fqCap = (case qsCap s of None \<Rightarrow> DEFAULT_QUEUE_CAP | Some c \<Rightarrow> if c > 0 then \<lfloor>c\<rfloor> else DEFAULT_QUEUE_CAP),
     fqDropPolicy = js_nullish (qsDropPolicy s) DEFAULT_QUEUE_DROP,
     fqDroppedCount = 0, fqSummaryLines = [], fqSummarySources = [], fqLastRun = None,
     fqPc = NotDraining, fqForceIndividual = False, fqCallback = 0\<rparr>"

definition getFollowupQueue :: "string \<Rightarrow> queue_settings \<Rightarrow> followups \<Rightarrow> nat \<times> followups" where
  "getFollowupQueue key s st =
     (case jm_get (fuByKey st) key of
        Some i \<Rightarrow> (i, upd_fq i (applyQueueRuntimeSettings s) st)
      | None \<Rightarrow>
          (length (fuQueues st),
           st\<lparr>fuQueues := fuQueues st @ [applyQueueRuntimeSettings s (created_queue key s)],
              fuByKey := jm_set key (length (fuQueues st)) (fuByKey st)\<rparr>))"

definition clearFollowupQueue :: "string \<Rightarrow> followups \<Rightarrow> nat \<times> followups" where
  "clearFollowupQueue key st =
     (let cleaned = js_trim key
      in case getExistingFollowupQueue cleaned st of
           None \<Rightarrow> (0, st)
         | Some i \<Rightarrow>
             (let q = fq_at st i;
                  st1 = fold completeFollowupRunLifecycle (fqItems q @ fqSummarySources q) st;
                  st2 = upd_fq i (\<lambda>q. q\<lparr>fqItems := [], fqDroppedCount := 0, fqSummaryLines := [],
                          fqSummarySources := [], fqLastRun := None, fqLastEnqueuedAt := 0\<rparr>) st1
              in (length (fqItems q) + fqDroppedCount q, st2\<lparr>fuByKey := jm_del cleaned (fuByKey st2)\<rparr>)))"

section \<open>Rewriting queued sessions\<close>

text \<open>
  A parameter that may be absent, or be there without a value, is an option of an option. The
  run of the last message is an object that its item shares: rewriting it twice is rewriting it
  once (lemma \<open>rewriteRun_idem\<close>), so each copy is rewritten on its own.
\<close>

record refresh_params =
  rpPreviousSessionId :: "string option"
  rpNextSessionId :: "string option"
  rpNextSessionFile :: "string option"
  rpNextProvider :: "string option"
  rpNextModel :: "string option"
  rpNextModelOverrideSource :: "string option option"
  rpNextAuthProfileId :: "string option option"
  rpNextAuthProfileIdSource :: "string option option"

definition rewrites_session :: "refresh_params \<Rightarrow> bool" where
  "rewrites_session p \<longleftrightarrow> \<not> falsy_text (rpPreviousSessionId p) \<and> \<not> falsy_text (rpNextSessionId p)
     \<and> rpPreviousSessionId p \<noteq> rpNextSessionId p"

definition rewrites_model :: "refresh_params \<Rightarrow> bool" where
  "rewrites_model p \<longleftrightarrow> rpNextProvider p \<noteq> None \<or> rpNextModel p \<noteq> None \<or> rpNextModelOverrideSource p \<noteq> None"

definition rewrites_selection :: "refresh_params \<Rightarrow> bool" where
  "rewrites_selection p \<longleftrightarrow> rewrites_model p \<or> rpNextAuthProfileId p \<noteq> None \<or> rpNextAuthProfileIdSource p \<noteq> None"

definition rewrite_session :: "refresh_params \<Rightarrow> agent_run \<Rightarrow> agent_run" where
  "rewrite_session p r =
     (if rewrites_session p \<and> Some (ruSessionId r) = rpPreviousSessionId p
      then r\<lparr>ruSessionId := js_nullish (rpNextSessionId p) [],
             ruSessionFile := js_nullish (normalizeOptionalString (rpNextSessionFile p)) (ruSessionFile r)\<rparr>
      else r)"

definition rewrite_selection :: "refresh_params \<Rightarrow> agent_run \<Rightarrow> agent_run" where
  "rewrite_selection p r =
     (if \<not> rewrites_selection p then r
      else let r1 = r\<lparr>ruProvider := js_nullish (rpNextProvider p) (ruProvider r),
                      ruModel := js_nullish (rpNextModel p) (ruModel r)\<rparr>;
               r2 = (if rewrites_model p then r1\<lparr>ruAutoFallbackProvenance := None\<rparr> else r1);
               r3 = (case rpNextModelOverrideSource p of
                       None \<Rightarrow> r2
                     | Some src \<Rightarrow> r2\<lparr>ruHasModelOverride := Some (ruProvider r2 \<noteq> [] \<or> ruModel r2 \<noteq> []),
                                      ruModelOverrideSource := src\<rparr>);
               r4 = (case rpNextAuthProfileId p of
                       None \<Rightarrow> r3 | Some a \<Rightarrow> r3\<lparr>ruAuthProfileId := normalizeOptionalString a\<rparr>)
           in (case rpNextAuthProfileIdSource p of
                 None \<Rightarrow> r4
               | Some src \<Rightarrow> r4\<lparr>ruAuthProfileIdSource := (if falsy_text (ruAuthProfileId r4) then None else src)\<rparr>))"

definition rewriteRun :: "refresh_params \<Rightarrow> agent_run \<Rightarrow> agent_run" where
  "rewriteRun p r = rewrite_selection p (rewrite_session p r)"

definition refreshQueuedFollowupSession :: "string \<Rightarrow> refresh_params \<Rightarrow> followups \<Rightarrow> followups" where
  "refreshQueuedFollowupSession key p st =
     (case getExistingFollowupQueue (js_trim key) st of
        None \<Rightarrow> st
      | Some i \<Rightarrow>
          if \<not> rewrites_session p \<and> \<not> rewrites_selection p then st
          else upd_fq i (\<lambda>q. q\<lparr>fqLastRun := map_option (rewriteRun p) (fqLastRun q),
                 fqItems := map (frRun_update (rewriteRun p)) (fqItems q)\<rparr>) st)"

lemma rewrite_session_idem: "rewrite_session p (rewrite_session p r) = rewrite_session p r"
  by (cases "rpNextSessionId p"; cases "normalizeOptionalString (rpNextSessionFile p)")
    (auto simp: rewrite_session_def rewrites_session_def)

lemma rewrite_selection_keeps [simp]:
  "ruSessionId (rewrite_selection p r) = ruSessionId r" "ruSessionFile (rewrite_selection p r) = ruSessionFile r"
  "rewrite_selection p (r\<lparr>ruSessionId := a, ruSessionFile := b\<rparr>) = (rewrite_selection p r)\<lparr>ruSessionId := a, ruSessionFile := b\<rparr>"
  by (simp_all add: rewrite_selection_def Let_def split: option.split)

lemma rewrite_commute: "rewrite_session p (rewrite_selection p r) = rewrite_selection p (rewrite_session p r)"
  by (simp add: rewrite_session_def)

lemma rewrite_selection_idem: "rewrite_selection p (rewrite_selection p r) = rewrite_selection p r"
  by (rule agent_run.equality; cases "rpNextProvider p"; cases "rpNextModel p"; cases "rpNextModelOverrideSource p";
      cases "rpNextAuthProfileId p"; cases "rpNextAuthProfileIdSource p")
    (simp_all add: rewrite_selection_def rewrites_selection_def rewrites_model_def Let_def)

text \<open>Rewriting a run that two records share, once for each of them, rewrites it once.\<close>

lemma rewriteRun_idem: "rewriteRun p (rewriteRun p r) = rewriteRun p r"
  by (simp add: rewriteRun_def rewrite_commute rewrite_session_idem rewrite_selection_idem)

end
