(* ===== verification/Followup_Drain.thy ===== *)
theory Followup_Drain
  imports Followup_Queue
begin

text \<open>
  \<open>src/auto-reply/reply/queue/enqueue.ts\<close>, \<open>drain.ts\<close> and \<open>cleanup.ts\<close>, with the rest of
  \<open>src/utils/queue-helpers.ts\<close>: dropping on overflow, and the drain of a queue. The drain is an
  asynchronous loop. \<open>fqPc\<close> says which \<open>await\<close> it has reached, and \<open>resume\<close> is everything it does
  from there to the next one, on whatever the queue has become in the meantime: other calls may
  have enqueued, dropped, cleared or rewritten. The callback that runs a message is called
  (\<open>fuCalls\<close> is the log of the calls) and later answers with an outcome. The environment variable
  that turns the debounce off for tests is unset.
\<close>

section \<open>Dropping on overflow\<close>

definition js_trim_end :: "string \<Rightarrow> string" where
  "js_trim_end s = rev (dropWhile js_space (rev s))"

definition elideQueueText :: "string \<Rightarrow> nat \<Rightarrow> string" where
  "elideQueueText txt limit =
     (if length txt \<le> limit then txt else js_trim_end (take (limit - 1) txt) @ [CHR 0x85])"

lemma length_dropWhile_Suc [termination_simp]: "length (dropWhile P s) < Suc (length s)"
  using length_dropWhile_le[of P s] by simp

text \<open>Each run of white space becomes one blank.\<close>

fun collapse_spaces :: "string \<Rightarrow> string" where
  "collapse_spaces [] = []"
| "collapse_spaces (c # s) =
     (if js_space c then CHR '' '' # collapse_spaces (dropWhile js_space s) else c # collapse_spaces s)"

definition buildQueueSummaryLine :: "string \<Rightarrow> string" where
  "buildQueueSummaryLine txt = elideQueueText (js_trim (collapse_spaces txt)) 160"

text \<open>
  The result says whether the new message may be queued, and what was dropped for it.
\<close>

definition applyQueueDropPolicy :: "(followup_run \<Rightarrow> string) \<Rightarrow> followup_queue \<Rightarrow> bool \<times> followup_run list \<times> followup_queue" where
  "applyQueueDropPolicy summarize q =
     (if fqCap q \<le> 0 \<or> int (length (fqItems q)) < fqCap q then (True, [], q)
      else if fqDropPolicy q = Drop_new then (False, [], q)
      else (let dropCount = length (fqItems q) - nat (fqCap q) + 1;
                dropped = take dropCount (fqItems q);
                q1 = q\<lparr>fqItems := drop dropCount (fqItems q)\<rparr>
            in if fqDropPolicy q \<noteq> Drop_summarize then (True, dropped, q1)
               else (let ls = fqSummaryLines q @ map (\<lambda>r. buildQueueSummaryLine (summarize r)) dropped
                     in (True, dropped,
                         q1\<lparr>fqDroppedCount := fqDroppedCount q + length dropped,
                            fqSummaryLines := drop (length ls - nat (fqCap q)) ls\<rparr>))))"

definition complete_all :: "followup_run list \<Rightarrow> followups \<Rightarrow> followups" where
  "complete_all rs st = fold completeFollowupRunLifecycle rs st"

definition clearQueueSummaryState :: "followup_queue \<Rightarrow> followup_queue" where
  "clearQueueSummaryState q = q\<lparr>fqDroppedCount := 0, fqSummaryLines := []\<rparr>"

definition queue_summary_title :: "nat \<Rightarrow> string \<Rightarrow> string" where
  "queue_summary_title n noun =
     ''[Queue overflow] Dropped '' @ js_digits n @ '' '' @ noun @ (if n = 1 then [] else ''s'') @ '' due to cap.''"

text \<open>The prompt that tells about dropped messages; the state it is made of is cleared by the caller.\<close>

definition buildQueueSummaryPrompt :: "drop_policy \<Rightarrow> nat \<Rightarrow> string list \<Rightarrow> string \<Rightarrow> string option" where
  "buildQueueSummaryPrompt policy n ls noun =
     (if policy \<noteq> Drop_summarize \<or> n = 0 then None
      else Some (js_join [CHR 0x0A]
        (queue_summary_title n noun # (if ls = [] then [] else ''Summary:'' # map (\<lambda>l. ''- '' @ l) ls))))"

definition previewQueueSummaryPrompt :: "followup_queue \<Rightarrow> string option" where
  "previewQueueSummaryPrompt q =
     buildQueueSummaryPrompt (fqDropPolicy q) (fqDroppedCount q) (fqSummaryLines q) ''message''"

definition summary_snapshot :: "followup_queue \<Rightarrow> drop_snapshot" where
  "summary_snapshot q = (fqDroppedCount q, fqSummaryLines q)"

definition restore_summary :: "drop_snapshot \<Rightarrow> followup_queue \<Rightarrow> followup_queue" where
  "restore_summary snap q =
     (let (n, ls) = snap
      in if fqDroppedCount q \<ge> n \<and> take (length ls) (fqSummaryLines q) = ls then q
         else q\<lparr>fqDroppedCount := (if fqDroppedCount q \<ge> n then fqDroppedCount q else fqDroppedCount q + n),
                fqSummaryLines := ls @ fqSummaryLines q\<rparr>)"

definition completeFollowupQueueSummarySources :: "nat \<Rightarrow> followups \<Rightarrow> followups" where
  "completeFollowupQueueSummarySources i st =
     upd_fq i (\<lambda>q. q\<lparr>fqSummarySources := []\<rparr>) (complete_all (fqSummarySources (fq_at st i)) st)"

definition clearFollowupQueueSummaryState :: "nat \<Rightarrow> followups \<Rightarrow> followups" where
  "clearFollowupQueueSummaryState i st =
     upd_fq i clearQueueSummaryState (completeFollowupQueueSummarySources i st)"

section \<open>What a collected run is made of\<close>

definition or_text :: "string option \<Rightarrow> string option \<Rightarrow> string option" where
  "or_text a b = (if \<not> falsy_text a then a else if \<not> falsy_text b then b else a)"

definition real_thread :: "thread_value option \<Rightarrow> bool" where
  "real_thread t \<longleftrightarrow> t \<noteq> None \<and> t \<noteq> Some (ThreadText [])"

record routing_metadata =
  rmChannel :: "string option"
  rmTo :: "string option"
  rmAccountId :: "string option"
  rmThreadId :: "thread_value option"

fun origin_loop :: "followup_run list \<Rightarrow> routing_metadata \<Rightarrow> routing_metadata" where
  "origin_loop [] m = m"
| "origin_loop (r # rs) m =
     (let m' = \<lparr>rmChannel = or_text (rmChannel m) (frChannel r), rmTo = or_text (rmTo m) (frTo r),
                rmAccountId = or_text (rmAccountId m) (frAccountId r),
                rmThreadId = (if rmThreadId m = None \<and> real_thread (frThreadId r) then frThreadId r else rmThreadId m)\<rparr>
      in if \<not> falsy_text (rmChannel m') \<and> \<not> falsy_text (rmTo m') \<and> \<not> falsy_text (rmAccountId m') \<and> rmThreadId m' \<noteq> None
         then m' else origin_loop rs m')"

definition resolveOriginRoutingMetadata :: "followup_run list \<Rightarrow> routing_metadata" where
  "resolveOriginRoutingMetadata rs =
     origin_loop rs \<lparr>rmChannel = None, rmTo = None, rmAccountId = None, rmThreadId = None\<rparr>"

definition resolveFollowupAuthorizationKey :: "agent_run \<Rightarrow> string" where
  "resolveFollowupAuthorizationKey r =
     json_array [JStr (js_nullish (ruSenderId r) []), JStr (js_nullish (ruSenderE164 r) []),
       JBool (ruSenderIsOwner r = Some True),
       JStr (js_nullish (Option.bind (ruExecOverrides r) exHost) []),
       JStr (js_nullish (Option.bind (ruExecOverrides r) exSecurity) []),
       JStr (js_nullish (Option.bind (ruExecOverrides r) exAsk) []),
       JStr (js_nullish (Option.bind (ruExecOverrides r) exNode) []),
       JBool (map_option beEnabled (ruBashElevated r) = Some True),
       JBool (map_option beAllowed (ruBashElevated r) = Some True),
       JStr (js_nullish (map_option beDefaultLevel (ruBashElevated r)) [])]"

text \<open>The loop with its current group and its key; \<open>splitCollectItemsByAuthorization\<close> starts it empty.\<close>

fun split_auth :: "followup_run list \<Rightarrow> followup_run list \<Rightarrow> string option \<Rightarrow> followup_run list list" where
  "split_auth [] current key = (if current = [] then [] else [current])"
| "split_auth (r # rs) current key =
     (let itemKey = resolveFollowupAuthorizationKey (frRun r)
      in if current = [] \<or> key = Some itemKey then split_auth rs (current @ [r]) (Some itemKey)
         else current # split_auth rs [r] (Some itemKey))"

definition splitCollectItemsByAuthorization :: "followup_run list \<Rightarrow> followup_run list list" where
  "splitCollectItemsByAuthorization rs =
     (if length rs \<le> 1 then (if rs = [] then [] else [rs]) else split_auth rs [] None)"

definition senderLabel :: "agent_run \<Rightarrow> string option" where
  "senderLabel r =
     opt_else (ruSenderName r) (opt_else (ruSenderUsername r) (opt_else (ruSenderId r) (ruSenderE164 r)))"

definition renderCollectItem :: "followup_run \<Rightarrow> nat \<Rightarrow> string" where
  "renderCollectItem r idx =
     (let suffix = (if falsy_text (senderLabel (frRun r)) then []
                    else '' (from '' @ js_nullish (senderLabel (frRun r)) [] @ '')'')
      in js_trim (''---'' @ [CHR 0x0A] @ ''Queued #'' @ js_digits (idx + 1) @ suffix @ [CHR 0x0A] @ frPrompt r))"

definition buildCollectPrompt :: "string \<Rightarrow> followup_run list \<Rightarrow> string option \<Rightarrow> string" where
  "buildCollectPrompt title rs summary =
     js_join [CHR 0x0A, CHR 0x0A]
       (title # (if falsy_text summary then [] else [js_nullish summary []]) @
        map (\<lambda>(i, r). renderCollectItem r i) (zip [0..<length rs] rs))"

definition nonempty_list :: "'a list \<Rightarrow> 'a list option" where
  "nonempty_list xs = (if xs = [] then None else Some xs)"

definition hasCurrentTurnRuntimeMetadata :: "followup_run \<Rightarrow> bool" where
  "hasCurrentTurnRuntimeMetadata r \<longleftrightarrow> frEventKind r = Some ''room_event'' \<or> frInboundContext r \<noteq> None"

definition hasRuntimeOnlyFollowupMetadata :: "followup_run \<Rightarrow> bool" where
  "hasRuntimeOnlyFollowupMetadata r \<longleftrightarrow>
     hasCurrentTurnRuntimeMetadata r \<or> frAbortSignal r \<noteq> None
     \<or> js_nullish (frCorrelations r) [] \<noteq> [] \<or> frLifecycle r \<noteq> None"

definition combineAbortSignals :: "followup_run list \<Rightarrow> abort_signal option" where
  "combineAbortSignals rs =
     (case List.map_filter frAbortSignal rs of [] \<Rightarrow> None | [s] \<Rightarrow> Some s | ss \<Rightarrow> Some (AnyOf ss))"

text \<open>The run a callback gets: prompt, agent run and time, then routing, metadata and images.\<close>

definition collectRuntimeMetadata :: "followup_run list \<Rightarrow> followup_run option \<Rightarrow> followup_run \<Rightarrow> followup_run" where
  "collectRuntimeMetadata rs owner out =
     (let candidates = (case owner of None \<Rightarrow> rs | Some r \<Rightarrow> r # rs);
          currentTurn = (case owner of
             Some r \<Rightarrow> if hasCurrentTurnRuntimeMetadata r then Some r else find hasCurrentTurnRuntimeMetadata rs
           | None \<Rightarrow> find hasCurrentTurnRuntimeMetadata rs);
          correlations = concat (map (\<lambda>r. js_nullish (frCorrelations r) []) rs);
          lifecycleSource = opt_else owner (find (\<lambda>r. frLifecycle r \<noteq> None) rs)
      in out\<lparr>frEventKind := Option.bind currentTurn frEventKind,
             frInboundContext := Option.bind currentTurn frInboundContext,
             frAbortSignal := opt_else (Option.bind owner frAbortSignal) (combineAbortSignals candidates),
             frCorrelations := nonempty_list correlations,
             frLifecycle := opt_else (Option.bind owner frLifecycle)
               (if length rs = 1 then Option.bind lifecycleSource frLifecycle else None)\<rparr>)"

definition collectSummaryRuntimeMetadata :: "followup_run list \<Rightarrow> followup_run \<Rightarrow> followup_run" where
  "collectSummaryRuntimeMetadata rs out =
     collectRuntimeMetadata rs (if length rs = 1 then Some (hd rs) else None) out"

definition collectQueuedImages :: "followup_run list \<Rightarrow> followup_run \<Rightarrow> followup_run" where
  "collectQueuedImages rs out =
     out\<lparr>frImages := nonempty_list (concat (map (\<lambda>r. js_nullish (frImages r) []) rs)),
         frImageOrder := nonempty_list (concat (map (\<lambda>r. js_nullish (frImageOrder r) []) rs))\<rparr>"

definition bare_run :: "string \<Rightarrow> agent_run \<Rightarrow> int \<Rightarrow> routing_metadata \<Rightarrow> followup_run" where
  "bare_run prompt r now m = \<lparr>frPrompt = prompt, frEventKind = None, frInboundContext = None, frAbortSignal = None,
     frCorrelations = None, frLifecycle = None, frMessageId = None, frSummaryLine = None, frEnqueuedAt = now,
     frImages = None, frImageOrder = None, frChannel = rmChannel m, frTo = rmTo m, frAccountId = rmAccountId m,
     frThreadId = rmThreadId m, frRun = r\<rparr>"

definition no_routing :: routing_metadata where
  "no_routing = \<lparr>rmChannel = None, rmTo = None, rmAccountId = None, rmThreadId = None\<rparr>"

definition collected_run :: "int \<Rightarrow> followup_run list \<Rightarrow> string option \<Rightarrow> agent_run \<Rightarrow> followup_run" where
  "collected_run now rs summary r =
     collectQueuedImages rs (collectRuntimeMetadata rs None
       (bare_run (buildCollectPrompt ''[Queued messages while agent was busy]'' rs summary) r now
          (resolveOriginRoutingMetadata rs)))"

section \<open>Which messages may be collected\<close>

definition INTERNAL_MESSAGE_CHANNEL :: string where "INTERNAL_MESSAGE_CHANNEL = ''webchat''"

text \<open>Whether a channel is known is up to the plugins: \<open>known\<close> is an argument.\<close>

definition isRoutableChannel :: "(string \<Rightarrow> bool) \<Rightarrow> string option \<Rightarrow> bool" where
  "isRoutableChannel known channel =
     (case channel of None \<Rightarrow> False | Some c \<Rightarrow> c \<noteq> [] \<and> c \<noteq> INTERNAL_MESSAGE_CHANNEL \<and> known c)"

datatype cross_key = Cross | SameKey string | NoKey

definition followup_route :: "followup_run \<Rightarrow> route_target_input" where
  "followup_route r = \<lparr>riChannel = frChannel r, riAccountId = frAccountId r, riTo = frTo r, riRawTo = None,
     riChatType = None, riThreadId = frThreadId r\<rparr>"

definition resolveCrossChannelKey :: "(string \<Rightarrow> bool) \<Rightarrow> followup_run \<Rightarrow> cross_key" where
  "resolveCrossChannelKey known r =
     (if falsy_text (frChannel r) \<and> falsy_text (frTo r) \<and> falsy_text (frAccountId r) \<and> \<not> real_thread (frThreadId r)
      then NoKey
      else if \<not> isRoutableChannel known (frChannel r) \<or> falsy_text (frTo r) then Cross
      else (case channelRouteCompactKey (Some (RouteTarget (followup_route r))) of
              None \<Rightarrow> Cross | Some k \<Rightarrow> if k = [] then Cross else SameKey k))"

fun cross_loop :: "cross_key list \<Rightarrow> string list \<Rightarrow> bool" where
  "cross_loop [] keys = (length keys > 1)"
| "cross_loop (Cross # ks) keys = True"
| "cross_loop (NoKey # ks) keys = cross_loop ks keys"
| "cross_loop (SameKey k # ks) keys = cross_loop ks (js_add k keys)"

definition hasCrossChannelItems :: "(string \<Rightarrow> bool) \<Rightarrow> followup_run list \<Rightarrow> bool" where
  "hasCrossChannelItems known rs = cross_loop (map (resolveCrossChannelKey known) rs) []"

section \<open>The drain\<close>

text \<open>
  \<open>call_run\<close> calls the callback of the drain. Of a batch of microtasks that read nothing the
  others write, one step is made; every other \<open>await\<close> is a step of its own.
\<close>

datatype run_outcome = RunOk | RunDeferred | RunFailed

definition set_pc :: "nat \<Rightarrow> drain_pc \<Rightarrow> followups \<Rightarrow> followups" where
  "set_pc i pc st = upd_fq i (fqPc_update (\<lambda>_. pc)) st"

definition call_run :: "nat \<Rightarrow> followup_run \<Rightarrow> followups \<Rightarrow> followups" where
  "call_run i r st = st\<lparr>fuCalls := fuCalls st @ [(fqCallback (fq_at st i), r)]\<rparr>"

definition queue_pending :: "followup_queue \<Rightarrow> bool" where
  "queue_pending q \<longleftrightarrow> fqItems q \<noteq> [] \<or> fqDroppedCount q > 0"

text \<open>
  \<open>dropAbortedFollowups\<close> from an index down: it stops at the first aborted message, whose callback
  it awaits. \<open>n\<close> is the index plus one, \<open>dropped\<close> the count so far. The list may have become
  shorter while it waited: reading beyond its end is a type error, \<open>None\<close>.
\<close>

fun scan_aborted :: "nat list \<Rightarrow> followup_run list \<Rightarrow> nat \<Rightarrow> (nat \<times> followup_run) option option" where
  "scan_aborted gone items 0 = Some None"
| "scan_aborted gone items (Suc n) =
     (if n \<ge> length items then None
      else if isFollowupRunAborted gone (items ! n) then Some (Some (n, items ! n))
      else scan_aborted gone items n)"

text \<open>The end of a drain that leaves nothing to do: the map forgets the queue if it is still this one.\<close>

definition drain_ends :: "nat \<Rightarrow> followups \<Rightarrow> followups" where
  "drain_ends i st =
     (let st1 = upd_fq i (\<lambda>q. q\<lparr>fqDraining := False, fqPc := NotDraining\<rparr>) st; key = fqKey (fq_at st i)
      in if jm_get (fuByKey st1) key = Some i
         then st1\<lparr>fuByKey := jm_del key (fuByKey st1), fuCallbacks := jm_del key (fuCallbacks st1)\<rparr>
         else st1)"

text \<open>A scan that starts from the end of the list never reads beyond it.\<close>

definition start_scan :: "bool \<Rightarrow> nat \<Rightarrow> followups \<Rightarrow> followups" where
  "start_scan aft i st =
     (let items = fqItems (fq_at st i)
      in case scan_aborted (fuAborted st) items (length items) of
           Some (Some (n, r)) \<Rightarrow> set_pc i (ScanRun aft n 0 r) (call_run i r st)
         | _ \<Rightarrow> set_pc i (ScanDone aft 0) st)"

definition rememberFollowupDrainCallback :: "string \<Rightarrow> nat \<Rightarrow> followups \<Rightarrow> followups" where
  "rememberFollowupDrainCallback key cb st = st\<lparr>fuCallbacks := jm_set key cb (fuCallbacks st)\<rparr>"

definition clearFollowupDrainCallback :: "string \<Rightarrow> followups \<Rightarrow> followups" where
  "clearFollowupDrainCallback key st = st\<lparr>fuCallbacks := jm_del key (fuCallbacks st)\<rparr>"

definition beginQueueDrain :: "string \<Rightarrow> followups \<Rightarrow> (nat \<times> followups) option" where
  "beginQueueDrain key st =
     (case jm_get (fuByKey st) key of
        None \<Rightarrow> None
      | Some i \<Rightarrow> if fqDraining (fq_at st i) then None else Some (i, upd_fq i (fqDraining_update (\<lambda>_. True)) st))"

definition scheduleFollowupDrain :: "string \<Rightarrow> nat \<Rightarrow> followups \<Rightarrow> followups" where
  "scheduleFollowupDrain key cb st =
     (case beginQueueDrain key st of
        None \<Rightarrow> st
      | Some (i, st1) \<Rightarrow>
          (let eff = js_nullish (jm_get (fuCallbacks st1) key) cb;
               st2 = upd_fq i (\<lambda>q. q\<lparr>fqForceIndividual := False, fqCallback := eff\<rparr>)
                       (rememberFollowupDrainCallback key eff st1)
           in if queue_pending (fq_at st2 i) then start_scan False i st2 else drain_ends i st2))"

text \<open>The \<open>finally\<close> block: with work left it schedules a drain of whatever queue the key now has.\<close>

definition drain_finally :: "nat \<Rightarrow> followups \<Rightarrow> followups" where
  "drain_finally i st =
     (if queue_pending (fq_at st i)
      then scheduleFollowupDrain (fqKey (fq_at st i)) (fqCallback (fq_at st i))
             (upd_fq i (\<lambda>q. q\<lparr>fqDraining := False, fqPc := NotDraining\<rparr>) st)
      else drain_ends i st)"

definition drain_throws :: "int \<Rightarrow> nat \<Rightarrow> followups \<Rightarrow> followups" where
  "drain_throws now i st = drain_finally i (upd_fq i (fqLastEnqueuedAt_update (\<lambda>_. now)) st)"

definition loop_head :: "nat \<Rightarrow> followups \<Rightarrow> followups" where
  "loop_head i st = (if queue_pending (fq_at st i) then start_scan False i st else drain_finally i st)"

definition continue_scan :: "int \<Rightarrow> bool \<Rightarrow> nat \<Rightarrow> nat \<Rightarrow> nat \<Rightarrow> followups \<Rightarrow> followups" where
  "continue_scan now aft n dropped i st =
     (case scan_aborted (fuAborted st) (fqItems (fq_at st i)) n of
        None \<Rightarrow> drain_throws now i st
      | Some (Some (m, r)) \<Rightarrow> set_pc i (ScanRun aft m dropped r) (call_run i r st)
      | Some None \<Rightarrow> set_pc i (ScanDone aft dropped) st)"

text \<open>The check in \<open>waitForQueueDebounce\<close>, at the start and whenever its timer fires.\<close>

definition check_debounce :: "int \<Rightarrow> rat \<Rightarrow> nat \<Rightarrow> followups \<Rightarrow> followups" where
  "check_debounce now d i st =
     (if of_int (now - fqLastEnqueuedAt (fq_at st i)) \<ge> d then set_pc i Debounced st
      else set_pc i (DebounceTimer d) st)"

definition start_debounce :: "int \<Rightarrow> nat \<Rightarrow> followups \<Rightarrow> followups" where
  "start_debounce now i st =
     (let d = max 0 (fqDebounceMs (fq_at st i))
      in if d \<le> 0 then set_pc i Debounced st else check_debounce now d i st)"

definition shift_item :: "nat \<Rightarrow> followups \<Rightarrow> followups" where
  "shift_item i st = upd_fq i (\<lambda>q. q\<lparr>fqItems := drop 1 (fqItems q)\<rparr>) st"

section \<open>One turn of the loop\<close>

text \<open>\<open>drainCollectQueueStep\<close>: one message on its own when messages of several routes are mixed.\<close>

definition drainCollectQueueStep :: "bool \<Rightarrow> nat \<Rightarrow> followups \<Rightarrow> followups" where
  "drainCollectQueueStep isCrossChannel i st =
     (if \<not> fqForceIndividual (fq_at st i) \<and> \<not> isCrossChannel then set_pc i CollectSkipped st
      else (let st1 = (if isCrossChannel then upd_fq i (fqForceIndividual_update (\<lambda>_. True)) st else st)
            in case fqItems (fq_at st1 i) of
                 [] \<Rightarrow> set_pc i CollectEmpty st1
               | r # _ \<Rightarrow> set_pc i (HeadRun CollectHead) (call_run i r st1)))"

definition collect_turn :: "(string \<Rightarrow> bool) \<Rightarrow> nat \<Rightarrow> followups \<Rightarrow> followups" where
  "collect_turn known i st =
     (let q = fq_at st i;
          isCross = (hasCrossChannelItems known (fqItems q) \<or> list_ex hasRuntimeOnlyFollowupMetadata (fqItems q));
          st1 = (if fqForceIndividual q \<and> \<not> isCross \<and> length (fqItems q) > 1
                 then upd_fq i (fqForceIndividual_update (\<lambda>_. False)) st else st)
      in drainCollectQueueStep isCross i st1)"

text \<open>The head message run in place of itself, or in place of the summary of the dropped ones.\<close>

definition single_turn :: "int \<Rightarrow> nat \<Rightarrow> followups \<Rightarrow> followups" where
  "single_turn now i st =
     (let q = fq_at st i
      in case previewQueueSummaryPrompt q of
           Some prompt \<Rightarrow>
             (case fqLastRun q of
                None \<Rightarrow> drain_finally i (upd_fq i (restore_summary (summary_snapshot q)) st)
              | Some r \<Rightarrow>
                  (case fqItems q of
                     [] \<Rightarrow> drain_finally i st
                   | h # _ \<Rightarrow> set_pc i (HeadRun (SummaryHead (summary_snapshot q)))
                       (call_run i (collectQueuedImages [h] (collectSummaryRuntimeMetadata [h]
                         (bare_run prompt r now \<lparr>rmChannel = frChannel h, rmTo = frTo h,
                            rmAccountId = frAccountId h, rmThreadId = frThreadId h\<rparr>))) st)))
         | None \<Rightarrow>
             (case fqItems q of
                [] \<Rightarrow> drain_finally i st
              | h # _ \<Rightarrow> set_pc i (HeadRun PlainHead) (call_run i h st)))"

text \<open>The summary of the dropped messages alone; \<open>images\<close> says whether those of the queue go with it.\<close>

definition summary_turn :: "int \<Rightarrow> bool \<Rightarrow> nat \<Rightarrow> followups \<Rightarrow> followups" where
  "summary_turn now images i st =
     (let q = fq_at st i
      in case (previewQueueSummaryPrompt q, fqLastRun q) of
           (Some prompt, Some r) \<Rightarrow>
             (let out = collectSummaryRuntimeMetadata [] (bare_run prompt r now no_routing)
              in set_pc i (SummaryRun (summary_snapshot q))
                   (call_run i (if images then collectQueuedImages (fqItems q) out else out) st))
         | (Some prompt, None) \<Rightarrow> drain_finally i (upd_fq i (restore_summary (summary_snapshot q)) st)
         | (None, _) \<Rightarrow> drain_finally i st)"

definition start_group :: "int \<Rightarrow> (string \<times> drop_snapshot) option \<Rightarrow> followup_run list list \<Rightarrow> nat \<Rightarrow> followups \<Rightarrow> followups" where
  "start_group now pendingSummary groups i st =
     (case groups of
        [] \<Rightarrow> loop_head i st
      | g # gs \<Rightarrow>
          set_pc i (GroupRun g (map_option snd pendingSummary) gs)
            (call_run i (collected_run now g (map_option fst pendingSummary) (frRun (last g))) st))"

definition collect_groups :: "int \<Rightarrow> nat \<Rightarrow> followups \<Rightarrow> followups" where
  "collect_groups now i st =
     (let q = fq_at st i; groups = splitCollectItemsByAuthorization (fqItems q)
      in if groups = [] then summary_turn now False i st
         else start_group now (map_option (\<lambda>prompt. (prompt, summary_snapshot q)) (previewQueueSummaryPrompt q)) groups i st)"

text \<open>A failed run: the sources of a summary end unless it was deferred, and a deferred one is restored.\<close>

definition summary_fails :: "int \<Rightarrow> run_outcome \<Rightarrow> drop_snapshot \<Rightarrow> nat \<Rightarrow> followups \<Rightarrow> followups" where
  "summary_fails now out snap i st =
     drain_throws now i
       (if out = RunDeferred then upd_fq i (restore_summary snap) st
        else completeFollowupQueueSummarySources i st)"

section \<open>Resuming\<close>

definition resume_scan_done :: "(string \<Rightarrow> bool) \<Rightarrow> int \<Rightarrow> bool \<Rightarrow> nat \<Rightarrow> nat \<Rightarrow> followups \<Rightarrow> followups" where
  "resume_scan_done known now aft dropped i st =
     (let st1 = (if dropped > 0 \<and> fqItems (fq_at st i) = [] then clearFollowupQueueSummaryState i st else st)
      in if \<not> queue_pending (fq_at st1 i) then drain_finally i st1
         else if \<not> aft then start_debounce now i st1
         else if fqMode (fq_at st1 i) = Q_collect then collect_turn known i st1
         else single_turn now i st1)"

definition resume_head :: "int \<Rightarrow> run_outcome \<Rightarrow> head_kind \<Rightarrow> nat \<Rightarrow> followups \<Rightarrow> followups" where
  "resume_head now out kind i st =
     (case kind of
        SummaryHead snap \<Rightarrow>
          if out = RunOk then set_pc i SummaryDone (shift_item i (completeFollowupQueueSummarySources i st))
          else summary_fails now out snap i st
      | _ \<Rightarrow>
          if out = RunOk then set_pc i LoopAgain (shift_item i st) else drain_throws now i st)"

definition resume_group ::
  "int \<Rightarrow> run_outcome \<Rightarrow> followup_run list \<Rightarrow> drop_snapshot option \<Rightarrow> followup_run list list \<Rightarrow> nat \<Rightarrow> followups \<Rightarrow> followups" where
  "resume_group now out g pendingSummary gs i st =
     (case pendingSummary of
        None \<Rightarrow>
          if out \<noteq> RunOk then drain_throws now i st
          else start_group now None gs i (upd_fq i (\<lambda>q. q\<lparr>fqItems := drop (length g) (fqItems q)\<rparr>) st)
      | Some snap \<Rightarrow>
          if out \<noteq> RunOk then summary_fails now out snap i st
          else start_group now None gs i (clearFollowupQueueSummaryState i
                 (upd_fq i (\<lambda>q. q\<lparr>fqItems := drop (length g) (fqItems q)\<rparr>)
                   (completeFollowupQueueSummarySources i st))))"

definition remove_nth :: "nat \<Rightarrow> 'a list \<Rightarrow> 'a list" where
  "remove_nth n xs = take n xs @ drop (Suc n) xs"

definition resume :: "(string \<Rightarrow> bool) \<Rightarrow> int \<Rightarrow> run_outcome \<Rightarrow> nat \<Rightarrow> followups \<Rightarrow> followups" where
  "resume known now out i st =
     (case fqPc (fq_at st i) of
        NotDraining \<Rightarrow> st
      | ScanRun aft n dropped r \<Rightarrow>
          if out \<noteq> RunOk then drain_throws now i st
          else continue_scan now aft n (dropped + 1) i
                 (upd_fq i (\<lambda>q. q\<lparr>fqItems := remove_nth n (fqItems q)\<rparr>) (completeFollowupRunLifecycle r st))
      | ScanDone aft dropped \<Rightarrow> resume_scan_done known now aft dropped i st
      | DebounceTimer d \<Rightarrow> check_debounce now d i st
      | Debounced \<Rightarrow> start_scan True i st
      | HeadRun kind \<Rightarrow> resume_head now out kind i st
      | LoopAgain \<Rightarrow> loop_head i st
      | CollectSkipped \<Rightarrow> collect_groups now i st
      | CollectEmpty \<Rightarrow> summary_turn now True i st
      | SummaryRun snap \<Rightarrow>
          if out = RunOk then set_pc i SummaryDone (completeFollowupQueueSummarySources i st)
          else summary_fails now out snap i st
      | SummaryDone \<Rightarrow> loop_head i (clearFollowupQueueSummaryState i st)
      | GroupRun g pendingSummary gs \<Rightarrow> resume_group now out g pendingSummary gs i st)"

section \<open>Enqueueing\<close>

definition followupRouteIdentityKey :: "followup_run \<Rightarrow> string" where
  "followupRouteIdentityKey r = channelRouteDedupeKey (Some (followup_route r))"

definition buildRecentMessageIdKey :: "followup_run \<Rightarrow> string \<Rightarrow> string option" where
  "buildRecentMessageIdKey r queueKey =
     (case normalizeOptionalString (frMessageId r) of
        None \<Rightarrow> None
      | Some m \<Rightarrow> Some (json_array [JStr ''queue'', JStr queueKey, JStr (followupRouteIdentityKey r), JStr m]))"

definition isRunAlreadyQueued :: "followup_run \<Rightarrow> followup_run list \<Rightarrow> bool \<Rightarrow> bool" where
  "isRunAlreadyQueued r items allowPromptFallback =
     (case normalizeOptionalString (frMessageId r) of
        Some m \<Rightarrow> list_ex (\<lambda>t. normalizeOptionalString (frMessageId t) = Some m
                        \<and> followupRouteIdentityKey t = followupRouteIdentityKey r) items
      | None \<Rightarrow>
          allowPromptFallback \<and>
          list_ex (\<lambda>t. frPrompt t = frPrompt r \<and> followupRouteIdentityKey t = followupRouteIdentityKey r) items)"

definition kickFollowupDrainIfIdle :: "string \<Rightarrow> followups \<Rightarrow> followups" where
  "kickFollowupDrainIfIdle key st =
     (case jm_get (fuCallbacks st) key of None \<Rightarrow> st | Some cb \<Rightarrow> scheduleFollowupDrain key cb st)"

definition summary_text :: "followup_run \<Rightarrow> string" where
  "summary_text r =
     (case normalizeOptionalString (frSummaryLine r) of Some s \<Rightarrow> s | None \<Rightarrow> js_trim (frPrompt r))"

text \<open>What becomes of the dropped messages: sources of the summary, of which the oldest end, or they end.\<close>

definition drop_for_room :: "nat \<Rightarrow> followups \<Rightarrow> bool \<times> followups" where
  "drop_for_room i st =
     (case applyQueueDropPolicy summary_text (fq_at st i) of
        (ok, dropped, q) \<Rightarrow>
          (let st1 = upd_fq i (\<lambda>_. q) st;
               st2 = (if fqDropPolicy q = Drop_summarize
                      then upd_fq i (\<lambda>q. q\<lparr>fqSummarySources := fqSummarySources q @ dropped\<rparr>) st1
                      else complete_all dropped st1)
           in (ok,
               if fqDropPolicy q = Drop_summarize
               then (let q2 = fq_at st2 i; overflow = length (fqSummarySources q2) - length (fqSummaryLines q2)
                     in upd_fq i (\<lambda>q. q\<lparr>fqSummarySources := drop overflow (fqSummarySources q)\<rparr>)
                          (complete_all (take overflow (fqSummarySources q2)) st2))
               else st2)))"

definition enqueueFollowupRun ::
  "int \<Rightarrow> string \<Rightarrow> followup_run \<Rightarrow> queue_settings \<Rightarrow> dedupe_mode \<Rightarrow> nat option \<Rightarrow> bool \<Rightarrow> followups \<Rightarrow> bool \<times> followups" where
  "enqueueFollowupRun now key r settings dedupeMode runFollowup restartIfIdle st =
     (if isFollowupRunAborted (fuAborted st) r then (False, st)
      else (let (i, st1) = getFollowupQueue key settings st;
                recentKey = (if dedupeMode \<noteq> No_dedupe then buildRecentMessageIdKey r key else None);
                (recent, cache) = dedupe_peek recentKey now (fuRecent st1);
                st2 = st1\<lparr>fuRecent := cache\<rparr>
            in if recent then (False, st2)
               else if dedupeMode \<noteq> No_dedupe \<and> isRunAlreadyQueued r (fqItems (fq_at st2 i)) (dedupeMode = By_prompt)
               then (False, st2)
               else (let st3 = upd_fq i (\<lambda>q. q\<lparr>fqLastEnqueuedAt := now, fqLastRun := Some (frRun r)\<rparr>) st2;
                         (room, st4) = drop_for_room i st3
                     in if \<not> room then (False, st4)
                        else (let st5 = markFollowupRunEnqueued r (upd_fq i (\<lambda>q. q\<lparr>fqItems := fqItems q @ [r]\<rparr>) st4);
                                  st6 = st5\<lparr>fuRecent := snd (dedupe_check recentKey now (fuRecent st5))\<rparr>;
                                  st7 = (case runFollowup of None \<Rightarrow> st6
                                         | Some cb \<Rightarrow> rememberFollowupDrainCallback key cb st6)
                              in (True, if restartIfIdle \<and> \<not> fqDraining (fq_at st7 i)
                                        then kickFollowupDrainIfIdle key st7 else st7)))))"

definition getFollowupQueueDepth :: "string \<Rightarrow> followups \<Rightarrow> nat" where
  "getFollowupQueueDepth key st =
     (case getExistingFollowupQueue key st of None \<Rightarrow> 0 | Some i \<Rightarrow> length (fqItems (fq_at st i)))"

definition resetRecentQueuedMessageIdDedupe :: "followups \<Rightarrow> followups" where
  "resetRecentQueuedMessageIdDedupe st = st\<lparr>fuRecent := dedupe_clear (fuRecent st)\<rparr>"

section \<open>Clearing a session\<close>

text \<open>\<open>src/agents/pi-embedded-runner/lanes.ts\<close>: the lane of the command queue a session has.\<close>

definition resolveSessionLane :: "string \<Rightarrow> string" where
  "resolveSessionLane key =
     (let cleaned = js_or_str (js_trim key) CommandLane_Main
      in if js_starts_with cleaned ''session:'' then cleaned else ''session:'' @ cleaned)"

definition resolveGlobalLane :: "string option \<Rightarrow> string" where
  "resolveGlobalLane l =
     (let cleaned = map_option js_trim l
      in if cleaned = Some ''cron'' then ''cron-nested''
         else if falsy_text cleaned then CommandLane_Main else js_nullish cleaned [])"

definition resolveEmbeddedSessionLane :: "string \<Rightarrow> string" where
  "resolveEmbeddedSessionLane key = resolveSessionLane key"

record clear_result =
  crFollowups :: nat
  crLanes :: nat
  crKeys :: "string list"

definition clear_key :: "string option \<Rightarrow> clear_result \<times> followups \<times> queue_state \<Rightarrow> clear_result \<times> followups \<times> queue_state" where
  "clear_key key acc =
     (let (res, st, qs) = acc
      in case normalizeOptionalString key of
           None \<Rightarrow> acc
         | Some cleaned \<Rightarrow>
             if List.member (crKeys res) cleaned then acc
             else (let (n, st1) = clearFollowupQueue cleaned st;
                       st2 = clearFollowupDrainCallback cleaned st1;
                       (l, qs1) = clearCommandLane (resolveEmbeddedSessionLane cleaned) qs
                   in (\<lparr>crFollowups = crFollowups res + n, crLanes = crLanes res + l, crKeys = crKeys res @ [cleaned]\<rparr>,
                       st2, qs1)))"

definition clearSessionQueues :: "string option list \<Rightarrow> followups \<Rightarrow> queue_state \<Rightarrow> clear_result \<times> followups \<times> queue_state" where
  "clearSessionQueues keys st qs =
     fold clear_key keys (\<lparr>crFollowups = 0, crLanes = 0, crKeys = []\<rparr>, st, qs)"

end
