(* ===== verification/Followup_Batches.thy ===== *)
theory Followup_Batches
  imports Followup_Drain
begin

text \<open>
  What one call of the follow-up queue promises: a collected run never mixes the authority of
  two senders, a queue that takes a message stays within its cap, and a message that waits is
  not queued again.
\<close>

section \<open>Authority\<close>

text \<open>The ten things the authorization of a message depends on.\<close>

definition authority where
  "authority r =
     (js_nullish (ruSenderId r) [], js_nullish (ruSenderE164 r) [], ruSenderIsOwner r = Some True,
      js_nullish (Option.bind (ruExecOverrides r) exHost) [],
      js_nullish (Option.bind (ruExecOverrides r) exSecurity) [],
      js_nullish (Option.bind (ruExecOverrides r) exAsk) [],
      js_nullish (Option.bind (ruExecOverrides r) exNode) [],
      map_option beEnabled (ruBashElevated r) = Some True,
      map_option beAllowed (ruBashElevated r) = Some True,
      js_nullish (map_option beDefaultLevel (ruBashElevated r)) [])"

lemma authorization_key_eq:
  "resolveFollowupAuthorizationKey a = resolveFollowupAuthorizationKey b \<longleftrightarrow> authority a = authority b"
  by (simp add: resolveFollowupAuthorizationKey_def json_array_inj authority_def)

definition same_authority :: "followup_run list \<Rightarrow> bool" where
  "same_authority g \<longleftrightarrow> g \<noteq> [] \<and> list_all (\<lambda>r. authority (frRun r) = authority (frRun (hd g))) g"

lemma split_auth_groups:
  assumes "current = [] \<and> key = None \<or> same_authority current \<and> key = Some (resolveFollowupAuthorizationKey (frRun (hd current)))"
  shows "concat (split_auth rs current key) = current @ rs \<and> list_all same_authority (split_auth rs current key)"
  using assms
proof (induction rs current key rule: split_auth.induct)
  case (2 r rs current key)
  let ?k = "resolveFollowupAuthorizationKey (frRun r)"
  show ?case
  proof (cases "current = [] \<or> key = Some ?k")
    case True
    have "same_authority (current @ [r]) \<and> Some ?k = Some (resolveFollowupAuthorizationKey (frRun (hd (current @ [r]))))"
      using True 2(3) by (cases current) (auto simp: same_authority_def authorization_key_eq)
    then show ?thesis using True 2(1)[OF refl True] by (simp add: Let_def)
  next
    case False
    then have "same_authority current" using 2(3) by auto
    moreover have "concat (split_auth rs [r] (Some ?k)) = [r] @ rs \<and> list_all same_authority (split_auth rs [r] (Some ?k))"
      by (rule 2(2)[OF refl False]) (simp add: same_authority_def)
    ultimately show ?thesis using False by (simp add: Let_def)
  qed
qed auto

lemma split_groups:
  "concat (splitCollectItemsByAuthorization rs) = rs \<and> list_all same_authority (splitCollectItemsByAuthorization rs)"
proof (cases "length rs \<le> 1")
  case True
  then show ?thesis by (cases rs) (auto simp: splitCollectItemsByAuthorization_def same_authority_def)
next
  case False
  then show ?thesis using split_auth_groups[of "[]" None rs] by (simp add: splitCollectItemsByAuthorization_def)
qed

lemma groups_not_Nil: "g \<in> set (splitCollectItemsByAuthorization rs) \<Longrightarrow> g \<noteq> []"
  using split_groups[of rs] by (auto simp: list_all_iff same_authority_def)

text \<open>
  C22: Messages that are collected into one run all have the same authority - sender, owner
  flag, execution overrides and elevation - so no sender's message runs with the rights of
  another; and splitting by authority loses, repeats and reorders nothing.
\<close>

theorem batches_keep_authority:
  "concat (splitCollectItemsByAuthorization rs) = rs
   \<and> list_all (\<lambda>g. g \<noteq> [] \<and> list_all (\<lambda>r. authority (frRun r) = authority (frRun (last g))) g)
       (splitCollectItemsByAuthorization rs)"
proof -
  have one: "g \<noteq> [] \<and> list_all (\<lambda>r. authority (frRun r) = authority (frRun (last g))) g" if "same_authority g" for g
    using that unfolding same_authority_def list_all_iff by (metis last_in_set)
  have "list_all (\<lambda>g. g \<noteq> [] \<and> list_all (\<lambda>r. authority (frRun r) = authority (frRun (last g))) g) gs"
    if "list_all same_authority gs" for gs
    by (rule list.pred_mono_strong[OF that]) (rule one)
  then show ?thesis using split_groups by blast
qed

section \<open>The cap\<close>

lemma fq_at_upd [simp]:
  "i < length (fuQueues st) \<Longrightarrow> fq_at (upd_fq i f st) i = f (fq_at st i)"
  "j \<noteq> i \<Longrightarrow> fq_at (upd_fq i f st) j = fq_at st j"
  by (simp_all add: fq_at_def upd_fq_def)

lemma upd_fq_fields [simp]:
  "length (fuQueues (upd_fq i f st)) = length (fuQueues st)" "fuByKey (upd_fq i f st) = fuByKey st"
  "fuCallbacks (upd_fq i f st) = fuCallbacks st" "fuRecent (upd_fq i f st) = fuRecent st"
  "fuAborted (upd_fq i f st) = fuAborted st" "fuCalls (upd_fq i f st) = fuCalls st"
  by (simp_all add: upd_fq_def)

lemma complete_fields [simp]:
  "fuQueues (completeFollowupRunLifecycle r st) = fuQueues st" "fuByKey (completeFollowupRunLifecycle r st) = fuByKey st"
  "fuCallbacks (completeFollowupRunLifecycle r st) = fuCallbacks st" "fuRecent (completeFollowupRunLifecycle r st) = fuRecent st"
  "fuAborted (completeFollowupRunLifecycle r st) = fuAborted st" "fuCalls (completeFollowupRunLifecycle r st) = fuCalls st"
  by (simp_all add: completeFollowupRunLifecycle_def split: option.split)

lemma complete_all_fields [simp]:
  "fuQueues (complete_all rs st) = fuQueues st" "fuByKey (complete_all rs st) = fuByKey st"
  "fuCallbacks (complete_all rs st) = fuCallbacks st" "fuRecent (complete_all rs st) = fuRecent st"
  "fuAborted (complete_all rs st) = fuAborted st" "fuCalls (complete_all rs st) = fuCalls st"
  by (induction rs arbitrary: st) (simp_all add: complete_all_def)

lemma complete_all_Nil [simp]: "complete_all [] st = st"
  by (simp add: complete_all_def)

lemma fq_at_complete_all [simp]: "fq_at (complete_all rs st) i = fq_at st i"
  by (simp add: fq_at_def)

lemma mark_fields [simp]:
  "fuQueues (markFollowupRunEnqueued r st) = fuQueues st" "fuByKey (markFollowupRunEnqueued r st) = fuByKey st"
  "fuCallbacks (markFollowupRunEnqueued r st) = fuCallbacks st" "fuRecent (markFollowupRunEnqueued r st) = fuRecent st"
  "fuAborted (markFollowupRunEnqueued r st) = fuAborted st" "fuCalls (markFollowupRunEnqueued r st) = fuCalls st"
  by (simp_all add: markFollowupRunEnqueued_def split: option.split)

text \<open>Making room leaves at most one place short of the cap, and the summary no longer than the cap.\<close>

lemma applyQueueDropPolicy_room:
  assumes "applyQueueDropPolicy f q = (ok, dropped, q')"
  shows "ok \<Longrightarrow> 0 < fqCap q \<Longrightarrow> int (length (fqItems q')) < fqCap q"
    and "dropped @ fqItems q' = fqItems q" "fqCap q' = fqCap q" "fqDropPolicy q' = fqDropPolicy q"
    and "dropped \<noteq> [] \<Longrightarrow> ok" "ok \<or> fqDropPolicy q = Drop_new"
  using assms by (auto simp: applyQueueDropPolicy_def Let_def split: if_splits)

lemma drop_for_room_items:
  assumes "i < length (fuQueues st)"
  obtains dropped where "fqItems (fq_at st i) = dropped @ fqItems (fq_at (snd (drop_for_room i st)) i)"
    and "fst (drop_for_room i st) \<Longrightarrow> 0 < fqCap (fq_at st i) \<Longrightarrow>
      int (length (fqItems (fq_at (snd (drop_for_room i st)) i))) < fqCap (fq_at st i)"
    and "fqCap (fq_at (snd (drop_for_room i st)) i) = fqCap (fq_at st i)"
    and "length (fuQueues (snd (drop_for_room i st))) = length (fuQueues st)"
proof -
  obtain ok dropped q where a: "applyQueueDropPolicy summary_text (fq_at st i) = (ok, dropped, q)"
    by (cases "applyQueueDropPolicy summary_text (fq_at st i)") auto
  note r = applyQueueDropPolicy_room[OF a]
  have "fqItems (fq_at (snd (drop_for_room i st)) i) = fqItems q" "fst (drop_for_room i st) = ok"
    "fqCap (fq_at (snd (drop_for_room i st)) i) = fqCap q"
    "length (fuQueues (snd (drop_for_room i st))) = length (fuQueues st)"
    using assms by (simp_all add: drop_for_room_def a Let_def)
  then show ?thesis using r by (intro that[of dropped]) auto
qed

end
