(* ===== verification/Followup_Order.thy ===== *)
theory Followup_Order
  imports Followup_Batches
begin

text \<open>
  The order in which a session's queue delivers. As long as no message is dropped for room and
  none is aborted, every message that was accepted is delivered once and in the order of
  arrival: at each moment the accepted ones are the delivered ones followed by the queued ones,
  whatever the modes, the failures of the callback and the moments of arrival. The invariant
  \<open>fifo\<close> says so of one session key; each step of the drain changes one queue, which is what
  \<open>fifo_change\<close> is for.
\<close>

section \<open>The invariant\<close>

definition live_items :: "string \<Rightarrow> followups \<Rightarrow> followup_run list" where
  "live_items key st = (case jm_get (fuByKey st) key of None \<Rightarrow> [] | Some i \<Rightarrow> fqItems (fq_at st i))"

text \<open>What the \<open>await\<close> a drain has reached says about its queue: what is being run stands in front.\<close>

definition pc_ok :: "followups \<Rightarrow> followup_queue \<Rightarrow> bool" where
  "pc_ok st q =
     (case fqPc q of
        NotDraining \<Rightarrow> \<not> fqDraining q
      | ScanRun aft n d r \<Rightarrow> False
      | ScanDone aft n \<Rightarrow> n = 0
      | HeadRun k \<Rightarrow> (k = CollectHead \<or> k = PlainHead) \<and> fuCalls st \<noteq> [] \<and>
          fqItems q \<noteq> [] \<and> snd (last (fuCalls st)) = hd (fqItems q)
      | SummaryRun snap \<Rightarrow> False
      | SummaryDone \<Rightarrow> False
      | GroupRun g pendingSummary gs \<Rightarrow> pendingSummary = None \<and> prefix (concat (g # gs)) (fqItems q)
      | _ \<Rightarrow> True)"

text \<open>Everything but the place of the drain of queue \<open>i\<close>, which the key has.\<close>

definition fifo_but :: "nat \<Rightarrow> string \<Rightarrow> followups \<Rightarrow> followup_run list \<Rightarrow> followup_run list \<Rightarrow> bool" where
  "fifo_but i key st accepted delivered \<longleftrightarrow>
     fuAborted st = [] \<and> jm_get (fuByKey st) key = Some i \<and> i < length (fuQueues st) \<and>
     (\<forall>j < length (fuQueues st). fqKey (fq_at st j) = key \<and> fqDroppedCount (fq_at st j) = 0 \<and>
        (j \<noteq> i \<longrightarrow> fqItems (fq_at st j) = [] \<and> fqPc (fq_at st j) = NotDraining \<and> \<not> fqDraining (fq_at st j))) \<and>
     accepted = delivered @ fqItems (fq_at st i)"

definition fifo_idle :: "string \<Rightarrow> followups \<Rightarrow> followup_run list \<Rightarrow> followup_run list \<Rightarrow> bool" where
  "fifo_idle key st accepted delivered \<longleftrightarrow>
     fuAborted st = [] \<and> jm_get (fuByKey st) key = None \<and>
     (\<forall>j < length (fuQueues st). fqKey (fq_at st j) = key \<and> fqDroppedCount (fq_at st j) = 0 \<and>
        fqItems (fq_at st j) = [] \<and> fqPc (fq_at st j) = NotDraining \<and> \<not> fqDraining (fq_at st j)) \<and>
     accepted = delivered"

definition fifo :: "string \<Rightarrow> followups \<Rightarrow> followup_run list \<Rightarrow> followup_run list \<Rightarrow> bool" where
  "fifo key st accepted delivered \<longleftrightarrow>
     fifo_idle key st accepted delivered \<or>
     (\<exists>i. fifo_but i key st accepted delivered \<and> pc_ok st (fq_at st i))"

lemma fifo_live: "fifo key st accepted delivered \<Longrightarrow> accepted = delivered @ live_items key st"
  by (auto simp: fifo_def fifo_idle_def fifo_but_def live_items_def)

lemma fifo_butD:
  assumes "fifo_but i key st acc del"
  shows "fuAborted st = []" "jm_get (fuByKey st) key = Some i" "i < length (fuQueues st)"
    "fqKey (fq_at st i) = key" "fqDroppedCount (fq_at st i) = 0" "acc = del @ fqItems (fq_at st i)"
  using assms unfolding fifo_but_def by blast+

text \<open>A change of one queue, its calls and its callback.\<close>

lemma fifo_change:
  assumes "fifo_but i key st acc del"
    and "fuAborted st' = fuAborted st" "fuByKey st' = fuByKey st" "length (fuQueues st') = length (fuQueues st)"
    and "\<And>j. j \<noteq> i \<Longrightarrow> fq_at st' j = fq_at st j"
    and "fqKey (fq_at st' i) = fqKey (fq_at st i)" "fqDroppedCount (fq_at st' i) = 0"
    and "acc' = del' @ fqItems (fq_at st' i)"
  shows "fifo_but i key st' acc' del'"
  using assms unfolding fifo_but_def by metis

lemma fifoI: "fifo_but i key st acc del \<Longrightarrow> pc_ok st (fq_at st i) \<Longrightarrow> fifo key st acc del"
  unfolding fifo_def by blast

lemma set_pc_fields [simp]:
  "length (fuQueues (set_pc i pc st)) = length (fuQueues st)" "fuByKey (set_pc i pc st) = fuByKey st"
  "fuAborted (set_pc i pc st) = fuAborted st" "fuCalls (set_pc i pc st) = fuCalls st"
  "i < length (fuQueues st) \<Longrightarrow> fq_at (set_pc i pc st) i = fqPc_update (\<lambda>_. pc) (fq_at st i)"
  "j \<noteq> i \<Longrightarrow> fq_at (set_pc i pc st) j = fq_at st j"
  by (simp_all add: set_pc_def)

lemma call_run_fields [simp]:
  "fuQueues (call_run i r st) = fuQueues st" "fuByKey (call_run i r st) = fuByKey st"
  "fuAborted (call_run i r st) = fuAborted st" "fuCalls (call_run i r st) = fuCalls st @ [(fqCallback (fq_at st i), r)]"
  "fq_at (call_run i r st) j = fq_at st j"
  by (simp_all add: call_run_def fq_at_def)

lemma pc_ok_calls: "fuCalls st' = fuCalls st \<Longrightarrow> pc_ok st' q = pc_ok st q"
  by (simp add: pc_ok_def split: drain_pc.split)

text \<open>Reaching an \<open>await\<close>, with or without a call.\<close>

lemma fifo_await:
  assumes "fifo_but i key st acc del" "pc_ok st (fqPc_update (\<lambda>_. pc) (fq_at st i))"
  shows "fifo key (set_pc i pc st) acc del"
proof (rule fifoI)
  note b = fifo_butD[OF assms(1)]
  show "fifo_but i key (set_pc i pc st) acc del"
    by (rule fifo_change[OF assms(1)]) (use b in simp_all)
  show "pc_ok (set_pc i pc st) (fq_at (set_pc i pc st) i)"
    using assms(2) b(3) pc_ok_calls[of "set_pc i pc st" st] by simp
qed

lemma fifo_call: "fifo_but i key st acc del \<Longrightarrow> fifo_but i key (call_run i r st) acc del"
  by (rule fifo_change) (auto dest: fifo_butD)

lemma fifo_upd:
  assumes "fifo_but i key st acc del" "fqKey (f (fq_at st i)) = fqKey (fq_at st i)"
    "fqDroppedCount (f (fq_at st i)) = 0" "acc' = del' @ fqItems (f (fq_at st i))"
  shows "fifo_but i key (upd_fq i f st) acc' del'"
  by (rule fifo_change[OF assms(1)]) (use fifo_butD[OF assms(1)] assms(2-) in simp_all)

section \<open>The end of a drain and its start\<close>

lemma scan_quiet: "scan_aborted [] items n = Some None \<or> n > length items"
proof (induction n)
  case (Suc n)
  have "\<not> isFollowupRunAborted [] r" for r
  proof -
    have "\<not> signal_aborted [] s" for s by (induction s) (auto simp: list_ex_iff)
    then show ?thesis by (simp add: isFollowupRunAborted_def split: option.split)
  qed
  then show ?case using Suc by auto
qed simp

lemma fifo_start_scan:
  assumes "fifo_but i key st acc del"
  shows "fifo key (start_scan aft i st) acc del"
proof -
  have "start_scan aft i st = set_pc i (ScanDone aft 0) st"
    using scan_quiet[of "fqItems (fq_at st i)" "length (fqItems (fq_at st i))"] fifo_butD(1)[OF assms]
    by (simp add: start_scan_def Let_def)
  then show ?thesis using fifo_await[OF assms, of "ScanDone aft 0"] by (simp add: pc_ok_def)
qed

lemma fifo_drain_ends:
  assumes b: "fifo_but i key st acc del" and "fqItems (fq_at st i) = []"
  shows "fifo key (drain_ends i st) acc del"
proof -
  let ?st = "drain_ends i st"
  note d = fifo_butD[OF b]
  have f: "fuByKey ?st = jm_del key (fuByKey st)" "fuAborted ?st = []" "length (fuQueues ?st) = length (fuQueues st)"
    "fq_at ?st j = (if j = i then (fq_at st i)\<lparr>fqDraining := False, fqPc := NotDraining\<rparr> else fq_at st j)" for j
    using d(1-4) by (simp_all add: drain_ends_def Let_def fq_at_def upd_fq_def)
  have "fifo_idle key ?st acc del"
    unfolding fifo_idle_def
  proof (intro conjI allI impI)
    fix j
    assume "j < length (fuQueues ?st)"
    then have "j < length (fuQueues st)" using f(3) by simp
    then show "fqKey (fq_at ?st j) = key" "fqDroppedCount (fq_at ?st j) = 0" "fqItems (fq_at ?st j) = []"
      "fqPc (fq_at ?st j) = NotDraining" "\<not> fqDraining (fq_at ?st j)"
      using b assms(2) unfolding fifo_but_def by (simp_all add: f(4))
  next
    show "acc = del" using d(6) assms(2) by simp
  qed (simp_all add: f store_simps)
  then show ?thesis by (simp add: fifo_def)
qed

lemma fifo_schedule:
  assumes b: "fifo_but i key st acc del" and "\<not> fqDraining (fq_at st i)"
  shows "fifo key (scheduleFollowupDrain key cb st) acc del"
proof -
  note d = fifo_butD[OF b]
  let ?eff = "js_nullish (jm_get (fuCallbacks st) key) cb"
  let ?st = "upd_fq i (\<lambda>q. q\<lparr>fqForceIndividual := False, fqCallback := ?eff\<rparr>)
    (rememberFollowupDrainCallback key ?eff (upd_fq i (fqDraining_update (\<lambda>_. True)) st))"
  have s: "scheduleFollowupDrain key cb st = (if queue_pending (fq_at ?st i) then start_scan False i ?st else drain_ends i ?st)"
    using assms(2) d(2) by (simp add: scheduleFollowupDrain_def beginQueueDrain_def Let_def)
  have rem: "fq_at (rememberFollowupDrainCallback key ?eff s) j = fq_at s j"
    "fuByKey (rememberFollowupDrainCallback key ?eff s) = fuByKey s" "fuAborted (rememberFollowupDrainCallback key ?eff s) = fuAborted s"
    "fuQueues (rememberFollowupDrainCallback key ?eff s) = fuQueues s" for s j
    by (simp_all add: rememberFollowupDrainCallback_def fq_at_def)
  have b': "fifo_but i key ?st acc del"
    by (rule fifo_change[OF b]) (use d in \<open>simp_all add: rem\<close>)
  show ?thesis
  proof (cases "queue_pending (fq_at ?st i)")
    case True
    then show ?thesis using fifo_start_scan[OF b'] s by simp
  next
    case False
    then have "fqItems (fq_at ?st i) = []" by (simp add: queue_pending_def)
    then show ?thesis using fifo_drain_ends[OF b'] s False by simp
  qed
qed

lemma fifo_finally:
  assumes b: "fifo_but i key st acc del"
  shows "fifo key (drain_finally i st) acc del"
proof (cases "queue_pending (fq_at st i)")
  case True
  let ?st = "upd_fq i (\<lambda>q. q\<lparr>fqDraining := False, fqPc := NotDraining\<rparr>) st"
  note d = fifo_butD[OF b]
  have "fifo_but i key ?st acc del" by (rule fifo_upd[OF b]) (use d in simp_all)
  then show ?thesis
    using fifo_schedule[of i key ?st acc del "fqCallback (fq_at st i)"] d(3,4) True
    by (simp add: drain_finally_def)
next
  case False
  then show ?thesis using fifo_drain_ends[OF b] by (simp add: drain_finally_def queue_pending_def)
qed

lemma fifo_throws: "fifo_but i key st acc del \<Longrightarrow> fifo key (drain_throws now i st) acc del"
  unfolding drain_throws_def by (rule fifo_finally[OF fifo_upd]) (auto dest: fifo_butD)

lemma fifo_loop_head: "fifo_but i key st acc del \<Longrightarrow> fifo key (loop_head i st) acc del"
  unfolding loop_head_def by (simp add: fifo_start_scan fifo_finally)

section \<open>Each step of the drain\<close>

text \<open>The messages whose run ends well when the drain is resumed.\<close>

definition delivered_by :: "run_outcome \<Rightarrow> nat \<Rightarrow> followups \<Rightarrow> followup_run list" where
  "delivered_by out i st =
     (if out \<noteq> RunOk then []
      else case fqPc (fq_at st i) of
             HeadRun k \<Rightarrow> [snd (last (fuCalls st))]
           | GroupRun g pendingSummary gs \<Rightarrow> g
           | _ \<Rightarrow> [])"

lemma no_summary: "fqDroppedCount q = 0 \<Longrightarrow> previewQueueSummaryPrompt q = None"
  by (simp add: previewQueueSummaryPrompt_def buildQueueSummaryPrompt_def)

lemma fifo_debounce:
  assumes b: "fifo_but i key st acc del"
  shows "fifo key (check_debounce now d i st) acc del" "fifo key (start_debounce now i st) acc del"
proof -
  have w: "fifo key (set_pc i Debounced st) acc del" "fifo key (set_pc i (DebounceTimer d) st) acc del" for d
    by (rule fifo_await[OF b]; simp add: pc_ok_def)+
  then show c: "fifo key (check_debounce now d i st) acc del" for d by (simp add: check_debounce_def)
  show "fifo key (start_debounce now i st) acc del" using w c by (simp add: start_debounce_def Let_def)
qed

lemma fifo_head_call:
  assumes b: "fifo_but i key st acc del" and "fqItems (fq_at st i) = h # t" "k = CollectHead \<or> k = PlainHead"
  shows "fifo key (set_pc i (HeadRun k) (call_run i h st)) acc del"
  by (rule fifo_await[OF fifo_call[OF b]]) (use assms(2,3) in \<open>auto simp: pc_ok_def\<close>)

lemma fifo_collect_step:
  assumes b: "fifo_but i key st acc del"
  shows "fifo key (drainCollectQueueStep cross i st) acc del"
proof (cases "\<not> fqForceIndividual (fq_at st i) \<and> \<not> cross")
  case True
  then show ?thesis using fifo_await[OF b, of CollectSkipped] by (simp add: drainCollectQueueStep_def pc_ok_def)
next
  case False
  let ?st = "if cross then upd_fq i (fqForceIndividual_update (\<lambda>_. True)) st else st"
  have b': "fifo_but i key ?st acc del"
    using b fifo_upd[OF b, of "fqForceIndividual_update (\<lambda>_. True)"] fifo_butD[OF b] by simp
  show ?thesis
  proof (cases "fqItems (fq_at ?st i)")
    case Nil
    then show ?thesis
      using fifo_await[OF b', of CollectEmpty]
      unfolding drainCollectQueueStep_def Let_def if_not_P[OF False] by (simp add: pc_ok_def)
  next
    case (Cons h t)
    then show ?thesis
      using fifo_head_call[OF b' Cons, of CollectHead]
      unfolding drainCollectQueueStep_def Let_def if_not_P[OF False] by simp
  qed
qed

lemma fifo_collect_turn:
  assumes b: "fifo_but i key st acc del"
  shows "fifo key (collect_turn known i st) acc del"
proof -
  have "fifo_but i key (upd_fq i (fqForceIndividual_update (\<lambda>_. False)) st) acc del"
    by (rule fifo_upd[OF b]) (use fifo_butD[OF b] in simp_all)
  then show ?thesis using b by (simp add: collect_turn_def Let_def fifo_collect_step)
qed

lemma fifo_single_turn:
  assumes b: "fifo_but i key st acc del"
  shows "fifo key (single_turn now i st) acc del"
  using fifo_head_call[OF b, of _ _ PlainHead] fifo_finally[OF b] no_summary[OF fifo_butD(5)[OF b]]
  by (simp add: single_turn_def Let_def split: list.split)

lemma fifo_summary_turn:
  assumes b: "fifo_but i key st acc del"
  shows "fifo key (summary_turn now images i st) acc del"
  using fifo_finally[OF b] no_summary[OF fifo_butD(5)[OF b]] by (simp add: summary_turn_def Let_def)

lemma fifo_start_group:
  assumes b: "fifo_but i key st acc del"
    and "prefix (concat groups) (fqItems (fq_at st i))"
  shows "fifo key (start_group now None groups i st) acc del"
proof (cases groups)
  case Nil
  then show ?thesis using fifo_loop_head[OF b] by (simp add: start_group_def)
next
  case (Cons g gs)
  have "fifo key (set_pc i (GroupRun g None gs) (call_run i r st)) acc del" for r
    by (rule fifo_await[OF fifo_call[OF b]]) (use assms(2) Cons in \<open>simp add: pc_ok_def\<close>)
  then show ?thesis by (simp add: start_group_def Cons)
qed

lemma fifo_collect_groups:
  assumes b: "fifo_but i key st acc del"
  shows "fifo key (collect_groups now i st) acc del"
proof -
  let ?items = "fqItems (fq_at st i)"
  have "concat (splitCollectItemsByAuthorization ?items) = ?items" using split_groups by blast
  then show ?thesis
    using fifo_summary_turn[OF b] fifo_start_group[OF b, of "splitCollectItemsByAuthorization ?items"]
    by (simp add: collect_groups_def Let_def no_summary[OF fifo_butD(5)[OF b]])
qed

lemma fifo_head_done:
  assumes b: "fifo_but i key st acc del" and ok: "pc_ok st (fq_at st i)" and pc: "fqPc (fq_at st i) = HeadRun k"
  shows "fifo key (resume_head now out k i st) acc (del @ delivered_by out i st)"
proof -
  obtain h t where h: "fqItems (fq_at st i) = h # t" "snd (last (fuCalls st)) = h" "k = CollectHead \<or> k = PlainHead"
    using ok pc by (cases "fqItems (fq_at st i)") (auto simp: pc_ok_def)
  note d = fifo_butD[OF b]
  have s: "fifo_but i key (shift_item i st) acc (del @ [h])"
    unfolding shift_item_def by (rule fifo_upd[OF b]) (use d h in simp_all)
  have "fifo key (set_pc i LoopAgain (shift_item i st)) acc (del @ [h])"
    by (rule fifo_await[OF s]) (simp add: pc_ok_def)
  then show ?thesis
    using fifo_throws[OF b] h(2,3) pc by (auto simp: resume_head_def delivered_by_def)
qed

lemma fifo_group_done:
  assumes b: "fifo_but i key st acc del" and ok: "pc_ok st (fq_at st i)" and pc: "fqPc (fq_at st i) = GroupRun g ps gs"
  shows "fifo key (resume_group now out g ps gs i st) acc (del @ delivered_by out i st)"
proof -
  let ?items = "fqItems (fq_at st i)"
  note d = fifo_butD[OF b]
  have p: "ps = None" and pre: "prefix (concat (g # gs)) ?items"
    using ok pc by (simp_all add: pc_ok_def)
  obtain t where t: "?items = g @ concat gs @ t"
    using pre by (auto simp: prefix_def)
  let ?st = "upd_fq i (\<lambda>q. q\<lparr>fqItems := drop (length g) (fqItems q)\<rparr>) st"
  have b': "fifo_but i key ?st acc (del @ g)"
    by (rule fifo_upd[OF b]) (use d t in simp_all)
  have "fifo key (start_group now None gs i ?st) acc (del @ g)"
    by (rule fifo_start_group[OF b']) (use d(3) t in simp)
  then show ?thesis
    using fifo_throws[OF b] pc by (simp add: resume_group_def p delivered_by_def)
qed

lemma fifo_resume:
  assumes f: "fifo key st acc del" and i: "i < length (fuQueues st)"
  shows "fifo key (resume known now out i st) acc (del @ delivered_by out i st)"
proof (cases "\<exists>j. fifo_but j key st acc del \<and> pc_ok st (fq_at st j)")
  case False
  then have "fqPc (fq_at st i) = NotDraining" using f i by (auto simp: fifo_def fifo_idle_def)
  then show ?thesis using f by (simp add: resume_def delivered_by_def)
next
  case True
  then obtain j where b: "fifo_but j key st acc del" and ok: "pc_ok st (fq_at st j)" by blast
  show ?thesis
  proof (cases "j = i")
    case False
    then have "fqPc (fq_at st i) = NotDraining" using b i unfolding fifo_but_def by metis
    then show ?thesis using f by (simp add: resume_def delivered_by_def)
  next
    case True
    note bi = b[unfolded True] and oki = ok[unfolded True]
    have scan: "fifo key (resume_scan_done known now aft 0 i st) acc del" for aft
      using fifo_finally[OF bi] fifo_debounce(2)[OF bi] fifo_collect_turn[OF bi] fifo_single_turn[OF bi]
      by (simp add: resume_scan_done_def Let_def)
    show ?thesis
      using oki f scan fifo_debounce(1)[OF bi] fifo_start_scan[OF bi] fifo_head_done[OF bi oki] fifo_loop_head[OF bi]
        fifo_collect_groups[OF bi] fifo_summary_turn[OF bi] fifo_group_done[OF bi oki]
      by (cases "fqPc (fq_at st i)") (simp_all add: resume_def pc_ok_def delivered_by_def)
  qed
qed

section \<open>Arrivals\<close>

definition fifo_at :: "nat \<Rightarrow> string \<Rightarrow> followups \<Rightarrow> followup_run list \<Rightarrow> followup_run list \<Rightarrow> bool" where
  "fifo_at i key st acc del \<longleftrightarrow> fifo_but i key st acc del \<and> pc_ok st (fq_at st i)"

lemma fifo_arrival:
  assumes a: "fifo_at i key st acc del"
    and same: "fuAborted st' = fuAborted st" "fuByKey st' = fuByKey st" "length (fuQueues st') = length (fuQueues st)"
      "fuCalls st' = fuCalls st" "\<And>j. j \<noteq> i \<Longrightarrow> fq_at st' j = fq_at st j"
    and q: "fqKey (fq_at st' i) = fqKey (fq_at st i)" "fqDroppedCount (fq_at st' i) = 0"
      "fqPc (fq_at st' i) = fqPc (fq_at st i)" "fqDraining (fq_at st' i) = fqDraining (fq_at st i)"
      "fqItems (fq_at st' i) = fqItems (fq_at st i) @ xs"
  shows "fifo_at i key st' (acc @ xs) del"
proof -
  have b: "fifo_but i key st acc del" and ok: "pc_ok st (fq_at st i)" using a by (simp_all add: fifo_at_def)
  have "fifo_but i key st' (acc @ xs) del"
    by (rule fifo_change[OF b same(1,2,3,5) q(1,2)]) (use fifo_butD(6)[OF b] q(5) in simp_all)
  moreover have "pc_ok st' (fq_at st' i)"
    using ok unfolding pc_ok_def q(3,4,5) same(4) by (auto split: drain_pc.splits)
  ultimately show ?thesis by (simp add: fifo_at_def)
qed

lemma fifo_get_queue:
  assumes "fifo key st acc del" and g: "getFollowupQueue key s st = (i, st1)"
  shows "fifo_at i key st1 acc del" "fuAborted st1 = []"
proof -
  have "fifo_at i key st1 acc del"
  proof (cases "jm_get (fuByKey st) key")
    case (Some j)
    then have "fifo_at j key st acc del" and ij: "i = j" "st1 = upd_fq j (applyQueueRuntimeSettings s) st"
      using assms by (auto simp: fifo_def fifo_idle_def fifo_but_def fifo_at_def getFollowupQueue_def)
    then show ?thesis
      using fifo_arrival[of j key st acc del st1 "[]"] fifo_butD[of j key st acc del]
      by (simp add: ij applyQueueRuntimeSettings_def fifo_at_def)
  next
    case None
    then have idle: "fifo_idle key st acc del" using assms(1) by (auto simp: fifo_def fifo_but_def)
    let ?q = "applyQueueRuntimeSettings s (created_queue key s)"
    have st1: "i = length (fuQueues st)"
      "st1 = st\<lparr>fuQueues := fuQueues st @ [?q], fuByKey := jm_set key (length (fuQueues st)) (fuByKey st)\<rparr>"
      using g None by (auto simp: getFollowupQueue_def)
    have at: "fq_at st1 j = (if j < length (fuQueues st) then fq_at st j else [?q] ! (j - length (fuQueues st)))" for j
      by (simp add: fq_at_def st1 nth_append)
    have q: "fqKey ?q = key" "fqDroppedCount ?q = 0" "fqItems ?q = []" "fqPc ?q = NotDraining" "\<not> fqDraining ?q"
      by (simp_all add: applyQueueRuntimeSettings_def created_queue_def)
    have "fifo_but i key st1 acc del"
      unfolding fifo_but_def
    proof (intro conjI allI impI)
      fix j
      assume "j < length (fuQueues st1)"
      then have "j < length (fuQueues st) \<or> j = length (fuQueues st)" by (auto simp: st1)
      then show "fqKey (fq_at st1 j) = key" "fqDroppedCount (fq_at st1 j) = 0"
        using idle q by (auto simp: fifo_idle_def at)
    next
      fix j
      assume "j < length (fuQueues st1)" "j \<noteq> i"
      then have "j < length (fuQueues st)" by (auto simp: st1)
      then show "fqItems (fq_at st1 j) = []" "fqPc (fq_at st1 j) = NotDraining" "\<not> fqDraining (fq_at st1 j)"
        using idle by (auto simp: fifo_idle_def at)
    qed (use idle q in \<open>simp_all add: fifo_idle_def at st1(1), simp_all add: st1(2) store_simps\<close>)
    then show ?thesis using q by (simp add: fifo_at_def pc_ok_def at st1(1))
  qed
  then show "fifo_at i key st1 acc del" "fuAborted st1 = []" by (auto simp: fifo_at_def dest: fifo_butD)
qed

definition has_room :: "string \<Rightarrow> queue_settings \<Rightarrow> followups \<Rightarrow> bool" where
  "has_room key s st =
     (let (i, st1) = getFollowupQueue key s st
      in fqCap (fq_at st1 i) \<le> 0 \<or> int (length (fqItems (fq_at st1 i))) < fqCap (fq_at st1 i))"

lemma drop_for_room_quiet:
  assumes "i < length (fuQueues st)" "fqCap (fq_at st i) \<le> 0 \<or> int (length (fqItems (fq_at st i))) < fqCap (fq_at st i)"
  obtains st' f where "drop_for_room i st = (True, st')" "\<And>j. fq_at st' j = (if j = i then f (fq_at st i) else fq_at st j)"
    "\<And>q. fqItems (f q) = fqItems q" "\<And>q. fqKey (f q) = fqKey q" "\<And>q. fqPc (f q) = fqPc q"
    "\<And>q. fqDraining (f q) = fqDraining q" "\<And>q. fqDroppedCount (f q) = fqDroppedCount q"
    "fuAborted st' = fuAborted st" "fuByKey st' = fuByKey st" "length (fuQueues st') = length (fuQueues st)"
    "fuCalls st' = fuCalls st"
proof -
  have a: "applyQueueDropPolicy summary_text (fq_at st i) = (True, [], fq_at st i)"
    using assms(2) by (auto simp: applyQueueDropPolicy_def)
  let ?f = "\<lambda>q. if fqDropPolicy (fq_at st i) = Drop_summarize
    then q\<lparr>fqSummarySources := drop (length (fqSummarySources (fq_at st i)) - length (fqSummaryLines (fq_at st i))) (fqSummarySources q)\<rparr>
    else q"
  show thesis
    by (rule that[of "snd (drop_for_room i st)" ?f])
       (use assms(1) in \<open>simp_all add: drop_for_room_def a Let_def\<close>)
qed

lemma fifo_kick:
  assumes a: "fifo_at i key st acc del" and "\<not> fqDraining (fq_at st i)"
  shows "fifo key (kickFollowupDrainIfIdle key st) acc del"
  using fifo_schedule[of i key st acc del] a assms(2) fifoI
  by (auto simp: kickFollowupDrainIfIdle_def fifo_at_def split: option.split)

lemma fifo_at_fifo: "fifo_at i key st acc del \<Longrightarrow> fifo key st acc del"
  by (auto simp: fifo_at_def intro: fifoI)

lemma fifo_enqueue:
  assumes f: "fifo key st acc del" and room: "has_room key s st"
  shows "fifo key (snd (enqueueFollowupRun now key r s dm cb restart st))
    (acc @ (if fst (enqueueFollowupRun now key r s dm cb restart st) then [r] else [])) del"
proof -
  obtain i st1 where g: "getFollowupQueue key s st = (i, st1)" by (cases "getFollowupQueue key s st")
  have ab: "fuAborted st = []" using f by (auto simp: fifo_def fifo_idle_def dest: fifo_butD)
  have na: "\<not> isFollowupRunAborted (fuAborted st) r"
    using scan_quiet[of "[r]" 1] ab by (auto split: if_splits)
  note a1 = fifo_get_queue[OF f g]
  define key' where "key' = (if dm \<noteq> No_dedupe then buildRecentMessageIdKey r key else None)"
  obtain recent cache where pk: "dedupe_peek key' now (fuRecent st1) = (recent, cache)"
    by (cases "dedupe_peek key' now (fuRecent st1)")
  define st2 where "st2 = st1\<lparr>fuRecent := cache\<rparr>"
  have at2: "fq_at st2 j = fq_at st1 j" for j by (simp add: st2_def fq_at_def)
  have a2: "fifo_at i key st2 acc del"
    using fifo_arrival[OF a1(1), of st2 "[]"] at2 a1(1) by (auto simp: st2_def fifo_at_def dest: fifo_butD)
  show ?thesis
  proof (cases "recent \<or> dm \<noteq> No_dedupe \<and> isRunAlreadyQueued r (fqItems (fq_at st2 i)) (dm = By_prompt)")
    case True
    then have "enqueueFollowupRun now key r s dm cb restart st = (False, st2)"
      using na g pk unfolding enqueueFollowupRun_def key'_def st2_def by (cases recent) (auto simp: Let_def)
    then show ?thesis using fifo_at_fifo[OF a2] by simp
  next
    case False
    define st3 where "st3 = upd_fq i (\<lambda>q. q\<lparr>fqLastEnqueuedAt := now, fqLastRun := Some (frRun r)\<rparr>) st2"
    have i2: "i < length (fuQueues st2)" using a2 fifo_butD(3) unfolding fifo_at_def by blast
    have at3: "fq_at st3 j = (if j = i then (fq_at st2 i)\<lparr>fqLastEnqueuedAt := now, fqLastRun := Some (frRun r)\<rparr> else fq_at st2 j)" for j
      using i2 by (simp add: st3_def)
    have i3: "i < length (fuQueues st3)" using i2 by (simp add: st3_def)
    have room3: "fqCap (fq_at st3 i) \<le> 0 \<or> int (length (fqItems (fq_at st3 i))) < fqCap (fq_at st3 i)"
      using room by (simp add: has_room_def g at3 at2)
    obtain st4 h where dr: "drop_for_room i st3 = (True, st4)" and at4: "\<And>j. fq_at st4 j = (if j = i then h (fq_at st3 i) else fq_at st3 j)"
      and h: "\<And>q. fqItems (h q) = fqItems q" "\<And>q. fqKey (h q) = fqKey q" "\<And>q. fqPc (h q) = fqPc q"
        "\<And>q. fqDraining (h q) = fqDraining q" "\<And>q. fqDroppedCount (h q) = fqDroppedCount q"
      and g4: "fuAborted st4 = fuAborted st3" "fuByKey st4 = fuByKey st3" "length (fuQueues st4) = length (fuQueues st3)"
        "fuCalls st4 = fuCalls st3"
      using drop_for_room_quiet[OF i3 room3] by metis
    define st5 where "st5 = markFollowupRunEnqueued r (upd_fq i (\<lambda>q. q\<lparr>fqItems := fqItems q @ [r]\<rparr>) st4)"
    define st7 where "st7 = (case cb of None \<Rightarrow> st5\<lparr>fuRecent := snd (dedupe_check key' now (fuRecent st5))\<rparr>
      | Some c \<Rightarrow> rememberFollowupDrainCallback key c (st5\<lparr>fuRecent := snd (dedupe_check key' now (fuRecent st5))\<rparr>))"
    have i4: "i < length (fuQueues st4)" using g4(3) i3 by simp
    have at7: "fq_at st7 j = (if j = i then (fq_at st4 i)\<lparr>fqItems := fqItems (fq_at st4 i) @ [r]\<rparr> else fq_at st4 j)" for j
      using i4 by (simp add: st7_def st5_def rememberFollowupDrainCallback_def fq_at_def upd_fq_def split: option.split)
    have g7: "fuAborted st7 = fuAborted st2" "fuByKey st7 = fuByKey st2" "length (fuQueues st7) = length (fuQueues st2)"
      "fuCalls st7 = fuCalls st2"
      by (simp_all add: st7_def st5_def rememberFollowupDrainCallback_def g4 split: option.split) (simp_all add: st3_def)
    have a7: "fifo_at i key st7 (acc @ [r]) del"
      by (rule fifo_arrival[OF a2 g7]) (use a2 in \<open>auto simp: at7 at4 at3 h fifo_at_def dest: fifo_butD\<close>)
    have e: "enqueueFollowupRun now key r s dm cb restart st =
        (True, if restart \<and> \<not> fqDraining (fq_at st7 i) then kickFollowupDrainIfIdle key st7 else st7)"
      using na g pk[unfolded key'_def] dr[unfolded st3_def st2_def] False[unfolded st2_def]
      unfolding st7_def st5_def key'_def by (auto simp: enqueueFollowupRun_def Let_def)
    show ?thesis using fifo_at_fifo[OF a7] fifo_kick[OF a7] by (simp add: e)
  qed
qed

section \<open>Histories of a session\<close>

text \<open>
  A state with the messages accepted and delivered so far. Messages arrive while there is room,
  drains are scheduled, the drains of the key's queues are resumed with any outcome, at any time.
\<close>

type_synonym fifo_state = "followups \<times> followup_run list \<times> followup_run list"

inductive session_step :: "string \<Rightarrow> fifo_state \<Rightarrow> fifo_state \<Rightarrow> bool" for key where
  arrive: "has_room key s st \<Longrightarrow> enqueueFollowupRun now key r s dm cb restart st = (ok, st') \<Longrightarrow>
    session_step key (st, acc, del) (st', acc @ (if ok then [r] else []), del)"
| schedule: "session_step key (st, acc, del) (scheduleFollowupDrain key cb st, acc, del)"
| resumes: "i < length (fuQueues st) \<Longrightarrow>
    session_step key (st, acc, del) (resume known now out i st, acc, del @ delivered_by out i st)"

inductive_cases session_step_cases: "session_step key (st, acc, del) t"

definition fifo_state_ok :: "string \<Rightarrow> fifo_state \<Rightarrow> bool" where
  "fifo_state_ok key t \<longleftrightarrow> fifo key (fst t) (fst (snd t)) (snd (snd t))"

lemma fifo_schedule_any:
  assumes f: "fifo key st acc del"
  shows "fifo key (scheduleFollowupDrain key cb st) acc del"
proof (cases "jm_get (fuByKey st) key")
  case None
  then show ?thesis using f by (simp add: scheduleFollowupDrain_def beginQueueDrain_def)
next
  case (Some i)
  then have b: "fifo_but i key st acc del" using f by (auto simp: fifo_def fifo_idle_def fifo_but_def)
  show ?thesis
  proof (cases "fqDraining (fq_at st i)")
    case True
    then show ?thesis using f Some by (simp add: scheduleFollowupDrain_def beginQueueDrain_def)
  qed (rule fifo_schedule[OF b])
qed

lemma session_step_ok:
  assumes "fifo_state_ok key t" "session_step key t u"
  shows "fifo_state_ok key u"
  using assms(2,1)
proof (induction rule: session_step.induct)
  case (arrive s st now r dm cb restart ok st' acc del)
  then show ?case using fifo_enqueue[of key st acc del s now r dm cb restart] by (simp add: fifo_state_ok_def)
qed (simp_all add: fifo_state_ok_def fifo_schedule_any fifo_resume)

interpretation session: invariant_system "\<lambda>t. t = (no_followups, [], [])" "session_step key" "fifo_state_ok key" for key
proof unfold_locales
  fix t :: fifo_state
  assume "t = (no_followups, [], [])"
  then show "fifo_state_ok key t" by (simp add: fifo_state_ok_def fifo_def fifo_idle_def no_followups_def)
qed (rule session_step_ok)

text \<open>
  C21: A session's messages are delivered in the order in which they were accepted and each of
  them once: as long as none is dropped for room and none aborted, at every moment the accepted
  messages are those whose run ended well followed by those in the queue. Failed and deferred
  runs, restarts of the drain, collected batches and changes of the mode do not change that.
\<close>

theorem followups_in_order:
  assumes "rtranclp (session_step key) (no_followups, [], []) (st, accepted, delivered)"
  shows "accepted = delivered @ live_items key st"
  using session.reachable_inv[OF refl assms] fifo_live by (simp add: fifo_state_ok_def)

definition example_run :: agent_run where
  "example_run = \<lparr>ruSessionId = ''s'', ruSessionFile = ''f'', ruSenderId = None, ruSenderName = None,
     ruSenderUsername = None, ruSenderE164 = None, ruSenderIsOwner = None, ruExecOverrides = None,
     ruBashElevated = None, ruProvider = ''p'', ruModel = ''m'', ruHasModelOverride = None,
     ruModelOverrideSource = None, ruAutoFallbackProvenance = None, ruAuthProfileId = None,
     ruAuthProfileIdSource = None, ruRest = 0\<rparr>"

definition example_settings :: "rat \<Rightarrow> queue_settings" where
  "example_settings cap = \<lparr>qsMode = Q_followup, qsDebounceMs = Some 0, qsCap = Some cap, qsDropPolicy = Some Drop_summarize\<rparr>"

definition example_message :: "string \<Rightarrow> followup_run" where
  "example_message p = bare_run p example_run 0 no_routing"

text \<open>One message arrives, is drained and delivered.\<close>

definition example_trace :: "nat \<Rightarrow> followups" where
  "example_trace n = ((resume (\<lambda>_. True) 5 RunOk 0) ^^ n)
     (snd (enqueueFollowupRun 0 ''k'' (example_message ''a'') (example_settings 2) No_dedupe (Some 7) True no_followups))"

lemma followups_in_order_witness:
  "[example_message ''a''] = [example_message ''a''] @ live_items ''k'' (example_trace 4)"
proof (rule followups_in_order)
  let ?e = "enqueueFollowupRun 0 ''k'' (example_message ''a'') (example_settings 2) No_dedupe (Some 7) True no_followups"
  have room: "has_room ''k'' (example_settings 2) no_followups" and ok: "fst ?e = True" by code_simp+
  have e: "?e = (True, example_trace 0)" using ok by (simp add: example_trace_def prod_eq_iff)
  note s0 = session_step.arrive[OF room e, of "[]" "[]"]
  have s: "session_step ''k'' (example_trace n, acc, del) (example_trace (Suc n), acc, del @ delivered_by RunOk 0 (example_trace n))"
    if "0 < length (fuQueues (example_trace n))" for n acc del
    using session_step.resumes[OF that, of "''k''" acc del "\<lambda>_. True" 5 RunOk] by (simp add: example_trace_def)
  have d: "delivered_by RunOk 0 (example_trace 0) = []" "delivered_by RunOk 0 (example_trace 1) = []"
    "delivered_by RunOk 0 (example_trace 2) = []" "delivered_by RunOk 0 (example_trace 3) = [example_message ''a'']"
    "0 < length (fuQueues (example_trace 0))" "0 < length (fuQueues (example_trace 1))"
    "0 < length (fuQueues (example_trace 2))" "0 < length (fuQueues (example_trace 3))"
    by code_simp+
  let ?m = "[example_message ''a'']"
  have r0: "session_step ''k'' (no_followups, [], []) (example_trace 0, ?m, [])" using s0 by simp
  have r1: "session_step ''k'' (example_trace 0, ?m, []) (example_trace 1, ?m, [])"
    using s[OF d(5), of ?m "[]"] unfolding d(1) by simp
  have r2: "session_step ''k'' (example_trace 1, ?m, []) (example_trace 2, ?m, [])"
    using s[OF d(6), of ?m "[]"] unfolding d(2) Suc_1 by simp
  have r3: "session_step ''k'' (example_trace 2, ?m, []) (example_trace 3, ?m, [])"
    using s[OF d(7), of ?m "[]"] unfolding d(3) by simp
  have r4: "session_step ''k'' (example_trace 3, ?m, []) (example_trace 4, ?m, ?m)"
    using s[OF d(8), of ?m "[]"] unfolding d(4) by simp
  show "rtranclp (session_step ''k'') (no_followups, [], []) (example_trace 4, ?m, ?m)"
    by (intro converse_rtranclp_into_rtranclp[of "session_step ''k''", OF r0] converse_rtranclp_into_rtranclp[of "session_step ''k''", OF r1]
      converse_rtranclp_into_rtranclp[of "session_step ''k''", OF r2] converse_rtranclp_into_rtranclp[of "session_step ''k''", OF r3]
      converse_rtranclp_into_rtranclp[of "session_step ''k''", OF r4] rtranclp.rtrancl_refl)
qed

end
