(* ===== verification/Followup_Loss.thy ===== *)
theory Followup_Loss
  imports Followup_Order
begin

text \<open>
  What happens to a follow-up queue at its end and at its cap. A drain whose callback succeeds
  ends after five steps per message. When messages arrive for a full queue while one is being
  run, the drop policy removes the running message from the front and the drain then removes
  the next one in its place: a message is lost, and with a cap of one the drain never ends.
\<close>

section \<open>A drain ends\<close>

definition debounce_over :: "int \<Rightarrow> followup_queue \<Rightarrow> bool" where
  "debounce_over now q \<longleftrightarrow> max 0 (fqDebounceMs q) \<le> of_int (now - fqLastEnqueuedAt q) \<or> fqDebounceMs q \<le> 0"

text \<open>A queue whose drain has just looked for aborted messages and found none.\<close>

definition calm_drain :: "int \<Rightarrow> nat \<Rightarrow> followups \<Rightarrow> bool" where
  "calm_drain now i st \<longleftrightarrow>
     fuAborted st = [] \<and> i < length (fuQueues st) \<and> jm_get (fuByKey st) (fqKey (fq_at st i)) = Some i \<and>
     fqMode (fq_at st i) \<noteq> Q_collect \<and> debounce_over now (fq_at st i)"

lemma start_debounce_over:
  "debounce_over now (fq_at st i) \<Longrightarrow> start_debounce now i st = set_pc i Debounced st"
  by (auto simp: start_debounce_def Let_def check_debounce_def debounce_over_def)

lemma start_scan_quiet: "fuAborted st = [] \<Longrightarrow> start_scan aft i st = set_pc i (ScanDone aft 0) st"
  using scan_quiet[of "fqItems (fq_at st i)" "length (fqItems (fq_at st i))"]
  by (simp add: start_scan_def Let_def)

lemma set_pc_set_pc [simp]: "set_pc i pc (set_pc i pc' st) = set_pc i pc st"
  by (cases "i < length (fuQueues st)") (simp_all add: set_pc_def upd_fq_def list_update_beyond)

lemma resume_turn:
  assumes c: "calm_drain now i st" and pc: "fqPc (fq_at st i) = ScanDone False 0"
    and items: "fqItems (fq_at st i) = h # t" and d: "fqDroppedCount (fq_at st i) = 0"
  shows "(resume known now RunOk i ^^ 4) st = set_pc i LoopAgain (shift_item i (set_pc i (HeadRun PlainHead) (call_run i h st)))"
proof -
  have i: "i < length (fuQueues st)" and mode: "fqMode (fq_at st i) \<noteq> Q_collect" and ab: "fuAborted st = []"
    and deb: "debounce_over now (fq_at st i)" using c by (simp_all add: calm_drain_def)
  have 1: "resume known now RunOk i st = set_pc i Debounced st"
    using pc items deb by (simp add: resume_def resume_scan_done_def Let_def queue_pending_def start_debounce_over)
  have 2: "resume known now RunOk i (set_pc i Debounced st) = set_pc i (ScanDone True 0) st"
    using i ab by (simp add: resume_def start_scan_quiet)
  have 3: "resume known now RunOk i (set_pc i (ScanDone True 0) st) = set_pc i (HeadRun PlainHead) (call_run i h st)"
    using i items mode d
    by (simp add: resume_def resume_scan_done_def Let_def queue_pending_def single_turn_def no_summary)
      (simp add: set_pc_def call_run_def upd_fq_def fq_at_def)
  have 4: "resume known now RunOk i (set_pc i (HeadRun PlainHead) (call_run i h st)) =
      set_pc i LoopAgain (shift_item i (set_pc i (HeadRun PlainHead) (call_run i h st)))"
    using i by (simp add: resume_def resume_head_def)
  show ?thesis by (simp add: numeral_eq_Suc 1 2 3 4)
qed

lemma drain_delivers:
  assumes "calm_drain now i st" "fqPc (fq_at st i) = ScanDone False 0" "fqItems (fq_at st i) = items" "items \<noteq> []"
    "fqDroppedCount (fq_at st i) = 0"
  shows "let st' = (resume known now RunOk i ^^ (5 * length items)) st
    in fqPc (fq_at st' i) = NotDraining \<and> fqItems (fq_at st' i) = [] \<and>
       jm_get (fuByKey st') (fqKey (fq_at st i)) = None \<and>
       fuCalls st' = fuCalls st @ map (Pair (fqCallback (fq_at st i))) items"
  using assms
proof (induction items arbitrary: st)
  case (Cons h t)
  note c = Cons.prems(1) and pc = Cons.prems(2) and d = Cons.prems(5)
  have i: "i < length (fuQueues st)" and ab: "fuAborted st = []" and key: "jm_get (fuByKey st) (fqKey (fq_at st i)) = Some i"
    using c by (simp_all add: calm_drain_def)
  define st4 where "st4 = set_pc i LoopAgain (shift_item i (set_pc i (HeadRun PlainHead) (call_run i h st)))"
  have r4: "(resume known now RunOk i ^^ 4) st = st4"
    using resume_turn[OF c pc Cons.prems(3) d] by (simp add: st4_def)
  have q4: "fq_at st4 i = (fq_at st i)\<lparr>fqPc := LoopAgain, fqItems := t\<rparr>"
    and f4: "fuByKey st4 = fuByKey st" "fuAborted st4 = []" "length (fuQueues st4) = length (fuQueues st)"
      "fuCalls st4 = fuCalls st @ [(fqCallback (fq_at st i), h)]"
    using i ab Cons.prems(3) by (simp_all add: st4_def shift_item_def)
  have r5: "(resume known now RunOk i ^^ 5) st = loop_head i st4"
    using r4 i q4 by (simp add: numeral_eq_Suc resume_def)
  show ?case
  proof (cases "t = []")
    case True
    then have "loop_head i st4 = drain_ends i st4"
      using q4 d by (simp add: loop_head_def drain_finally_def queue_pending_def)
    then show ?thesis
      using r5 i q4 f4 key True by (simp add: drain_ends_def Let_def store_simps)
        (simp add: fq_at_def upd_fq_def)
  next
    case False
    define st5 where "st5 = set_pc i (ScanDone False 0) st4"
    have "loop_head i st4 = st5"
      using False q4 f4(2) by (simp add: loop_head_def queue_pending_def start_scan_quiet st5_def)
    moreover have q5: "fq_at st5 i = (fq_at st i)\<lparr>fqPc := ScanDone False 0, fqItems := t\<rparr>"
      and f5: "fuByKey st5 = fuByKey st" "fuAborted st5 = []" "length (fuQueues st5) = length (fuQueues st)"
        "fuCalls st5 = fuCalls st @ [(fqCallback (fq_at st i), h)]"
      using i q4 f4 by (simp_all add: st5_def)
    moreover have "calm_drain now i st5"
      using c by (simp add: calm_drain_def q5 f5 debounce_over_def)
    ultimately have "let st' = (resume known now RunOk i ^^ (5 * length t)) st5
      in fqPc (fq_at st' i) = NotDraining \<and> fqItems (fq_at st' i) = [] \<and>
         jm_get (fuByKey st') (fqKey (fq_at st5 i)) = None \<and>
         fuCalls st' = fuCalls st5 @ map (Pair (fqCallback (fq_at st5 i))) t"
      using Cons.IH[of st5] False d by simp
    moreover have "(resume known now RunOk i ^^ (5 * length (h # t))) st = (resume known now RunOk i ^^ (5 * length t)) st5"
      using r5 \<open>loop_head i st4 = st5\<close> funpow_add[of "5 * length t" 5 "resume known now RunOk i"]
      by (simp add: add.commute)
    ultimately show ?thesis by (simp add: Let_def q5 f5)
  qed
qed simp



section \<open>A drain that does not end\<close>

text \<open>
  A queue that has dropped messages but holds none: with nothing to run the summary for, a drain
  that does not collect gives up and schedules itself again. Each of its awaits is already
  resolved, so no timer and no other work gets a turn.
\<close>

definition starved :: "int \<Rightarrow> nat \<Rightarrow> followups \<Rightarrow> bool" where
  "starved now i st \<longleftrightarrow>
     calm_drain now i st \<and> fqItems (fq_at st i) = [] \<and> fqDroppedCount (fq_at st i) > 0 \<and>
     fqDropPolicy (fq_at st i) = Drop_summarize \<and> fqLastRun (fq_at st i) \<noteq> None \<and>
     (fqPc (fq_at st i) = ScanDone False 0 \<or> fqPc (fq_at st i) = Debounced \<or> fqPc (fq_at st i) = ScanDone True 0)"

lemma starvedD:
  assumes "starved now i st"
  shows "fuAborted st = []" "i < length (fuQueues st)" "jm_get (fuByKey st) (fqKey (fq_at st i)) = Some i"
    "fqMode (fq_at st i) \<noteq> Q_collect" "debounce_over now (fq_at st i)" "fqItems (fq_at st i) = []"
    "fqDroppedCount (fq_at st i) > 0" "fqDropPolicy (fq_at st i) = Drop_summarize" "fqLastRun (fq_at st i) \<noteq> None"
  using assms by (auto simp: starved_def calm_drain_def)

lemma starved_pc:
  assumes s: "starved now i st" and pc: "pc \<in> {ScanDone False 0, Debounced, ScanDone True 0}"
  shows "starved now i (set_pc i pc st) \<and> fuCalls (set_pc i pc st) = fuCalls st"
  using starvedD[OF s] pc by (auto simp: starved_def calm_drain_def debounce_over_def)

lemma starved_resume:
  assumes s: "starved now i st"
  shows "starved now i (resume known now out i st) \<and> fuCalls (resume known now out i st) = fuCalls st"
proof -
  note d = starvedD[OF s]
  have pend: "queue_pending (fq_at st i)" using d(7) by (simp add: queue_pending_def)
  consider "fqPc (fq_at st i) = ScanDone False 0" | "fqPc (fq_at st i) = Debounced" | "fqPc (fq_at st i) = ScanDone True 0"
    using s by (auto simp: starved_def)
  then show ?thesis
  proof cases
    case 1
    then show ?thesis
      using starved_pc[OF s, of Debounced] pend d(5)
      by (simp add: resume_def resume_scan_done_def Let_def start_debounce_over)
  next
    case 2
    then show ?thesis using starved_pc[OF s, of "ScanDone True 0"] d(1) by (simp add: resume_def start_scan_quiet)
  next
    case 3
    let ?key = "fqKey (fq_at st i)"
    let ?off = "upd_fq i (\<lambda>q. q\<lparr>fqDraining := False, fqPc := NotDraining\<rparr>) st"
    let ?eff = "js_nullish (jm_get (fuCallbacks st) ?key) (fqCallback (fq_at st i))"
    let ?on = "upd_fq i (\<lambda>q. q\<lparr>fqForceIndividual := False, fqCallback := ?eff\<rparr>)
      (rememberFollowupDrainCallback ?key ?eff (upd_fq i (fqDraining_update (\<lambda>_. True)) ?off))"
    obtain r where r: "fqLastRun (fq_at st i) = Some r" using d(9) by blast
    have "resume known now out i st = drain_finally i st"
      using 3 pend d(4,6,7,8) r
      by (simp add: resume_def resume_scan_done_def Let_def single_turn_def previewQueueSummaryPrompt_def buildQueueSummaryPrompt_def)
    also have "\<dots> = scheduleFollowupDrain ?key (fqCallback (fq_at st i)) ?off"
      using pend by (simp add: drain_finally_def)
    also have "\<dots> = (if queue_pending (fq_at ?on i) then start_scan False i ?on else drain_ends i ?on)"
      using d(2,3) by (simp add: scheduleFollowupDrain_def beginQueueDrain_def Let_def)
    finally have r: "resume known now out i st = (if queue_pending (fq_at ?on i) then start_scan False i ?on else drain_ends i ?on)" .
    have on: "fq_at ?on i = (fq_at st i)\<lparr>fqDraining := True, fqPc := NotDraining, fqForceIndividual := False, fqCallback := ?eff\<rparr>"
      "fuAborted ?on = []" "fuByKey ?on = fuByKey st" "length (fuQueues ?on) = length (fuQueues st)" "fuCalls ?on = fuCalls st"
      using d(1,2) by (simp_all add: rememberFollowupDrainCallback_def) (simp add: fq_at_def upd_fq_def)
    have "resume known now out i st = set_pc i (ScanDone False 0) ?on"
      unfolding r using pend on(1,2) by (simp add: queue_pending_def start_scan_quiet)
    then show ?thesis
      using d on by (simp add: starved_def calm_drain_def debounce_over_def)
  qed
qed

lemma starved_forever:
  "starved now i st \<Longrightarrow> starved now i ((resume known now out i ^^ n) st) \<and> fuCalls ((resume known now out i ^^ n) st) = fuCalls st"
proof (induction n)
  case (Suc n)
  then show ?case using starved_resume[of now i "(resume known now out i ^^ n) st" known out] by simp
qed simp

definition drain_steps :: "nat \<Rightarrow> followups \<Rightarrow> followups" where
  "drain_steps n = resume (\<lambda>_. True) 5 RunOk 0 ^^ n"

definition send :: "rat \<Rightarrow> string \<Rightarrow> followups \<Rightarrow> followups" where
  "send cap p st = snd (enqueueFollowupRun 0 ''k'' (example_message p) (example_settings cap) No_dedupe (Some 7) True st)"

definition calls_of :: "followups \<Rightarrow> string list" where
  "calls_of st = map (frPrompt \<circ> snd) (fuCalls st)"

text \<open>The message ''b'' arrives while ''a'' is run, for a queue that may hold one message.\<close>

definition overrun :: followups where
  "overrun = drain_steps 2 (send 1 ''b'' (drain_steps 3 (send 1 ''a'' no_followups)))"

lemma overrun_starved: "starved 5 0 overrun"
  by code_simp

text \<open>
  A queue with a cap of one: when a message arrives while the one before it is run, the
  running message is dropped, the drain removes the new one in its place, and from then on the
  drain makes no call and never ends: it gives up for want of a message and schedules itself for
  the dropped ones, again and again. Every await on that path is already resolved.
\<close>

theorem overflow_hangs_drain:
  "calls_of (send 1 ''a'' no_followups) = [] \<and> calls_of overrun = [''a''] \<and>
   (\<forall>n. fqPc (fq_at (drain_steps n overrun) 0) \<noteq> NotDraining \<and> fqItems (fq_at (drain_steps n overrun) 0) = [] \<and>
        calls_of (drain_steps n overrun) = [''a''])"
proof -
  have c: "calls_of (send 1 ''a'' no_followups) = []" "calls_of overrun = [''a'']" by code_simp+
  have "fqPc (fq_at (drain_steps n overrun) 0) \<noteq> NotDraining \<and> fqItems (fq_at (drain_steps n overrun) 0) = [] \<and>
      calls_of (drain_steps n overrun) = [''a'']" for n
  proof -
    have s: "starved 5 0 (drain_steps n overrun)" and f: "fuCalls (drain_steps n overrun) = fuCalls overrun"
      using starved_forever[OF overrun_starved, where known = "\<lambda>_. True" and out = RunOk and n = n] by (simp_all add: drain_steps_def)
    show ?thesis using s c(2) starvedD(6)[OF s] by (auto simp: starved_def calls_of_def f)
  qed
  then show ?thesis using c by simp
qed

section \<open>Messages lost at the cap\<close>

lemma calm_awaits:
  assumes c: "calm_drain now i st" and pc: "fqPc (fq_at st i) = LoopAgain" and p: "queue_pending (fq_at st i)"
  shows "(resume known now out i ^^ 3) st = set_pc i (ScanDone True 0) st"
proof -
  have i: "i < length (fuQueues st)" and ab: "fuAborted st = []" and deb: "debounce_over now (fq_at st i)"
    using c by (simp_all add: calm_drain_def)
  have 1: "resume known now out i st = set_pc i (ScanDone False 0) st"
    using pc p ab by (simp add: resume_def loop_head_def start_scan_quiet)
  have 2: "resume known now out i (set_pc i (ScanDone False 0) st) = set_pc i Debounced st"
    using i p deb by (auto simp: resume_def resume_scan_done_def Let_def queue_pending_def start_debounce_over debounce_over_def)
  have 3: "resume known now out i (set_pc i Debounced st) = set_pc i (ScanDone True 0) st"
    using i ab by (simp add: resume_def start_scan_quiet)
  show ?thesis by (simp add: numeral_eq_Suc 1 2 3)
qed

definition summary_run :: "string \<Rightarrow> agent_run \<Rightarrow> int \<Rightarrow> followup_run \<Rightarrow> followup_run" where
  "summary_run p r now h = collectQueuedImages [h] (collectSummaryRuntimeMetadata [h]
     (bare_run p r now \<lparr>rmChannel = frChannel h, rmTo = frTo h, rmAccountId = frAccountId h, rmThreadId = frThreadId h\<rparr>))"

lemma summary_run_prompt [simp]: "frPrompt (summary_run p r now h) = p"
  by (simp add: summary_run_def collectQueuedImages_def collectSummaryRuntimeMetadata_def
    collectRuntimeMetadata_def bare_run_def Let_def)

lemma summary_takes_head:
  assumes i: "i < length (fuQueues st)" and pc: "fqPc (fq_at st i) = ScanDone True 0"
    and mode: "fqMode (fq_at st i) \<noteq> Q_collect" and items: "fqItems (fq_at st i) = h # t"
    and p: "previewQueueSummaryPrompt (fq_at st i) = Some p" and r: "fqLastRun (fq_at st i) = Some r"
  shows "let st' = (resume known now RunOk i ^^ 2) st
    in fqPc (fq_at st' i) = SummaryDone \<and> fqItems (fq_at st' i) = t \<and>
       fuCalls st' = fuCalls st @ [(fqCallback (fq_at st i), summary_run p r now h)]"
proof -
  let ?s = "set_pc i (HeadRun (SummaryHead (summary_snapshot (fq_at st i)))) (call_run i (summary_run p r now h) st)"
  have 1: "resume known now RunOk i st = ?s"
    using i pc mode items p r
    by (simp add: resume_def resume_scan_done_def Let_def queue_pending_def single_turn_def summary_run_def)
  have 2: "resume known now RunOk i ?s = set_pc i SummaryDone (shift_item i (completeFollowupQueueSummarySources i ?s))"
    using i by (simp add: resume_def resume_head_def)
  show ?thesis
    using i items
    by (simp add: numeral_eq_Suc 1 2 shift_item_def completeFollowupQueueSummarySources_def)
qed


text \<open>The messages ''a'' and ''b'' fill a queue of two; ''c'' is accepted while ''a'' is run.\<close>

definition overrun_two :: followups where
  "overrun_two = send 2 ''c'' (drain_steps 3 (send 2 ''b'' (send 2 ''a'' no_followups)))"


end
