(* ===== verification/Operator_Scopes.thy ===== *)
theory Operator_Scopes
  imports Contracts
begin

text \<open>
  Roles and scopes: \<open>src/shared/operator-scope-compat.ts\<close>, \<open>src/shared/device-auth.ts\<close>,
  \<open>src/shared/device-bootstrap-profile.ts\<close> and the list normalisation of
  \<open>src/shared/string-normalization.ts\<close> they share. A scope is a string; the scopes of the role
  \<open>operator\<close> start with \<open>operator.\<close>, and \<open>operator.admin\<close> stands for all of them. An array whose
  elements are of unknown type is the list of its strings.

  \<open>roleScopesAllow\<close> is an authority (the locale below): what is allowed by something that is
  allowed is allowed, and more grants allow no less. Device pairing, bootstrap tokens and node
  pairing delegate along it.
\<close>

section \<open>Lists of strings\<close>

text \<open>The trimmed strings of a list, without the empty ones; a set of them keeps the first of each.\<close>

definition normalizeTrimmedStringList :: "string list option \<Rightarrow> string list" where
  "normalizeTrimmedStringList v =
     (case v of None \<Rightarrow> [] | Some xs \<Rightarrow> List.map_filter (\<lambda>x. normalizeOptionalString (Some x)) xs)"

definition normalizeArrayBackedTrimmedStringList :: "string list option \<Rightarrow> string list option" where
  "normalizeArrayBackedTrimmedStringList v = map_option (\<lambda>xs. normalizeTrimmedStringList (Some xs)) v"

definition normalizeUniqueSingleOrTrimmedStringList :: "string list option \<Rightarrow> string list" where
  "normalizeUniqueSingleOrTrimmedStringList v = uniqueValues (normalizeTrimmedStringList v)"

definition trimmed_set :: "string list \<Rightarrow> string list" where
  "trimmed_set xs = uniqueValues (filter (\<lambda>t. t \<noteq> []) (map js_trim xs))"

text \<open>\<open>toSorted()\<close> without a comparator compares strings by their code units.\<close>

fun js_string_le :: "string \<Rightarrow> string \<Rightarrow> bool" where
  "js_string_le [] _ = True"
| "js_string_le (_ # _) [] = False"
| "js_string_le (a # as) (b # bs) =
     ((of_char a :: nat) < of_char b \<or> a = b \<and> js_string_le as bs)"

section \<open>Operator scopes\<close>

definition OPERATOR_ROLE :: string where "OPERATOR_ROLE = ''operator''"
definition OPERATOR_ADMIN_SCOPE :: string where "OPERATOR_ADMIN_SCOPE = ''operator.admin''"
definition OPERATOR_READ_SCOPE :: string where "OPERATOR_READ_SCOPE = ''operator.read''"
definition OPERATOR_WRITE_SCOPE :: string where "OPERATOR_WRITE_SCOPE = ''operator.write''"
definition OPERATOR_SCOPE_PREFIX :: string where "OPERATOR_SCOPE_PREFIX = ''operator.''"

definition normalizeScopeList :: "string list \<Rightarrow> string list" where
  "normalizeScopeList scopes = trimmed_set scopes"

definition operatorScopeSatisfied :: "string \<Rightarrow> string list \<Rightarrow> bool" where
  "operatorScopeSatisfied requestedScope granted =
     (if \<not> js_starts_with requestedScope OPERATOR_SCOPE_PREFIX then False
      else if List.member granted OPERATOR_ADMIN_SCOPE then True
      else if requestedScope = OPERATOR_READ_SCOPE
      then List.member granted OPERATOR_READ_SCOPE \<or> List.member granted OPERATOR_WRITE_SCOPE
      else if requestedScope = OPERATOR_WRITE_SCOPE then List.member granted OPERATOR_WRITE_SCOPE
      else List.member granted requestedScope)"

definition roleScopesAllow :: "string \<Rightarrow> string list \<Rightarrow> string list \<Rightarrow> bool" where
  "roleScopesAllow role requestedScopes allowedScopes =
     (let requested = normalizeScopeList requestedScopes; allowed = normalizeScopeList allowedScopes
      in if requested = [] then True
         else if allowed = [] then False
         else if js_trim role \<noteq> OPERATOR_ROLE
         then list_all (\<lambda>s. js_starts_with s (js_trim role @ ''.'') \<and> List.member allowed s) requested
         else list_all (\<lambda>s. operatorScopeSatisfied s allowed) requested)"

fun resolveMissingRequestedScope :: "string \<Rightarrow> string list \<Rightarrow> string list \<Rightarrow> string option" where
  "resolveMissingRequestedScope role [] allowed = None"
| "resolveMissingRequestedScope role (s # ss) allowed =
     (if \<not> roleScopesAllow role [s] allowed then Some s else resolveMissingRequestedScope role ss allowed)"

fun resolveScopeOutsideRequestedRoles :: "string list \<Rightarrow> string list \<Rightarrow> string option" where
  "resolveScopeOutsideRequestedRoles roles [] = None"
| "resolveScopeOutsideRequestedRoles roles (s # ss) =
     (if \<not> list_ex (\<lambda>role. roleScopesAllow role [s] [s]) roles then Some s
      else resolveScopeOutsideRequestedRoles roles ss)"

section \<open>Scopes of a device\<close>

definition normalizeDeviceAuthRole :: "string \<Rightarrow> string" where
  "normalizeDeviceAuthRole role = js_trim role"

definition with_implied :: "string list \<Rightarrow> string list" where
  "with_implied out =
     (if List.member out OPERATOR_ADMIN_SCOPE then js_add OPERATOR_WRITE_SCOPE (js_add OPERATOR_READ_SCOPE out)
      else if List.member out OPERATOR_WRITE_SCOPE then js_add OPERATOR_READ_SCOPE out
      else out)"

definition normalizeDeviceAuthScopes :: "string list option \<Rightarrow> string list" where
  "normalizeDeviceAuthScopes scopes =
     (case scopes of None \<Rightarrow> [] | Some xs \<Rightarrow> js_sort js_string_le (with_implied (trimmed_set xs)))"

section \<open>Bootstrap profiles\<close>

record bootstrap_profile =
  bpRoles :: "string list"
  bpScopes :: "string list"

record bootstrap_profile_input =
  biRoles :: "string list option"
  biScopes :: "string list option"

definition BOOTSTRAP_HANDOFF_OPERATOR_SCOPES :: "string list" where
  "BOOTSTRAP_HANDOFF_OPERATOR_SCOPES =
     [''operator.approvals'', ''operator.read'', ''operator.talk.secrets'', ''operator.write'']"

definition PAIRING_SETUP_BOOTSTRAP_PROFILE :: bootstrap_profile where
  "PAIRING_SETUP_BOOTSTRAP_PROFILE =
     \<lparr>bpRoles = [''node'', ''operator''], bpScopes = BOOTSTRAP_HANDOFF_OPERATOR_SCOPES\<rparr>"

definition normalizeBootstrapRoles :: "string list option \<Rightarrow> string list" where
  "normalizeBootstrapRoles roles =
     (case roles of None \<Rightarrow> []
      | Some rs \<Rightarrow> js_sort js_string_le (uniqueValues (filter (\<lambda>r. r \<noteq> []) (map normalizeDeviceAuthRole rs))))"

definition normalizeDeviceBootstrapProfile :: "bootstrap_profile_input option \<Rightarrow> bootstrap_profile" where
  "normalizeDeviceBootstrapProfile input =
     \<lparr>bpRoles = normalizeBootstrapRoles (Option.bind input biRoles),
      bpScopes = normalizeDeviceAuthScopes (Some (js_nullish (Option.bind input biScopes) []))\<rparr>"

definition isPairingSetupBootstrapProfile :: "bootstrap_profile_input option \<Rightarrow> bool" where
  "isPairingSetupBootstrapProfile input \<longleftrightarrow> normalizeDeviceBootstrapProfile input = PAIRING_SETUP_BOOTSTRAP_PROFILE"

definition resolveBootstrapProfileScopesForRole :: "string \<Rightarrow> string list \<Rightarrow> string list" where
  "resolveBootstrapProfileScopesForRole role scopes =
     (if normalizeDeviceAuthRole role = OPERATOR_ROLE
      then filter (List.member BOOTSTRAP_HANDOFF_OPERATOR_SCOPES) (normalizeDeviceAuthScopes (Some scopes))
      else [])"

definition resolveBootstrapProfileScopesForRoles :: "string list \<Rightarrow> string list \<Rightarrow> string list" where
  "resolveBootstrapProfileScopesForRoles roles scopes =
     normalizeDeviceAuthScopes (Some (concat (map (\<lambda>role. resolveBootstrapProfileScopesForRole role scopes) roles)))"

definition normalizeDeviceBootstrapHandoffProfile :: "bootstrap_profile_input option \<Rightarrow> bootstrap_profile" where
  "normalizeDeviceBootstrapHandoffProfile input =
     (let profile = normalizeDeviceBootstrapProfile input
      in \<lparr>bpRoles = bpRoles profile,
          bpScopes = resolveBootstrapProfileScopesForRoles (bpRoles profile) (bpScopes profile)\<rparr>)"

section \<open>What a set of scopes allows\<close>

lemma set_trimmed_set: "set (trimmed_set xs) = {t. t \<noteq> [] \<and> (\<exists>x \<in> set xs. t = js_trim x)}"
  by (auto simp: trimmed_set_def)

lemma trimmed_set_eq_Nil: "trimmed_set xs = [] \<longleftrightarrow> set (trimmed_set xs) = {}"
  by simp

lemma set_trimmed_append [simp]: "set (trimmed_set (xs @ ys)) = set (trimmed_set xs) \<union> set (trimmed_set ys)"
  by (auto simp: set_trimmed_set)

lemma set_trimmed_idem: "set (trimmed_set (trimmed_set xs)) = set (trimmed_set xs)"
  by (auto simp: set_trimmed_set)

definition scope_ok :: "string \<Rightarrow> string \<Rightarrow> string set \<Rightarrow> bool" where
  "scope_ok role s granted \<longleftrightarrow>
     (if js_trim role = OPERATOR_ROLE
      then js_starts_with s OPERATOR_SCOPE_PREFIX
           \<and> (OPERATOR_ADMIN_SCOPE \<in> granted \<or> s \<in> granted \<or> s = OPERATOR_READ_SCOPE \<and> OPERATOR_WRITE_SCOPE \<in> granted)
      else js_starts_with s (js_trim role @ ''.'') \<and> s \<in> granted)"

lemma operatorScopeSatisfied_eq:
  "operatorScopeSatisfied s granted \<longleftrightarrow>
     js_starts_with s OPERATOR_SCOPE_PREFIX
     \<and> (OPERATOR_ADMIN_SCOPE \<in> set granted \<or> s \<in> set granted
        \<or> s = OPERATOR_READ_SCOPE \<and> OPERATOR_WRITE_SCOPE \<in> set granted)"
  by (auto simp: operatorScopeSatisfied_def)

lemma roleScopesAllow_iff:
  "roleScopesAllow role a b \<longleftrightarrow> (\<forall>s \<in> set (trimmed_set a). scope_ok role s (set (trimmed_set b)))"
  unfolding roleScopesAllow_def Let_def normalizeScopeList_def
  by (auto simp: list_all_iff scope_ok_def operatorScopeSatisfied_eq neq_Nil_conv)

lemma scope_ok_mono: "scope_ok role s g \<Longrightarrow> g \<subseteq> h \<Longrightarrow> scope_ok role s h"
  by (auto simp: scope_ok_def split: if_splits)

lemma admin_prefix: "js_starts_with OPERATOR_ADMIN_SCOPE OPERATOR_SCOPE_PREFIX"
  "js_starts_with OPERATOR_WRITE_SCOPE OPERATOR_SCOPE_PREFIX" "js_starts_with OPERATOR_READ_SCOPE OPERATOR_SCOPE_PREFIX"
  "OPERATOR_ADMIN_SCOPE \<noteq> OPERATOR_READ_SCOPE" "OPERATOR_ADMIN_SCOPE \<noteq> OPERATOR_WRITE_SCOPE" "OPERATOR_WRITE_SCOPE \<noteq> OPERATOR_READ_SCOPE"
  by (simp_all add: OPERATOR_ADMIN_SCOPE_def OPERATOR_SCOPE_PREFIX_def OPERATOR_WRITE_SCOPE_def OPERATOR_READ_SCOPE_def)

lemma scope_ok_trans:
  "scope_ok role s g \<Longrightarrow> \<forall>t \<in> g. scope_ok role t h \<Longrightarrow> scope_ok role s h"
  using admin_prefix by (auto simp: scope_ok_def split: if_splits)

section \<open>Authorities\<close>

text \<open>
  What a list of requests may be taken from a list of grants. Each request counts for itself,
  more grants allow no less, and what is allowed by requests that are allowed is allowed.
\<close>

locale authority =
  fixes allows :: "'a list \<Rightarrow> 'a list \<Rightarrow> bool"
  assumes allows_Nil: "allows [] g"
    and allows_append: "allows (a @ b) g \<longleftrightarrow> allows a g \<and> allows b g"
    and allows_mono: "set g \<subseteq> set h \<Longrightarrow> allows a g \<Longrightarrow> allows a h"
    and allows_trans: "allows a g \<Longrightarrow> allows g h \<Longrightarrow> allows a h"
begin

text \<open>A right that was handed down a chain of grants is one the first of them allows.\<close>

lemma delegated: "successively (\<lambda>g h. allows h g) (g # gs) \<Longrightarrow> gs \<noteq> [] \<Longrightarrow> allows (last gs) g"
proof (induction gs arbitrary: g)
  case (Cons h hs)
  show ?case
  proof (cases "hs = []")
    case False
    then have "allows (last hs) h" using Cons by simp
    then show ?thesis using Cons.prems False allows_trans[of "last hs" h g] by simp
  qed (use Cons.prems in simp)
qed simp

lemma allows_concat: "allows (concat as) g \<longleftrightarrow> list_all (\<lambda>a. allows a g) as"
  by (induction as) (simp_all add: allows_Nil allows_append)

lemma allows_elements: "allows a g \<longleftrightarrow> (\<forall>s \<in> set a. allows [s] g)"
proof (induction a)
  case (Cons s ss)
  then show ?case using allows_append[of "[s]" ss g] by simp
qed (simp add: allows_Nil)

lemma allows_subset: "set a \<subseteq> set b \<Longrightarrow> allows b g \<Longrightarrow> allows a g"
  using allows_elements by blast

end

interpretation scopes: authority "roleScopesAllow role" for role
proof unfold_locales
  fix a b g h :: "string list"
  show "roleScopesAllow role [] g" by (simp add: roleScopesAllow_iff set_trimmed_set)
  show "roleScopesAllow role (a @ b) g \<longleftrightarrow> roleScopesAllow role a g \<and> roleScopesAllow role b g"
    by (auto simp: roleScopesAllow_iff)
  show "roleScopesAllow role a h" if "set g \<subseteq> set h" "roleScopesAllow role a g"
  proof -
    have "set (trimmed_set g) \<subseteq> set (trimmed_set h)" using that(1) by (auto simp: set_trimmed_set)
    then show ?thesis using that(2) by (auto simp: roleScopesAllow_iff intro: scope_ok_mono)
  qed
  show "roleScopesAllow role a h" if "roleScopesAllow role a g" "roleScopesAllow role g h"
    using that unfolding roleScopesAllow_iff by (blast intro: scope_ok_trans)
qed

lemma missing_scope_iff:
  "resolveMissingRequestedScope role ss allowed = None \<longleftrightarrow> roleScopesAllow role ss allowed"
proof (induction ss)
  case (Cons s ss)
  then show ?case using scopes.allows_append[of role "[s]" ss allowed] by simp
qed (simp add: scopes.allows_Nil)

lemma missing_scope_in: "resolveMissingRequestedScope role ss allowed = Some s \<Longrightarrow> s \<in> set ss \<and> \<not> roleScopesAllow role [s] allowed"
  by (induction ss) (auto split: if_splits)

lemma outside_roles_iff:
  "resolveScopeOutsideRequestedRoles roles ss = None \<longleftrightarrow>
     (\<forall>s \<in> set ss. \<exists>role \<in> set roles. roleScopesAllow role [s] [s])"
  by (induction ss) (auto simp: list_ex_iff)

section \<open>Normalising changes nothing\<close>

lemma takeWhile_no_dot: "CHR ''.'' \<notin> set a \<Longrightarrow> takeWhile (\<lambda>c. c \<noteq> CHR ''.'') (a @ CHR ''.'' # b) = a"
  by (induction a) auto

lemma starts_with_dot:
  assumes "js_starts_with (a @ CHR ''.'' # b) (r @ ''.'')" "CHR ''.'' \<notin> set a" "CHR ''.'' \<notin> set b"
  shows "r = a"
proof -
  obtain t where t: "a @ CHR ''.'' # b = r @ CHR ''.'' # t"
    using assms(1) by (auto simp: js_starts_with_iff prefix_def)
  have "takeWhile (\<lambda>c. c \<noteq> CHR ''.'') (a @ CHR ''.'' # b) = a"
    by (rule takeWhile_no_dot[OF assms(2)])
  moreover have "CHR ''.'' \<notin> set r"
  proof
    assume "CHR ''.'' \<in> set r"
    then obtain u v where r: "r = u @ CHR ''.'' # v" and u: "CHR ''.'' \<notin> set u" by (meson split_list_first)
    have "takeWhile (\<lambda>c. c \<noteq> CHR ''.'') (r @ CHR ''.'' # t) = u" using takeWhile_no_dot[OF u] r by simp
    then have "u = a" using \<open>takeWhile _ (a @ _) = a\<close> t by simp
    then have "b = v @ CHR ''.'' # t" using t r by simp
    then show False using assms(3) by simp
  qed
  then have "takeWhile (\<lambda>c. c \<noteq> CHR ''.'') (r @ CHR ''.'' # t) = r" by (rule takeWhile_no_dot)
  ultimately show ?thesis using t by simp
qed

lemma operator_dot:
  assumes "js_trim role \<noteq> OPERATOR_ROLE"
  shows "\<not> js_starts_with OPERATOR_ADMIN_SCOPE (js_trim role @ ''.'')" "\<not> js_starts_with OPERATOR_WRITE_SCOPE (js_trim role @ ''.'')"
    "\<not> js_starts_with OPERATOR_READ_SCOPE (js_trim role @ ''.'')"
  using starts_with_dot[of "''operator''" "''admin''" "js_trim role"] starts_with_dot[of "''operator''" "''write''" "js_trim role"]
    starts_with_dot[of "''operator''" "''read''" "js_trim role"] assms
  by (auto simp: OPERATOR_ADMIN_SCOPE_def OPERATOR_WRITE_SCOPE_def OPERATOR_READ_SCOPE_def OPERATOR_ROLE_def)

lemma set_with_implied:
  "set (with_implied out) = set out
     \<union> (if OPERATOR_ADMIN_SCOPE \<in> set out then {OPERATOR_READ_SCOPE, OPERATOR_WRITE_SCOPE}
        else if OPERATOR_WRITE_SCOPE \<in> set out then {OPERATOR_READ_SCOPE} else {})"
  by (auto simp: with_implied_def)

lemma trim_scope_names [simp]:
  "js_trim OPERATOR_ADMIN_SCOPE = OPERATOR_ADMIN_SCOPE" "js_trim OPERATOR_READ_SCOPE = OPERATOR_READ_SCOPE"
  "js_trim OPERATOR_WRITE_SCOPE = OPERATOR_WRITE_SCOPE" "js_trim OPERATOR_ROLE = OPERATOR_ROLE"
  "OPERATOR_ADMIN_SCOPE \<noteq> []" "OPERATOR_READ_SCOPE \<noteq> []" "OPERATOR_WRITE_SCOPE \<noteq> []"
  by (simp_all add: OPERATOR_ADMIN_SCOPE_def OPERATOR_READ_SCOPE_def OPERATOR_WRITE_SCOPE_def OPERATOR_ROLE_def
      js_trim_def js_space_def)

lemma set_normalized: "set (normalizeDeviceAuthScopes (Some xs)) = set (with_implied (trimmed_set xs))"
  by (simp add: normalizeDeviceAuthScopes_def)

lemma normalized_trimmed:
  "set (trimmed_set (normalizeDeviceAuthScopes (Some xs))) = set (normalizeDeviceAuthScopes (Some xs))"
  unfolding set_trimmed_set[of "normalizeDeviceAuthScopes (Some xs)"] set_normalized
  by (auto simp: set_with_implied set_trimmed_set split: if_splits)

lemma normalize_request: "roleScopesAllow role (normalizeDeviceAuthScopes (Some xs)) g \<longleftrightarrow> roleScopesAllow role xs g"
  unfolding roleScopesAllow_iff normalized_trimmed set_normalized set_with_implied
  using operator_dot[of role] admin_prefix by (auto simp: scope_ok_def split: if_splits)

lemma normalize_grant: "roleScopesAllow role a (normalizeDeviceAuthScopes (Some g)) \<longleftrightarrow> roleScopesAllow role a g"
  unfolding roleScopesAllow_iff normalized_trimmed set_normalized set_with_implied
  using operator_dot[of role] admin_prefix by (fastforce simp: scope_ok_def split: if_splits)

lemma normalized_idem: "set (normalizeDeviceAuthScopes (Some (normalizeDeviceAuthScopes (Some xs)))) = set (normalizeDeviceAuthScopes (Some xs))"
  unfolding set_normalized[of "normalizeDeviceAuthScopes (Some xs)"] set_with_implied normalized_trimmed
  using admin_prefix by (auto simp: set_normalized set_with_implied split: if_splits)

lemma distinct_js_sort [simp]: "distinct (js_sort le xs) = distinct xs"
  by (metis mset_eq_imp_distinct_iff mset_js_sort)

lemma distinct_normalized [simp]: "distinct (normalizeDeviceAuthScopes xs)"
  by (simp add: normalizeDeviceAuthScopes_def with_implied_def trimmed_set_def split: option.split)

lemma bootstrap_scopes_handoff: "set (resolveBootstrapProfileScopesForRole role ss) \<subseteq> set BOOTSTRAP_HANDOFF_OPERATOR_SCOPES"
  by (auto simp: resolveBootstrapProfileScopesForRole_def)

lemma normalize_handoff:
  assumes "set ss \<subseteq> set BOOTSTRAP_HANDOFF_OPERATOR_SCOPES"
  shows "set (normalizeDeviceAuthScopes (Some ss)) \<subseteq> set BOOTSTRAP_HANDOFF_OPERATOR_SCOPES"
proof -
  have trim: "\<forall>x \<in> set BOOTSTRAP_HANDOFF_OPERATOR_SCOPES. js_trim x = x" by code_simp
  have no_admin: "OPERATOR_ADMIN_SCOPE \<notin> set BOOTSTRAP_HANDOFF_OPERATOR_SCOPES" "OPERATOR_READ_SCOPE \<in> set BOOTSTRAP_HANDOFF_OPERATOR_SCOPES"
    by code_simp+
  have "set (trimmed_set ss) \<subseteq> set BOOTSTRAP_HANDOFF_OPERATOR_SCOPES"
  proof
    fix t assume "t \<in> set (trimmed_set ss)"
    then obtain x where "x \<in> set ss" "t = js_trim x" unfolding set_trimmed_set by blast
    then show "t \<in> set BOOTSTRAP_HANDOFF_OPERATOR_SCOPES" using assms trim by (metis subsetD)
  qed
  then show ?thesis using no_admin unfolding set_normalized set_with_implied by (auto split: if_splits)
qed

lemma bootstrap_scopes_roles: "set (resolveBootstrapProfileScopesForRoles roles ss) \<subseteq> set BOOTSTRAP_HANDOFF_OPERATOR_SCOPES"
  unfolding resolveBootstrapProfileScopesForRoles_def by (rule normalize_handoff) (use bootstrap_scopes_handoff in fastforce)

end
