(* ===== verification/Pairing_Files.thy ===== *)
theory Pairing_Files
  imports Operator_Scopes
begin

text \<open>
  What the pairing of devices and of nodes shares: \<open>src/infra/pairing-files.ts\<close>,
  \<open>src/infra/pairing-pending.ts\<close>, \<open>src/infra/pairing-token.ts\<close> and
  \<open>src/security/secret-equal.ts\<close>. A pairing keeps two files, the pending requests by their
  identifier and what is paired by its own; an object of JSON is a map in insertion order. An
  operation reads the files, changes what it read and writes one or both back; the lock makes it
  one step. Reading leaves out the requests that are older than their time to live, and a write
  of the other file leaves them where they are.
\<close>

section \<open>Files\<close>

record ('p, 'd) pairing_files =
  pfPending :: "(string, 'p) jmap"
  pfPaired :: "(string, 'd) jmap"

datatype persist_target = Persist_pending | Persist_paired | Persist_both

definition pruneExpiredPending :: "('p \<Rightarrow> int) \<Rightarrow> int \<Rightarrow> int \<Rightarrow> (string, 'p) jmap \<Rightarrow> (string, 'p) jmap" where
  "pruneExpiredPending ts nowMs ttlMs m = filter (\<lambda>(_, req). \<not> nowMs - ts req > ttlMs) m"

definition persist :: "persist_target \<Rightarrow> ('p, 'd) pairing_files \<Rightarrow> ('p, 'd) pairing_files \<Rightarrow> ('p, 'd) pairing_files" where
  "persist target st files =
     (case target of
        Persist_pending \<Rightarrow> files\<lparr>pfPending := pfPending st\<rparr>
      | Persist_paired \<Rightarrow> files\<lparr>pfPaired := pfPaired st\<rparr>
      | Persist_both \<Rightarrow> files\<lparr>pfPending := pfPending st, pfPaired := pfPaired st\<rparr>)"

section \<open>Pending requests\<close>

definition reconcilePendingPairingRequests ::
  "('p \<Rightarrow> string) \<Rightarrow> 'p list \<Rightarrow> 'i \<Rightarrow> ('p \<Rightarrow> 'i \<Rightarrow> bool) \<Rightarrow> ('p \<Rightarrow> 'i \<Rightarrow> 'p) \<Rightarrow> ('p list \<Rightarrow> 'i \<Rightarrow> 'p)
   \<Rightarrow> (string, 'p) jmap \<Rightarrow> 'p \<times> bool \<times> (string, 'p) jmap" where
  "reconcilePendingPairingRequests requestId existing incoming canRefreshSingle refreshSingle buildReplacement pendingById =
     (case existing of
        [e] \<Rightarrow>
          if canRefreshSingle e incoming
          then (let refreshed = refreshSingle e incoming
                in (refreshed, False, jm_set (requestId refreshed) refreshed pendingById))
          else (let request = buildReplacement existing incoming
                in (request, True, jm_set (requestId request) request (jm_del (requestId e) pendingById)))
      | _ \<Rightarrow>
          (let request = buildReplacement existing incoming
           in (request, True,
               jm_set (requestId request) request (fold (\<lambda>e m. jm_del (requestId e) m) existing pendingById))))"

definition rejectPendingPairingRequest :: "string \<Rightarrow> ('p \<Rightarrow> string) \<Rightarrow> (string, 'p) jmap \<Rightarrow> (string \<times> string) option \<times> (string, 'p) jmap" where
  "rejectPendingPairingRequest requestId getId pendingById =
     (case jm_get pendingById requestId of
        None \<Rightarrow> (None, pendingById)
      | Some pending \<Rightarrow> (Some (requestId, getId pending), jm_del requestId pendingById))"

section \<open>Tokens\<close>

text \<open>The bytes of a string in UTF-8, and the comparison in constant time of equally long buffers.\<close>

definition utf8_char :: "char \<Rightarrow> nat list" where
  "utf8_char c = (let n = of_char c in if n < 128 then [n] else [192 + n div 64, 128 + n mod 64])"

definition utf8_bytes :: "string \<Rightarrow> nat list" where
  "utf8_bytes s = concat (map utf8_char s)"

definition padSecretBytes :: "nat list \<Rightarrow> nat \<Rightarrow> nat list" where
  "padSecretBytes bytes n = bytes @ replicate (n - length bytes) 0"

definition safeEqualSecret :: "string option \<Rightarrow> string option \<Rightarrow> bool" where
  "safeEqualSecret provided expected =
     (case (provided, expected) of
        (Some p, Some e) \<Rightarrow>
          (let providedBytes = utf8_bytes p; expectedBytes = utf8_bytes e;
               byteLength = max (length providedBytes) (length expectedBytes)
           in byteLength = 0
              \<or> padSecretBytes providedBytes byteLength = padSecretBytes expectedBytes byteLength
                \<and> length providedBytes = length expectedBytes)
      | _ \<Rightarrow> False)"

definition verifyPairingToken :: "string \<Rightarrow> string \<Rightarrow> bool" where
  "verifyPairingToken provided expected =
     (if js_trim provided = [] \<or> js_trim expected = [] then False
      else safeEqualSecret (Some provided) (Some expected))"

text \<open>The comparison is equality: the encoding has an inverse, and padding is undone by the length.\<close>

lemma utf8_char_inj: "utf8_char c @ xs = utf8_char d @ ys \<Longrightarrow> c = d \<and> xs = ys"
proof -
  assume e: "utf8_char c @ xs = utf8_char d @ ys"
  have lt: "(of_char c :: nat) < 256" "(of_char d :: nat) < 256" by simp_all
  have "(of_char c :: nat) = of_char d \<and> xs = ys"
  proof (cases "(of_char c :: nat) < 128"; cases "(of_char d :: nat) < 128")
    assume h: "\<not> (of_char c :: nat) < 128" "\<not> (of_char d :: nat) < 128"
    then have "(of_char c :: nat) div 64 = of_char d div 64" "(of_char c :: nat) mod 64 = of_char d mod 64" "xs = ys"
      using e by (simp_all add: utf8_char_def Let_def)
    then show ?thesis by (metis div_mult_mod_eq)
  qed (use e in \<open>simp_all add: utf8_char_def Let_def\<close>)
  then show ?thesis by simp
qed

lemma utf8_bytes_inj: "utf8_bytes s = utf8_bytes t \<Longrightarrow> s = t"
proof (induction s arbitrary: t)
  case Nil
  then show ?case by (cases t) (simp_all add: utf8_bytes_def utf8_char_def Let_def split: if_splits)
next
  case (Cons c s)
  then obtain d t' where t: "t = d # t'"
    by (cases t) (simp_all add: utf8_bytes_def utf8_char_def Let_def split: if_splits)
  then show ?case using Cons utf8_char_inj[of c "utf8_bytes s" d "utf8_bytes t'"] by (simp add: utf8_bytes_def)
qed

lemma safeEqualSecret_iff: "safeEqualSecret (Some p) (Some e) \<longleftrightarrow> p = e"
  using utf8_bytes_inj[of p e] by (auto simp: safeEqualSecret_def Let_def padSecretBytes_def)

lemma verifyPairingToken_iff: "verifyPairingToken provided expected \<longleftrightarrow> provided = expected \<and> js_trim provided \<noteq> []"
  by (auto simp: verifyPairingToken_def safeEqualSecret_iff)

section \<open>What reconciling keeps\<close>

text \<open>
  A property of the map of pending requests that deleting keeps, and writing a suitable request,
  holds after a request was reconciled.
\<close>

lemma reconcile_keeps:
  assumes set: "\<And>k p m. K m \<Longrightarrow> P k p \<Longrightarrow> K (jm_set k p m)" and del: "\<And>k m. K m \<Longrightarrow> K (jm_del k m)" and m: "K m"
    and refreshed: "\<And>e. e \<in> set existing \<Longrightarrow> P (requestId (refresh e incoming)) (refresh e incoming)"
    and built: "P (requestId (build existing incoming)) (build existing incoming)"
  shows "K (snd (snd (reconcilePendingPairingRequests requestId existing incoming can refresh build m)))"
proof -
  have folded: "K (fold (\<lambda>e m. jm_del (requestId e) m) es m)" for es
    using m by (induction es arbitrary: m) (auto intro: del)
  show ?thesis
  proof (cases "\<exists>e. existing = [e]")
    case True
    then obtain e where "existing = [e]" by blast
    then show ?thesis
      using set del m refreshed built by (simp add: reconcilePendingPairingRequests_def Let_def)
  next
    case False
    then have "snd (snd (reconcilePendingPairingRequests requestId existing incoming can refresh build m)) =
        jm_set (requestId (build existing incoming)) (build existing incoming) (fold (\<lambda>e m. jm_del (requestId e) m) existing m)"
      by (simp add: reconcilePendingPairingRequests_def Let_def split: list.split)
    then show ?thesis using set[OF folded built] by simp
  qed
qed

text \<open>What is stored under an identifier that was not drawn was there, or refreshes the only request there was.\<close>

lemma reconcile_get:
  assumes refresh: "\<And>e. e \<in> set existing \<Longrightarrow> requestId (refresh e incoming) = requestId e"
    and fresh: "k \<noteq> requestId (build existing incoming)"
    and g: "jm_get (snd (snd (reconcilePendingPairingRequests requestId existing incoming can refresh build m))) k = Some p"
  shows "jm_get m k = Some p \<or> (\<exists>e \<in> set existing. can e incoming \<and> requestId e = k \<and> p = refresh e incoming)"
proof -
  have folded: "jm_get m k = Some p" if "jm_get (fold (\<lambda>e m. jm_del (requestId e) m) es m) k = Some p" for es
    using that
  proof (induction es arbitrary: m)
    case (Cons e es)
    then have "jm_get (jm_del (requestId e) m) k = Some p" by simp
    then show ?case by (simp add: jm_get_del split: if_splits)
  qed simp
  show ?thesis
  proof (cases "\<exists>e. existing = [e] \<and> can e incoming")
    case True
    then obtain e where "existing = [e]" "can e incoming" by blast
    then show ?thesis using g refresh
      by (auto simp: reconcilePendingPairingRequests_def Let_def jm_get_set split: if_splits)
  next
    case False
    then have "snd (snd (reconcilePendingPairingRequests requestId existing incoming can refresh build m)) =
        jm_set (requestId (build existing incoming)) (build existing incoming) (fold (\<lambda>e m. jm_del (requestId e) m) existing m)"
      by (auto simp: reconcilePendingPairingRequests_def Let_def split: list.split)
    then show ?thesis using g fresh folded by (simp add: jm_get_set)
  qed
qed

end
