(* ===== verification/Device_Bootstrap.thy ===== *)
theory Device_Bootstrap
  imports Pairing_Files
begin

text \<open>
  \<open>src/infra/device-bootstrap.ts\<close>: short-lived tokens that let a new device pair by itself,
  within a profile of roles and scopes. The file is a map from a key to a record; every field of
  a record may be missing in the file, and reading fills in those the code relies on. The
  canonical form of a public key (\<open>normalizeDevicePublicKeyBase64Url\<close>, which asks Node's
  \<open>crypto\<close>) is a parameter \<open>canonical\<close>, the random token an argument.
\<close>

definition DEVICE_BOOTSTRAP_TOKEN_TTL_MS :: int where "DEVICE_BOOTSTRAP_TOKEN_TTL_MS = 10 * 60 * 1000"

record bootstrap_record =
  btToken :: "string option"
  btTs :: "int option"
  btDeviceId :: "string option"
  btPublicKey :: "string option"
  btProfile :: "bootstrap_profile option"
  btRedeemedProfile :: "bootstrap_profile option"
  btPendingProfile :: "bootstrap_profile option"
  btRoles :: "string list option"
  btScopes :: "string list option"
  btIssuedAtMs :: "int option"
  btLastUsedAtMs :: "int option"

type_synonym bootstrap_state = "(string, bootstrap_record) jmap"

section \<open>Profiles\<close>

definition profile_input :: "bootstrap_profile \<Rightarrow> bootstrap_profile_input" where
  "profile_input p = \<lparr>biRoles = Some (bpRoles p), biScopes = Some (bpScopes p)\<rparr>"

definition resolveIssuedBootstrapProfileInput ::
  "bootstrap_profile_input option \<Rightarrow> string list option \<Rightarrow> string list option \<Rightarrow> bootstrap_profile_input option" where
  "resolveIssuedBootstrapProfileInput profile roles scopes =
     (if profile \<noteq> None then profile
      else if roles \<noteq> None \<or> scopes \<noteq> None then Some \<lparr>biRoles = roles, biScopes = scopes\<rparr>
      else None)"

definition resolvePersistedBootstrapProfile :: "bootstrap_record \<Rightarrow> bootstrap_profile" where
  "resolvePersistedBootstrapProfile r =
     normalizeDeviceBootstrapProfile (Some
       (case btProfile r of Some p \<Rightarrow> profile_input p | None \<Rightarrow> \<lparr>biRoles = btRoles r, biScopes = btScopes r\<rparr>))"

definition resolvePersistedRedeemedProfile :: "bootstrap_record \<Rightarrow> bootstrap_profile" where
  "resolvePersistedRedeemedProfile r = normalizeDeviceBootstrapProfile (map_option profile_input (btRedeemedProfile r))"

definition resolvePersistedPendingProfile :: "bootstrap_record \<Rightarrow> bootstrap_profile option" where
  "resolvePersistedPendingProfile r =
     map_option (\<lambda>p. normalizeDeviceBootstrapProfile (Some (profile_input p))) (btPendingProfile r)"

definition resolveRequestedBootstrapProfile :: "string \<Rightarrow> string list \<Rightarrow> bootstrap_profile" where
  "resolveRequestedBootstrapProfile role scopes =
     normalizeDeviceBootstrapProfile (Some
       \<lparr>biRoles = Some [role], biScopes = Some (resolveBootstrapProfileScopesForRole role scopes)\<rparr>)"

definition sameBootstrapProfile :: "bootstrap_profile \<Rightarrow> bootstrap_profile \<Rightarrow> bool" where
  "sameBootstrapProfile l r \<longleftrightarrow> bpRoles l = bpRoles r \<and> bpScopes l = bpScopes r"

definition resolveIssuedBootstrapProfile ::
  "bootstrap_profile_input option \<Rightarrow> string list option \<Rightarrow> string list option \<Rightarrow> bootstrap_profile" where
  "resolveIssuedBootstrapProfile profile roles scopes =
     (case resolveIssuedBootstrapProfileInput profile roles scopes of
        Some input \<Rightarrow> normalizeDeviceBootstrapHandoffProfile (Some input)
      | None \<Rightarrow> PAIRING_SETUP_BOOTSTRAP_PROFILE)"

definition bootstrapProfileAllowsRequest :: "bootstrap_profile \<Rightarrow> string \<Rightarrow> string list \<Rightarrow> bool" where
  "bootstrapProfileAllowsRequest allowed role scopes \<longleftrightarrow>
     List.member (bpRoles allowed) role \<and> roleScopesAllow role scopes (bpScopes allowed)"

definition bootstrapProfileSatisfiesProfile :: "bootstrap_profile \<Rightarrow> bootstrap_profile \<Rightarrow> bool" where
  "bootstrapProfileSatisfiesProfile actual required \<longleftrightarrow>
     list_all (\<lambda>role. List.member (bpRoles actual) role \<and>
       (let requiredScopes = resolveBootstrapProfileScopesForRole role (bpScopes required)
        in requiredScopes = [] \<or> bootstrapProfileAllowsRequest actual role requiredScopes)) (bpRoles required)"

definition normalizeBootstrapPublicKey :: "(string \<Rightarrow> string option) \<Rightarrow> string \<Rightarrow> string" where
  "normalizeBootstrapPublicKey canonical publicKey =
     (let trimmed = js_trim publicKey
      in if trimmed = [] then []
         else if js_includes trimmed ''BEGIN'' \<or> list_ex (\<lambda>c. c = CHR ''+'' \<or> c = CHR ''/'' \<or> c = CHR ''='') trimmed
         then js_nullish (canonical trimmed) trimmed
         else trimmed)"

section \<open>The file\<close>

definition load_record :: "string \<Rightarrow> bootstrap_record \<Rightarrow> bootstrap_record" where
  "load_record tokenKey r =
     (let issuedAtMs = js_nullish (btIssuedAtMs r) 0
      in \<lparr>btToken = Some (case btToken r of Some t \<Rightarrow> if js_trim t \<noteq> [] then t else tokenKey | None \<Rightarrow> tokenKey),
          btTs = Some (js_nullish (btTs r) issuedAtMs),
          btDeviceId = btDeviceId r, btPublicKey = btPublicKey r,
          btProfile = Some (resolvePersistedBootstrapProfile r),
          btRedeemedProfile = Some (resolvePersistedRedeemedProfile r),
          btPendingProfile = resolvePersistedPendingProfile r,
          btRoles = None, btScopes = None,
          btIssuedAtMs = Some issuedAtMs, btLastUsedAtMs = btLastUsedAtMs r\<rparr>)"

definition load_bootstrap :: "int \<Rightarrow> bootstrap_state \<Rightarrow> bootstrap_state" where
  "load_bootstrap now file =
     pruneExpiredPending (\<lambda>r. js_nullish (btTs r) 0) now DEVICE_BOOTSTRAP_TOKEN_TTL_MS
       (map (\<lambda>(k, r). (k, load_record k r)) file)"

text \<open>The first record whose token is the provided one; a record that was read has a token.\<close>

definition find_bootstrap :: "string \<Rightarrow> bootstrap_state \<Rightarrow> (string \<times> bootstrap_record) option" where
  "find_bootstrap providedToken st =
     find (\<lambda>(_, candidate). verifyPairingToken providedToken (js_nullish (btToken candidate) [])) st"

section \<open>Operations\<close>

definition issueDeviceBootstrapToken ::
  "int \<Rightarrow> string \<Rightarrow> bootstrap_profile_input option \<Rightarrow> string list option \<Rightarrow> string list option
   \<Rightarrow> bootstrap_state \<Rightarrow> (string \<times> int) \<times> bootstrap_state" where
  "issueDeviceBootstrapToken now token profile roles scopes file =
     (let r = \<lparr>btToken = Some token, btTs = Some now, btDeviceId = None, btPublicKey = None,
               btProfile = Some (resolveIssuedBootstrapProfile profile roles scopes),
               btRedeemedProfile = Some (normalizeDeviceBootstrapProfile None),
               btPendingProfile = None, btRoles = None, btScopes = None,
               btIssuedAtMs = Some now, btLastUsedAtMs = None\<rparr>
      in ((token, now + DEVICE_BOOTSTRAP_TOKEN_TTL_MS), jm_set token r (load_bootstrap now file)))"

definition clearDeviceBootstrapTokens :: "int \<Rightarrow> bootstrap_state \<Rightarrow> nat \<times> bootstrap_state" where
  "clearDeviceBootstrapTokens now file = (length (load_bootstrap now file), [])"

definition revokeDeviceBootstrapToken :: "int \<Rightarrow> string \<Rightarrow> bootstrap_state \<Rightarrow> bootstrap_record option \<times> bootstrap_state" where
  "revokeDeviceBootstrapToken now token file =
     (let providedToken = js_trim token; st = load_bootstrap now file
      in if providedToken = [] then (None, file)
         else (case find_bootstrap providedToken st of
                 None \<Rightarrow> (None, file)
               | Some (tokenKey, r) \<Rightarrow> (Some r, jm_del tokenKey st)))"

definition bound_to :: "(string \<Rightarrow> string option) \<Rightarrow> string \<Rightarrow> string \<Rightarrow> bootstrap_record \<Rightarrow> bool" where
  "bound_to canonical deviceId publicKey r \<longleftrightarrow>
     map_option js_trim (btDeviceId r) = Some deviceId
     \<and> map_option (normalizeBootstrapPublicKey canonical) (btPublicKey r) = Some publicKey"

definition revokeDeviceBootstrapTokensForDevice ::
  "(string \<Rightarrow> string option) \<Rightarrow> int \<Rightarrow> string \<Rightarrow> string \<Rightarrow> bootstrap_state \<Rightarrow> nat \<times> bootstrap_state" where
  "revokeDeviceBootstrapTokensForDevice canonical now deviceId0 publicKey0 file =
     (let deviceId = js_trim deviceId0; publicKey = normalizeBootstrapPublicKey canonical publicKey0
      in if deviceId = [] \<or> publicKey = [] then (0, file)
         else (let st = load_bootstrap now file;
                   kept = filter (\<lambda>(_, r). \<not> bound_to canonical deviceId publicKey r) st;
                   removed = length st - length kept
               in (removed, if removed > 0 then kept else file)))"

definition restoreDeviceBootstrapToken :: "int \<Rightarrow> bootstrap_record \<Rightarrow> bootstrap_state \<Rightarrow> bootstrap_state" where
  "restoreDeviceBootstrapToken now r file = jm_set (js_nullish (btToken r) []) r (load_bootstrap now file)"

definition getDeviceBootstrapTokenProfile :: "int \<Rightarrow> string \<Rightarrow> bootstrap_state \<Rightarrow> bootstrap_profile option" where
  "getDeviceBootstrapTokenProfile now token file =
     (let providedToken = js_trim token
      in if providedToken = [] then None
         else map_option (\<lambda>(_, r). resolvePersistedBootstrapProfile r) (find_bootstrap providedToken (load_bootstrap now file)))"

definition redeemed_with :: "string \<Rightarrow> string list \<Rightarrow> bootstrap_record \<Rightarrow> bootstrap_profile" where
  "redeemed_with role scopes r =
     normalizeDeviceBootstrapProfile (Some
       \<lparr>biRoles = Some (bpRoles (resolvePersistedRedeemedProfile r) @ [role]),
        biScopes = Some (bpScopes (resolvePersistedRedeemedProfile r) @ resolveBootstrapProfileScopesForRole role scopes)\<rparr>)"

definition redeemDeviceBootstrapTokenProfile ::
  "int \<Rightarrow> string \<Rightarrow> string \<Rightarrow> string list \<Rightarrow> bootstrap_state \<Rightarrow> (bool \<times> bool) \<times> bootstrap_state" where
  "redeemDeviceBootstrapTokenProfile now token role scopes file =
     (let providedToken = js_trim token; st = load_bootstrap now file
      in if providedToken = [] then ((False, False), file)
         else (case find_bootstrap providedToken st of
                 None \<Rightarrow> ((False, False), file)
               | Some (tokenKey, r) \<Rightarrow>
                   (let issuedProfile = resolvePersistedBootstrapProfile r;
                        redeemedProfile = redeemed_with role scopes r;
                        nextPendingProfile = (case resolvePersistedPendingProfile r of
                            Some p \<Rightarrow> if \<not> bootstrapProfileSatisfiesProfile redeemedProfile p then Some p else None
                          | None \<Rightarrow> None)
                    in ((True, bootstrapProfileSatisfiesProfile redeemedProfile issuedProfile),
                        jm_set tokenKey (r\<lparr>btProfile := Some issuedProfile, btRedeemedProfile := Some redeemedProfile,
                          btPendingProfile := nextPendingProfile\<rparr>) st))))"

definition truthy :: "string option \<Rightarrow> bool" where
  "truthy s = (case s of None \<Rightarrow> False | Some t \<Rightarrow> t \<noteq> [])"

definition verifyDeviceBootstrapToken ::
  "(string \<Rightarrow> string option) \<Rightarrow> int \<Rightarrow> string \<Rightarrow> string \<Rightarrow> string \<Rightarrow> string \<Rightarrow> string list
   \<Rightarrow> bootstrap_state \<Rightarrow> bool \<times> bootstrap_state" where
  "verifyDeviceBootstrapToken canonical now token deviceId0 publicKey0 role0 scopes file =
     (let st = load_bootstrap now file; providedToken = js_trim token
      in if providedToken = [] then (False, file)
         else (case find_bootstrap providedToken st of
                 None \<Rightarrow> (False, file)
               | Some (tokenKey, r) \<Rightarrow>
                   (let deviceId = js_trim deviceId0; publicKey = normalizeBootstrapPublicKey canonical publicKey0;
                        role = js_trim role0; allowedProfile = resolvePersistedBootstrapProfile r;
                        requestedProfile = resolveRequestedBootstrapProfile role scopes;
                        boundDeviceId = map_option js_trim (btDeviceId r);
                        boundPublicKey = map_option (normalizeBootstrapPublicKey canonical) (btPublicKey r);
                        pendingProfile = resolvePersistedPendingProfile r;
                        used = r\<lparr>btProfile := Some allowedProfile, btDeviceId := Some deviceId,
                                 btPublicKey := Some publicKey, btLastUsedAtMs := Some now\<rparr>
                    in if deviceId = [] \<or> publicKey = [] \<or> role = [] then (False, file)
                       else if bpRoles allowedProfile = [] \<or> \<not> bootstrapProfileAllowsRequest allowedProfile role scopes
                       then (False, file)
                       else if truthy boundDeviceId \<or> truthy boundPublicKey
                       then (if boundDeviceId \<noteq> Some deviceId \<or> boundPublicKey \<noteq> Some publicKey then (False, file)
                             else (case pendingProfile of
                                     Some p \<Rightarrow>
                                       if \<not> sameBootstrapProfile p requestedProfile then (False, file)
                                       else (True, jm_set tokenKey (used\<lparr>btPendingProfile := Some p\<rparr>) st)
                                   | None \<Rightarrow> (True, jm_set tokenKey (used\<lparr>btPendingProfile := Some requestedProfile\<rparr>) st)))
                       else (True, jm_set tokenKey (used\<lparr>btPendingProfile := Some requestedProfile\<rparr>) st))))"

definition getBoundDeviceBootstrapProfile ::
  "(string \<Rightarrow> string option) \<Rightarrow> int \<Rightarrow> string \<Rightarrow> string \<Rightarrow> string \<Rightarrow> bootstrap_state \<Rightarrow> bootstrap_profile option" where
  "getBoundDeviceBootstrapProfile canonical now token deviceId0 publicKey0 file =
     (let providedToken = js_trim token
      in if providedToken = [] then None
         else (case find_bootstrap providedToken (load_bootstrap now file) of
                 None \<Rightarrow> None
               | Some (_, r) \<Rightarrow>
                   (let deviceId = js_trim deviceId0; publicKey = normalizeBootstrapPublicKey canonical publicKey0
                    in if deviceId = [] \<or> publicKey = [] then None
                       else if \<not> bound_to canonical deviceId publicKey r then None
                       else Some (resolvePersistedBootstrapProfile r))))"

end
