(* ===== verification/Device_Pairing.thy ===== *)
theory Device_Pairing
  imports Device_Bootstrap
begin

text \<open>
  \<open>src/infra/device-pairing.ts\<close>: which devices may connect, in which roles and with which scopes.
  A device asks (\<open>requestDevicePairing\<close>), somebody with enough scopes approves
  (\<open>approveDevicePairing\<close>) or a bootstrap token does (\<open>approveBootstrapDevicePairing\<close>), and the
  device then has one token for each role, which is verified, reissued, rotated and revoked.

  The state is the two files of a pairing and the file of the bootstrap tokens. Every operation
  runs under a lock and is one step; it reads the clock once in the model. A random token is
  \<open>draw role\<close>: an operation draws one for each role at most. The issuer of a token has one kind,
  so it is its generation.
\<close>

section \<open>Data\<close>

record pairing_input =
  piDeviceId :: string
  piPublicKey :: string
  piDisplayName :: "string option"
  piPlatform :: "string option"
  piDeviceFamily :: "string option"
  piClientId :: "string option"
  piClientMode :: "string option"
  piRole :: "string option"
  piRoles :: "string list option"
  piScopes :: "string list option"
  piRemoteIp :: "string option"
  piSilent :: "bool option"

record pending_request = pairing_input +
  prRequestId :: string
  prIsRepair :: bool
  prTs :: int

record device_token =
  dtToken :: string
  dtRole :: string
  dtScopes :: "string list"
  dtIssuer :: "string option"
  dtCreatedAtMs :: int
  dtRotatedAtMs :: "int option"
  dtRevokedAtMs :: "int option"
  dtLastUsedAtMs :: "int option"

record paired_device =
  pdDeviceId :: string
  pdPublicKey :: string
  pdDisplayName :: "string option"
  pdPlatform :: "string option"
  pdDeviceFamily :: "string option"
  pdClientId :: "string option"
  pdClientMode :: "string option"
  pdRole :: "string option"
  pdRoles :: "string list option"
  pdScopes :: "string list option"
  pdApprovedScopes :: "string list option"
  pdRemoteIp :: "string option"
  pdTokens :: "(string, device_token) jmap option"
  pdCreatedAtMs :: int
  pdApprovedAtMs :: int
  pdLastSeenAtMs :: "int option"
  pdLastSeenReason :: "string option"

datatype forbidden_reason =
  Caller_scopes_required | Caller_missing_scope | Scope_outside_requested_roles
| Bootstrap_role_not_allowed | Bootstrap_scope_not_allowed

datatype approve_result =
  No_request
| Forbidden forbidden_reason "string option" "string option"
| Approved string paired_device

datatype token_denial =
  Unknown_device_or_role | Missing_approved_scope_baseline | Scope_outside_approved_baseline | Missing_scope string

datatype verify_denial =
  Device_not_paired | Role_missing | Token_missing | Token_revoked | Token_mismatch
| Issuer_generation_stale | Legacy_browser_token | Scope_mismatch

type_synonym device_files = "(pending_request, paired_device) pairing_files"

definition PENDING_TTL_MS :: int where "PENDING_TTL_MS = 5 * 60 * 1000"
definition BROWSER_DEVICE_CLIENT_IDS :: "string list" where
  "BROWSER_DEVICE_CLIENT_IDS = [''openclaw-control-ui'', ''webchat-ui'']"
definition BROWSER_DEVICE_CLIENT_MODE :: string where "BROWSER_DEVICE_CLIENT_MODE = ''webchat''"

definition formatDevicePairingForbiddenMessage :: "forbidden_reason \<Rightarrow> string option \<Rightarrow> string option \<Rightarrow> string" where
  "formatDevicePairingForbiddenMessage reason scope role =
     (case reason of
        Caller_scopes_required \<Rightarrow> ''missing scope: '' @ js_nullish scope ''callerScopes-required''
      | Caller_missing_scope \<Rightarrow> ''missing scope: '' @ js_nullish scope ''unknown''
      | Scope_outside_requested_roles \<Rightarrow> ''invalid scope for requested roles: '' @ js_nullish scope ''unknown''
      | Bootstrap_role_not_allowed \<Rightarrow> ''bootstrap profile does not allow role: '' @ js_nullish role ''unknown''
      | Bootstrap_scope_not_allowed \<Rightarrow> ''bootstrap profile does not allow scope: '' @ js_nullish scope ''unknown'')"

definition load_devices :: "int \<Rightarrow> device_files \<Rightarrow> device_files" where
  "load_devices now files = files\<lparr>pfPending := pruneExpiredPending prTs now PENDING_TTL_MS (pfPending files)\<rparr>"

section \<open>Roles and scopes of a device\<close>

definition normalizeDeviceId :: "string \<Rightarrow> string" where
  "normalizeDeviceId deviceId = js_trim deviceId"

definition normalizeRole :: "string option \<Rightarrow> string option" where
  "normalizeRole role = (case role of None \<Rightarrow> None | Some r \<Rightarrow> if js_trim r \<noteq> [] then Some (js_trim r) else None)"

text \<open>A role on its own counts as a list of one.\<close>

abbreviation single_role :: "string option \<Rightarrow> string list option" where
  "single_role r \<equiv> map_option (\<lambda>r. [r]) r"

definition mergeRoles :: "string list option list \<Rightarrow> string list option" where
  "mergeRoles items =
     (let roles = trimmed_set (concat (map (\<lambda>i. js_nullish i []) items))
      in if roles = [] then None else Some roles)"

definition listActiveTokenRoles :: "(string, device_token) jmap option \<Rightarrow> string list option" where
  "listActiveTokenRoles tokens =
     (case tokens of None \<Rightarrow> None
      | Some m \<Rightarrow> mergeRoles (map (\<lambda>(_, e). Some [dtRole e])
          (filter (\<lambda>(_, e). dtRevokedAtMs e = None \<or> dtRevokedAtMs e = Some 0) m)))"

definition listApprovedPairedDeviceRoles :: "paired_device \<Rightarrow> string list" where
  "listApprovedPairedDeviceRoles d = js_nullish (mergeRoles [pdRoles d, single_role (pdRole d)]) []"

definition listEffectivePairedDeviceRoles :: "paired_device \<Rightarrow> string list" where
  "listEffectivePairedDeviceRoles d =
     (case listActiveTokenRoles (pdTokens d) of
        Some (r # rs) \<Rightarrow> filter (List.member (listApprovedPairedDeviceRoles d)) (r # rs)
      | _ \<Rightarrow> [])"

definition hasEffectivePairedDeviceRole :: "paired_device \<Rightarrow> string \<Rightarrow> bool" where
  "hasEffectivePairedDeviceRole d role =
     (case normalizeRole (Some role) of None \<Rightarrow> False | Some r \<Rightarrow> List.member (listEffectivePairedDeviceRoles d) r)"

definition mergeScopes :: "string list option list \<Rightarrow> string list option" where
  "mergeScopes items =
     (let scopes = trimmed_set (concat (map (\<lambda>i. js_nullish i []) items))
      in if scopes = [] then (if list_ex (\<lambda>i. i \<noteq> None) items then Some [] else None) else Some scopes)"

definition sameStringSet :: "string list \<Rightarrow> string list \<Rightarrow> bool" where
  "sameStringSet l r \<longleftrightarrow> length l = length r \<and> list_all (List.member r) l"

definition resolveRequestedRoles :: "'a pairing_input_scheme \<Rightarrow> string list" where
  "resolveRequestedRoles i = js_nullish (mergeRoles [piRoles i, single_role (piRole i)]) []"

definition resolveRequestedScopes :: "'a pairing_input_scheme \<Rightarrow> string list" where
  "resolveRequestedScopes i = normalizeDeviceAuthScopes (piScopes i)"

section \<open>Requests\<close>

definition samePendingApprovalSnapshot :: "pending_request \<Rightarrow> pairing_input \<Rightarrow> bool" where
  "samePendingApprovalSnapshot existing incoming \<longleftrightarrow>
     piPublicKey existing = piPublicKey incoming
     \<and> normalizeRole (piRole existing) = normalizeRole (piRole incoming)
     \<and> sameStringSet (resolveRequestedRoles existing) (resolveRequestedRoles incoming)
     \<and> sameStringSet (resolveRequestedScopes existing) (resolveRequestedScopes incoming)"

definition refreshPendingDevicePairingRequest :: "pending_request \<Rightarrow> pairing_input \<Rightarrow> bool \<Rightarrow> pending_request" where
  "refreshPendingDevicePairingRequest existing incoming isRepair =
     existing\<lparr>piPublicKey := piPublicKey incoming,
       piDisplayName := opt_else (piDisplayName incoming) (piDisplayName existing),
       piPlatform := opt_else (piPlatform incoming) (piPlatform existing),
       piDeviceFamily := opt_else (piDeviceFamily incoming) (piDeviceFamily existing),
       piClientId := opt_else (piClientId incoming) (piClientId existing),
       piClientMode := opt_else (piClientMode incoming) (piClientMode existing),
       piRemoteIp := opt_else (piRemoteIp incoming) (piRemoteIp existing),
       piSilent := Some (piSilent existing = Some True \<and> piSilent incoming = Some True),
       prIsRepair := prIsRepair existing \<or> isRepair\<rparr>"

definition resolveSupersededPendingSilent :: "pending_request list \<Rightarrow> bool option \<Rightarrow> bool" where
  "resolveSupersededPendingSilent existing incomingSilent \<longleftrightarrow>
     incomingSilent = Some True \<and> list_all (\<lambda>p. piSilent p = Some True) existing"

definition buildPendingDevicePairingRequest :: "int \<Rightarrow> string \<Rightarrow> string \<Rightarrow> bool \<Rightarrow> pairing_input \<Rightarrow> pending_request" where
  "buildPendingDevicePairingRequest now uuid deviceId isRepair req =
     (let role = normalizeRole (piRole req)
      in pairing_input.extend
           (req\<lparr>piDeviceId := deviceId, piRole := role, piRoles := mergeRoles [piRoles req, single_role role],
                piScopes := mergeScopes [piScopes req]\<rparr>)
           (pending_request.fields uuid isRepair now))"

definition replacement_request :: "int \<Rightarrow> string \<Rightarrow> string \<Rightarrow> bool \<Rightarrow> pending_request list \<Rightarrow> pairing_input \<Rightarrow> pending_request" where
  "replacement_request now uuid deviceId isRepair existing incoming =
     (let latestRole = (case existing of [] \<Rightarrow> None | p # _ \<Rightarrow> piRole p);
          mergedRoles = mergeRoles (concat (map (\<lambda>p. [piRoles p, single_role (piRole p)]) existing)
            @ [piRoles incoming, single_role (piRole incoming)]);
          mergedScopes = mergeScopes (map piScopes existing @ [piScopes incoming])
      in buildPendingDevicePairingRequest now uuid deviceId isRepair
           (incoming\<lparr>piRole := opt_else (normalizeRole (piRole incoming)) latestRole, piRoles := mergedRoles,
                     piScopes := mergedScopes,
                     piSilent := Some (resolveSupersededPendingSilent existing (piSilent incoming))\<rparr>))"

definition pending_for :: "string \<Rightarrow> device_files \<Rightarrow> pending_request list" where
  "pending_for deviceId st =
     js_sort (\<lambda>l r. prTs r \<le> prTs l) (filter (\<lambda>p. piDeviceId p = deviceId) (map snd (pfPending st)))"

text \<open>The error of a missing device identifier is the left value.\<close>

definition requestDevicePairing ::
  "int \<Rightarrow> string \<Rightarrow> pairing_input \<Rightarrow> device_files \<Rightarrow> (string + pending_request \<times> bool) \<times> device_files" where
  "requestDevicePairing now uuid req files =
     (let st = load_devices now files; deviceId = normalizeDeviceId (piDeviceId req)
      in if deviceId = [] then (Inl ''deviceId required'', files)
         else (let isRepair = jm_has (pfPaired st) deviceId;
                   (request, created, pending) =
                     reconcilePendingPairingRequests prRequestId (pending_for deviceId st) req
                       samePendingApprovalSnapshot
                       (\<lambda>existing incoming. refreshPendingDevicePairingRequest existing incoming isRepair)
                       (replacement_request now uuid deviceId isRepair) (pfPending st)
               in (Inr (request, created), persist Persist_pending (st\<lparr>pfPending := pending\<rparr>) files)))"

section \<open>Tokens\<close>

definition getPairedDeviceFromState :: "device_files \<Rightarrow> string \<Rightarrow> paired_device option" where
  "getPairedDeviceFromState st deviceId = jm_get (pfPaired st) (normalizeDeviceId deviceId)"

definition cloneDeviceTokens :: "paired_device \<Rightarrow> (string, device_token) jmap" where
  "cloneDeviceTokens d = js_nullish (pdTokens d) []"

definition isBrowserRelatedPairedDevice :: "paired_device \<Rightarrow> bool" where
  "isBrowserRelatedPairedDevice d =
     (if map_option (\<lambda>m. js_lower (js_trim m)) (pdClientMode d) = Some BROWSER_DEVICE_CLIENT_MODE then True
      else (case map_option (\<lambda>i. js_lower (js_trim i)) (pdClientId d) of
              None \<Rightarrow> False | Some clientId \<Rightarrow> clientId \<noteq> [] \<and> List.member BROWSER_DEVICE_CLIENT_IDS clientId))"

definition deviceTokenIssuerMatches :: "device_token \<Rightarrow> string option \<Rightarrow> bool" where
  "deviceTokenIssuerMatches entry issuer \<longleftrightarrow> dtIssuer entry = issuer"

definition revoked :: "device_token \<Rightarrow> bool" where
  "revoked entry \<longleftrightarrow> dtRevokedAtMs entry \<noteq> None \<and> dtRevokedAtMs entry \<noteq> Some 0"

definition buildDeviceAuthToken ::
  "(string \<Rightarrow> string) \<Rightarrow> string \<Rightarrow> string list \<Rightarrow> string option \<Rightarrow> device_token option \<Rightarrow> bool \<Rightarrow> int \<Rightarrow> int option \<Rightarrow> device_token" where
  "buildDeviceAuthToken draw role scopes issuer existing preserveExistingIssuer now rotatedAtMs =
     \<lparr>dtToken = draw role, dtRole = role, dtScopes = scopes,
      dtIssuer = opt_else issuer (if preserveExistingIssuer then Option.bind existing dtIssuer else None),
      dtCreatedAtMs = js_nullish (map_option dtCreatedAtMs existing) now,
      dtRotatedAtMs = rotatedAtMs, dtRevokedAtMs = None,
      dtLastUsedAtMs = Option.bind existing dtLastUsedAtMs\<rparr>"

definition resolveRoleScopedDeviceTokenScopes :: "string \<Rightarrow> string list option \<Rightarrow> string list" where
  "resolveRoleScopedDeviceTokenScopes role scopes =
     (let normalized = normalizeDeviceAuthScopes scopes
      in if role = ''operator'' then filter (\<lambda>s. js_starts_with s OPERATOR_SCOPE_PREFIX) normalized
         else filter (\<lambda>s. \<not> js_starts_with s OPERATOR_SCOPE_PREFIX) normalized)"

definition preserveRoleScopedApprovalScopes :: "string \<Rightarrow> string list option \<Rightarrow> string list" where
  "preserveRoleScopedApprovalScopes role scopes =
     filter (\<lambda>s. if role = OPERATOR_ROLE then js_starts_with s OPERATOR_SCOPE_PREFIX
                 else \<not> js_starts_with s OPERATOR_SCOPE_PREFIX)
       (normalizeUniqueSingleOrTrimmedStringList scopes)"

text \<open>\<open>existing?.approvedScopes ?? existing?.scopes\<close>: what was approved before.\<close>

definition scope_baseline :: "paired_device option \<Rightarrow> string list option" where
  "scope_baseline existing = Option.bind existing (\<lambda>d. opt_else (pdApprovedScopes d) (pdScopes d))"

definition resolveApprovedTokenScopes ::
  "string \<Rightarrow> pending_request \<Rightarrow> device_token option \<Rightarrow> string list option \<Rightarrow> paired_device option \<Rightarrow> string list" where
  "resolveApprovedTokenScopes role pending existingToken approvedScopes existing =
     (let pendingScopes = resolveRoleScopedDeviceTokenScopes role (piScopes pending)
      in if pendingScopes \<noteq> []
         then (let approvedBaseline = resolveRoleScopedDeviceTokenScopes role (scope_baseline existing);
                   requestedScopeDelta =
                     (if existingToken \<noteq> None \<and> approvedBaseline \<noteq> []
                      then filter (\<lambda>s. \<not> List.member approvedBaseline s) pendingScopes else pendingScopes)
               in (case existingToken of
                     Some t \<Rightarrow>
                       if requestedScopeDelta = [] then resolveRoleScopedDeviceTokenScopes role (Some (dtScopes t))
                       else resolveRoleScopedDeviceTokenScopes role (mergeScopes [Some (dtScopes t), Some requestedScopeDelta])
                   | None \<Rightarrow> resolveRoleScopedDeviceTokenScopes role (mergeScopes [None, Some requestedScopeDelta])))
         else resolveRoleScopedDeviceTokenScopes role
                (opt_else (map_option dtScopes existingToken) (opt_else approvedScopes (scope_baseline existing))))"

definition resolveApprovedDeviceScopeBaseline :: "paired_device \<Rightarrow> string list option" where
  "resolveApprovedDeviceScopeBaseline d =
     (case opt_else (pdApprovedScopes d) (pdScopes d) of
        None \<Rightarrow> None | Some baseline \<Rightarrow> Some (normalizeDeviceAuthScopes (Some baseline)))"

definition scopesWithinApprovedDeviceBaseline :: "string \<Rightarrow> string list \<Rightarrow> string list option \<Rightarrow> bool" where
  "scopesWithinApprovedDeviceBaseline role scopes approvedScopes =
     (case approvedScopes of None \<Rightarrow> False | Some a \<Rightarrow> roleScopesAllow role scopes a)"

section \<open>Reading\<close>

definition listDevicePairing :: "int \<Rightarrow> device_files \<Rightarrow> pending_request list \<times> paired_device list" where
  "listDevicePairing now files =
     (let st = load_devices now files
      in (js_sort (\<lambda>a b. prTs b \<le> prTs a) (map snd (pfPending st)),
          js_sort (\<lambda>a b. pdApprovedAtMs b \<le> pdApprovedAtMs a) (map snd (pfPaired st))))"

definition getPairedDevice :: "int \<Rightarrow> string \<Rightarrow> device_files \<Rightarrow> paired_device option" where
  "getPairedDevice now deviceId files = jm_get (pfPaired (load_devices now files)) (normalizeDeviceId deviceId)"

definition getPendingDevicePairing :: "int \<Rightarrow> string \<Rightarrow> device_files \<Rightarrow> pending_request option" where
  "getPendingDevicePairing now requestId files = jm_get (pfPending (load_devices now files)) requestId"

text \<open>\<open>localeCompare\<close> is a parameter.\<close>

definition summarizeDeviceTokens ::
  "(string \<Rightarrow> string \<Rightarrow> bool) \<Rightarrow> (string, device_token) jmap option \<Rightarrow> device_token list option" where
  "summarizeDeviceTokens locale_le tokens =
     (case tokens of
        None \<Rightarrow> None
      | Some m \<Rightarrow>
          (let summaries = js_sort (\<lambda>a b. locale_le (dtRole a) (dtRole b))
                 (map (\<lambda>(_, t). t\<lparr>dtToken := [], dtIssuer := None\<rparr>) m)
           in if summaries = [] then None else Some summaries))"

section \<open>Approval\<close>

text \<open>The scopes of the new token of each requested role, or the scope the approver does not hold.\<close>

fun approve_roles ::
  "string list option \<Rightarrow> pending_request \<Rightarrow> (string, device_token) jmap \<Rightarrow> string list option \<Rightarrow> paired_device option
   \<Rightarrow> string list \<Rightarrow> (forbidden_reason \<times> string option) + (string \<times> string list) list" where
  "approve_roles callerScopes pending tokens approvedScopes existing [] = Inr []"
| "approve_roles callerScopes pending tokens approvedScopes existing (role # roles) =
     (let nextScopes = resolveApprovedTokenScopes role pending (jm_get tokens role) approvedScopes existing;
          required = js_nullish (mergeScopes [Some (resolveRoleScopedDeviceTokenScopes role (piScopes pending)), Some nextScopes])
            nextScopes;
          denial = (if role = OPERATOR_ROLE \<and> nextScopes \<noteq> []
            then (case callerScopes of
                    None \<Rightarrow> Some (Caller_scopes_required, case required of [] \<Rightarrow> None | s # _ \<Rightarrow> Some s)
                  | Some caller \<Rightarrow>
                      (case resolveMissingRequestedScope OPERATOR_ROLE required caller of
                         None \<Rightarrow> None | Some s \<Rightarrow> Some (Caller_missing_scope, Some s)))
            else None)
      in (case denial of
            Some d \<Rightarrow> Inl d
          | None \<Rightarrow>
              (case approve_roles callerScopes pending tokens approvedScopes existing roles of
                 Inl d \<Rightarrow> Inl d
               | Inr rest \<Rightarrow> Inr ((role, nextScopes) # rest))))"

definition approve_token ::
  "(string \<Rightarrow> string) \<Rightarrow> int \<Rightarrow> string \<times> string list \<Rightarrow> (string, device_token) jmap \<Rightarrow> (string, device_token) jmap" where
  "approve_token draw now rs tokens =
     (let (role, nextScopes) = rs; existingToken = jm_get tokens role
      in jm_set role \<lparr>dtToken = draw role, dtRole = role, dtScopes = nextScopes, dtIssuer = None,
           dtCreatedAtMs = js_nullish (map_option dtCreatedAtMs existingToken) now,
           dtRotatedAtMs = (if existingToken \<noteq> None then Some now else None), dtRevokedAtMs = None,
           dtLastUsedAtMs = Option.bind existingToken dtLastUsedAtMs\<rparr> tokens)"

definition approved_device ::
  "int \<Rightarrow> pending_request \<Rightarrow> paired_device option \<Rightarrow> string list option \<Rightarrow> string list option
   \<Rightarrow> (string, device_token) jmap \<Rightarrow> paired_device" where
  "approved_device now pending existing roles approvedScopes tokens =
     \<lparr>pdDeviceId = piDeviceId pending, pdPublicKey = piPublicKey pending, pdDisplayName = piDisplayName pending,
      pdPlatform = piPlatform pending, pdDeviceFamily = piDeviceFamily pending, pdClientId = piClientId pending,
      pdClientMode = piClientMode pending, pdRole = piRole pending, pdRoles = roles, pdScopes = approvedScopes,
      pdApprovedScopes = approvedScopes, pdRemoteIp = piRemoteIp pending, pdTokens = Some tokens,
      pdCreatedAtMs = js_nullish (map_option pdCreatedAtMs existing) now, pdApprovedAtMs = now,
      pdLastSeenAtMs = None, pdLastSeenReason = None\<rparr>"

definition store_approved :: "string \<Rightarrow> paired_device \<Rightarrow> device_files \<Rightarrow> device_files \<Rightarrow> device_files" where
  "store_approved requestId device st files =
     persist Persist_both (st\<lparr>pfPending := jm_del requestId (pfPending st),
       pfPaired := jm_set (pdDeviceId device) device (pfPaired st)\<rparr>) files"

definition roles_after :: "paired_device option \<Rightarrow> pending_request \<Rightarrow> string list option" where
  "roles_after existing pending =
     mergeRoles [Option.bind existing pdRoles, single_role (Option.bind existing pdRole), piRoles pending, single_role (piRole pending)]"

definition approveDevicePairing ::
  "int \<Rightarrow> (string \<Rightarrow> string) \<Rightarrow> string \<Rightarrow> string list option \<Rightarrow> device_files \<Rightarrow> approve_result \<times> device_files" where
  "approveDevicePairing now draw requestId callerScopes files =
     (let st = load_devices now files
      in case jm_get (pfPending st) requestId of
           None \<Rightarrow> (No_request, files)
         | Some pending \<Rightarrow>
             (let requestedRoles = js_nullish (mergeRoles [piRoles pending, single_role (piRole pending)]) [];
                  requestedScopes = normalizeDeviceAuthScopes (piScopes pending)
              in case resolveScopeOutsideRequestedRoles requestedRoles requestedScopes of
                   Some scope \<Rightarrow> (Forbidden Scope_outside_requested_roles (Some scope) None, files)
                 | None \<Rightarrow>
                     (let existing = jm_get (pfPaired st) (piDeviceId pending);
                          roles = roles_after existing pending;
                          approvedScopes = mergeScopes [scope_baseline existing, piScopes pending];
                          tokens = js_nullish (Option.bind existing pdTokens) []
                      in case approve_roles callerScopes pending tokens approvedScopes existing requestedRoles of
                           Inl (reason, scope) \<Rightarrow> (Forbidden reason scope None, files)
                         | Inr nextTokenScopesByRole \<Rightarrow>
                             (let tokens' = fold (approve_token draw now) nextTokenScopesByRole tokens;
                                  device = approved_device now pending existing roles approvedScopes tokens'
                              in (Approved requestId device, store_approved requestId device st files)))))"

definition bootstrap_token_for ::
  "(string \<Rightarrow> string) \<Rightarrow> int \<Rightarrow> string list \<Rightarrow> string \<Rightarrow> (string, device_token) jmap \<Rightarrow> (string, device_token) jmap" where
  "bootstrap_token_for draw now grantedScopes role tokens =
     (let existingToken = jm_get tokens role;
          tokenScopes = (if role = OPERATOR_ROLE then resolveBootstrapProfileScopesForRole role grantedScopes else [])
      in jm_set role (buildDeviceAuthToken draw role tokenScopes None existingToken False now
           (if existingToken \<noteq> None then Some now else None)) tokens)"

definition approveBootstrapDevicePairing ::
  "int \<Rightarrow> (string \<Rightarrow> string) \<Rightarrow> string \<Rightarrow> bootstrap_profile \<Rightarrow> device_files \<Rightarrow> approve_result \<times> device_files" where
  "approveBootstrapDevicePairing now draw requestId profile files =
     (let approvedRoles = js_nullish (mergeRoles [Some (bpRoles profile)]) [];
          approvedScopes = resolveBootstrapProfileScopesForRoles approvedRoles (bpScopes profile);
          st = load_devices now files
      in case jm_get (pfPending st) requestId of
           None \<Rightarrow> (No_request, files)
         | Some pending \<Rightarrow>
             (let requestedRoles = resolveRequestedRoles pending
              in case find (\<lambda>role. \<not> List.member approvedRoles role) requestedRoles of
                   Some role \<Rightarrow> (Forbidden Bootstrap_role_not_allowed None (Some role), files)
                 | None \<Rightarrow>
                     (case resolveMissingRequestedScope OPERATOR_ROLE
                             (filter (\<lambda>s. js_starts_with s OPERATOR_SCOPE_PREFIX) (normalizeDeviceAuthScopes (piScopes pending)))
                             approvedScopes of
                        Some scope \<Rightarrow> (Forbidden Bootstrap_scope_not_allowed (Some scope) None, files)
                      | None \<Rightarrow>
                          (let existing = jm_get (pfPaired st) (piDeviceId pending);
                               grantedScopes = resolveBootstrapProfileScopesForRoles requestedRoles (js_nullish (piScopes pending) []);
                               existingRoles = js_nullish (mergeRoles [Option.bind existing pdRoles, single_role (Option.bind existing pdRole)]) [];
                               preserved = concat (map (\<lambda>role. if List.member requestedRoles role then []
                                 else preserveRoleScopedApprovalScopes role (scope_baseline existing)) existingRoles);
                               nextApprovedScopes = mergeScopes [Some preserved, Some grantedScopes];
                               tokens = fold (bootstrap_token_for draw now grantedScopes) requestedRoles
                                 (js_nullish (Option.bind existing pdTokens) []);
                               device = approved_device now pending existing (roles_after existing pending) nextApprovedScopes tokens
                           in (Approved requestId device, store_approved requestId device st files)))))"

section \<open>Rejecting, removing and describing\<close>

text \<open>The bootstrap tokens that are bound to the device go with a rejected request.\<close>

definition rejectDevicePairing ::
  "(string \<Rightarrow> string option) \<Rightarrow> int \<Rightarrow> string \<Rightarrow> device_files \<Rightarrow> bootstrap_state
   \<Rightarrow> (string \<times> string) option \<times> device_files \<times> bootstrap_state" where
  "rejectDevicePairing canonical now requestId files bootstrap =
     (let st = load_devices now files
      in case jm_get (pfPending st) requestId of
           None \<Rightarrow> (None, files, bootstrap)
         | Some pending \<Rightarrow>
             (Some (requestId, piDeviceId pending),
              persist Persist_pending (st\<lparr>pfPending := jm_del requestId (pfPending st)\<rparr>) files,
              snd (revokeDeviceBootstrapTokensForDevice canonical now (piDeviceId pending) (piPublicKey pending) bootstrap)))"

definition removePairedDevice :: "int \<Rightarrow> string \<Rightarrow> device_files \<Rightarrow> string option \<times> device_files" where
  "removePairedDevice now deviceId files =
     (let st = load_devices now files; normalized = normalizeDeviceId deviceId
      in if normalized = [] \<or> \<not> jm_has (pfPaired st) normalized then (None, files)
         else (Some normalized,
               persist Persist_both (st\<lparr>pfPaired := jm_del normalized (pfPaired st),
                 pfPending := filter (\<lambda>(_, p). piDeviceId p \<noteq> normalized) (pfPending st)\<rparr>) files))"

text \<open>A field that is in the patch is written, even when it has no value.\<close>

record metadata_patch =
  mpDisplayName :: "string option option"
  mpPlatform :: "string option option"
  mpClientId :: "string option option"
  mpClientMode :: "string option option"
  mpRemoteIp :: "string option option"
  mpLastSeenAtMs :: "int option option"
  mpLastSeenReason :: "string option option"

definition updatePairedDeviceMetadata :: "int \<Rightarrow> string \<Rightarrow> metadata_patch \<Rightarrow> device_files \<Rightarrow> bool \<times> device_files" where
  "updatePairedDeviceMetadata now deviceId patch files =
     (let st = load_devices now files; key = normalizeDeviceId deviceId
      in case jm_get (pfPaired st) key of
           None \<Rightarrow> (False, files)
         | Some d \<Rightarrow>
             (let d' = d\<lparr>pdDisplayName := js_nullish (mpDisplayName patch) (pdDisplayName d),
                         pdPlatform := js_nullish (mpPlatform patch) (pdPlatform d),
                         pdClientId := js_nullish (mpClientId patch) (pdClientId d),
                         pdClientMode := js_nullish (mpClientMode patch) (pdClientMode d),
                         pdRemoteIp := js_nullish (mpRemoteIp patch) (pdRemoteIp d),
                         pdLastSeenAtMs := js_nullish (mpLastSeenAtMs patch) (pdLastSeenAtMs d),
                         pdLastSeenReason := js_nullish (mpLastSeenReason patch) (pdLastSeenReason d)\<rparr>
              in (True, persist Persist_paired (st\<lparr>pfPaired := jm_set key d' (pfPaired st)\<rparr>) files)))"

definition clearDevicePairing :: "int \<Rightarrow> string \<Rightarrow> device_files \<Rightarrow> bool \<times> device_files" where
  "clearDevicePairing now deviceId files =
     (let st = load_devices now files; key = normalizeDeviceId deviceId
      in if \<not> jm_has (pfPaired st) key then (False, files)
         else (True, persist Persist_paired (st\<lparr>pfPaired := jm_del key (pfPaired st)\<rparr>) files))"

section \<open>Using and changing tokens\<close>

text \<open>
  The device that was looked up is changed in place and then written under its own identifier,
  so it is stored under both names.
\<close>

definition write_tokens :: "string \<Rightarrow> paired_device \<Rightarrow> (string, device_token) jmap \<Rightarrow> device_files \<Rightarrow> device_files \<Rightarrow> device_files" where
  "write_tokens key d tokens st files =
     (let d' = d\<lparr>pdTokens := Some tokens\<rparr>
      in persist Persist_paired (st\<lparr>pfPaired := jm_set (pdDeviceId d) d' (jm_set key d' (pfPaired st))\<rparr>) files)"

definition verifyDeviceToken ::
  "int \<Rightarrow> string \<Rightarrow> string \<Rightarrow> string \<Rightarrow> string list \<Rightarrow> string option \<Rightarrow> device_files
   \<Rightarrow> (verify_denial + string option) \<times> device_files" where
  "verifyDeviceToken now deviceId token role0 scopes requiredGeneration files =
     (let st = load_devices now files
      in case getPairedDeviceFromState st deviceId of
           None \<Rightarrow> (Inl Device_not_paired, files)
         | Some d \<Rightarrow>
             (case normalizeRole (Some role0) of
                None \<Rightarrow> (Inl Role_missing, files)
              | Some role \<Rightarrow>
                  (case Option.bind (pdTokens d) (\<lambda>m. jm_get m role) of
                     None \<Rightarrow> (Inl Token_missing, files)
                   | Some entry \<Rightarrow>
                       if revoked entry then (Inl Token_revoked, files)
                       else if \<not> verifyPairingToken token (dtToken entry) then (Inl Token_mismatch, files)
                       else if dtIssuer entry \<noteq> None \<and> dtIssuer entry \<noteq> requiredGeneration
                       then (Inl Issuer_generation_stale, files)
                       else if dtIssuer entry = None \<and> requiredGeneration \<noteq> None \<and> isBrowserRelatedPairedDevice d
                       then (Inl Legacy_browser_token, files)
                       else if \<not> scopesWithinApprovedDeviceBaseline role (dtScopes entry) (resolveApprovedDeviceScopeBaseline d)
                       then (Inl Scope_mismatch, files)
                       else if \<not> roleScopesAllow role (normalizeDeviceAuthScopes (Some scopes)) (dtScopes entry)
                       then (Inl Scope_mismatch, files)
                       else (Inr (dtIssuer entry),
                             write_tokens (normalizeDeviceId deviceId) d
                               (jm_set role (entry\<lparr>dtLastUsedAtMs := Some now\<rparr>) (cloneDeviceTokens d)) st files))))"

definition resolveDeviceTokenUpdateContext ::
  "device_files \<Rightarrow> string \<Rightarrow> string \<Rightarrow> (paired_device \<times> string \<times> (string, device_token) jmap \<times> device_token option) option" where
  "resolveDeviceTokenUpdateContext st deviceId role0 =
     (case getPairedDeviceFromState st deviceId of
        None \<Rightarrow> None
      | Some d \<Rightarrow>
          (case normalizeRole (Some role0) of
             None \<Rightarrow> None
           | Some role \<Rightarrow>
               if \<not> List.member (listApprovedPairedDeviceRoles d) role then None
               else (let tokens = cloneDeviceTokens d in Some (d, role, tokens, jm_get tokens role))))"

definition ensureDeviceToken ::
  "int \<Rightarrow> (string \<Rightarrow> string) \<Rightarrow> string \<Rightarrow> string \<Rightarrow> string list \<Rightarrow> string option \<Rightarrow> device_files
   \<Rightarrow> device_token option \<times> device_files" where
  "ensureDeviceToken now draw deviceId role0 scopes issuer files =
     (let st = load_devices now files; requestedScopes = normalizeDeviceAuthScopes (Some scopes)
      in case resolveDeviceTokenUpdateContext st deviceId role0 of
           None \<Rightarrow> (None, files)
         | Some (d, role, tokens, existing) \<Rightarrow>
             (let approvedScopes = resolveApprovedDeviceScopeBaseline d;
                  reusable = (case existing of
                      None \<Rightarrow> None
                    | Some e \<Rightarrow>
                        if \<not> revoked e \<and> scopesWithinApprovedDeviceBaseline role (dtScopes e) approvedScopes
                           \<and> deviceTokenIssuerMatches e issuer \<and> roleScopesAllow role requestedScopes (dtScopes e)
                        then Some e else None)
              in if \<not> scopesWithinApprovedDeviceBaseline role requestedScopes approvedScopes then (None, files)
                 else (case reusable of
                         Some e \<Rightarrow> (Some e, files)
                       | None \<Rightarrow>
                           (let next' = buildDeviceAuthToken draw role requestedScopes issuer existing False now
                                  (if existing \<noteq> None then Some now else None)
                            in (Some next', write_tokens (normalizeDeviceId deviceId) d (jm_set role next' tokens) st files)))))"

definition rotateDeviceToken ::
  "int \<Rightarrow> (string \<Rightarrow> string) \<Rightarrow> string \<Rightarrow> string \<Rightarrow> string list option \<Rightarrow> string list option \<Rightarrow> device_files
   \<Rightarrow> (token_denial + device_token) \<times> device_files" where
  "rotateDeviceToken now draw deviceId role0 scopes callerScopes files =
     (let st = load_devices now files
      in case resolveDeviceTokenUpdateContext st deviceId role0 of
           None \<Rightarrow> (Inl Unknown_device_or_role, files)
         | Some (d, role, tokens, existing) \<Rightarrow>
             (let requestedScopes = normalizeDeviceAuthScopes (opt_else scopes (opt_else (map_option dtScopes existing) (pdScopes d)));
                  approvedScopes = resolveApprovedDeviceScopeBaseline d;
                  missing = Option.bind callerScopes (resolveMissingRequestedScope role requestedScopes)
              in if approvedScopes = None then (Inl Missing_approved_scope_baseline, files)
                 else if \<not> scopesWithinApprovedDeviceBaseline role requestedScopes approvedScopes
                 then (Inl Scope_outside_approved_baseline, files)
                 else (case missing of
                         Some scope \<Rightarrow> (Inl (Missing_scope scope), files)
                       | None \<Rightarrow>
                           (let next' = buildDeviceAuthToken draw role requestedScopes None existing True now (Some now)
                            in (Inr next', write_tokens (normalizeDeviceId deviceId) d (jm_set role next' tokens) st files)))))"

definition revokeDeviceToken ::
  "int \<Rightarrow> string \<Rightarrow> string \<Rightarrow> string list option \<Rightarrow> device_files \<Rightarrow> (token_denial + device_token) \<times> device_files" where
  "revokeDeviceToken now deviceId role0 callerScopes files =
     (let st = load_devices now files
      in case resolveDeviceTokenUpdateContext st deviceId role0 of
           Some (d, role, tokens, Some existing) \<Rightarrow>
             (let targetScopes = normalizeDeviceAuthScopes (Some (dtScopes existing));
                  entry = existing\<lparr>dtRevokedAtMs := Some now\<rparr>
              in case Option.bind callerScopes (resolveMissingRequestedScope role targetScopes) of
                   Some scope \<Rightarrow> (Inl (Missing_scope scope), files)
                 | None \<Rightarrow> (Inr entry, write_tokens (normalizeDeviceId deviceId) d (jm_set role entry tokens) st files))
         | _ \<Rightarrow> (Inl Unknown_device_or_role, files))"

end
