(* ===== verification/Device_Pairing_Props.thy ===== *)
theory Device_Pairing_Props
  imports Device_Pairing
begin

text \<open>
  What the pairing of devices guarantees. In every reachable state a device has tokens only for
  roles that were approved (\<open>devices_ok\<close>), and a token that verifies does so within the scopes
  that were approved. An approval adds no operator scope that neither the device nor the
  approver had; a bootstrap approval stays within the profile of the token.
\<close>

section \<open>Roles\<close>

lemma set_mergeRoles: "set (js_nullish (mergeRoles items) []) = {t. t \<noteq> [] \<and> (\<exists>i \<in> set items. \<exists>x \<in> set (js_nullish i []). t = js_trim x)}"
proof -
  have "set (js_nullish (mergeRoles items) []) = set (trimmed_set (concat (map (\<lambda>i. js_nullish i []) items)))"
    by (simp add: mergeRoles_def Let_def)
  then show ?thesis by (auto simp: set_trimmed_set)
qed

lemma distinct_mergeRoles [simp]: "distinct (js_nullish (mergeRoles items) [])"
  by (simp add: mergeRoles_def Let_def trimmed_set_def)

lemma approved_roles_tokens [simp]: "listApprovedPairedDeviceRoles (d\<lparr>pdTokens := t\<rparr>) = listApprovedPairedDeviceRoles d"
  by (simp add: listApprovedPairedDeviceRoles_def)

lemma normalizeRole_Some: "normalizeRole (Some r0) = Some r \<Longrightarrow> js_trim r = r \<and> r \<noteq> [] \<and> r = js_trim r0"
  by (auto simp: normalizeRole_def split: if_splits)

section \<open>The invariant\<close>

definition tokens_ok :: "string list \<Rightarrow> (string, device_token) jmap \<Rightarrow> bool" where
  "tokens_ok roles tokens \<longleftrightarrow> jm_wf tokens \<and> (\<forall>(r, e) \<in> set tokens. dtRole e = r \<and> r \<in> set roles)"

definition device_ok :: "string \<Rightarrow> paired_device \<Rightarrow> bool" where
  "device_ok key d \<longleftrightarrow> pdDeviceId d = key \<and> js_trim key = key \<and> key \<noteq> []
     \<and> tokens_ok (listApprovedPairedDeviceRoles d) (cloneDeviceTokens d)"

definition request_ok :: "string \<Rightarrow> pending_request \<Rightarrow> bool" where
  "request_ok key p \<longleftrightarrow> prRequestId p = key \<and> js_trim (piDeviceId p) = piDeviceId p \<and> piDeviceId p \<noteq> []"

definition pending_ok :: "(string, pending_request) jmap \<Rightarrow> bool" where
  "pending_ok m \<longleftrightarrow> jm_wf m \<and> (\<forall>(k, p) \<in> set m. request_ok k p)"

definition paired_ok :: "(string, paired_device) jmap \<Rightarrow> bool" where
  "paired_ok m \<longleftrightarrow> jm_wf m \<and> (\<forall>(k, d) \<in> set m. device_ok k d)"

definition devices_ok :: "device_files \<Rightarrow> bool" where
  "devices_ok files \<longleftrightarrow> pending_ok (pfPending files) \<and> paired_ok (pfPaired files)"

text \<open>All three are the same property of a map: what is stored suits its key.\<close>

lemma tokens_ok_set: "tokens_ok roles tokens \<Longrightarrow> dtRole e = r \<Longrightarrow> r \<in> set roles \<Longrightarrow> tokens_ok roles (jm_set r e tokens)"
  unfolding tokens_ok_def by (rule keyed_set) simp_all

lemma tokens_ok_mono: "tokens_ok roles tokens \<Longrightarrow> set roles \<subseteq> set roles' \<Longrightarrow> tokens_ok roles' tokens"
  by (auto simp: tokens_ok_def)

lemma tokens_ok_get: "tokens_ok roles tokens \<Longrightarrow> jm_get tokens r = Some e \<Longrightarrow> dtRole e = r \<and> r \<in> set roles"
  unfolding tokens_ok_def using keyed_get[of tokens "\<lambda>r e. dtRole e = r \<and> r \<in> set roles"] by blast

lemmas pending_ok_set = keyed_set[where P = request_ok, folded pending_ok_def]
lemmas pending_ok_del = keyed_del[where P = request_ok, folded pending_ok_def]
lemmas pending_ok_filter = keyed_filter[where P = request_ok, folded pending_ok_def]
lemmas paired_ok_set = keyed_set[where P = device_ok, folded paired_ok_def]
lemmas paired_ok_del = keyed_del[where P = device_ok, folded paired_ok_def]

lemma pending_ok_get: "pending_ok m \<Longrightarrow> jm_get m k = Some p \<Longrightarrow> request_ok k p"
  by (auto simp: pending_ok_def dest: jm_get_in)

lemma paired_ok_get: "paired_ok m \<Longrightarrow> jm_get m k = Some d \<Longrightarrow> device_ok k d"
  by (auto simp: paired_ok_def dest: jm_get_in)

section \<open>Every operation keeps it\<close>

lemma load_ok: "devices_ok files \<Longrightarrow> devices_ok (load_devices now files)"
  by (simp add: devices_ok_def load_devices_def pruneExpiredPending_def pending_ok_filter)

lemma load_paired [simp]: "pfPaired (load_devices now files) = pfPaired files"
  by (simp add: load_devices_def)

lemma persist_ok: "devices_ok st \<Longrightarrow> devices_ok files \<Longrightarrow> devices_ok (persist target st files)"
  by (simp add: devices_ok_def persist_def split: persist_target.split)

lemma write_tokens_ok:
  assumes f: "devices_ok files" and d: "jm_get (pfPaired files) key = Some d"
    and t: "tokens_ok (listApprovedPairedDeviceRoles d) tokens"
  shows "devices_ok (write_tokens key d tokens (load_devices now files) files)"
proof -
  have ok: "device_ok key d" using f d by (auto simp: devices_ok_def intro: paired_ok_get)
  then have new: "device_ok key (d\<lparr>pdTokens := Some tokens\<rparr>)" and id: "pdDeviceId d = key"
    using t by (simp_all add: device_ok_def cloneDeviceTokens_def)
  have "paired_ok (pfPaired files)" using f by (simp add: devices_ok_def)
  then have "paired_ok (jm_set key (d\<lparr>pdTokens := Some tokens\<rparr>) (jm_set key (d\<lparr>pdTokens := Some tokens\<rparr>) (pfPaired files)))"
    using paired_ok_set new by blast
  then show ?thesis
    using f load_ok[OF f, of now] by (simp add: write_tokens_def Let_def persist_def devices_ok_def id)
qed

lemma pending_for_ok:
  assumes "pending_ok (pfPending st)" "p \<in> set (pending_for dev st)"
  shows "request_ok (prRequestId p) p \<and> piDeviceId p = dev"
  using assms by (auto simp: pending_for_def pending_ok_def request_ok_def)

lemma replacement_ok:
  "js_trim dev = dev \<Longrightarrow> dev \<noteq> [] \<Longrightarrow> request_ok uuid (replacement_request now uuid dev rep ps req)"
  by (simp add: request_ok_def replacement_request_def buildPendingDevicePairingRequest_def Let_def
      pairing_input.defs pending_request.defs)

lemma replacement_id [simp]: "prRequestId (replacement_request now uuid dev rep ps req) = uuid"
  by (simp add: replacement_request_def buildPendingDevicePairingRequest_def Let_def pairing_input.defs pending_request.defs)

lemma refresh_ok: "request_ok k p \<Longrightarrow> request_ok k (refreshPendingDevicePairingRequest p req rep)"
  by (simp add: request_ok_def refreshPendingDevicePairingRequest_def)

lemma refresh_id [simp]: "prRequestId (refreshPendingDevicePairingRequest p req rep) = prRequestId p"
  by (simp add: refreshPendingDevicePairingRequest_def)

lemma request_keeps:
  assumes f: "devices_ok files"
  shows "devices_ok (snd (requestDevicePairing now uuid req files))"
proof (cases "normalizeDeviceId (piDeviceId req) = []")
  case True
  then show ?thesis using f by (simp add: requestDevicePairing_def Let_def)
next
  case False
  let ?dev = "normalizeDeviceId (piDeviceId req)"
  let ?st = "load_devices now files"
  have dev: "js_trim ?dev = ?dev" by (simp add: normalizeDeviceId_def)
  have st: "devices_ok ?st" by (rule load_ok[OF f])
  then have p: "pending_ok (pfPending ?st)" by (simp add: devices_ok_def)
  define out where "out = reconcilePendingPairingRequests prRequestId (pending_for ?dev ?st) req samePendingApprovalSnapshot
    (\<lambda>existing incoming. refreshPendingDevicePairingRequest existing incoming (jm_has (pfPaired ?st) ?dev))
    (replacement_request now uuid ?dev (jm_has (pfPaired ?st) ?dev)) (pfPending ?st)"
  have "pending_ok (snd (snd out))"
    unfolding out_def
  proof (rule reconcile_keeps[where P = request_ok])
    show "pending_ok (jm_set k q m)" if "pending_ok m" "request_ok k q" for k q m by (rule pending_ok_set[OF that])
    show "pending_ok (jm_del k m)" if "pending_ok m" for k m by (rule pending_ok_del[OF that])
    show "request_ok (prRequestId (refreshPendingDevicePairingRequest e req (jm_has (pfPaired ?st) ?dev)))
        (refreshPendingDevicePairingRequest e req (jm_has (pfPaired ?st) ?dev))" if "e \<in> set (pending_for ?dev ?st)" for e
      using pending_for_ok[OF p that] by (simp add: refresh_ok)
  qed (use p replacement_ok[OF dev False] in simp_all)
  then have "devices_ok (?st\<lparr>pfPending := snd (snd out)\<rparr>)" using st by (simp add: devices_ok_def)
  then have "devices_ok (persist Persist_pending (?st\<lparr>pfPending := snd (snd out)\<rparr>) files)" by (rule persist_ok) (rule f)
  then show ?thesis using False by (simp add: requestDevicePairing_def Let_def out_def case_prod_unfold)
qed

section \<open>Approvals\<close>

lemma fold_keyed:
  assumes "\<And>x m. P m \<Longrightarrow> x \<in> set xs \<Longrightarrow> P (f x m)" "P m"
  shows "P (fold f xs m)"
  using assms by (induction xs arbitrary: m) auto

lemma approve_token_ok:
  "tokens_ok roles tokens \<Longrightarrow> fst rs \<in> set roles \<Longrightarrow> tokens_ok roles (approve_token draw now rs tokens)"
  by (cases rs) (simp add: approve_token_def Let_def tokens_ok_set)

lemma bootstrap_token_ok:
  "tokens_ok roles tokens \<Longrightarrow> role \<in> set roles \<Longrightarrow> tokens_ok roles (bootstrap_token_for draw now granted role tokens)"
  by (simp add: bootstrap_token_for_def Let_def tokens_ok_set buildDeviceAuthToken_def)

lemma approve_roles_names: "approve_roles caller p tokens ap ex roles = Inr rs \<Longrightarrow> map fst rs = roles"
  by (induction roles arbitrary: rs) (auto simp: Let_def split: option.splits sum.splits if_splits)

lemma approved_device_roles:
  "set (js_nullish (mergeRoles [piRoles p, single_role (piRole p)]) []) \<subseteq>
     set (listApprovedPairedDeviceRoles (approved_device now p ex (roles_after ex p) ap tokens))"
  "ex = Some d \<Longrightarrow> set (listApprovedPairedDeviceRoles d) \<subseteq>
     set (listApprovedPairedDeviceRoles (approved_device now p ex (roles_after ex p) ap tokens))"
proof -
  have "set (js_nullish (roles_after ex p) []) \<subseteq>
      set (listApprovedPairedDeviceRoles (approved_device now p ex (roles_after ex p) ap tokens))"
  proof
    fix r assume r: "r \<in> set (js_nullish (roles_after ex p) [])"
    then have "js_trim r = r" "r \<noteq> []" unfolding roles_after_def set_mergeRoles by auto
    then show "r \<in> set (listApprovedPairedDeviceRoles (approved_device now p ex (roles_after ex p) ap tokens))"
      using r unfolding listApprovedPairedDeviceRoles_def set_mergeRoles approved_device_def by force
  qed
  moreover have "set (js_nullish (mergeRoles [piRoles p, single_role (piRole p)]) []) \<subseteq> set (js_nullish (roles_after ex p) [])"
    unfolding roles_after_def set_mergeRoles by auto
  moreover have "set (listApprovedPairedDeviceRoles d) \<subseteq> set (js_nullish (roles_after ex p) [])" if "ex = Some d"
    unfolding roles_after_def set_mergeRoles listApprovedPairedDeviceRoles_def that by auto
  ultimately show "set (js_nullish (mergeRoles [piRoles p, single_role (piRole p)]) []) \<subseteq>
      set (listApprovedPairedDeviceRoles (approved_device now p ex (roles_after ex p) ap tokens))"
    "ex = Some d \<Longrightarrow> set (listApprovedPairedDeviceRoles d) \<subseteq>
      set (listApprovedPairedDeviceRoles (approved_device now p ex (roles_after ex p) ap tokens))"
    by blast+
qed

lemma store_approved_ok:
  assumes f: "devices_ok files" and p: "jm_get (pfPending (load_devices now files)) rid = Some p"
    and t: "tokens_ok (listApprovedPairedDeviceRoles d) (cloneDeviceTokens d)" and id: "pdDeviceId d = piDeviceId p"
  shows "devices_ok (store_approved rid d (load_devices now files) files)"
proof -
  have st: "devices_ok (load_devices now files)" by (rule load_ok[OF f])
  then have "request_ok rid p" using p by (auto simp: devices_ok_def intro: pending_ok_get)
  then have "device_ok (pdDeviceId d) d" using t id by (simp add: device_ok_def request_ok_def)
  then show ?thesis
    unfolding store_approved_def
    by (intro persist_ok f) (use st in \<open>simp add: devices_ok_def pending_ok_del paired_ok_set\<close>)
qed

text \<open>The tokens of the device an approval starts from.\<close>

lemma existing_tokens_ok:
  assumes "devices_ok files"
  shows "tokens_ok (listApprovedPairedDeviceRoles (approved_device now p (jm_get (pfPaired files) dev)
      (roles_after (jm_get (pfPaired files) dev) p) ap tokens))
    (js_nullish (Option.bind (jm_get (pfPaired files) dev) pdTokens) [])"
proof (cases "jm_get (pfPaired files) dev")
  case None
  then show ?thesis by (simp add: tokens_ok_def)
next
  case (Some d)
  then have "device_ok dev d" using assms by (auto simp: devices_ok_def intro: paired_ok_get)
  then have "tokens_ok (listApprovedPairedDeviceRoles d) (js_nullish (pdTokens d) [])" by (simp add: device_ok_def cloneDeviceTokens_def)
  then show ?thesis using approved_device_roles(2)[of "Some d" d] unfolding Some by (simp add: tokens_ok_mono)
qed

lemma approve_keeps:
  assumes f: "devices_ok files"
  shows "devices_ok (snd (approveDevicePairing now draw rid caller files))"
proof (cases "snd (approveDevicePairing now draw rid caller files) = files")
  case False
  let ?st = "load_devices now files"
  obtain p where p: "jm_get (pfPending ?st) rid = Some p"
    using False by (auto simp: approveDevicePairing_def Let_def split: option.splits)
  let ?ex = "jm_get (pfPaired files) (piDeviceId p)"
  let ?roles = "js_nullish (mergeRoles [piRoles p, single_role (piRole p)]) []"
  let ?ap = "mergeScopes [scope_baseline ?ex, piScopes p]"
  let ?tokens = "js_nullish (Option.bind ?ex pdTokens) []"
  obtain rs where rs: "approve_roles caller p ?tokens ?ap ?ex ?roles = Inr rs"
    and out: "snd (approveDevicePairing now draw rid caller files) =
      store_approved rid (approved_device now p ?ex (roles_after ?ex p) ?ap (fold (approve_token draw now) rs ?tokens)) ?st files"
    using False p by (auto simp: approveDevicePairing_def Let_def split: option.splits sum.splits)
  let ?d = "approved_device now p ?ex (roles_after ?ex p) ?ap (fold (approve_token draw now) rs ?tokens)"
  let ?R = "listApprovedPairedDeviceRoles ?d"
  have same: "listApprovedPairedDeviceRoles (approved_device now p ?ex (roles_after ?ex p) ?ap t) = ?R" for t
    by (simp add: listApprovedPairedDeviceRoles_def approved_device_def)
  have "tokens_ok ?R (fold (approve_token draw now) rs ?tokens)"
  proof (rule fold_keyed[where P = "tokens_ok ?R"])
    show "tokens_ok ?R ?tokens" using existing_tokens_ok[OF f] unfolding same[symmetric] by simp
    show "tokens_ok ?R (approve_token draw now x m)" if "tokens_ok ?R m" "x \<in> set rs" for x m
      using that approve_roles_names[OF rs] approved_device_roles(1)[where p = p]
      by (intro approve_token_ok) (force simp flip: approve_roles_names[OF rs])+
  qed
  then have "tokens_ok ?R (cloneDeviceTokens ?d)" by (simp add: cloneDeviceTokens_def approved_device_def)
  then show ?thesis unfolding out by (intro store_approved_ok[OF f p]) (simp_all add: approved_device_def)
qed (use f in simp)

lemma bootstrap_keeps:
  assumes f: "devices_ok files"
  shows "devices_ok (snd (approveBootstrapDevicePairing now draw rid profile files))"
proof (cases "snd (approveBootstrapDevicePairing now draw rid profile files) = files")
  case False
  let ?st = "load_devices now files"
  obtain p where p: "jm_get (pfPending ?st) rid = Some p"
    using False by (auto simp: approveBootstrapDevicePairing_def Let_def split: option.splits)
  let ?ex = "jm_get (pfPaired files) (piDeviceId p)"
  let ?roles = "resolveRequestedRoles p"
  let ?granted = "resolveBootstrapProfileScopesForRoles ?roles (js_nullish (piScopes p) [])"
  let ?tokens = "js_nullish (Option.bind ?ex pdTokens) []"
  let ?toks = "fold (bootstrap_token_for draw now ?granted) ?roles ?tokens"
  obtain ap where out: "snd (approveBootstrapDevicePairing now draw rid profile files) =
      store_approved rid (approved_device now p ?ex (roles_after ?ex p) ap ?toks) ?st files"
    using False p by (auto simp: approveBootstrapDevicePairing_def Let_def split: option.splits)
  let ?d = "approved_device now p ?ex (roles_after ?ex p) ap ?toks"
  let ?R = "listApprovedPairedDeviceRoles ?d"
  have same: "listApprovedPairedDeviceRoles (approved_device now p ?ex (roles_after ?ex p) ap t) = ?R" for t
    by (simp add: listApprovedPairedDeviceRoles_def approved_device_def)
  have "tokens_ok ?R ?toks"
  proof (rule fold_keyed[where P = "tokens_ok ?R"])
    show "tokens_ok ?R ?tokens" using existing_tokens_ok[OF f] unfolding same[symmetric] by simp
    show "tokens_ok ?R (bootstrap_token_for draw now ?granted x m)" if "tokens_ok ?R m" "x \<in> set ?roles" for x m
      using that approved_device_roles(1)[where p = p] unfolding resolveRequestedRoles_def
      by (intro bootstrap_token_ok) force+
  qed
  then have "tokens_ok ?R (cloneDeviceTokens ?d)" by (simp add: cloneDeviceTokens_def approved_device_def)
  then show ?thesis unfolding out by (intro store_approved_ok[OF f p]) (simp_all add: approved_device_def)
qed (use f in simp)

section \<open>Tokens and removals\<close>

lemma contextD:
  assumes "resolveDeviceTokenUpdateContext (load_devices now files) dev role0 = Some (d, role, tokens, existing)"
  shows "jm_get (pfPaired files) (normalizeDeviceId dev) = Some d" "normalizeRole (Some role0) = Some role"
    "role \<in> set (listApprovedPairedDeviceRoles d)" "tokens = cloneDeviceTokens d" "existing = jm_get tokens role"
  using assms by (auto simp: resolveDeviceTokenUpdateContext_def getPairedDeviceFromState_def Let_def split: option.splits if_splits)

lemma stored_tokens_ok:
  "devices_ok files \<Longrightarrow> jm_get (pfPaired files) key = Some d \<Longrightarrow> tokens_ok (listApprovedPairedDeviceRoles d) (cloneDeviceTokens d)"
  by (auto simp: devices_ok_def device_ok_def dest: paired_ok_get)

lemma write_token_ok:
  assumes "devices_ok files" "jm_get (pfPaired files) key = Some d" "role \<in> set (listApprovedPairedDeviceRoles d)" "dtRole e = role"
  shows "devices_ok (write_tokens key d (jm_set role e (cloneDeviceTokens d)) (load_devices now files) files)"
  using assms by (intro write_tokens_ok) (auto intro: tokens_ok_set stored_tokens_ok)

lemma build_role [simp]: "dtRole (buildDeviceAuthToken draw role scopes issuer ex pre now rot) = role"
  by (simp add: buildDeviceAuthToken_def)

text \<open>What each operation on a token did when it changed the files.\<close>

lemma verify_changes:
  assumes ok: "verifyDeviceToken now dev tok role0 scopes gen files = (Inr iss, files')"
  obtains d role entry where "jm_get (pfPaired files) (normalizeDeviceId dev) = Some d" "normalizeRole (Some role0) = Some role"
    "jm_get (cloneDeviceTokens d) role = Some entry" "\<not> revoked entry" "verifyPairingToken tok (dtToken entry)"
    "iss = dtIssuer entry"
    "scopesWithinApprovedDeviceBaseline role (dtScopes entry) (resolveApprovedDeviceScopeBaseline d)"
    "roleScopesAllow role (normalizeDeviceAuthScopes (Some scopes)) (dtScopes entry)"
    "files' = write_tokens (normalizeDeviceId dev) d (jm_set role (entry\<lparr>dtLastUsedAtMs := Some now\<rparr>) (cloneDeviceTokens d))
       (load_devices now files) files"
proof -
  obtain d where d: "jm_get (pfPaired files) (normalizeDeviceId dev) = Some d"
    using ok by (cases "jm_get (pfPaired files) (normalizeDeviceId dev)") (simp_all add: verifyDeviceToken_def getPairedDeviceFromState_def Let_def)
  obtain role where role: "normalizeRole (Some role0) = Some role"
    using ok d by (cases "normalizeRole (Some role0)") (simp_all add: verifyDeviceToken_def getPairedDeviceFromState_def Let_def)
  obtain entry where e: "Option.bind (pdTokens d) (\<lambda>m. jm_get m role) = Some entry"
    using ok d role by (cases "Option.bind (pdTokens d) (\<lambda>m. jm_get m role)")
      (simp_all add: verifyDeviceToken_def getPairedDeviceFromState_def Let_def)
  have "jm_get (cloneDeviceTokens d) role = Some entry" using e by (cases "pdTokens d") (simp_all add: cloneDeviceTokens_def)
  then show ?thesis
    using that[OF d role] ok e d role
    by (simp add: verifyDeviceToken_def getPairedDeviceFromState_def Let_def split: if_splits)
qed

lemma verify_denied: "verifyDeviceToken now dev tok role0 scopes gen files = (Inl why, files') \<Longrightarrow> files' = files"
  by (simp add: verifyDeviceToken_def Let_def split: option.split_asm if_split_asm)

lemma ensure_changes:
  assumes ch: "snd (ensureDeviceToken now draw dev role0 scopes issuer files) \<noteq> files"
  obtains d role ex e where
    "resolveDeviceTokenUpdateContext (load_devices now files) dev role0 = Some (d, role, cloneDeviceTokens d, ex)"
    "e = buildDeviceAuthToken draw role (normalizeDeviceAuthScopes (Some scopes)) issuer ex False now
       (if ex \<noteq> None then Some now else None)"
    "ensureDeviceToken now draw dev role0 scopes issuer files =
       (Some e, write_tokens (normalizeDeviceId dev) d (jm_set role e (cloneDeviceTokens d)) (load_devices now files) files)"
proof (cases "resolveDeviceTokenUpdateContext (load_devices now files) dev role0")
  case None
  then show ?thesis using ch by (simp add: ensureDeviceToken_def Let_def)
next
  case (Some t)
  obtain d role tokens ex where t: "t = (d, role, tokens, ex)" by (cases t)
  have tokens: "tokens = cloneDeviceTokens d" using contextD(4)[of now files dev role0] Some t by simp
  show ?thesis
    using that[OF Some[unfolded t tokens] refl] ch Some
    by (simp add: ensureDeviceToken_def Let_def t tokens split: option.split_asm if_split_asm)
qed

lemma rotate_changes:
  assumes ok: "rotateDeviceToken now draw dev role0 scopes caller files = (Inr e, files')"
  obtains d role ex where
    "resolveDeviceTokenUpdateContext (load_devices now files) dev role0 = Some (d, role, cloneDeviceTokens d, ex)"
    "dtRole e = role" "dtToken e = draw role"
    "files' = write_tokens (normalizeDeviceId dev) d (jm_set role e (cloneDeviceTokens d)) (load_devices now files) files"
proof (cases "resolveDeviceTokenUpdateContext (load_devices now files) dev role0")
  case None
  then show ?thesis using ok by (simp add: rotateDeviceToken_def Let_def)
next
  case (Some t)
  obtain d role tokens ex where t: "t = (d, role, tokens, ex)" by (cases t)
  have tokens: "tokens = cloneDeviceTokens d" using contextD(4)[of now files dev role0] Some t by simp
  show ?thesis
    using that[OF Some[unfolded t tokens]] ok Some
    by (auto simp: rotateDeviceToken_def Let_def t tokens buildDeviceAuthToken_def split: option.split_asm if_split_asm)
qed

lemma rotate_denied: "rotateDeviceToken now draw dev role0 scopes caller files = (Inl why, files') \<Longrightarrow> files' = files"
  by (simp add: rotateDeviceToken_def Let_def split: option.split_asm if_split_asm prod.split_asm)

lemma revoke_changes:
  assumes ok: "revokeDeviceToken now dev role0 caller files = (Inr e, files')"
  obtains d role old where
    "resolveDeviceTokenUpdateContext (load_devices now files) dev role0 = Some (d, role, cloneDeviceTokens d, Some old)"
    "e = old\<lparr>dtRevokedAtMs := Some now\<rparr>"
    "files' = write_tokens (normalizeDeviceId dev) d (jm_set role e (cloneDeviceTokens d)) (load_devices now files) files"
proof (cases "resolveDeviceTokenUpdateContext (load_devices now files) dev role0")
  case None
  then show ?thesis using ok by (simp add: revokeDeviceToken_def Let_def)
next
  case (Some t)
  obtain d role tokens ex where t: "t = (d, role, tokens, ex)" by (cases t)
  have tokens: "tokens = cloneDeviceTokens d" using contextD(4)[of now files dev role0] Some t by simp
  obtain old where ex: "ex = Some old" using ok Some t by (cases ex) (simp_all add: revokeDeviceToken_def Let_def)
  show ?thesis
    using that[OF Some[unfolded t tokens ex]] ok Some
    by (auto simp: revokeDeviceToken_def Let_def t tokens ex split: option.split_asm)
qed

lemma revoke_denied: "revokeDeviceToken now dev role0 caller files = (Inl why, files') \<Longrightarrow> files' = files"
  by (simp add: revokeDeviceToken_def Let_def split: option.split_asm prod.split_asm)

lemma verify_keeps:
  assumes f: "devices_ok files" and v: "verifyDeviceToken now dev tok role0 scopes gen files = (res, files')"
  shows "devices_ok files'"
proof (cases res)
  case (Inl why)
  then show ?thesis using verify_denied v f by blast
next
  case (Inr iss)
  obtain d role entry where d: "jm_get (pfPaired files) (normalizeDeviceId dev) = Some d"
    and e: "jm_get (cloneDeviceTokens d) role = Some entry"
    and out: "files' = write_tokens (normalizeDeviceId dev) d (jm_set role (entry\<lparr>dtLastUsedAtMs := Some now\<rparr>) (cloneDeviceTokens d))
       (load_devices now files) files"
    by (rule verify_changes[OF v[unfolded Inr]])
  have "dtRole entry = role \<and> role \<in> set (listApprovedPairedDeviceRoles d)"
    using tokens_ok_get[OF stored_tokens_ok[OF f d] e] by simp
  then show ?thesis unfolding out by (intro write_token_ok[OF f d]) auto
qed

lemma ensure_keeps: "devices_ok files \<Longrightarrow> devices_ok (snd (ensureDeviceToken now draw dev role0 scopes issuer files))"
proof (cases "snd (ensureDeviceToken now draw dev role0 scopes issuer files) = files")
  case False
  assume f: "devices_ok files"
  from ensure_changes[OF False] obtain d role ex e where
    c: "resolveDeviceTokenUpdateContext (load_devices now files) dev role0 = Some (d, role, cloneDeviceTokens d, ex)"
    and e: "dtRole e = role"
    and out: "snd (ensureDeviceToken now draw dev role0 scopes issuer files) =
       write_tokens (normalizeDeviceId dev) d (jm_set role e (cloneDeviceTokens d)) (load_devices now files) files"
    by (metis build_role snd_conv)
  show ?thesis unfolding out by (rule write_token_ok[OF f contextD(1,3)[OF c] e])
qed simp

lemma rotate_keeps:
  assumes f: "devices_ok files" and r: "rotateDeviceToken now draw dev role0 scopes caller files = (res, files')"
  shows "devices_ok files'"
proof (cases res)
  case (Inl why)
  then show ?thesis using rotate_denied r f by blast
next
  case (Inr e)
  show ?thesis
  proof (rule rotate_changes[OF r[unfolded Inr]])
    fix d role ex
    assume c: "resolveDeviceTokenUpdateContext (load_devices now files) dev role0 = Some (d, role, cloneDeviceTokens d, ex)"
      and e: "dtRole e = role"
      and out: "files' = write_tokens (normalizeDeviceId dev) d (jm_set role e (cloneDeviceTokens d)) (load_devices now files) files"
    show ?thesis unfolding out by (rule write_token_ok[OF f contextD(1,3)[OF c] e])
  qed
qed

lemma revoke_keeps:
  assumes f: "devices_ok files" and r: "revokeDeviceToken now dev role0 caller files = (res, files')"
  shows "devices_ok files'"
proof (cases res)
  case (Inl why)
  then show ?thesis using revoke_denied r f by blast
next
  case (Inr e)
  show ?thesis
  proof (rule revoke_changes[OF r[unfolded Inr]])
    fix d role old
    assume c: "resolveDeviceTokenUpdateContext (load_devices now files) dev role0 = Some (d, role, cloneDeviceTokens d, Some old)"
      and e: "e = old\<lparr>dtRevokedAtMs := Some now\<rparr>"
      and out: "files' = write_tokens (normalizeDeviceId dev) d (jm_set role e (cloneDeviceTokens d)) (load_devices now files) files"
    have "dtRole old = role" using tokens_ok_get[OF stored_tokens_ok[OF f contextD(1)[OF c]]] contextD(5)[OF c] by simp
    then have "dtRole e = role" by (simp add: e)
    then show ?thesis unfolding out by (rule write_token_ok[OF f contextD(1,3)[OF c]])
  qed
qed

lemma reject_keeps: "devices_ok files \<Longrightarrow> devices_ok (fst (snd (rejectDevicePairing canonical now rid files b)))"
proof -
  assume f: "devices_ok files"
  have "devices_ok ((load_devices now files)\<lparr>pfPending := jm_del rid (pfPending (load_devices now files))\<rparr>)"
    using load_ok[OF f, of now] by (simp add: devices_ok_def pending_ok_del)
  then show ?thesis using f by (simp add: rejectDevicePairing_def Let_def persist_ok split: option.split)
qed

lemma remove_keeps: "devices_ok files \<Longrightarrow> devices_ok (snd (removePairedDevice now dev files))"
proof -
  assume f: "devices_ok files"
  let ?st = "load_devices now files" and ?n = "normalizeDeviceId dev"
  have "devices_ok (?st\<lparr>pfPaired := jm_del ?n (pfPaired files), pfPending := filter (\<lambda>(_, p). piDeviceId p \<noteq> ?n) (pfPending ?st)\<rparr>)"
    using load_ok[OF f, of now] by (simp add: devices_ok_def pending_ok_filter paired_ok_del)
  then show ?thesis using f by (simp add: removePairedDevice_def Let_def persist_ok)
qed

lemma update_keeps: "devices_ok files \<Longrightarrow> devices_ok (snd (updatePairedDeviceMetadata now dev patch files))"
proof (cases "jm_get (pfPaired files) (normalizeDeviceId dev)")
  case (Some d)
  assume f: "devices_ok files"
  let ?key = "normalizeDeviceId dev"
  define d' where "d' = d\<lparr>pdDisplayName := js_nullish (mpDisplayName patch) (pdDisplayName d),
    pdPlatform := js_nullish (mpPlatform patch) (pdPlatform d), pdClientId := js_nullish (mpClientId patch) (pdClientId d),
    pdClientMode := js_nullish (mpClientMode patch) (pdClientMode d), pdRemoteIp := js_nullish (mpRemoteIp patch) (pdRemoteIp d),
    pdLastSeenAtMs := js_nullish (mpLastSeenAtMs patch) (pdLastSeenAtMs d),
    pdLastSeenReason := js_nullish (mpLastSeenReason patch) (pdLastSeenReason d)\<rparr>"
  have "device_ok ?key d" using f Some by (auto simp: devices_ok_def intro: paired_ok_get)
  then have "device_ok ?key d'" by (simp add: device_ok_def d'_def listApprovedPairedDeviceRoles_def cloneDeviceTokens_def)
  then have "devices_ok ((load_devices now files)\<lparr>pfPaired := jm_set ?key d' (pfPaired files)\<rparr>)"
    using load_ok[OF f, of now] by (simp add: devices_ok_def paired_ok_set)
  then show ?thesis using f Some by (simp add: updatePairedDeviceMetadata_def Let_def persist_ok d'_def)
qed (simp add: updatePairedDeviceMetadata_def Let_def)

lemma clear_keeps: "devices_ok files \<Longrightarrow> devices_ok (snd (clearDevicePairing now dev files))"
proof -
  assume f: "devices_ok files"
  have "devices_ok ((load_devices now files)\<lparr>pfPaired := jm_del (normalizeDeviceId dev) (pfPaired files)\<rparr>)"
    using load_ok[OF f, of now] by (simp add: devices_ok_def paired_ok_del)
  then show ?thesis using f by (simp add: clearDevicePairing_def Let_def persist_ok)
qed

section \<open>Reachable states\<close>

inductive device_step :: "device_files \<Rightarrow> device_files \<Rightarrow> bool" where
  requested: "device_step files (snd (requestDevicePairing now uuid req files))"
| approved: "device_step files (snd (approveDevicePairing now draw rid caller files))"
| bootstrapped: "device_step files (snd (approveBootstrapDevicePairing now draw rid profile files))"
| rejected: "device_step files (fst (snd (rejectDevicePairing canonical now rid files b)))"
| removed: "device_step files (snd (removePairedDevice now dev files))"
| described: "device_step files (snd (updatePairedDeviceMetadata now dev patch files))"
| cleared: "device_step files (snd (clearDevicePairing now dev files))"
| verified: "verifyDeviceToken now dev tok role scopes gen files = (res, files') \<Longrightarrow> device_step files files'"
| ensured: "device_step files (snd (ensureDeviceToken now draw dev role scopes issuer files))"
| rotated: "rotateDeviceToken now draw dev role opt caller files = (res', files') \<Longrightarrow> device_step files files'"
| revoked_one: "revokeDeviceToken now dev role caller files = (res', files') \<Longrightarrow> device_step files files'"

definition no_devices :: device_files where "no_devices = \<lparr>pfPending = [], pfPaired = []\<rparr>"

lemma device_step_keeps: "device_step files files' \<Longrightarrow> devices_ok files \<Longrightarrow> devices_ok files'"
  by (induction rule: device_step.induct)
    (auto intro: request_keeps approve_keeps bootstrap_keeps reject_keeps remove_keeps update_keeps clear_keeps
      verify_keeps ensure_keeps rotate_keeps revoke_keeps)

lemma no_devices_ok: "devices_ok no_devices"
  by (simp add: no_devices_def devices_ok_def pending_ok_def paired_ok_def)

interpretation devices: invariant_system "\<lambda>files. files = no_devices" device_step devices_ok
  by unfold_locales (simp_all add: no_devices_ok device_step_keeps)

section \<open>A token that verifies\<close>

text \<open>The scopes somebody approved for a device.\<close>

definition approved_scopes :: "paired_device \<Rightarrow> string list" where
  "approved_scopes d = js_nullish (opt_else (pdApprovedScopes d) (pdScopes d)) []"

lemma within_baseline:
  "scopesWithinApprovedDeviceBaseline role ss (resolveApprovedDeviceScopeBaseline d) \<Longrightarrow> roleScopesAllow role ss (approved_scopes d)"
  by (cases "opt_else (pdApprovedScopes d) (pdScopes d)")
    (simp_all add: scopesWithinApprovedDeviceBaseline_def resolveApprovedDeviceScopeBaseline_def approved_scopes_def normalize_grant)

text \<open>
  C26: A token that verifies was issued to the paired device, for a role that was approved for it,
  and has not been revoked; and each scope it is used with is allowed by the scopes that were
  approved for the device - after any sequence of requests, approvals, rotations, revocations
  and removals.
\<close>

theorem verified_was_approved:
  assumes "rtranclp device_step no_devices files"
    and "verifyDeviceToken now dev tok role scopes gen files = (Inr iss, files')"
  shows "\<exists>d e. jm_get (pfPaired files) (js_trim dev) = Some d \<and> pdDeviceId d = js_trim dev
    \<and> jm_get (cloneDeviceTokens d) (js_trim role) = Some e \<and> dtToken e = tok \<and> dtRole e = js_trim role \<and> \<not> revoked e
    \<and> js_trim role \<in> set (listApprovedPairedDeviceRoles d)
    \<and> roleScopesAllow (js_trim role) scopes (approved_scopes d)"
proof (rule verify_changes[OF assms(2)])
  fix d role' e
  assume d: "jm_get (pfPaired files) (normalizeDeviceId dev) = Some d" and r: "normalizeRole (Some role) = Some role'"
    and e: "jm_get (cloneDeviceTokens d) role' = Some e" and live: "\<not> revoked e" and tok: "verifyPairingToken tok (dtToken e)"
    and base: "scopesWithinApprovedDeviceBaseline role' (dtScopes e) (resolveApprovedDeviceScopeBaseline d)"
    and req: "roleScopesAllow role' (normalizeDeviceAuthScopes (Some scopes)) (dtScopes e)"
  have role: "role' = js_trim role" using normalizeRole_Some[OF r] by simp
  have ok: "devices_ok files" by (rule devices.reachable_inv[OF refl assms(1)])
  then have "pdDeviceId d = js_trim dev" using paired_ok_get d by (auto simp: devices_ok_def device_ok_def normalizeDeviceId_def)
  moreover have "dtRole e = role' \<and> role' \<in> set (listApprovedPairedDeviceRoles d)"
    using tokens_ok_get[OF stored_tokens_ok[OF ok d] e] .
  moreover have "roleScopesAllow role' scopes (approved_scopes d)"
    using scopes.allows_trans[OF req within_baseline[OF base]] by (simp add: normalize_request)
  ultimately show ?thesis using d e live tok by (auto simp: role normalizeDeviceId_def verifyPairingToken_iff)
qed

text \<open>A device that asks, is approved and connects.\<close>

definition plain_request :: "string \<Rightarrow> string list \<Rightarrow> pairing_input" where
  "plain_request role scopes = \<lparr>piDeviceId = ''d'', piPublicKey = ''k'', piDisplayName = None, piPlatform = None,
     piDeviceFamily = None, piClientId = None, piClientMode = None, piRole = Some role, piRoles = None,
     piScopes = Some scopes, piRemoteIp = None, piSilent = None\<rparr>"

definition after_request :: "int \<Rightarrow> string \<Rightarrow> string \<Rightarrow> string list \<Rightarrow> device_files \<Rightarrow> device_files" where
  "after_request now uuid role scopes files = snd (requestDevicePairing now uuid (plain_request role scopes) files)"

definition after_approval :: "int \<Rightarrow> string \<Rightarrow> string list option \<Rightarrow> device_files \<Rightarrow> device_files" where
  "after_approval now rid caller files = snd (approveDevicePairing now (\<lambda>role. ''t-'' @ role) rid caller files)"

definition operator_paired :: device_files where
  "operator_paired = after_approval 2 ''u'' (Some [''operator.write''])
     (after_request 1 ''u'' ''operator'' [''operator.read''] no_devices)"

lemma device_start: "rtranclp device_step files files"
  by simp

lemma device_then: "rtranclp device_step a b \<Longrightarrow> device_step b c \<Longrightarrow> rtranclp device_step a c"
  by (rule rtranclp.rtrancl_into_rtrancl)

lemma operator_paired_reachable: "rtranclp device_step no_devices operator_paired"
  unfolding operator_paired_def after_approval_def after_request_def
  by (rule device_then[OF device_then[OF device_start device_step.requested] device_step.approved])

lemma verified_was_approved_witness:
  "\<exists>d e. jm_get (pfPaired operator_paired) ''d'' = Some d \<and> jm_get (cloneDeviceTokens d) ''operator'' = Some e
    \<and> dtToken e = ''t-operator'' \<and> dtRole e = ''operator''
    \<and> roleScopesAllow ''operator'' [''operator.read''] (approved_scopes d)"
proof -
  have "fst (verifyDeviceToken 3 '' d'' ''t-operator'' ''operator'' [''operator.read''] None operator_paired) = Inr None" by code_simp
  then obtain files' where v: "verifyDeviceToken 3 '' d'' ''t-operator'' ''operator'' [''operator.read''] None operator_paired = (Inr None, files')"
    by (metis prod.collapse)
  have trims: "js_trim '' d'' = ''d''" "js_trim ''operator'' = ''operator''" by code_simp+
  from verified_was_approved[OF operator_paired_reachable v] show ?thesis unfolding trims by blast
qed

section \<open>An approval adds nothing the approver lacks\<close>

lemma set_mergeScopes:
  "set (js_nullish (mergeScopes items) []) = {t. t \<noteq> [] \<and> (\<exists>i \<in> set items. \<exists>x \<in> set (js_nullish i []). t = js_trim x)}"
proof -
  have "set (js_nullish (mergeScopes items) []) = set (trimmed_set (concat (map (\<lambda>i. js_nullish i []) items)))"
    by (auto simp: mergeScopes_def Let_def)
  then show ?thesis by (auto simp: set_trimmed_set)
qed

lemma in_trimmed: "t \<in> set xs \<Longrightarrow> js_trim t = t \<Longrightarrow> t \<noteq> [] \<Longrightarrow> t \<in> set (trimmed_set xs)"
  unfolding set_trimmed_set by force

lemma set_merge_two:
  "set (js_nullish (mergeScopes [a, b]) []) = set (trimmed_set (js_nullish a [])) \<union> set (trimmed_set (js_nullish b []))"
  unfolding set_mergeScopes set_trimmed_set by auto

lemma trimmed_merge:
  "set (trimmed_set (js_nullish (mergeScopes [a, b]) [])) = set (trimmed_set (js_nullish a [])) \<union> set (trimmed_set (js_nullish b []))"
proof -
  have fixed: "set (trimmed_set xs) = set xs" if "\<forall>x \<in> set xs. x \<noteq> [] \<and> js_trim x = x" for xs
    using that unfolding set_trimmed_set by force
  have "\<forall>x \<in> set (js_nullish (mergeScopes [a, b]) []). x \<noteq> [] \<and> js_trim x = x"
    unfolding set_mergeScopes by auto
  from fixed[OF this] show ?thesis by (simp only: set_merge_two)
qed

lemma set_role_scoped:
  "set (resolveRoleScopedDeviceTokenScopes OPERATOR_ROLE scopes) = {t \<in> set (normalizeDeviceAuthScopes scopes). js_starts_with t OPERATOR_SCOPE_PREFIX}"
  by (auto simp: resolveRoleScopedDeviceTokenScopes_def OPERATOR_ROLE_def Let_def)

lemma normalized_elem: "t \<in> set (normalizeDeviceAuthScopes ss) \<Longrightarrow> t \<noteq> [] \<and> js_trim t = t"
proof (cases ss)
  case (Some xs)
  assume "t \<in> set (normalizeDeviceAuthScopes ss)"
  then have "t \<in> set (trimmed_set (normalizeDeviceAuthScopes (Some xs)))" by (simp only: normalized_trimmed Some)
  then show ?thesis by (auto simp: set_trimmed_set)
qed (simp add: normalizeDeviceAuthScopes_def)

lemma normalized_contains: "t \<in> set (trimmed_set xs) \<Longrightarrow> t \<in> set (normalizeDeviceAuthScopes (Some xs))"
  by (auto simp: set_normalized set_with_implied)

lemma role_of_operator_scope:
  assumes r: "roleScopesAllow r [t] [t]" "js_trim r = r" "\<not> js_starts_with r OPERATOR_SCOPE_PREFIX"
    and t: "js_starts_with t OPERATOR_SCOPE_PREFIX" "t \<noteq> []" "js_trim t = t"
  shows "r = OPERATOR_ROLE"
proof (rule ccontr)
  assume n: "r \<noteq> OPERATOR_ROLE"
  have "t \<in> set (trimmed_set [t])" using t(2,3) by (auto simp: set_trimmed_set)
  then have "scope_ok r t (set (trimmed_set [t]))" using r(1) by (auto simp: roleScopesAllow_iff)
  then have "prefix (r @ ''.'') t" using n r(2) by (simp add: scope_ok_def js_starts_with_iff)
  moreover have op: "prefix ''operator.'' t" using t(1) by (simp add: js_starts_with_iff OPERATOR_SCOPE_PREFIX_def)
  ultimately consider "prefix (r @ ''.'') ''operator.''" | "prefix ''operator.'' (r @ ''.'')" using prefix_same_cases by blast
  then show False
  proof cases
    case 1
    then have "r = ''operator''" using starts_with_dot[of "''operator''" "''''" r] by (simp add: js_starts_with_iff)
    then show False using n by (simp add: OPERATOR_ROLE_def)
  next
    case 2
    then have "r @ ''.'' = ''operator.'' \<or> prefix ''operator.'' r" by (subst (asm) prefix_snoc) auto
    moreover have "r @ ''.'' = ''operator.'' \<Longrightarrow> r = ''operator''" using butlast_snoc[of r "CHR ''.''"] by simp
    ultimately show False
      using n r(3) by (auto simp: js_starts_with_iff OPERATOR_SCOPE_PREFIX_def OPERATOR_ROLE_def)
  qed
qed

lemma approve_roles_caller:
  "approve_roles caller p tokens ap ex roles = Inr rs \<Longrightarrow> OPERATOR_ROLE \<in> set roles \<Longrightarrow>
   (let next' = resolveApprovedTokenScopes OPERATOR_ROLE p (jm_get tokens OPERATOR_ROLE) ap ex
    in next' = [] \<or> (\<exists>c. caller = Some c \<and> roleScopesAllow OPERATOR_ROLE
      (js_nullish (mergeScopes [Some (resolveRoleScopedDeviceTokenScopes OPERATOR_ROLE (piScopes p)), Some next']) next') c))"
  by (induction roles arbitrary: rs)
    (auto simp: Let_def missing_scope_iff split: option.split_asm sum.split_asm if_split_asm)

lemma no_next_scopes:
  assumes none: "resolveApprovedTokenScopes OPERATOR_ROLE p tok ap ex = []"
    and t: "t \<in> set (resolveRoleScopedDeviceTokenScopes OPERATOR_ROLE (piScopes p))"
  shows "t \<in> set (normalizeDeviceAuthScopes (scope_baseline ex))"
proof -
  let ?P = "resolveRoleScopedDeviceTokenScopes OPERATOR_ROLE (piScopes p)"
  let ?B = "resolveRoleScopedDeviceTokenScopes OPERATOR_ROLE (scope_baseline ex)"
  let ?delta = "if tok \<noteq> None \<and> ?B \<noteq> [] then filter (\<lambda>s. \<not> List.member ?B s) ?P else ?P"
  have t': "t \<noteq> []" "js_trim t = t" "js_starts_with t OPERATOR_SCOPE_PREFIX"
    using t normalized_elem[of t "piScopes p"] by (auto simp: set_role_scoped)
  have some: "resolveRoleScopedDeviceTokenScopes OPERATOR_ROLE (mergeScopes [i, Some ?delta]) \<noteq> []" if "t \<in> set ?delta" for i
  proof -
    have m: "t \<in> set (js_nullish (mergeScopes [i, Some ?delta]) [])"
      unfolding set_merge_two js_nullish_simps by (rule UnI2, rule in_trimmed[OF that t'(2,1)])
    then obtain xs where xs: "mergeScopes [i, Some ?delta] = Some xs" by (cases "mergeScopes [i, Some ?delta]") simp_all
    then have "t \<in> set xs" using m unfolding xs by simp
    then have "t \<in> set (trimmed_set xs)" by (rule in_trimmed[OF _ t'(2,1)])
    then have "t \<in> set (resolveRoleScopedDeviceTokenScopes OPERATOR_ROLE (Some xs))"
      using t'(3) by (simp add: set_role_scoped normalized_contains)
    then show ?thesis using xs by auto
  qed
  have "t \<notin> set ?delta"
    using none some t by (auto simp: resolveApprovedTokenScopes_def Let_def filter_empty_conv split: option.split_asm if_split_asm)
  then have "t \<in> set ?B" using t by (auto split: if_split_asm)
  then show ?thesis by (simp add: set_role_scoped)
qed

lemma scope_ok_union:
  assumes "roleScopesAllow OPERATOR_ROLE [s] g" "set (trimmed_set g) = A \<union> B"
  obtains "scope_ok OPERATOR_ROLE (js_trim s) A" | t where "t \<in> B" "js_starts_with t OPERATOR_SCOPE_PREFIX" "roleScopesAllow OPERATOR_ROLE [s] [t]"
    | "js_trim s = []"
proof (cases "js_trim s = []")
  case False
  let ?s = "js_trim s"
  have one: "set (trimmed_set [s]) = {?s}" using False by (auto simp: set_trimmed_set)
  have "scope_ok OPERATOR_ROLE ?s (A \<union> B)" using assms one by (simp add: roleScopesAllow_iff)
  then consider "scope_ok OPERATOR_ROLE ?s A"
    | t where "t \<in> B" "js_starts_with t OPERATOR_SCOPE_PREFIX" "scope_ok OPERATOR_ROLE ?s {t}"
    using admin_prefix by (auto simp: scope_ok_def split: if_split_asm)
  then show ?thesis
  proof cases
    case (2 t)
    have "t \<in> set (trimmed_set g)" using 2(1) assms(2) by simp
    then have "set (trimmed_set [t]) = {t}" by (auto simp: set_trimmed_set)
    then have "roleScopesAllow OPERATOR_ROLE [s] [t]" using 2(3) one by (simp add: roleScopesAllow_iff)
    then show ?thesis using that(2) 2 by blast
  qed (use that in blast)
qed (use that in blast)

lemma approve_changes:
  assumes ok: "approveDevicePairing now draw rid caller files = (Approved rid' d, files')"
    and p: "jm_get (pfPending (load_devices now files)) rid = Some p"
  obtains rs where
    "resolveScopeOutsideRequestedRoles (resolveRequestedRoles p) (normalizeDeviceAuthScopes (piScopes p)) = None"
    "approve_roles caller p (js_nullish (Option.bind (jm_get (pfPaired files) (piDeviceId p)) pdTokens) [])
       (mergeScopes [scope_baseline (jm_get (pfPaired files) (piDeviceId p)), piScopes p])
       (jm_get (pfPaired files) (piDeviceId p)) (resolveRequestedRoles p) = Inr rs"
    "d = approved_device now p (jm_get (pfPaired files) (piDeviceId p)) (roles_after (jm_get (pfPaired files) (piDeviceId p)) p)
       (mergeScopes [scope_baseline (jm_get (pfPaired files) (piDeviceId p)), piScopes p])
       (fold (approve_token draw now) rs (js_nullish (Option.bind (jm_get (pfPaired files) (piDeviceId p)) pdTokens) []))"
proof -
  have outside: "resolveScopeOutsideRequestedRoles (resolveRequestedRoles p) (normalizeDeviceAuthScopes (piScopes p)) = None"
    using ok p by (cases "resolveScopeOutsideRequestedRoles (resolveRequestedRoles p) (normalizeDeviceAuthScopes (piScopes p))")
      (simp_all add: approveDevicePairing_def Let_def resolveRequestedRoles_def)
  show ?thesis
  proof (cases "approve_roles caller p (js_nullish (Option.bind (jm_get (pfPaired files) (piDeviceId p)) pdTokens) [])
       (mergeScopes [scope_baseline (jm_get (pfPaired files) (piDeviceId p)), piScopes p])
       (jm_get (pfPaired files) (piDeviceId p)) (resolveRequestedRoles p)")
    case (Inl e)
    then show ?thesis using ok p outside by (cases e) (simp add: approveDevicePairing_def Let_def resolveRequestedRoles_def)
  next
    case (Inr rs)
    then show ?thesis
      using that[OF outside Inr] ok p outside by (simp add: approveDevicePairing_def Let_def resolveRequestedRoles_def)
  qed
qed


definition approved_by :: "approve_result \<Rightarrow> paired_device option" where
  "approved_by res = (case res of Approved _ d \<Rightarrow> Some d | _ \<Rightarrow> None)"

lemma approved_byD:
  assumes "case approved_by (fst out) of Some d \<Rightarrow> P d | None \<Rightarrow> False"
  obtains rid d files' where "out = (Approved rid d, files')" "P d"
  using assms by (cases out) (auto simp: approved_by_def split: approve_result.split_asm)

lemma case_SomeD: "(case m of Some x \<Rightarrow> P x | None \<Rightarrow> False) \<Longrightarrow> \<exists>x. m = Some x \<and> P x"
  by (simp split: option.split_asm)


section \<open>A role that is written like a scope\<close>

text \<open>
  The role of a scope is recognised by the prefix \<open>role.\<close>, so a role \<open>operator.talk\<close> vouches for
  \<open>operator.talk.secrets\<close>; an approver is only asked for scopes of the role \<open>operator\<close>.
\<close>

definition dotted_role_paired :: device_files where
  "dotted_role_paired = after_approval 4 ''w'' None
     (after_request 3 ''w'' ''operator.talk'' [''operator.talk.secrets''] operator_paired)"

text \<open>
  The restriction of the approval theorem is needed: with a role written \<open>operator.talk\<close>, an
  approval by somebody without any scope gives a device that may read a right to the secrets
  scope of the operator, for which it is then issued a token that verifies.
\<close>

theorem dotted_role_escapes_approver:
  "(let (entry, files) = ensureDeviceToken 5 (\<lambda>_. ''t2'') ''d'' ''operator'' [''operator.talk.secrets''] None dotted_role_paired
    in map_option dtScopes entry = Some [''operator.talk.secrets'']
       \<and> fst (verifyDeviceToken 6 ''d'' ''t2'' ''operator'' [''operator.talk.secrets''] None files) = Inr None)
   \<and> fst (ensureDeviceToken 3 (\<lambda>_. ''t2'') ''d'' ''operator'' [''operator.talk.secrets''] None operator_paired) = None"
  by code_simp

section \<open>The queue of requests\<close>

text \<open>
  \<open>refreshPendingDevicePairingRequest\<close> keeps the time of the first request, so that a device that
  connects again cannot make its request the latest. A request that merges two of them has the
  scopes of both; the device then asks for fewer each time it connects, and each time the request
  is replaced by one with a new identifier and the present time.
\<close>

definition reconnecting :: "int \<Rightarrow> string \<Rightarrow> device_files" where
  "reconnecting t uuid = after_request t uuid ''operator'' [''operator.pairing'']
     (after_request 2 ''b'' ''operator'' [''operator.pairing''] (after_request 1 ''a'' ''operator'' [''operator.read''] no_devices))"

lemma reconnect_bumps_request:
  "map (\<lambda>(k, p). (k, prTs p, piScopes p)) (pfPending (reconnecting 9 ''c'')) =
     [(''c'', 9, Some [''operator.read'', ''operator.pairing''])]"
  by code_simp

section \<open>A bootstrap approval stays within its profile\<close>

lemma allows_members:
  assumes "\<forall>s \<in> set a. js_starts_with s OPERATOR_SCOPE_PREFIX \<and> s \<in> set (normalizeDeviceAuthScopes ss)"
  shows "roleScopesAllow OPERATOR_ROLE a (filter (\<lambda>s. js_starts_with s OPERATOR_SCOPE_PREFIX) (normalizeDeviceAuthScopes ss))"
  unfolding roleScopesAllow_iff
proof
  fix t assume "t \<in> set (trimmed_set a)"
  then obtain s where s: "s \<in> set a" "t = js_trim s" by (auto simp: set_trimmed_set)
  then have ts: "t = s" "t \<noteq> []" "js_trim t = t" using assms normalized_elem[of s ss] by auto
  have "t \<in> set (trimmed_set (filter (\<lambda>s. js_starts_with s OPERATOR_SCOPE_PREFIX) (normalizeDeviceAuthScopes ss)))"
    by (rule in_trimmed[OF _ ts(3,2)]) (use assms s ts in auto)
  then show "scope_ok OPERATOR_ROLE t (set (trimmed_set (filter (\<lambda>s. js_starts_with s OPERATOR_SCOPE_PREFIX) (normalizeDeviceAuthScopes ss))))"
    using assms s ts by (simp add: scope_ok_def)
qed

lemma handoff_operator: "\<forall>s \<in> set BOOTSTRAP_HANDOFF_OPERATOR_SCOPES. js_starts_with s OPERATOR_SCOPE_PREFIX"
  by code_simp

lemma for_role_members:
  "s \<in> set (resolveBootstrapProfileScopesForRole role ss) \<Longrightarrow>
     js_starts_with s OPERATOR_SCOPE_PREFIX \<and> s \<in> set (normalizeDeviceAuthScopes (Some ss)) \<and> s \<in> set BOOTSTRAP_HANDOFF_OPERATOR_SCOPES"
  using handoff_operator by (auto simp: resolveBootstrapProfileScopesForRole_def split: if_split_asm)

lemma for_roles_allowed:
  "roleScopesAllow OPERATOR_ROLE (resolveBootstrapProfileScopesForRoles roles ss)
     (filter (\<lambda>s. js_starts_with s OPERATOR_SCOPE_PREFIX) (normalizeDeviceAuthScopes (Some ss)))"
  unfolding resolveBootstrapProfileScopesForRoles_def normalize_request
  by (rule allows_members) (use for_role_members in fastforce)

lemma operator_part_allowed:
  "roleScopesAllow OPERATOR_ROLE (filter (\<lambda>s. js_starts_with s OPERATOR_SCOPE_PREFIX) (normalizeDeviceAuthScopes (Some ss))) ss"
proof -
  let ?f = "filter (\<lambda>s. js_starts_with s OPERATOR_SCOPE_PREFIX) (normalizeDeviceAuthScopes (Some ss))"
  have "roleScopesAllow OPERATOR_ROLE ?f ?f" by (rule allows_members) simp
  then have "roleScopesAllow OPERATOR_ROLE ?f (normalizeDeviceAuthScopes (Some ss))"
    by (rule scopes.allows_mono[rotated]) auto
  then show ?thesis by (simp only: normalize_grant)
qed

lemma granted_tokens:
  "role \<in> set roles \<Longrightarrow> \<exists>e. jm_get (fold (bootstrap_token_for draw now g) roles tokens) role = Some e \<and> dtToken e = draw role
     \<and> dtScopes e = (if role = OPERATOR_ROLE then resolveBootstrapProfileScopesForRole role g else [])"
proof (induction roles rule: rev_induct)
  case (snoc r rs)
  show ?case
  proof (cases "r = role")
    case True
    then show ?thesis by (simp add: bootstrap_token_for_def Let_def buildDeviceAuthToken_def store_simps)
  next
    case False
    then show ?thesis using snoc by (simp add: bootstrap_token_for_def Let_def store_simps)
  qed
qed simp

text \<open>
  A bootstrap approval stays within the profile of the token: the roles a device asked for are
  roles of the profile, and each of them gets a new token whose scopes the profile allows and the
  hand-over list contains - \<open>operator.admin\<close> is never among them.
\<close>

theorem bootstrap_approval_bounded:
  assumes ok: "approveBootstrapDevicePairing now draw rid profile files = (Approved rid' d, files')"
    and p: "jm_get (pfPending (load_devices now files)) rid = Some p"
    and role: "role \<in> set (resolveRequestedRoles p)"
  shows "role \<in> set (js_nullish (mergeRoles [Some (bpRoles profile)]) [])
    \<and> (\<exists>e. jm_get (cloneDeviceTokens d) role = Some e \<and> dtToken e = draw role
          \<and> set (dtScopes e) \<subseteq> set BOOTSTRAP_HANDOFF_OPERATOR_SCOPES - {''operator.admin''}
          \<and> roleScopesAllow role (dtScopes e) (bpScopes profile))"
proof -
  let ?roles = "resolveRequestedRoles p"
  let ?ap = "js_nullish (mergeRoles [Some (bpRoles profile)]) []"
  let ?allowed = "resolveBootstrapProfileScopesForRoles ?ap (bpScopes profile)"
  let ?asked = "filter (\<lambda>s. js_starts_with s OPERATOR_SCOPE_PREFIX) (normalizeDeviceAuthScopes (piScopes p))"
  let ?g = "resolveBootstrapProfileScopesForRoles ?roles (js_nullish (piScopes p) [])"
  have found: "find (\<lambda>role. \<not> List.member ?ap role) ?roles = None"
    using ok p by (cases "find (\<lambda>role. \<not> List.member ?ap role) ?roles") (simp_all add: approveBootstrapDevicePairing_def Let_def)
  have missing: "resolveMissingRequestedScope OPERATOR_ROLE ?asked ?allowed = None"
    using ok p found by (cases "resolveMissingRequestedScope OPERATOR_ROLE ?asked ?allowed") (simp_all add: approveBootstrapDevicePairing_def Let_def)
  have tokens: "cloneDeviceTokens d = fold (bootstrap_token_for draw now ?g) ?roles
      (js_nullish (Option.bind (jm_get (pfPaired files) (piDeviceId p)) pdTokens) [])"
    using ok p found missing by (auto simp: approveBootstrapDevicePairing_def Let_def approved_device_def cloneDeviceTokens_def)
  obtain e where e: "jm_get (cloneDeviceTokens d) role = Some e" "dtToken e = draw role"
    "dtScopes e = (if role = OPERATOR_ROLE then resolveBootstrapProfileScopesForRole role ?g else [])"
    using granted_tokens[OF role] unfolding tokens by blast
  have "roleScopesAllow OPERATOR_ROLE (resolveBootstrapProfileScopesForRole role ?g) (bpScopes profile)"
  proof -
    have a: "roleScopesAllow OPERATOR_ROLE (resolveBootstrapProfileScopesForRole role ?g)
        (filter (\<lambda>s. js_starts_with s OPERATOR_SCOPE_PREFIX) (normalizeDeviceAuthScopes (Some ?g)))"
      by (rule allows_members) (use for_role_members in blast)
    have b: "roleScopesAllow OPERATOR_ROLE ?g ?asked"
    proof (cases "piScopes p")
      case None
      have "normalizeDeviceAuthScopes None = normalizeDeviceAuthScopes (Some [])" by code_simp
      then show ?thesis using None for_roles_allowed[of ?roles "[]"] by simp
    qed (use for_roles_allowed in simp)
    have c: "roleScopesAllow OPERATOR_ROLE ?asked ?allowed" using missing by (simp only: missing_scope_iff)
    show ?thesis
      using scopes.allows_trans a operator_part_allowed b c for_roles_allowed[of ?ap "bpScopes profile"] operator_part_allowed[of "bpScopes profile"]
      by metis
  qed
  moreover have "set (resolveBootstrapProfileScopesForRole role ?g) \<subseteq> set BOOTSTRAP_HANDOFF_OPERATOR_SCOPES - {''operator.admin''}"
  proof -
    have "''operator.admin'' \<notin> set BOOTSTRAP_HANDOFF_OPERATOR_SCOPES" by code_simp
    then show ?thesis using bootstrap_scopes_handoff by blast
  qed
  moreover have "role \<in> set ?ap" using found role by (auto simp: find_None_iff)
  ultimately show ?thesis using e by (auto simp: scopes.allows_Nil)
qed

lemma bootstrap_approval_bounded_witness:
  "\<exists>e. dtToken e = ''t-operator'' \<and> set (dtScopes e) \<subseteq> set BOOTSTRAP_HANDOFF_OPERATOR_SCOPES - {''operator.admin''}
     \<and> roleScopesAllow ''operator'' (dtScopes (e :: device_token)) BOOTSTRAP_HANDOFF_OPERATOR_SCOPES"
proof -
  let ?files = "after_request 1 ''u'' ''operator'' [''operator.write''] no_devices"
  let ?out = "approveBootstrapDevicePairing 2 (\<lambda>role. ''t-'' @ role) ''u'' PAIRING_SETUP_BOOTSTRAP_PROFILE ?files"
  have "case approved_by (fst ?out) of Some d \<Rightarrow> True | None \<Rightarrow> False" by code_simp
  then obtain rid d files' where d: "?out = (Approved rid d, files')" by (rule approved_byD)
  have "case jm_get (pfPending (load_devices 2 ?files)) ''u'' of None \<Rightarrow> False
      | Some p \<Rightarrow> List.member (resolveRequestedRoles p) ''operator''"
    by code_simp
  then obtain p where p: "jm_get (pfPending (load_devices 2 ?files)) ''u'' = Some p" "''operator'' \<in> set (resolveRequestedRoles p)"
    using case_SomeD by fastforce
  have "bpScopes PAIRING_SETUP_BOOTSTRAP_PROFILE = BOOTSTRAP_HANDOFF_OPERATOR_SCOPES" by code_simp
  with bootstrap_approval_bounded[OF d p] show ?thesis by auto
qed

end
