(* ===== verification/Device_Bootstrap_Props.thy ===== *)
theory Device_Bootstrap_Props
  imports Device_Bootstrap
begin

text \<open>
  What bootstrap tokens guarantee, over any sequence of the operations: a token is good for one
  device, the one that presented it first, and only for scopes of the hand-over list. A record
  that is restored is one that was handed out by a revocation, so it is well formed.
\<close>

section \<open>Records\<close>

definition record_ok :: "string \<Rightarrow> bootstrap_record \<Rightarrow> bool" where
  "record_ok key r \<longleftrightarrow> btToken r = Some key \<and> js_trim key = key \<and> key \<noteq> []
     \<and> (case btProfile r of Some p \<Rightarrow> set (bpScopes p) \<subseteq> set BOOTSTRAP_HANDOFF_OPERATOR_SCOPES | None \<Rightarrow> False)"

definition records_ok :: "bootstrap_state \<Rightarrow> bool" where
  "records_ok file \<longleftrightarrow> jm_wf file \<and> (\<forall>(k, r) \<in> set file. record_ok k r)"

lemmas records_ok_set = keyed_set[where P = record_ok, folded records_ok_def]
lemmas records_ok_del = keyed_del[where P = record_ok, folded records_ok_def]
lemmas records_ok_filter = keyed_filter[where P = record_ok, folded records_ok_def]

lemma records_ok_get: "records_ok m \<Longrightarrow> jm_get m k = Some r \<Longrightarrow> record_ok k r"
  unfolding records_ok_def using keyed_get[of m record_ok] by blast

lemma records_ok_wf: "records_ok m \<Longrightarrow> jm_wf m"
  by (simp add: records_ok_def)

lemma profile_scopes_ok:
  assumes "record_ok k r"
  shows "set (bpScopes (resolvePersistedBootstrapProfile r)) \<subseteq> set BOOTSTRAP_HANDOFF_OPERATOR_SCOPES"
proof -
  obtain p where "btProfile r = Some p" "set (bpScopes p) \<subseteq> set BOOTSTRAP_HANDOFF_OPERATOR_SCOPES"
    using assms by (auto simp: record_ok_def split: option.splits)
  then show ?thesis using normalize_handoff[of "bpScopes p"]
    by (simp add: resolvePersistedBootstrapProfile_def normalizeDeviceBootstrapProfile_def profile_input_def)
qed

lemma load_record_ok: "record_ok k r \<Longrightarrow> record_ok k (load_record k r)"
  using profile_scopes_ok[of k r] by (simp add: record_ok_def load_record_def Let_def)

lemma load_record_fields [simp]:
  "btDeviceId (load_record k r) = btDeviceId r" "btPublicKey (load_record k r) = btPublicKey r"
  by (simp_all add: load_record_def Let_def)

lemma load_bootstrap_map: "load_bootstrap now file =
    filter (\<lambda>(_, r). \<not> now - js_nullish (btTs r) 0 > DEVICE_BOOTSTRAP_TOKEN_TTL_MS) (map (\<lambda>(k, r). (k, load_record k r)) file)"
  by (simp add: load_bootstrap_def pruneExpiredPending_def)

lemma load_bootstrap_ok:
  assumes "records_ok file"
  shows "records_ok (load_bootstrap now file)"
proof -
  have "map (fst \<circ> (\<lambda>(k, r). (k, load_record k r))) file = map fst file" by (auto simp: case_prod_unfold)
  then have "jm_wf (map (\<lambda>(k, r). (k, load_record k r)) file)" using assms by (simp add: records_ok_def jm_wf_def del: map_eq_conv)
  then have "records_ok (map (\<lambda>(k, r). (k, load_record k r)) file)"
    using assms load_record_ok by (auto simp: records_ok_def)
  then show ?thesis unfolding load_bootstrap_map by (rule records_ok_filter)
qed

lemma load_bootstrap_get:
  assumes ok: "records_ok file" and g: "jm_get (load_bootstrap now file) k = Some r"
  obtains r0 where "jm_get file k = Some r0" "r = load_record k r0"
proof -
  have "(k, r) \<in> set (load_bootstrap now file)" using g by (rule jm_get_in)
  then obtain r0 where "(k, r0) \<in> set file" "r = load_record k r0" unfolding load_bootstrap_map by auto
  then show ?thesis using that jm_wf_get[OF records_ok_wf[OF ok]] by blast
qed

text \<open>Tokens are their own keys, so searching for a token is looking it up.\<close>

lemma find_bootstrap_Some:
  assumes ok: "records_ok st" and f: "find_bootstrap tok st = Some (k, r)"
  shows "k = tok \<and> jm_get st tok = Some r"
proof -
  have m: "(k, r) \<in> set st" and v: "verifyPairingToken tok (js_nullish (btToken r) [])"
    using find_SomeD[OF f[unfolded find_bootstrap_def]] by simp_all
  have "record_ok k r" using ok m by (auto simp: records_ok_def)
  then have "k = tok" using v by (simp add: record_ok_def verifyPairingToken_iff)
  then show ?thesis using m jm_wf_get[OF records_ok_wf[OF ok], of k r] by simp
qed

section \<open>Steps\<close>

inductive bootstrap_step :: "(string \<Rightarrow> string option) \<Rightarrow> string set \<Rightarrow> bootstrap_state \<Rightarrow> bootstrap_state \<Rightarrow> bool" for c avoid where
  issue: "js_trim tok = tok \<Longrightarrow> tok \<noteq> [] \<Longrightarrow> tok \<notin> avoid \<Longrightarrow>
     bootstrap_step c avoid file (snd (issueDeviceBootstrapToken now tok profile roles ss file))"
| clear: "bootstrap_step c avoid file (snd (clearDeviceBootstrapTokens now file))"
| revoke: "bootstrap_step c avoid file (snd (revokeDeviceBootstrapToken now tok file))"
| revoke_device: "bootstrap_step c avoid file (snd (revokeDeviceBootstrapTokensForDevice c now dev pk file))"
| restore: "record_ok k r \<Longrightarrow> k \<notin> avoid \<Longrightarrow> bootstrap_step c avoid file (restoreDeviceBootstrapToken now r file)"
| redeem: "bootstrap_step c avoid file (snd (redeemDeviceBootstrapTokenProfile now tok role ss file))"
| verify: "bootstrap_step c avoid file (snd (verifyDeviceBootstrapToken c now tok dev pk role ss file))"

text \<open>What a step leaves of the record of a token: it is one that was there, with the same binding or a first one.\<close>

definition record_step :: "(string \<Rightarrow> string option) \<Rightarrow> bootstrap_record \<Rightarrow> bootstrap_record \<Rightarrow> bool" where
  "record_step c r r' \<longleftrightarrow>
     btDeviceId r' = btDeviceId r \<and> btPublicKey r' = btPublicKey r
     \<or> \<not> truthy (map_option js_trim (btDeviceId r)) \<and> \<not> truthy (map_option (normalizeBootstrapPublicKey c) (btPublicKey r))
     \<or> (\<exists>dev pk. map_option js_trim (btDeviceId r) = Some dev \<and> map_option (normalizeBootstrapPublicKey c) (btPublicKey r) = Some pk
          \<and> btDeviceId r' = Some dev \<and> btPublicKey r' = Some pk)"

definition descends :: "(string \<Rightarrow> string option) \<Rightarrow> string set \<Rightarrow> bootstrap_state \<Rightarrow> bootstrap_state \<Rightarrow> bool" where
  "descends c avoid file file' \<longleftrightarrow> records_ok file'
     \<and> (\<forall>t r'. t \<in> avoid \<longrightarrow> jm_get file' t = Some r' \<longrightarrow> (\<exists>r. jm_get file t = Some r \<and> record_step c r r'))"

lemma descends_refl: "records_ok file \<Longrightarrow> descends c avoid file file"
  by (auto simp: descends_def record_step_def)

lemma descends_load: "records_ok file \<Longrightarrow> descends c avoid file (load_bootstrap now file)"
  unfolding descends_def record_step_def by (metis load_bootstrap_ok load_bootstrap_get load_record_fields)

lemma descends_del: "descends c avoid file file' \<Longrightarrow> descends c avoid file (jm_del k file')"
  by (auto simp: descends_def jm_get_del intro: records_ok_del)

lemma descends_filter: "descends c avoid file file' \<Longrightarrow> descends c avoid file (filter Q file')"
proof -
  assume d: "descends c avoid file file'"
  then have ok: "records_ok file'" "records_ok (filter Q file')" using records_ok_filter by (auto simp: descends_def)
  have "jm_get file' t = Some r'" if "jm_get (filter Q file') t = Some r'" for t r'
    using jm_get_in[OF that] jm_wf_get[OF records_ok_wf[OF ok(1)]] by auto
  then show ?thesis using d ok(2) unfolding descends_def by blast
qed

lemma descends_set:
  assumes d: "descends c avoid file file'" and r: "record_ok k r"
    and old: "k \<in> avoid \<Longrightarrow> \<exists>r0. jm_get file k = Some r0 \<and> record_step c r0 r"
  shows "descends c avoid file (jm_set k r file')"
proof -
  have "records_ok (jm_set k r file')" using d r records_ok_set by (auto simp: descends_def)
  then show ?thesis using d old by (auto simp: descends_def jm_get_set split: if_splits)
qed

section \<open>Operations\<close>

text \<open>A token that verifies was stored, and its record is now bound to who presented it.\<close>

lemma verify_bootstrap_changes:
  assumes ok: "records_ok file"
    and v: "verifyDeviceBootstrapToken c now tok dev pk role ss file = (True, file')"
  obtains r r' p where
    "jm_get (load_bootstrap now file) (js_trim tok) = Some r"
    "roleScopesAllow (js_trim role) ss (bpScopes (resolvePersistedBootstrapProfile r))"
    "truthy (map_option js_trim (btDeviceId r)) \<or> truthy (map_option (normalizeBootstrapPublicKey c) (btPublicKey r)) \<longrightarrow>
       bound_to c (js_trim dev) (normalizeBootstrapPublicKey c pk) r"
    "js_trim dev \<noteq> []"
    "r' = r\<lparr>btProfile := Some (resolvePersistedBootstrapProfile r), btDeviceId := Some (js_trim dev),
            btPublicKey := Some (normalizeBootstrapPublicKey c pk), btLastUsedAtMs := Some now, btPendingProfile := Some p\<rparr>"
    "file' = jm_set (js_trim tok) r' (load_bootstrap now file)"
proof -
  have t: "js_trim tok \<noteq> []" using v by (auto simp: verifyDeviceBootstrapToken_def Let_def)
  obtain k r where f: "find_bootstrap (js_trim tok) (load_bootstrap now file) = Some (k, r)"
    using v by (auto simp: verifyDeviceBootstrapToken_def Let_def split: option.splits if_splits)
  note stored = find_bootstrap_Some[OF load_bootstrap_ok[OF ok] f]
  have "\<exists>p. file' = jm_set (js_trim tok) (r\<lparr>btProfile := Some (resolvePersistedBootstrapProfile r), btDeviceId := Some (js_trim dev),
      btPublicKey := Some (normalizeBootstrapPublicKey c pk), btLastUsedAtMs := Some now, btPendingProfile := Some p\<rparr>)
      (load_bootstrap now file)"
    using v t f stored by (auto simp: verifyDeviceBootstrapToken_def Let_def split: option.splits if_splits)
  moreover have "roleScopesAllow (js_trim role) ss (bpScopes (resolvePersistedBootstrapProfile r))" "js_trim dev \<noteq> []"
    "truthy (map_option js_trim (btDeviceId r)) \<or> truthy (map_option (normalizeBootstrapPublicKey c) (btPublicKey r)) \<longrightarrow>
       bound_to c (js_trim dev) (normalizeBootstrapPublicKey c pk) r"
    using v t f stored by (auto simp: verifyDeviceBootstrapToken_def Let_def bound_to_def bootstrapProfileAllowsRequest_def
      split: option.splits if_splits)
  ultimately show ?thesis using that stored by metis
qed

lemma verify_bootstrap_denied:
  assumes "\<not> fst (verifyDeviceBootstrapToken c now tok dev pk role ss file)"
  shows "snd (verifyDeviceBootstrapToken c now tok dev pk role ss file) = file"
  using assms by (auto simp: verifyDeviceBootstrapToken_def Let_def split: option.splits if_splits)

lemma verify_bootstrap_descends:
  assumes ok: "records_ok file"
  shows "descends c avoid file (snd (verifyDeviceBootstrapToken c now tok dev pk role ss file))"
proof (cases "verifyDeviceBootstrapToken c now tok dev pk role ss file")
  case (Pair b file')
  show ?thesis
  proof (cases b)
    case False
    then show ?thesis using verify_bootstrap_denied Pair descends_refl[OF ok] by (metis fst_conv)
  next
    case True
    with Pair have v: "verifyDeviceBootstrapToken c now tok dev pk role ss file = (True, file')" by simp
    obtain r r' p where g: "jm_get (load_bootstrap now file) (js_trim tok) = Some r"
      and "roleScopesAllow (js_trim role) ss (bpScopes (resolvePersistedBootstrapProfile r))"
      and bound: "truthy (map_option js_trim (btDeviceId r)) \<or> truthy (map_option (normalizeBootstrapPublicKey c) (btPublicKey r)) \<longrightarrow>
         bound_to c (js_trim dev) (normalizeBootstrapPublicKey c pk) r"
      and "js_trim dev \<noteq> []"
      and r': "r' = r\<lparr>btProfile := Some (resolvePersistedBootstrapProfile r), btDeviceId := Some (js_trim dev),
            btPublicKey := Some (normalizeBootstrapPublicKey c pk), btLastUsedAtMs := Some now, btPendingProfile := Some p\<rparr>"
      and file': "file' = jm_set (js_trim tok) r' (load_bootstrap now file)"
      by (rule verify_bootstrap_changes[OF ok v])
    obtain r0 where r0: "jm_get file (js_trim tok) = Some r0" and l: "r = load_record (js_trim tok) r0"
      by (rule load_bootstrap_get[OF ok g])
    have rok: "record_ok (js_trim tok) r" using load_bootstrap_ok[OF ok] g by (rule records_ok_get)
    have "record_ok (js_trim tok) r'" using rok profile_scopes_ok[OF rok] by (simp add: record_ok_def r')
    moreover have "record_step c r0 r'" using bound l by (auto simp: record_step_def r' bound_to_def)
    ultimately show ?thesis unfolding v snd_conv file' using r0 by (intro descends_set descends_load ok) auto
  qed
qed

lemma redeem_bootstrap_descends:
  assumes ok: "records_ok file"
  shows "descends c avoid file (snd (redeemDeviceBootstrapTokenProfile now tok role ss file))"
proof (cases "find_bootstrap (js_trim tok) (load_bootstrap now file)")
  case None
  then show ?thesis using descends_refl[OF ok] by (simp add: redeemDeviceBootstrapTokenProfile_def Let_def)
next
  case (Some kr)
  obtain k r where kr: "kr = (k, r)" by fastforce
  note stored = find_bootstrap_Some[OF load_bootstrap_ok[OF ok] Some[unfolded kr]]
  then have g: "jm_get (load_bootstrap now file) k = Some r" by simp
  obtain r0 where r0: "jm_get file k = Some r0" and l: "r = load_record k r0" by (rule load_bootstrap_get[OF ok g])
  have rok: "record_ok k r" using load_bootstrap_ok[OF ok] g by (rule records_ok_get)
  have step: "descends c avoid file (jm_set k (r\<lparr>btProfile := Some (resolvePersistedBootstrapProfile r), btRedeemedProfile := x,
      btPendingProfile := y\<rparr>) (load_bootstrap now file))" for x y
    using r0 l rok profile_scopes_ok[OF rok]
    by (intro descends_set descends_load ok) (auto simp: record_ok_def record_step_def)
  show ?thesis
    by (cases "js_trim tok = []")
      (simp_all add: redeemDeviceBootstrapTokenProfile_def Let_def Some kr step descends_refl[OF ok])
qed

lemma issued_profile_handoff: "set (bpScopes (resolveIssuedBootstrapProfile profile roles ss)) \<subseteq> set BOOTSTRAP_HANDOFF_OPERATOR_SCOPES"
proof (cases "resolveIssuedBootstrapProfileInput profile roles ss")
  case None
  then show ?thesis by (simp add: resolveIssuedBootstrapProfile_def PAIRING_SETUP_BOOTSTRAP_PROFILE_def)
next
  case (Some input)
  then show ?thesis using bootstrap_scopes_roles
    by (simp add: resolveIssuedBootstrapProfile_def normalizeDeviceBootstrapHandoffProfile_def Let_def)
qed

lemma step_descends:
  assumes "bootstrap_step c avoid file file'" and ok: "records_ok file"
  shows "descends c avoid file file'"
  using assms(1)
proof cases
  case (issue tok now profile roles ss)
  then show ?thesis using issued_profile_handoff[of profile roles ss]
    by (auto simp: issueDeviceBootstrapToken_def Let_def record_ok_def intro!: descends_set descends_load[OF ok])
next
  case clear
  then show ?thesis by (simp add: clearDeviceBootstrapTokens_def descends_def records_ok_def)
next
  case (revoke now tok)
  then show ?thesis using descends_refl[OF ok] descends_load[OF ok]
    by (auto simp: revokeDeviceBootstrapToken_def Let_def descends_del split: option.split)
next
  case (revoke_device now dev pk)
  then show ?thesis using descends_refl[OF ok] descends_load[OF ok]
    by (auto simp: revokeDeviceBootstrapTokensForDevice_def Let_def descends_filter)
next
  case (restore k r now)
  then have "js_nullish (btToken r) [] = k" by (simp add: record_ok_def)
  then show ?thesis using restore by (auto simp: restoreDeviceBootstrapToken_def intro!: descends_set descends_load[OF ok])
qed (auto intro: redeem_bootstrap_descends verify_bootstrap_descends ok)

interpretation bootstrap_records: invariant_system "\<lambda>file. file = []" "bootstrap_step c avoid" records_ok
proof unfold_locales
  show "records_ok m" if "m = []" for m using that by (simp add: records_ok_def)
  show "records_ok m'" if "records_ok m" "bootstrap_step c avoid m m'" for m m'
    using step_descends[OF that(2,1)] by (simp add: descends_def)
qed

section \<open>A token is good for one device\<close>

text \<open>The record of a token that is there is bound to a device and a key, whatever happens.\<close>

definition token_bound :: "(string \<Rightarrow> string option) \<Rightarrow> string \<Rightarrow> string \<Rightarrow> string \<Rightarrow> bootstrap_state \<Rightarrow> bool" where
  "token_bound c tok dev pk file \<longleftrightarrow> records_ok file \<and> (\<forall>r. jm_get file tok = Some r \<longrightarrow> bound_to c dev pk r)"

lemma record_step_bound:
  assumes "record_step c r r'" "bound_to c dev pk r" "dev \<noteq> []" "js_trim dev = dev" "normalizeBootstrapPublicKey c pk = pk"
  shows "bound_to c dev pk r'"
  using assms by (auto simp: record_step_def bound_to_def truthy_def)

lemma token_bound_step:
  assumes "token_bound c tok dev pk file" "bootstrap_step c avoid file file'" "tok \<in> avoid"
    "dev \<noteq> []" "js_trim dev = dev" "normalizeBootstrapPublicKey c pk = pk"
  shows "token_bound c tok dev pk file'"
  using step_descends[OF assms(2)] assms record_step_bound[OF _ _ assms(4-6)]
  by (fastforce simp: token_bound_def descends_def)

lemma token_bound_run:
  assumes "(bootstrap_step c avoid)\<^sup>*\<^sup>* file file'" "token_bound c tok dev pk file" "tok \<in> avoid"
    "dev \<noteq> []" "js_trim dev = dev" "normalizeBootstrapPublicKey c pk = pk"
  shows "token_bound c tok dev pk file'"
  using assms(1,2) by (induction rule: rtranclp_induct) (auto intro: token_bound_step[OF _ _ assms(3-)])

lemma verify_binds:
  assumes "records_ok fs" "verifyDeviceBootstrapToken c now tok dev pk role ss fs = (True, fs')"
  shows "records_ok fs' \<and> (\<exists>r. jm_get fs' (js_trim tok) = Some r \<and> btDeviceId r = Some (js_trim dev)
    \<and> btPublicKey r = Some (normalizeBootstrapPublicKey c pk))"
proof -
  have "records_ok fs'" using verify_bootstrap_descends[OF assms(1)] assms(2) by (metis descends_def snd_conv)
  moreover obtain r p where "fs' = jm_set (js_trim tok) (r\<lparr>btProfile := Some (resolvePersistedBootstrapProfile r),
      btDeviceId := Some (js_trim dev), btPublicKey := Some (normalizeBootstrapPublicKey c pk), btLastUsedAtMs := Some now,
      btPendingProfile := Some p\<rparr>) (load_bootstrap now fs)"
    using verify_bootstrap_changes[OF assms] by metis
  ultimately show ?thesis by (simp add: jm_get_set)
qed



end
