(* ===== verification/Node_Pairing.thy ===== *)
theory Node_Pairing
  imports Pairing_Files
begin

text \<open>
  \<open>src/infra/node-pairing.ts\<close>, \<open>src/infra/node-pairing-authz.ts\<close> and the command names of
  \<open>src/infra/node-commands.ts\<close>: which nodes may connect and with which surface (capabilities,
  commands, permissions). A node asks, an operator whose scopes cover the commands approves, and
  the node then has one token. The state is the two files of a pairing; an operation writes both.
  The random identifier and the random token are arguments, \<open>localeCompare\<close> is \<open>le\<close>.
\<close>

section \<open>Data\<close>

type_synonym permissions = "(string, bool) jmap"

record node_surface =
  nsNodeId :: string
  nsClientId :: "string option"
  nsClientMode :: "string option"
  nsDisplayName :: "string option"
  nsPlatform :: "string option"
  nsVersion :: "string option"
  nsCoreVersion :: "string option"
  nsUiVersion :: "string option"
  nsDeviceFamily :: "string option"
  nsModelIdentifier :: "string option"
  nsCaps :: "string list option"
  nsCommands :: "string list option"
  nsPermissions :: "permissions option"
  nsRemoteIp :: "string option"

record node_request_input = node_surface +
  nrSilent :: "bool option"

record node_pending_request = node_request_input +
  nrRequestId :: string
  nrTs :: int

record node_paired = node_surface +
  npToken :: string
  npBins :: "string list option"
  npCreatedAtMs :: int
  npApprovedAtMs :: int
  npLastConnectedAtMs :: "int option"
  npLastSeenAtMs :: "int option"
  npLastSeenReason :: "string option"

datatype node_approve_result =
  No_node_request
| Node_forbidden string
| Node_approved string node_paired

datatype node_error = NodeId_required | DisplayName_required

type_synonym node_files = "(node_pending_request, node_paired) pairing_files"

definition NODE_PENDING_TTL_MS :: int where "NODE_PENDING_TTL_MS = 5 * 60 * 1000"

definition OPERATOR_PAIRING_SCOPE :: string where "OPERATOR_PAIRING_SCOPE = ''operator.pairing''"

definition NODE_SYSTEM_RUN_COMMANDS :: "string list" where
  "NODE_SYSTEM_RUN_COMMANDS = [''system.run.prepare'', ''system.run'', ''system.which'']"

text \<open>The scopes an approval of these commands needs; \<open>None\<close> is a value that is no array.\<close>

definition resolveNodePairApprovalScopes :: "string list option \<Rightarrow> string list" where
  "resolveNodePairApprovalScopes commands =
     (let normalized = js_nullish commands []
      in if list_ex (\<lambda>command. list_ex (\<lambda>allowed. allowed = command) NODE_SYSTEM_RUN_COMMANDS) normalized
         then [OPERATOR_PAIRING_SCOPE, OPERATOR_ADMIN_SCOPE]
         else if length normalized > 0 then [OPERATOR_PAIRING_SCOPE, OPERATOR_WRITE_SCOPE]
         else [OPERATOR_PAIRING_SCOPE])"

section \<open>Requests\<close>

definition buildPendingNodePairingRequest :: "int \<Rightarrow> string \<Rightarrow> node_request_input \<Rightarrow> node_pending_request" where
  "buildPendingNodePairingRequest now requestId req =
     \<lparr>nsNodeId = nsNodeId req, nsClientId = nsClientId req, nsClientMode = nsClientMode req,
      nsDisplayName = nsDisplayName req, nsPlatform = nsPlatform req, nsVersion = nsVersion req,
      nsCoreVersion = nsCoreVersion req, nsUiVersion = nsUiVersion req, nsDeviceFamily = nsDeviceFamily req,
      nsModelIdentifier = nsModelIdentifier req,
      nsCaps = normalizeArrayBackedTrimmedStringList (nsCaps req),
      nsCommands = normalizeArrayBackedTrimmedStringList (nsCommands req),
      nsPermissions = nsPermissions req, nsRemoteIp = nsRemoteIp req, nrSilent = nrSilent req,
      nrRequestId = requestId, nrTs = now\<rparr>"

definition refreshPendingNodePairingRequest ::
  "int \<Rightarrow> node_pending_request \<Rightarrow> node_request_input \<Rightarrow> node_pending_request" where
  "refreshPendingNodePairingRequest now existing incoming = existing
     \<lparr>nsClientId := opt_else (nsClientId incoming) (nsClientId existing),
      nsClientMode := opt_else (nsClientMode incoming) (nsClientMode existing),
      nsDisplayName := opt_else (nsDisplayName incoming) (nsDisplayName existing),
      nsPlatform := opt_else (nsPlatform incoming) (nsPlatform existing),
      nsVersion := opt_else (nsVersion incoming) (nsVersion existing),
      nsCoreVersion := opt_else (nsCoreVersion incoming) (nsCoreVersion existing),
      nsUiVersion := opt_else (nsUiVersion incoming) (nsUiVersion existing),
      nsDeviceFamily := opt_else (nsDeviceFamily incoming) (nsDeviceFamily existing),
      nsModelIdentifier := opt_else (nsModelIdentifier incoming) (nsModelIdentifier existing),
      nsCaps := opt_else (normalizeArrayBackedTrimmedStringList (nsCaps incoming)) (nsCaps existing),
      nsCommands := opt_else (normalizeArrayBackedTrimmedStringList (nsCommands incoming)) (nsCommands existing),
      nsPermissions := opt_else (nsPermissions incoming) (nsPermissions existing),
      nsRemoteIp := opt_else (nsRemoteIp incoming) (nsRemoteIp existing),
      nrSilent := Some (nrSilent existing = Some True \<and> nrSilent incoming = Some True),
      nrTs := now\<rparr>"

definition normalizeApprovalSurfaceList :: "string list option \<Rightarrow> string list" where
  "normalizeApprovalSurfaceList v = js_nullish (normalizeArrayBackedTrimmedStringList v) []"

definition sameApprovalSurfaceSet :: "string list option \<Rightarrow> string list option \<Rightarrow> bool" where
  "sameApprovalSurfaceSet left right =
     (let normalizedLeft = uniqueValues (normalizeApprovalSurfaceList left);
          normalizedRight = uniqueValues (normalizeApprovalSurfaceList right)
      in length normalizedLeft = length normalizedRight
         \<and> list_all (List.member normalizedRight) normalizedLeft)"

definition samePermissions :: "(string \<Rightarrow> string \<Rightarrow> bool) \<Rightarrow> permissions option \<Rightarrow> permissions option \<Rightarrow> bool" where
  "samePermissions le left right =
     (let leftEntries = js_sort (\<lambda>a b. le (fst a) (fst b)) (js_nullish left []);
          rightEntries = js_sort (\<lambda>a b. le (fst a) (fst b)) (js_nullish right [])
      in length leftEntries = length rightEntries \<and> list_all2 (\<lambda>l r. fst r = fst l \<and> snd r = snd l) leftEntries rightEntries)"

definition samePendingApprovalSurface ::
  "(string \<Rightarrow> string \<Rightarrow> bool) \<Rightarrow> node_pending_request \<Rightarrow> node_request_input \<Rightarrow> bool" where
  "samePendingApprovalSurface le existing incoming \<longleftrightarrow>
     sameApprovalSurfaceSet (nsCaps existing)
       (opt_else (normalizeArrayBackedTrimmedStringList (nsCaps incoming)) (nsCaps existing))
     \<and> sameApprovalSurfaceSet (nsCommands existing)
       (opt_else (normalizeArrayBackedTrimmedStringList (nsCommands incoming)) (nsCommands existing))
     \<and> samePermissions le (nsPermissions existing) (opt_else (nsPermissions incoming) (nsPermissions existing))"

text \<open>The newest request that is replaced, if any, fills in what the incoming one leaves out.\<close>

definition latest_field :: "('p \<Rightarrow> 'a option) \<Rightarrow> 'p list \<Rightarrow> 'a option" where
  "latest_field f existing = (case existing of [] \<Rightarrow> None | latest # _ \<Rightarrow> f latest)"

definition mergeNodePairingReplacementInput :: "node_pending_request list \<Rightarrow> node_request_input \<Rightarrow> node_request_input" where
  "mergeNodePairingReplacementInput existing incoming =
     \<lparr>nsNodeId = nsNodeId incoming,
      nsClientId = opt_else (nsClientId incoming) (latest_field nsClientId existing),
      nsClientMode = opt_else (nsClientMode incoming) (latest_field nsClientMode existing),
      nsDisplayName = opt_else (nsDisplayName incoming) (latest_field nsDisplayName existing),
      nsPlatform = opt_else (nsPlatform incoming) (latest_field nsPlatform existing),
      nsVersion = opt_else (nsVersion incoming) (latest_field nsVersion existing),
      nsCoreVersion = opt_else (nsCoreVersion incoming) (latest_field nsCoreVersion existing),
      nsUiVersion = opt_else (nsUiVersion incoming) (latest_field nsUiVersion existing),
      nsDeviceFamily = opt_else (nsDeviceFamily incoming) (latest_field nsDeviceFamily existing),
      nsModelIdentifier = opt_else (nsModelIdentifier incoming) (latest_field nsModelIdentifier existing),
      nsCaps = opt_else (nsCaps incoming) (latest_field nsCaps existing),
      nsCommands = opt_else (nsCommands incoming) (latest_field nsCommands existing),
      nsPermissions = opt_else (nsPermissions incoming) (latest_field nsPermissions existing),
      nsRemoteIp = opt_else (nsRemoteIp incoming) (latest_field nsRemoteIp existing),
      nrSilent = Some (nrSilent incoming = Some True \<and> list_all (\<lambda>p. nrSilent p = Some True) existing)\<rparr>"

definition resolveNodeApprovalRequiredScopes :: "node_pending_request \<Rightarrow> string list" where
  "resolveNodeApprovalRequiredScopes pending = resolveNodePairApprovalScopes (nsCommands pending)"

definition toPendingNodePairingEntry :: "node_pending_request \<Rightarrow> node_pending_request \<times> string list" where
  "toPendingNodePairingEntry pending = (pending, resolveNodeApprovalRequiredScopes pending)"

section \<open>Operations\<close>

definition load_nodes :: "int \<Rightarrow> node_files \<Rightarrow> node_files" where
  "load_nodes now files = files\<lparr>pfPending := pruneExpiredPending nrTs now NODE_PENDING_TTL_MS (pfPending files)\<rparr>"

definition normalizeNodeId :: "string \<Rightarrow> string" where
  "normalizeNodeId nodeId = js_trim nodeId"

definition listNodePairing :: "int \<Rightarrow> node_files \<Rightarrow> (node_pending_request \<times> string list) list \<times> node_paired list" where
  "listNodePairing now files =
     (let st = load_nodes now files
      in (map toPendingNodePairingEntry (js_sort (\<lambda>a b. nrTs b \<le> nrTs a) (map snd (pfPending st))),
          js_sort (\<lambda>a b. npApprovedAtMs b \<le> npApprovedAtMs a) (map snd (pfPaired st))))"

definition getPairedNode :: "int \<Rightarrow> string \<Rightarrow> node_files \<Rightarrow> node_paired option" where
  "getPairedNode now nodeId files = jm_get (pfPaired (load_nodes now files)) (normalizeNodeId nodeId)"

definition node_pending_for :: "string \<Rightarrow> node_files \<Rightarrow> node_pending_request list" where
  "node_pending_for nodeId st =
     js_sort (\<lambda>l r. nrTs r \<le> nrTs l) (filter (\<lambda>p. nsNodeId p = nodeId) (map snd (pfPending st)))"

definition requestNodePairing ::
  "(string \<Rightarrow> string \<Rightarrow> bool) \<Rightarrow> int \<Rightarrow> string \<Rightarrow> node_request_input \<Rightarrow> node_files
   \<Rightarrow> (node_error + node_pending_request \<times> bool \<times> (string \<times> string) list) \<times> node_files" where
  "requestNodePairing le now uuid req files =
     (let st = load_nodes now files; nodeId = normalizeNodeId (nsNodeId req)
      in if nodeId = [] then (Inl NodeId_required, files)
         else (let pendingForNode = node_pending_for nodeId st;
                   (request, created, pendingById) =
                     reconcilePendingPairingRequests nrRequestId pendingForNode (req\<lparr>nsNodeId := nodeId\<rparr>)
                       (samePendingApprovalSurface le) (refreshPendingNodePairingRequest now)
                       (\<lambda>existing incoming. buildPendingNodePairingRequest now uuid
                          (mergeNodePairingReplacementInput existing incoming))
                       (pfPending st);
                   superseded = (if created
                     then map (\<lambda>p. (nrRequestId p, nsNodeId p))
                            (filter (\<lambda>p. nrRequestId p \<noteq> nrRequestId request) pendingForNode)
                     else [])
               in (Inr (request, created, superseded), st\<lparr>pfPending := pendingById\<rparr>)))"

definition approved_node :: "int \<Rightarrow> string \<Rightarrow> node_pending_request \<Rightarrow> node_paired option \<Rightarrow> node_paired" where
  "approved_node now token pending existing =
     \<lparr>nsNodeId = nsNodeId pending, nsClientId = nsClientId pending, nsClientMode = nsClientMode pending,
      nsDisplayName = nsDisplayName pending, nsPlatform = nsPlatform pending, nsVersion = nsVersion pending,
      nsCoreVersion = nsCoreVersion pending, nsUiVersion = nsUiVersion pending, nsDeviceFamily = nsDeviceFamily pending,
      nsModelIdentifier = nsModelIdentifier pending, nsCaps = nsCaps pending, nsCommands = nsCommands pending,
      nsPermissions = nsPermissions pending, nsRemoteIp = nsRemoteIp pending,
      npToken = token, npBins = None,
      npCreatedAtMs = (case existing of Some e \<Rightarrow> npCreatedAtMs e | None \<Rightarrow> now), npApprovedAtMs = now,
      npLastConnectedAtMs = None, npLastSeenAtMs = None, npLastSeenReason = None\<rparr>"

definition approveNodePairing ::
  "int \<Rightarrow> string \<Rightarrow> string \<Rightarrow> string list option \<Rightarrow> node_files \<Rightarrow> node_approve_result \<times> node_files" where
  "approveNodePairing now token requestId callerScopes files =
     (let st = load_nodes now files
      in case jm_get (pfPending st) requestId of
           None \<Rightarrow> (No_node_request, files)
         | Some pending \<Rightarrow>
             (case resolveMissingRequestedScope OPERATOR_ROLE (resolveNodeApprovalRequiredScopes pending)
                     (js_nullish callerScopes []) of
                Some missingScope \<Rightarrow> (Node_forbidden missingScope, files)
              | None \<Rightarrow>
                  (let node = approved_node now token pending (jm_get (pfPaired st) (nsNodeId pending))
                   in (Node_approved requestId node,
                       st\<lparr>pfPending := jm_del requestId (pfPending st),
                          pfPaired := jm_set (nsNodeId pending) node (pfPaired st)\<rparr>))))"

definition rejectNodePairing :: "int \<Rightarrow> string \<Rightarrow> node_files \<Rightarrow> (string \<times> string) option \<times> node_files" where
  "rejectNodePairing now requestId files =
     (let st = load_nodes now files
      in case rejectPendingPairingRequest requestId nsNodeId (pfPending st) of
           (None, _) \<Rightarrow> (None, files)
         | (Some r, pendingById) \<Rightarrow> (Some r, st\<lparr>pfPending := pendingById\<rparr>))"

definition removePairedNode :: "int \<Rightarrow> string \<Rightarrow> node_files \<Rightarrow> string option \<times> node_files" where
  "removePairedNode now nodeId files =
     (let st = load_nodes now files; normalized = normalizeNodeId nodeId
      in if normalized = [] \<or> jm_get (pfPaired st) normalized = None then (None, files)
         else (Some normalized, st\<lparr>pfPaired := jm_del normalized (pfPaired st)\<rparr>))"

definition verifyNodeToken :: "int \<Rightarrow> string \<Rightarrow> string \<Rightarrow> node_files \<Rightarrow> node_paired option" where
  "verifyNodeToken now nodeId token files =
     (case jm_get (pfPaired (load_nodes now files)) (normalizeNodeId nodeId) of
        None \<Rightarrow> None
      | Some node \<Rightarrow> if verifyPairingToken token (npToken node) then Some node else None)"

text \<open>A patch has the fields of a node, each one optional; the fields it cannot change are not read.\<close>

record node_patch = node_surface +
  ntBins :: "string list option"
  ntLastConnectedAtMs :: "int option"
  ntLastSeenAtMs :: "int option"
  ntLastSeenReason :: "string option"

definition updatePairedNodeMetadata :: "int \<Rightarrow> string \<Rightarrow> node_patch \<Rightarrow> node_files \<Rightarrow> bool \<times> node_files" where
  "updatePairedNodeMetadata now nodeId patch files =
     (let st = load_nodes now files; normalized = normalizeNodeId nodeId
      in case jm_get (pfPaired st) normalized of
           None \<Rightarrow> (False, files)
         | Some existing \<Rightarrow>
             (let nxt = existing
                \<lparr>nsClientId := opt_else (nsClientId patch) (nsClientId existing),
                 nsClientMode := opt_else (nsClientMode patch) (nsClientMode existing),
                 nsDisplayName := opt_else (nsDisplayName patch) (nsDisplayName existing),
                 nsPlatform := opt_else (nsPlatform patch) (nsPlatform existing),
                 nsVersion := opt_else (nsVersion patch) (nsVersion existing),
                 nsCoreVersion := opt_else (nsCoreVersion patch) (nsCoreVersion existing),
                 nsUiVersion := opt_else (nsUiVersion patch) (nsUiVersion existing),
                 nsDeviceFamily := opt_else (nsDeviceFamily patch) (nsDeviceFamily existing),
                 nsModelIdentifier := opt_else (nsModelIdentifier patch) (nsModelIdentifier existing),
                 nsRemoteIp := opt_else (nsRemoteIp patch) (nsRemoteIp existing),
                 nsCaps := opt_else (nsCaps patch) (nsCaps existing),
                 nsCommands := opt_else (nsCommands patch) (nsCommands existing),
                 npBins := opt_else (ntBins patch) (npBins existing),
                 nsPermissions := opt_else (nsPermissions patch) (nsPermissions existing),
                 npLastConnectedAtMs := opt_else (ntLastConnectedAtMs patch) (npLastConnectedAtMs existing),
                 npLastSeenAtMs := opt_else (ntLastSeenAtMs patch) (npLastSeenAtMs existing),
                 npLastSeenReason := opt_else (ntLastSeenReason patch) (npLastSeenReason existing)\<rparr>
              in (True, st\<lparr>pfPaired := jm_set normalized nxt (pfPaired st)\<rparr>)))"

definition renamePairedNode :: "int \<Rightarrow> string \<Rightarrow> string \<Rightarrow> node_files \<Rightarrow> (node_error + node_paired option) \<times> node_files" where
  "renamePairedNode now nodeId displayName files =
     (let st = load_nodes now files; normalized = normalizeNodeId nodeId
      in case jm_get (pfPaired st) normalized of
           None \<Rightarrow> (Inr None, files)
         | Some existing \<Rightarrow>
             (let trimmed = js_trim displayName
              in if trimmed = [] then (Inl DisplayName_required, files)
                 else (let nxt = existing\<lparr>nsDisplayName := Some trimmed\<rparr>
                       in (Inr (Some nxt), st\<lparr>pfPaired := jm_set normalized nxt (pfPaired st)\<rparr>))))"

end
