(* ===== verification/Node_Pairing_Props.thy ===== *)
theory Node_Pairing_Props
  imports Node_Pairing
begin

text \<open>
  What an operator approves is what the list of requests showed: as long as the identifier of a
  request stands for a request, it is for the same node with the same capabilities, commands and
  permissions. A node that asks for something else gets a new identifier.
\<close>

section \<open>Surfaces\<close>

lemma sameApprovalSurfaceSet_iff:
  "sameApprovalSurfaceSet l r \<longleftrightarrow> set (normalizeApprovalSurfaceList l) = set (normalizeApprovalSurfaceList r)"
proof -
  let ?l = "uniqueValues (normalizeApprovalSurfaceList l)"
  let ?r = "uniqueValues (normalizeApprovalSurfaceList r)"
  have "length ?l = length ?r \<and> set ?l \<subseteq> set ?r \<longleftrightarrow> set ?l = set ?r"
    using card_subset_eq[of "set ?r" "set ?l"] by (auto simp: distinct_card[symmetric] simp del: set_uniqueValues)
  then show ?thesis by (simp add: sameApprovalSurfaceSet_def Let_def list_all_iff subset_eq)
qed

lemma samePermissions_set:
  assumes "samePermissions le l r"
  shows "set (js_nullish l []) = set (js_nullish r [])"
proof -
  let ?sort = "js_sort (\<lambda>a b. le (fst a) (fst b)) :: permissions \<Rightarrow> permissions"
  have "list_all2 (=) (?sort (js_nullish l [])) (?sort (js_nullish r []))"
    using assms by (auto simp: samePermissions_def Let_def prod_eq_iff elim: list_all2_mono)
  then have "?sort (js_nullish l []) = ?sort (js_nullish r [])" by (simp add: list.rel_eq)
  then show ?thesis by (metis set_js_sort)
qed

lemma normalize_list_idem [simp]: "normalizeTrimmedStringList (Some (normalizeTrimmedStringList v)) = normalizeTrimmedStringList v"
proof (cases v)
  case (Some xs)
  show ?thesis unfolding Some
    by (induction xs) (auto simp: normalizeTrimmedStringList_def normalizeOptionalString_def Let_def List.map_filter_simps split: option.splits if_splits)
qed (simp add: normalizeTrimmedStringList_def List.map_filter_simps)

text \<open>A list that was normalised stands for itself.\<close>

definition normal_list :: "string list option \<Rightarrow> bool" where
  "normal_list v \<longleftrightarrow> normalizeArrayBackedTrimmedStringList v = v"

lemma normal_list_normalized [simp]: "normal_list (normalizeArrayBackedTrimmedStringList v)"
  by (cases v) (simp_all add: normal_list_def normalizeArrayBackedTrimmedStringList_def)

lemma normal_list_else: "normal_list a \<Longrightarrow> normal_list b \<Longrightarrow> normal_list (opt_else a b)"
  by (cases a) simp_all

lemma normal_list_surface: "normal_list v \<Longrightarrow> normalizeApprovalSurfaceList v = js_nullish v []"
  by (simp add: normal_list_def normalizeApprovalSurfaceList_def)

definition node_request_ok :: "string \<Rightarrow> node_pending_request \<Rightarrow> bool" where
  "node_request_ok key p \<longleftrightarrow> nrRequestId p = key \<and> normal_list (nsCaps p) \<and> normal_list (nsCommands p)"

definition node_pending_ok :: "(string, node_pending_request) jmap \<Rightarrow> bool" where
  "node_pending_ok m \<longleftrightarrow> jm_wf m \<and> (\<forall>(k, p) \<in> set m. node_request_ok k p)"

lemmas node_pending_set = keyed_set[where P = node_request_ok, folded node_pending_ok_def]
lemmas node_pending_del = keyed_del[where P = node_request_ok, folded node_pending_ok_def]
lemmas node_pending_filter = keyed_filter[where P = node_request_ok, folded node_pending_ok_def]

lemma node_pending_get: "node_pending_ok m \<Longrightarrow> jm_get m k = Some p \<Longrightarrow> node_request_ok k p"
  unfolding node_pending_ok_def using keyed_get[of m node_request_ok] by blast

definition same_surface :: "node_pending_request \<Rightarrow> node_pending_request \<Rightarrow> bool" where
  "same_surface p q \<longleftrightarrow> nsNodeId p = nsNodeId q
     \<and> set (js_nullish (nsCaps p) []) = set (js_nullish (nsCaps q) [])
     \<and> set (js_nullish (nsCommands p) []) = set (js_nullish (nsCommands q) [])
     \<and> set (js_nullish (nsPermissions p) []) = set (js_nullish (nsPermissions q) [])"

lemma same_surface_trans: "same_surface p q \<Longrightarrow> same_surface q r \<Longrightarrow> same_surface p r"
  by (simp add: same_surface_def)

lemma node_refresh_ok:
  "node_request_ok k e \<Longrightarrow> node_request_ok (nrRequestId (refreshPendingNodePairingRequest now e req)) (refreshPendingNodePairingRequest now e req)"
  by (simp add: node_request_ok_def refreshPendingNodePairingRequest_def normal_list_else)

lemma refresh_same_surface:
  assumes "node_request_ok k e" "samePendingApprovalSurface le e req"
  shows "same_surface e (refreshPendingNodePairingRequest now e req)"
  using assms samePermissions_set[of le "nsPermissions e" "opt_else (nsPermissions req) (nsPermissions e)"]
  by (simp add: samePendingApprovalSurface_def same_surface_def refreshPendingNodePairingRequest_def node_request_ok_def
      sameApprovalSurfaceSet_iff normal_list_surface normal_list_else)

lemma node_build_ok: "node_request_ok uuid (buildPendingNodePairingRequest now uuid req)"
  by (simp add: node_request_ok_def buildPendingNodePairingRequest_def)

section \<open>Steps\<close>

inductive node_step :: "(string \<Rightarrow> string \<Rightarrow> bool) \<Rightarrow> string set \<Rightarrow> node_files \<Rightarrow> node_files \<Rightarrow> bool" for le avoid where
  request: "uuid \<notin> avoid \<Longrightarrow> node_step le avoid files (snd (requestNodePairing le now uuid req files))"
| approve: "node_step le avoid files (snd (approveNodePairing now token requestId callerScopes files))"
| reject: "node_step le avoid files (snd (rejectNodePairing now requestId files))"
| remove: "node_step le avoid files (snd (removePairedNode now nodeId files))"
| update: "node_step le avoid files (snd (updatePairedNodeMetadata now nodeId patch files))"
| rename: "node_step le avoid files (snd (renamePairedNode now nodeId name files))"

text \<open>What a step leaves of the pending requests: the ones that were there, or the same refreshed.\<close>

definition pending_from :: "string set \<Rightarrow> node_files \<Rightarrow> node_files \<Rightarrow> bool" where
  "pending_from avoid files files' \<longleftrightarrow> node_pending_ok (pfPending files')
     \<and> (\<forall>k p'. k \<in> avoid \<longrightarrow> jm_get (pfPending files') k = Some p' \<longrightarrow>
          (\<exists>p. jm_get (pfPending files) k = Some p \<and> same_surface p p'))"

lemma pending_from_sub:
  assumes "node_pending_ok (pfPending files)" "node_pending_ok (pfPending files')"
    "set (pfPending files') \<subseteq> set (pfPending files)"
  shows "pending_from avoid files files'"
proof -
  have "jm_get (pfPending files) k = Some p" if "jm_get (pfPending files') k = Some p" for k p
    using jm_get_in[OF that] assms(1,3) jm_wf_get[of "pfPending files" k p] by (auto simp: node_pending_ok_def)
  then show ?thesis using assms(2) by (auto simp: pending_from_def same_surface_def)
qed

lemma load_nodes_sub:
  assumes "node_pending_ok (pfPending files)"
  shows "node_pending_ok (pfPending (load_nodes now files)) \<and> set (pfPending (load_nodes now files)) \<subseteq> set (pfPending files)"
  using assms node_pending_filter by (auto simp: load_nodes_def pruneExpiredPending_def)

lemma load_nodes_paired [simp]: "pfPaired (load_nodes now files) = pfPaired files"
  by (simp add: load_nodes_def)

lemma request_pending_from:
  assumes ok: "node_pending_ok (pfPending files)" and uuid: "uuid \<notin> avoid"
  shows "pending_from avoid files (snd (requestNodePairing le now uuid req files))"
proof (cases "normalizeNodeId (nsNodeId req) = []")
  case True
  then show ?thesis using pending_from_sub[OF ok ok] by (simp add: requestNodePairing_def Let_def)
next
  case False
  let ?st = "load_nodes now files"
  let ?id = "normalizeNodeId (nsNodeId req)"
  let ?existing = "node_pending_for ?id ?st"
  let ?incoming = "req\<lparr>nsNodeId := ?id\<rparr>"
  let ?build = "\<lambda>existing incoming. buildPendingNodePairingRequest now uuid (mergeNodePairingReplacementInput existing incoming)"
  let ?m = "snd (snd (reconcilePendingPairingRequests nrRequestId ?existing ?incoming (samePendingApprovalSurface le)
      (refreshPendingNodePairingRequest now) ?build (pfPending ?st)))"
  have st: "node_pending_ok (pfPending ?st)" "set (pfPending ?st) \<subseteq> set (pfPending files)"
    using load_nodes_sub[OF ok] by simp_all
  have existing: "node_request_ok (nrRequestId e) e \<and> jm_get (pfPending files) (nrRequestId e) = Some e" if e: "e \<in> set ?existing" for e
  proof -
    obtain k where k: "(k, e) \<in> set (pfPending ?st)" using e by (auto simp: node_pending_for_def)
    then have "node_request_ok k e" using st(1) by (auto simp: node_pending_ok_def)
    then show ?thesis using k st(2) ok jm_wf_get[of "pfPending files" k e] by (auto simp: node_request_ok_def node_pending_ok_def)
  qed
  have id: "nrRequestId (refreshPendingNodePairingRequest now e i) = nrRequestId e" for e i
    by (simp add: refreshPendingNodePairingRequest_def)
  have built: "nrRequestId (?build es i) = uuid" for es i by (simp add: buildPendingNodePairingRequest_def)
  have "node_pending_ok ?m"
    by (rule reconcile_keeps[where K = node_pending_ok and P = node_request_ok])
      (simp_all add: node_pending_set node_pending_del st(1) built node_build_ok node_refresh_ok[OF conjunct1[OF existing]])
  moreover have "\<exists>p. jm_get (pfPending files) k = Some p \<and> same_surface p p'" if k: "k \<in> avoid" and g: "jm_get ?m k = Some p'" for k p'
  proof -
    have "k \<noteq> nrRequestId (?build ?existing ?incoming)" using k uuid built by auto
    from reconcile_get[OF id this g] show ?thesis
    proof
      assume "jm_get (pfPending ?st) k = Some p'"
      then have "jm_get (pfPending files) k = Some p'"
        using st(2) jm_get_in jm_wf_get[of "pfPending files" k p'] ok by (fastforce simp: node_pending_ok_def)
      then show ?thesis by (simp add: same_surface_def)
    next
      assume "\<exists>e \<in> set ?existing. samePendingApprovalSurface le e ?incoming \<and> nrRequestId e = k \<and> p' = refreshPendingNodePairingRequest now e ?incoming"
      then show ?thesis using existing refresh_same_surface by blast
    qed
  qed
  ultimately show ?thesis
    using False by (simp add: requestNodePairing_def Let_def case_prod_unfold pending_from_def)
qed

lemma del_pending_from:
  assumes "node_pending_ok (pfPending files)"
  shows "pending_from avoid files ((load_nodes now files)\<lparr>pfPending := jm_del k (pfPending (load_nodes now files)), pfPaired := x\<rparr>)"
    "pending_from avoid files ((load_nodes now files)\<lparr>pfPending := jm_del k (pfPending (load_nodes now files))\<rparr>)"
    "pending_from avoid files ((load_nodes now files)\<lparr>pfPaired := x\<rparr>)"
  using load_nodes_sub[OF assms, of now] node_pending_del
  by (auto intro!: pending_from_sub[OF assms] simp: set_jm_del)

lemma step_pending_from:
  assumes "node_step le avoid files files'" and ok: "node_pending_ok (pfPending files)"
  shows "pending_from avoid files files'"
proof -
  have same: "pending_from avoid files files" using pending_from_sub[OF ok ok] by simp
  note kept = same del_pending_from[OF ok]
  from assms(1) show ?thesis
  proof cases
    case (request uuid now req)
    then show ?thesis using request_pending_from[OF ok] by simp
  qed (auto simp: approveNodePairing_def rejectNodePairing_def rejectPendingPairingRequest_def removePairedNode_def
      updatePairedNodeMetadata_def renamePairedNode_def Let_def kept split: option.split)
qed

interpretation nodes: invariant_system "\<lambda>files. pfPending files = []" "node_step le avoid" "\<lambda>files. node_pending_ok (pfPending files)"
proof unfold_locales
  show "node_pending_ok (pfPending fs)" if "pfPending fs = []" for fs :: node_files using that by (simp add: node_pending_ok_def)
  show "node_pending_ok (pfPending fs')" if "node_pending_ok (pfPending fs)" "node_step le avoid fs fs'" for fs fs'
    using step_pending_from[OF that(2,1)] by (simp add: pending_from_def)
qed

lemma run_pending_from:
  assumes "(node_step le avoid)\<^sup>*\<^sup>* files files'" and ok: "node_pending_ok (pfPending files)"
  shows "pending_from avoid files files'"
  using assms(1)
proof (induction rule: rtranclp_induct)
  case base
  then show ?case using pending_from_sub[OF ok ok] by simp
next
  case (step fs fs')
  then have "pending_from avoid fs fs'" by (intro step_pending_from) (auto simp: pending_from_def)
  then show ?case using step.IH unfolding pending_from_def by (blast intro: same_surface_trans)
qed

lemma approve_node_changes:
  assumes "approveNodePairing now tok k caller fs = (Node_approved rid n, fs')"
  shows "\<exists>p. jm_get (pfPending (load_nodes now fs)) k = Some p \<and> rid = k
    \<and> roleScopesAllow OPERATOR_ROLE (resolveNodeApprovalRequiredScopes p) (js_nullish caller [])
    \<and> n = approved_node now tok p (jm_get (pfPaired fs) (nsNodeId p))
    \<and> pfPaired fs' = jm_set (nsNodeId p) n (pfPaired fs)"
  using assms by (auto simp: approveNodePairing_def Let_def missing_scope_iff split: option.splits)

lemma required_scopes_cong:
  "set (js_nullish v []) = set (js_nullish w []) \<Longrightarrow> resolveNodePairApprovalScopes v = resolveNodePairApprovalScopes w"
  by (simp add: resolveNodePairApprovalScopes_def Let_def list_ex_iff) (metis list.set_intros(1) neq_Nil_conv empty_iff list.set(1))

text \<open>
  C29: What an operator approves is what the list of requests showed, and needs the scopes it
  showed: if a request was listed with its required scopes, and whatever happened since (other
  requests of the same node included, each under a new identifier), approving its identifier
  succeeds, then the node that is paired is the one listed, with the capabilities, commands and
  permissions listed, and the approver had the scopes listed.
\<close>
theorem node_approved_as_listed:
  assumes start: "(node_step le {})\<^sup>*\<^sup>* \<lparr>pfPending = [], pfPaired = []\<rparr> fs0"
    and listed: "(p, required) \<in> set (fst (listNodePairing now fs0))"
    and run: "(node_step le {nrRequestId p})\<^sup>*\<^sup>* fs0 fs1"
    and approved: "approveNodePairing now' tok (nrRequestId p) caller fs1 = (Node_approved rid n, fs2)"
  shows "nsNodeId n = nsNodeId p
    \<and> set (js_nullish (nsCaps n) []) = set (js_nullish (nsCaps p) [])
    \<and> set (js_nullish (nsCommands n) []) = set (js_nullish (nsCommands p) [])
    \<and> set (js_nullish (nsPermissions n) []) = set (js_nullish (nsPermissions p) [])
    \<and> roleScopesAllow OPERATOR_ROLE required (js_nullish caller [])"
proof -
  have ok0: "node_pending_ok (pfPending fs0)" using start by (rule nodes.reachable_inv[rotated]) simp
  have p: "p \<in> snd ` set (pfPending (load_nodes now fs0))" and req: "required = resolveNodeApprovalRequiredScopes p"
    using listed by (auto simp: listNodePairing_def Let_def toPendingNodePairingEntry_def)
  then obtain k where k: "(k, p) \<in> set (pfPending fs0)" using load_nodes_sub[OF ok0, of now] by auto
  then have g: "jm_get (pfPending fs0) k = Some p" using ok0 jm_wf_get[of "pfPending fs0"] by (simp add: node_pending_ok_def)
  then have kp: "nrRequestId p = k" using node_pending_get[OF ok0] by (simp add: node_request_ok_def)
  have from_fs0: "pending_from {k} fs0 fs1" using run ok0 unfolding kp by (rule run_pending_from)
  then have ok1: "node_pending_ok (pfPending fs1)" by (simp add: pending_from_def)
  obtain q where q: "jm_get (pfPending (load_nodes now' fs1)) k = Some q"
    and scopes: "roleScopesAllow OPERATOR_ROLE (resolveNodeApprovalRequiredScopes q) (js_nullish caller [])"
    and n: "n = approved_node now' tok q (jm_get (pfPaired fs1) (nsNodeId q))"
    using approve_node_changes[OF approved] kp by blast
  have "jm_get (pfPending fs1) k = Some q"
    using load_nodes_sub[OF ok1, of now'] jm_get_in[OF q] ok1 jm_wf_get[of "pfPending fs1" k q] by (auto simp: node_pending_ok_def)
  then have same: "same_surface p q" using from_fs0 g by (auto simp: pending_from_def)
  then have "required = resolveNodeApprovalRequiredScopes q"
    using req required_scopes_cong[of "nsCommands p" "nsCommands q"]
    by (simp add: same_surface_def resolveNodeApprovalRequiredScopes_def)
  then show ?thesis using same scopes by (simp add: n approved_node_def same_surface_def)
qed

definition node_req :: "string list \<Rightarrow> node_request_input" where
  "node_req cmds = \<lparr>nsNodeId = ''n'', nsClientId = None, nsClientMode = None, nsDisplayName = None, nsPlatform = None,
     nsVersion = None, nsCoreVersion = None, nsUiVersion = None, nsDeviceFamily = None, nsModelIdentifier = None,
     nsCaps = None, nsCommands = Some cmds, nsPermissions = None, nsRemoteIp = None, nrSilent = None\<rparr>"

theorem node_approved_as_listed_witness:
  "roleScopesAllow OPERATOR_ROLE [''operator.pairing'', ''operator.admin''] [''operator.pairing'', ''operator.admin'']"
proof -
  let ?le = "\<lambda>_ _ :: string. True"
  let ?empty = "\<lparr>pfPending = [], pfPaired = []\<rparr> :: node_files"
  let ?fs0 = "snd (requestNodePairing ?le 0 ''r1'' (node_req [''system.run'']) ?empty)"
  let ?p = "buildPendingNodePairingRequest 0 ''r1'' (mergeNodePairingReplacementInput [] (node_req [''system.run'']))"
  let ?fs1 = "snd (requestNodePairing ?le 1 ''r2'' (node_req ['' system.run'']) ?fs0)"
  let ?caller = "Some [''operator.pairing'', ''operator.admin'']"
  have start: "(node_step ?le {})\<^sup>*\<^sup>* ?empty ?fs0" by (rule r_into_rtranclp, rule node_step.request) simp
  have listed: "(?p, [''operator.pairing'', ''operator.admin'']) \<in> set (fst (listNodePairing 0 ?fs0))" by code_simp
  have id: "nrRequestId ?p = ''r1''" by code_simp
  have run: "(node_step ?le {nrRequestId ?p})\<^sup>*\<^sup>* ?fs0 ?fs1"
    unfolding id by (rule r_into_rtranclp, rule node_step.request) simp
  have "case approveNodePairing 2 ''t'' ''r1'' ?caller ?fs1 of (Node_approved _ _, _) \<Rightarrow> True | _ \<Rightarrow> False" by code_simp
  then obtain rid n fs2 where "approveNodePairing 2 ''t'' ''r1'' ?caller ?fs1 = (Node_approved rid n, fs2)"
    by (auto split: prod.splits node_approve_result.splits)
  then show ?thesis using node_approved_as_listed[OF start listed run, of 2 "''t''" ?caller] id by simp
qed

end
