(* ===== verification/Gateway_Methods.thy ===== *)
theory Gateway_Methods
  imports Rate_Limits Operator_Scopes
begin

text \<open>
  Which method of the gateway a client may call, and how a request finds its handler:
  \<open>src/gateway/methods/\<close> (the table of the core methods, their descriptors and the registry),
  \<open>src/gateway/method-scopes.ts\<close>, \<open>role-policy.ts\<close>, \<open>operator-scopes.ts\<close>,
  \<open>src/shared/gateway-method-policy.ts\<close>, the dispatch of \<open>src/gateway/server-methods.ts\<close> and
  \<open>registerGatewayMethod\<close> of \<open>src/plugins/registry.ts\<close>. A handler is opaque: the core ones are
  named by their method, the ones of plugins and callers by a number. The registry of plugins is
  what the methods read of it. The parameters of a request are seen as far as authorisation looks
  at them: \<open>None\<close> is anything but an object.
\<close>

section \<open>Scopes\<close>

definition ADMIN_SCOPE :: string where "ADMIN_SCOPE = ''operator.admin''"
definition READ_SCOPE :: string where "READ_SCOPE = ''operator.read''"
definition WRITE_SCOPE :: string where "WRITE_SCOPE = ''operator.write''"
definition APPROVALS_SCOPE :: string where "APPROVALS_SCOPE = ''operator.approvals''"
definition PAIRING_SCOPE :: string where "PAIRING_SCOPE = ''operator.pairing''"
definition TALK_SECRETS_SCOPE :: string where "TALK_SECRETS_SCOPE = ''operator.talk.secrets''"
definition NODE_GATEWAY_METHOD_SCOPE :: string where "NODE_GATEWAY_METHOD_SCOPE = ''node''"
definition DYNAMIC_GATEWAY_METHOD_SCOPE :: string where "DYNAMIC_GATEWAY_METHOD_SCOPE = ''dynamic''"

definition isOperatorScope :: "string \<Rightarrow> bool" where
  "isOperatorScope v \<longleftrightarrow> List.member
     [ADMIN_SCOPE, READ_SCOPE, WRITE_SCOPE, APPROVALS_SCOPE, PAIRING_SCOPE, TALK_SECRETS_SCOPE] v"

definition CLI_DEFAULT_OPERATOR_SCOPES :: "string list" where
  "CLI_DEFAULT_OPERATOR_SCOPES =
     [ADMIN_SCOPE, READ_SCOPE, WRITE_SCOPE, APPROVALS_SCOPE, PAIRING_SCOPE, TALK_SECRETS_SCOPE]"

section \<open>The core methods\<close>

record core_method_spec =
  csName :: string
  csScope :: string
  csAdvertise :: bool
  csStartup :: bool
  csControlPlaneWrite :: bool

definition core_spec :: "string \<Rightarrow> string \<Rightarrow> core_method_spec" where
  "core_spec n s = \<lparr>csName = n, csScope = s, csAdvertise = True, csStartup = False, csControlPlaneWrite = False\<rparr>"

definition not_advertised :: "core_method_spec \<Rightarrow> core_method_spec" where
  "not_advertised s = s\<lparr>csAdvertise := False\<rparr>"

definition at_startup :: "core_method_spec \<Rightarrow> core_method_spec" where
  "at_startup s = s\<lparr>csStartup := True\<rparr>"

definition control_plane_write :: "core_method_spec \<Rightarrow> core_method_spec" where
  "control_plane_write s = s\<lparr>csControlPlaneWrite := True\<rparr>"

definition CORE_GATEWAY_METHOD_SPECS :: "core_method_spec list" where
  "CORE_GATEWAY_METHOD_SPECS =
     [
      core_spec ''health'' ''operator.read'',
      core_spec ''diagnostics.stability'' ''operator.read'',
      core_spec ''doctor.memory.status'' ''operator.read'',
      core_spec ''doctor.memory.dreamDiary'' ''operator.read'',
      core_spec ''doctor.memory.backfillDreamDiary'' ''operator.write'',
      core_spec ''doctor.memory.resetDreamDiary'' ''operator.write'',
      core_spec ''doctor.memory.resetGroundedShortTerm'' ''operator.write'',
      core_spec ''doctor.memory.repairDreamingArtifacts'' ''operator.write'',
      core_spec ''doctor.memory.dedupeDreamDiary'' ''operator.write'',
      core_spec ''doctor.memory.remHarness'' ''operator.read'',
      core_spec ''logs.tail'' ''operator.read'',
      core_spec ''channels.status'' ''operator.read'',
      core_spec ''channels.start'' ''operator.admin'',
      core_spec ''channels.stop'' ''operator.admin'',
      core_spec ''channels.logout'' ''operator.admin'',
      core_spec ''status'' ''operator.read'',
      core_spec ''usage.status'' ''operator.read'',
      core_spec ''usage.cost'' ''operator.read'',
      core_spec ''tts.status'' ''operator.read'',
      core_spec ''tts.providers'' ''operator.read'',
      core_spec ''tts.personas'' ''operator.read'',
      core_spec ''tts.enable'' ''operator.write'',
      core_spec ''tts.disable'' ''operator.write'',
      core_spec ''tts.convert'' ''operator.write'',
      core_spec ''tts.setProvider'' ''operator.write'',
      core_spec ''tts.setPersona'' ''operator.write'',
      core_spec ''config.get'' ''operator.read'',
      core_spec ''config.set'' ''operator.admin'',
      control_plane_write (core_spec ''config.apply'' ''operator.admin''),
      control_plane_write (core_spec ''config.patch'' ''operator.admin''),
      core_spec ''config.schema'' ''operator.admin'',
      core_spec ''config.schema.lookup'' ''operator.read'',
      core_spec ''exec.approvals.get'' ''operator.admin'',
      core_spec ''exec.approvals.set'' ''operator.admin'',
      core_spec ''exec.approvals.node.get'' ''operator.admin'',
      core_spec ''exec.approvals.node.set'' ''operator.admin'',
      core_spec ''exec.approval.get'' ''operator.approvals'',
      core_spec ''exec.approval.list'' ''operator.approvals'',
      core_spec ''exec.approval.request'' ''operator.approvals'',
      core_spec ''exec.approval.waitDecision'' ''operator.approvals'',
      core_spec ''exec.approval.resolve'' ''operator.approvals'',
      core_spec ''plugin.approval.list'' ''operator.approvals'',
      core_spec ''plugin.approval.request'' ''operator.approvals'',
      core_spec ''plugin.approval.waitDecision'' ''operator.approvals'',
      core_spec ''plugin.approval.resolve'' ''operator.approvals'',
      core_spec ''plugins.uiDescriptors'' ''operator.read'',
      core_spec ''plugins.sessionAction'' ''dynamic'',
      core_spec ''wizard.start'' ''operator.admin'',
      core_spec ''wizard.next'' ''operator.admin'',
      core_spec ''wizard.cancel'' ''operator.admin'',
      core_spec ''wizard.status'' ''operator.admin'',
      core_spec ''talk.catalog'' ''operator.read'',
      core_spec ''talk.config'' ''operator.read'',
      core_spec ''talk.client.create'' ''operator.write'',
      core_spec ''talk.client.toolCall'' ''operator.write'',
      core_spec ''talk.client.steer'' ''operator.write'',
      core_spec ''talk.session.create'' ''operator.write'',
      core_spec ''talk.session.join'' ''operator.write'',
      core_spec ''talk.session.appendAudio'' ''operator.write'',
      core_spec ''talk.session.startTurn'' ''operator.write'',
      core_spec ''talk.session.endTurn'' ''operator.write'',
      core_spec ''talk.session.cancelTurn'' ''operator.write'',
      core_spec ''talk.session.cancelOutput'' ''operator.write'',
      core_spec ''talk.session.submitToolResult'' ''operator.write'',
      core_spec ''talk.session.steer'' ''operator.write'',
      core_spec ''talk.session.close'' ''operator.write'',
      core_spec ''talk.speak'' ''operator.write'',
      core_spec ''talk.mode'' ''operator.write'',
      core_spec ''commands.list'' ''operator.read'',
      at_startup (core_spec ''models.list'' ''operator.read''),
      core_spec ''models.authStatus'' ''operator.read'',
      control_plane_write (core_spec ''models.authLogout'' ''operator.admin''),
      core_spec ''tools.catalog'' ''operator.read'',
      at_startup (core_spec ''tools.effective'' ''operator.read''),
      core_spec ''tools.invoke'' ''operator.write'',
      core_spec ''tasks.list'' ''operator.read'',
      core_spec ''tasks.get'' ''operator.read'',
      core_spec ''tasks.cancel'' ''operator.write'',
      core_spec ''environments.list'' ''operator.read'',
      core_spec ''environments.status'' ''operator.read'',
      core_spec ''agents.list'' ''operator.read'',
      core_spec ''agents.create'' ''operator.admin'',
      core_spec ''agents.update'' ''operator.admin'',
      core_spec ''agents.delete'' ''operator.admin'',
      core_spec ''agents.files.list'' ''operator.read'',
      core_spec ''agents.files.get'' ''operator.read'',
      core_spec ''agents.files.set'' ''operator.admin'',
      core_spec ''artifacts.list'' ''operator.read'',
      core_spec ''artifacts.get'' ''operator.read'',
      core_spec ''artifacts.download'' ''operator.read'',
      core_spec ''skills.status'' ''operator.read'',
      core_spec ''skills.search'' ''operator.read'',
      core_spec ''skills.detail'' ''operator.read'',
      core_spec ''skills.bins'' ''node'',
      core_spec ''skills.upload.begin'' ''operator.admin'',
      core_spec ''skills.upload.chunk'' ''operator.admin'',
      core_spec ''skills.upload.commit'' ''operator.admin'',
      core_spec ''skills.install'' ''operator.admin'',
      core_spec ''skills.update'' ''operator.admin'',
      core_spec ''update.status'' ''operator.admin'',
      control_plane_write (core_spec ''update.run'' ''operator.admin''),
      core_spec ''voicewake.get'' ''operator.read'',
      core_spec ''voicewake.set'' ''operator.write'',
      core_spec ''secrets.reload'' ''operator.admin'',
      core_spec ''secrets.resolve'' ''operator.admin'',
      core_spec ''voicewake.routing.get'' ''operator.read'',
      core_spec ''voicewake.routing.set'' ''operator.write'',
      at_startup (core_spec ''sessions.list'' ''operator.read''),
      core_spec ''sessions.subscribe'' ''operator.read'',
      core_spec ''sessions.unsubscribe'' ''operator.read'',
      core_spec ''sessions.messages.subscribe'' ''operator.read'',
      core_spec ''sessions.messages.unsubscribe'' ''operator.read'',
      core_spec ''sessions.preview'' ''operator.read'',
      core_spec ''sessions.describe'' ''operator.read'',
      core_spec ''sessions.compaction.list'' ''operator.read'',
      core_spec ''sessions.compaction.get'' ''operator.read'',
      core_spec ''sessions.compaction.branch'' ''operator.write'',
      core_spec ''sessions.compaction.restore'' ''operator.admin'',
      at_startup (core_spec ''sessions.create'' ''operator.write''),
      at_startup (core_spec ''sessions.send'' ''operator.write''),
      at_startup (core_spec ''sessions.abort'' ''operator.write''),
      core_spec ''sessions.patch'' ''operator.admin'',
      core_spec ''sessions.pluginPatch'' ''operator.admin'',
      core_spec ''sessions.cleanup'' ''operator.admin'',
      core_spec ''sessions.reset'' ''operator.admin'',
      core_spec ''sessions.delete'' ''operator.admin'',
      core_spec ''sessions.compact'' ''operator.admin'',
      core_spec ''last-heartbeat'' ''operator.read'',
      core_spec ''set-heartbeats'' ''operator.admin'',
      core_spec ''wake'' ''operator.write'',
      core_spec ''node.pair.request'' ''operator.pairing'',
      core_spec ''node.pair.list'' ''operator.pairing'',
      core_spec ''node.pair.approve'' ''operator.pairing'',
      core_spec ''node.pair.reject'' ''operator.pairing'',
      core_spec ''node.pair.remove'' ''operator.pairing'',
      core_spec ''node.pair.verify'' ''operator.pairing'',
      core_spec ''device.pair.list'' ''operator.pairing'',
      core_spec ''device.pair.approve'' ''operator.pairing'',
      core_spec ''device.pair.reject'' ''operator.pairing'',
      core_spec ''device.pair.remove'' ''operator.pairing'',
      core_spec ''device.token.rotate'' ''operator.pairing'',
      core_spec ''device.token.revoke'' ''operator.pairing'',
      core_spec ''node.rename'' ''operator.pairing'',
      core_spec ''node.list'' ''operator.read'',
      core_spec ''node.describe'' ''operator.read'',
      core_spec ''node.pluginSurface.refresh'' ''node'',
      core_spec ''node.pending.drain'' ''node'',
      core_spec ''node.pending.enqueue'' ''operator.write'',
      core_spec ''node.invoke'' ''operator.write'',
      core_spec ''node.pending.pull'' ''node'',
      core_spec ''node.pending.ack'' ''node'',
      core_spec ''node.invoke.result'' ''node'',
      core_spec ''node.event'' ''node'',
      core_spec ''cron.get'' ''operator.read'',
      core_spec ''cron.list'' ''operator.read'',
      core_spec ''cron.status'' ''operator.read'',
      core_spec ''cron.add'' ''operator.admin'',
      core_spec ''cron.update'' ''operator.admin'',
      core_spec ''cron.remove'' ''operator.admin'',
      core_spec ''cron.run'' ''operator.admin'',
      core_spec ''cron.runs'' ''operator.read'',
      core_spec ''gateway.identity.get'' ''operator.read'',
      core_spec ''gateway.restart.preflight'' ''operator.read'',
      control_plane_write (core_spec ''gateway.restart.request'' ''operator.admin''),
      core_spec ''system-presence'' ''operator.read'',
      core_spec ''system-event'' ''operator.admin'',
      core_spec ''message.action'' ''operator.write'',
      core_spec ''send'' ''operator.write'',
      core_spec ''agent'' ''operator.write'',
      core_spec ''agent.identity.get'' ''operator.read'',
      at_startup (core_spec ''agent.wait'' ''operator.write''),
      at_startup (core_spec ''chat.history'' ''operator.read''),
      core_spec ''chat.abort'' ''operator.write'',
      core_spec ''chat.send'' ''operator.write'',
      not_advertised (core_spec ''assistant.media.get'' ''operator.read''),
      not_advertised (core_spec ''sessions.get'' ''operator.read''),
      not_advertised (core_spec ''sessions.resolve'' ''operator.read''),
      not_advertised (core_spec ''sessions.usage'' ''operator.read''),
      not_advertised (core_spec ''sessions.usage.timeseries'' ''operator.read''),
      not_advertised (core_spec ''sessions.usage.logs'' ''operator.read''),
      not_advertised (core_spec ''poll'' ''operator.write''),
      not_advertised (core_spec ''sessions.steer'' ''operator.write''),
      not_advertised (core_spec ''push.test'' ''operator.write''),
      not_advertised (core_spec ''push.web.vapidPublicKey'' ''operator.write''),
      not_advertised (core_spec ''push.web.subscribe'' ''operator.write''),
      not_advertised (core_spec ''push.web.unsubscribe'' ''operator.write''),
      not_advertised (core_spec ''push.web.test'' ''operator.write''),
      not_advertised (core_spec ''config.openFile'' ''operator.admin''),
      not_advertised (core_spec ''connect'' ''operator.admin''),
      not_advertised (core_spec ''chat.inject'' ''operator.admin''),
      not_advertised (core_spec ''nativeHook.invoke'' ''operator.admin''),
      not_advertised (core_spec ''web.login.start'' ''operator.admin''),
      not_advertised (core_spec ''web.login.wait'' ''operator.admin'')
     ]"

text \<open>A map of the specifications by name; of two with one name the last stays.\<close>

definition CORE_GATEWAY_METHOD_SPEC_BY_NAME :: "(string, core_method_spec) jmap" where
  "CORE_GATEWAY_METHOD_SPEC_BY_NAME = fold (\<lambda>s. jm_set (csName s) s) CORE_GATEWAY_METHOD_SPECS []"

definition STARTUP_UNAVAILABLE_GATEWAY_METHODS :: "string list" where
  "STARTUP_UNAVAILABLE_GATEWAY_METHODS = map csName (filter csStartup CORE_GATEWAY_METHOD_SPECS)"

definition listCoreAdvertisedGatewayMethodNames :: "string list" where
  "listCoreAdvertisedGatewayMethodNames = map csName (filter csAdvertise CORE_GATEWAY_METHOD_SPECS)"

definition listCoreGatewayMethodNames :: "string list" where
  "listCoreGatewayMethodNames = map csName CORE_GATEWAY_METHOD_SPECS"

definition resolveCoreGatewayMethodScope :: "string \<Rightarrow> string option" where
  "resolveCoreGatewayMethodScope meth = map_option csScope (jm_get CORE_GATEWAY_METHOD_SPEC_BY_NAME meth)"

definition resolveCoreOperatorGatewayMethodScope :: "string \<Rightarrow> string option" where
  "resolveCoreOperatorGatewayMethodScope meth =
     (let scope = resolveCoreGatewayMethodScope meth
      in if scope = Some NODE_GATEWAY_METHOD_SCOPE \<or> scope = Some DYNAMIC_GATEWAY_METHOD_SCOPE then None else scope)"

definition isCoreNodeGatewayMethod :: "string \<Rightarrow> bool" where
  "isCoreNodeGatewayMethod meth \<longleftrightarrow> resolveCoreGatewayMethodScope meth = Some NODE_GATEWAY_METHOD_SCOPE"

definition isDynamicOperatorGatewayMethod :: "string \<Rightarrow> bool" where
  "isDynamicOperatorGatewayMethod meth \<longleftrightarrow> resolveCoreGatewayMethodScope meth = Some DYNAMIC_GATEWAY_METHOD_SCOPE"

definition isCoreGatewayMethodClassified :: "string \<Rightarrow> bool" where
  "isCoreGatewayMethodClassified meth \<longleftrightarrow> jm_has CORE_GATEWAY_METHOD_SPEC_BY_NAME meth"

section \<open>Descriptors\<close>

datatype method_owner = Owner_core string | Owner_plugin string | Owner_channel string | Owner_aux string

datatype gateway_handler = Core_handler string | Plugin_handler nat | Extra_handler nat

record method_descriptor =
  mdName :: string
  mdHandler :: gateway_handler
  mdScope :: string
  mdOwner :: method_owner
  mdStartup :: bool
  mdControlPlaneWrite :: bool
  mdAdvertise :: bool

datatype method_error =
  Descriptor_name_empty
| Descriptor_scope_missing string
| Method_already_registered string
| Handler_without_descriptor string
| Method_scope_missing string

definition core_descriptor :: "core_method_spec \<Rightarrow> gateway_handler \<Rightarrow> method_descriptor" where
  "core_descriptor spec h =
     \<lparr>mdName = csName spec, mdHandler = h, mdScope = csScope spec, mdOwner = Owner_core ''gateway'',
      mdStartup = csStartup spec, mdControlPlaneWrite = csControlPlaneWrite spec, mdAdvertise = csAdvertise spec\<rparr>"

definition createCoreGatewayMethodDescriptors ::
  "(string, gateway_handler) jmap \<Rightarrow> method_error + method_descriptor list" where
  "createCoreGatewayMethodDescriptors handlers =
     (case find (\<lambda>n. \<not> List.member (map csName CORE_GATEWAY_METHOD_SPECS) n) (map fst handlers) of
        Some n \<Rightarrow> Inl (Handler_without_descriptor n)
      | None \<Rightarrow> Inr (List.map_filter
          (\<lambda>spec. map_option (core_descriptor spec) (jm_get handlers (csName spec))) CORE_GATEWAY_METHOD_SPECS))"

definition RESERVED_ADMIN_GATEWAY_METHOD_PREFIXES :: "string list" where
  "RESERVED_ADMIN_GATEWAY_METHOD_PREFIXES = [''exec.approvals.'', ''config.'', ''wizard.'', ''update.'']"

definition isReservedAdminGatewayMethod :: "string \<Rightarrow> bool" where
  "isReservedAdminGatewayMethod meth \<longleftrightarrow> list_ex (js_starts_with meth) RESERVED_ADMIN_GATEWAY_METHOD_PREFIXES"

definition resolveReservedGatewayMethodScope :: "string \<Rightarrow> string option" where
  "resolveReservedGatewayMethodScope meth = (if \<not> isReservedAdminGatewayMethod meth then None else Some ADMIN_SCOPE)"

text \<open>The empty string and an absent scope are both \<open>falsy\<close>.\<close>

definition normalizePluginGatewayMethodScope :: "string \<Rightarrow> string option \<Rightarrow> string option \<times> bool" where
  "normalizePluginGatewayMethodScope meth scope =
     (let reservedScope = resolveReservedGatewayMethodScope meth
      in if reservedScope = None \<or> scope = None \<or> scope = Some [] \<or> scope = reservedScope then (scope, False)
         else (reservedScope, True))"

definition normalizeDescriptor :: "method_descriptor \<Rightarrow> method_error + method_descriptor" where
  "normalizeDescriptor input =
     (let name = js_trim (mdName input);
          normalizedScope =
            (if mdScope input = NODE_GATEWAY_METHOD_SCOPE \<or> mdScope input = DYNAMIC_GATEWAY_METHOD_SCOPE
             then mdScope input
             else (case mdOwner input of
                     Owner_plugin _ \<Rightarrow> js_nullish (fst (normalizePluginGatewayMethodScope name (Some (mdScope input)))) []
                   | _ \<Rightarrow> mdScope input))
      in if name = [] then Inl Descriptor_name_empty
         else if normalizedScope = [] then Inl (Descriptor_scope_missing name)
         else Inr (input\<lparr>mdName := name, mdScope := normalizedScope\<rparr>))"

fun sequence_results :: "('e + 'a) list \<Rightarrow> 'e + 'a list" where
  "sequence_results [] = Inr []"
| "sequence_results (r # rs) =
     (case r of Inl e \<Rightarrow> Inl e
      | Inr x \<Rightarrow> (case sequence_results rs of Inl e \<Rightarrow> Inl e | Inr xs \<Rightarrow> Inr (x # xs)))"

fun index_descriptors ::
  "method_descriptor list \<Rightarrow> (string, method_descriptor) jmap \<Rightarrow> method_error + (string, method_descriptor) jmap" where
  "index_descriptors [] byName = Inr byName"
| "index_descriptors (d # ds) byName =
     (if jm_has byName (mdName d) then Inl (Method_already_registered (mdName d))
      else index_descriptors ds (jm_set (mdName d) d byName))"

record method_registry =
  mrDescriptors :: "method_descriptor list"
  mrByName :: "(string, method_descriptor) jmap"

definition createGatewayMethodRegistry :: "method_descriptor list \<Rightarrow> method_error + method_registry" where
  "createGatewayMethodRegistry inputs =
     (case sequence_results (map normalizeDescriptor inputs) of
        Inl e \<Rightarrow> Inl e
      | Inr descriptors \<Rightarrow>
          (case index_descriptors descriptors [] of
             Inl e \<Rightarrow> Inl e
           | Inr byName \<Rightarrow> Inr \<lparr>mrDescriptors = descriptors, mrByName = byName\<rparr>))"

definition getHandler :: "method_registry \<Rightarrow> string \<Rightarrow> gateway_handler option" where
  "getHandler r name = map_option mdHandler (jm_get (mrByName r) name)"

definition listMethods :: "method_registry \<Rightarrow> string list" where
  "listMethods r = map mdName (mrDescriptors r)"

definition listAdvertisedMethods :: "method_registry \<Rightarrow> string list" where
  "listAdvertisedMethods r = map mdName (filter mdAdvertise (mrDescriptors r))"

definition getScope :: "method_registry \<Rightarrow> string \<Rightarrow> string option" where
  "getScope r name = map_option mdScope (jm_get (mrByName r) name)"

definition isStartupUnavailable :: "method_registry \<Rightarrow> string \<Rightarrow> bool" where
  "isStartupUnavailable r name \<longleftrightarrow> map_option mdStartup (jm_get (mrByName r) name) = Some True"

definition isControlPlaneWrite :: "method_registry \<Rightarrow> string \<Rightarrow> bool" where
  "isControlPlaneWrite r name \<longleftrightarrow> map_option mdControlPlaneWrite (jm_get (mrByName r) name) = Some True"

definition createGatewayMethodDescriptorsFromHandlers ::
  "(string, gateway_handler) jmap \<Rightarrow> method_owner \<Rightarrow> string option \<Rightarrow> (string, string) jmap
   \<Rightarrow> method_error + method_descriptor list" where
  "createGatewayMethodDescriptorsFromHandlers handlers owner defaultScope scopes =
     sequence_results (map (\<lambda>(name, h).
       (case opt_else (jm_get scopes name) defaultScope of
          None \<Rightarrow> Inl (Method_scope_missing name)
        | Some scope \<Rightarrow>
            if scope = [] then Inl (Method_scope_missing name)
            else Inr \<lparr>mdName = name, mdHandler = h, mdScope = scope, mdOwner = owner, mdStartup = False,
                      mdControlPlaneWrite = False, mdAdvertise = True\<rparr>)) handlers)"

definition createPluginGatewayMethodDescriptor ::
  "string \<Rightarrow> string \<Rightarrow> gateway_handler \<Rightarrow> string option \<Rightarrow> method_descriptor" where
  "createPluginGatewayMethodDescriptor pluginId name h scope =
     \<lparr>mdName = name, mdHandler = h, mdScope = js_nullish (fst (normalizePluginGatewayMethodScope name scope)) ADMIN_SCOPE,
      mdOwner = Owner_plugin pluginId, mdStartup = False, mdControlPlaneWrite = False, mdAdvertise = True\<rparr>"

section \<open>Methods of plugins\<close>

record session_action =
  saPluginId :: string
  saActionId :: string
  saRequiredScopes :: "string list option"

record plugin_methods =
  pgHandlers :: "(string, gateway_handler) jmap"
  pgDescriptors :: "method_descriptor list"
  pgSessionActions :: "session_action list"

text \<open>Registering a method; the errors and warnings it reports are the names it reports them for.\<close>

definition registerGatewayMethod ::
  "string list \<Rightarrow> string \<Rightarrow> string \<Rightarrow> gateway_handler \<Rightarrow> string option \<Rightarrow> plugin_methods \<Rightarrow> string list \<times> plugin_methods" where
  "registerGatewayMethod coreGatewayMethods pluginId meth h scope st =
     (let trimmed = js_trim meth
      in if trimmed = [] then ([], st)
         else if List.member coreGatewayMethods trimmed \<or> jm_has (pgHandlers st) trimmed
         then ([''gateway method already registered: '' @ trimmed], st)
         else (let (normalizedScope, coerced) = normalizePluginGatewayMethodScope trimmed scope
               in (if coerced
                   then [''gateway method scope coerced to operator.admin for reserved core namespace: '' @ trimmed]
                   else [],
                   st\<lparr>pgHandlers := jm_set trimmed h (pgHandlers st),
                      pgDescriptors := pgDescriptors st @
                        [createPluginGatewayMethodDescriptor pluginId trimmed h normalizedScope]\<rparr>)))"

definition createPluginGatewayMethodDescriptors :: "plugin_methods \<Rightarrow> method_error + method_descriptor list" where
  "createPluginGatewayMethodDescriptors registry =
     (if length (pgDescriptors registry) > 0 then Inr (pgDescriptors registry)
      else createGatewayMethodDescriptorsFromHandlers (pgHandlers registry) (Owner_plugin ''unknown'') (Some ADMIN_SCOPE) [])"

section \<open>Authorisation\<close>

record action_params =
  apPluginId :: "string option"
  apActionId :: "string option"

definition resolveScopedMethod :: "plugin_methods option \<Rightarrow> string \<Rightarrow> string option" where
  "resolveScopedMethod plugins meth =
     (case resolveCoreOperatorGatewayMethodScope meth of
        Some scope \<Rightarrow> Some scope
      | None \<Rightarrow>
          (case resolveReservedGatewayMethodScope meth of
             Some scope \<Rightarrow> Some scope
           | None \<Rightarrow>
               (let pluginScope = map_option mdScope
                      (Option.bind plugins (\<lambda>p. find (\<lambda>d. mdName d = meth) (pgDescriptors p)))
                in if pluginScope = Some NODE_GATEWAY_METHOD_SCOPE \<or> pluginScope = Some DYNAMIC_GATEWAY_METHOD_SCOPE
                   then None else pluginScope)))"

definition isApprovalMethod :: "plugin_methods option \<Rightarrow> string \<Rightarrow> bool" where
  "isApprovalMethod plugins meth \<longleftrightarrow> resolveScopedMethod plugins meth = Some APPROVALS_SCOPE"
definition isPairingMethod :: "plugin_methods option \<Rightarrow> string \<Rightarrow> bool" where
  "isPairingMethod plugins meth \<longleftrightarrow> resolveScopedMethod plugins meth = Some PAIRING_SCOPE"
definition isReadMethod :: "plugin_methods option \<Rightarrow> string \<Rightarrow> bool" where
  "isReadMethod plugins meth \<longleftrightarrow> resolveScopedMethod plugins meth = Some READ_SCOPE"
definition isWriteMethod :: "plugin_methods option \<Rightarrow> string \<Rightarrow> bool" where
  "isWriteMethod plugins meth \<longleftrightarrow> resolveScopedMethod plugins meth = Some WRITE_SCOPE"
definition isAdminOnlyMethod :: "plugin_methods option \<Rightarrow> string \<Rightarrow> bool" where
  "isAdminOnlyMethod plugins meth \<longleftrightarrow> resolveScopedMethod plugins meth = Some ADMIN_SCOPE"

definition action_ids :: "action_params option \<Rightarrow> (string \<times> string) option" where
  "action_ids params =
     (case params of
        None \<Rightarrow> None
      | Some p \<Rightarrow>
          (case (normalizeOptionalString (apPluginId p), normalizeOptionalString (apActionId p)) of
             (Some pluginId, Some actionId) \<Rightarrow> Some (pluginId, actionId)
           | _ \<Rightarrow> None))"

definition resolveSessionActionRegisteredScopes :: "plugin_methods option \<Rightarrow> action_params option \<Rightarrow> string list option" where
  "resolveSessionActionRegisteredScopes plugins params =
     (case action_ids params of
        None \<Rightarrow> None
      | Some (pluginId, actionId) \<Rightarrow>
          (case Option.bind plugins (\<lambda>p. find (\<lambda>e. saPluginId e = pluginId \<and> saActionId e = actionId) (pgSessionActions p)) of
             None \<Rightarrow> None
           | Some registration \<Rightarrow>
               (case saRequiredScopes registration of
                  Some (s # ss) \<Rightarrow> Some (s # ss)
                | _ \<Rightarrow> Some [WRITE_SCOPE])))"

definition resolveSessionActionLeastPrivilegeScopes :: "plugin_methods option \<Rightarrow> action_params option \<Rightarrow> string list" where
  "resolveSessionActionLeastPrivilegeScopes plugins params =
     (case resolveSessionActionRegisteredScopes plugins params of
        Some registeredScopes \<Rightarrow> registeredScopes
      | None \<Rightarrow> if action_ids params \<noteq> None then CLI_DEFAULT_OPERATOR_SCOPES else [WRITE_SCOPE])"

definition resolveDynamicLeastPrivilegeOperatorScopesForMethod ::
  "plugin_methods option \<Rightarrow> string \<Rightarrow> action_params option \<Rightarrow> string list" where
  "resolveDynamicLeastPrivilegeOperatorScopesForMethod plugins meth params =
     (if meth = ''plugins.sessionAction'' then resolveSessionActionLeastPrivilegeScopes plugins params
      else [WRITE_SCOPE])"

definition resolveLeastPrivilegeOperatorScopesForMethod ::
  "plugin_methods option \<Rightarrow> string \<Rightarrow> action_params option \<Rightarrow> string list" where
  "resolveLeastPrivilegeOperatorScopesForMethod plugins meth params =
     (if isDynamicOperatorGatewayMethod meth
      then resolveDynamicLeastPrivilegeOperatorScopesForMethod plugins meth params
      else (case resolveScopedMethod plugins meth of
              Some requiredScope \<Rightarrow> if requiredScope \<noteq> [] then [requiredScope] else []
            | None \<Rightarrow> []))"

text \<open>\<open>None\<close> is allowed, \<open>Some s\<close> the scope that is missing.\<close>

definition authorizeOperatorScopesForMethod ::
  "plugin_methods option \<Rightarrow> string \<Rightarrow> string list \<Rightarrow> action_params option \<Rightarrow> string option" where
  "authorizeOperatorScopesForMethod plugins meth scopes params =
     (if List.member scopes ADMIN_SCOPE then None
      else if isDynamicOperatorGatewayMethod meth
      then (let registeredScopes = resolveSessionActionRegisteredScopes plugins params
            in if registeredScopes = None \<and> params \<noteq> None \<and> action_ids params = None
               then (if list_ex isOperatorScope scopes then None else Some WRITE_SCOPE)
               else (case find (\<lambda>scope. \<not> List.member scopes scope
                            \<and> \<not> (scope = READ_SCOPE \<and> List.member scopes WRITE_SCOPE))
                          (js_nullish registeredScopes [WRITE_SCOPE]) of
                       Some missingScope \<Rightarrow> if missingScope \<noteq> [] then Some missingScope else None
                     | None \<Rightarrow> None))
      else (let requiredScope = js_nullish (resolveScopedMethod plugins meth) ADMIN_SCOPE
            in if requiredScope = READ_SCOPE
               then (if List.member scopes READ_SCOPE \<or> List.member scopes WRITE_SCOPE then None else Some READ_SCOPE)
               else if List.member scopes requiredScope then None
               else Some requiredScope))"

definition isGatewayMethodClassified :: "plugin_methods option \<Rightarrow> string \<Rightarrow> bool" where
  "isGatewayMethodClassified plugins meth \<longleftrightarrow>
     isCoreNodeGatewayMethod meth \<or> isDynamicOperatorGatewayMethod meth
     \<or> isCoreGatewayMethodClassified meth \<or> resolveScopedMethod plugins meth \<noteq> None"

datatype gateway_role = Role_operator | Role_node

definition parseGatewayRole :: "string \<Rightarrow> gateway_role option" where
  "parseGatewayRole roleRaw =
     (if roleRaw = ''operator'' then Some Role_operator else if roleRaw = ''node'' then Some Role_node else None)"

definition roleCanSkipDeviceIdentity :: "gateway_role \<Rightarrow> bool \<Rightarrow> bool" where
  "roleCanSkipDeviceIdentity role sharedAuthOk \<longleftrightarrow> role = Role_operator \<and> sharedAuthOk"

definition isRoleAuthorizedForMethod :: "gateway_role \<Rightarrow> string \<Rightarrow> bool" where
  "isRoleAuthorizedForMethod role meth \<longleftrightarrow>
     (if isCoreNodeGatewayMethod meth then role = Role_node else role = Role_operator)"

end
