(* ===== verification/Gateway_Dispatch.thy ===== *)
theory Gateway_Dispatch
  imports Gateway_Methods
begin

text \<open>
  A request to the gateway, \<open>src/gateway/server-methods.ts\<close>: the handlers of the core, the registry
  they form with the methods of plugins and of the caller, the authorisation of a client, and
  \<open>handleGatewayRequest\<close>, which answers a request or hands it to a handler. The budgets of the
  control plane are the state; what a handler does is outside. A response that is an error has
  its details as a list of names and values.
\<close>

section \<open>Handlers\<close>

text \<open>The methods whose handlers are loaded lazily, each from one of the modules of \<open>server-methods/\<close>.\<close>

definition core_handler_methods :: "string list" where
  "core_handler_methods =
     [
      ''connect'', ''logs.tail'', ''voicewake.get'', ''voicewake.set'', ''voicewake.routing.get'',
      ''voicewake.routing.set'', ''health'', ''status'', ''channels.status'', ''channels.start'',
      ''channels.stop'', ''channels.logout'', ''chat.history'', ''chat.abort'', ''chat.send'',
      ''chat.inject'', ''commands.list'', ''wake'', ''cron.list'', ''cron.status'', ''cron.get'',
      ''cron.add'', ''cron.update'', ''cron.remove'', ''cron.run'', ''cron.runs'', ''device.pair.list'',
      ''device.pair.approve'', ''device.pair.reject'', ''device.pair.remove'', ''device.token.rotate'',
      ''device.token.revoke'', ''diagnostics.stability'', ''doctor.memory.status'',
      ''doctor.memory.dreamDiary'', ''doctor.memory.backfillDreamDiary'', ''doctor.memory.resetDreamDiary'',
      ''doctor.memory.resetGroundedShortTerm'', ''doctor.memory.repairDreamingArtifacts'',
      ''doctor.memory.dedupeDreamDiary'', ''doctor.memory.remHarness'', ''environments.list'',
      ''environments.status'', ''exec.approvals.get'', ''exec.approvals.set'', ''exec.approvals.node.get'',
      ''exec.approvals.node.set'', ''web.login.start'', ''web.login.wait'', ''models.list'',
      ''models.authLogout'', ''models.authStatus'', ''nativeHook.invoke'', ''plugins.uiDescriptors'',
      ''plugins.sessionAction'', ''config.get'', ''config.schema'', ''config.schema.lookup'', ''config.set'',
      ''config.patch'', ''config.apply'', ''config.openFile'', ''wizard.start'', ''wizard.next'',
      ''wizard.cancel'', ''wizard.status'', ''talk.session.create'', ''talk.session.join'',
      ''talk.session.appendAudio'', ''talk.session.startTurn'', ''talk.session.endTurn'',
      ''talk.session.cancelTurn'', ''talk.session.cancelOutput'', ''talk.session.submitToolResult'',
      ''talk.session.steer'', ''talk.session.close'', ''talk.client.create'', ''talk.client.toolCall'',
      ''talk.client.steer'', ''talk.catalog'', ''talk.config'', ''talk.speak'', ''talk.mode'', ''tasks.list'',
      ''tasks.get'', ''tasks.cancel'', ''tools.catalog'', ''tools.effective'', ''tools.invoke'',
      ''tts.status'', ''tts.enable'', ''tts.disable'', ''tts.convert'', ''tts.setProvider'', ''tts.personas'',
      ''tts.setPersona'', ''tts.providers'', ''skills.upload.begin'', ''skills.upload.chunk'',
      ''skills.upload.commit'', ''skills.status'', ''skills.bins'', ''skills.search'', ''skills.detail'',
      ''skills.install'', ''skills.update'', ''sessions.list'', ''sessions.cleanup'', ''sessions.subscribe'',
      ''sessions.unsubscribe'', ''sessions.messages.subscribe'', ''sessions.messages.unsubscribe'',
      ''sessions.preview'', ''sessions.describe'', ''sessions.resolve'', ''sessions.compaction.list'',
      ''sessions.compaction.get'', ''sessions.create'', ''sessions.compaction.branch'',
      ''sessions.compaction.restore'', ''sessions.send'', ''sessions.steer'', ''sessions.abort'',
      ''sessions.patch'', ''sessions.pluginPatch'', ''sessions.reset'', ''sessions.delete'', ''sessions.get'',
      ''sessions.compact'', ''gateway.identity.get'', ''last-heartbeat'', ''set-heartbeats'',
      ''system-presence'', ''system-event'', ''update.status'', ''update.run'', ''node.pair.request'',
      ''node.pair.list'', ''node.pair.approve'', ''node.pair.reject'', ''node.pair.remove'',
      ''node.pair.verify'', ''node.rename'', ''node.list'', ''node.describe'', ''node.pluginSurface.refresh'',
      ''node.pending.pull'', ''node.pending.ack'', ''node.invoke'', ''node.invoke.result'', ''node.event'',
      ''node.pending.drain'', ''node.pending.enqueue'', ''push.test'', ''push.web.vapidPublicKey'',
      ''push.web.subscribe'', ''push.web.unsubscribe'', ''push.web.test'', ''gateway.restart.request'',
      ''gateway.restart.preflight'', ''message.action'', ''send'', ''poll'', ''usage.status'', ''usage.cost'',
      ''sessions.usage'', ''sessions.usage.timeseries'', ''sessions.usage.logs'', ''agent'',
      ''agent.identity.get'', ''agent.wait'', ''agents.list'', ''agents.create'', ''agents.update'',
      ''agents.delete'', ''agents.files.list'', ''agents.files.get'', ''agents.files.set'',
      ''artifacts.list'', ''artifacts.get'', ''artifacts.download''
     ]"

definition coreGatewayHandlers :: "(string, gateway_handler) jmap" where
  "coreGatewayHandlers = map (\<lambda>n. (n, Core_handler n)) core_handler_methods"

text \<open>
  A handler the caller brings replaces the one of a core method; it is an auxiliary method when the
  core has none of its name. Methods of plugins come first in either case.
\<close>

definition pluginMethodNames :: "plugin_methods option \<Rightarrow> string list" where
  "pluginMethodNames activePluginRegistry =
     (case activePluginRegistry of Some p \<Rightarrow> map fst (pgHandlers p) | None \<Rightarrow> [])"

definition coreDescriptorHandlers :: "string list \<Rightarrow> (string, gateway_handler) jmap \<Rightarrow> (string, gateway_handler) jmap" where
  "coreDescriptorHandlers pluginNames extraHandlers =
     fold (\<lambda>(n, h) m. if \<not> List.member pluginNames n \<and> isCoreGatewayMethodClassified n then jm_set n h m else m)
       extraHandlers coreGatewayHandlers"

definition with_extra_handler :: "string list \<Rightarrow> (string, gateway_handler) jmap \<Rightarrow> method_descriptor \<Rightarrow> method_descriptor" where
  "with_extra_handler pluginNames extraHandlers d =
     (case jm_get extraHandlers (mdName d) of
        Some extraHandler \<Rightarrow> if \<not> List.member pluginNames (mdName d) then d\<lparr>mdHandler := extraHandler\<rparr> else d
      | None \<Rightarrow> d)"

definition auxHandlers :: "string list \<Rightarrow> method_descriptor list \<Rightarrow> (string, gateway_handler) jmap \<Rightarrow> (string, gateway_handler) jmap" where
  "auxHandlers pluginNames coreDescriptors extraHandlers =
     filter (\<lambda>(n, _). \<not> List.member pluginNames n \<and> \<not> List.member (map mdName coreDescriptors) n) extraHandlers"

definition createRequestGatewayMethodRegistry ::
  "plugin_methods option \<Rightarrow> (string, gateway_handler) jmap \<Rightarrow> method_error + method_registry" where
  "createRequestGatewayMethodRegistry activePluginRegistry extraHandlers =
     (let pluginNames = pluginMethodNames activePluginRegistry
      in case createCoreGatewayMethodDescriptors (coreDescriptorHandlers pluginNames extraHandlers) of
           Inl e \<Rightarrow> Inl e
         | Inr coreDescriptors0 \<Rightarrow>
             (let coreDescriptors = map (with_extra_handler pluginNames extraHandlers) coreDescriptors0
              in case (case activePluginRegistry of Some p \<Rightarrow> createPluginGatewayMethodDescriptors p | None \<Rightarrow> Inr []) of
                   Inl e \<Rightarrow> Inl e
                 | Inr pluginDescriptors \<Rightarrow>
                     (case createGatewayMethodDescriptorsFromHandlers (auxHandlers pluginNames coreDescriptors extraHandlers)
                             (Owner_aux ''gateway-extra'') (Some ADMIN_SCOPE) [] of
                        Inl e \<Rightarrow> Inl e
                      | Inr auxDescriptors \<Rightarrow>
                          createGatewayMethodRegistry (coreDescriptors @ pluginDescriptors @ auxDescriptors))))"

section \<open>Requests\<close>

record connect_params =
  cpRole :: "string option"
  cpScopes :: "string list option"

record gateway_connection = gateway_client +
  gnConnect :: "connect_params option"

record error_shape =
  esCode :: string
  esMessage :: string
  esRetryable :: "bool option"
  esRetryAfterMs :: "int option"
  esDetails :: "(string \<times> string) list"

definition errorShape :: "string \<Rightarrow> string \<Rightarrow> error_shape" where
  "errorShape code message =
     \<lparr>esCode = code, esMessage = message, esRetryable = None, esRetryAfterMs = None, esDetails = []\<rparr>"

definition authorizeGatewayMethod ::
  "plugin_methods option \<Rightarrow> string \<Rightarrow> gateway_connection option \<Rightarrow> action_params option \<Rightarrow> error_shape option" where
  "authorizeGatewayMethod plugins meth client params =
     (case Option.bind client gnConnect of
        None \<Rightarrow> None
      | Some connect \<Rightarrow>
          if meth = ''health'' then None
          else (let roleRaw = js_nullish (cpRole connect) ''operator'';
                    scopes = js_nullish (cpScopes connect) []
                in case parseGatewayRole roleRaw of
                     None \<Rightarrow> Some (errorShape ''INVALID_REQUEST'' (''unauthorized role: '' @ roleRaw))
                   | Some role \<Rightarrow>
                       if \<not> isRoleAuthorizedForMethod role meth
                       then Some (errorShape ''INVALID_REQUEST'' (''unauthorized role: '' @ roleRaw))
                       else if role = Role_node then None
                       else if List.member scopes ADMIN_SCOPE then None
                       else (case authorizeOperatorScopesForMethod plugins meth scopes params of
                               Some missingScope \<Rightarrow> Some (errorShape ''INVALID_REQUEST'' (''missing scope: '' @ missingScope))
                             | None \<Rightarrow> None)))"

definition GATEWAY_STARTUP_RETRY_AFTER_MS :: int where "GATEWAY_STARTUP_RETRY_AFTER_MS = 500"

datatype dispatch = Responded error_shape | Invoked gateway_handler

definition handleGatewayRequest ::
  "plugin_methods option \<Rightarrow> method_registry \<Rightarrow> string list option \<Rightarrow> int \<Rightarrow> string \<Rightarrow> gateway_connection option
   \<Rightarrow> action_params option \<Rightarrow> (string, bucket) jmap \<Rightarrow> dispatch \<times> (string, bucket) jmap" where
  "handleGatewayRequest plugins methodRegistry unavailableGatewayMethods now meth client params buckets =
     (case authorizeGatewayMethod plugins meth client params of
        Some authError \<Rightarrow> (Responded authError, buckets)
      | None \<Rightarrow>
          if List.member (js_nullish unavailableGatewayMethods []) meth
          then (Responded \<lparr>esCode = ''UNAVAILABLE'', esMessage = meth @ '' unavailable during gateway startup'',
                  esRetryable = Some True, esRetryAfterMs = Some GATEWAY_STARTUP_RETRY_AFTER_MS,
                  esDetails = [(''reason'', ''startup-sidecars''), (''method'', meth)]\<rparr>, buckets)
          else (let (budget, _, buckets') =
                      (if isControlPlaneWrite methodRegistry meth
                       then consumeControlPlaneWriteBudget (map_option gateway_client.truncate client) now buckets
                       else (\<lparr>crAllowed = True, crRetryAfterMs = 0, crRemaining = 0\<rparr>, [], buckets))
                in if \<not> crAllowed budget
                   then (Responded \<lparr>esCode = ''UNAVAILABLE'',
                           esMessage = ''rate limit exceeded for '' @ meth @ ''; retry after ''
                             @ js_int_string ((crRetryAfterMs budget + 999) div 1000) @ ''s'',
                           esRetryable = Some True, esRetryAfterMs = Some (crRetryAfterMs budget),
                           esDetails = [(''method'', meth), (''limit'', ''3 per 60s'')]\<rparr>, buckets')
                   else (case getHandler methodRegistry meth of
                           None \<Rightarrow> (Responded (errorShape ''INVALID_REQUEST'' (''unknown method: '' @ meth)), buckets')
                         | Some h \<Rightarrow> (Invoked h, buckets'))))"

text \<open>A request that brings no registry is dispatched through the one of the moment.\<close>

definition dispatch_request ::
  "plugin_methods option \<Rightarrow> (string, gateway_handler) jmap \<Rightarrow> method_registry option \<Rightarrow> string list option \<Rightarrow> int \<Rightarrow> string
   \<Rightarrow> gateway_connection option \<Rightarrow> action_params option \<Rightarrow> (string, bucket) jmap \<Rightarrow> method_error + dispatch \<times> (string, bucket) jmap" where
  "dispatch_request plugins extraHandlers methodRegistry unavailable now meth client params buckets =
     (case (case methodRegistry of Some r \<Rightarrow> Inr r | None \<Rightarrow> createRequestGatewayMethodRegistry plugins extraHandlers) of
        Inl e \<Rightarrow> Inl e
      | Inr r \<Rightarrow> Inr (handleGatewayRequest plugins r unavailable now meth client params buckets))"

end
