(* ===== verification/Gateway_Dispatch_Props.thy ===== *)
theory Gateway_Dispatch_Props
  imports Gateway_Dispatch
begin

text \<open>
  The registry of a request always exists, and a request that reaches a handler is covered by the
  scope the registry shows for its method: the table of the core, the normalisation of the scopes
  of plugins and the authorisation, which reads neither from the registry, agree.
\<close>

section \<open>The table of the core\<close>

text \<open>The names differ because their hashes do; the handlers are given by their places in the table.\<close>

definition name_hash :: "string \<Rightarrow> int" where
  "name_hash s = fold (\<lambda>c n. (n * 7 + of_char c) mod 8192) s 0"

lemma name_hashes: "map name_hash listCoreGatewayMethodNames =
    [
      6484, 2679, 3168, 4766, 6112, 337, 457, 3431, 5125, 2644, 6807, 5464, 4260, 688, 504, 6602, 3103, 3298,
      2157, 6999, 2378, 5446, 1853, 5024, 4344, 469, 1058, 1646, 930, 7340, 4413, 5699, 6387, 6975, 4437,
      5025, 1088, 1444, 4873, 679, 7966, 7062, 6727, 6681, 1628, 4042, 4558, 1223, 1382, 861, 589, 7711, 4772,
      4373, 7007, 5800, 4718, 868, 2882, 4189, 6070, 6665, 6701, 4175, 4679, 5054, 6184, 2269, 6100, 5186,
      4982, 22, 3414, 2756, 2811, 5558, 2846, 1834, 1124, 5480, 694, 6028, 305, 2411, 4357, 5015, 5603, 2043,
      7025, 3613, 7926, 4444, 3829, 5064, 4024, 8172, 5784, 95, 7437, 2031, 3158, 390, 978, 1180, 1257, 166,
      754, 5111, 4641, 3864, 2121, 3264, 5063, 6676, 30, 886, 4986, 8126, 1277, 7265, 6871, 1711, 2996, 6331,
      7862, 5852, 6618, 2645, 3338, 5460, 199, 6422, 733, 1495, 3132, 6153, 7778, 7089, 2403, 4040, 1976,
      3851, 1330, 1378, 5791, 5251, 6741, 5949, 6164, 4120, 3222, 4831, 4878, 2494, 3094, 3706, 2177, 3217,
      3900, 3139, 5704, 5504, 2306, 7902, 4257, 204, 7245, 4304, 3725, 7847, 4030, 326, 6154, 4822, 2228,
      6293, 4179, 2600, 242, 189, 3759, 6528, 5398, 7052, 6556, 7587, 7160, 8002, 522, 7383, 6372, 4459, 3460]"
  by code_simp

lemma distinct_core_names: "distinct listCoreGatewayMethodNames"
proof -
  have "distinct (map name_hash listCoreGatewayMethodNames)" unfolding name_hashes by simp
  then show ?thesis using distinct_map by blast
qed

lemma core_handler_places: "core_handler_methods = map ((!) listCoreGatewayMethodNames)
    [
      188, 10, 101, 102, 105, 106, 0, 15, 11, 12, 13, 14, 171, 172, 173, 189, 68, 129, 154, 155, 153, 156,
      157, 158, 159, 160, 136, 137, 138, 139, 140, 141, 1, 2, 3, 4, 5, 6, 7, 8, 9, 78, 79, 32, 33, 34, 35,
      191, 192, 69, 71, 70, 190, 45, 46, 26, 30, 31, 27, 29, 28, 187, 47, 48, 49, 50, 56, 57, 58, 59, 60, 61,
      62, 63, 64, 65, 53, 54, 55, 51, 52, 66, 67, 75, 76, 77, 72, 73, 74, 18, 21, 22, 23, 24, 20, 25, 19, 94,
      95, 96, 90, 93, 91, 92, 97, 98, 107, 123, 108, 109, 110, 111, 112, 113, 176, 114, 115, 118, 116, 117,
      119, 181, 120, 121, 122, 124, 125, 175, 126, 161, 127, 128, 164, 165, 99, 100, 130, 131, 132, 133, 134,
      135, 142, 143, 144, 145, 149, 150, 148, 151, 152, 146, 147, 182, 183, 184, 185, 186, 163, 162, 166, 167,
      180, 16, 17, 177, 178, 179, 168, 169, 170, 80, 81, 82, 83, 84, 85, 86, 87, 88, 89]"
  by code_simp

lemma core_handlers_specified: "set core_handler_methods \<subseteq> set listCoreGatewayMethodNames"
proof -
  have "length listCoreGatewayMethodNames = 193" by code_simp
  then show ?thesis unfolding core_handler_places by simp
qed

lemma core_names_trimmed: "\<forall>n \<in> set listCoreGatewayMethodNames. js_trim n = n \<and> n \<noteq> []"
proof -
  have "list_all (\<lambda>n. js_trim n = n \<and> n \<noteq> []) listCoreGatewayMethodNames" by code_simp
  then show ?thesis by (simp add: list_all_iff)
qed

lemma core_scopes_known: "\<forall>s \<in> set CORE_GATEWAY_METHOD_SPECS.
    isOperatorScope (csScope s) \<or> csScope s = NODE_GATEWAY_METHOD_SCOPE \<or> csScope s = DYNAMIC_GATEWAY_METHOD_SCOPE"
proof -
  have "list_all (\<lambda>s. isOperatorScope (csScope s) \<or> csScope s = NODE_GATEWAY_METHOD_SCOPE \<or> csScope s = DYNAMIC_GATEWAY_METHOD_SCOPE)
      CORE_GATEWAY_METHOD_SPECS" by code_simp
  then show ?thesis by (simp add: list_all_iff)
qed

text \<open>The map of the specifications holds exactly the table.\<close>

lemma fold_set_get:
  assumes "distinct (map f xs)" "\<forall>x \<in> set xs. jm_get m (f x) = None"
  shows "jm_get (fold (\<lambda>x. jm_set (f x) x) xs m) k = Some v \<longleftrightarrow> jm_get m k = Some v \<or> v \<in> set xs \<and> f v = k"
  using assms
proof (induction xs arbitrary: m)
  case (Cons x xs)
  have "\<forall>y \<in> set xs. jm_get (jm_set (f x) x m) (f y) = None" using Cons.prems by (auto simp: jm_get_set rev_image_eqI)
  then show ?case using Cons by (auto simp: jm_get_set)
qed simp

lemma spec_by_name:
  "jm_get CORE_GATEWAY_METHOD_SPEC_BY_NAME n = Some s \<longleftrightarrow> s \<in> set CORE_GATEWAY_METHOD_SPECS \<and> csName s = n"
  unfolding CORE_GATEWAY_METHOD_SPEC_BY_NAME_def
  by (subst fold_set_get) (use distinct_core_names in \<open>simp_all add: listCoreGatewayMethodNames_def\<close>)

lemma classified_iff: "isCoreGatewayMethodClassified n \<longleftrightarrow> n \<in> set listCoreGatewayMethodNames"
  by (auto simp: isCoreGatewayMethodClassified_def jm_has_get listCoreGatewayMethodNames_def spec_by_name image_iff)

lemma core_scope_iff: "resolveCoreGatewayMethodScope n = Some sc \<longleftrightarrow>
    (\<exists>s \<in> set CORE_GATEWAY_METHOD_SPECS. csName s = n \<and> csScope s = sc)"
  by (auto simp: resolveCoreGatewayMethodScope_def spec_by_name)

lemma core_scope_None: "resolveCoreGatewayMethodScope n = None \<longleftrightarrow> n \<notin> set listCoreGatewayMethodNames"
  using classified_iff[of n] by (cases "jm_get CORE_GATEWAY_METHOD_SPEC_BY_NAME n")
    (auto simp: resolveCoreGatewayMethodScope_def isCoreGatewayMethodClassified_def jm_has_get)

section \<open>Registries\<close>

lemma sequence_results_Inr: "sequence_results rs = Inr xs \<longleftrightarrow> rs = map Inr xs"
proof (induction rs arbitrary: xs)
  case (Cons r rs)
  show ?case
  proof (cases "sequence_results rs")
    case (Inl e)
    then have "rs \<noteq> map Inr ys" for ys using Cons.IH[of ys] by simp
    then show ?thesis using Inl by (auto split: sum.split)
  next
    case (Inr ys)
    then have "rs = map Inr ys" using Cons.IH by simp
    moreover have "map Inr ys = map Inr zs \<longleftrightarrow> ys = zs" for zs by (simp add: inj_map_eq_map inj_on_def)
    ultimately show ?thesis using Inr by (auto split: sum.split)
  qed
qed auto

lemma sequence_results_map: "(\<And>x. x \<in> set xs \<Longrightarrow> f x = Inr (g x)) \<Longrightarrow> sequence_results (map f xs) = Inr (map g xs)"
  by (simp add: sequence_results_Inr)

lemma index_descriptors_ok:
  assumes "distinct (map mdName ds)" "\<forall>d \<in> set ds. jm_get m (mdName d) = None"
  shows "\<exists>m'. index_descriptors ds m = Inr m' \<and>
    (\<forall>n d. jm_get m' n = Some d \<longleftrightarrow> jm_get m n = Some d \<or> d \<in> set ds \<and> mdName d = n)"
  using assms
proof (induction ds arbitrary: m)
  case (Cons d ds)
  have "\<forall>d' \<in> set ds. jm_get (jm_set (mdName d) d m) (mdName d') = None"
    using Cons.prems by (auto simp: jm_get_set rev_image_eqI)
  then obtain m' where m': "index_descriptors ds (jm_set (mdName d) d m) = Inr m'"
    "\<forall>n d'. jm_get m' n = Some d' \<longleftrightarrow> jm_get (jm_set (mdName d) d m) n = Some d' \<or> d' \<in> set ds \<and> mdName d' = n"
    using Cons.IH[of "jm_set (mdName d) d m"] Cons.prems(1) by auto
  moreover have "\<not> jm_has m (mdName d)" using Cons.prems(2) by (simp add: jm_has_get)
  moreover have "jm_get (jm_set (mdName d) d m) n = Some d' \<longleftrightarrow> jm_get m n = Some d' \<or> d' = d \<and> mdName d = n" for n d'
    using Cons.prems(2) by (auto simp: jm_get_set)
  ultimately show ?case by (auto intro!: exI[of _ m'])
qed simp

text \<open>A descriptor that normalising leaves alone.\<close>

definition descriptor_ok :: "method_descriptor \<Rightarrow> bool" where
  "descriptor_ok d \<longleftrightarrow> normalizeDescriptor d = Inr d"

lemma registry_created:
  assumes "\<forall>d \<in> set ds. descriptor_ok d" "distinct (map mdName ds)"
  shows "\<exists>r. createGatewayMethodRegistry ds = Inr r \<and> mrDescriptors r = ds \<and>
    (\<forall>n d. jm_get (mrByName r) n = Some d \<longleftrightarrow> d \<in> set ds \<and> mdName d = n)"
proof -
  have "sequence_results (map normalizeDescriptor ds) = Inr ds"
    using assms(1) by (auto simp: sequence_results_Inr descriptor_ok_def)
  then show ?thesis
    using index_descriptors_ok[OF assms(2), of "[]"] by (auto simp: createGatewayMethodRegistry_def)
qed

section \<open>Plugins\<close>

definition plugins_ok :: "plugin_methods \<Rightarrow> bool" where
  "plugins_ok p \<longleftrightarrow> distinct (map mdName (pgDescriptors p))
     \<and> map fst (pgHandlers p) = map mdName (pgDescriptors p)
     \<and> (\<forall>d \<in> set (pgDescriptors p). descriptor_ok d \<and> isOperatorScope (mdScope d) \<and> mdName d \<notin> set listCoreGatewayMethodNames
          \<and> (\<exists>i. mdOwner d = Owner_plugin i))
     \<and> (\<forall>a \<in> set (pgSessionActions p). list_all isOperatorScope (js_nullish (saRequiredScopes a) []))"

text \<open>
  What plugins do to the registry: they register methods and session actions, with scopes of the
  type \<open>OperatorScope\<close>. The names of the core are those the gateway passes to the plugin host,
  \<open>listCoreGatewayMethodNames()\<close>.
\<close>

inductive plugin_step :: "plugin_methods \<Rightarrow> plugin_methods \<Rightarrow> bool" where
  register_method: "scope = None \<or> isOperatorScope (the scope) \<Longrightarrow>
     plugin_step p (snd (registerGatewayMethod listCoreGatewayMethodNames pluginId meth h scope p))"
| register_action: "list_all isOperatorScope (js_nullish (saRequiredScopes a) []) \<Longrightarrow>
     plugin_step p (p\<lparr>pgSessionActions := pgSessionActions p @ [a]\<rparr>)"

lemmas scope_names = ADMIN_SCOPE_def READ_SCOPE_def WRITE_SCOPE_def APPROVALS_SCOPE_def PAIRING_SCOPE_def
  TALK_SECRETS_SCOPE_def NODE_GATEWAY_METHOD_SCOPE_def DYNAMIC_GATEWAY_METHOD_SCOPE_def

lemma operator_scopes: "isOperatorScope ADMIN_SCOPE" "isOperatorScope WRITE_SCOPE" "\<not> isOperatorScope []"
  "\<not> isOperatorScope NODE_GATEWAY_METHOD_SCOPE" "\<not> isOperatorScope DYNAMIC_GATEWAY_METHOD_SCOPE"
  by (simp_all add: isOperatorScope_def scope_names)

lemma plugin_descriptor_ok:
  assumes "js_trim n = n" "n \<noteq> []" "scope = None \<or> isOperatorScope (the scope)"
  shows "descriptor_ok (createPluginGatewayMethodDescriptor i n h (fst (normalizePluginGatewayMethodScope n scope)))
    \<and> isOperatorScope (mdScope (createPluginGatewayMethodDescriptor i n h (fst (normalizePluginGatewayMethodScope n scope))))"
proof -
  have s: "isOperatorScope sc \<Longrightarrow> sc \<noteq> [] \<and> sc \<noteq> NODE_GATEWAY_METHOD_SCOPE \<and> sc \<noteq> DYNAMIC_GATEWAY_METHOD_SCOPE" for sc
    using operator_scopes by metis
  note [simp] = s[OF operator_scopes(1)]
  show ?thesis
  proof (cases scope)
    case None
    then show ?thesis using assms(1,2) operator_scopes(1)
      by (auto simp: descriptor_ok_def normalizeDescriptor_def createPluginGatewayMethodDescriptor_def
          normalizePluginGatewayMethodScope_def resolveReservedGatewayMethodScope_def Let_def)
  next
    case (Some sc)
    then have "isOperatorScope sc" using assms(3) by simp
    then show ?thesis using Some assms(1,2) s[of sc] operator_scopes(1)
      by (auto simp: descriptor_ok_def normalizeDescriptor_def createPluginGatewayMethodDescriptor_def
          normalizePluginGatewayMethodScope_def resolveReservedGatewayMethodScope_def Let_def)
  qed
qed

lemma plugin_step_ok:
  assumes "plugin_step p p'" "plugins_ok p"
  shows "plugins_ok p'"
  using assms(1)
proof cases
  case (register_method scope pluginId meth h)
  show ?thesis
  proof (cases "js_trim meth = [] \<or> js_trim meth \<in> set listCoreGatewayMethodNames \<or> jm_has (pgHandlers p) (js_trim meth)")
    case True
    then show ?thesis using register_method assms(2) by (auto simp: registerGatewayMethod_def Let_def)
  next
    case False
    have "fst ` set (pgHandlers p) = set (map mdName (pgDescriptors p))"
      using assms(2) by (metis list.set_map plugins_ok_def)
    then have new: "js_trim meth \<notin> set (map mdName (pgDescriptors p))" "jm_get (pgHandlers p) (js_trim meth) = None"
      using False by (simp_all add: jm_has_get map_of_eq_None_iff)
    then show ?thesis
      using False assms(2) plugin_descriptor_ok[of "js_trim meth" scope pluginId h] register_method(2)
      by (auto simp: register_method(1) registerGatewayMethod_def Let_def plugins_ok_def jm_set_absent case_prod_unfold
          createPluginGatewayMethodDescriptor_def)
  qed
next
  case (register_action a)
  then show ?thesis using assms(2) by (auto simp: plugins_ok_def)
qed

definition no_plugins :: plugin_methods where
  "no_plugins = \<lparr>pgHandlers = [], pgDescriptors = [], pgSessionActions = []\<rparr>"

interpretation plugins: invariant_system "\<lambda>p. p = no_plugins" plugin_step plugins_ok
proof unfold_locales
  show "plugins_ok p" if "p = no_plugins" for p using that by (simp add: plugins_ok_def no_plugins_def)
  show "plugins_ok p'" if "plugins_ok p" "plugin_step p p'" for p p' using plugin_step_ok[OF that(2,1)] .
qed

section \<open>The registry of a request\<close>

text \<open>The handlers a caller brings have names that are trimmed.\<close>

definition extras_ok :: "(string, gateway_handler) jmap \<Rightarrow> bool" where
  "extras_ok ex \<longleftrightarrow> jm_wf ex \<and> (\<forall>(n, h) \<in> set ex. js_trim n = n \<and> n \<noteq> [])"

definition plugin_names :: "plugin_methods \<Rightarrow> string set" where
  "plugin_names p = mdName ` set (pgDescriptors p)"

text \<open>Where a descriptor comes from, and what its scope is then.\<close>

definition described :: "plugin_methods \<Rightarrow> method_descriptor \<Rightarrow> bool" where
  "described p d \<longleftrightarrow>
     (\<exists>s \<in> set CORE_GATEWAY_METHOD_SPECS. csName s = mdName d \<and> csScope s = mdScope d)
     \<or> d \<in> set (pgDescriptors p)
     \<or> mdScope d = ADMIN_SCOPE \<and> mdName d \<notin> set listCoreGatewayMethodNames \<and> mdName d \<notin> plugin_names p"

lemma descriptor_ok_core:
  assumes "s \<in> set CORE_GATEWAY_METHOD_SPECS" "mdName d = csName s" "mdScope d = csScope s" "mdOwner d = Owner_core a"
  shows "descriptor_ok d"
proof -
  have "js_trim (csName s) = csName s" "csName s \<noteq> []"
    using assms(1) core_names_trimmed by (auto simp: listCoreGatewayMethodNames_def)
  moreover have "csScope s \<noteq> []"
    using assms(1) core_scopes_known operator_scopes(3) by (fastforce simp: scope_names)
  ultimately show ?thesis using assms(2-) by (simp add: descriptor_ok_def normalizeDescriptor_def Let_def)
qed

lemma map_filter_names:
  assumes "\<And>s y. f (g s y) = name s" "distinct (map name xs)"
  shows "distinct (map f (List.map_filter (\<lambda>s. map_option (g s) (h s)) xs))
    \<and> (\<forall>d \<in> set (List.map_filter (\<lambda>s. map_option (g s) (h s)) xs). \<exists>s \<in> set xs. \<exists>y. h s = Some y \<and> d = g s y)
    \<and> f ` set (List.map_filter (\<lambda>s. map_option (g s) (h s)) xs) = {name s | s. s \<in> set xs \<and> h s \<noteq> None}"
  using assms by (induction xs) (auto simp: List.map_filter_simps split: option.split)

lemma handler_keys:
  assumes "set (map fst m) \<subseteq> A" "\<forall>n. Q n \<longrightarrow> n \<in> A"
  shows "set (map fst (fold (\<lambda>(n, h) m. if Q n then jm_set n h m else m) ex m)) \<subseteq> A"
  using assms(1)
proof (induction ex arbitrary: m)
  case (Cons x ex)
  have "set (map fst (jm_set (fst x) (snd x) m)) \<subseteq> A" if "Q (fst x)"
    using Cons.prems assms(2) that set_jm_set_sub[of "fst x" "snd x" m] by fastforce
  then show ?case using Cons by (cases x) auto
qed simp

lemma handler_kept:
  "jm_get m k \<noteq> None \<or> (Q k \<and> k \<in> fst ` set ex) \<Longrightarrow>
   jm_get (fold (\<lambda>(n, h) m. if Q n then jm_set n h m else m) ex m) k \<noteq> None"
proof (induction ex arbitrary: m)
  case (Cons x ex)
  show ?case
  proof (cases "Q (fst x) \<and> fst x = k")
    case True
    then show ?thesis using Cons.IH[of "jm_set (fst x) (snd x) m"] by (auto simp: case_prod_unfold jm_get_set)
  next
    case False
    then show ?thesis using Cons by (auto simp: case_prod_unfold jm_get_set)
  qed
qed simp

definition aux_descriptor :: "string \<times> gateway_handler \<Rightarrow> method_descriptor" where
  "aux_descriptor nh = \<lparr>mdName = fst nh, mdHandler = snd nh, mdScope = ADMIN_SCOPE, mdOwner = Owner_aux ''gateway-extra'',
     mdStartup = False, mdControlPlaneWrite = False, mdAdvertise = True\<rparr>"

lemma aux_descriptors:
  "createGatewayMethodDescriptorsFromHandlers hs (Owner_aux ''gateway-extra'') (Some ADMIN_SCOPE) [] = Inr (map aux_descriptor hs)"
  unfolding createGatewayMethodDescriptorsFromHandlers_def
  by (auto simp: sequence_results_Inr ADMIN_SCOPE_def case_prod_unfold aux_descriptor_def)

lemma plugin_descriptors: "plugins_ok p \<Longrightarrow> createPluginGatewayMethodDescriptors p = Inr (pgDescriptors p)"
  by (auto simp: createPluginGatewayMethodDescriptors_def createGatewayMethodDescriptorsFromHandlers_def plugins_ok_def)

lemma plugin_method_names: "plugins_ok p \<Longrightarrow> set (pluginMethodNames (Some p)) = plugin_names p"
  by (metis list.set_map option.simps(5) plugin_names_def pluginMethodNames_def plugins_ok_def)

lemma plugin_not_core: "plugins_ok p \<Longrightarrow> n \<in> plugin_names p \<Longrightarrow> n \<notin> set listCoreGatewayMethodNames"
  by (auto simp: plugins_ok_def plugin_names_def)

lemma with_extra_handler_fields [simp]:
  "mdName (with_extra_handler pn ex d) = mdName d" "mdScope (with_extra_handler pn ex d) = mdScope d"
  "mdOwner (with_extra_handler pn ex d) = mdOwner d"
  by (auto simp: with_extra_handler_def split: option.split)

text \<open>The core descriptors: one for each method of the table that has a handler.\<close>

definition core_part :: "string list \<Rightarrow> (string, gateway_handler) jmap \<Rightarrow> method_descriptor list" where
  "core_part pn ex = map (with_extra_handler pn ex) (List.map_filter
     (\<lambda>spec. map_option (core_descriptor spec) (jm_get (coreDescriptorHandlers pn ex) (csName spec))) CORE_GATEWAY_METHOD_SPECS)"

lemma core_part_created:
  "createCoreGatewayMethodDescriptors (coreDescriptorHandlers pn ex) = Inr (List.map_filter
     (\<lambda>spec. map_option (core_descriptor spec) (jm_get (coreDescriptorHandlers pn ex) (csName spec))) CORE_GATEWAY_METHOD_SPECS)"
proof -
  have "set (map fst (coreDescriptorHandlers pn ex)) \<subseteq> set listCoreGatewayMethodNames"
    unfolding coreDescriptorHandlers_def
    by (rule handler_keys) (use core_handlers_specified in \<open>auto simp: coreGatewayHandlers_def classified_iff\<close>)
  then have "find (\<lambda>n. \<not> List.member (map csName CORE_GATEWAY_METHOD_SPECS) n) (map fst (coreDescriptorHandlers pn ex)) = None"
    by (auto simp: find_None_iff listCoreGatewayMethodNames_def simp del: set_map)
  then show ?thesis by (simp add: createCoreGatewayMethodDescriptors_def)
qed

lemma core_part_props:
  shows "distinct (map mdName (core_part pn ex))"
    and "d \<in> set (core_part pn ex) \<Longrightarrow> \<exists>s \<in> set CORE_GATEWAY_METHOD_SPECS.
      csName s = mdName d \<and> csScope s = mdScope d \<and> mdOwner d = Owner_core ''gateway''"
    and "mdName ` set (core_part pn ex) =
      {n \<in> set listCoreGatewayMethodNames. jm_get (coreDescriptorHandlers pn ex) n \<noteq> None}"
proof -
  let ?h = "\<lambda>spec. jm_get (coreDescriptorHandlers pn ex) (csName spec)"
  let ?ds = "List.map_filter (\<lambda>spec. map_option (core_descriptor spec) (?h spec)) CORE_GATEWAY_METHOD_SPECS"
  have "distinct (map csName CORE_GATEWAY_METHOD_SPECS)" using distinct_core_names by (simp add: listCoreGatewayMethodNames_def)
  from map_filter_names[where f = mdName and g = core_descriptor and name = csName and h = ?h, OF _ this]
  have ds: "distinct (map mdName ?ds)" "\<forall>d \<in> set ?ds. \<exists>s \<in> set CORE_GATEWAY_METHOD_SPECS. \<exists>y. ?h s = Some y \<and> d = core_descriptor s y"
    "mdName ` set ?ds = {csName s | s. s \<in> set CORE_GATEWAY_METHOD_SPECS \<and> ?h s \<noteq> None}"
    by (simp_all add: core_descriptor_def)
  have names: "map mdName (core_part pn ex) = map mdName ?ds" by (simp add: core_part_def comp_def)
  show "distinct (map mdName (core_part pn ex))" unfolding names by (rule ds(1))
  show "\<exists>s \<in> set CORE_GATEWAY_METHOD_SPECS. csName s = mdName d \<and> csScope s = mdScope d \<and> mdOwner d = Owner_core ''gateway''"
    if d: "d \<in> set (core_part pn ex)"
  proof -
    obtain d0 where "d0 \<in> set ?ds" "d = with_extra_handler pn ex d0" using d unfolding core_part_def by auto
    then show ?thesis using ds(2) by (fastforce simp: core_descriptor_def)
  qed
  have "mdName ` set (core_part pn ex) = mdName ` set ?ds" using arg_cong[OF names, of set] by simp
  then show "mdName ` set (core_part pn ex) = {n \<in> set listCoreGatewayMethodNames. jm_get (coreDescriptorHandlers pn ex) n \<noteq> None}"
    unfolding ds(3) listCoreGatewayMethodNames_def by auto
qed

text \<open>The auxiliary descriptors: handlers of the caller that neither the core nor a plugin knows.\<close>

definition aux_part :: "string list \<Rightarrow> (string, gateway_handler) jmap \<Rightarrow> method_descriptor list" where
  "aux_part pn ex = map aux_descriptor (auxHandlers pn (core_part pn ex) ex)"

lemma aux_part_names: "map mdName (aux_part pn ex) = map fst (auxHandlers pn (core_part pn ex) ex)"
  by (simp add: aux_part_def aux_descriptor_def)

lemma aux_part_member: "n \<in> set (map fst (auxHandlers pn cs ex)) \<longleftrightarrow>
    n \<in> fst ` set ex \<and> n \<notin> set pn \<and> n \<notin> mdName ` set cs"
  by (force simp: auxHandlers_def)

lemma extra_in_core:
  assumes "n \<in> fst ` set ex" "n \<notin> set pn" "n \<in> set listCoreGatewayMethodNames"
  shows "n \<in> mdName ` set (core_part pn ex)"
proof -
  have "jm_get (coreDescriptorHandlers pn ex) n \<noteq> None"
    unfolding coreDescriptorHandlers_def by (rule handler_kept) (use assms in \<open>simp add: classified_iff\<close>)
  then show ?thesis using assms(3) by (simp add: core_part_props(3))
qed

lemma aux_part_props:
  assumes "extras_ok ex"
  shows "distinct (map mdName (aux_part pn ex))"
    and "d \<in> set (aux_part pn ex) \<Longrightarrow> descriptor_ok d \<and> mdScope d = ADMIN_SCOPE \<and> mdName d \<notin> set pn
      \<and> mdName d \<notin> mdName ` set (core_part pn ex) \<and> mdName d \<notin> set listCoreGatewayMethodNames"
proof -
  show "distinct (map mdName (aux_part pn ex))"
    using assms unfolding aux_part_names by (simp add: auxHandlers_def extras_ok_def jm_wf_def distinct_map_filter)
  assume d: "d \<in> set (aux_part pn ex)"
  then have "mdName d \<in> set (map mdName (aux_part pn ex))" by simp
  then have "mdName d \<in> fst ` set ex \<and> mdName d \<notin> set pn \<and> mdName d \<notin> mdName ` set (core_part pn ex)"
    unfolding aux_part_names aux_part_member by simp
  moreover have "descriptor_ok d \<and> mdScope d = ADMIN_SCOPE"
    using d assms by (auto simp: aux_part_def aux_descriptor_def auxHandlers_def extras_ok_def descriptor_ok_def
        normalizeDescriptor_def Let_def ADMIN_SCOPE_def)
  ultimately show "descriptor_ok d \<and> mdScope d = ADMIN_SCOPE \<and> mdName d \<notin> set pn
      \<and> mdName d \<notin> mdName ` set (core_part pn ex) \<and> mdName d \<notin> set listCoreGatewayMethodNames"
    using extra_in_core by blast
qed

definition all_parts :: "plugin_methods \<Rightarrow> (string, gateway_handler) jmap \<Rightarrow> method_descriptor list" where
  "all_parts p ex = (let pn = pluginMethodNames (Some p) in core_part pn ex @ pgDescriptors p @ aux_part pn ex)"

lemma all_parts_cases:
  assumes "d \<in> set (all_parts p ex)" "plugins_ok p" "extras_ok ex"
  shows "descriptor_ok d \<and> described p d"
proof -
  let ?pn = "pluginMethodNames (Some p)"
  consider "d \<in> set (core_part ?pn ex)" | "d \<in> set (pgDescriptors p)" | "d \<in> set (aux_part ?pn ex)"
    using assms(1) by (auto simp: all_parts_def Let_def)
  then show ?thesis
  proof cases
    case 1
    from core_part_props(2)[OF 1] show ?thesis using descriptor_ok_core unfolding described_def by metis
  next
    case 2
    then show ?thesis using assms(2) by (simp add: plugins_ok_def described_def)
  next
    case 3
    from aux_part_props(2)[OF assms(3) 3] show ?thesis
      using plugin_method_names[OF assms(2)] by (simp add: described_def)
  qed
qed

lemma distinct_three:
  "distinct (map f xs) \<Longrightarrow> distinct (map f ys) \<Longrightarrow> distinct (map f zs) \<Longrightarrow>
   f ` set xs \<inter> (f ` set ys \<union> f ` set zs) = {} \<Longrightarrow> f ` set ys \<inter> f ` set zs = {} \<Longrightarrow> distinct (map f (xs @ ys @ zs))"
  by (simp only: map_append distinct_append set_append set_map)

lemma all_parts_distinct:
  assumes "plugins_ok p" "extras_ok ex"
  shows "distinct (map mdName (all_parts p ex))"
proof -
  let ?pn = "pluginMethodNames (Some p)"
  have core: "mdName ` set (core_part ?pn ex) \<inter> plugin_names p = {}"
    using core_part_props(3)[of ?pn ex] plugin_not_core[OF assms(1)] by blast
  have aux: "n \<notin> plugin_names p \<and> n \<notin> mdName ` set (core_part ?pn ex)" if n: "n \<in> mdName ` set (aux_part ?pn ex)" for n
  proof -
    obtain d where d: "d \<in> set (aux_part ?pn ex)" "n = mdName d" using n by blast
    from aux_part_props(2)[OF assms(2) d(1)] show ?thesis by (simp add: d(2) plugin_method_names[OF assms(1)])
  qed
  have disjoint: "mdName ` set (core_part ?pn ex) \<inter> (plugin_names p \<union> mdName ` set (aux_part ?pn ex)) = {}"
    "plugin_names p \<inter> mdName ` set (aux_part ?pn ex) = {}"
    using core aux by auto
  have "distinct (map mdName (pgDescriptors p))" using assms(1) by (simp add: plugins_ok_def)
  then show ?thesis unfolding all_parts_def Let_def
    by (rule distinct_three[OF core_part_props(1) _ aux_part_props(1)[OF assms(2)] disjoint[unfolded plugin_names_def]])
qed

lemma request_registry:
  assumes "plugins_ok p" "extras_ok ex"
  shows "\<exists>r. createRequestGatewayMethodRegistry (Some p) ex = Inr r \<and>
    (\<forall>n d. jm_get (mrByName r) n = Some d \<longleftrightarrow> d \<in> set (all_parts p ex) \<and> mdName d = n)"
proof -
  obtain r where "createGatewayMethodRegistry (all_parts p ex) = Inr r"
    "\<forall>n d. jm_get (mrByName r) n = Some d \<longleftrightarrow> d \<in> set (all_parts p ex) \<and> mdName d = n"
    using registry_created[of "all_parts p ex"] all_parts_cases[OF _ assms] all_parts_distinct[OF assms] by blast
  then show ?thesis
    by (simp add: createRequestGatewayMethodRegistry_def core_part_created aux_descriptors plugin_descriptors[OF assms(1)]
        all_parts_def aux_part_def core_part_def[symmetric] Let_def)
qed

lemma part_handled:
  assumes "plugins_ok p" "n \<in> set core_handler_methods \<or> n \<in> plugin_names p \<or> n \<in> fst ` set ex"
  shows "\<exists>d \<in> set (all_parts p ex). mdName d = n"
proof -
  let ?pn = "pluginMethodNames (Some p)"
  have "n \<in> mdName ` set (core_part ?pn ex)" if "n \<in> set core_handler_methods"
  proof -
    have "jm_get coreGatewayHandlers n \<noteq> None" using that by (auto simp: coreGatewayHandlers_def map_of_eq_None_iff image_iff)
    then have "jm_get (coreDescriptorHandlers ?pn ex) n \<noteq> None"
      unfolding coreDescriptorHandlers_def by (intro handler_kept) simp
    then show ?thesis using that core_handlers_specified by (auto simp: core_part_props(3))
  qed
  moreover have "n \<in> plugin_names p \<or> n \<in> mdName ` set (core_part ?pn ex) \<or> n \<in> mdName ` set (aux_part ?pn ex)"
    if "n \<in> fst ` set ex"
    using that aux_part_member[of n ?pn "core_part ?pn ex" ex] plugin_method_names[OF assms(1)]
    unfolding aux_part_names[symmetric] set_map by blast
  ultimately have "n \<in> mdName ` set (core_part ?pn ex) \<or> n \<in> mdName ` set (pgDescriptors p) \<or> n \<in> mdName ` set (aux_part ?pn ex)"
    using assms(2) unfolding plugin_names_def by argo
  then show ?thesis unfolding all_parts_def Let_def set_append by blast
qed

section \<open>Authorisation and the registry agree\<close>

lemma scope_constants [simp]:
  "ADMIN_SCOPE = OPERATOR_ADMIN_SCOPE" "READ_SCOPE = OPERATOR_READ_SCOPE" "WRITE_SCOPE = OPERATOR_WRITE_SCOPE"
  by (simp_all add: scope_names OPERATOR_ADMIN_SCOPE_def OPERATOR_READ_SCOPE_def OPERATOR_WRITE_SCOPE_def)

lemma operator_scope_prefix: "isOperatorScope s \<Longrightarrow> js_starts_with s OPERATOR_SCOPE_PREFIX"
proof -
  have "list_all (\<lambda>s. js_starts_with s OPERATOR_SCOPE_PREFIX)
      [ADMIN_SCOPE, READ_SCOPE, WRITE_SCOPE, APPROVALS_SCOPE, PAIRING_SCOPE, TALK_SECRETS_SCOPE]" by code_simp
  moreover assume "isOperatorScope s"
  ultimately show ?thesis unfolding isOperatorScope_def by (auto simp: list_all_iff simp del: scope_constants)
qed

lemma core_scope_of:
  "s \<in> set CORE_GATEWAY_METHOD_SPECS \<Longrightarrow> resolveCoreGatewayMethodScope (csName s) = Some (csScope s)"
  unfolding core_scope_iff by blast

lemma plugin_found:
  assumes "plugins_ok p" "d \<in> set (pgDescriptors p)"
  shows "find (\<lambda>d'. mdName d' = mdName d) (pgDescriptors p) = Some d"
proof -
  have inj: "inj_on mdName (set (pgDescriptors p))" using assms(1) by (simp add: plugins_ok_def distinct_map)
  obtain d' where d': "find (\<lambda>d'. mdName d' = mdName d) (pgDescriptors p) = Some d'"
    using assms(2) by (cases "find (\<lambda>d'. mdName d' = mdName d) (pgDescriptors p)") (auto simp: find_None_iff)
  then have "d' \<in> set (pgDescriptors p) \<and> mdName d' = mdName d" by (auto simp: find_Some_iff)
  then show ?thesis using d' inj assms(2) by (auto dest: inj_onD)
qed

lemma plugin_reserved:
  assumes "plugins_ok p" "d \<in> set (pgDescriptors p)" "resolveReservedGatewayMethodScope (mdName d) = Some s"
  shows "mdScope d = s"
proof -
  have d: "descriptor_ok d" "isOperatorScope (mdScope d)" "\<exists>i. mdOwner d = Owner_plugin i"
    using assms(1,2) by (auto simp: plugins_ok_def)
  then have "mdScope d \<noteq> [] \<and> mdScope d \<noteq> NODE_GATEWAY_METHOD_SCOPE \<and> mdScope d \<noteq> DYNAMIC_GATEWAY_METHOD_SCOPE"
    using operator_scopes by metis
  moreover have "js_trim (mdName d) = mdName d"
    using d(1) by (cases d) (auto simp: descriptor_ok_def normalizeDescriptor_def Let_def split: if_splits)
  ultimately show ?thesis using d(1,3) assms(3)
    by (cases d) (auto simp: descriptor_ok_def normalizeDescriptor_def normalizePluginGatewayMethodScope_def Let_def split: if_splits)
qed

text \<open>What authorisation asks for is what the registry shows, or \<open>operator.admin\<close> for a method without an operator scope.\<close>

lemma resolve_described:
  assumes p: "plugins_ok p" and d: "described p d"
  shows "js_nullish (resolveScopedMethod (Some p) (mdName d)) ADMIN_SCOPE =
    (if mdScope d = NODE_GATEWAY_METHOD_SCOPE \<or> mdScope d = DYNAMIC_GATEWAY_METHOD_SCOPE then ADMIN_SCOPE else mdScope d)"
proof -
  have reserved: "resolveReservedGatewayMethodScope n = Some s \<Longrightarrow> s = ADMIN_SCOPE" for n s
    by (simp add: resolveReservedGatewayMethodScope_def split: if_splits)
  have none: "find (\<lambda>d'. mdName d' = n) (pgDescriptors p) = None" if "n \<notin> plugin_names p" for n
    using that by (auto simp: find_None_iff plugin_names_def)
  from d consider s where "s \<in> set CORE_GATEWAY_METHOD_SPECS" "csName s = mdName d" "csScope s = mdScope d"
    | "d \<in> set (pgDescriptors p)"
    | "mdScope d = ADMIN_SCOPE" "mdName d \<notin> set listCoreGatewayMethodNames" "mdName d \<notin> plugin_names p"
    unfolding described_def by blast
  then show ?thesis
  proof cases
    case 1
    then have "mdName d \<in> set listCoreGatewayMethodNames" unfolding listCoreGatewayMethodNames_def by (metis image_eqI list.set_map)
    then have "mdName d \<notin> plugin_names p" using plugin_not_core[OF p] by blast
    then show ?thesis using core_scope_of[OF 1(1)] 1 none reserved
      by (auto simp: resolveScopedMethod_def resolveCoreOperatorGatewayMethodScope_def Let_def simp del: scope_constants
          split: option.split)
  next
    case 2
    then have "mdName d \<notin> set listCoreGatewayMethodNames" "isOperatorScope (mdScope d)" using p by (auto simp: plugins_ok_def)
    then have "resolveCoreGatewayMethodScope (mdName d) = None"
      "mdScope d \<noteq> NODE_GATEWAY_METHOD_SCOPE" "mdScope d \<noteq> DYNAMIC_GATEWAY_METHOD_SCOPE"
      using operator_scopes(4,5) by (auto simp: core_scope_None)
    then show ?thesis using plugin_found[OF p 2] plugin_reserved[OF p 2]
      by (auto simp: resolveScopedMethod_def resolveCoreOperatorGatewayMethodScope_def Let_def split: option.split)
  next
    case 3
    then have "resolveCoreGatewayMethodScope (mdName d) = None" by (simp add: core_scope_None)
    then show ?thesis using 3(1) none[OF 3(3)] reserved
      by (auto simp: resolveScopedMethod_def resolveCoreOperatorGatewayMethodScope_def Let_def simp del: scope_constants
          split: option.split)
  qed
qed

lemma described_core:
  assumes "plugins_ok p" "described p d" "resolveCoreGatewayMethodScope (mdName d) = Some s"
  shows "mdScope d = s"
proof -
  have "mdName d \<in> set listCoreGatewayMethodNames"
    using assms(3) core_scope_None[of "mdName d"] by (cases "mdName d \<in> set listCoreGatewayMethodNames") simp_all
  then have "mdName d \<notin> plugin_names p" "mdName d \<in> set listCoreGatewayMethodNames" using plugin_not_core[OF assms(1)] by blast+
  then obtain s' where "s' \<in> set CORE_GATEWAY_METHOD_SPECS" "csName s' = mdName d" "csScope s' = mdScope d"
    using assms(2) unfolding described_def plugin_names_def by blast
  then show ?thesis using core_scope_of[of s'] assms(3) by simp
qed

lemma action_scopes_known:
  assumes "plugins_ok p" "resolveSessionActionRegisteredScopes (Some p) params = Some required" "q \<in> set required"
  shows "isOperatorScope q"
proof -
  obtain pluginId actionId where ids: "action_ids params = Some (pluginId, actionId)"
    using assms(2) by (auto simp: resolveSessionActionRegisteredScopes_def split: option.splits)
  then obtain a where f: "find (\<lambda>e. saPluginId e = pluginId \<and> saActionId e = actionId) (pgSessionActions p) = Some a"
    using assms(2) by (auto simp: resolveSessionActionRegisteredScopes_def split: option.splits)
  then have "a \<in> set (pgSessionActions p)" by (auto simp: find_Some_iff)
  then have "list_all isOperatorScope (js_nullish (saRequiredScopes a) [])" using assms(1) by (simp add: plugins_ok_def)
  then show ?thesis using assms(2,3) ids f operator_scopes(2)
    by (auto simp: resolveSessionActionRegisteredScopes_def list_all_iff split: option.splits list.splits)
qed
section \<open>What reaches a handler\<close>

text \<open>The scopes that let an operator call a method whose registry scope is \<open>s\<close>.\<close>

definition operator_may :: "plugin_methods \<Rightarrow> action_params option \<Rightarrow> string \<Rightarrow> string list \<Rightarrow> bool" where
  "operator_may p params s scopes \<longleftrightarrow>
     List.member scopes ADMIN_SCOPE
     \<or> operatorScopeSatisfied s scopes
     \<or> s = DYNAMIC_GATEWAY_METHOD_SCOPE
       \<and> (case resolveSessionActionRegisteredScopes (Some p) params of
            Some required \<Rightarrow> list_all (\<lambda>q. operatorScopeSatisfied q scopes) required
          | None \<Rightarrow> list_ex isOperatorScope scopes)"

lemma authorized_scope:
  assumes p: "plugins_ok p" and d: "described p d" "\<not> isCoreNodeGatewayMethod (mdName d)"
    and auth: "authorizeOperatorScopesForMethod (Some p) (mdName d) scopes params = None"
  shows "operator_may p params (mdScope d) scopes"
proof (cases "List.member scopes ADMIN_SCOPE")
  case False
  show ?thesis
  proof (cases "isDynamicOperatorGatewayMethod (mdName d)")
    case True
    then have s: "mdScope d = DYNAMIC_GATEWAY_METHOD_SCOPE"
      using described_core[OF p d(1)] by (simp add: isDynamicOperatorGatewayMethod_def)
    show ?thesis
    proof (cases "resolveSessionActionRegisteredScopes (Some p) params")
      case None
      then show ?thesis using auth False True s operator_scopes(2,3)
        by (auto simp: authorizeOperatorScopesForMethod_def operator_may_def list_ex_iff find_None_iff simp del: scope_constants
            split: if_splits)
    next
      case (Some required)
      have "operatorScopeSatisfied q scopes" if "q \<in> set required" for q
      proof -
        have "isOperatorScope r \<and> r \<noteq> []" if "r \<in> set required" for r
          using action_scopes_known[OF p Some that] operator_scopes(3) by metis
        then have "x \<noteq> []" if "find (\<lambda>scope. \<not> List.member scopes scope \<and> \<not> (scope = READ_SCOPE \<and> List.member scopes WRITE_SCOPE)) required = Some x" for x
          using find_SomeD[OF that] by blast
        then have "find (\<lambda>scope. \<not> List.member scopes scope \<and> \<not> (scope = READ_SCOPE \<and> List.member scopes WRITE_SCOPE)) required = None"
          using auth False True Some
          by (auto simp: authorizeOperatorScopesForMethod_def simp del: scope_constants split: option.splits if_splits)
        then have "q \<in> set scopes \<or> q = READ_SCOPE \<and> WRITE_SCOPE \<in> set scopes" using that by (auto simp: find_None_iff)
        then show ?thesis using operator_scope_prefix[OF action_scopes_known[OF p Some that]]
          by (auto simp: operatorScopeSatisfied_eq)
      qed
      then show ?thesis using s Some by (simp add: operator_may_def list_all_iff)
    qed
  next
    case nd: False
    have scoped: "js_nullish (resolveScopedMethod (Some p) (mdName d)) ADMIN_SCOPE =
        (if mdScope d = NODE_GATEWAY_METHOD_SCOPE \<or> mdScope d = DYNAMIC_GATEWAY_METHOD_SCOPE then ADMIN_SCOPE else mdScope d)"
      by (rule resolve_described[OF p d(1)])
    have s: "isOperatorScope (mdScope d) \<or> mdScope d = NODE_GATEWAY_METHOD_SCOPE \<or> mdScope d = DYNAMIC_GATEWAY_METHOD_SCOPE"
      using d(1) p core_scopes_known operator_scopes(1) unfolding described_def plugins_ok_def by metis
    have "mdScope d \<in> set scopes \<or> mdScope d = READ_SCOPE \<and> WRITE_SCOPE \<in> set scopes"
      "mdScope d \<noteq> NODE_GATEWAY_METHOD_SCOPE" "mdScope d \<noteq> DYNAMIC_GATEWAY_METHOD_SCOPE"
      using auth False nd scoped admin_prefix(4)[folded scope_constants]
      by (auto simp: authorizeOperatorScopesForMethod_def Let_def simp del: scope_constants split: if_splits)
    then show ?thesis using s operator_scope_prefix[of "mdScope d"] by (auto simp: operator_may_def operatorScopeSatisfied_eq)
  qed
qed (simp add: operator_may_def)


lemma dispatched_scope:
  assumes p: "plugins_ok p" and extra: "extras_ok extra"
    and registry: "createRequestGatewayMethodRegistry (Some p) extra = Inr r"
    and dispatched: "handleGatewayRequest (Some p) r unavailable now meth client params buckets = (Invoked h, buckets')"
    and connected: "Option.bind client gnConnect = Some connect" "meth \<noteq> ''health''"
  shows "\<exists>s. getScope r meth = Some s \<and>
    (s = NODE_GATEWAY_METHOD_SCOPE \<and> cpRole connect = Some ''node''
     \<or> js_nullish (cpRole connect) ''operator'' = ''operator'' \<and> operator_may p params s (js_nullish (cpScopes connect) []))"
proof -
  have r: "jm_get (mrByName r) n = Some d \<longleftrightarrow> d \<in> set (all_parts p extra) \<and> mdName d = n" for n d
    using request_registry[OF p extra] registry by simp
  have auth: "authorizeGatewayMethod (Some p) meth client params = None"
    using dispatched by (auto simp: handleGatewayRequest_def split: option.splits)
  have "getHandler r meth \<noteq> None"
    using dispatched auth by (auto simp: handleGatewayRequest_def Let_def case_prod_unfold split: if_splits option.splits)
  then obtain d where d: "jm_get (mrByName r) meth = Some d" by (auto simp: getHandler_def)
  then have desc: "described p d" "mdName d = meth" using r all_parts_cases[OF _ p extra] by auto
  let ?role = "js_nullish (cpRole connect) ''operator''"
  obtain role where role: "parseGatewayRole ?role = Some role" "isRoleAuthorizedForMethod role meth"
    "role = Role_node \<or> List.member (js_nullish (cpScopes connect) []) ADMIN_SCOPE
     \<or> authorizeOperatorScopesForMethod (Some p) meth (js_nullish (cpScopes connect) []) params = None"
    using auth connected by (auto simp: authorizeGatewayMethod_def Let_def split: option.splits if_splits)
  show ?thesis
  proof (cases role)
    case Role_node
    then have "?role = ''node''" "isCoreNodeGatewayMethod meth"
      using role by (auto simp: parseGatewayRole_def isRoleAuthorizedForMethod_def split: if_splits)
    then show ?thesis using d described_core[OF p desc(1)] desc(2)
      by (cases "cpRole connect") (simp_all add: getScope_def isCoreNodeGatewayMethod_def)
  next
    case Role_operator
    then have "?role = ''operator''" "\<not> isCoreNodeGatewayMethod (mdName d)"
      using role desc(2) by (auto simp: parseGatewayRole_def isRoleAuthorizedForMethod_def split: if_splits)
    then show ?thesis using d role(3) Role_operator authorized_scope[OF p desc(1)] desc(2)
      by (auto simp: getScope_def operator_may_def)
  qed
qed

section \<open>A request\<close>

definition reading_client :: gateway_connection where
  "reading_client = \<lparr>gcDeviceId = Some ''d'', gcClientIp = None, gcConnId = None,
     gnConnect = Some \<lparr>cpRole = Some ''operator'', cpScopes = Some [''operator.read'']\<rparr>\<rparr>"

lemma status_scope: "resolveCoreGatewayMethodScope ''status'' = Some ''operator.read''"
proof -
  have "CORE_GATEWAY_METHOD_SPECS ! 15 = core_spec ''status'' ''operator.read''" "length CORE_GATEWAY_METHOD_SPECS = 193"
    by code_simp+
  then have "core_spec ''status'' ''operator.read'' \<in> set CORE_GATEWAY_METHOD_SPECS"
    using nth_mem[of 15 CORE_GATEWAY_METHOD_SPECS] by simp
  from core_scope_of[OF this] show ?thesis by (simp add: core_spec_def)
qed

lemma status_handled: "''status'' \<in> set core_handler_methods"
proof -
  have "core_handler_methods ! 7 = ''status''" "length core_handler_methods = 181" by code_simp+
  then show ?thesis using nth_mem[of 7 core_handler_methods] by simp
qed

lemma status_authorized: "authorizeGatewayMethod (Some p) ''status'' (Some reading_client) None = None"
  by (simp add: authorizeGatewayMethod_def reading_client_def parseGatewayRole_def isRoleAuthorizedForMethod_def
      isCoreNodeGatewayMethod_def status_scope NODE_GATEWAY_METHOD_SCOPE_def authorizeOperatorScopesForMethod_def
      isDynamicOperatorGatewayMethod_def DYNAMIC_GATEWAY_METHOD_SCOPE_def resolveScopedMethod_def
      resolveCoreOperatorGatewayMethodScope_def OPERATOR_READ_SCOPE_def Let_def)

lemma no_extras_ok: "extras_ok []"
  by (simp add: extras_ok_def)

text \<open>An operator that may read asks for the status.\<close>

lemma status_dispatched:
  assumes "plugins_ok p"
  shows "\<exists>r h b. createRequestGatewayMethodRegistry (Some p) [] = Inr r
    \<and> handleGatewayRequest (Some p) r None 0 ''status'' (Some reading_client) None [] = (Invoked h, b)
    \<and> getScope r ''status'' = Some ''operator.read''"
proof -
  obtain r where r: "createRequestGatewayMethodRegistry (Some p) [] = Inr r"
    "\<And>n d. jm_get (mrByName r) n = Some d \<longleftrightarrow> d \<in> set (all_parts p []) \<and> mdName d = n"
    using request_registry[OF assms no_extras_ok] by blast
  obtain d where d: "d \<in> set (all_parts p [])" "mdName d = ''status''" using part_handled[OF assms] status_handled by blast
  then have g: "jm_get (mrByName r) ''status'' = Some d" using r(2) by blast
  have "mdScope d = ''operator.read''"
    using described_core[OF assms conjunct2[OF all_parts_cases[OF d(1) assms no_extras_ok]]] status_scope d(2) by simp
  then show ?thesis using r(1) g status_authorized[of p]
    by (cases "isControlPlaneWrite r ''status''") (simp_all add: handleGatewayRequest_def getHandler_def getScope_def Let_def
        consumeControlPlaneWriteBudget_def consume_key_def)
qed




end
