(* ===== verification/Gateway_Access.thy ===== *)
theory Gateway_Access
  imports Gateway_Dispatch_Props Device_Pairing_Props
begin

text \<open>
  Pairing and dispatch together. A device connects with a token that
  \<open>src/infra/device-pairing.ts\<close> verified for its role and scopes; the connection carries that
  role and those scopes (\<open>src/gateway/server/ws-connection/message-handler.ts\<close>, which sets
  \<open>connect.role\<close> and \<open>connect.scopes\<close> before it verifies), and \<open>src/gateway/server-methods.ts\<close>
  dispatches its requests by them.
\<close>

lemma operator_scopes_trimmed: "isOperatorScope s \<Longrightarrow> js_trim s = s \<and> s \<noteq> []"
proof -
  have "list_all (\<lambda>s. js_trim s = s \<and> s \<noteq> [])
      [ADMIN_SCOPE, READ_SCOPE, WRITE_SCOPE, APPROVALS_SCOPE, PAIRING_SCOPE, TALK_SECRETS_SCOPE]" by code_simp
  moreover assume "isOperatorScope s"
  ultimately show ?thesis unfolding isOperatorScope_def by (auto simp: list_all_iff simp del: scope_constants)
qed

lemma satisfied_allowed:
  assumes "operatorScopeSatisfied s scopes" "js_trim s = s" "s \<noteq> []"
  shows "roleScopesAllow OPERATOR_ROLE [s] scopes"
proof -
  have kept: "t \<in> set scopes \<Longrightarrow> js_trim t = t \<Longrightarrow> t \<noteq> [] \<Longrightarrow> t \<in> set (trimmed_set scopes)" for t
    unfolding set_trimmed_set by force
  show ?thesis using assms kept
    by (auto simp: roleScopesAllow_iff set_trimmed_set[of "[s]"] scope_ok_def operatorScopeSatisfied_eq)
qed

lemma operator_may_satisfied:
  "operator_may p params s scopes \<Longrightarrow> isOperatorScope s \<Longrightarrow> operatorScopeSatisfied s scopes"
  using operator_scope_prefix[of s] operator_scopes(5) by (auto simp: operator_may_def operatorScopeSatisfied_eq)

lemma verified_scopes:
  assumes "verifyDeviceToken now dev tok role ss gen files = (Inr iss, files')"
  shows "\<exists>d. jm_get (pfPaired files) (js_trim dev) = Some d \<and> roleScopesAllow (js_trim role) ss (approved_scopes d)"
proof (rule verify_changes[OF assms])
  fix d role' e
  assume d: "jm_get (pfPaired files) (normalizeDeviceId dev) = Some d" and r: "normalizeRole (Some role) = Some role'"
    and base: "scopesWithinApprovedDeviceBaseline role' (dtScopes e) (resolveApprovedDeviceScopeBaseline d)"
    and req: "roleScopesAllow role' (normalizeDeviceAuthScopes (Some ss)) (dtScopes e)"
  have "roleScopesAllow role' ss (approved_scopes d)"
    using scopes.allows_trans[OF req within_baseline[OF base]] by (simp add: normalize_request)
  then show ?thesis using d normalizeRole_Some[OF r] by (auto simp: normalizeDeviceId_def)
qed



end
