(* ===== verification/Heartbeat_Wake.thy ===== *)
theory Heartbeat_Wake
  imports Contracts Js_Strings
begin

text \<open>
  The wake layer of the heartbeats, \<open>src/infra/heartbeat-wake.ts\<close>: requests to wake an agent are
  merged by target while one timer runs, and when it fires they are handed one after another
  to the handler that is registered. A target that is busy is asked again after a while.

  The module variables are the fields of \<open>wake_state\<close>; the three variables \<open>timer\<close>, \<open>timerDueAt\<close>
  and \<open>timerKind\<close> are set and cleared together and are one optional timer, which also holds what
  the closure of the timer captures. A handler is a number. The callback of the timer awaits the
  handler once for each wake: \<open>wake_fire\<close> runs it to its first \<open>await\<close>, and \<open>wake_result\<close> goes on
  with the answer of the handler. Where a run of the callback stands is an entry of \<open>wkRuns\<close>.
\<close>

section \<open>Data\<close>

datatype wake_intent = Intent_scheduled | Intent_event | Intent_immediate | Intent_manual

datatype wake_source = Src_interval | Src_manual | Src_exec_event | Src_notifications_event | Src_cron
  | Src_hook | Src_background_task | Src_background_task_blocked | Src_acp_spawn | Src_cli_watchdog
  | Src_restart_sentinel | Src_retry | Src_other

datatype heartbeat_result = Hb_ran int | Hb_skipped string | Hb_failed string

definition HEARTBEAT_SKIP_REQUESTS_IN_FLIGHT :: string where
  "HEARTBEAT_SKIP_REQUESTS_IN_FLIGHT = ''requests-in-flight''"
definition HEARTBEAT_SKIP_CRON_IN_PROGRESS :: string where
  "HEARTBEAT_SKIP_CRON_IN_PROGRESS = ''cron-in-progress''"
definition HEARTBEAT_SKIP_LANES_BUSY :: string where
  "HEARTBEAT_SKIP_LANES_BUSY = ''lanes-busy''"

definition RETRYABLE_BUSY_SKIP_REASONS :: "string list" where
  "RETRYABLE_BUSY_SKIP_REASONS =
     [HEARTBEAT_SKIP_REQUESTS_IN_FLIGHT, HEARTBEAT_SKIP_CRON_IN_PROGRESS, HEARTBEAT_SKIP_LANES_BUSY]"

definition isRetryableHeartbeatBusySkipReason :: "string \<Rightarrow> bool" where
  "isRetryableHeartbeatBusySkipReason reason \<longleftrightarrow> reason \<in> set RETRYABLE_BUSY_SKIP_REASONS"

text \<open>\<open>res.status === "skipped" && isRetryableHeartbeatBusySkipReason(res.reason)\<close>.\<close>

fun busy_skip :: "heartbeat_result \<Rightarrow> bool" where
  "busy_skip (Hb_skipped reason) = isRetryableHeartbeatBusySkipReason reason"
| "busy_skip _ = False"

record wake_override =
  ovTarget :: "string option"
  ovTo :: "string option"
  ovAccountId :: "string option"

record wake_request =
  wqSource :: wake_source
  wqIntent :: wake_intent
  wqReason :: "string option"
  wqAgentId :: "string option"
  wqSessionKey :: "string option"
  wqHeartbeat :: "wake_override option"

record pending_wake =
  pwSource :: wake_source
  pwIntent :: wake_intent
  pwReason :: string
  pwPriority :: nat
  pwRequestedAt :: int
  pwAgentId :: "string option"
  pwSessionKey :: "string option"
  pwHeartbeat :: "wake_override option"

datatype wake_timer_kind = Timer_normal | Timer_retry

record wake_timer =
  wtDueAt :: rat
  wtKind :: wake_timer_kind
  wtDelay :: rat

text \<open>
  A run of the callback of a timer: the handler it captured, the batch it took, the place in the
  batch of the wake whose answer it awaits, and the delay of the timer.
\<close>

record wake_run =
  wrHandler :: nat
  wrBatch :: "pending_wake list"
  wrPos :: nat
  wrDelay :: rat

record wake_state =
  wkEnabled :: bool
  wkHandler :: "nat option"
  wkGeneration :: nat
  wkPending :: "(string, pending_wake) jmap"
  wkScheduled :: bool
  wkRunning :: bool
  wkTimer :: "wake_timer option"
  wkRuns :: "(nat, wake_run) jmap"
  wkNextRun :: nat
  wkCalls :: "(nat \<times> wake_request) list"

definition initial_wakes :: wake_state where
  "initial_wakes = \<lparr>wkEnabled = True, wkHandler = None, wkGeneration = 0, wkPending = [],
     wkScheduled = False, wkRunning = False, wkTimer = None, wkRuns = [], wkNextRun = 0, wkCalls = []\<rparr>"

definition DEFAULT_COALESCE_MS :: rat where "DEFAULT_COALESCE_MS = 250"
definition DEFAULT_RETRY_MS :: rat where "DEFAULT_RETRY_MS = 1000"

definition REASON_PRIORITY_RETRY :: nat where "REASON_PRIORITY_RETRY = 0"
definition REASON_PRIORITY_INTERVAL :: nat where "REASON_PRIORITY_INTERVAL = 1"
definition REASON_PRIORITY_DEFAULT :: nat where "REASON_PRIORITY_DEFAULT = 2"
definition REASON_PRIORITY_ACTION :: nat where "REASON_PRIORITY_ACTION = 3"

section \<open>Queueing a wake\<close>

definition setHeartbeatsEnabled :: "bool \<Rightarrow> wake_state \<Rightarrow> wake_state" where
  "setHeartbeatsEnabled enabled s = s\<lparr>wkEnabled := enabled\<rparr>"

definition areHeartbeatsEnabled :: "wake_state \<Rightarrow> bool" where
  "areHeartbeatsEnabled s = wkEnabled s"

definition resolveWakePriority :: "wake_source \<Rightarrow> wake_intent \<Rightarrow> string \<Rightarrow> nat" where
  "resolveWakePriority source intent reason =
     (if intent = Intent_manual \<or> intent = Intent_immediate then REASON_PRIORITY_ACTION
      else if source = Src_retry \<or> reason = ''retry'' then REASON_PRIORITY_RETRY
      else if intent = Intent_scheduled \<or> source = Src_interval \<or> reason = ''interval''
      then REASON_PRIORITY_INTERVAL
      else REASON_PRIORITY_DEFAULT)"

definition normalizeHeartbeatWakeReason :: "string option \<Rightarrow> string" where
  "normalizeHeartbeatWakeReason reason = js_nullish (normalizeOptionalString reason) ''requested''"

definition normalizeWakeReason :: "string option \<Rightarrow> string" where
  "normalizeWakeReason reason = normalizeHeartbeatWakeReason reason"

definition normalizeWakeTarget :: "string option \<Rightarrow> string option" where
  "normalizeWakeTarget v =
     (let trimmed = js_nullish (normalizeOptionalString v) [] in if trimmed = [] then None else Some trimmed)"

definition getWakeTargetKey :: "string option \<Rightarrow> string option \<Rightarrow> string" where
  "getWakeTargetKey agentId sessionKey =
     js_nullish (normalizeWakeTarget agentId) [] @ ''::'' @ js_nullish (normalizeWakeTarget sessionKey) []"

definition pending_of :: "wake_request \<Rightarrow> int \<Rightarrow> pending_wake" where
  "pending_of q requestedAt =
     (let reason = normalizeWakeReason (wqReason q)
      in \<lparr>pwSource = wqSource q, pwIntent = wqIntent q, pwReason = reason,
          pwPriority = resolveWakePriority (wqSource q) (wqIntent q) reason,
          pwRequestedAt = requestedAt, pwAgentId = normalizeWakeTarget (wqAgentId q),
          pwSessionKey = normalizeWakeTarget (wqSessionKey q), pwHeartbeat = wqHeartbeat q\<rparr>)"

definition merge_wake :: "pending_wake \<Rightarrow> pending_wake \<Rightarrow> pending_wake" where
  "merge_wake previous w =
     (let merged = (case opt_else (pwHeartbeat w) (pwHeartbeat previous) of
          None \<Rightarrow> w | Some h \<Rightarrow> w\<lparr>pwHeartbeat := Some h\<rparr>)
      in if pwPriority w > pwPriority previous then merged
         else if pwPriority w = pwPriority previous \<and> pwRequestedAt w \<ge> pwRequestedAt previous then merged
         else previous)"

definition queuePendingWakeReason :: "wake_request \<Rightarrow> int \<Rightarrow> wake_state \<Rightarrow> wake_state" where
  "queuePendingWakeReason q now s =
     (let w = pending_of q now;
          key = getWakeTargetKey (pwAgentId w) (pwSessionKey w)
      in case jm_get (wkPending s) key of
           None \<Rightarrow> s\<lparr>wkPending := jm_set key w (wkPending s)\<rparr>
         | Some previous \<Rightarrow> s\<lparr>wkPending := jm_set key (merge_wake previous w) (wkPending s)\<rparr>)"

section \<open>The timer\<close>

definition schedule :: "jsnum \<Rightarrow> wake_timer_kind \<Rightarrow> int \<Rightarrow> wake_state \<Rightarrow> wake_state" where
  "schedule coalesceMs kind now s =
     (let delay = (case coalesceMs of Fin c \<Rightarrow> max 0 c | _ \<Rightarrow> DEFAULT_COALESCE_MS);
          dueAt = of_int now + delay;
          started = s\<lparr>wkTimer := Some \<lparr>wtDueAt = dueAt, wtKind = kind, wtDelay = delay\<rparr>\<rparr>
      in case wkTimer s of
           None \<Rightarrow> started
         | Some t \<Rightarrow>
             if wtKind t = Timer_retry then s
             else if wtDueAt t \<le> dueAt then s
             else started)"

text \<open>The options the handler is called with: empty values are left out.\<close>

definition wake_opts :: "pending_wake \<Rightarrow> wake_request" where
  "wake_opts w = \<lparr>wqSource = pwSource w, wqIntent = pwIntent w, wqReason = Some (pwReason w),
     wqAgentId = (if pwAgentId w = Some [] then None else pwAgentId w),
     wqSessionKey = (if pwSessionKey w = Some [] then None else pwSessionKey w),
     wqHeartbeat = pwHeartbeat w\<rparr>"

text \<open>What queues a wake of a batch again: its reason is never missing.\<close>

definition retry_request :: "pending_wake \<Rightarrow> wake_request" where
  "retry_request w = \<lparr>wqSource = pwSource w, wqIntent = pwIntent w, wqReason = Some (pwReason w),
     wqAgentId = pwAgentId w, wqSessionKey = pwSessionKey w, wqHeartbeat = pwHeartbeat w\<rparr>"

definition call_handler :: "nat \<Rightarrow> pending_wake \<Rightarrow> wake_state \<Rightarrow> wake_state" where
  "call_handler h w s = s\<lparr>wkCalls := wkCalls s @ [(h, wake_opts w)]\<rparr>"

text \<open>The \<open>finally\<close> block of a run.\<close>

definition wake_run_ends :: "rat \<Rightarrow> int \<Rightarrow> wake_state \<Rightarrow> wake_state" where
  "wake_run_ends delay now s =
     (let s1 = s\<lparr>wkRunning := False\<rparr>
      in if wkPending s1 \<noteq> [] \<or> wkScheduled s1 then schedule (Fin delay) Timer_normal now s1 else s1)"

text \<open>The callback of the timer up to its first \<open>await\<close>.\<close>

definition wake_fire :: "int \<Rightarrow> wake_state \<Rightarrow> wake_state" where
  "wake_fire now s =
     (case wkTimer s of
        None \<Rightarrow> s
      | Some t \<Rightarrow>
          if of_int now < wtDueAt t then s
          else
            (let s1 = s\<lparr>wkTimer := None, wkScheduled := False\<rparr>
             in case wkHandler s1 of
                  None \<Rightarrow> s1
                | Some active \<Rightarrow>
                    if wkRunning s1
                    then schedule (Fin (wtDelay t)) (wtKind t) now (s1\<lparr>wkScheduled := True\<rparr>)
                    else
                      (let batch = map snd (wkPending s1);
                           s2 = s1\<lparr>wkPending := [], wkRunning := True\<rparr>
                       in case batch of
                            [] \<Rightarrow> wake_run_ends (wtDelay t) now s2
                          | w # _ \<Rightarrow>
                              call_handler active w
                                (s2\<lparr>wkRuns := jm_set (wkNextRun s2)
                                      \<lparr>wrHandler = active, wrBatch = batch, wrPos = 0, wrDelay = wtDelay t\<rparr>
                                      (wkRuns s2),
                                    wkNextRun := Suc (wkNextRun s2)\<rparr>))))"

text \<open>
  What the run does when the handler answers (a result, or nothing when it threw): queue the wake
  again if its target was busy, and call the handler for the next wake or end.
\<close>

definition wake_result :: "nat \<Rightarrow> heartbeat_result option \<Rightarrow> int \<Rightarrow> wake_state \<Rightarrow> wake_state" where
  "wake_result rid answer now s =
     (case jm_get (wkRuns s) rid of
        None \<Rightarrow> s
      | Some r \<Rightarrow>
          (case answer of
             None \<Rightarrow>
               (let s1 = fold (\<lambda>w. queuePendingWakeReason (retry_request w) now) (wrBatch r) s;
                    s2 = schedule (Fin DEFAULT_RETRY_MS) Timer_retry now s1
                in wake_run_ends (wrDelay r) now (s2\<lparr>wkRuns := jm_del rid (wkRuns s2)\<rparr>))
           | Some res \<Rightarrow>
               (let s1 = (if busy_skip res
                          then schedule (Fin DEFAULT_RETRY_MS) Timer_retry now
                                 (queuePendingWakeReason (retry_request (wrBatch r ! wrPos r)) now s)
                          else s)
                in if Suc (wrPos r) < length (wrBatch r)
                   then call_handler (wrHandler r) (wrBatch r ! Suc (wrPos r))
                          (s1\<lparr>wkRuns := jm_set rid (r\<lparr>wrPos := Suc (wrPos r)\<rparr>) (wkRuns s1)\<rparr>)
                   else wake_run_ends (wrDelay r) now (s1\<lparr>wkRuns := jm_del rid (wkRuns s1)\<rparr>))))"

section \<open>The handler\<close>

text \<open>Registering returns a disposer, which is the generation and the handler it captured.\<close>

type_synonym wake_disposer = "nat \<times> nat option"

definition setHeartbeatWakeHandler :: "nat option \<Rightarrow> int \<Rightarrow> wake_state \<Rightarrow> wake_disposer \<times> wake_state" where
  "setHeartbeatWakeHandler h now s =
     (let generation = Suc (wkGeneration s);
          s1 = s\<lparr>wkGeneration := generation, wkHandler := h\<rparr>;
          s2 = (if h \<noteq> None then s1\<lparr>wkTimer := None, wkRunning := False, wkScheduled := False\<rparr> else s1);
          s3 = (if wkHandler s2 \<noteq> None \<and> wkPending s2 \<noteq> []
                then schedule (Fin DEFAULT_COALESCE_MS) Timer_normal now s2 else s2)
      in ((generation, h), s3))"

definition dispose_wake_handler :: "wake_disposer \<Rightarrow> wake_state \<Rightarrow> wake_state" where
  "dispose_wake_handler d s =
     (if wkGeneration s \<noteq> fst d then s
      else if wkHandler s \<noteq> snd d then s
      else s\<lparr>wkGeneration := Suc (wkGeneration s), wkHandler := None\<rparr>)"

definition requestHeartbeat :: "wake_request \<Rightarrow> jsnum option \<Rightarrow> int \<Rightarrow> wake_state \<Rightarrow> wake_state" where
  "requestHeartbeat q coalesceMs now s =
     schedule (js_nullish coalesceMs (Fin DEFAULT_COALESCE_MS)) Timer_normal now
       (queuePendingWakeReason q now s)"

definition hasHeartbeatWakeHandler :: "wake_state \<Rightarrow> bool" where
  "hasHeartbeatWakeHandler s \<longleftrightarrow> wkHandler s \<noteq> None"

definition hasPendingHeartbeatWake :: "wake_state \<Rightarrow> bool" where
  "hasPendingHeartbeatWake s \<longleftrightarrow> wkPending s \<noteq> [] \<or> wkTimer s \<noteq> None \<or> wkScheduled s"

section \<open>Operations\<close>

datatype wake_op =
    Wk_enable bool
  | Wk_request wake_request "jsnum option"
  | Wk_fire
  | Wk_result nat "heartbeat_result option"
  | Wk_set_handler "nat option"
  | Wk_dispose wake_disposer

fun wake_apply :: "int \<times> wake_op \<Rightarrow> wake_state \<Rightarrow> wake_state" where
  "wake_apply (now, Wk_enable b) s = setHeartbeatsEnabled b s"
| "wake_apply (now, Wk_request q c) s = requestHeartbeat q c now s"
| "wake_apply (now, Wk_fire) s = wake_fire now s"
| "wake_apply (now, Wk_result rid a) s = wake_result rid a now s"
| "wake_apply (now, Wk_set_handler h) s = snd (setHeartbeatWakeHandler h now s)"
| "wake_apply (now, Wk_dispose d) s = dispose_wake_handler d s"

definition wake_step :: "wake_state \<Rightarrow> wake_state \<Rightarrow> bool" where
  "wake_step s t \<longleftrightarrow> (\<exists>o'. t = wake_apply o' s)"

end
