(* ===== verification/Heartbeat_Schedule.thy ===== *)
theory Heartbeat_Schedule
  imports Heartbeat_Wake
begin

text \<open>
  When a heartbeat is due: the gate that defers a wake (\<open>src/infra/heartbeat-cooldown.ts\<close>), the
  slots of an agent (\<open>src/infra/heartbeat-schedule.ts\<close>), the hours in which it is active
  (\<open>src/infra/heartbeat-active-hours.ts\<close>), and the interval as it is written in the configuration
  (\<open>src/cli/parse-duration.ts\<close>). Times are whole milliseconds, so \<open>Math.floor\<close> changes nothing; a
  duration is a fraction until it is rounded. What \<open>Intl.DateTimeFormat\<close> knows about time zones
  and the SHA-256 digest are parameters.
\<close>

section \<open>The gate\<close>

definition DEFAULT_MIN_WAKE_SPACING_MS :: int where "DEFAULT_MIN_WAKE_SPACING_MS = 30000"
definition DEFAULT_FLOOD_WINDOW_MS :: int where "DEFAULT_FLOOD_WINDOW_MS = 60000"
definition DEFAULT_FLOOD_THRESHOLD :: nat where "DEFAULT_FLOOD_THRESHOLD = 5"

datatype defer_reason = Not_due | Min_spacing | Flood

datatype defer_decision = Run_now | Defer defer_reason

record defer_input =
  diIntent :: wake_intent
  diNow :: int
  diNextDueMs :: int
  diLastRunStartedAtMs :: "int option"
  diRecentRunStarts :: "int list option"
  diMinSpacingMs :: "int option"
  diFloodWindowMs :: "int option"
  diFloodThreshold :: "nat option"

definition checkFloodGuard :: "defer_input \<Rightarrow> defer_decision option" where
  "checkFloodGuard inp =
     (let floodWindow = js_nullish (diFloodWindowMs inp) DEFAULT_FLOOD_WINDOW_MS;
          floodThreshold = js_nullish (diFloodThreshold inp) DEFAULT_FLOOD_THRESHOLD
      in case diRecentRunStarts inp of
           None \<Rightarrow> None
         | Some starts \<Rightarrow>
             if length starts < floodThreshold \<or> floodWindow \<le> 0 then None
             else (let windowStart = diNow inp - floodWindow;
                       inWindow = length (takeWhile (\<lambda>ts. \<not> ts < windowStart) (rev starts))
                   in if floodThreshold \<le> inWindow then Some (Defer Flood) else None))"

definition shouldDeferWake :: "defer_input \<Rightarrow> defer_decision" where
  "shouldDeferWake inp =
     (if diIntent inp = Intent_manual then Run_now
      else if diIntent inp = Intent_immediate then js_nullish (checkFloodGuard inp) Run_now
      else (case checkFloodGuard inp of
          Some floodDefer \<Rightarrow> floodDefer
        | None \<Rightarrow>
            if diIntent inp = Intent_scheduled
            then (if diNow inp < diNextDueMs inp then Defer Not_due else Run_now)
            else (case diLastRunStartedAtMs inp of
                None \<Rightarrow> Run_now
              | Some lastRun \<Rightarrow>
                  if diNow inp < diNextDueMs inp then Defer Not_due
                  else (let minSpacing = js_nullish (diMinSpacingMs inp) DEFAULT_MIN_WAKE_SPACING_MS
                        in if 0 < minSpacing \<and> diNow inp - lastRun < minSpacing then Defer Min_spacing
                           else Run_now))))"

definition recordRunStart :: "int list \<Rightarrow> int \<Rightarrow> nat option \<Rightarrow> int list" where
  "recordRunStart buffer ts floodThreshold =
     (let b = buffer @ [ts];
          most = js_nullish floodThreshold DEFAULT_FLOOD_THRESHOLD + 1
      in drop (length b - most) b)"

section \<open>Slots\<close>

text \<open>The remainder of JavaScript has the sign of the dividend.\<close>

definition js_rem :: "int \<Rightarrow> int \<Rightarrow> int" where
  "js_rem a b = (if 0 \<le> a then a mod \<bar>b\<bar> else - ((- a) mod \<bar>b\<bar>))"

definition normalizeModulo :: "int \<Rightarrow> int \<Rightarrow> int" where
  "normalizeModulo v divisor = js_rem (js_rem v divisor + divisor) divisor"

text \<open>\<open>digest32\<close> reads the first four bytes of the SHA-256 digest of a text.\<close>

definition resolveHeartbeatPhaseMs :: "(string \<Rightarrow> int) \<Rightarrow> string \<Rightarrow> string \<Rightarrow> int \<Rightarrow> int" where
  "resolveHeartbeatPhaseMs digest32 schedulerSeed agentId interval =
     js_rem (digest32 (schedulerSeed @ '':'' @ agentId)) (max 1 interval)"

definition computeNextHeartbeatPhaseDueMs :: "int \<Rightarrow> int \<Rightarrow> int \<Rightarrow> int" where
  "computeNextHeartbeatPhaseDueMs nowMs interval phase =
     (let intervalMs = max 1 interval;
          phaseMs = normalizeModulo phase intervalMs;
          cyclePositionMs = normalizeModulo nowMs intervalMs;
          deltaMs = normalizeModulo (phaseMs - cyclePositionMs) intervalMs
      in nowMs + (if deltaMs = 0 then intervalMs else deltaMs))"

record prev_slot =
  psIntervalMs :: int
  psPhaseMs :: int
  psNextDueMs :: int

definition resolveNextHeartbeatDueMs :: "int \<Rightarrow> int \<Rightarrow> int \<Rightarrow> prev_slot option \<Rightarrow> int" where
  "resolveNextHeartbeatDueMs nowMs interval phase prev =
     (let intervalMs = max 1 interval;
          phaseMs = normalizeModulo phase intervalMs;
          fresh = computeNextHeartbeatPhaseDueMs nowMs intervalMs phaseMs
      in case prev of
           None \<Rightarrow> fresh
         | Some p \<Rightarrow>
             if psIntervalMs p = intervalMs \<and> psPhaseMs p = phaseMs \<and> nowMs < psNextDueMs p
             then psNextDueMs p else fresh)"

definition MAX_SEEK_HORIZON_MS :: int where "MAX_SEEK_HORIZON_MS = 7 * 24 * 60 * 60000"
definition MAX_SEEK_ITERATIONS :: nat where "MAX_SEEK_ITERATIONS = 10080"

text \<open>The loop: the count is what is left of the iterations.\<close>

fun seek_slot :: "(int \<Rightarrow> bool) \<Rightarrow> int \<Rightarrow> int \<Rightarrow> int \<Rightarrow> nat \<Rightarrow> int option" where
  "seek_slot isActive intervalMs horizonMs candidateMs 0 = None"
| "seek_slot isActive intervalMs horizonMs candidateMs (Suc n) =
     (if horizonMs < candidateMs then None
      else if isActive candidateMs then Some candidateMs
      else seek_slot isActive intervalMs horizonMs (candidateMs + intervalMs) n)"

definition seekNextActivePhaseDueMs :: "int \<Rightarrow> int \<Rightarrow> (int \<Rightarrow> bool) option \<Rightarrow> int" where
  "seekNextActivePhaseDueMs startMs interval isActive =
     (case isActive of
        None \<Rightarrow> startMs
      | Some active \<Rightarrow>
          js_nullish (seek_slot active (max 1 interval) (startMs + MAX_SEEK_HORIZON_MS) startMs MAX_SEEK_ITERATIONS)
            startMs)"

section \<open>Durations\<close>

definition digit :: "char \<Rightarrow> bool" where
  "digit c \<longleftrightarrow> c \<in> set ''0123456789''"

definition number_of :: "string \<Rightarrow> int" where
  "number_of ds = foldl (\<lambda>n c. 10 * n + (of_char c - 48)) 0 ds"

text \<open>\<open>\d+(?:\.\d+)?\<close> at the start of a text, with its value and what follows.\<close>

definition duration_number :: "string \<Rightarrow> (rat \<times> string) option" where
  "duration_number s =
     (let ds = takeWhile digit s;
          rest = dropWhile digit s
      in if ds = [] then None
         else (case rest of
             [] \<Rightarrow> Some (of_int (number_of ds), rest)
           | c # r \<Rightarrow>
               (let fs = takeWhile digit r
                in if c = CHR ''.'' \<and> fs \<noteq> []
                   then Some (of_int (number_of ds) + of_int (number_of fs) / 10 ^ length fs, dropWhile digit r)
                   else Some (of_int (number_of ds), rest))))"

definition DURATION_MULTIPLIERS :: "(string, int) jmap" where
  "DURATION_MULTIPLIERS =
     [(''ms'', 1), (''s'', 1000), (''m'', 60000), (''h'', 3600000), (''d'', 86400000)]"

text \<open>\<open>ms|s|m|h|d\<close> at the start of a text.\<close>

fun duration_unit :: "string \<Rightarrow> (string \<times> string) option" where
  "duration_unit (a # b # r) =
     (if a = CHR ''m'' \<and> b = CHR ''s'' then Some (''ms'', r)
      else if a \<in> set ''smhd'' then Some ([a], b # r) else None)"
| "duration_unit [a] = (if a \<in> set ''smhd'' then Some ([a], []) else None)"
| "duration_unit [] = None"

definition duration_token :: "string \<Rightarrow> (rat \<times> string) option" where
  "duration_token s =
     (case duration_number s of
        None \<Rightarrow> None
      | Some (v, r) \<Rightarrow>
          (case duration_unit r of
             None \<Rightarrow> None
           | Some (u, r') \<Rightarrow> Some (v * of_int (js_nullish (jm_get DURATION_MULTIPLIERS u) 1), r')))"

lemma duration_number_shorter: "duration_number s = Some (v, r) \<Longrightarrow> length r < length s"
proof -
  assume a: "duration_number s = Some (v, r)"
  then have ne: "takeWhile digit s \<noteq> []" by (auto simp: duration_number_def Let_def)
  then have lt: "length (dropWhile digit s) < length s"
    by (cases s) (auto simp: length_dropWhile_le le_imp_less_Suc split: if_splits)
  show "length r < length s"
  proof (cases "dropWhile digit s")
    case Nil
    then show ?thesis using a lt ne unfolding duration_number_def Let_def Nil by simp
  next
    case (Cons c q)
    have "length (dropWhile digit q) \<le> length q" by (rule length_dropWhile_le)
    then show ?thesis using a lt ne unfolding duration_number_def Let_def Cons by (auto split: if_splits)
  qed
qed

lemma duration_unit_shorter: "duration_unit s = Some (u, r) \<Longrightarrow> length r < length s"
  by (induction s rule: duration_unit.induct) (auto split: if_splits)

lemma duration_token_shorter: "duration_token s = Some (v, r) \<Longrightarrow> length r < length s"
  by (auto simp: duration_token_def split: option.splits dest!: duration_number_shorter duration_unit_shorter)

function duration_total :: "string \<Rightarrow> rat option" where
  "duration_total s =
     (if s = [] then Some 0
      else (case duration_token s of
          None \<Rightarrow> None
        | Some (v, r) \<Rightarrow> map_option ((+) v) (duration_total r)))"
  by pat_completeness auto
termination by (relation "measure length") (auto dest: duration_token_shorter)

declare duration_total.simps [simp del]

text \<open>\<open>Math.round\<close>, and \<open>parseDurationMs\<close>, which throws when there is no result.\<close>

definition js_round :: "rat \<Rightarrow> int" where
  "js_round x = \<lfloor>x + 1 / 2\<rfloor>"

definition parseDurationMs :: "string \<Rightarrow> string option \<Rightarrow> int option" where
  "parseDurationMs raw defaultUnit =
     (let trimmed = normalizeLowercaseStringOrEmpty (js_nullish (normalizeOptionalString (Some raw)) [])
      in if trimmed = [] then None
         else (case duration_number trimmed of
             Some (v, []) \<Rightarrow>
               Some (js_round (v * of_int (js_nullish (jm_get DURATION_MULTIPLIERS (js_nullish defaultUnit ''ms'')) 1)))
           | _ \<Rightarrow> map_option js_round (duration_total trimmed)))"

section \<open>Active hours\<close>

record active_hours =
  ahStart :: "string option"
  ahEnd :: "string option"
  ahTimezone :: "string option"

text \<open>
  What the platform knows: which names are time zones, the zone of the host, and the hour and
  minute of an instant in a zone.
\<close>

record zone_info =
  ziValid :: "string \<Rightarrow> bool"
  ziHost :: "string option"
  ziClock :: "string \<Rightarrow> int \<Rightarrow> (int \<times> int) option"

definition host_zone :: "zone_info \<Rightarrow> string" where
  "host_zone z = js_or_str (js_nullish (map_option js_trim (ziHost z)) []) ''UTC''"

definition resolveUserTimezone :: "zone_info \<Rightarrow> string option \<Rightarrow> string" where
  "resolveUserTimezone z configured =
     (let trimmed = js_nullish (map_option js_trim configured) []
      in if trimmed \<noteq> [] \<and> ziValid z trimmed then trimmed else host_zone z)"

definition resolveActiveHoursTimezone :: "zone_info \<Rightarrow> string option \<Rightarrow> string option \<Rightarrow> string" where
  "resolveActiveHoursTimezone z userTimezone raw =
     (let trimmed = js_nullish (map_option js_trim raw) []
      in if trimmed = [] \<or> trimmed = ''user'' then resolveUserTimezone z userTimezone
         else if trimmed = ''local'' then host_zone z
         else if ziValid z trimmed then trimmed
         else resolveUserTimezone z userTimezone)"

fun active_hours_time :: "string \<Rightarrow> (int \<times> int) option" where
  "active_hours_time [a, b, c, d, e] =
     (if c = CHR '':'' \<and> digit b \<and> (a \<in> set ''01'' \<or> a = CHR ''2'' \<and> b \<in> set ''0123'') \<and> d \<in> set ''012345'' \<and> digit e
         \<or> [a, b, c, d, e] = ''24:00''
      then Some (number_of [a, b], number_of [d, e]) else None)"
| "active_hours_time _ = None"

definition parseActiveHoursTime :: "bool \<Rightarrow> string option \<Rightarrow> int option" where
  "parseActiveHoursTime allow24 raw =
     (case active_hours_time (js_nullish raw []) of
        None \<Rightarrow> None
      | Some (hour, minute) \<Rightarrow>
          if hour = 24 then (if \<not> allow24 \<or> minute \<noteq> 0 then None else Some (24 * 60))
          else Some (hour * 60 + minute))"

definition resolveMinutesInTimeZone :: "zone_info \<Rightarrow> int \<Rightarrow> string \<Rightarrow> int option" where
  "resolveMinutesInTimeZone z nowMs timeZone = map_option (\<lambda>(h, m). h * 60 + m) (ziClock z timeZone nowMs)"

definition isWithinActiveHours :: "zone_info \<Rightarrow> string option \<Rightarrow> active_hours option \<Rightarrow> int \<Rightarrow> bool" where
  "isWithinActiveHours z userTimezone active nowMs =
     (case active of
        None \<Rightarrow> True
      | Some a \<Rightarrow>
          (case (parseActiveHoursTime False (ahStart a), parseActiveHoursTime True (ahEnd a)) of
             (Some startMin, Some endMin) \<Rightarrow>
               if startMin = endMin then False
               else (case resolveMinutesInTimeZone z nowMs (resolveActiveHoursTimezone z userTimezone (ahTimezone a)) of
                   None \<Rightarrow> True
                 | Some currentMin \<Rightarrow>
                     if startMin < endMin then startMin \<le> currentMin \<and> currentMin < endMin
                     else startMin \<le> currentMin \<or> currentMin < endMin)
           | _ \<Rightarrow> True))"

end
