(* ===== verification/Heartbeat_Runner.thy ===== *)
theory Heartbeat_Runner
  imports Heartbeat_Schedule Routing
begin

text \<open>
  The scheduler of the heartbeats, \<open>startHeartbeatRunner\<close> of \<open>src/infra/heartbeat-runner.ts\<close> with
  \<open>src/infra/heartbeat-summary.ts\<close> and \<open>src/utils/timer-delay.ts\<close>, together with the wake layer it
  registers its handler with.

  The states of the agents are mutable objects that a running heartbeat keeps while a new
  configuration replaces the table: they are entries of \<open>rnObjects\<close>, and the buffers of run starts,
  which the new objects share with the old ones, entries of \<open>rnArrays\<close>. A call of the handler is an
  entry of \<open>hyCalls\<close>; \<open>runOnce\<close> and the list of due commitments are answered by the environment, one
  operation for each answer. Of the options of \<open>runOnce\<close> the session and the agent are kept, and
  the log lines are left out.
\<close>

section \<open>Configuration\<close>

record hb_settings =
  hsEvery :: "string option"
  hsTarget :: "string option"
  hsActiveHours :: "active_hours option"

record hb_entry = agent_entry +
  heHeartbeat :: "hb_settings option"

record hb_config =
  hcList :: "hb_entry list"
  hcDefaults :: "hb_settings option"
  hcUserTimezone :: "string option"

text \<open>What lies outside: the digest, the time zones, and the session a heartbeat uses.\<close>

record hb_env =
  evDigest :: "string \<Rightarrow> int"
  evSeed :: string
  evZones :: zone_info
  evSessionKey :: "hb_config \<Rightarrow> string \<Rightarrow> hb_settings option \<Rightarrow> string"

definition DEFAULT_HEARTBEAT_EVERY :: string where "DEFAULT_HEARTBEAT_EVERY = ''30m''"

definition hasExplicitHeartbeatAgents :: "hb_config \<Rightarrow> bool" where
  "hasExplicitHeartbeatAgents cfg \<longleftrightarrow> (\<exists>e \<in> set (hcList cfg). heHeartbeat e \<noteq> None)"

definition resolveHeartbeatConfig :: "hb_config \<Rightarrow> string \<Rightarrow> hb_settings option" where
  "resolveHeartbeatConfig cfg agentId =
     (let overrides = Option.bind
            (find (\<lambda>e. normalizeAgentId (agentEntryId e) = normalizeAgentId (Some agentId)) (hcList cfg)) heHeartbeat
      in if agentId = [] then hcDefaults cfg
         else (case (hcDefaults cfg, overrides) of
             (None, None) \<Rightarrow> None
           | (Some d, None) \<Rightarrow> Some d
           | (None, Some h) \<Rightarrow> Some h
           | (Some d, Some h) \<Rightarrow>
               Some \<lparr>hsEvery = opt_else (hsEvery h) (hsEvery d), hsTarget = opt_else (hsTarget h) (hsTarget d),
                 hsActiveHours = opt_else (hsActiveHours h) (hsActiveHours d)\<rparr>))"

definition listAgentIds :: "hb_config \<Rightarrow> string list" where
  "listAgentIds cfg =
     (if hcList cfg = [] then [DEFAULT_AGENT_ID]
      else uniqueValues (map (\<lambda>e. normalizeAgentId (agentEntryId e)) (hcList cfg)))"

definition resolveHeartbeatAgents :: "hb_config \<Rightarrow> (string \<times> hb_settings option) list" where
  "resolveHeartbeatAgents cfg =
     (if hasExplicitHeartbeatAgents cfg
      then filter (\<lambda>(i, h). i \<noteq> [])
        (map (\<lambda>e. let i = normalizeAgentId (agentEntryId e) in (i, resolveHeartbeatConfig cfg i))
          (filter (\<lambda>e. heHeartbeat e \<noteq> None) (hcList cfg)))
      else if hcDefaults cfg \<noteq> None
      then map (\<lambda>i. (i, resolveHeartbeatConfig cfg i)) (listAgentIds cfg)
      else [(default_agent_of (hcList cfg), resolveHeartbeatConfig cfg (default_agent_of (hcList cfg)))])"

definition resolveHeartbeatIntervalMs :: "hb_config \<Rightarrow> string option \<Rightarrow> hb_settings option \<Rightarrow> int option" where
  "resolveHeartbeatIntervalMs cfg overrideEvery heartbeat =
     (let raw = js_nullish (opt_else overrideEvery (opt_else (Option.bind heartbeat hsEvery)
            (Option.bind (hcDefaults cfg) hsEvery))) DEFAULT_HEARTBEAT_EVERY;
          trimmed = js_nullish (normalizeOptionalString (Some raw)) []
      in if raw = [] \<or> trimmed = [] then None
         else (case parseDurationMs trimmed (Some ''m'') of
             None \<Rightarrow> None
           | Some ms \<Rightarrow> if ms \<le> 0 then None else Some ms))"

definition canHeartbeatDeliverCommitments :: "hb_settings option \<Rightarrow> bool" where
  "canHeartbeatDeliverCommitments heartbeat \<longleftrightarrow>
     js_nullish (normalizeOptionalString (Option.bind heartbeat hsTarget)) ''none'' \<noteq> ''none''"

definition resolveActiveHoursSchedule :: "hb_env \<Rightarrow> hb_config \<Rightarrow> hb_settings option \<Rightarrow> active_hours option" where
  "resolveActiveHoursSchedule env cfg heartbeat =
     (case Option.bind heartbeat hsActiveHours of
        None \<Rightarrow> None
      | Some a \<Rightarrow> Some (a\<lparr>ahTimezone :=
          Some (resolveActiveHoursTimezone (evZones env) (hcUserTimezone cfg) (ahTimezone a))\<rparr>))"

definition activeHoursConfigMatch :: "active_hours option \<Rightarrow> active_hours option \<Rightarrow> bool" where
  "activeHoursConfigMatch a b \<longleftrightarrow>
     (case (a, b) of
        (None, None) \<Rightarrow> True
      | (Some x, Some y) \<Rightarrow> ahStart x = ahStart y \<and> ahEnd x = ahEnd y \<and> ahTimezone x = ahTimezone y
      | _ \<Rightarrow> False)"

definition active_at :: "hb_env \<Rightarrow> hb_config \<Rightarrow> hb_settings option \<Rightarrow> int \<Rightarrow> bool" where
  "active_at env cfg heartbeat ms =
     isWithinActiveHours (evZones env) (hcUserTimezone cfg) (Option.bind heartbeat hsActiveHours) ms"

section \<open>State\<close>

record hb_agent =
  haAgentId :: string
  haSettings :: "hb_settings option"
  haActiveHours :: "active_hours option"
  haIntervalMs :: int
  haPhaseMs :: int
  haNextDueMs :: int
  haLastRunStartedAtMs :: "int option"
  haRecentRunStarts :: nat
  haFloodLogged :: bool

record runner_state =
  rnCfg :: hb_config
  rnAgents :: "(string, nat) jmap"
  rnObjects :: "hb_agent list"
  rnArrays :: "int list list"
  rnTimer :: "int option"
  rnStopped :: bool

text \<open>
  What \<open>runOnce\<close> comes to, and where the heartbeat of one agent stands: it awaits \<open>runOnce\<close>, the
  list of the sessions with due commitments (with the default session that was resolved before),
  or one of their runs (with those that are left), or it has its outcome.
\<close>

datatype hb_run_outcome = Answered heartbeat_result | Threw string

datatype agent_stage =
    Awaiting_run
  | Awaiting_commitments bool string
  | Awaiting_commitment bool "string list"
  | Agent_done bool "heartbeat_result option"

record hb_agent_run =
  arAgent :: nat
  arStage :: agent_stage

text \<open>The result of a call is missing while it runs, and \<open>Some None\<close> when it threw.\<close>

record handler_call =
  hlRun :: nat
  hlRequest :: wake_request
  hlNow :: int
  hlTargeted :: bool
  hlAgents :: "hb_agent_run list"
  hlResult :: "heartbeat_result option option"
  hlDelivered :: bool

record hb_system =
  hyWakes :: wake_state
  hyRunner :: runner_state
  hyCalls :: "handler_call list"
  hyDisposer :: wake_disposer

section \<open>The schedule of an agent\<close>

definition change_agent :: "nat \<Rightarrow> (hb_agent \<Rightarrow> hb_agent) \<Rightarrow> runner_state \<Rightarrow> runner_state" where
  "change_agent a f st = st\<lparr>rnObjects := (rnObjects st)[a := f (rnObjects st ! a)]\<rparr>"

definition resolveNextDue :: "int \<Rightarrow> int \<Rightarrow> int \<Rightarrow> hb_agent option \<Rightarrow> int" where
  "resolveNextDue now interval phase prevState =
     resolveNextHeartbeatDueMs now interval phase
       (map_option (\<lambda>p. \<lparr>psIntervalMs = haIntervalMs p, psPhaseMs = haPhaseMs p, psNextDueMs = haNextDueMs p\<rparr>)
         prevState)"

definition seekActiveSlotForAgent :: "hb_env \<Rightarrow> hb_agent \<Rightarrow> int \<Rightarrow> runner_state \<Rightarrow> int" where
  "seekActiveSlotForAgent env agent rawDueMs st =
     seekNextActivePhaseDueMs rawDueMs (haIntervalMs agent) (Some (active_at env (rnCfg st) (haSettings agent)))"

definition advanceAgentSchedule :: "hb_env \<Rightarrow> nat \<Rightarrow> int \<Rightarrow> string option \<Rightarrow> runner_state \<Rightarrow> runner_state" where
  "advanceAgentSchedule env a now reason st =
     (let agent = rnObjects st ! a;
          rawDueMs = (if reason = Some ''interval''
            then computeNextHeartbeatPhaseDueMs now (haIntervalMs agent) (haPhaseMs agent)
            else now + haIntervalMs agent)
      in change_agent a (\<lambda>x. x\<lparr>haNextDueMs := seekActiveSlotForAgent env agent rawDueMs st\<rparr>) st)"

definition evaluateWakeDeferral :: "nat \<Rightarrow> int \<Rightarrow> wake_intent \<Rightarrow> runner_state \<Rightarrow> defer_decision \<times> runner_state" where
  "evaluateWakeDeferral a now intent st =
     (let agent = rnObjects st ! a;
          decision = shouldDeferWake \<lparr>diIntent = intent, diNow = now, diNextDueMs = haNextDueMs agent,
            diLastRunStartedAtMs = haLastRunStartedAtMs agent,
            diRecentRunStarts = Some (rnArrays st ! haRecentRunStarts agent),
            diMinSpacingMs = None, diFloodWindowMs = None, diFloodThreshold = None\<rparr>
      in (decision,
          if decision = Defer Flood \<and> \<not> haFloodLogged agent
          then change_agent a (\<lambda>x. x\<lparr>haFloodLogged := True\<rparr>) st else st))"

definition recordRunBookkeeping :: "nat \<Rightarrow> int \<Rightarrow> runner_state \<Rightarrow> runner_state" where
  "recordRunBookkeeping a now st =
     (let buffer = haRecentRunStarts (rnObjects st ! a);
          st1 = change_agent a (\<lambda>x. x\<lparr>haLastRunStartedAtMs := Some now, haFloodLogged := False\<rparr>) st
      in st1\<lparr>rnArrays := (rnArrays st1)[buffer := recordRunStart (rnArrays st1 ! buffer) now None]\<rparr>)"

section \<open>The timer\<close>

definition MAX_SAFE_TIMEOUT_DELAY_MS :: int where "MAX_SAFE_TIMEOUT_DELAY_MS = 2147483647"

definition resolveSafeTimeoutDelayMs :: "int \<Rightarrow> int \<Rightarrow> int" where
  "resolveSafeTimeoutDelayMs delayMs minMs =
     min MAX_SAFE_TIMEOUT_DELAY_MS (max (min MAX_SAFE_TIMEOUT_DELAY_MS (max 0 minMs)) delayMs)"

definition next_due :: "runner_state \<Rightarrow> int" where
  "next_due st = Min ((\<lambda>(i, a). haNextDueMs (rnObjects st ! a)) ` set (rnAgents st))"

definition scheduleNext :: "int \<Rightarrow> runner_state \<Rightarrow> runner_state" where
  "scheduleNext now st =
     (if rnStopped st then st
      else if rnAgents st = [] then st\<lparr>rnTimer := None\<rparr>
      else st\<lparr>rnTimer := Some (now + resolveSafeTimeoutDelayMs (max 0 (next_due st - now)) 0)\<rparr>)"

section \<open>A new configuration\<close>

definition next_agent ::
  "hb_env \<Rightarrow> hb_config \<Rightarrow> int \<Rightarrow> (string, nat) jmap \<Rightarrow> string \<times> hb_settings option
     \<Rightarrow> runner_state \<times> (string, nat) jmap \<Rightarrow> runner_state \<times> (string, nat) jmap" where
  "next_agent env cfg now prevAgents entry acc =
     (let (i, heartbeat) = entry; (st, nextAgents) = acc
      in case resolveHeartbeatIntervalMs cfg None heartbeat of
           None \<Rightarrow> acc
         | Some interval \<Rightarrow>
             (let phase = resolveHeartbeatPhaseMs (evDigest env) (evSeed env) i interval;
                  prevState = map_option ((!) (rnObjects st)) (jm_get prevAgents i);
                  hours = resolveActiveHoursSchedule env cfg heartbeat;
                  ahChanged = (case prevState of
                      None \<Rightarrow> False | Some p \<Rightarrow> \<not> activeHoursConfigMatch (haActiveHours p) hours);
                  rawNextDueMs = resolveNextDue now interval phase (if ahChanged then None else prevState);
                  due = seekNextActivePhaseDueMs rawNextDueMs interval (Some (active_at env cfg heartbeat));
                  (buffer, arrays) = (case prevState of
                      None \<Rightarrow> (length (rnArrays st), rnArrays st @ [[]])
                    | Some p \<Rightarrow> (haRecentRunStarts p, rnArrays st));
                  agent = \<lparr>haAgentId = i, haSettings = heartbeat, haActiveHours = hours,
                    haIntervalMs = interval, haPhaseMs = phase, haNextDueMs = due,
                    haLastRunStartedAtMs = Option.bind prevState haLastRunStartedAtMs,
                    haRecentRunStarts = buffer,
                    haFloodLogged = (case prevState of None \<Rightarrow> False | Some p \<Rightarrow> haFloodLogged p)\<rparr>
              in (st\<lparr>rnObjects := rnObjects st @ [agent], rnArrays := arrays\<rparr>,
                  jm_set i (length (rnObjects st)) nextAgents)))"

definition updateConfig :: "hb_env \<Rightarrow> hb_config \<Rightarrow> int \<Rightarrow> runner_state \<Rightarrow> runner_state" where
  "updateConfig env cfg now st =
     (if rnStopped st then st
      else (let (st1, nextAgents) = fold (next_agent env cfg now (rnAgents st)) (resolveHeartbeatAgents cfg) (st, [])
            in scheduleNext now (st1\<lparr>rnCfg := cfg, rnAgents := nextAgents\<rparr>)))"

section \<open>A call of the handler\<close>

definition defer_text :: "defer_reason \<Rightarrow> string" where
  "defer_text r = (case r of Not_due \<Rightarrow> ''not-due'' | Min_spacing \<Rightarrow> ''min-spacing'' | Flood \<Rightarrow> ''flood'')"

definition hb_disabled :: heartbeat_result where "hb_disabled = Hb_skipped ''disabled''"

text \<open>The outcome of one agent is known when its closure has returned.\<close>

definition agent_is_done :: "hb_agent_run \<Rightarrow> bool" where
  "agent_is_done r \<longleftrightarrow> (case arStage r of Agent_done _ _ \<Rightarrow> True | _ \<Rightarrow> False)"

definition agent_ran :: "hb_agent_run \<Rightarrow> bool" where
  "agent_ran r \<longleftrightarrow> (case arStage r of Agent_done b _ \<Rightarrow> b | _ \<Rightarrow> False)"

definition agent_busy :: "hb_agent_run \<Rightarrow> heartbeat_result option" where
  "agent_busy r = (case arStage r of Agent_done _ b \<Rightarrow> b | _ \<Rightarrow> None)"

text \<open>
  The end of a call: its result is set, and the \<open>finally\<close> block arms the timer of the scheduler
  again unless the wake layer retries.
\<close>

definition settle_call :: "nat \<Rightarrow> heartbeat_result option \<Rightarrow> bool \<Rightarrow> int \<Rightarrow> hb_system \<Rightarrow> hb_system" where
  "settle_call c result rearm now sys =
     sys\<lparr>hyCalls := (hyCalls sys)[c := (hyCalls sys ! c)\<lparr>hlResult := Some result\<rparr>],
         hyRunner := (if rearm then scheduleNext now (hyRunner sys) else hyRunner sys)\<rparr>"

text \<open>What follows \<open>Promise.all\<close> once every agent has its outcome.\<close>

definition finish_broadcast :: "nat \<Rightarrow> int \<Rightarrow> hb_system \<Rightarrow> hb_system" where
  "finish_broadcast c now sys =
     (let call = hyCalls sys ! c
      in if hlResult call \<noteq> None \<or> hlTargeted call \<or> \<not> list_all agent_is_done (hlAgents call) then sys
         else (case List.map_filter agent_busy (hlAgents call) of
             busy # _ \<Rightarrow> settle_call c (Some busy) False now sys
           | [] \<Rightarrow>
               if list_ex agent_ran (hlAgents call)
               then settle_call c (Some (Hb_ran (now - hlNow call))) True now sys
               else settle_call c (Some (Hb_skipped
                 (if wqReason (hlRequest call) = Some ''interval'' then ''not-due'' else ''disabled''))) True now sys))"

text \<open>\<open>runOneAgent\<close> up to \<open>runOnce\<close>.\<close>

definition begin_agent :: "int \<Rightarrow> wake_intent \<Rightarrow> nat \<Rightarrow> runner_state \<times> hb_agent_run list \<Rightarrow> runner_state \<times> hb_agent_run list" where
  "begin_agent now intent a acc =
     (let (decision, st) = evaluateWakeDeferral a now intent (fst acc)
      in (st, snd acc @ [\<lparr>arAgent = a,
            arStage = (case decision of Defer _ \<Rightarrow> Agent_done False None | Run_now \<Rightarrow> Awaiting_run)\<rparr>]))"

definition new_call :: "nat \<Rightarrow> wake_request \<Rightarrow> int \<Rightarrow> bool \<Rightarrow> hb_agent_run list \<Rightarrow> hb_system \<Rightarrow> hb_system" where
  "new_call rid q now targeted agents sys =
     sys\<lparr>hyCalls := hyCalls sys @ [\<lparr>hlRun = rid, hlRequest = q, hlNow = now, hlTargeted = targeted,
       hlAgents = agents, hlResult = None, hlDelivered = False\<rparr>]\<rparr>"

definition begin_call :: "nat \<Rightarrow> wake_request \<Rightarrow> int \<Rightarrow> hb_system \<Rightarrow> hb_system" where
  "begin_call rid q now sys =
     (let st = hyRunner sys;
          c = length (hyCalls sys);
          requestedAgentId = (case wqAgentId q of
            None \<Rightarrow> None | Some i \<Rightarrow> if i = [] then None else Some (normalizeAgentId (Some i)));
          requestedSessionKey = normalizeOptionalString (wqSessionKey q)
      in if rnStopped st \<or> \<not> areHeartbeatsEnabled (hyWakes sys) \<or> rnAgents st = []
         then settle_call c (Some hb_disabled) False now (new_call rid q now True [] sys)
         else if requestedSessionKey \<noteq> None \<or> requestedAgentId \<noteq> None
         then (case jm_get (rnAgents st)
                 (js_nullish requestedAgentId (resolveAgentIdFromSessionKey requestedSessionKey)) of
             None \<Rightarrow> settle_call c (Some hb_disabled) True now (new_call rid q now True [] sys)
           | Some a \<Rightarrow>
               (let (decision, st1) = evaluateWakeDeferral a now (wqIntent q) st;
                    sys1 = sys\<lparr>hyRunner := st1\<rparr>
                in case decision of
                     Defer r \<Rightarrow> settle_call c (Some (Hb_skipped (defer_text r))) True now (new_call rid q now True [] sys1)
                   | Run_now \<Rightarrow> new_call rid q now True [\<lparr>arAgent = a, arStage = Awaiting_run\<rparr>] sys1))
         else (let (st1, runs) = fold (begin_agent now (wqIntent q)) (map snd (rnAgents st)) (st, [])
               in finish_broadcast c now (new_call rid q now False runs (sys\<lparr>hyRunner := st1\<rparr>))))"

definition set_stage :: "nat \<Rightarrow> nat \<Rightarrow> agent_stage \<Rightarrow> hb_system \<Rightarrow> hb_system" where
  "set_stage c i stage sys =
     (let call = hyCalls sys ! c
      in sys\<lparr>hyCalls := (hyCalls sys)[c := call\<lparr>hlAgents :=
           (hlAgents call)[i := (hlAgents call ! i)\<lparr>arStage := stage\<rparr>]\<rparr>]\<rparr>)"

definition stage_of :: "nat \<Rightarrow> nat \<Rightarrow> hb_system \<Rightarrow> agent_stage option" where
  "stage_of c i sys =
     (if c < length (hyCalls sys) \<and> i < length (hlAgents (hyCalls sys ! c))
      then Some (arStage (hlAgents (hyCalls sys ! c) ! i)) else None)"

text \<open>The bookkeeping after \<open>runOnce\<close>, for any outcome that the wake layer does not retry.\<close>

definition book_run :: "hb_env \<Rightarrow> nat \<Rightarrow> handler_call \<Rightarrow> bool \<Rightarrow> runner_state \<Rightarrow> runner_state" where
  "book_run env a call advance st =
     (let st1 = recordRunBookkeeping a (hlNow call) st
      in if advance then advanceAgentSchedule env a (hlNow call) (wqReason (hlRequest call)) st1 else st1)"

text \<open>\<open>res.status === "ran"\<close>.\<close>

fun did_run :: "heartbeat_result \<Rightarrow> bool" where
  "did_run (Hb_ran _) = True"
| "did_run _ = False"

text \<open>\<open>runOnce\<close> has come to an outcome.\<close>

definition run_once_done :: "hb_env \<Rightarrow> nat \<Rightarrow> nat \<Rightarrow> hb_run_outcome \<Rightarrow> int \<Rightarrow> hb_system \<Rightarrow> hb_system" where
  "run_once_done env c i outcome now sys =
     (if stage_of c i sys \<noteq> Some Awaiting_run then sys
      else
        (let call = hyCalls sys ! c;
             a = arAgent (hlAgents call ! i);
             booked = (\<lambda>advance. sys\<lparr>hyRunner := book_run env a call advance (hyRunner sys)\<rparr>)
         in if hlTargeted call
            then (case outcome of
                Threw msg \<Rightarrow> settle_call c (Some (Hb_failed msg)) True now
                  (set_stage c i (Agent_done False None) (booked True))
              | Answered res \<Rightarrow>
                  if busy_skip res
                  then settle_call c (Some res) False now (set_stage c i (Agent_done False (Some res)) sys)
                  else settle_call c
                    (Some (case res of Hb_ran _ \<Rightarrow> Hb_ran (now - hlNow call) | _ \<Rightarrow> res)) True now
                    (set_stage c i (Agent_done False None) (booked (res \<noteq> hb_disabled))))
            else (case outcome of
                Threw msg \<Rightarrow> finish_broadcast c now (set_stage c i (Agent_done False None) (booked True))
              | Answered res \<Rightarrow>
                  if busy_skip res
                  then finish_broadcast c now (set_stage c i (Agent_done False (Some res)) sys)
                  else
                    (let agentRan = did_run res;
                         sys1 = booked (res \<noteq> hb_disabled);
                         agent = rnObjects (hyRunner sys1) ! a
                     in if canHeartbeatDeliverCommitments (haSettings agent)
                        then set_stage c i (Awaiting_commitments agentRan
                          (evSessionKey env (rnCfg (hyRunner sys1)) (haAgentId agent) (haSettings agent))) sys1
                        else finish_broadcast c now (set_stage c i (Agent_done agentRan None) sys1)))))"

text \<open>The next session with due commitments, or the outcome of the agent.\<close>

definition next_commitment :: "nat \<Rightarrow> nat \<Rightarrow> bool \<Rightarrow> string list \<Rightarrow> int \<Rightarrow> hb_system \<Rightarrow> hb_system" where
  "next_commitment c i agentRan keys now sys =
     (case keys of
        [] \<Rightarrow> finish_broadcast c now (set_stage c i (Agent_done agentRan None) sys)
      | _ # ks \<Rightarrow> set_stage c i (Awaiting_commitment agentRan ks) sys)"

text \<open>\<open>listDueCommitmentSessionKeys\<close> has answered or thrown: then the call throws at once.\<close>

definition commitments_listed :: "nat \<Rightarrow> nat \<Rightarrow> string list option \<Rightarrow> int \<Rightarrow> hb_system \<Rightarrow> hb_system" where
  "commitments_listed c i answer now sys =
     (case stage_of c i sys of
        Some (Awaiting_commitments agentRan defaultSessionKey) \<Rightarrow>
          (case answer of
             None \<Rightarrow>
               (let sys1 = set_stage c i (Agent_done agentRan None) sys
                in if hlResult (hyCalls sys ! c) = None then settle_call c None True now sys1 else sys1)
           | Some keys \<Rightarrow> next_commitment c i agentRan (filter (\<lambda>k. k \<noteq> defaultSessionKey) keys) now sys)
      | _ \<Rightarrow> sys)"

definition commitment_done :: "nat \<Rightarrow> nat \<Rightarrow> hb_run_outcome \<Rightarrow> int \<Rightarrow> hb_system \<Rightarrow> hb_system" where
  "commitment_done c i outcome now sys =
     (case stage_of c i sys of
        Some (Awaiting_commitment agentRan keys) \<Rightarrow>
          (case outcome of
             Threw msg \<Rightarrow> next_commitment c i agentRan keys now sys
           | Answered res \<Rightarrow>
               if busy_skip res then finish_broadcast c now (set_stage c i (Agent_done agentRan (Some res)) sys)
               else next_commitment c i (agentRan \<or> did_run res) keys now sys)
      | _ \<Rightarrow> sys)"

section \<open>The scheduler and the wake layer\<close>

text \<open>The number of the handler the scheduler registers.\<close>

definition runner_handler :: nat where "runner_handler = 0"

text \<open>The wake layer has changed: if it called the handler, the call begins.\<close>

definition after_wakes :: "nat \<Rightarrow> int \<Rightarrow> wake_state \<Rightarrow> hb_system \<Rightarrow> hb_system" where
  "after_wakes rid now w sys =
     (let sys1 = sys\<lparr>hyWakes := w\<rparr>
      in case drop (length (wkCalls (hyWakes sys))) (wkCalls w) of
           [] \<Rightarrow> sys1
         | (h, q) # _ \<Rightarrow> if h = runner_handler then begin_call rid q now sys1 else sys1)"

definition startHeartbeatRunner :: "hb_env \<Rightarrow> hb_config \<Rightarrow> int \<Rightarrow> wake_state \<Rightarrow> hb_system" where
  "startHeartbeatRunner env cfg now w =
     (let (disposer, w1) = setHeartbeatWakeHandler (Some runner_handler) now w
      in \<lparr>hyWakes = w1,
          hyRunner = updateConfig env cfg now
            \<lparr>rnCfg = cfg, rnAgents = [], rnObjects = [], rnArrays = [], rnTimer = None, rnStopped = False\<rparr>,
          hyCalls = [], hyDisposer = disposer\<rparr>)"

text \<open>The timer of the scheduler fires.\<close>

definition interval_wake :: wake_request where
  "interval_wake = \<lparr>wqSource = Src_interval, wqIntent = Intent_scheduled, wqReason = Some ''interval'',
     wqAgentId = None, wqSessionKey = None, wqHeartbeat = None\<rparr>"

definition runner_timer_fires :: "int \<Rightarrow> hb_system \<Rightarrow> hb_system" where
  "runner_timer_fires now sys =
     (case rnTimer (hyRunner sys) of
        None \<Rightarrow> sys
      | Some due \<Rightarrow>
          if now < due then sys
          else sys\<lparr>hyRunner := (hyRunner sys)\<lparr>rnTimer := None\<rparr>,
                   hyWakes := requestHeartbeat interval_wake (Some (Fin 0)) now (hyWakes sys)\<rparr>)"

text \<open>The wake layer gets the result of a call.\<close>

definition deliver_result :: "nat \<Rightarrow> int \<Rightarrow> hb_system \<Rightarrow> hb_system" where
  "deliver_result c now sys =
     (if c < length (hyCalls sys) \<and> \<not> hlDelivered (hyCalls sys ! c)
      then (case hlResult (hyCalls sys ! c) of
          None \<Rightarrow> sys
        | Some result \<Rightarrow>
            (let call = hyCalls sys ! c;
                 sys1 = sys\<lparr>hyCalls := (hyCalls sys)[c := call\<lparr>hlDelivered := True\<rparr>]\<rparr>
             in after_wakes (hlRun call) now (wake_result (hlRun call) result now (hyWakes sys)) sys1))
      else sys)"

definition stop_runner :: "hb_system \<Rightarrow> hb_system" where
  "stop_runner sys =
     (if rnStopped (hyRunner sys) then sys
      else sys\<lparr>hyRunner := (hyRunner sys)\<lparr>rnStopped := True, rnTimer := None\<rparr>,
               hyWakes := dispose_wake_handler (hyDisposer sys) (hyWakes sys)\<rparr>)"

datatype hb_op =
    Hb_request wake_request "jsnum option"
  | Hb_enable bool
  | Hb_update hb_config
  | Hb_timer
  | Hb_wake_timer
  | Hb_run_done nat nat hb_run_outcome
  | Hb_listed nat nat "string list option"
  | Hb_commitment nat nat hb_run_outcome
  | Hb_deliver nat
  | Hb_stop

fun hb_apply :: "hb_env \<Rightarrow> int \<times> hb_op \<Rightarrow> hb_system \<Rightarrow> hb_system" where
  "hb_apply env (now, Hb_request q c) sys = sys\<lparr>hyWakes := requestHeartbeat q c now (hyWakes sys)\<rparr>"
| "hb_apply env (now, Hb_enable b) sys = sys\<lparr>hyWakes := setHeartbeatsEnabled b (hyWakes sys)\<rparr>"
| "hb_apply env (now, Hb_update cfg) sys = sys\<lparr>hyRunner := updateConfig env cfg now (hyRunner sys)\<rparr>"
| "hb_apply env (now, Hb_timer) sys = runner_timer_fires now sys"
| "hb_apply env (now, Hb_wake_timer) sys =
     after_wakes (wkNextRun (hyWakes sys)) now (wake_fire now (hyWakes sys)) sys"
| "hb_apply env (now, Hb_run_done c i outcome) sys = run_once_done env c i outcome now sys"
| "hb_apply env (now, Hb_listed c i answer) sys = commitments_listed c i answer now sys"
| "hb_apply env (now, Hb_commitment c i outcome) sys = commitment_done c i outcome now sys"
| "hb_apply env (now, Hb_deliver c) sys = deliver_result c now sys"
| "hb_apply env (now, Hb_stop) sys = stop_runner sys"

end
