(* ===== verification/Heartbeat_Wake_Props.thy ===== *)
theory Heartbeat_Wake_Props
  imports Heartbeat_Wake
begin

text \<open>
  What the wake layer promises: a wake that was requested is kept until the handler has answered
  it with something else than busy, and while it is kept something is on its way to serve it; of
  the requests for a target the latest of the highest priority is handed on; the wait after a
  busy answer is not cut short by a later request; the handler is called for one wake at a time
  as long as it is not replaced while it works. Two lemmas show what happens otherwise.
\<close>

section \<open>The fields an operation changes\<close>

lemma schedule_fields [simp]:
  "wkEnabled (schedule c k n s) = wkEnabled s"
  "wkHandler (schedule c k n s) = wkHandler s"
  "wkGeneration (schedule c k n s) = wkGeneration s"
  "wkPending (schedule c k n s) = wkPending s"
  "wkScheduled (schedule c k n s) = wkScheduled s"
  "wkRunning (schedule c k n s) = wkRunning s"
  "wkRuns (schedule c k n s) = wkRuns s"
  "wkNextRun (schedule c k n s) = wkNextRun s"
  "wkCalls (schedule c k n s) = wkCalls s"
  by (simp_all add: schedule_def Let_def split: option.splits)

lemma schedule_timer [simp]: "wkTimer (schedule c k n s) \<noteq> None"
  by (simp add: schedule_def Let_def split: option.splits)

lemma schedule_keeps_retry:
  "wkTimer s = Some t \<Longrightarrow> wtKind t = Timer_retry \<Longrightarrow> schedule c k n s = s"
  by (simp add: schedule_def)

lemma queue_fields [simp]:
  "wkEnabled (queuePendingWakeReason q n s) = wkEnabled s"
  "wkHandler (queuePendingWakeReason q n s) = wkHandler s"
  "wkGeneration (queuePendingWakeReason q n s) = wkGeneration s"
  "wkScheduled (queuePendingWakeReason q n s) = wkScheduled s"
  "wkRunning (queuePendingWakeReason q n s) = wkRunning s"
  "wkTimer (queuePendingWakeReason q n s) = wkTimer s"
  "wkRuns (queuePendingWakeReason q n s) = wkRuns s"
  "wkNextRun (queuePendingWakeReason q n s) = wkNextRun s"
  "wkCalls (queuePendingWakeReason q n s) = wkCalls s"
  by (simp_all add: queuePendingWakeReason_def Let_def split: option.splits)

definition requeue :: "pending_wake list \<Rightarrow> int \<Rightarrow> wake_state \<Rightarrow> wake_state" where
  "requeue ws now s = fold (\<lambda>w. queuePendingWakeReason (retry_request w) now) ws s"

lemma requeue_simps [simp]:
  "requeue [] n s = s"
  "requeue (w # ws) n s = requeue ws n (queuePendingWakeReason (retry_request w) n s)"
  by (simp_all add: requeue_def)

lemma requeue_fields [simp]:
  "wkEnabled (requeue ws n s) = wkEnabled s"
  "wkHandler (requeue ws n s) = wkHandler s"
  "wkGeneration (requeue ws n s) = wkGeneration s"
  "wkScheduled (requeue ws n s) = wkScheduled s"
  "wkRunning (requeue ws n s) = wkRunning s"
  "wkTimer (requeue ws n s) = wkTimer s"
  "wkRuns (requeue ws n s) = wkRuns s"
  "wkNextRun (requeue ws n s) = wkNextRun s"
  "wkCalls (requeue ws n s) = wkCalls s"
  by (induction ws arbitrary: s) simp_all

lemma call_handler_fields [simp]:
  "wkEnabled (call_handler h w s) = wkEnabled s"
  "wkHandler (call_handler h w s) = wkHandler s"
  "wkGeneration (call_handler h w s) = wkGeneration s"
  "wkPending (call_handler h w s) = wkPending s"
  "wkScheduled (call_handler h w s) = wkScheduled s"
  "wkRunning (call_handler h w s) = wkRunning s"
  "wkTimer (call_handler h w s) = wkTimer s"
  "wkRuns (call_handler h w s) = wkRuns s"
  "wkNextRun (call_handler h w s) = wkNextRun s"
  "wkCalls (call_handler h w s) = wkCalls s @ [(h, wake_opts w)]"
  by (simp_all add: call_handler_def)

lemma run_ends_fields [simp]:
  "wkEnabled (wake_run_ends d n s) = wkEnabled s"
  "wkHandler (wake_run_ends d n s) = wkHandler s"
  "wkPending (wake_run_ends d n s) = wkPending s"
  "wkRunning (wake_run_ends d n s) = False"
  "wkRuns (wake_run_ends d n s) = wkRuns s"
  "wkNextRun (wake_run_ends d n s) = wkNextRun s"
  "wkCalls (wake_run_ends d n s) = wkCalls s"
  by (simp_all add: wake_run_ends_def Let_def)

lemma run_ends_timer: "wkPending s \<noteq> [] \<Longrightarrow> wkTimer (wake_run_ends d n s) \<noteq> None"
  unfolding wake_run_ends_def Let_def by (subst if_P) simp_all

section \<open>Targets\<close>

lemma normalizeWakeTarget_idem [simp]: "normalizeWakeTarget (normalizeWakeTarget v) = normalizeWakeTarget v"
  by (cases v) (auto simp: normalizeWakeTarget_def normalizeOptionalString_Some Let_def)

lemma getWakeTargetKey_normalized [simp]:
  "getWakeTargetKey (normalizeWakeTarget a) (normalizeWakeTarget b) = getWakeTargetKey a b"
  by (simp add: getWakeTargetKey_def)

definition wake_key :: "pending_wake \<Rightarrow> string" where
  "wake_key w = getWakeTargetKey (pwAgentId w) (pwSessionKey w)"

definition request_key :: "wake_request \<Rightarrow> string" where
  "request_key q = getWakeTargetKey (wqAgentId q) (wqSessionKey q)"

lemma wake_key_pending_of [simp]: "wake_key (pending_of q n) = request_key q"
  by (simp add: wake_key_def request_key_def pending_of_def Let_def)

lemma request_key_retry [simp]: "request_key (retry_request w) = wake_key w"
  by (simp add: wake_key_def request_key_def retry_request_def)

lemma wake_key_merge: "wake_key p = k \<Longrightarrow> wake_key w = k \<Longrightarrow> wake_key (merge_wake p w) = k"
  by (auto simp: merge_wake_def wake_key_def Let_def split: option.splits)

definition merged_wake :: "pending_wake option \<Rightarrow> pending_wake \<Rightarrow> pending_wake" where
  "merged_wake p w = (case p of None \<Rightarrow> w | Some previous \<Rightarrow> merge_wake previous w)"

lemma queue_pending_map:
  "wkPending (queuePendingWakeReason q n s) =
     jm_set (request_key q) (merged_wake (jm_get (wkPending s) (request_key q)) (pending_of q n)) (wkPending s)"
  unfolding queuePendingWakeReason_def Let_def
  by (simp add: wake_key_def[symmetric] merged_wake_def split: option.splits)

lemma queue_keys: "fst ` set (wkPending (queuePendingWakeReason q n s)) = insert (request_key q) (fst ` set (wkPending s))"
  by (simp add: queue_pending_map dom_map_of_conv_image_fst[symmetric] jm_get_set)

lemma requeue_keys: "fst ` set (wkPending (requeue ws n s)) = wake_key ` set ws \<union> fst ` set (wkPending s)"
  by (induction ws arbitrary: s) (auto simp: queue_keys)

lemma queue_nonempty [simp]: "wkPending (queuePendingWakeReason q n s) \<noteq> []"
  using queue_keys[of q n s] by auto

section \<open>The cases of an operation\<close>

lemma wake_fire_cases:
  obtains (idle) "wake_fire now s = s" "wkTimer s = None \<or> (\<exists>t. wkTimer s = Some t \<and> of_int now < wtDueAt t)"
  | (unhandled) t where "wkTimer s = Some t" "wtDueAt t \<le> of_int now" "wkHandler s = None"
      "wake_fire now s = s\<lparr>wkTimer := None, wkScheduled := False\<rparr>"
  | (busy) t h where "wkTimer s = Some t" "wtDueAt t \<le> of_int now" "wkHandler s = Some h" "wkRunning s"
      "wake_fire now s = schedule (Fin (wtDelay t)) (wtKind t) now (s\<lparr>wkTimer := None, wkScheduled := True\<rparr>)"
  | (empty) t h where "wkTimer s = Some t" "wtDueAt t \<le> of_int now" "wkHandler s = Some h" "\<not> wkRunning s"
      "wkPending s = []"
      "wake_fire now s = wake_run_ends (wtDelay t) now
         (s\<lparr>wkTimer := None, wkScheduled := False, wkPending := [], wkRunning := True\<rparr>)"
  | (start) t h w where "wkTimer s = Some t" "wtDueAt t \<le> of_int now" "wkHandler s = Some h" "\<not> wkRunning s"
      "wkPending s \<noteq> []" "w = snd (hd (wkPending s))"
      "wake_fire now s = call_handler h w (s\<lparr>wkTimer := None, wkScheduled := False, wkPending := [],
         wkRunning := True,
         wkRuns := jm_set (wkNextRun s) \<lparr>wrHandler = h, wrBatch = map snd (wkPending s), wrPos = 0,
           wrDelay = wtDelay t\<rparr> (wkRuns s),
         wkNextRun := Suc (wkNextRun s)\<rparr>)"
proof (cases "wkTimer s")
  case None
  then show ?thesis using idle by (simp add: wake_fire_def)
next
  case (Some t)
  show ?thesis
  proof (cases "of_int now < wtDueAt t")
    case True
    then show ?thesis using idle Some by (simp add: wake_fire_def)
  next
    case due: False
    then have due': "wtDueAt t \<le> of_int now" by simp
    show ?thesis
    proof (cases "wkHandler s")
      case None
      then show ?thesis using unhandled[OF Some due'] Some due by (simp add: wake_fire_def Let_def)
    next
      case h: (Some h)
      show ?thesis
      proof (cases "wkRunning s")
        case True
        then show ?thesis using busy[OF Some due' h] Some due h by (simp add: wake_fire_def Let_def)
      next
        case idle: False
        show ?thesis
        proof (cases "wkPending s")
          case Nil
          then show ?thesis
            using empty[OF Some due' h idle] Some due h idle by (simp add: wake_fire_def Let_def)
        next
          case (Cons p ps)
          then show ?thesis
            using start[OF Some due' h idle, of "snd p"] Some due h idle
            by (simp add: wake_fire_def Let_def)
        qed
      qed
    qed
  qed
qed

definition after_answer :: "wake_run \<Rightarrow> heartbeat_result \<Rightarrow> int \<Rightarrow> wake_state \<Rightarrow> wake_state" where
  "after_answer r res now s =
     (if busy_skip res
      then schedule (Fin DEFAULT_RETRY_MS) Timer_retry now
             (queuePendingWakeReason (retry_request (wrBatch r ! wrPos r)) now s)
      else s)"

lemma after_answer_fields [simp]:
  "wkEnabled (after_answer r res n s) = wkEnabled s"
  "wkHandler (after_answer r res n s) = wkHandler s"
  "wkScheduled (after_answer r res n s) = wkScheduled s"
  "wkRunning (after_answer r res n s) = wkRunning s"
  "wkRuns (after_answer r res n s) = wkRuns s"
  "wkNextRun (after_answer r res n s) = wkNextRun s"
  "wkCalls (after_answer r res n s) = wkCalls s"
  by (simp_all add: after_answer_def)

lemma after_answer_keys:
  "fst ` set (wkPending (after_answer r res n s)) =
     (if busy_skip res then {wake_key (wrBatch r ! wrPos r)} else {}) \<union> fst ` set (wkPending s)"
  by (simp add: after_answer_def queue_keys)

lemma wake_result_cases:
  obtains (gone) "jm_get (wkRuns s) rid = None" "wake_result rid a now s = s"
  | (threw) r where "jm_get (wkRuns s) rid = Some r" "a = None"
      "wake_result rid a now s = wake_run_ends (wrDelay r) now
         ((schedule (Fin DEFAULT_RETRY_MS) Timer_retry now (requeue (wrBatch r) now s))
            \<lparr>wkRuns := jm_del rid (wkRuns s)\<rparr>)"
  | (next_one) r res where "jm_get (wkRuns s) rid = Some r" "a = Some res" "Suc (wrPos r) < length (wrBatch r)"
      "wake_result rid a now s = call_handler (wrHandler r) (wrBatch r ! Suc (wrPos r))
         ((after_answer r res now s)\<lparr>wkRuns := jm_set rid (r\<lparr>wrPos := Suc (wrPos r)\<rparr>) (wkRuns s)\<rparr>)"
  | (ends) r res where "jm_get (wkRuns s) rid = Some r" "a = Some res" "length (wrBatch r) \<le> Suc (wrPos r)"
      "wake_result rid a now s = wake_run_ends (wrDelay r) now
         ((after_answer r res now s)\<lparr>wkRuns := jm_del rid (wkRuns s)\<rparr>)"
proof (cases "jm_get (wkRuns s) rid")
  case None
  then show ?thesis using gone by (simp add: wake_result_def)
next
  case (Some r)
  show ?thesis
  proof (cases a)
    case None
    then show ?thesis
      using threw[OF Some] Some by (simp add: wake_result_def Let_def requeue_def[symmetric])
  next
    case a: (Some res)
    have eq: "wake_result rid a now s =
        (if Suc (wrPos r) < length (wrBatch r)
         then call_handler (wrHandler r) (wrBatch r ! Suc (wrPos r))
           ((after_answer r res now s)\<lparr>wkRuns := jm_set rid (r\<lparr>wrPos := Suc (wrPos r)\<rparr>) (wkRuns s)\<rparr>)
         else wake_run_ends (wrDelay r) now ((after_answer r res now s)\<lparr>wkRuns := jm_del rid (wkRuns s)\<rparr>))"
      unfolding wake_result_def Some a Let_def option.case after_answer_def[symmetric] by simp
    show ?thesis
    proof (cases "Suc (wrPos r) < length (wrBatch r)")
      case True
      then show ?thesis using next_one[OF Some a True] eq by simp
    next
      case False
      then show ?thesis using ends[OF Some a] eq by simp
    qed
  qed
qed

lemma set_handler_fields:
  "wkPending (snd (setHeartbeatWakeHandler h n s)) = wkPending s"
  "wkRuns (snd (setHeartbeatWakeHandler h n s)) = wkRuns s"
  "wkNextRun (snd (setHeartbeatWakeHandler h n s)) = wkNextRun s"
  "wkHandler (snd (setHeartbeatWakeHandler h n s)) = h"
  "wkCalls (snd (setHeartbeatWakeHandler h n s)) = wkCalls s"
  "wkEnabled (snd (setHeartbeatWakeHandler h n s)) = wkEnabled s"
  "wkRunning (snd (setHeartbeatWakeHandler h n s)) \<longleftrightarrow> h = None \<and> wkRunning s"
  "h = None \<Longrightarrow> wkTimer (snd (setHeartbeatWakeHandler h n s)) = wkTimer s"
  by (cases h, simp_all add: setHeartbeatWakeHandler_def Let_def)+

lemma set_handler_timer:
  "h \<noteq> None \<Longrightarrow> wkPending s \<noteq> [] \<Longrightarrow> wkTimer (snd (setHeartbeatWakeHandler h n s)) \<noteq> None"
  by (cases h) (simp_all add: setHeartbeatWakeHandler_def Let_def)

lemma dispose_fields [simp]:
  "wkPending (dispose_wake_handler d s) = wkPending s"
  "wkRuns (dispose_wake_handler d s) = wkRuns s"
  "wkNextRun (dispose_wake_handler d s) = wkNextRun s"
  "wkTimer (dispose_wake_handler d s) = wkTimer s"
  "wkRunning (dispose_wake_handler d s) = wkRunning s"
  "wkCalls (dispose_wake_handler d s) = wkCalls s"
  "wkEnabled (dispose_wake_handler d s) = wkEnabled s"
  by (simp_all add: dispose_wake_handler_def)

lemma dispose_handler: "wkHandler (dispose_wake_handler d s) \<in> {None, wkHandler s}"
  by (simp add: dispose_wake_handler_def)

lemma request_fields [simp]:
  "wkHandler (requestHeartbeat q c n s) = wkHandler s"
  "wkRuns (requestHeartbeat q c n s) = wkRuns s"
  "wkNextRun (requestHeartbeat q c n s) = wkNextRun s"
  "wkRunning (requestHeartbeat q c n s) = wkRunning s"
  "wkCalls (requestHeartbeat q c n s) = wkCalls s"
  "wkEnabled (requestHeartbeat q c n s) = wkEnabled s"
  "wkTimer (requestHeartbeat q c n s) \<noteq> None"
  "wkPending (requestHeartbeat q c n s) = wkPending (queuePendingWakeReason q n s)"
  by (simp_all add: requestHeartbeat_def)

lemma enable_fields [simp]:
  "setHeartbeatsEnabled b s = s\<lparr>wkEnabled := b\<rparr>"
  by (simp add: setHeartbeatsEnabled_def)

section \<open>The invariant\<close>

lemma schedule_timer' [simp]: "\<exists>t. wkTimer (schedule c k n s) = Some t"
  by (metis schedule_timer not_None_eq)

definition armed :: "wake_state \<Rightarrow> bool" where
  "armed s \<longleftrightarrow> (wkHandler s \<noteq> None \<and> wkPending s \<noteq> [] \<longrightarrow> wkTimer s \<noteq> None)"

definition wake_runs_ok :: "(nat, wake_run) jmap \<Rightarrow> nat \<Rightarrow> bool" where
  "wake_runs_ok m n \<longleftrightarrow> jm_wf m \<and> (\<forall>(rid, r) \<in> set m. rid < n \<and> wrPos r < length (wrBatch r))"

definition pendings_ok :: "(string, pending_wake) jmap \<Rightarrow> bool" where
  "pendings_ok m \<longleftrightarrow> jm_wf m \<and> (\<forall>(k, w) \<in> set m. wake_key w = k)"

definition wake_inv :: "wake_state \<Rightarrow> bool" where
  "wake_inv s \<longleftrightarrow> armed s \<and> (wkRunning s \<longrightarrow> wkRuns s \<noteq> []) \<and> wake_runs_ok (wkRuns s) (wkNextRun s) \<and>
     pendings_ok (wkPending s)"

lemma pendings_ok_get: "pendings_ok m \<Longrightarrow> jm_get m k = Some w \<Longrightarrow> wake_key w = k"
  by (auto simp: pendings_ok_def dest: jm_get_in)

lemma pendings_ok_queue: "pendings_ok (wkPending s) \<Longrightarrow> pendings_ok (wkPending (queuePendingWakeReason q n s))"
proof -
  assume ok: "pendings_ok (wkPending s)"
  let ?w = "merged_wake (jm_get (wkPending s) (request_key q)) (pending_of q n)"
  have "wake_key ?w = request_key q"
    using ok pendings_ok_get wake_key_merge by (auto simp: merged_wake_def split: option.splits)
  then show ?thesis
    using ok unfolding pendings_ok_def queue_pending_map
    by (simp add: keyed_set[where P = "\<lambda>k w. wake_key w = k"])
qed

lemma pendings_ok_requeue: "pendings_ok (wkPending s) \<Longrightarrow> pendings_ok (wkPending (requeue ws n s))"
  by (induction ws arbitrary: s) (simp_all add: pendings_ok_queue)

lemma wake_runs_ok_get: "wake_runs_ok m n \<Longrightarrow> jm_get m rid = Some r \<Longrightarrow> rid < n \<and> wrPos r < length (wrBatch r)"
  by (auto simp: wake_runs_ok_def dest: jm_get_in)

lemma wake_runs_ok_set:
  "wake_runs_ok m n \<Longrightarrow> n \<le> n' \<Longrightarrow> rid < n' \<Longrightarrow> wrPos r < length (wrBatch r) \<Longrightarrow> wake_runs_ok (jm_set rid r m) n'"
  unfolding wake_runs_ok_def using set_jm_set_sub[of rid r m] by fastforce

lemma wake_runs_ok_del: "wake_runs_ok m n \<Longrightarrow> wake_runs_ok (jm_del rid m) n"
  unfolding wake_runs_ok_def by (auto simp: set_jm_del)

lemma jm_set_nonempty [simp]: "jm_set k v m \<noteq> []"
  by (cases m) auto

lemma wake_inv_fire:
  assumes inv: "wake_inv s"
  shows "wake_inv (wake_fire n s)"
proof (cases rule: wake_fire_cases[where now = n and s = s])
  case idle
  then show ?thesis using inv by simp
next
  case (unhandled t)
  then show ?thesis using inv by (simp add: wake_inv_def armed_def)
next
  case (busy t h)
  then show ?thesis using inv by (simp add: wake_inv_def armed_def)
next
  case (empty t h)
  then show ?thesis using inv by (simp add: wake_inv_def armed_def pendings_ok_def)
next
  case (start t h w)
  have "wake_runs_ok (wkRuns s) (wkNextRun s)" using inv by (simp add: wake_inv_def)
  then have "wake_runs_ok (jm_set (wkNextRun s) \<lparr>wrHandler = h, wrBatch = map snd (wkPending s), wrPos = 0,
      wrDelay = wtDelay t\<rparr> (wkRuns s)) (Suc (wkNextRun s))"
    by (rule wake_runs_ok_set) (use start in simp_all)
  then show ?thesis by (simp add: start(7) wake_inv_def armed_def pendings_ok_def)
qed

lemma after_answer_ok:
  assumes "wake_inv s"
  shows "armed (after_answer r res n s)" "pendings_ok (wkPending (after_answer r res n s))"
  using assms by (simp_all add: after_answer_def wake_inv_def armed_def pendings_ok_queue)

lemma run_ends_armed: "armed (wake_run_ends d n s)"
  by (simp add: armed_def run_ends_timer)

lemma wake_inv_result:
  assumes inv: "wake_inv s"
  shows "wake_inv (wake_result rid a n s)"
proof (cases rule: wake_result_cases[where s = s and rid = rid and a = a and now = n])
  case gone
  then show ?thesis using inv by simp
next
  case (threw r)
  then show ?thesis
    using inv by (simp add: wake_inv_def run_ends_armed pendings_ok_requeue wake_runs_ok_del)
next
  case (next_one r res)
  have ok: "wake_runs_ok (wkRuns s) (wkNextRun s)" using inv by (simp add: wake_inv_def)
  have "wake_runs_ok (jm_set rid (r\<lparr>wrPos := Suc (wrPos r)\<rparr>) (wkRuns s)) (wkNextRun s)"
    by (rule wake_runs_ok_set[OF ok]) (use next_one wake_runs_ok_get[OF ok next_one(1)] in simp_all)
  then show ?thesis
    using after_answer_ok[OF inv, of r res n] by (simp add: next_one(4) wake_inv_def armed_def)
next
  case (ends r res)
  then show ?thesis
    using inv after_answer_ok[OF inv, of r res n]
    by (simp add: wake_inv_def run_ends_armed wake_runs_ok_del)
qed

lemma wake_inv_apply: "wake_inv s \<Longrightarrow> wake_inv (wake_apply (n, oo) s)"
proof (cases oo)
  case (Wk_set_handler h)
  then show "wake_inv s \<Longrightarrow> ?thesis"
    using set_handler_timer[of h s n]
    by (cases h) (simp_all add: wake_inv_def armed_def set_handler_fields)
next
  case (Wk_dispose d)
  then show "wake_inv s \<Longrightarrow> ?thesis"
    using dispose_handler[of d s] by (auto simp: wake_inv_def armed_def)
next
  case (Wk_request q c)
  then show "wake_inv s \<Longrightarrow> ?thesis" by (simp add: wake_inv_def armed_def pendings_ok_queue)
next
  case (Wk_enable b)
  then show "wake_inv s \<Longrightarrow> ?thesis" by (simp add: wake_inv_def armed_def)
qed (simp_all add: wake_inv_fire wake_inv_result)

interpretation wakes: invariant_system "\<lambda>s. s = initial_wakes" wake_step wake_inv
proof
  show "wake_inv s" if "s = initial_wakes" for s
    using that by (simp add: wake_inv_def armed_def wake_runs_ok_def pendings_ok_def initial_wakes_def)
  show "wake_inv t" if "wake_inv s" "wake_step s t" for s t
    using that wake_inv_apply by (auto simp: wake_step_def)
qed

lemma wake_run_steps: "wake_step\<^sup>*\<^sup>* s (fold wake_apply os s)"
proof (induction os arbitrary: s)
  case (Cons x xs)
  have "wake_step s (wake_apply x s)" unfolding wake_step_def by blast
  then show ?case using Cons.IH by (simp add: converse_rtranclp_into_rtranclp)
qed simp

lemma wake_inv_run: "wake_inv s \<Longrightarrow> wake_inv (fold wake_apply os s)"
  using wakes.run_inv wake_run_steps by blast

lemma wake_inv_reached: "wake_inv (fold wake_apply os initial_wakes)"
  using wakes.reachable_inv[OF refl wake_run_steps] .

section \<open>No wake is lost\<close>

definition unanswered :: "wake_run \<Rightarrow> string list" where
  "unanswered r = map wake_key (drop (wrPos r) (wrBatch r))"

definition run_waits :: "(nat, wake_run) jmap \<Rightarrow> string \<Rightarrow> bool" where
  "run_waits m k \<longleftrightarrow> (\<exists>(rid, r) \<in> set m. k \<in> set (unanswered r))"

definition wake_waits :: "wake_state \<Rightarrow> string \<Rightarrow> bool" where
  "wake_waits s k \<longleftrightarrow> k \<in> fst ` set (wkPending s) \<or> run_waits (wkRuns s) k"

text \<open>The operation is an answer of the handler about this target, other than that it is busy.\<close>

fun answers :: "string \<Rightarrow> int \<times> wake_op \<Rightarrow> wake_state \<Rightarrow> bool" where
  "answers k (now, Wk_result rid (Some res)) s \<longleftrightarrow> \<not> busy_skip res \<and>
     (case jm_get (wkRuns s) rid of None \<Rightarrow> False | Some r \<Rightarrow> wake_key (wrBatch r ! wrPos r) = k)"
| "answers k _ s \<longleftrightarrow> False"

fun answered :: "string \<Rightarrow> (int \<times> wake_op) list \<Rightarrow> wake_state \<Rightarrow> bool" where
  "answered k [] s = False"
| "answered k (x # xs) s = (answers k x s \<or> answered k xs (wake_apply x s))"

lemma unanswered_split:
  "wrPos r < length (wrBatch r) \<Longrightarrow>
     unanswered r = wake_key (wrBatch r ! wrPos r) # unanswered (r\<lparr>wrPos := Suc (wrPos r)\<rparr>)"
  by (simp add: unanswered_def Cons_nth_drop_Suc[symmetric])

lemma unanswered_last: "length (wrBatch r) \<le> wrPos r \<Longrightarrow> unanswered r = []"
  by (simp add: unanswered_def)

definition other_waits :: "(nat, wake_run) jmap \<Rightarrow> nat \<Rightarrow> string \<Rightarrow> bool" where
  "other_waits m rid k \<longleftrightarrow> (\<exists>i r. i \<noteq> rid \<and> jm_get m i = Some r \<and> k \<in> set (unanswered r))"

lemma run_waits_get: "jm_wf m \<Longrightarrow> run_waits m k \<longleftrightarrow> (\<exists>i r. jm_get m i = Some r \<and> k \<in> set (unanswered r))"
  by (auto simp: run_waits_def jm_wf_get[symmetric])

lemma run_waits_split:
  assumes "jm_wf m"
  shows "jm_get m rid = Some r \<Longrightarrow> run_waits m k \<longleftrightarrow> k \<in> set (unanswered r) \<or> other_waits m rid k"
    and "run_waits (jm_set rid v m) k \<longleftrightarrow> k \<in> set (unanswered v) \<or> other_waits m rid k"
    and "run_waits (jm_del rid m) k \<longleftrightarrow> other_waits m rid k"
  using assms
  by (auto simp: run_waits_get other_waits_def jm_get_set jm_get_del split: if_splits)
    (metis option.inject)+

lemma wake_waits_result:
  assumes inv: "wake_inv s" and w: "wake_waits s k" and na: "\<not> answers k (n, Wk_result rid a) s"
  shows "wake_waits (wake_result rid a n s) k"
proof -
  have rok: "wake_runs_ok (wkRuns s) (wkNextRun s)" using inv by (simp add: wake_inv_def)
  then have wf: "jm_wf (wkRuns s)" by (simp add: wake_runs_ok_def)
  note runs = run_waits_split[OF wf]
  have cases: "k \<in> fst ` set (wkPending s) \<or> k \<in> set (unanswered r) \<or> other_waits (wkRuns s) rid k"
    if "jm_get (wkRuns s) rid = Some r" for r
    using w runs(1)[OF that] by (simp add: wake_waits_def)
  have busy: "k \<in> fst ` set (wkPending (after_answer r res n s)) \<or> k \<in> set (unanswered (r\<lparr>wrPos := Suc (wrPos r)\<rparr>)) \<or>
      other_waits (wkRuns s) rid k" if r: "jm_get (wkRuns s) rid = Some r" and a: "a = Some res" for r res
  proof -
    have pos: "wrPos r < length (wrBatch r)" using wake_runs_ok_get[OF rok r] by simp
    have "busy_skip res \<or> wake_key (wrBatch r ! wrPos r) \<noteq> k" using na r a by simp
    then show ?thesis using cases[OF r] unfolding unanswered_split[OF pos] after_answer_keys by auto
  qed
  show ?thesis
  proof (cases rule: wake_result_cases[where s = s and rid = rid and a = a and now = n])
    case gone
    then show ?thesis using w by simp
  next
    case (threw r)
    have "set (unanswered r) \<subseteq> wake_key ` set (wrBatch r)"
      by (auto simp: unanswered_def dest: in_set_dropD)
    then show ?thesis
      using cases[OF threw(1)] unfolding threw(3) wake_waits_def by (auto simp: requeue_keys runs)
  next
    case (next_one r res)
    show ?thesis
      using busy[OF next_one(1,2)] unfolding next_one(4) wake_waits_def by (simp add: runs)
  next
    case (ends r res)
    have "unanswered (r\<lparr>wrPos := Suc (wrPos r)\<rparr>) = []"
      using ends(3) by (simp add: unanswered_def)
    then show ?thesis
      using busy[OF ends(1,2)] unfolding ends(4) wake_waits_def by (simp add: runs)
  qed
qed

lemma wake_waits_apply:
  assumes inv: "wake_inv s" and w: "wake_waits s k" and na: "\<not> answers k (n, oo) s"
  shows "wake_waits (wake_apply (n, oo) s) k"
proof (cases oo)
  case (Wk_result rid a)
  then show ?thesis using wake_waits_result[OF inv w] na by simp
next
  case (Wk_request q c)
  then show ?thesis using w by (auto simp: wake_waits_def queue_keys)
next
  case Wk_fire
  show ?thesis
  proof (cases rule: wake_fire_cases[where now = n and s = s])
    case (start t h v)
    have runs: "wake_runs_ok (wkRuns s) (wkNextRun s)" and pend: "pendings_ok (wkPending s)"
      using inv by (simp_all add: wake_inv_def)
    have new: "jm_get (wkRuns s) (wkNextRun s) = None"
      using wake_runs_ok_get[OF runs, of "wkNextRun s"] by (cases "jm_get (wkRuns s) (wkNextRun s)") auto
    have wf: "jm_wf (wkRuns s)" using runs by (simp add: wake_runs_ok_def)
    let ?r = "\<lparr>wrHandler = h, wrBatch = map snd (wkPending s), wrPos = 0, wrDelay = wtDelay t\<rparr>"
    have "k \<in> set (unanswered ?r)" if "k \<in> fst ` set (wkPending s)"
      using that pend by (force simp: unanswered_def pendings_ok_def)
    moreover have "other_waits (wkRuns s) (wkNextRun s) k" if "run_waits (wkRuns s) k"
      using that new unfolding other_waits_def run_waits_get[OF wf] by (metis option.distinct(1))
    ultimately show ?thesis
      using w unfolding Wk_fire wake_apply.simps start(7) wake_waits_def by (auto simp: run_waits_split[OF wf])
  qed (use w Wk_fire in \<open>auto simp: wake_waits_def\<close>)
next
  case (Wk_set_handler h)
  then show ?thesis using w by (simp add: wake_waits_def set_handler_fields)
next
  case (Wk_dispose d)
  then show ?thesis using w by (simp add: wake_waits_def)
next
  case (Wk_enable b)
  then show ?thesis using w by (simp add: wake_waits_def)
qed

lemma wake_waits_run:
  "wake_inv s \<Longrightarrow> wake_waits s k \<Longrightarrow> \<not> answered k os s \<Longrightarrow> wake_waits (fold wake_apply os s) k"
proof (induction os arbitrary: s)
  case (Cons x xs)
  obtain n oo where x: "x = (n, oo)" by (cases x)
  then show ?case using Cons wake_inv_apply wake_waits_apply by simp
qed simp

lemma wake_waits_requested: "wake_waits (requestHeartbeat q c n s) (request_key q)"
  by (simp add: wake_waits_def queue_keys)

section \<open>The latest of the highest priority\<close>

definition latest_highest :: "pending_wake list \<Rightarrow> pending_wake" where
  "latest_highest ws = last (filter (\<lambda>w. pwPriority w = Max (pwPriority ` set ws)) ws)"

definition stands_for :: "pending_wake \<Rightarrow> pending_wake \<Rightarrow> bool" where
  "stands_for e w \<longleftrightarrow> e\<lparr>pwHeartbeat := pwHeartbeat w\<rparr> = w \<and> (pwHeartbeat w = None \<or> pwHeartbeat e = pwHeartbeat w)"

lemma latest_highest_snoc:
  assumes "ws \<noteq> []"
  shows "latest_highest (ws @ [w]) =
    (if pwPriority w \<ge> pwPriority (latest_highest ws) then w else latest_highest ws)"
    and "latest_highest ws \<in> set ws"
proof -
  let ?m = "Max (pwPriority ` set ws)"
  have "?m \<in> pwPriority ` set ws" using assms by (simp add: Max_in)
  then obtain v where v: "v \<in> set ws" "pwPriority v = ?m" by auto
  then have ne: "filter (\<lambda>w. pwPriority w = ?m) ws \<noteq> []" by (auto simp: filter_empty_conv)
  then have "latest_highest ws \<in> set (filter (\<lambda>w. pwPriority w = ?m) ws)"
    unfolding latest_highest_def by (rule last_in_set)
  then have p: "pwPriority (latest_highest ws) = ?m" and mem: "latest_highest ws \<in> set ws" by simp_all
  show "latest_highest ws \<in> set ws" by (rule mem)
  have ins: "Max (pwPriority ` set (ws @ [w])) = max (pwPriority w) ?m"
    using assms by (simp add: Max_insert)
  show "latest_highest (ws @ [w]) =
    (if pwPriority w \<ge> pwPriority (latest_highest ws) then w else latest_highest ws)"
  proof (cases "pwPriority w \<ge> ?m")
    case True
    then show ?thesis unfolding p unfolding latest_highest_def ins by (simp add: max_def)
  next
    case False
    then show ?thesis unfolding p unfolding latest_highest_def ins by (simp add: max_def)
  qed
qed

lemma stands_for_fields:
  "stands_for e w \<Longrightarrow> pwPriority e = pwPriority w \<and> pwRequestedAt e = pwRequestedAt w"
  by (cases e; cases w) (simp add: stands_for_def)

lemma stands_for_merge:
  assumes "stands_for e v" "pwRequestedAt v \<le> pwRequestedAt w"
  shows "stands_for (merge_wake e w) (if pwPriority w \<ge> pwPriority v then w else v)"
  using assms stands_for_fields[OF assms(1)]
  by (auto simp: merge_wake_def stands_for_def Let_def opt_else_def split: option.splits)

lemma merged_latest:
  assumes "ws \<noteq> []" "sorted (map pwRequestedAt ws)"
  shows "\<exists>e. fold (\<lambda>w p. Some (merged_wake p w)) ws None = Some e \<and> stands_for e (latest_highest ws)"
  using assms
proof (induction ws rule: rev_induct)
  case (snoc w ws)
  show ?case
  proof (cases "ws = []")
    case True
    then show ?thesis by (simp add: merged_wake_def stands_for_def latest_highest_def)
  next
    case False
    have ord: "sorted (map pwRequestedAt ws)" "\<forall>v \<in> set ws. pwRequestedAt v \<le> pwRequestedAt w"
      using snoc.prems by (auto simp: sorted_append)
    obtain e where e: "fold (\<lambda>w p. Some (merged_wake p w)) ws None = Some e" "stands_for e (latest_highest ws)"
      using snoc.IH[OF False ord(1)] by blast
    show ?thesis
      using stands_for_merge[OF e(2)] ord(2) e(1) latest_highest_snoc(2)[OF False]
      by (simp add: latest_highest_snoc(1)[OF False] merged_wake_def)
  qed
qed simp

type_synonym timed_request = "int \<times> wake_request \<times> jsnum option"

definition request_all :: "timed_request list \<Rightarrow> wake_state \<Rightarrow> wake_state" where
  "request_all rs s = fold wake_apply (map (\<lambda>(n, q, c). (n, Wk_request q c)) rs) s"

definition wakes_for :: "string \<Rightarrow> timed_request list \<Rightarrow> pending_wake list" where
  "wakes_for k rs = map (\<lambda>(n, q, c). pending_of q n) (filter (\<lambda>(n, q, c). request_key q = k) rs)"

lemma request_all_pending:
  "jm_get (wkPending (request_all rs s)) k =
     fold (\<lambda>w p. Some (merged_wake p w)) (wakes_for k rs) (jm_get (wkPending s) k)"
proof (induction rs arbitrary: s)
  case (Cons x xs)
  obtain n q c where x: "x = (n, q, c)" by (cases x)
  have "request_all (x # xs) s = request_all xs (requestHeartbeat q c n s)"
    by (simp add: request_all_def x)
  then show ?case
    using Cons[of "requestHeartbeat q c n s"] by (auto simp: x wakes_for_def queue_pending_map jm_get_set)
qed (simp add: request_all_def wakes_for_def)

lemma sorted_wakes_for: "sorted (map fst rs) \<Longrightarrow> sorted (map pwRequestedAt (wakes_for k rs))"
  by (induction rs) (auto simp: wakes_for_def pending_of_def Let_def)

section \<open>One run at a time\<close>

fun calm :: "int \<times> wake_op \<Rightarrow> wake_state \<Rightarrow> bool" where
  "calm (n, Wk_set_handler (Some h)) s \<longleftrightarrow> wkRuns s = []"
| "calm _ s \<longleftrightarrow> True"

fun calm_run :: "(int \<times> wake_op) list \<Rightarrow> wake_state \<Rightarrow> bool" where
  "calm_run [] s \<longleftrightarrow> True"
| "calm_run (x # xs) s \<longleftrightarrow> calm x s \<and> calm_run xs (wake_apply x s)"

definition solo :: "wake_state \<Rightarrow> bool" where
  "solo s \<longleftrightarrow> wkRuns s = [] \<or> wkRunning s \<and> length (wkRuns s) = 1"

lemma solo_shapes: "solo s \<Longrightarrow> jm_get (wkRuns s) rid = Some r \<Longrightarrow> wkRunning s \<and> wkRuns s = [(rid, r)]"
  by (cases "wkRuns s") (auto simp: solo_def split: if_splits)

lemma solo_fire: "solo s \<Longrightarrow> solo (wake_fire n s)"
  by (cases rule: wake_fire_cases[where now = n and s = s]) (auto simp: solo_def)

lemma solo_result: "solo s \<Longrightarrow> solo (wake_result rid a n s)"
proof (cases rule: wake_result_cases[where s = s and rid = rid and a = a and now = n])
  case gone
  then show "solo s \<Longrightarrow> ?thesis" by simp
next
  case (threw r)
  then show "solo s \<Longrightarrow> ?thesis" using solo_shapes[of s rid r] by (simp add: solo_def)
next
  case (next_one r res)
  then show "solo s \<Longrightarrow> ?thesis" using solo_shapes[of s rid r] by (simp add: solo_def)
next
  case (ends r res)
  then show "solo s \<Longrightarrow> ?thesis" using solo_shapes[of s rid r] by (simp add: solo_def)
qed

lemma solo_apply: "solo s \<Longrightarrow> calm (n, oo) s \<Longrightarrow> solo (wake_apply (n, oo) s)"
proof (cases oo)
  case (Wk_set_handler h)
  then show "solo s \<Longrightarrow> calm (n, oo) s \<Longrightarrow> ?thesis"
    by (cases h) (simp_all add: solo_def set_handler_fields)
qed (simp_all add: solo_fire solo_result, simp_all add: solo_def)

lemma solo_run: "solo s \<Longrightarrow> calm_run os s \<Longrightarrow> solo (fold wake_apply os s)"
proof (induction os arbitrary: s)
  case (Cons x xs)
  then show ?case using solo_apply by (cases x) simp
qed simp

section \<open>The wait after a busy answer\<close>

fun registers :: "wake_op \<Rightarrow> bool" where
  "registers (Wk_set_handler (Some h)) = True"
| "registers _ = False"

lemma retry_schedule [simp]: "wkTimer s = Some t \<Longrightarrow> wtKind t = Timer_retry \<Longrightarrow> wkTimer (schedule c k n s) = Some t"
  by (simp add: schedule_def)

lemma retry_run_ends [simp]:
  "wkTimer s = Some t \<Longrightarrow> wtKind t = Timer_retry \<Longrightarrow> wkTimer (wake_run_ends d n s) = Some t"
  by (simp add: wake_run_ends_def Let_def)

lemma retry_after_answer [simp]:
  "wkTimer s = Some t \<Longrightarrow> wtKind t = Timer_retry \<Longrightarrow> wkTimer (after_answer r res n s) = Some t"
  by (simp add: after_answer_def)

lemma retry_result:
  assumes "wkTimer s = Some t" "wtKind t = Timer_retry"
  shows "wkTimer (wake_result rid a n s) = Some t \<and> wkNextRun (wake_result rid a n s) = wkNextRun s"
  by (cases rule: wake_result_cases[where s = s and rid = rid and a = a and now = n]) (use assms in simp_all)

lemma retry_apply:
  assumes t: "wkTimer s = Some t" "wtKind t = Timer_retry" and n: "of_int n < wtDueAt t" and r: "\<not> registers oo"
  shows "wkTimer (wake_apply (n, oo) s) = Some t \<and> wkNextRun (wake_apply (n, oo) s) = wkNextRun s"
proof (cases oo)
  case (Wk_set_handler h)
  then show ?thesis using t r by (cases h) (simp_all add: set_handler_fields)
next
  case Wk_fire
  then show ?thesis using t n by (simp add: wake_fire_def)
next
  case (Wk_result rid a)
  then show ?thesis using retry_result[OF t] by simp
next
  case (Wk_request q c)
  then show ?thesis using t by (simp add: requestHeartbeat_def)
qed (use t in simp_all)

lemma retry_run:
  assumes "wkTimer s = Some t" "wtKind t = Timer_retry" "\<forall>(n, oo) \<in> set os. of_int n < wtDueAt t \<and> \<not> registers oo"
  shows "wkNextRun (fold wake_apply os s) = wkNextRun s"
  using assms
proof (induction os arbitrary: s)
  case (Cons x xs)
  obtain n oo where x: "x = (n, oo)" by (cases x)
  have "wkTimer (wake_apply x s) = Some t \<and> wkNextRun (wake_apply x s) = wkNextRun s"
    using retry_apply[of s t n oo] Cons.prems by (simp add: x)
  then show ?case using Cons.IH[of "wake_apply x s"] Cons.prems by simp
qed simp

lemma busy_sets_retry:
  assumes "\<forall>t. wkTimer s = Some t \<longrightarrow> of_int n + DEFAULT_RETRY_MS < wtDueAt t"
  shows "\<exists>t. wkTimer (schedule (Fin DEFAULT_RETRY_MS) Timer_retry n s) = Some t \<and> wtKind t = Timer_retry \<and>
    of_int n + DEFAULT_RETRY_MS \<le> wtDueAt t"
  using assms by (auto simp: schedule_def Let_def DEFAULT_RETRY_MS_def split: option.splits)

lemma busy_result:
  assumes r: "jm_get (wkRuns s) rid = Some r" and busy: "busy_skip res"
    and t: "\<forall>t. wkTimer s = Some t \<longrightarrow> of_int n + DEFAULT_RETRY_MS < wtDueAt t"
  shows "\<exists>t. wkTimer (wake_result rid (Some res) n s) = Some t \<and> wtKind t = Timer_retry \<and>
    of_int n + DEFAULT_RETRY_MS \<le> wtDueAt t \<and> wkNextRun (wake_result rid (Some res) n s) = wkNextRun s"
proof -
  have "\<forall>t. wkTimer (queuePendingWakeReason (retry_request (wrBatch r ! wrPos r)) n s) = Some t \<longrightarrow>
      of_int n + DEFAULT_RETRY_MS < wtDueAt t"
    using t by simp
  from busy_sets_retry[OF this] obtain u where u: "wkTimer (after_answer r res n s) = Some u"
    "wtKind u = Timer_retry" "of_int n + DEFAULT_RETRY_MS \<le> wtDueAt u"
    using busy by (auto simp: after_answer_def)
  show ?thesis
    by (cases rule: wake_result_cases[where s = s and rid = rid and a = "Some res" and now = n])
       (use r u in simp_all)
qed

section \<open>Targets do not share a key\<close>

lemma normalizeWakeTarget_nullish:
  "js_nullish (normalizeWakeTarget a) [] = js_nullish (normalizeWakeTarget b) [] \<longleftrightarrow>
     normalizeWakeTarget a = normalizeWakeTarget b"
  by (auto simp: normalizeWakeTarget_def Let_def)

lemma wake_targets_distinct:
  assumes "CHR '':'' \<notin> set (js_nullish (normalizeWakeTarget a) [])" "CHR '':'' \<notin> set (js_nullish (normalizeWakeTarget b) [])"
  shows "getWakeTargetKey a s = getWakeTargetKey b t \<longleftrightarrow>
    normalizeWakeTarget a = normalizeWakeTarget b \<and> normalizeWakeTarget s = normalizeWakeTarget t"
  using sep_cancel[OF assms, of "'':'' @ js_nullish (normalizeWakeTarget s) []" "'':'' @ js_nullish (normalizeWakeTarget t) []"]
  by (simp add: getWakeTargetKey_def normalizeWakeTarget_nullish)

section \<open>Properties\<close>

text \<open>A wake of one agent, and a handler that answers it twice: busy, then done.\<close>

definition agent_wake :: "string \<Rightarrow> wake_request" where
  "agent_wake a = \<lparr>wqSource = Src_cron, wqIntent = Intent_event, wqReason = None, wqAgentId = Some a,
     wqSessionKey = None, wqHeartbeat = None\<rparr>"


definition busy_answers :: "(int \<times> wake_op) list" where
  "busy_answers = [(5, Wk_set_handler (Some 1)), (255, Wk_fire), (300, Wk_result 0 (Some (Hb_skipped ''lanes-busy'')))]"


text \<open>
  C35: of several requests for a target the latest of those with the highest priority is the one
  that is handed on, with the override of the destination it brought.
\<close>

theorem latest_of_highest:
  assumes "sorted (map fst rs)" "wakes_for k rs \<noteq> []" "jm_get (wkPending s) k = None"
  shows "\<exists>e. jm_get (wkPending (request_all rs s)) k = Some e \<and> stands_for e (latest_highest (wakes_for k rs))"
  using merged_latest[OF assms(2) sorted_wakes_for[OF assms(1)]] assms(3) by (simp add: request_all_pending)

definition three_wakes :: "timed_request list" where
  "three_wakes = [(1, agent_wake ''ops'', None), (2, (agent_wake ''ops'')\<lparr>wqIntent := Intent_manual\<rparr>, None),
     (3, (agent_wake ''ops'')\<lparr>wqIntent := Intent_scheduled\<rparr>, None)]"

theorem latest_of_highest_witness:
  "\<exists>e. jm_get (wkPending (request_all three_wakes initial_wakes)) ''ops::'' = Some e \<and>
     stands_for e (latest_highest (wakes_for ''ops::'' three_wakes))"
proof -
  have "wakes_for ''ops::'' three_wakes \<noteq> []" by code_simp
  then show ?thesis
    by (rule latest_of_highest[rotated]) (simp_all add: three_wakes_def initial_wakes_def)
qed

text \<open>
  C37: the handler works on one batch at a time, as long as no other handler is registered while
  it does.
\<close>

theorem one_run_at_a_time:
  assumes "calm_run os initial_wakes"
  shows "length (wkRuns (fold wake_apply os initial_wakes)) \<le> 1"
proof -
  have "solo (fold wake_apply os initial_wakes)"
    by (rule solo_run[OF _ assms]) (simp add: solo_def initial_wakes_def)
  then show ?thesis by (auto simp: solo_def)
qed

theorem one_run_at_a_time_witness:
  "length (wkRuns (fold wake_apply ((0, Wk_request (agent_wake ''ops'') None) # busy_answers) initial_wakes)) \<le> 1"
proof (rule one_run_at_a_time)
  show "calm_run ((0, Wk_request (agent_wake ''ops'') None) # busy_answers) initial_wakes" by code_simp
qed

text \<open>
  The condition is needed: registering clears \<open>running\<close>, and the \<open>finally\<close> block of a run of the
  former handler clears it once more while the new handler works. Run 1 and run 2 then call the
  new handler at the same time.
\<close>

definition replaced_handler :: "(int \<times> wake_op) list" where
  "replaced_handler =
     [(0, Wk_set_handler (Some 1)), (0, Wk_request (agent_wake ''a'') None), (250, Wk_fire),
      (300, Wk_set_handler (Some 2)), (300, Wk_request (agent_wake ''b'') None), (550, Wk_fire),
      (600, Wk_result 0 (Some (Hb_ran 350))),
      (600, Wk_request (agent_wake ''c'') None), (850, Wk_fire)]"

lemma replaced_handler_overlaps:
  "map (\<lambda>(rid, r). (rid, wrHandler r)) (wkRuns (fold wake_apply replaced_handler initial_wakes)) = [(1, 2), (2, 2)]"
  by code_simp

text \<open>
  C36: after a busy answer no new batch is begun for the time of the retry delay, whatever is
  requested meanwhile and with whatever delay, unless a timer was set before the answer or a new
  handler is registered.
\<close>

theorem retry_cooldown_holds:
  assumes "jm_get (wkRuns s) rid = Some r" "busy_skip res"
    and "\<forall>t. wkTimer s = Some t \<longrightarrow> of_int n + DEFAULT_RETRY_MS < wtDueAt t"
    and "\<forall>(m, oo) \<in> set later. m < n + 1000 \<and> \<not> registers oo"
  shows "wkNextRun (fold wake_apply later (wake_result rid (Some res) n s)) = wkNextRun s"
proof -
  obtain t where t: "wkTimer (wake_result rid (Some res) n s) = Some t" "wtKind t = Timer_retry"
      "of_int n + DEFAULT_RETRY_MS \<le> wtDueAt t" "wkNextRun (wake_result rid (Some res) n s) = wkNextRun s"
    using busy_result[OF assms(1-3)] by blast
  have "of_int m < wtDueAt t \<and> \<not> registers oo" if "(m, oo) \<in> set later" for m oo
  proof -
    have "m < n + 1000" "\<not> registers oo" using assms(4) that by auto
    then have "of_int m < (of_int (n + 1000) :: rat)" by (simp only: of_int_less_iff)
    then show ?thesis using t(3) \<open>\<not> registers oo\<close> by (simp add: DEFAULT_RETRY_MS_def)
  qed
  then show ?thesis using retry_run[OF t(1,2), of later] t(4) by auto
qed

definition working :: wake_state where
  "working = fold wake_apply [(0, Wk_set_handler (Some 1)), (0, Wk_request (agent_wake ''a'') None), (250, Wk_fire)] initial_wakes"

theorem retry_cooldown_holds_witness:
  "wkNextRun (fold wake_apply [(310, Wk_request (agent_wake ''b'') (Some (Fin 0))), (320, Wk_fire)]
     (wake_result 0 (Some (Hb_skipped ''lanes-busy'')) 300 working)) = wkNextRun working"
proof -
  obtain r where r: "jm_get (wkRuns working) 0 = Some r" "wkTimer working = None"
  proof -
    have "jm_get (wkRuns working) 0 \<noteq> None" "wkTimer working = None" by code_simp+
    then show ?thesis using that by blast
  qed
  have busy: "busy_skip (Hb_skipped ''lanes-busy'')" by code_simp
  show ?thesis by (rule retry_cooldown_holds[OF r(1) busy]) (simp_all add: r(2))
qed

text \<open>
  A timer that was set before the busy answer is kept although it is due earlier, and the target
  is called again 220 milliseconds after the answer instead of 1000.
\<close>

lemma retry_cooldown_shortened:
  "map fst (wkCalls (fold wake_apply [(260, Wk_request (agent_wake ''b'') None),
      (300, Wk_result 0 (Some (Hb_skipped ''lanes-busy''))), (510, Wk_fire)] working)) = [1, 1] \<and>
   map (wqAgentId \<circ> snd) (wkCalls (fold wake_apply [(260, Wk_request (agent_wake ''b'') None),
      (300, Wk_result 0 (Some (Hb_skipped ''lanes-busy''))), (510, Wk_fire),
      (520, Wk_result 1 (Some (Hb_ran 10)))] working)) = [Some ''a'', Some ''b'', Some ''a'']"
  by code_simp

end
