(* ===== verification/Heartbeat_Runner_Props.thy ===== *)
theory Heartbeat_Runner_Props
  imports Heartbeat_Runner Heartbeat_Wake_Props
begin

text \<open>
  The scheduler of the heartbeats and the wake layer together: while the heartbeats stay enabled
  there is always something on its way that leads to the next one, whatever the runs of the
  agents come to; two lemmas show that disabling them in between can end this, and that a new
  configuration can make a running heartbeat forgotten. Then the limits of the gate and the
  arithmetic of the slots.
\<close>

section \<open>What an operation of the scheduler leaves alone\<close>

lemma change_agent_fields [simp]:
  "rnStopped (change_agent a f st) = rnStopped st"
  "rnAgents (change_agent a f st) = rnAgents st"
  "rnTimer (change_agent a f st) = rnTimer st"
  "rnArrays (change_agent a f st) = rnArrays st"
  "rnCfg (change_agent a f st) = rnCfg st"
  by (simp_all add: change_agent_def)

lemma evaluate_fields [simp]:
  "rnStopped (snd (evaluateWakeDeferral a now i st)) = rnStopped st"
  "rnAgents (snd (evaluateWakeDeferral a now i st)) = rnAgents st"
  "rnTimer (snd (evaluateWakeDeferral a now i st)) = rnTimer st"
  by (simp_all add: evaluateWakeDeferral_def Let_def)

lemma record_fields [simp]:
  "rnStopped (recordRunBookkeeping a now st) = rnStopped st"
  "rnAgents (recordRunBookkeeping a now st) = rnAgents st"
  "rnTimer (recordRunBookkeeping a now st) = rnTimer st"
  by (simp_all add: recordRunBookkeeping_def Let_def)

lemma book_fields [simp]:
  "rnStopped (book_run env a call b st) = rnStopped st"
  "rnAgents (book_run env a call b st) = rnAgents st"
  "rnTimer (book_run env a call b st) = rnTimer st"
  by (simp_all add: book_run_def advanceAgentSchedule_def Let_def)

lemma scheduleNext_fields [simp]:
  "rnStopped (scheduleNext now st) = rnStopped st"
  "rnAgents (scheduleNext now st) = rnAgents st"
  by (simp_all add: scheduleNext_def)

lemma scheduleNext_timer: "\<not> rnStopped st \<Longrightarrow> rnAgents st \<noteq> [] \<Longrightarrow> rnTimer (scheduleNext now st) \<noteq> None"
  by (simp add: scheduleNext_def)

lemma next_agent_stopped [simp]: "rnStopped (fst (next_agent env cfg now m x acc)) = rnStopped (fst acc)"
  by (simp add: next_agent_def Let_def case_prod_unfold split: option.splits)

lemma updateConfig_stopped [simp]: "rnStopped (updateConfig env cfg now st) = rnStopped st"
proof -
  have "rnStopped (fst (fold (next_agent env cfg now m) xs acc)) = rnStopped (fst acc)" for m xs acc
    by (induction xs arbitrary: acc) simp_all
  from this[of "rnAgents st" "resolveHeartbeatAgents cfg" "(st, [])"] show ?thesis
    by (simp add: updateConfig_def case_prod_unfold Let_def)
qed

lemma updateConfig_timer:
  "\<not> rnStopped st \<Longrightarrow> rnAgents (updateConfig env cfg now st) \<noteq> [] \<Longrightarrow> rnTimer (updateConfig env cfg now st) \<noteq> None"
proof -
  assume a: "\<not> rnStopped st" "rnAgents (updateConfig env cfg now st) \<noteq> []"
  obtain st1 nx where f: "updateConfig env cfg now st = scheduleNext now (st1\<lparr>rnCfg := cfg, rnAgents := nx\<rparr>)"
    using a(1) by (simp add: updateConfig_def case_prod_unfold Let_def)
  have "\<not> rnStopped (updateConfig env cfg now st)" using a(1) by simp
  then show "rnTimer (updateConfig env cfg now st) \<noteq> None"
    using a(2) scheduleNext_timer[of "st1\<lparr>rnCfg := cfg, rnAgents := nx\<rparr>" now] unfolding f by simp
qed

lemma begin_agents:
  "rnStopped (fst (fold (begin_agent now i) as (st, rs))) = rnStopped st \<and>
   rnAgents (fst (fold (begin_agent now i) as (st, rs))) = rnAgents st \<and>
   rnTimer (fst (fold (begin_agent now i) as (st, rs))) = rnTimer st \<and>
   (\<forall>r \<in> set (snd (fold (begin_agent now i) as (st, rs))). r \<in> set rs \<or> agent_busy r = None)"
proof (induction as arbitrary: st rs)
  case (Cons a as)
  obtain d st' where e: "evaluateWakeDeferral a now i st = (d, st')" by (cases "evaluateWakeDeferral a now i st")
  have s: "rnStopped st' = rnStopped st" "rnAgents st' = rnAgents st" "rnTimer st' = rnTimer st"
    using evaluate_fields[of a now i st] by (simp_all add: e)
  obtain r where r: "begin_agent now i a (st, rs) = (st', rs @ [r])" "agent_busy r = None"
    by (simp add: begin_agent_def e agent_busy_def split: defer_decision.splits)
  show ?case
    using Cons[of st' "rs @ [r]"] r(2) by (auto simp: r(1) s)
qed simp

section \<open>Calls\<close>

definition asks_commitments :: "hb_agent_run \<Rightarrow> bool" where
  "asks_commitments r \<longleftrightarrow> (case arStage r of Awaiting_commitments _ _ \<Rightarrow> True | Awaiting_commitment _ _ \<Rightarrow> True | _ \<Rightarrow> False)"

definition call_ok :: "handler_call \<Rightarrow> bool" where
  "call_ok c \<longleftrightarrow> (hlDelivered c \<longrightarrow> hlResult c \<noteq> None) \<and>
     (hlTargeted c \<longrightarrow> length (hlAgents c) \<le> 1 \<and> \<not> list_ex asks_commitments (hlAgents c) \<and>
        (list_ex (\<lambda>r. arStage r = Awaiting_run) (hlAgents c) \<longrightarrow> hlResult c = None)) \<and>
     (hlResult c = None \<longrightarrow> \<not> list_all agent_is_done (hlAgents c)) \<and>
     (\<forall>r \<in> set (hlAgents c). pred_option busy_skip (agent_busy r))"

text \<open>The call still runs, or its result makes the wake layer try again.\<close>

definition call_leads_on :: "handler_call \<Rightarrow> bool" where
  "call_leads_on c \<longleftrightarrow> \<not> hlDelivered c \<and>
     (case hlResult c of None \<Rightarrow> True | Some None \<Rightarrow> True | Some (Some res) \<Rightarrow> busy_skip res)"

definition armed_runner :: "runner_state \<Rightarrow> bool" where
  "armed_runner st \<longleftrightarrow> rnStopped st \<or> rnAgents st = [] \<or> rnTimer st \<noteq> None"

lemma armed_scheduleNext [simp]: "armed_runner (scheduleNext now st)"
  using scheduleNext_timer[of st now] by (auto simp: armed_runner_def)

lemma busy_result_leads_on:
  "\<not> hlDelivered c \<Longrightarrow> hlResult c = Some (Some res) \<Longrightarrow> busy_skip res \<Longrightarrow> call_leads_on c"
  by (simp add: call_leads_on_def)

lemma settle_new_call:
  "c = length (hyCalls sys) \<Longrightarrow> settle_call c result rearm now (new_call rid q t targeted agents sys) =
     sys\<lparr>hyRunner := (if rearm then scheduleNext now (hyRunner sys) else hyRunner sys),
         hyCalls := hyCalls sys @ [\<lparr>hlRun = rid, hlRequest = q, hlNow = t, hlTargeted = targeted,
           hlAgents = agents, hlResult = Some result, hlDelivered = False\<rparr>]\<rparr>"
  by (simp add: settle_call_def new_call_def nth_append)

lemma no_busy: "\<forall>r \<in> set rs. agent_busy r = None \<Longrightarrow> List.map_filter agent_busy rs = []"
  by (induction rs) (simp_all add: List.map_filter_simps)

lemma finish_new_broadcast:
  assumes "c = length (hyCalls sys)" "\<forall>r \<in> set runs. agent_busy r = None"
  shows "\<exists>result st. finish_broadcast c now (new_call rid q t False runs sys) =
      sys\<lparr>hyRunner := st, hyCalls := hyCalls sys @ [\<lparr>hlRun = rid, hlRequest = q, hlNow = t, hlTargeted = False,
           hlAgents = runs, hlResult = result, hlDelivered = False\<rparr>]\<rparr> \<and>
      (if list_all agent_is_done runs then result \<noteq> None \<and> st = scheduleNext now (hyRunner sys)
       else result = None \<and> st = hyRunner sys)"
proof -
  have new: "hyCalls (new_call rid q t False runs sys) ! c =
      \<lparr>hlRun = rid, hlRequest = q, hlNow = t, hlTargeted = False, hlAgents = runs, hlResult = None, hlDelivered = False\<rparr>"
    using assms(1) by (simp add: new_call_def nth_append)
  show ?thesis
  proof (cases "list_all agent_is_done runs")
    case True
    then have "\<exists>res. finish_broadcast c now (new_call rid q t False runs sys) =
        settle_call c res True now (new_call rid q t False runs sys)"
      unfolding finish_broadcast_def Let_def new by (simp add: no_busy[OF assms(2)]) blast
    then obtain res where "finish_broadcast c now (new_call rid q t False runs sys) =
        settle_call c res True now (new_call rid q t False runs sys)" by blast
    then show ?thesis
      using True unfolding settle_new_call[OF assms(1)] by (intro exI[of _ "Some res"]) auto
  next
    case False
    then show ?thesis
      unfolding finish_broadcast_def Let_def new by (simp add: new_call_def)
  qed
qed

definition begins :: "hb_system \<Rightarrow> nat \<Rightarrow> hb_system \<Rightarrow> bool" where
  "begins sys rid sys' \<longleftrightarrow> (\<exists>call st. sys' = sys\<lparr>hyRunner := st, hyCalls := hyCalls sys @ [call]\<rparr> \<and>
     call_ok call \<and> \<not> hlDelivered call \<and> hlRun call = rid \<and> rnStopped st = rnStopped (hyRunner sys) \<and>
     rnAgents st = rnAgents (hyRunner sys) \<and> (armed_runner st \<or> hlResult call = None))"

lemma beginsI:
  "sys' = sys\<lparr>hyRunner := st, hyCalls := hyCalls sys @ [call]\<rparr> \<Longrightarrow> call_ok call \<Longrightarrow> \<not> hlDelivered call \<Longrightarrow>
   hlRun call = rid \<Longrightarrow> rnStopped st = rnStopped (hyRunner sys) \<Longrightarrow> rnAgents st = rnAgents (hyRunner sys) \<Longrightarrow>
   armed_runner st \<or> hlResult call = None \<Longrightarrow> begins sys rid sys'"
  unfolding begins_def by blast

lemma begins_settled:
  assumes "rnStopped st = rnStopped (hyRunner sys)" "rnAgents st = rnAgents (hyRunner sys)" "rearm \<or> armed_runner st"
  shows "begins sys rid (settle_call (length (hyCalls sys)) (Some res) rearm now
    (new_call rid q now True [] (sys\<lparr>hyRunner := st\<rparr>)))"
proof -
  have e: "settle_call (length (hyCalls sys)) (Some res) rearm now (new_call rid q now True [] (sys\<lparr>hyRunner := st\<rparr>)) =
      sys\<lparr>hyRunner := (if rearm then scheduleNext now st else st),
         hyCalls := hyCalls sys @ [\<lparr>hlRun = rid, hlRequest = q, hlNow = now, hlTargeted = True,
           hlAgents = [], hlResult = Some (Some res), hlDelivered = False\<rparr>]\<rparr>"
    by (simp add: settle_new_call)
  show ?thesis by (rule beginsI[OF e]) (use assms in \<open>auto simp: call_ok_def\<close>)
qed

lemma begins_settled_same:
  assumes "rearm \<or> armed_runner (hyRunner sys)"
  shows "begins sys rid (settle_call (length (hyCalls sys)) (Some res) rearm now (new_call rid q now True [] sys))"
  using begins_settled[of "hyRunner sys" sys rearm rid res now q] assms by simp

lemma begin_call_begins:
  assumes en: "areHeartbeatsEnabled (hyWakes sys)"
  shows "begins sys rid (begin_call rid q now sys)"
proof -
  let ?st = "hyRunner sys" and ?c = "length (hyCalls sys)"
  define requestedAgentId where "requestedAgentId = (case wqAgentId q of
            None \<Rightarrow> None | Some i \<Rightarrow> if i = [] then None else Some (normalizeAgentId (Some i)))"
  define requestedSessionKey where "requestedSessionKey = normalizeOptionalString (wqSessionKey q)"
  note bcall = begin_call_def Let_def requestedAgentId_def[symmetric] requestedSessionKey_def[symmetric]
  show ?thesis
  proof (cases "rnStopped ?st \<or> rnAgents ?st = []")
    case True
    then have "begin_call rid q now sys =
        settle_call ?c (Some hb_disabled) False now (new_call rid q now True [] sys)"
      unfolding bcall by auto
    then show ?thesis using begins_settled_same[of False sys] True by (auto simp: armed_runner_def)
  next
    case live: False
    show ?thesis
    proof (cases "requestedSessionKey \<noteq> None \<or> requestedAgentId \<noteq> None")
      case targeted: True
      show ?thesis
      proof (cases "jm_get (rnAgents ?st) (js_nullish requestedAgentId (resolveAgentIdFromSessionKey requestedSessionKey))")
        case None
        then have "begin_call rid q now sys =
            settle_call ?c (Some hb_disabled) True now (new_call rid q now True [] sys)"
          using live targeted en unfolding bcall by simp
        then show ?thesis using begins_settled_same[of True sys] by simp
      next
        case (Some a)
        obtain d st1 where e: "evaluateWakeDeferral a now (wqIntent q) ?st = (d, st1)"
          by (cases "evaluateWakeDeferral a now (wqIntent q) ?st")
        have s: "rnStopped st1 = rnStopped ?st" "rnAgents st1 = rnAgents ?st"
          using evaluate_fields[of a now "wqIntent q" ?st] by (simp_all add: e)
        show ?thesis
        proof (cases d)
          case Run_now
          then have b: "begin_call rid q now sys = new_call rid q now True [\<lparr>arAgent = a, arStage = Awaiting_run\<rparr>] (sys\<lparr>hyRunner := st1\<rparr>)"
            using live targeted en Some e unfolding bcall by simp
          show ?thesis unfolding b new_call_def
            by (rule beginsI, simp) (use s in \<open>simp_all add: call_ok_def agent_is_done_def agent_busy_def asks_commitments_def\<close>)
        next
          case (Defer r)
          then have "begin_call rid q now sys = settle_call ?c (Some (Hb_skipped (defer_text r))) True now
              (new_call rid q now True [] (sys\<lparr>hyRunner := st1\<rparr>))"
            using live targeted en Some e unfolding bcall by simp
          then show ?thesis using begins_settled[OF s, of True] by simp
        qed
      qed
    next
      case broadcast: False
      obtain st1 runs where f: "fold (begin_agent now (wqIntent q)) (map snd (rnAgents ?st)) (?st, []) = (st1, runs)"
        by (cases "fold (begin_agent now (wqIntent q)) (map snd (rnAgents ?st)) (?st, [])")
      have s: "rnStopped st1 = rnStopped ?st" "rnAgents st1 = rnAgents ?st" "\<forall>r \<in> set runs. agent_busy r = None"
        using begin_agents[of now "wqIntent q" "map snd (rnAgents ?st)" ?st "[]"] by (auto simp: f)
      have b: "begin_call rid q now sys = finish_broadcast ?c now (new_call rid q now False runs (sys\<lparr>hyRunner := st1\<rparr>))"
        using live broadcast en f unfolding bcall by simp
      obtain result st where r: "begin_call rid q now sys =
          sys\<lparr>hyRunner := st, hyCalls := hyCalls sys @ [\<lparr>hlRun = rid, hlRequest = q, hlNow = now, hlTargeted = False,
           hlAgents = runs, hlResult = result, hlDelivered = False\<rparr>]\<rparr>"
        "if list_all agent_is_done runs then result \<noteq> None \<and> st = scheduleNext now st1 else result = None \<and> st = st1"
        using finish_new_broadcast[of ?c "sys\<lparr>hyRunner := st1\<rparr>" runs now rid q now] s(3) unfolding b by auto
      show ?thesis
        by (rule beginsI[OF r(1)]) (use r(2) s in \<open>auto simp: call_ok_def split: if_splits\<close>)
    qed
  qed
qed

section \<open>The invariant\<close>

definition alive :: "hb_system \<Rightarrow> bool" where
  "alive sys \<longleftrightarrow> armed_runner (hyRunner sys) \<or> wkPending (hyWakes sys) \<noteq> [] \<or> (\<exists>c \<in> set (hyCalls sys). call_leads_on c)"

definition open_call :: "handler_call list \<Rightarrow> nat \<Rightarrow> bool" where
  "open_call cs i \<longleftrightarrow> i < length cs \<and> \<not> hlDelivered (cs ! i)"

definition linked :: "hb_system \<Rightarrow> bool" where
  "linked sys \<longleftrightarrow> (\<forall>i. open_call (hyCalls sys) i \<longrightarrow> jm_get (wkRuns (hyWakes sys)) (hlRun (hyCalls sys ! i)) \<noteq> None) \<and>
     (\<forall>i j. open_call (hyCalls sys) i \<and> open_call (hyCalls sys) j \<longrightarrow> i = j)"

definition wakes_side :: "wake_state \<Rightarrow> bool \<Rightarrow> bool" where
  "wakes_side w stopped \<longleftrightarrow> wake_inv w \<and> solo w \<and> wkEnabled w \<and> wkHandler w \<in> {None, Some runner_handler} \<and>
     (\<not> stopped \<longrightarrow> wkHandler w \<noteq> None) \<and> (\<forall>(i, r) \<in> set (wkRuns w). wrHandler r = runner_handler)"

definition hb_inv :: "hb_system \<Rightarrow> bool" where
  "hb_inv sys \<longleftrightarrow> wakes_side (hyWakes sys) (rnStopped (hyRunner sys)) \<and> list_all call_ok (hyCalls sys) \<and>
     linked sys \<and> alive sys"

lemma after_wakes_quiet: "wkCalls w = wkCalls (hyWakes sys) \<Longrightarrow> after_wakes rid now w sys = sys\<lparr>hyWakes := w\<rparr>"
  by (simp add: after_wakes_def)

lemma after_wakes_calls:
  "wkCalls w = wkCalls (hyWakes sys) @ [(runner_handler, q)] \<Longrightarrow>
     after_wakes rid now w sys = begin_call rid q now (sys\<lparr>hyWakes := w\<rparr>)"
  by (simp add: after_wakes_def)

lemma open_call_append: "open_call (cs @ [c]) i \<longleftrightarrow> open_call cs i \<or> i = length cs \<and> \<not> hlDelivered c"
  by (auto simp: open_call_def nth_append)

lemma open_call_update:
  "c < length cs \<Longrightarrow> open_call (cs[c := x]) i \<longleftrightarrow> (if i = c then \<not> hlDelivered x else open_call cs i)"
  by (auto simp: open_call_def nth_list_update)

lemma leads_on_open: "call_leads_on c \<Longrightarrow> \<not> hlDelivered c"
  by (simp add: call_leads_on_def)

text \<open>A call that begins when no other is open.\<close>

lemma begin_call_inv:
  assumes w: "wakes_side (hyWakes sys) (rnStopped (hyRunner sys))" and ok: "list_all call_ok (hyCalls sys)"
    and none: "\<forall>i. \<not> open_call (hyCalls sys) i" and run: "jm_get (wkRuns (hyWakes sys)) rid \<noteq> None"
  shows "hb_inv (begin_call rid q now sys)"
proof -
  have "areHeartbeatsEnabled (hyWakes sys)" using w by (simp add: wakes_side_def areHeartbeatsEnabled_def)
  from begin_call_begins[OF this, of rid q now] obtain call st where
    b: "begin_call rid q now sys = sys\<lparr>hyRunner := st, hyCalls := hyCalls sys @ [call]\<rparr>"
    "call_ok call" "\<not> hlDelivered call" "hlRun call = rid" "rnStopped st = rnStopped (hyRunner sys)"
    "armed_runner st \<or> hlResult call = None"
    unfolding begins_def by blast
  have "alive (sys\<lparr>hyRunner := st, hyCalls := hyCalls sys @ [call]\<rparr>)"
    using b(3,6) by (auto simp: alive_def call_leads_on_def)
  moreover have "linked (sys\<lparr>hyRunner := st, hyCalls := hyCalls sys @ [call]\<rparr>)"
    using none run b(4) by (auto simp: linked_def open_call_append nth_append)
  ultimately show ?thesis
    using w ok b by (simp add: hb_inv_def)
qed

lemma no_runs_no_open: "linked sys \<Longrightarrow> wkRuns (hyWakes sys) = [] \<Longrightarrow> \<not> open_call (hyCalls sys) i"
  by (auto simp: linked_def)

lemma linked_wakes: "linked sys \<Longrightarrow> wkRuns w = wkRuns (hyWakes sys) \<Longrightarrow> linked (sys\<lparr>hyWakes := w\<rparr>)"
  by (simp add: linked_def)

lemma wakes_side_apply:
  assumes "wakes_side w stopped" "\<not> registers oo" "oo \<noteq> Wk_enable False" "oo \<noteq> Wk_set_handler None" "\<And>d. oo \<noteq> Wk_dispose d"
    and runs: "\<forall>(i, r) \<in> set (wkRuns (wake_apply (now, oo) w)). wrHandler r = runner_handler"
  shows "wakes_side (wake_apply (now, oo) w) stopped"
proof -
  have calm: "calm (now, oo) w" using assms(2) by (cases oo rule: registers.cases) simp_all
  have "wake_inv (wake_apply (now, oo) w)" "solo (wake_apply (now, oo) w)"
    using assms(1) wake_inv_apply solo_apply[OF _ calm] by (simp_all add: wakes_side_def)
  moreover have "wkHandler (wake_apply (now, oo) w) = wkHandler w \<and> wkEnabled (wake_apply (now, oo) w)"
  proof (cases oo)
    case Wk_fire
    show ?thesis
      using assms(1) unfolding Wk_fire wake_apply.simps wakes_side_def
      by (cases rule: wake_fire_cases[where now = now and s = w]) simp_all
  next
    case (Wk_result rid a)
    show ?thesis
      using assms(1) unfolding Wk_result wake_apply.simps wakes_side_def
      by (cases rule: wake_result_cases[where s = w and rid = rid and a = a and now = now]) simp_all
  next
    case (Wk_set_handler h)
    then show ?thesis using assms(2,4) by (cases h) simp_all
  next
    case (Wk_enable b)
    then show ?thesis using assms(1,3) by (cases b) (simp_all add: wakes_side_def)
  qed (use assms in \<open>simp_all add: wakes_side_def\<close>)
  ultimately show ?thesis using assms(1) runs by (simp add: wakes_side_def)
qed

section \<open>The wake layer moves\<close>

lemma hb_inv_wakes:
  assumes inv: "hb_inv sys" and side: "wakes_side w (rnStopped (hyRunner sys))"
    and runs: "wkRuns w = wkRuns (hyWakes sys)" and pend: "wkPending (hyWakes sys) \<noteq> [] \<longrightarrow> wkPending w \<noteq> []"
  shows "hb_inv (sys\<lparr>hyWakes := w\<rparr>)"
  using assms linked_wakes[of sys w] by (auto simp: hb_inv_def alive_def)

lemma hb_inv_request:
  assumes inv: "hb_inv sys"
  shows "hb_inv (sys\<lparr>hyWakes := requestHeartbeat q c now (hyWakes sys)\<rparr>)"
proof -
  have "wakes_side (wake_apply (now, Wk_request q c) (hyWakes sys)) (rnStopped (hyRunner sys))"
    by (rule wakes_side_apply) (use inv in \<open>simp_all add: hb_inv_def wakes_side_def\<close>)
  then show ?thesis by (intro hb_inv_wakes[OF inv]) simp_all
qed

lemma hb_inv_wake_timer:
  assumes inv: "hb_inv sys"
  shows "hb_inv (after_wakes (wkNextRun (hyWakes sys)) now (wake_fire now (hyWakes sys)) sys)"
proof -
  let ?w = "hyWakes sys"
  have side: "wakes_side ?w (rnStopped (hyRunner sys))" and link: "linked sys"
    using inv by (simp_all add: hb_inv_def)
  have old: "\<forall>(i, r) \<in> set (wkRuns ?w). wrHandler r = runner_handler" using side by (simp add: wakes_side_def)
  have quiet: ?thesis
    if "wkRuns (wake_fire now ?w) = wkRuns ?w" "wkCalls (wake_fire now ?w) = wkCalls ?w"
      "wkPending ?w \<noteq> [] \<longrightarrow> wkPending (wake_fire now ?w) \<noteq> []"
  proof -
    have "wakes_side (wake_apply (now, Wk_fire) ?w) (rnStopped (hyRunner sys))"
      by (rule wakes_side_apply[OF side]) (use old that in simp_all)
    then show ?thesis using that by (simp add: after_wakes_quiet hb_inv_wakes[OF inv])
  qed
  show ?thesis
  proof (cases rule: wake_fire_cases[where now = now and s = ?w])
    case (start t h v)
    have h: "h = runner_handler" using side start(3) by (simp add: wakes_side_def)
    have empty: "wkRuns ?w = []" using side start(4) by (simp add: wakes_side_def solo_def)
    have side': "wakes_side (wake_apply (now, Wk_fire) ?w) (rnStopped (hyRunner sys))"
      by (rule wakes_side_apply[OF side]) (simp_all add: start(7) empty h)
    have "after_wakes (wkNextRun ?w) now (wake_fire now ?w) sys =
        begin_call (wkNextRun ?w) (wake_opts v) now (sys\<lparr>hyWakes := wake_fire now ?w\<rparr>)"
      by (rule after_wakes_calls) (simp add: start(7) h)
    moreover have "hb_inv (begin_call (wkNextRun ?w) (wake_opts v) now (sys\<lparr>hyWakes := wake_fire now ?w\<rparr>))"
    proof (rule begin_call_inv)
      show "jm_get (wkRuns (hyWakes (sys\<lparr>hyWakes := wake_fire now ?w\<rparr>))) (wkNextRun ?w) \<noteq> None"
        by (simp add: start(7) jm_get_set)
      show "\<forall>i. \<not> open_call (hyCalls (sys\<lparr>hyWakes := wake_fire now ?w\<rparr>)) i"
        using no_runs_no_open[OF link empty] by simp
    qed (use side' inv in \<open>simp_all add: hb_inv_def\<close>)
    ultimately show ?thesis by simp
  qed (use quiet in simp_all)
qed

lemma deliver_pending:
  assumes "jm_get (wkRuns w) rid = Some r" "wake_inv w"
    "case a of None \<Rightarrow> True | Some res \<Rightarrow> busy_skip res"
  shows "wkPending (wake_result rid a now w) \<noteq> []"
proof -
  have pos: "wrPos r < length (wrBatch r)" using assms(1,2) wake_runs_ok_get by (auto simp: wake_inv_def)
  then have ne: "wrBatch r \<noteq> []" by auto
  have keys: "wkPending (requeue ws n s) \<noteq> []" if "ws \<noteq> []" for ws n s
    using requeue_keys[of ws n s] that by auto
  have "wkPending (after_answer r res now w) \<noteq> []" if "a = Some res" for res
    using that assms(3) by (simp add: after_answer_def)
  then show ?thesis
    by (cases rule: wake_result_cases[where s = w and rid = rid and a = a and now = now])
       (use assms(1) keys[OF ne] in simp_all)
qed

lemma result_pending_kept: "wkPending w \<noteq> [] \<Longrightarrow> wkPending (wake_result rid a now w) \<noteq> []"
proof -
  assume "wkPending w \<noteq> []"
  then obtain k where k: "k \<in> fst ` set (wkPending w)" by (cases "wkPending w") auto
  have ne: "m \<noteq> []" if "k \<in> fst ` set m" for m :: "(string, pending_wake) jmap"
    using that by auto
  show ?thesis
  proof (cases rule: wake_result_cases[where s = w and rid = rid and a = a and now = now])
    case (threw r)
    have "k \<in> fst ` set (wkPending (requeue (wrBatch r) now w))" using k by (simp add: requeue_keys)
    then show ?thesis unfolding threw(3) by (auto dest: ne)
  next
    case (next_one r res)
    have "k \<in> fst ` set (wkPending (after_answer r res now w))" using k by (simp add: after_answer_keys)
    then show ?thesis unfolding next_one(4) by (auto dest: ne)
  next
    case (ends r res)
    have "k \<in> fst ` set (wkPending (after_answer r res now w))" using k by (simp add: after_answer_keys)
    then show ?thesis unfolding ends(4) by (auto dest: ne)
  qed (use \<open>wkPending w \<noteq> []\<close> in simp)
qed

lemma wake_result_runs:
  assumes "solo w" "jm_get (wkRuns w) rid = Some r"
  shows "wkRuns (wake_result rid a now w) = [] \<and> wkCalls (wake_result rid a now w) = wkCalls w \<or>
    (\<exists>res q. a = Some res \<and> wkRuns (wake_result rid a now w) = [(rid, r\<lparr>wrPos := Suc (wrPos r)\<rparr>)] \<and>
      wkCalls (wake_result rid a now w) = wkCalls w @ [(wrHandler r, q)])"
proof -
  have one: "wkRuns w = [(rid, r)]" using solo_shapes[OF assms] by simp
  show ?thesis
    by (cases rule: wake_result_cases[where s = w and rid = rid and a = a and now = now])
       (use assms(2) one in simp_all)
qed

lemma hb_inv_deliver:
  assumes inv: "hb_inv sys"
  shows "hb_inv (deliver_result c now sys)"
proof (cases "open_call (hyCalls sys) c \<and> hlResult (hyCalls sys ! c) \<noteq> None")
  case False
  then have "deliver_result c now sys = sys"
    by (auto simp: deliver_result_def open_call_def split: option.splits)
  then show ?thesis using inv by simp
next
  case True
  then obtain a where op: "open_call (hyCalls sys) c" and res: "hlResult (hyCalls sys ! c) = Some a" by blast
  have lt: "c < length (hyCalls sys)" using op by (simp add: open_call_def)
  let ?w = "hyWakes sys" and ?call = "hyCalls sys ! c"
  let ?rid = "hlRun ?call"
  define sys1 where "sys1 = sys\<lparr>hyCalls := (hyCalls sys)[c := ?call\<lparr>hlDelivered := True\<rparr>]\<rparr>"
  let ?w' = "wake_result ?rid a now ?w"
  have d: "deliver_result c now sys = after_wakes ?rid now ?w' sys1"
    using op res by (simp add: deliver_result_def open_call_def sys1_def Let_def)
  have side: "wakes_side ?w (rnStopped (hyRunner sys))" and link: "linked sys" and ok: "list_all call_ok (hyCalls sys)"
    and al: "alive sys"
    using inv by (simp_all add: hb_inv_def)
  obtain r where r: "jm_get (wkRuns ?w) ?rid = Some r" using link op by (auto simp: linked_def)
  have solo: "solo ?w" and winv: "wake_inv ?w" using side by (simp_all add: wakes_side_def)
  have rh: "wrHandler r = runner_handler" using side jm_get_in[OF r] by (auto simp: wakes_side_def)
  note cases = wake_result_runs[OF solo r, of a now]
  have side': "wakes_side ?w' (rnStopped (hyRunner sys))"
    using wakes_side_apply[OF side, of "Wk_result ?rid a" now] cases rh by auto
  have ok1: "list_all call_ok (hyCalls sys1)"
    using ok lt res by (simp add: sys1_def list_all_length nth_list_update call_ok_def)
  have none: "\<not> open_call (hyCalls sys1) i" for i
    using link op lt by (auto simp: sys1_def open_call_update linked_def)
  from cases show ?thesis
  proof
    assume e: "wkRuns ?w' = [] \<and> wkCalls ?w' = wkCalls ?w"
    have "deliver_result c now sys = sys1\<lparr>hyWakes := ?w'\<rparr>"
      unfolding d using e by (intro after_wakes_quiet) (simp add: sys1_def)
    moreover have "alive (sys1\<lparr>hyWakes := ?w'\<rparr>)"
    proof (cases "case a of None \<Rightarrow> True | Some x \<Rightarrow> busy_skip x")
      case True
      then show ?thesis using deliver_pending[OF r winv] by (simp add: alive_def)
    next
      case False
      then have "\<not> call_leads_on ?call" by (auto simp: call_leads_on_def res split: option.splits)
      moreover have "call_leads_on x \<longrightarrow> x = ?call" if "x \<in> set (hyCalls sys)" for x
        using that link op unfolding linked_def open_call_def
        by (metis in_set_conv_nth leads_on_open)
      ultimately have "armed_runner (hyRunner sys) \<or> wkPending ?w \<noteq> []"
        using al by (auto simp: alive_def)
      then show ?thesis using result_pending_kept[of ?w] by (auto simp: alive_def sys1_def)
    qed
    moreover have "linked (sys1\<lparr>hyWakes := ?w'\<rparr>)" using none by (simp add: linked_def)
    ultimately show ?thesis using side' ok1 by (simp add: hb_inv_def sys1_def)
  next
    assume "\<exists>res q. a = Some res \<and> wkRuns ?w' = [(?rid, r\<lparr>wrPos := Suc (wrPos r)\<rparr>)] \<and>
      wkCalls ?w' = wkCalls ?w @ [(wrHandler r, q)]"
    then obtain q where q: "wkRuns ?w' = [(?rid, r\<lparr>wrPos := Suc (wrPos r)\<rparr>)]"
      "wkCalls ?w' = wkCalls ?w @ [(runner_handler, q)]"
      by (auto simp: rh)
    have "after_wakes ?rid now ?w' sys1 = begin_call ?rid q now (sys1\<lparr>hyWakes := ?w'\<rparr>)"
      by (rule after_wakes_calls) (simp add: q sys1_def)
    moreover have "hb_inv (begin_call ?rid q now (sys1\<lparr>hyWakes := ?w'\<rparr>))"
      by (rule begin_call_inv) (use side' ok1 none q in \<open>simp_all add: sys1_def\<close>)
    ultimately show ?thesis unfolding d by simp
  qed
qed

section \<open>The agents of a call move\<close>

text \<open>What a step of one call may change: the call, and the state of the scheduler.\<close>

definition moves :: "nat \<Rightarrow> hb_system \<Rightarrow> hb_system \<Rightarrow> bool" where
  "moves c sys sys' \<longleftrightarrow> (\<exists>st x. sys' = sys\<lparr>hyRunner := st, hyCalls := (hyCalls sys)[c := x]\<rparr> \<and>
     call_ok x \<and> hlDelivered x = hlDelivered (hyCalls sys ! c) \<and> hlRun x = hlRun (hyCalls sys ! c) \<and>
     rnStopped st = rnStopped (hyRunner sys) \<and>
     (armed_runner st \<or> (armed_runner (hyRunner sys) \<longrightarrow> armed_runner st) \<and>
        (call_leads_on (hyCalls sys ! c) \<longrightarrow> call_leads_on x)))"

lemma hb_inv_moves:
  assumes inv: "hb_inv sys" and lt: "c < length (hyCalls sys)" and mv: "moves c sys sys'"
  shows "hb_inv sys'"
proof -
  obtain st x where s: "sys' = sys\<lparr>hyRunner := st, hyCalls := (hyCalls sys)[c := x]\<rparr>" "call_ok x"
    "hlDelivered x = hlDelivered (hyCalls sys ! c)" "hlRun x = hlRun (hyCalls sys ! c)"
    "rnStopped st = rnStopped (hyRunner sys)"
    "armed_runner st \<or> (armed_runner (hyRunner sys) \<longrightarrow> armed_runner st) \<and>
        (call_leads_on (hyCalls sys ! c) \<longrightarrow> call_leads_on x)"
    using mv unfolding moves_def by blast
  have op: "open_call ((hyCalls sys)[c := x]) i = open_call (hyCalls sys) i" for i
    using lt s(3) by (simp add: open_call_update) (simp add: open_call_def)
  have run: "hlRun ((hyCalls sys)[c := x] ! i) = hlRun (hyCalls sys ! i)" for i
    using lt s(4) by (cases "i = c") simp_all
  have "linked sys'" using inv unfolding s(1) hb_inv_def linked_def by (simp add: op run)
  moreover have "alive sys'"
  proof -
    have new: "x \<in> set ((hyCalls sys)[c := x])" using lt by (rule set_update_memI)
    have old: "\<exists>y \<in> set ((hyCalls sys)[c := x]). call_leads_on y"
      if z: "z \<in> set (hyCalls sys)" "call_leads_on z" "call_leads_on (hyCalls sys ! c) \<longrightarrow> call_leads_on x" for z
    proof -
      obtain i where i: "i < length (hyCalls sys)" "hyCalls sys ! i = z" using z(1) by (auto simp: in_set_conv_nth)
      show ?thesis
      proof (cases "i = c")
        case True
        then show ?thesis using z i new by auto
      next
        case False
        then have "(hyCalls sys)[c := x] ! i = z" using i by simp
        then show ?thesis using z(2) i(1) by (metis length_list_update nth_mem)
      qed
    qed
    have "alive sys" using inv by (simp add: hb_inv_def)
    then show ?thesis using s(6) old unfolding alive_def s(1) by auto
  qed
  moreover have "list_all call_ok (hyCalls sys')"
    using inv s(2) unfolding s(1) hb_inv_def by (auto simp: list_all_iff dest: set_update_subset_insert[THEN subsetD])
  ultimately show ?thesis using inv s(5) unfolding hb_inv_def s(1) by simp
qed


lemma moves_stage:
  assumes "c < length (hyCalls sys)" "call_ok (hyCalls sys ! c)"
    and st: "rnStopped st = rnStopped (hyRunner sys)" "armed_runner (hyRunner sys) \<longrightarrow> armed_runner st"
    and x: "call_ok ((hyCalls sys ! c)\<lparr>hlAgents := ags\<rparr>)"
  shows "moves c sys (sys\<lparr>hyRunner := st, hyCalls := (hyCalls sys)[c := (hyCalls sys ! c)\<lparr>hlAgents := ags\<rparr>]\<rparr>)"
  unfolding moves_def
  by (intro exI[of _ st] exI[of _ "(hyCalls sys ! c)\<lparr>hlAgents := ags\<rparr>"]) (use assms in \<open>simp add: call_leads_on_def\<close>)

lemma moves_settled:
  assumes lt: "c < length (hyCalls sys)" and ok: "call_ok (hyCalls sys ! c)" and unset: "hlResult (hyCalls sys ! c) = None"
    and st: "rnStopped st = rnStopped (hyRunner sys)" "armed_runner (hyRunner sys) \<longrightarrow> armed_runner st"
    and ags: "hlTargeted (hyCalls sys ! c) \<longrightarrow> length ags \<le> 1 \<and> \<not> list_ex asks_commitments ags \<and>
      \<not> list_ex (\<lambda>r. arStage r = Awaiting_run) ags"
      "\<forall>r \<in> set ags. pred_option busy_skip (agent_busy r)"
    and on: "rearm \<or> pred_option busy_skip result"
  shows "moves c sys (settle_call c result rearm now
    (sys\<lparr>hyRunner := st, hyCalls := (hyCalls sys)[c := (hyCalls sys ! c)\<lparr>hlAgents := ags\<rparr>]\<rparr>))"
proof -
  let ?x = "(hyCalls sys ! c)\<lparr>hlAgents := ags, hlResult := Some result\<rparr>"
  have "\<not> hlDelivered (hyCalls sys ! c)" using ok unset by (auto simp: call_ok_def)
  then have leads: "\<not> rearm \<Longrightarrow> call_leads_on ?x" using on by (cases result) (simp_all add: call_leads_on_def)
  show ?thesis
    unfolding moves_def
    by (intro exI[of _ "if rearm then scheduleNext now st else st"] exI[of _ ?x])
       (use lt ok st ags leads in \<open>auto simp: settle_call_def call_ok_def\<close>)
qed

lemma busy_from: "List.map_filter agent_busy rs = b # bs \<Longrightarrow> \<exists>r \<in> set rs. agent_busy r = Some b"
proof (induction rs)
  case (Cons r rs)
  then show ?case by (cases "agent_busy r") (auto simp: List.map_filter_simps)
qed (simp add: List.map_filter_simps)

lemma moves_finish:
  assumes lt: "c < length (hyCalls sys)" and ok: "call_ok (hyCalls sys ! c)" and br: "\<not> hlTargeted (hyCalls sys ! c)"
    and st: "rnStopped st = rnStopped (hyRunner sys)" "armed_runner (hyRunner sys) \<longrightarrow> armed_runner st"
    and ags: "\<forall>r \<in> set ags. pred_option busy_skip (agent_busy r)"
  shows "moves c sys (finish_broadcast c now
    (sys\<lparr>hyRunner := st, hyCalls := (hyCalls sys)[c := (hyCalls sys ! c)\<lparr>hlAgents := ags\<rparr>]\<rparr>))"
    (is "moves c sys (finish_broadcast c now ?sys)")
proof -
  have at: "hyCalls ?sys ! c = (hyCalls sys ! c)\<lparr>hlAgents := ags\<rparr>" using lt by simp
  note finish = finish_broadcast_def Let_def at
  show ?thesis
  proof (cases "hlResult (hyCalls sys ! c) \<noteq> None \<or> \<not> list_all agent_is_done ags")
    case True
    then have e: "finish_broadcast c now ?sys = ?sys" unfolding finish by auto
    show ?thesis
      unfolding e by (rule moves_stage[OF lt ok st]) (use True ok br ags in \<open>auto simp: call_ok_def\<close>)
  next
    case False
    note settled = moves_settled[OF lt ok _ st _ ags]
    show ?thesis
    proof (cases "List.map_filter agent_busy ags")
      case Nil
      then have "\<exists>res. finish_broadcast c now ?sys = settle_call c res True now ?sys"
        unfolding finish using False br by auto
      then show ?thesis using settled[of True] False br by auto
    next
      case (Cons b bs)
      then have e: "finish_broadcast c now ?sys = settle_call c (Some b) False now ?sys"
        unfolding finish using False br by simp
      have "busy_skip b" using busy_from[OF Cons] ags by fastforce
      then show ?thesis unfolding e using settled[of False "Some b"] False br by auto
    qed
  qed
qed


section \<open>The operations keep the invariant\<close>

definition stage_set :: "nat \<Rightarrow> agent_stage \<Rightarrow> hb_agent_run list \<Rightarrow> hb_agent_run list" where
  "stage_set i stage ags = ags[i := (ags ! i)\<lparr>arStage := stage\<rparr>]"

lemma set_stage_eq:
  "set_stage c i stage (sys\<lparr>hyRunner := st\<rparr>) = sys\<lparr>hyRunner := st,
     hyCalls := (hyCalls sys)[c := (hyCalls sys ! c)\<lparr>hlAgents := stage_set i stage (hlAgents (hyCalls sys ! c))\<rparr>]\<rparr>"
  by (simp add: set_stage_def stage_set_def Let_def)

lemma set_stage_eq':
  "set_stage c i stage sys = sys\<lparr>hyRunner := hyRunner sys,
     hyCalls := (hyCalls sys)[c := (hyCalls sys ! c)\<lparr>hlAgents := stage_set i stage (hlAgents (hyCalls sys ! c))\<rparr>]\<rparr>"
  by (simp add: set_stage_def stage_set_def Let_def)

lemma stage_set_busy:
  assumes "\<forall>r \<in> set ags. pred_option busy_skip (agent_busy r)"
    and "case stage of Agent_done _ (Some b) \<Rightarrow> busy_skip b | _ \<Rightarrow> True"
  shows "\<forall>r \<in> set (stage_set i stage ags). pred_option busy_skip (agent_busy r)"
proof -
  have "pred_option busy_skip (agent_busy (r\<lparr>arStage := stage\<rparr>))" for r
    using assms(2) by (simp add: agent_busy_def split: agent_stage.splits option.splits)
  then show ?thesis
    using assms(1) set_update_subset_insert[of ags i "(ags ! i)\<lparr>arStage := stage\<rparr>"] by (auto simp: stage_set_def)
qed

lemma stage_set_open:
  assumes "i < length ags" "\<not> agent_is_done (r\<lparr>arStage := stage\<rparr>)"
  shows "\<not> list_all agent_is_done (stage_set i stage ags)"
proof -
  have "(ags ! i)\<lparr>arStage := stage\<rparr> \<in> set (stage_set i stage ags)"
    unfolding stage_set_def using assms(1) by (rule set_update_memI)
  moreover have "\<not> agent_is_done ((ags ! i)\<lparr>arStage := stage\<rparr>)" using assms(2) by (simp add: agent_is_done_def)
  ultimately show ?thesis by (auto simp: list_all_iff)
qed

lemma stage_set_targeted:
  assumes "length ags \<le> 1" "i < length ags"
  shows "length (stage_set i (Agent_done d b) ags) \<le> 1 \<and> \<not> list_ex asks_commitments (stage_set i (Agent_done d b) ags) \<and>
    \<not> list_ex (\<lambda>r. arStage r = Awaiting_run) (stage_set i (Agent_done d b) ags)"
  using assms by (cases ags) (auto simp: stage_set_def asks_commitments_def)

lemma stage_ofD:
  assumes "stage_of c i sys = Some stage"
  shows "c < length (hyCalls sys)" "i < length (hlAgents (hyCalls sys ! c))"
    "arStage (hlAgents (hyCalls sys ! c) ! i) = stage"
  using assms by (auto simp: stage_of_def split: if_splits)

lemma stage_of_call:
  assumes "stage_of c i sys = Some stage" "list_all call_ok (hyCalls sys)"
  shows "call_ok (hyCalls sys ! c)" "\<forall>r \<in> set (hlAgents (hyCalls sys ! c)). pred_option busy_skip (agent_busy r)"
  using stage_ofD[OF assms(1)] assms(2) by (auto simp: list_all_length call_ok_def)

lemma moves_run_once:
  assumes ok: "list_all call_ok (hyCalls sys)" and stage: "stage_of c i sys = Some Awaiting_run"
  shows "moves c sys (run_once_done env c i outcome now sys)"
proof -
  let ?call = "hyCalls sys ! c"
  let ?a = "arAgent (hlAgents ?call ! i)"
  note at = stage_ofD[OF stage] and call = stage_of_call[OF stage ok]
  have book: "rnStopped (book_run env ?a ?call b (hyRunner sys)) = rnStopped (hyRunner sys)"
    "armed_runner (hyRunner sys) \<longrightarrow> armed_runner (book_run env ?a ?call b (hyRunner sys))" for b
    by (simp_all add: armed_runner_def)
  have quiet: "\<forall>r \<in> set (stage_set i (Agent_done d None) (hlAgents ?call)). pred_option busy_skip (agent_busy r)" for d
    by (rule stage_set_busy[OF call(2)]) simp
  have waits: "\<forall>r \<in> set (stage_set i (Awaiting_commitments d k) (hlAgents ?call)). pred_option busy_skip (agent_busy r)" for d k
    by (rule stage_set_busy[OF call(2)]) simp
  have retry: "\<forall>r \<in> set (stage_set i (Agent_done d (Some res)) (hlAgents ?call)). pred_option busy_skip (agent_busy r)"
    if "busy_skip res" for d res
    by (rule stage_set_busy[OF call(2)]) (use that in simp)
  show ?thesis
  proof (cases "hlTargeted ?call")
    case True
    have "list_ex (\<lambda>r. arStage r = Awaiting_run) (hlAgents ?call)"
      using at(3) nth_mem[OF at(2)] unfolding list_ex_iff by blast
    then have unset: "hlResult ?call = None" and len: "length (hlAgents ?call) \<le> 1"
      using call(1) True by (auto simp: call_ok_def)
    note settled = moves_settled[OF at(1) call(1) unset]
    have ended: "moves c sys (settle_call c result True now
        (set_stage c i (Agent_done False None) (sys\<lparr>hyRunner := book_run env ?a ?call b (hyRunner sys)\<rparr>)))" for result b
      unfolding set_stage_eq
      by (rule settled[OF book]) (use stage_set_targeted[OF len at(2)] quiet in auto)
    have busy: "moves c sys (settle_call c (Some res) False now (set_stage c i (Agent_done False (Some res)) sys))"
      if "busy_skip res" for res
      unfolding set_stage_eq'
      by (rule settled) (use stage_set_targeted[OF len at(2)] retry that in auto)
    show ?thesis
      unfolding run_once_done_def Let_def using stage True ended busy
      by (simp split: hb_run_outcome.split)
  next
    case False
    have finish: "moves c sys (finish_broadcast c now
        (set_stage c i (Agent_done d None) (sys\<lparr>hyRunner := book_run env ?a ?call b (hyRunner sys)\<rparr>)))" for d b
      unfolding set_stage_eq
      by (rule moves_finish[OF at(1) call(1) False book]) (use quiet in auto)
    have busy: "moves c sys (finish_broadcast c now (set_stage c i (Agent_done False (Some res)) sys))"
      if "busy_skip res" for res
      unfolding set_stage_eq'
      by (rule moves_finish[OF at(1) call(1) False]) (use retry that in auto)
    have wait: "moves c sys (set_stage c i (Awaiting_commitments d k) (sys\<lparr>hyRunner := book_run env ?a ?call b (hyRunner sys)\<rparr>))"
      for d k b
      unfolding set_stage_eq
    proof (rule moves_stage[OF at(1) call(1) book])
      have "\<not> list_all agent_is_done (stage_set i (Awaiting_commitments d k) (hlAgents ?call))"
        by (rule stage_set_open[OF at(2)]) (simp add: agent_is_done_def)
      then show "call_ok (?call\<lparr>hlAgents := stage_set i (Awaiting_commitments d k) (hlAgents ?call)\<rparr>)"
        using call False waits by (auto simp: call_ok_def)
    qed
    show ?thesis
      unfolding run_once_done_def Let_def using stage False finish busy wait
      by (simp split: hb_run_outcome.split)
  qed
qed

lemma moves_next_commitment:
  assumes ok: "list_all call_ok (hyCalls sys)"
    and stage: "stage_of c i sys \<in> {Some (Awaiting_commitments dd kk), Some (Awaiting_commitment dd kks)}"
  shows "moves c sys (next_commitment c i d keys now sys)"
    and "busy_skip res \<Longrightarrow> moves c sys (finish_broadcast c now (set_stage c i (Agent_done d (Some res)) sys))"
    and "hlResult (hyCalls sys ! c) = None \<Longrightarrow> moves c sys (settle_call c None True now (set_stage c i (Agent_done d None) sys))"
    and "hlResult (hyCalls sys ! c) \<noteq> None \<Longrightarrow> moves c sys (set_stage c i (Agent_done d None) sys)"
proof -
  obtain stage where st: "stage_of c i sys = Some stage" using stage by auto
  note at = stage_ofD[OF st] and call = stage_of_call[OF st ok]
  have "asks_commitments (hlAgents (hyCalls sys ! c) ! i)" using stage st at(3) by (auto simp: asks_commitments_def)
  then have "list_ex asks_commitments (hlAgents (hyCalls sys ! c))"
    unfolding list_ex_iff using nth_mem[OF at(2)] by blast
  then have br: "\<not> hlTargeted (hyCalls sys ! c)" using call(1) by (auto simp: call_ok_def)
  let ?ags = "\<lambda>s. stage_set i s (hlAgents (hyCalls sys ! c))"
  have quiet: "\<forall>r \<in> set (?ags (Agent_done d None)). pred_option busy_skip (agent_busy r)" for d
    by (rule stage_set_busy[OF call(2)]) simp
  have waits: "\<forall>r \<in> set (?ags (Awaiting_commitment d ks)). pred_option busy_skip (agent_busy r)" for d ks
    by (rule stage_set_busy[OF call(2)]) simp
  have retry: "\<forall>r \<in> set (?ags (Agent_done d (Some res))). pred_option busy_skip (agent_busy r)" if "busy_skip res" for d res
    by (rule stage_set_busy[OF call(2)]) (use that in simp)
  have finish: "moves c sys (finish_broadcast c now (set_stage c i (Agent_done d None) sys))"
    unfolding set_stage_eq' by (rule moves_finish[OF at(1) call(1) br]) (use quiet in auto)
  have wait: "moves c sys (set_stage c i (Awaiting_commitment d ks) sys)" for ks
    unfolding set_stage_eq'
  proof (rule moves_stage[OF at(1) call(1)])
    have "\<not> list_all agent_is_done (?ags (Awaiting_commitment d ks))"
      by (rule stage_set_open[OF at(2)]) (simp add: agent_is_done_def)
    then show "call_ok ((hyCalls sys ! c)\<lparr>hlAgents := ?ags (Awaiting_commitment d ks)\<rparr>)"
      using call br waits by (auto simp: call_ok_def)
  qed simp_all
  show "moves c sys (next_commitment c i d keys now sys)"
    unfolding next_commitment_def using finish wait by (simp split: list.split)
  show "moves c sys (finish_broadcast c now (set_stage c i (Agent_done d (Some res)) sys))" if "busy_skip res"
    unfolding set_stage_eq' by (rule moves_finish[OF at(1) call(1) br]) (use retry that in auto)
  show "moves c sys (settle_call c None True now (set_stage c i (Agent_done d None) sys))"
    if "hlResult (hyCalls sys ! c) = None"
    unfolding set_stage_eq' by (rule moves_settled[OF at(1) call(1) that]) (use br quiet in auto)
  show "moves c sys (set_stage c i (Agent_done d None) sys)" if "hlResult (hyCalls sys ! c) \<noteq> None"
    unfolding set_stage_eq'
    by (rule moves_stage[OF at(1) call(1)]) (use br quiet that call(1) in \<open>auto simp: call_ok_def\<close>)
qed

lemma moves_listed:
  assumes ok: "list_all call_ok (hyCalls sys)" and stage: "stage_of c i sys = Some (Awaiting_commitments d k)"
  shows "moves c sys (commitments_listed c i answer now sys)"
proof -
  note at = stage_ofD(1)[OF stage]
  note step = moves_next_commitment[OF ok, where c = c and i = i and dd = d and kk = k]
  show ?thesis
    unfolding commitments_listed_def stage Let_def using stage step(1,3,4)
    by (simp split: option.split)
qed

lemma moves_commitment:
  assumes ok: "list_all call_ok (hyCalls sys)" and stage: "stage_of c i sys = Some (Awaiting_commitment d ks)"
  shows "moves c sys (commitment_done c i outcome now sys)"
proof -
  note step = moves_next_commitment[OF ok, where c = c and i = i and dd = d and kks = ks]
  show ?thesis
    unfolding commitment_done_def stage using stage step(1,2)
    by (simp split: hb_run_outcome.split)
qed

lemma hb_inv_calls:
  assumes inv: "hb_inv sys"
  shows "hb_inv (run_once_done env c i outcome now sys)" "hb_inv (commitments_listed c i answer now sys)"
    "hb_inv (commitment_done c i outcome now sys)"
proof -
  have ok: "list_all call_ok (hyCalls sys)" using inv by (simp add: hb_inv_def)
  show "hb_inv (run_once_done env c i outcome now sys)"
  proof (cases "stage_of c i sys = Some Awaiting_run")
    case True
    then show ?thesis using hb_inv_moves[OF inv stage_ofD(1)] moves_run_once[OF ok] by blast
  qed (use inv in \<open>simp add: run_once_done_def\<close>)
  show "hb_inv (commitments_listed c i answer now sys)"
  proof (cases "\<exists>d k. stage_of c i sys = Some (Awaiting_commitments d k)")
    case True
    then show ?thesis using hb_inv_moves[OF inv stage_ofD(1)] moves_listed[OF ok] by blast
  qed (use inv in \<open>auto simp: commitments_listed_def split: option.split agent_stage.split\<close>)
  show "hb_inv (commitment_done c i outcome now sys)"
  proof (cases "\<exists>d ks. stage_of c i sys = Some (Awaiting_commitment d ks)")
    case True
    then show ?thesis using hb_inv_moves[OF inv stage_ofD(1)] moves_commitment[OF ok] by blast
  qed (use inv in \<open>auto simp: commitment_done_def split: option.split agent_stage.split\<close>)
qed

lemma hb_inv_runner:
  assumes "hb_inv sys" "rnStopped st = rnStopped (hyRunner sys)" "armed_runner st"
  shows "hb_inv (sys\<lparr>hyRunner := st\<rparr>)"
  using assms by (simp add: hb_inv_def linked_def alive_def)

lemma armed_updateConfig: "\<not> rnStopped st \<Longrightarrow> armed_runner (updateConfig env cfg now st)"
  using updateConfig_timer[of st env cfg now] by (auto simp: armed_runner_def)

lemma hb_inv_update:
  assumes "hb_inv sys"
  shows "hb_inv (sys\<lparr>hyRunner := updateConfig env cfg now (hyRunner sys)\<rparr>)"
proof (cases "rnStopped (hyRunner sys)")
  case True
  then show ?thesis by (intro hb_inv_runner[OF assms]) (simp_all add: armed_runner_def)
next
  case False
  then show ?thesis by (intro hb_inv_runner[OF assms]) (simp_all add: armed_updateConfig)
qed

lemma hb_inv_timer:
  assumes inv: "hb_inv sys"
  shows "hb_inv (runner_timer_fires now sys)"
proof (cases "rnTimer (hyRunner sys)")
  case None
  then show ?thesis using inv by (simp add: runner_timer_fires_def)
next
  case (Some due)
  let ?sys = "sys\<lparr>hyWakes := requestHeartbeat interval_wake (Some (Fin 0)) now (hyWakes sys)\<rparr>"
  have "hb_inv ?sys" by (rule hb_inv_request[OF inv])
  then have "hb_inv (sys\<lparr>hyRunner := (hyRunner sys)\<lparr>rnTimer := None\<rparr>,
      hyWakes := requestHeartbeat interval_wake (Some (Fin 0)) now (hyWakes sys)\<rparr>)"
    by (simp add: hb_inv_def linked_def alive_def)
  then show ?thesis using inv Some by (simp add: runner_timer_fires_def)
qed

lemma hb_inv_stop:
  assumes inv: "hb_inv sys"
  shows "hb_inv (stop_runner sys)"
proof (cases "rnStopped (hyRunner sys)")
  case True
  then show ?thesis using inv by (simp add: stop_runner_def)
next
  case False
  let ?w = "dispose_wake_handler (hyDisposer sys) (hyWakes sys)"
  have w: "wakes_side (hyWakes sys) False" using inv False by (simp add: hb_inv_def)
  have "wake_inv ?w" using wake_inv_apply[of "hyWakes sys" 0 "Wk_dispose (hyDisposer sys)"] w by (simp add: wakes_side_def)
  then have "wakes_side ?w True"
    using w dispose_handler[of "hyDisposer sys" "hyWakes sys"] by (auto simp: wakes_side_def solo_def)
  then show ?thesis
    using inv False by (simp add: stop_runner_def hb_inv_def linked_def alive_def armed_runner_def)
qed

lemma hb_inv_enable: "hb_inv sys \<Longrightarrow> hb_inv (sys\<lparr>hyWakes := setHeartbeatsEnabled True (hyWakes sys)\<rparr>)"
proof (rule hb_inv_wakes)
  assume inv: "hb_inv sys"
  show "wakes_side (setHeartbeatsEnabled True (hyWakes sys)) (rnStopped (hyRunner sys))"
    using wakes_side_apply[of "hyWakes sys" "rnStopped (hyRunner sys)" "Wk_enable True"] inv
    by (simp add: hb_inv_def wakes_side_def)
qed simp_all

fun disables :: "hb_op \<Rightarrow> bool" where
  "disables (Hb_enable False) = True"
| "disables _ = False"

lemma hb_inv_apply: "hb_inv sys \<Longrightarrow> \<not> disables oo \<Longrightarrow> hb_inv (hb_apply env (now, oo) sys)"
proof (cases oo)
  case (Hb_enable b)
  then show "hb_inv sys \<Longrightarrow> \<not> disables oo \<Longrightarrow> ?thesis"
    using hb_inv_enable[of sys] by (cases b) simp_all
qed (simp_all add: hb_inv_request hb_inv_update hb_inv_timer hb_inv_wake_timer hb_inv_calls hb_inv_deliver hb_inv_stop)

definition hb_steps :: "hb_env \<Rightarrow> hb_system \<Rightarrow> hb_system \<Rightarrow> bool" where
  "hb_steps env sys sys' \<longleftrightarrow> (\<exists>now oo. \<not> disables oo \<and> sys' = hb_apply env (now, oo) sys)"

definition hb_started :: "hb_env \<Rightarrow> hb_system \<Rightarrow> bool" where
  "hb_started env sys \<longleftrightarrow> (\<exists>cfg now w. wake_inv w \<and> wkRuns w = [] \<and> wkEnabled w \<and> sys = startHeartbeatRunner env cfg now w)"

lemma hb_inv_start:
  assumes "wake_inv w" "wkRuns w = []" "wkEnabled w"
  shows "hb_inv (startHeartbeatRunner env cfg now w)"
proof -
  let ?w = "snd (setHeartbeatWakeHandler (Some runner_handler) now w)"
  have "wake_inv ?w" using wake_inv_apply[OF assms(1), of now "Wk_set_handler (Some runner_handler)"] by simp
  then have "wakes_side ?w False" using assms by (simp add: wakes_side_def set_handler_fields solo_def)
  then show ?thesis
    by (simp add: startHeartbeatRunner_def case_prod_unfold hb_inv_def linked_def open_call_def alive_def armed_updateConfig Let_def)
qed

interpretation heartbeats: invariant_system "hb_started env" "hb_steps env" hb_inv
proof
  show "hb_inv s" if "hb_started env s" for s using that hb_inv_start by (auto simp: hb_started_def)
  show "hb_inv t" if "hb_inv s" "hb_steps env s t" for s t using that hb_inv_apply by (auto simp: hb_steps_def)
qed

section \<open>Properties\<close>

definition has_next_step :: "hb_system \<Rightarrow> bool" where
  "has_next_step sys \<longleftrightarrow> rnTimer (hyRunner sys) \<noteq> None \<or>
    wkPending (hyWakes sys) \<noteq> [] \<and> wkTimer (hyWakes sys) \<noteq> None \<or>
    list_ex (\<lambda>c. hlResult c = None \<and> \<not> list_all agent_is_done (hlAgents c)) (hyCalls sys) \<or>
    list_ex (\<lambda>c. \<not> hlDelivered c \<and> pred_option (pred_option busy_skip) (hlResult c)) (hyCalls sys)"

text \<open>
  C33: while heartbeats are not disabled and agents are configured, the scheduler is never left
  without a next step, whatever is requested, configured, answered or thrown and in whatever
  order: its timer is set, or a wake is pending with the timer of the wake layer set, or a call
  awaits the run of an agent, or a call has a result that makes the wake layer try again.
\<close>

theorem scheduler_alive:
  assumes "wkRuns (fold wake_apply before initial_wakes) = []" "wkEnabled (fold wake_apply before initial_wakes)"
    and "\<forall>(n, oo) \<in> set os. \<not> disables oo"
    and "sys = fold (hb_apply env) os (startHeartbeatRunner env cfg now (fold wake_apply before initial_wakes))"
    and "\<not> rnStopped (hyRunner sys)" "rnAgents (hyRunner sys) \<noteq> []"
  shows "has_next_step sys"
proof -
  have run: "(hb_steps env)\<^sup>*\<^sup>* s (fold (hb_apply env) os s)" for s
    using assms(3)
  proof (induction os arbitrary: s)
    case (Cons x xs)
    obtain n oo where x: "x = (n, oo)" by (cases x)
    have "hb_steps env s (hb_apply env x s)" using Cons.prems unfolding x hb_steps_def by auto
    then show ?case using Cons.IH[of "hb_apply env x s"] Cons.prems by (simp add: converse_rtranclp_into_rtranclp)
  qed simp
  have "hb_started env (startHeartbeatRunner env cfg now (fold wake_apply before initial_wakes))"
    unfolding hb_started_def using assms(1,2) wake_inv_reached by blast
  then have inv: "hb_inv sys" using heartbeats.reachable_inv run unfolding assms(4) by blast
  then have "armed (hyWakes sys)" "wkHandler (hyWakes sys) \<noteq> None" "alive sys" "list_all call_ok (hyCalls sys)"
    using assms(5) by (simp_all add: hb_inv_def wakes_side_def wake_inv_def)
  moreover have "hlResult c = None \<and> \<not> list_all agent_is_done (hlAgents c) \<or>
      \<not> hlDelivered c \<and> pred_option (pred_option busy_skip) (hlResult c)"
    if "call_ok c" "call_leads_on c" for c
    using that by (cases "hlResult c") (auto simp: call_ok_def call_leads_on_def split: option.splits)
  ultimately show ?thesis
    using assms(5,6) unfolding has_next_step_def alive_def armed_runner_def armed_def list_ex_iff list_all_iff by blast
qed

text \<open>A scheduler of one agent with the default interval.\<close>

definition plain_env :: hb_env where
  "plain_env = \<lparr>evDigest = (\<lambda>_. 7), evSeed = ''seed'',
     evZones = \<lparr>ziValid = (\<lambda>_. False), ziHost = Some ''UTC'',
       ziClock = (\<lambda>_ ms. Some (ms div 3600000 mod 24, ms div 60000 mod 60))\<rparr>,
     evSessionKey = (\<lambda>_ _ _. ''agent:main:main'')\<rparr>"

definition plain_hb_config :: hb_config where
  "plain_hb_config = \<lparr>hcList = [], hcDefaults = None, hcUserTimezone = None\<rparr>"

definition plain_run :: "(int \<times> hb_op) list \<Rightarrow> hb_system" where
  "plain_run os = fold (hb_apply plain_env) os (startHeartbeatRunner plain_env plain_hb_config 0 initial_wakes)"

definition one_heartbeat :: "(int \<times> hb_op) list" where
  "one_heartbeat = [(7, Hb_timer), (8, Hb_wake_timer), (900, Hb_run_done 0 0 (Answered (Hb_ran 892))), (900, Hb_deliver 0)]"

theorem scheduler_alive_witness:
  "has_next_step (plain_run one_heartbeat)"
proof (rule scheduler_alive[of "[]" one_heartbeat])
  show "plain_run one_heartbeat = fold (hb_apply plain_env) one_heartbeat
      (startHeartbeatRunner plain_env plain_hb_config 0 (fold wake_apply [] initial_wakes))"
    by (simp add: plain_run_def)
  show "\<not> rnStopped (hyRunner (plain_run one_heartbeat))" "rnAgents (hyRunner (plain_run one_heartbeat)) \<noteq> []"
    by code_simp+
qed (simp_all add: initial_wakes_def one_heartbeat_def)


text \<open>
  A new configuration, even one that changes nothing, gives every agent a new object; a heartbeat
  that runs meanwhile notes its start and its next slot in the old one. The next wake by an event
  then takes the agent for one that never ran, and passes the gate a second after a heartbeat.
\<close>

definition two_events :: "bool \<Rightarrow> (int \<times> hb_op) list" where
  "two_events reconfigured =
     [(10, Hb_request (agent_wake ''main'') None), (260, Hb_wake_timer)] @
     (if reconfigured then [(500, Hb_update plain_hb_config)] else []) @
     [(1000, Hb_run_done 0 0 (Answered (Hb_ran 740))), (1000, Hb_deliver 0),
      (1100, Hb_request (agent_wake ''main'') None), (1350, Hb_wake_timer)]"

lemma config_update_forgets_run:
  "map hlResult (hyCalls (plain_run (two_events False))) = [Some (Some (Hb_ran 740)), Some (Some (Hb_skipped ''not-due''))]"
  "map hlResult (hyCalls (plain_run (two_events True))) = [Some (Some (Hb_ran 740)), None]"
  by code_simp+

end
