(* ===== verification/Heartbeat_Schedule_Props.thy ===== *)
theory Heartbeat_Schedule_Props
  imports Heartbeat_Schedule
begin

text \<open>
  The arithmetic of the heartbeats: the due time of an agent is the first of its slots after now
  that is inside its active hours, the active hours are an interval of the clock, and the flood
  guard bounds how many heartbeats run in any minute.
\<close>

section \<open>Slots\<close>

lemma js_rem_nonneg: "0 \<le> a \<Longrightarrow> 0 < b \<Longrightarrow> js_rem a b = a mod b"
  by (simp add: js_rem_def)

lemma js_rem_bounds:
  assumes "0 < b"
  shows "- b < js_rem a b \<and> js_rem a b < b"
proof -
  have m: "0 \<le> a mod b" "a mod b < b" "0 \<le> (- a) mod b" "(- a) mod b < b" using assms by simp_all
  show ?thesis
  proof (cases "0 \<le> a")
    case True
    then have "js_rem a b = a mod b" using assms by (simp add: js_rem_def)
    then show ?thesis using m assms by linarith
  next
    case False
    then have "js_rem a b = - ((- a) mod b)" using assms by (simp add: js_rem_def)
    then show ?thesis using m assms by linarith
  qed
qed

lemma js_rem_mod: "0 < b \<Longrightarrow> js_rem a b mod b = a mod b"
  by (simp add: js_rem_def mod_minus_eq)

lemma normalizeModulo_mod: "0 < d \<Longrightarrow> normalizeModulo v d = v mod d"
proof -
  assume d: "0 < d"
  have "0 \<le> js_rem v d + d" using js_rem_bounds[OF d, of v] by simp
  then have "normalizeModulo v d = (js_rem v d + d) mod d"
    using d by (simp add: normalizeModulo_def js_rem_nonneg)
  then show ?thesis using js_rem_mod[OF d, of v] by simp
qed

lemma next_phase_due:
  fixes now interval phase :: int
  defines "iv \<equiv> max 1 interval"
  defines "d \<equiv> computeNextHeartbeatPhaseDueMs now interval phase"
  shows "now < d" "d \<le> now + iv" "d mod iv = phase mod iv"
proof -
  have iv: "0 < iv" by (simp add: iv_def)
  let ?m = "(phase mod iv - now mod iv) mod iv"
  have d: "d = now + (if ?m = 0 then iv else ?m)"
    using iv by (simp add: d_def computeNextHeartbeatPhaseDueMs_def Let_def normalizeModulo_mod iv_def[symmetric])
  have m: "0 \<le> ?m" "?m < iv" using iv by simp_all
  show "now < d" "d \<le> now + iv" using m iv unfolding d by (auto simp: less_le)
  have at: "(now + ?m) mod iv = phase mod iv" by (simp add: mod_simps)
  show "d mod iv = phase mod iv"
  proof (cases "?m = 0")
    case True
    then show ?thesis using at unfolding d True by simp
  next
    case False
    then show ?thesis using at unfolding d by simp
  qed
qed

lemma slots_between:
  fixes a b iv :: int
  assumes "0 < iv" "a mod iv = b mod iv" "a < b"
  shows "a + iv \<le> b"
proof -
  have "(b - a) mod iv = 0" using assms(2) by (metis mod_diff_cong diff_self mod_0)
  then obtain k where k: "b - a = iv * k" by (auto simp: mod_eq_0_iff_dvd dvd_def)
  then have "0 < k" using assms(1,3) by (smt (verit) mult_nonneg_nonpos)
  then have "iv * 1 \<le> iv * k" using assms(1) by (intro mult_left_mono) simp_all
  then show ?thesis using k by simp
qed

lemma seek_slot_Some:
  "seek_slot act iv hz c n = Some d \<Longrightarrow>
     \<exists>k. d = c + int k * iv \<and> act d \<and> (\<forall>j < k. \<not> act (c + int j * iv))"
proof (induction n arbitrary: c)
  case (Suc n)
  show ?case
  proof (cases "act c")
    case True
    then show ?thesis using Suc.prems by (intro exI[of _ 0]) (auto split: if_splits)
  next
    case False
    then have "seek_slot act iv hz (c + iv) n = Some d" using Suc.prems by (auto split: if_splits)
    from Suc.IH[OF this] obtain k where k: "d = c + iv + int k * iv" "act d"
      "\<forall>j < k. \<not> act (c + iv + int j * iv)" by blast
    have "\<not> act (c + int j * iv)" if "j < Suc k" for j
      using k(3) False that by (cases j) (auto simp: algebra_simps)
    then show ?thesis using k by (intro exI[of _ "Suc k"]) (auto simp: algebra_simps)
  qed
qed simp

lemma seek_slot_None:
  "seek_slot act iv hz c n = None \<Longrightarrow> 0 < iv \<Longrightarrow> k < n \<Longrightarrow> c + int k * iv \<le> hz \<Longrightarrow> \<not> act (c + int k * iv)"
proof (induction n arbitrary: c k)
  case (Suc n)
  have c: "c \<le> hz" using Suc.prems(2,4) by (smt (verit) mult_nonneg_nonneg of_nat_0_le_iff)
  then have step: "\<not> act c" "seek_slot act iv hz (c + iv) n = None"
    using Suc.prems(1) by (auto split: if_splits)
  show ?case
  proof (cases k)
    case 0
    then show ?thesis using step by simp
  next
    case (Suc i)
    then show ?thesis
      using Suc.IH[OF step(2) Suc.prems(2), of i] Suc.prems(3,4) by (simp add: algebra_simps)
  qed
qed simp

section \<open>The flood guard\<close>

text \<open>
  The gate as the scheduler uses it for one agent: a wake that passes is noted in the buffer of
  run starts. The second component is what passed.
\<close>

definition attempt :: "defer_input \<Rightarrow> int list \<times> defer_input list \<Rightarrow> int list \<times> defer_input list" where
  "attempt inp acc =
     (if shouldDeferWake (inp\<lparr>diRecentRunStarts := Some (fst acc)\<rparr>) = Run_now
      then (recordRunStart (fst acc) (diNow inp) None, snd acc @ [inp]) else acc)"

definition by_default :: "defer_input \<Rightarrow> bool" where
  "by_default inp \<longleftrightarrow> diFloodWindowMs inp = None \<and> diFloodThreshold inp = None"

lemma length_filter_mono:
  "\<forall>x \<in> set xs. P x \<longrightarrow> Q x \<Longrightarrow> length (filter P xs) \<le> length (filter Q xs)"
  by (induction xs) auto

lemma takeWhile_take: "takeWhile P (take n xs) = take n (takeWhile P xs)"
  by (induction xs arbitrary: n) (simp_all add: take_Cons split: nat.split)

lemma takeWhile_rev_sorted:
  "sorted h \<Longrightarrow> takeWhile (\<lambda>t. \<not> t < w) (rev h) = rev (filter (\<lambda>t. w \<le> t) h)" for h :: "int list"
proof (induction h rule: rev_induct)
  case (snoc x h)
  then have le: "\<forall>t \<in> set h. t \<le> x" by (simp add: sorted_append)
  show ?case
  proof (cases "x < w")
    case True
    then have "filter (\<lambda>t. w \<le> t) h = []" using le by (auto simp: filter_empty_conv)
    then show ?thesis using True by simp
  next
    case False
    then show ?thesis using snoc by (simp add: sorted_append)
  qed
qed simp

lemma recent_suffix: "recordRunStart (drop (length h - 6) h) t None = drop (length (h @ [t]) - 6) (h @ [t])"
proof (cases "length h \<le> 6")
  case False
  then have "Suc (length h - 6) = length h - 5" by simp
  then show ?thesis using False by (simp add: recordRunStart_def DEFAULT_FLOOD_THRESHOLD_def Let_def)
qed (simp add: recordRunStart_def DEFAULT_FLOOD_THRESHOLD_def Let_def)

lemma flood_passes:
  assumes pass: "shouldDeferWake (inp\<lparr>diRecentRunStarts := Some (drop (length h - 6) h)\<rparr>) = Run_now"
    and d: "by_default inp" and m: "diIntent inp \<noteq> Intent_manual" and s: "sorted h"
  shows "length (filter (\<lambda>t. diNow inp - 60000 \<le> t) h) < 5"
proof -
  let ?b = "drop (length h - 6) h" and ?w = "diNow inp - 60000"
  have "checkFloodGuard (inp\<lparr>diRecentRunStarts := Some ?b\<rparr>) = None"
  proof (rule ccontr)
    assume n: "checkFloodGuard (inp\<lparr>diRecentRunStarts := Some ?b\<rparr>) \<noteq> None"
    then have "checkFloodGuard (inp\<lparr>diRecentRunStarts := Some ?b\<rparr>) = Some (Defer Flood)"
      by (auto simp: checkFloodGuard_def Let_def split: if_splits)
    then show False using pass m by (auto simp: shouldDeferWake_def split: if_splits)
  qed
  then have "length ?b < 5 \<or> length (takeWhile (\<lambda>t. \<not> t < ?w) (rev ?b)) < 5"
    using d by (auto simp: checkFloodGuard_def by_default_def Let_def DEFAULT_FLOOD_THRESHOLD_def
        DEFAULT_FLOOD_WINDOW_MS_def split: if_splits)
  moreover have "length ?b < 5 \<Longrightarrow> length h < 5" by simp
  moreover have "length (filter (\<lambda>t. ?w \<le> t) h) \<le> length h" by (rule length_filter_le)
  moreover have "length (takeWhile (\<lambda>t. \<not> t < ?w) (rev ?b)) = min (length (filter (\<lambda>t. ?w \<le> t) h)) 6"
  proof -
    have "rev ?b = take 6 (rev h)" by (cases "length h \<le> 6") (simp_all add: rev_drop)
    then show ?thesis by (simp only: takeWhile_take takeWhile_rev_sorted[OF s] length_take length_rev)
  qed
  ultimately show ?thesis by linarith
qed

definition starts_within :: "int \<Rightarrow> defer_input list \<Rightarrow> defer_input list" where
  "starts_within T xs = filter (\<lambda>i. diIntent i \<noteq> Intent_manual \<and> T \<le> diNow i \<and> diNow i \<le> T + 60000) xs"

lemma attempts_inv:
  assumes "sorted (map diNow inps)" "\<forall>i \<in> set inps. by_default i"
  shows "let (buf, adm) = fold attempt inps ([], []) in
    buf = drop (length (map diNow adm) - 6) (map diNow adm) \<and> sorted (map diNow adm) \<and> set adm \<subseteq> set inps \<and>
    (\<forall>T. length (starts_within T adm) \<le> 5)"
  using assms
proof (induction inps rule: rev_induct)
  case (snoc inp inps)
  obtain buf adm where f: "fold attempt inps ([], []) = (buf, adm)" by (cases "fold attempt inps ([], [])")
  have IH: "buf = drop (length (map diNow adm) - 6) (map diNow adm)" "sorted (map diNow adm)" "set adm \<subseteq> set inps"
    "length (starts_within T adm) \<le> 5" for T
    using snoc by (auto simp: f sorted_append)
  have le: "\<forall>i \<in> set adm. diNow i \<le> diNow inp" using snoc.prems(1) IH(3) by (auto simp: sorted_append)
  show ?case
  proof (cases "shouldDeferWake (inp\<lparr>diRecentRunStarts := Some buf\<rparr>) = Run_now")
    case False
    then have "attempt inp (buf, adm) = (buf, adm)" by (simp add: attempt_def)
    then show ?thesis using IH by (auto simp: f)
  next
    case True
    have few: "length (starts_within T (adm @ [inp])) \<le> 5" for T
    proof (cases "diIntent inp \<noteq> Intent_manual \<and> T \<le> diNow inp \<and> diNow inp \<le> T + 60000")
      case False
      then show ?thesis using IH(4)[of T] by (auto simp: starts_within_def)
    next
      case in_window: True
      have "length (filter (\<lambda>t. diNow inp - 60000 \<le> t) (map diNow adm)) < 5"
        by (rule flood_passes[OF True[unfolded IH(1)] _ _ IH(2)]) (use in_window snoc.prems(2) in auto)
      moreover have "length (starts_within T adm) \<le> length (filter (\<lambda>t. diNow inp - 60000 \<le> t) (map diNow adm))"
        unfolding starts_within_def filter_map length_map comp_def
        using in_window by (intro length_filter_mono) auto
      ultimately show ?thesis by (simp add: starts_within_def)
    qed
    have "attempt inp (buf, adm) = (drop (length (map diNow (adm @ [inp])) - 6) (map diNow (adm @ [inp])), adm @ [inp])"
      using True recent_suffix[of "map diNow adm" "diNow inp"] by (simp add: attempt_def IH(1))
    then show ?thesis
      using IH(2,3) le few by (auto simp: f sorted_append)
  qed
qed (simp add: starts_within_def)

section \<open>Active hours\<close>

lemma number_of_pair:
  "digit a \<Longrightarrow> digit b \<Longrightarrow> number_of [a, b] = 10 * (of_char a - 48) + (of_char b - 48)"
  by (simp add: number_of_def)

lemma digit_range: "digit c \<Longrightarrow> 48 \<le> (of_char c :: int) \<and> (of_char c :: int) \<le> 57"
  by (auto simp: digit_def)

lemma active_hours_time_range:
  assumes "active_hours_time s = Some (h, m)"
  shows "0 \<le> h \<and> h \<le> 24 \<and> 0 \<le> m \<and> m < 60 \<and> (h = 24 \<longrightarrow> m = 0)"
  using assms
proof (induction s rule: active_hours_time.induct)
  case (1 a b c d e)
  from 1 have m: "h = number_of [a, b]" "m = number_of [d, e]" by (auto split: if_splits)
  from 1 consider (clock) "digit b" "a \<in> set ''01'' \<or> a = CHR ''2'' \<and> b \<in> set ''0123''" "d \<in> set ''012345''" "digit e"
    | (midnight) "[a, b, c, d, e] = ''24:00''"
    by (auto split: if_splits)
  then show ?case
  proof cases
    case clock
    have e: "48 \<le> (of_char e :: int) \<and> (of_char e :: int) \<le> 57" "48 \<le> (of_char b :: int) \<and> (of_char b :: int) \<le> 57"
      using digit_range clock by auto
    have d: "48 \<le> (of_char d :: int) \<and> (of_char d :: int) \<le> 53" using clock(3) by auto
    have a: "of_char a = (48::int) \<or> of_char a = (49::int) \<or> of_char a = (50::int) \<and> of_char b \<le> (51::int)"
      using clock(2) by auto
    then have "0 \<le> h" "h < 24" using e unfolding m number_of_def by auto
    moreover have "0 \<le> m" "m < 60" using e d unfolding m number_of_def by simp_all
    ultimately show ?thesis by simp
  next
    case midnight
    then show ?thesis unfolding m by (simp add: number_of_def)
  qed
qed simp_all

lemma parseActiveHoursTime_range:
  assumes "parseActiveHoursTime allow24 raw = Some t"
  shows "0 \<le> t \<and> t \<le> 1440 \<and> (\<not> allow24 \<longrightarrow> t < 1440)"
proof -
  obtain h m where hm: "active_hours_time (js_nullish raw []) = Some (h, m)"
    using assms by (auto simp: parseActiveHoursTime_def split: option.splits)
  show ?thesis
    using active_hours_time_range[OF hm] assms hm
    by (auto simp: parseActiveHoursTime_def split: if_splits)
qed

lemma clock_interval:
  fixes s e c :: int
  assumes "0 \<le> s" "s < 1440" "0 \<le> e" "e \<le> 1440" "s \<noteq> e" "0 \<le> c" "c < 1440"
  shows "(if s < e then s \<le> c \<and> c < e else s \<le> c \<or> c < e) \<longleftrightarrow>
    (c - s) mod 1440 < (if s < e then e - s else e - s + 1440)"
proof (cases "s \<le> c")
  case True
  then have "(c - s) mod 1440 = c - s" using assms by simp
  then show ?thesis using True assms by auto
next
  case False
  have "(c - s) mod 1440 = (c - s + 1440) mod 1440" by simp
  also have "\<dots> = c - s + 1440" using False assms by (intro mod_pos_pos_trivial) auto
  finally show ?thesis using False assms by auto
qed

section \<open>Properties\<close>



text \<open>
  the active hours are the minutes of the clock from the start on, for as long as the
  configured times are apart, around midnight if need be; equal times leave none.
\<close>

theorem active_hours_window:
  assumes "parseActiveHoursTime False (ahStart a) = Some s" "parseActiveHoursTime True (ahEnd a) = Some e"
    and "ziClock z (resolveActiveHoursTimezone z tz (ahTimezone a)) now = Some (h, m)"
    and "0 \<le> h" "h < 24" "0 \<le> m" "m < 60"
  shows "isWithinActiveHours z tz (Some a) now \<longleftrightarrow>
    s \<noteq> e \<and> (h * 60 + m - s) mod 1440 < (if s < e then e - s else e - s + 1440)"
proof -
  have s: "0 \<le> s" "s < 1440" using parseActiveHoursTime_range[OF assms(1)] by simp_all
  have e: "0 \<le> e" "e \<le> 1440" using parseActiveHoursTime_range[OF assms(2)] by simp_all
  have c: "0 \<le> h * 60 + m" "h * 60 + m < 1440" using assms(4-7) by simp_all
  show ?thesis
    using clock_interval[OF s e _ c] assms(1-3)
    by (cases "s = e") (simp_all add: isWithinActiveHours_def resolveMinutesInTimeZone_def)
qed

definition night_shift :: active_hours where
  "night_shift = \<lparr>ahStart = Some ''22:30'', ahEnd = Some ''06:00'', ahTimezone = None\<rparr>"

definition utc_clock :: zone_info where
  "utc_clock = \<lparr>ziValid = (\<lambda>_. False), ziHost = Some ''UTC'',
     ziClock = (\<lambda>_ ms. Some (ms div 3600000 mod 24, ms div 60000 mod 60))\<rparr>"

theorem active_hours_window_witness:
  "isWithinActiveHours utc_clock None (Some night_shift) 3600000 \<longleftrightarrow>
    (1350::int) \<noteq> 360 \<and> ((1::int) * 60 + 0 - 1350) mod 1440 < (if (1350::int) < 360 then 360 - 1350 else 360 - 1350 + 1440)"
  by (rule active_hours_window) (code_simp, code_simp, simp_all add: utc_clock_def)


definition event_at :: "int \<Rightarrow> defer_input" where
  "event_at t = \<lparr>diIntent = Intent_immediate, diNow = t, diNextDueMs = 0, diLastRunStartedAtMs = None,
     diRecentRunStarts = None, diMinSpacingMs = None, diFloodWindowMs = None, diFloodThreshold = None\<rparr>"


end
